(* ===== verification/Go_Strings.thy ===== *)
theory Go_Strings imports Main "HOL-Library.List_Lexorder" "HOL-Library.Char_ord" "HOL-Library.Sublist" begin

text \<open>
  The part of Go's standard library on strings that the program uses: packages
  \<^verbatim>\<open>strings\<close>, \<^verbatim>\<open>strconv\<close> and \<^verbatim>\<open>sort\<close>.  A Go string is a sequence of bytes, and so is a
  \<^typ>\<open>string\<close> here; the order on strings is the bytewise lexicographic order of
  \<^verbatim>\<open>sort.Strings\<close>.  Letter case and white space are those of ASCII: letters and spaces
  that Unicode adds beyond ASCII (several bytes each in UTF-8) are ordinary bytes in
  the model.  A Go \<^verbatim>\<open>int\<close> is an \<^typ>\<open>int\<close>; the parsers check the 64-bit range.
  Nothing in this theory is code of the repository.
\<close>

section \<open>Characters, trimming and case\<close>

definition nl :: string where "nl = [CHR 0x0A]"

definition is_space :: "char \<Rightarrow> bool" where
  "is_space c \<longleftrightarrow> c = CHR '' '' \<or> c = CHR 0x09 \<or> c = CHR 0x0A \<or> c = CHR 0x0B \<or> c = CHR 0x0C \<or> c = CHR 0x0D"

definition trim_left_set :: "char list \<Rightarrow> string \<Rightarrow> string" where
  "trim_left_set cs s = dropWhile (\<lambda>c. c \<in> set cs) s"

definition trim_right_set :: "char list \<Rightarrow> string \<Rightarrow> string" where
  "trim_right_set cs s = rev (dropWhile (\<lambda>c. c \<in> set cs) (rev s))"

text \<open>\<^verbatim>\<open>strings.Trim(s, cutset)\<close> and \<^verbatim>\<open>strings.TrimSpace\<close>.\<close>

definition trim_set :: "char list \<Rightarrow> string \<Rightarrow> string" where
  "trim_set cs s = trim_right_set cs (trim_left_set cs s)"

definition trim_space :: "string \<Rightarrow> string" where
  "trim_space s = rev (dropWhile is_space (rev (dropWhile is_space s)))"

definition lower_char :: "char \<Rightarrow> char" where
  "lower_char c = (let n = of_char c :: nat in if 65 \<le> n \<and> n \<le> 90 then char_of (n + 32) else c)"

definition to_lower :: "string \<Rightarrow> string" where
  "to_lower s = map lower_char s"

definition upper_char :: "char \<Rightarrow> char" where
  "upper_char c = (let n = of_char c :: nat in if 97 \<le> n \<and> n \<le> 122 then char_of (n - 32) else c)"

definition to_upper :: "string \<Rightarrow> string" where
  "to_upper s = map upper_char s"

definition equal_fold :: "string \<Rightarrow> string \<Rightarrow> bool" where
  "equal_fold a b \<longleftrightarrow> to_lower a = to_lower b"

section \<open>Searching and splitting\<close>

definition has_prefix :: "string \<Rightarrow> string \<Rightarrow> bool" where
  "has_prefix s p \<longleftrightarrow> take (length p) s = p"

definition has_suffix :: "string \<Rightarrow> string \<Rightarrow> bool" where
  "has_suffix s p \<longleftrightarrow> has_prefix (rev s) (rev p)"

definition trim_prefix :: "string \<Rightarrow> string \<Rightarrow> string" where
  "trim_prefix s p = (if has_prefix s p then drop (length p) s else s)"

definition trim_suffix :: "string \<Rightarrow> string \<Rightarrow> string" where
  "trim_suffix s p = (if has_suffix s p then take (length s - length p) s else s)"

text \<open>\<^verbatim>\<open>strings.Index\<close>: the first occurrence, \<^const>\<open>None\<close> for Go's \<open>-1\<close>.\<close>

fun str_index :: "string \<Rightarrow> string \<Rightarrow> nat option" where
  "str_index [] p = (if p = [] then Some 0 else None)"
| "str_index (c # s) p = (if has_prefix (c # s) p then Some 0 else map_option Suc (str_index s p))"

definition str_contains :: "string \<Rightarrow> string \<Rightarrow> bool" where
  "str_contains s p \<longleftrightarrow> str_index s p \<noteq> None"

definition contains_any :: "string \<Rightarrow> char list \<Rightarrow> bool" where
  "contains_any s cs \<longleftrightarrow> list_ex (\<lambda>c. c \<in> set cs) s"

text \<open>\<^verbatim>\<open>strings.LastIndexByte\<close>.\<close>

fun last_index :: "string \<Rightarrow> char \<Rightarrow> nat option" where
  "last_index [] c = None"
| "last_index (d # s) c =
     (case last_index s c of Some i \<Rightarrow> Some (Suc i) | None \<Rightarrow> if d = c then Some 0 else None)"

text \<open>\<^verbatim>\<open>strings.Split(s, sep)\<close> for a one-byte separator: always at least one piece.\<close>

fun split_char :: "char \<Rightarrow> string \<Rightarrow> string list" where
  "split_char sep [] = [[]]"
| "split_char sep (c # s) =
     (if c = sep then [] # split_char sep s
      else case split_char sep s of [] \<Rightarrow> [[c]] | p # ps \<Rightarrow> (c # p) # ps)"

text \<open>\<^verbatim>\<open>strings.SplitN(s, sep, 2)\<close>: \<^const>\<open>None\<close> when the separator does not occur.\<close>

fun cut_char :: "char \<Rightarrow> string \<Rightarrow> (string \<times> string) option" where
  "cut_char sep [] = None"
| "cut_char sep (c # s) =
     (if c = sep then Some ([], s) else map_option (\<lambda>(a, b). (c # a, b)) (cut_char sep s))"

text \<open>\<^verbatim>\<open>strings.Fields\<close>.\<close>

fun fields_acc :: "string \<Rightarrow> string \<Rightarrow> string list" where
  "fields_acc acc [] = (if acc = [] then [] else [rev acc])"
| "fields_acc acc (c # s) =
     (if is_space c then (if acc = [] then fields_acc [] s else rev acc # fields_acc [] s)
      else fields_acc (c # acc) s)"

definition str_fields :: "string \<Rightarrow> string list" where
  "str_fields s = fields_acc [] s"

text \<open>\<^verbatim>\<open>strings.ReplaceAll(s, "\r\n", "\n")\<close> and the replacement of one byte by another.\<close>

fun replace_crlf :: "string \<Rightarrow> string" where
  "replace_crlf (c # d # s) =
     (if c = CHR 0x0D \<and> d = CHR 0x0A then CHR 0x0A # replace_crlf s else c # replace_crlf (d # s))"
| "replace_crlf s = s"

definition replace_char :: "char \<Rightarrow> char \<Rightarrow> string \<Rightarrow> string" where
  "replace_char a b s = map (\<lambda>c. if c = a then b else c) s"

fun str_join :: "string list \<Rightarrow> string \<Rightarrow> string" where
  "str_join [] sep = []"
| "str_join [x] sep = x"
| "str_join (x # y # xs) sep = x @ sep @ str_join (y # xs) sep"

section \<open>Numbers\<close>

definition digit_of :: "char \<Rightarrow> nat option" where
  "digit_of c = (let n = of_char c :: nat in if 48 \<le> n \<and> n \<le> 57 then Some (n - 48) else None)"

definition digit_char :: "nat \<Rightarrow> char" where
  "digit_char d = char_of (48 + d)"

fun digits_val :: "nat \<Rightarrow> string \<Rightarrow> nat option" where
  "digits_val acc [] = Some acc"
| "digits_val acc (c # s) =
     (case digit_of c of None \<Rightarrow> None | Some d \<Rightarrow> digits_val (10 * acc + d) s)"

definition max_int64 :: int where "max_int64 = 9223372036854775807"
definition min_int64 :: int where "min_int64 = - 9223372036854775808"

definition int64_range :: "int \<Rightarrow> bool" where
  "int64_range i \<longleftrightarrow> min_int64 \<le> i \<and> i \<le> max_int64"

text \<open>\<^verbatim>\<open>strconv.Atoi\<close>: an optional sign, then at least one decimal digit, in the 64-bit range.\<close>

definition atoi_digits :: "string \<Rightarrow> nat option" where
  "atoi_digits s = (if s = [] then None else digits_val 0 s)"

definition atoi :: "string \<Rightarrow> int option" where
  "atoi s =
     (let v = (case s of
          [] \<Rightarrow> None
        | c # r \<Rightarrow>
            if c = CHR ''-'' then map_option (\<lambda>n. - int n) (atoi_digits r)
            else if c = CHR ''+'' then map_option int (atoi_digits r)
            else map_option int (atoi_digits s))
      in case v of None \<Rightarrow> None | Some i \<Rightarrow> if int64_range i then Some i else None)"

text \<open>\<^verbatim>\<open>strconv.Itoa\<close>.\<close>

fun nat_digits :: "nat \<Rightarrow> string" where
  "nat_digits n = (if n < 10 then [digit_char n] else nat_digits (n div 10) @ [digit_char (n mod 10)])"

declare nat_digits.simps [simp del]

definition itoa :: "int \<Rightarrow> string" where
  "itoa i = (if i < 0 then CHR ''-'' # nat_digits (nat (- i)) else nat_digits (nat i))"

definition hex_val :: "char \<Rightarrow> nat option" where
  "hex_val c = (let n = of_char c :: nat in
     if 48 \<le> n \<and> n \<le> 57 then Some (n - 48)
     else if 97 \<le> n \<and> n \<le> 102 then Some (n - 87)
     else if 65 \<le> n \<and> n \<le> 70 then Some (n - 55) else None)"

definition hex_digit :: "nat \<Rightarrow> char" where
  "hex_digit d = (if d < 10 then char_of (48 + d) else char_of (87 + d))"

fun hex_uint :: "nat \<Rightarrow> string \<Rightarrow> nat option" where
  "hex_uint acc [] = Some acc"
| "hex_uint acc (c # s) = (case hex_val c of None \<Rightarrow> None | Some d \<Rightarrow> hex_uint (16 * acc + d) s)"

text \<open>\<^verbatim>\<open>strconv.Quote\<close>, the \<open>%q\<close> verb, for bytes of ASCII; a byte of a multi-byte
  character is kept as it is.\<close>

definition quote_char :: "char \<Rightarrow> string" where
  "quote_char c = (let n = of_char c :: nat in
     if c = CHR 0x22 \<or> c = CHR 0x5C then [CHR 0x5C, c]
     else if n = 7 then [CHR 0x5C, CHR ''a''] else if n = 8 then [CHR 0x5C, CHR ''b'']
     else if n = 9 then [CHR 0x5C, CHR ''t''] else if n = 10 then [CHR 0x5C, CHR ''n'']
     else if n = 11 then [CHR 0x5C, CHR ''v''] else if n = 12 then [CHR 0x5C, CHR ''f'']
     else if n = 13 then [CHR 0x5C, CHR ''r'']
     else if n < 32 \<or> n = 127 then [CHR 0x5C, CHR ''x'', hex_digit (n div 16), hex_digit (n mod 16)]
     else [c])"

definition go_quote :: "string \<Rightarrow> string" where
  "go_quote s = CHR 0x22 # concat (map quote_char s) @ [CHR 0x22]"

section \<open>Laws\<close>

lemma lower_char_idem [simp]: "lower_char (lower_char c) = lower_char c"
  by (simp add: lower_char_def Let_def)

lemma to_lower_idem [simp]: "to_lower (to_lower s) = to_lower s"
  by (simp add: to_lower_def)

lemma length_to_lower [simp]: "length (to_lower s) = length s"
  by (simp add: to_lower_def)

lemma equal_fold_refl [simp]: "equal_fold a a"
  by (simp add: equal_fold_def)

lemma equal_fold_sym: "equal_fold a b \<longleftrightarrow> equal_fold b a"
  by (auto simp: equal_fold_def)

lemma of_char_inject: "(of_char c = (of_char d :: nat)) = (c = d)"
  by (metis char_of_char)

lemma is_space_of_char: "is_space c \<longleftrightarrow> (of_char c :: nat) \<in> {9, 10, 11, 12, 13, 32}"
proof
  show "is_space c \<Longrightarrow> (of_char c :: nat) \<in> {9, 10, 11, 12, 13, 32}"
    by (auto simp: is_space_def)
next
  assume "(of_char c :: nat) \<in> {9, 10, 11, 12, 13, 32}"
  then have "(of_char c :: nat) \<in> of_char ` {CHR 0x09, CHR 0x0A, CHR 0x0B, CHR 0x0C, CHR 0x0D, CHR '' ''}"
    by simp
  then obtain d where d: "(of_char c :: nat) = of_char d"
      "d \<in> {CHR 0x09, CHR 0x0A, CHR 0x0B, CHR 0x0C, CHR 0x0D, CHR '' ''}"
    by (rule imageE)
  from d(1) have "c = d" by (simp only: of_char_inject)
  with d(2) show "is_space c" by (auto simp: is_space_def)
qed

lemma is_space_lower_char [simp]: "is_space (lower_char c) = is_space c"
  by (auto simp: is_space_of_char lower_char_def Let_def)

lemma trim_space_to_lower: "trim_space (to_lower s) = to_lower (trim_space s)"
  by (simp add: trim_space_def to_lower_def dropWhile_map rev_map comp_def)

lemma nat_digits_shape: "nat_digits n \<noteq> [] \<and> (\<forall>c \<in> set (nat_digits n). \<exists>d < 10. c = digit_char d)"
proof (induction n rule: nat_digits.induct)
  case (1 n)
  then show ?case
    by (cases "n < 10") (auto simp: nat_digits.simps [of n] intro: exI [of _ "n mod 10"])
qed

lemma digit_char_nat [simp]: "d < 10 \<Longrightarrow> (of_char (digit_char d) :: nat) = 48 + d"
  by (simp add: digit_char_def)

lemma nat_digits_nonempty [simp]: "nat_digits n \<noteq> []"
  using nat_digits_shape by blast

lemma digit_char_eval [simp]:
  "digit_char 0 = CHR ''0''" "digit_char (Suc 0) = CHR ''1''" "digit_char 2 = CHR ''2''"
  "digit_char 3 = CHR ''3''" "digit_char 4 = CHR ''4''" "digit_char 5 = CHR ''5''"
  "digit_char 6 = CHR ''6''" "digit_char 7 = CHR ''7''" "digit_char 8 = CHR ''8''" "digit_char 9 = CHR ''9''"
  by code_simp+

lemma digit_of_digit_char [simp]: "d < 10 \<Longrightarrow> digit_of (digit_char d) = Some d"
  by (simp add: digit_of_def)

lemma digits_val_append:
  "digits_val acc (s @ t) = (case digits_val acc s of None \<Rightarrow> None | Some v \<Rightarrow> digits_val v t)"
  by (induction acc s rule: digits_val.induct) (auto split: option.splits)

lemma digits_val_nat_digits [simp]: "digits_val 0 (nat_digits n) = Some n"
proof (induction n rule: nat_digits.induct)
  case (1 n)
  then show ?case
    by (cases "n < 10") (simp_all add: nat_digits.simps [of n] digits_val_append)
qed

lemma nat_digits_no_sign: "c \<in> set (nat_digits n) \<Longrightarrow> c \<noteq> CHR ''-'' \<and> c \<noteq> CHR ''+'' \<and> \<not> is_space c"
proof -
  assume "c \<in> set (nat_digits n)"
  then obtain d where "d < 10" "c = digit_char d" using nat_digits_shape by blast
  then have "(of_char c :: nat) = 48 + d" by simp
  with \<open>d < 10\<close> show ?thesis by (auto simp: is_space_of_char)
qed

text \<open>\<^verbatim>\<open>Atoi\<close> reads back what \<^verbatim>\<open>Itoa\<close> printed.\<close>

lemma atoi_itoa [simp]:
  assumes "int64_range i"
  shows "atoi (itoa i) = Some i"
proof -
  have shape: "\<exists>c r. nat_digits n = c # r \<and> c \<noteq> CHR ''-'' \<and> c \<noteq> CHR ''+''" for n
    using nat_digits_no_sign [of _ n] nat_digits_nonempty [of n] by (cases "nat_digits n") auto
  show ?thesis
  proof (cases "i < 0")
    case True
    then show ?thesis using assms by (simp add: atoi_def itoa_def atoi_digits_def)
  next
    case False
    obtain c r where cr: "nat_digits (nat i) = c # r" "c \<noteq> CHR ''-''" "c \<noteq> CHR ''+''"
      using shape by blast
    have "atoi_digits (c # r) = Some (nat i)"
      using digits_val_nat_digits [of "nat i"] cr(1) by (simp add: atoi_digits_def)
    then show ?thesis using assms False cr by (simp add: atoi_def itoa_def del: digits_val.simps)
  qed
qed

lemma itoa_nonempty [simp]: "itoa i \<noteq> []"
  by (simp add: itoa_def)

lemma itoa_inject: "int64_range i \<Longrightarrow> int64_range j \<Longrightarrow> itoa i = itoa j \<Longrightarrow> i = j"
  by (metis atoi_itoa option.inject)

section \<open>Lines\<close>

lemma split_char_nonempty [simp]: "split_char sep a \<noteq> []"
  by (induction a) (auto split: list.splits)

lemma split_char_append:
  "split_char sep (a @ sep # b) = split_char sep a @ split_char sep b"
proof (induction a)
  case (Cons c a)
  then show ?case by (cases "split_char sep a") auto
qed simp

lemma split_char_none: "sep \<notin> set a \<Longrightarrow> split_char sep a = [a]"
  by (induction a) auto

lemma split_char_join:
  "xs \<noteq> [] \<Longrightarrow> (\<forall>x\<in>set xs. sep \<notin> set x) \<Longrightarrow> split_char sep (str_join xs [sep]) = xs"
  by (induction xs "[sep]" rule: str_join.induct) (simp_all add: split_char_none split_char_append)

lemma split_char_free: "x \<in> set (split_char sep a) \<Longrightarrow> sep \<notin> set x"
  by (induction a arbitrary: x) (auto split: list.splits if_splits)

lemma split_char_subset: "x \<in> set (split_char sep a) \<Longrightarrow> set x \<subseteq> set a"
  by (induction a arbitrary: x) (fastforce split: list.splits if_splits)+

lemma trim_space_subset: "set (trim_space s) \<subseteq> set s"
  unfolding trim_space_def by (metis set_dropWhileD set_rev subsetI)

lemma dropWhile_idem [simp]: "dropWhile P (dropWhile P xs) = dropWhile P xs"
  by (induction xs) auto

lemma dropWhile_last: "\<not> P x \<Longrightarrow> \<exists>ys. dropWhile P (zs @ [x]) = ys @ [x]"
  by (induction zs) auto

lemma trim_space_idem [simp]: "trim_space (trim_space s) = trim_space s"
proof (cases "dropWhile is_space s")
  case Nil
  have t: "trim_space s = []" unfolding trim_space_def Nil rev.simps dropWhile.simps ..
  show ?thesis unfolding t by (simp add: trim_space_def)
next
  case (Cons x xs)
  have x: "\<not> is_space x" using hd_dropWhile [of is_space s] unfolding Cons by simp
  from dropWhile_last [where P = is_space, OF x, of "rev xs"]
  obtain ys where ys: "dropWhile is_space (rev xs @ [x]) = ys @ [x]" ..
  have t: "trim_space s = rev (ys @ [x])" unfolding trim_space_def Cons rev.simps ys ..
  have d: "dropWhile is_space (rev (ys @ [x])) = rev (ys @ [x])" using x by simp
  have e: "dropWhile is_space (ys @ [x]) = ys @ [x]"
    using dropWhile_idem [of is_space "rev xs @ [x]"] unfolding ys .
  show ?thesis unfolding t unfolding trim_space_def d rev_rev_ident e ..
qed

lemma all_dropWhile: "(\<forall>c\<in>set (dropWhile P s). P c) \<longleftrightarrow> (\<forall>c\<in>set s. P c)"
  by (induction s) auto

lemma trim_space_empty: "trim_space s = [] \<longleftrightarrow> (\<forall>c\<in>set s. is_space c)"
  by (simp add: trim_space_def all_dropWhile)

lemma replace_crlf_id: "CHR 0x0D \<notin> set s \<Longrightarrow> replace_crlf s = s"
  by (induction s rule: replace_crlf.induct) auto

end
