(* ===== verification/Prelude.thy ===== *)
theory Prelude imports Go_Strings begin

text \<open>
  What every component shares: the collections of rewrite and case rules the proofs
  draw on, Go's \<^verbatim>\<open>error\<close> values and results, and the ``set as a sorted slice'' idiom
  (a Go map used as a set, its keys collected and sorted) with its interface as a
  locale and its laws.
\<close>

named_theorems step_simps \<open>unfolding rules of the model's operations\<close>
named_theorems frame_simps \<open>what an operation leaves unchanged\<close>
named_theorems res_elims \<open>inversion of a successful result\<close>

section \<open>Errors and results\<close>

text \<open>
  An \<^verbatim>\<open>error\<close> of Go is its text and the sentinel that \<^verbatim>\<open>errors.Is\<close> finds in its chain.
  \<^verbatim>\<open>fmt.Errorf("...: %w", err)\<close> extends the text and keeps the sentinel; with \<open>%v\<close>
  the sentinel is lost.
\<close>

datatype err_kind = NotExist | Exist | Permission | ProcessDone | Canceled | Plain

datatype gerr = GErr (err_kind: err_kind) (err_text: string)

type_synonym 'a res = "gerr + 'a"

definition new_err :: "string \<Rightarrow> gerr" where
  "new_err s = GErr Plain s"

definition wrap_err :: "string \<Rightarrow> gerr \<Rightarrow> gerr" where
  "wrap_err pre e = GErr (err_kind e) (pre @ err_text e)"

definition wrap_out :: "string \<Rightarrow> gerr \<Rightarrow> string \<Rightarrow> gerr" where
  "wrap_out pre e out = GErr (err_kind e) (pre @ err_text e @ '': '' @ out)"

definition is_ok :: "'a res \<Rightarrow> bool" where
  "is_ok r = (case r of Inr _ \<Rightarrow> True | Inl _ \<Rightarrow> False)"

lemma is_ok_simps [simp]: "is_ok (Inr x)" "\<not> is_ok (Inl e)"
  by (simp_all add: is_ok_def)

lemma is_ok_iff: "is_ok r \<longleftrightarrow> (\<exists>x. r = Inr x)"
  by (cases r) simp_all

lemma err_kind_new [simp]: "err_kind (new_err s) = Plain"
  by (simp add: new_err_def)

lemma err_kind_wrap [simp]: "err_kind (wrap_err pre e) = err_kind e"
  by (simp add: wrap_err_def)

lemma err_kind_wrap_out [simp]: "err_kind (wrap_out pre e out) = err_kind e"
  by (simp add: wrap_out_def)

section \<open>Sets as sorted slices\<close>

text \<open>
  The keys of a map used as a set, collected into a slice and sorted.  The iteration
  order of the map does not matter, since the slice is sorted afterwards.
\<close>

definition sorted_keys :: "'a::linorder list \<Rightarrow> 'a list" where
  "sorted_keys xs = sort (remdups xs)"

lemma set_sorted_keys [simp]: "set (sorted_keys xs) = set xs"
  by (simp add: sorted_keys_def)

lemma distinct_sorted_keys [simp]: "distinct (sorted_keys xs)"
  by (simp add: sorted_keys_def)

lemma sorted_sorted_keys [simp]: "sorted (sorted_keys xs)"
  by (simp add: sorted_keys_def)

lemma sorted_keys_Nil [simp]: "sorted_keys [] = []"
  by (simp add: sorted_keys_def)

lemma sorted_keys_unique:
  "sorted xs \<Longrightarrow> distinct xs \<Longrightarrow> sorted ys \<Longrightarrow> distinct ys \<Longrightarrow> set xs = set ys \<Longrightarrow> xs = ys"
  by (rule sorted_distinct_set_unique)

lemma sorted_keys_fixed: "sorted xs \<Longrightarrow> distinct xs \<Longrightarrow> sorted_keys xs = xs"
  by (simp add: sorted_keys_def distinct_remdups_id sorted_sort_id)

lemma sorted_keys_cong: "set xs = set ys \<Longrightarrow> sorted_keys xs = sorted_keys ys"
  by (rule sorted_keys_unique) simp_all

lemma length_sorted_keys: "length (sorted_keys xs) = card (set xs)"
  by (simp add: sorted_keys_def length_remdups_card_conv)

text \<open>
  The contract of every merge of two such slices.  A client that merges evidence into a
  recorded ownership relies on these laws only.
\<close>

locale set_merge =
  fixes merge :: "'a::linorder list \<Rightarrow> 'a list \<Rightarrow> 'a list"
  assumes set_merge: "set (merge xs ys) = set xs \<union> set ys"
    and merge_sorted: "sorted (merge xs ys)"
    and merge_distinct: "distinct (merge xs ys)"
begin

lemma merge_sorted_keys: "merge xs ys = sorted_keys (xs @ ys)"
  by (rule sorted_keys_unique) (simp_all add: set_merge merge_sorted merge_distinct)

lemma merge_comm: "merge xs ys = merge ys xs"
  by (simp add: merge_sorted_keys Un_commute cong: sorted_keys_cong)
    (rule sorted_keys_cong, auto)

lemma merge_assoc: "merge (merge xs ys) zs = merge xs (merge ys zs)"
  unfolding merge_sorted_keys by (rule sorted_keys_cong) auto

lemma merge_absorb: "set ys \<subseteq> set xs \<Longrightarrow> sorted xs \<Longrightarrow> distinct xs \<Longrightarrow> merge xs ys = xs"
  by (rule sorted_keys_unique) (auto simp: set_merge merge_sorted merge_distinct)

lemma merge_again: "merge (merge xs ys) ys = merge xs ys"
  by (rule merge_absorb) (auto simp: set_merge merge_sorted merge_distinct)

lemma merge_base: "x \<in> set xs \<Longrightarrow> x \<in> set (merge xs ys)"
  by (simp add: set_merge)

end

section \<open>Lists\<close>

text \<open>The first error of a loop over a slice, if any.\<close>

fun first_error :: "('a \<Rightarrow> gerr option) \<Rightarrow> 'a list \<Rightarrow> gerr option" where
  "first_error f [] = None"
| "first_error f (x # xs) = (case f x of Some e \<Rightarrow> Some e | None \<Rightarrow> first_error f xs)"

lemma first_error_None [simp]: "first_error f xs = None \<longleftrightarrow> (\<forall>x\<in>set xs. f x = None)"
  by (induction xs) (auto split: option.splits)

lemma first_error_append:
  "first_error f (xs @ ys) = (case first_error f xs of Some e \<Rightarrow> Some e | None \<Rightarrow> first_error f ys)"
  by (induction xs) (simp_all split: option.splits del: first_error_None)

definition or_error :: "gerr option \<Rightarrow> gerr option \<Rightarrow> gerr option" where
  "or_error a b = (case a of Some e \<Rightarrow> Some e | None \<Rightarrow> b)"

lemma or_error_None [simp]: "or_error a b = None \<longleftrightarrow> a = None \<and> b = None"
  by (auto simp: or_error_def split: option.splits)

lemma or_error_None_left [simp]: "or_error None b = b"
  by (simp add: or_error_def)

end
