(* ===== verification/Go_Path.thy ===== *)
theory Go_Path imports Prelude begin

text \<open>
  Go's package \<^verbatim>\<open>path/filepath\<close> on Unix, as far as the program uses it: lexical
  operations on slash-separated paths, with the facts that keep the program's file
  names apart.  Nothing here is code of the repository.
\<close>

abbreviation slash :: char where "slash \<equiv> CHR ''/''"

fun clean_comps :: "bool \<Rightarrow> string list \<Rightarrow> string list \<Rightarrow> string list" where
  "clean_comps rooted acc [] = rev acc"
| "clean_comps rooted acc (c # cs) =
     (if c = [] \<or> c = ''.'' then clean_comps rooted acc cs
      else if c = ''..'' then
        (case acc of
           [] \<Rightarrow> if rooted then clean_comps rooted [] cs else clean_comps rooted [''..''] cs
         | a # as \<Rightarrow> if a = ''..'' then clean_comps rooted (''..'' # acc) cs
                    else clean_comps rooted as cs)
      else clean_comps rooted (c # acc) cs)"

definition path_clean :: "string \<Rightarrow> string" where
  "path_clean p =
     (let rooted = has_prefix p ''/'';
          body = str_join (clean_comps rooted [] (split_char slash p)) ''/''
      in if rooted then ''/'' @ body else if body = [] then ''.'' else body)"

definition path_join :: "string \<Rightarrow> string \<Rightarrow> string" where
  "path_join a b =
     (if a = [] then (if b = [] then [] else path_clean b)
      else if b = [] then path_clean a else path_clean (a @ ''/'' @ b))"

definition path_base :: "string \<Rightarrow> string" where
  "path_base p =
     (if p = [] then ''.''
      else let q = dropWhile (\<lambda>c. c = slash) (rev p)
           in if q = [] then ''/'' else rev (takeWhile (\<lambda>c. c \<noteq> slash) q))"

definition path_dir :: "string \<Rightarrow> string" where
  "path_dir p = path_clean (rev (dropWhile (\<lambda>c. c \<noteq> slash) (rev p)))"

definition path_is_abs :: "string \<Rightarrow> bool" where
  "path_is_abs p \<longleftrightarrow> has_prefix p ''/''"

text \<open>A file name: not empty, no slash, not one of the two dot names.\<close>

definition file_name :: "string \<Rightarrow> bool" where
  "file_name n \<longleftrightarrow> n \<noteq> [] \<and> slash \<notin> set n \<and> n \<noteq> ''.'' \<and> n \<noteq> ''..''"

lemma path_base_name:
  assumes "n \<noteq> []" "slash \<notin> set n"
  shows "path_base (d @ ''/'' @ n) = n" and "path_base n = n"
proof -
  obtain c r where n: "rev n = c # r" using assms(1) by (cases "rev n") auto
  have c: "c \<noteq> slash" using n assms(2) by (metis list.set_intros(1) set_rev)
  have tw: "takeWhile (\<lambda>c. c \<noteq> slash) (rev n @ slash # rev d) = rev n"
    using assms(2) by (subst takeWhile_append2) auto
  show "path_base (d @ ''/'' @ n) = n"
    using c n tw by (simp add: path_base_def Let_def)
  show "path_base n = n"
    using c n assms(1,2) by (simp add: path_base_def Let_def)
      (metis rev_rev_ident set_rev takeWhile_eq_all_conv)
qed

lemma clean_comps_last:
  "file_name n \<Longrightarrow> \<exists>xs. clean_comps r acc (cs @ [n]) = xs @ [n]"
  by (induction r acc cs rule: clean_comps.induct)
    (auto simp: file_name_def split: list.splits)

lemma str_join_snoc: "str_join (xs @ [y]) sep = (if xs = [] then y else str_join xs sep @ sep @ y)"
  by (induction xs sep rule: str_join.induct) auto

lemma has_prefix_append_slash: "a \<noteq> [] \<Longrightarrow> has_prefix (a @ slash # n) ''/'' = has_prefix a ''/''"
  by (cases a) (auto simp: has_prefix_def)

text \<open>The last element of a joined path is the name that was joined on.\<close>

lemma path_join_shape:
  assumes "file_name n"
  shows "path_join r n = n \<or> (\<exists>d. path_join r n = d @ ''/'' @ n)"
proof -
  have n: "n \<noteq> []" "slash \<notin> set n" "n \<noteq> ''.''" "n \<noteq> ''..''" using assms by (auto simp: file_name_def)
  show ?thesis
  proof (cases "r = []")
    case True
    have "\<not> has_prefix n ''/''" using n by (cases n) (auto simp: has_prefix_def)
    then show ?thesis
      using True n by (simp add: path_join_def path_clean_def split_char_none)
  next
    case False
    obtain xs where xs: "clean_comps (has_prefix r ''/'') [] (split_char slash r @ [n]) = xs @ [n]"
      using clean_comps_last [OF assms] by blast
    have "path_join r n =
       (let body = str_join (xs @ [n]) ''/'' in
         if has_prefix r ''/'' then ''/'' @ body else if body = [] then ''.'' else body)"
      using False n xs
      by (cases "has_prefix r ''/''")
        (simp_all add: path_join_def path_clean_def split_char_append split_char_none Let_def
          has_prefix_append_slash del: str_join.simps)
    moreover have "str_join (xs @ [n]) ''/'' = (if xs = [] then n else str_join xs ''/'' @ slash # n)"
      by (simp add: str_join_snoc)
    ultimately have "path_join r n = n \<or> path_join r n = ''/'' @ n \<or>
        path_join r n = str_join xs ''/'' @ ''/'' @ n \<or> path_join r n = (''/'' @ str_join xs ''/'') @ ''/'' @ n"
      using n(1) by (auto simp: Let_def split: if_splits)
    then show ?thesis by (metis append_Nil)
  qed
qed

lemma path_base_join [simp]: "file_name n \<Longrightarrow> path_base (path_join r n) = n"
  using path_join_shape [of n r] path_base_name [of n]
  by (auto simp: file_name_def)

lemma path_join_inject:
  "file_name n \<Longrightarrow> file_name m \<Longrightarrow> path_join r n = path_join r' m \<Longrightarrow> n = m"
  by (metis path_base_join)

lemma path_join_nonempty [simp]: "file_name n \<Longrightarrow> path_join r n \<noteq> []"
  using path_join_shape [of n r] by (auto simp: file_name_def)

lemma path_base_suffix:
  assumes "file_name n" "slash \<notin> set s"
  shows "path_base (path_join r n @ s) = n @ s"
proof -
  have "n @ s \<noteq> []" "slash \<notin> set (n @ s)" using assms by (auto simp: file_name_def)
  then show ?thesis
    using path_join_shape [OF assms(1), of r] path_base_name [of "n @ s"] by auto
qed

text \<open>The components of a path, as \<open>path_clean\<close> leaves them, and the pieces that a cleaned
  path splits into.\<close>

definition path_comps :: "string \<Rightarrow> string list" where
  "path_comps p = clean_comps (has_prefix p ''/'') [] (split_char slash p)"

definition path_parts :: "string \<Rightarrow> string list" where
  "path_parts p = (if has_prefix p ''/'' then [[]] else []) @ path_comps p"

lemma clean_comps_append:
  "clean_comps r acc (xs @ ys) = clean_comps r (rev (clean_comps r acc xs)) ys"
  by (induction r acc xs rule: clean_comps.induct) (auto split: list.splits)

text \<open>A cleaned list: no empty and no dot components; parent components only in front, and
  none below the root.\<close>

fun clean_list :: "bool \<Rightarrow> string list \<Rightarrow> bool" where
  "clean_list r [] = True"
| "clean_list r (c # cs) = (c \<noteq> [] \<and> c \<noteq> ''.'' \<and> slash \<notin> set c \<and> (if c = ''..'' then \<not> r \<and> clean_list r cs else clean_list True cs))"

lemma clean_list_True: "clean_list True cs \<Longrightarrow> clean_list r cs"
  by (induction cs) (auto split: if_splits)

lemma clean_list_snoc:
  "clean_list r (cs @ [c]) \<longleftrightarrow> clean_list r cs \<and> c \<noteq> [] \<and> c \<noteq> ''.'' \<and> slash \<notin> set c \<and>
     (c = ''..'' \<longrightarrow> \<not> r \<and> set cs \<subseteq> {''..''})"
  by (induction cs arbitrary: r) auto

lemma clean_comps_clean:
  "clean_list r (rev acc) \<Longrightarrow> (\<forall>c\<in>set cs. slash \<notin> set c) \<Longrightarrow> clean_list r (clean_comps r acc cs)"
proof (induction r acc cs rule: clean_comps.induct)
  case (2 r acc c cs)
  have snoc: "clean_list r (rev acc)" "slash \<notin> set c" "\<forall>c\<in>set cs. slash \<notin> set c" using 2(7,8) by auto
  note IH = 2(1-6)
  consider "c = [] \<or> c = ''.''" | "c = ''..''" "acc = []" | a as where "c = ''..''" "acc = a # as"
    | "c \<noteq> []" "c \<noteq> ''.''" "c \<noteq> ''..''"
    by (cases acc) auto
  then show ?case
  proof cases
    case 1
    then show ?thesis using IH(1) [OF 1] snoc by auto
  next
    case 2
    then show ?thesis using IH(2,3) snoc by auto
  next
    case 3
    show ?thesis
    proof (cases "a = ''..''")
      case True
      have "clean_list r ((rev as @ [a]) @ [c])"
        unfolding clean_list_snoc [of r "rev as @ [a]"] using snoc(1) 3 True by (auto simp: clean_list_snoc)
      then show ?thesis using IH(4) 3 True snoc by auto
    next
      case False
      then show ?thesis using IH(5) 3 snoc by (auto simp: clean_list_snoc)
    qed
  next
    case 4
    then show ?thesis using IH(6) snoc by (auto simp: clean_list_snoc)
  qed
qed simp

lemma clean_comps_id:
  "clean_list r (rev acc @ cs) \<Longrightarrow> clean_comps r acc cs = rev acc @ cs"
proof (induction cs arbitrary: acc)
  case (Cons c cs)
  have "clean_list r ((rev acc @ [c]) @ cs)" using Cons.prems by simp
  moreover have "clean_list r (xs @ ys) \<Longrightarrow> clean_list r xs" for xs ys :: "string list"
    by (induction xs arbitrary: r) (auto split: if_splits)
  ultimately have s: "clean_list r (rev acc @ [c])" by blast
  then have "c \<noteq> [] \<and> c \<noteq> ''.'' \<and> (c = ''..'' \<longrightarrow> \<not> r \<and> (\<forall>a as. acc = a # as \<longrightarrow> a = ''..''))"
    by (auto simp: clean_list_snoc)
  with Cons show ?case by (auto split: list.splits)
qed simp

lemma split_char_slash_free: "c \<in> set (split_char sep s) \<Longrightarrow> sep \<notin> set c"
  using split_char_free by blast

lemma path_comps_clean: "clean_list (has_prefix p ''/'') (path_comps p)"
  unfolding path_comps_def by (rule clean_comps_clean) (use split_char_slash_free in auto)

lemma clean_list_no_slash: "clean_list r cs \<Longrightarrow> c \<in> set cs \<Longrightarrow> slash \<notin> set c \<and> c \<noteq> []"
  by (induction cs arbitrary: r) (auto split: if_splits)

lemma split_join_clean: "clean_list r cs \<Longrightarrow> cs \<noteq> [] \<Longrightarrow> split_char slash (str_join cs ''/'') = cs"
  using split_char_join [of cs slash] clean_list_no_slash by fastforce

lemma rooted_join_clean: "clean_list r cs \<Longrightarrow> \<not> has_prefix (str_join cs ''/'') ''/''"
proof (cases cs)
  case (Cons c ds)
  moreover assume "clean_list r cs"
  ultimately obtain a s where "c = a # s" "a \<noteq> slash" by (cases c) auto
  then show ?thesis using Cons by (cases ds) (auto simp: has_prefix_def)
qed (simp add: has_prefix_def)

lemma path_clean_comps: "path_clean p =
    (if has_prefix p ''/'' then ''/'' @ str_join (path_comps p) ''/'' else if path_comps p = [] then ''.'' else str_join (path_comps p) ''/'')"
proof -
  have "str_join (path_comps p) ''/'' = [] \<longleftrightarrow> path_comps p = []"
  proof (cases "path_comps p")
    case (Cons c cs)
    then have "c \<noteq> []" using path_comps_clean [of p] by auto
    with Cons show ?thesis by (cases cs) auto
  qed simp
  then show ?thesis
    by (cases "has_prefix p ''/''") (simp_all add: path_clean_def path_comps_def Let_def)
qed

lemma split_path_clean:
  "path_comps p \<noteq> [] \<Longrightarrow> split_char slash (path_clean p) = path_parts p"
  using split_join_clean [OF path_comps_clean, of p]
  by (auto simp: path_clean_comps path_parts_def)

lemma path_clean_rooted [simp]: "has_prefix (path_clean p) ''/'' = has_prefix p ''/''"
  using rooted_join_clean [OF path_comps_clean, of p]
  by (auto simp: path_clean_comps has_prefix_def)

lemma path_comps_of_clean [simp]: "path_comps (path_clean p) = path_comps p"
proof (cases "path_comps p = []")
  case True
  then show ?thesis by (cases "has_prefix p ''/''") (simp_all add: path_clean_comps [of p], simp_all add: path_comps_def has_prefix_def)
next
  case False
  have "clean_comps (has_prefix p ''/'') [] (path_comps p) = path_comps p"
    using clean_comps_id [of "has_prefix p ''/''" "[]"] path_comps_clean [of p] by simp
  then show ?thesis
    unfolding path_comps_def [of "path_clean p"] path_clean_rooted split_path_clean [OF False] path_parts_def
    by (cases "has_prefix p ''/''") simp_all
qed

lemma path_parts_of_clean [simp]: "path_parts (path_clean p) = path_parts p"
  by (simp add: path_parts_def)

lemma file_name_clean: "file_name n \<Longrightarrow> clean_comps r acc [n] = rev acc @ [n]"
  by (simp add: file_name_def)

lemma path_parts_join_raw:
  "file_name n \<Longrightarrow> r \<noteq> [] \<Longrightarrow> path_parts (r @ ''/'' @ n) = path_parts r @ [n] \<and> path_comps (r @ ''/'' @ n) = path_comps r @ [n]"
proof -
  assume n: "file_name n" and r: "r \<noteq> []"
  have "split_char slash (r @ ''/'' @ n) = split_char slash r @ [n]"
    using n by (simp add: split_char_append split_char_none file_name_def)
  moreover have "has_prefix (r @ ''/'' @ n) ''/'' = has_prefix r ''/''"
    using r by (cases r) (auto simp: has_prefix_def)
  ultimately show ?thesis
    unfolding path_parts_def path_comps_def clean_comps_append file_name_clean [OF n]
    by (simp del: clean_comps.simps add: file_name_clean [OF n] clean_comps_append)
qed

lemma path_join_eq: "file_name n \<Longrightarrow> path_join r n = (if r = [] then n else path_clean (r @ ''/'' @ n))"
proof -
  assume n: "file_name n"
  then have "\<not> has_prefix n ''/''" by (cases n) (auto simp: has_prefix_def file_name_def)
  with n show ?thesis by (auto simp: path_join_def path_clean_def split_char_none file_name_def)
qed

lemma path_parts_join [simp]:
  "file_name n \<Longrightarrow> path_parts (path_join r n) = path_parts r @ [n]"
proof -
  assume n: "file_name n"
  then have "\<not> has_prefix n ''/''" by (cases n) (auto simp: has_prefix_def file_name_def)
  then have "path_parts n = [n]" "path_parts [] = []"
    using n by (simp_all add: path_parts_def path_comps_def split_char_none file_name_def has_prefix_def)
  with n show ?thesis using path_parts_join_raw [OF n, of r] by (simp add: path_join_eq)
qed

lemma split_path_join [simp]:
  "file_name n \<Longrightarrow> split_char slash (path_join r n) = path_parts r @ [n]"
proof -
  assume n: "file_name n"
  have "path_parts [] = []" by (simp add: path_parts_def path_comps_def has_prefix_def)
  then show ?thesis
    using n split_path_clean [of "r @ ''/'' @ n"] path_parts_join_raw [OF n, of r]
    by (cases "r = []") (auto simp: path_join_eq split_char_none file_name_def)
qed

lemma path_clean_join [simp]: "file_name n \<Longrightarrow> path_clean (path_join r n) = path_join r n"
proof -
  assume n: "file_name n"
  let ?p = "path_join r n"
  have "path_clean (path_clean p) = path_clean p" for p
    by (simp add: path_clean_comps [of "path_clean p"]) (simp add: path_clean_comps [of p])
  moreover have "path_clean n = n"
    using path_join_eq [OF n, of "[]"] n by (simp add: path_join_def file_name_def)
  ultimately show ?thesis using path_join_eq [OF n, of r] by simp
qed

text \<open>Below a directory: splitting extends the splitting of the directory.\<close>

lemma split_below: "has_prefix q (d @ ''/'') \<Longrightarrow> \<exists>s. split_char slash q = split_char slash d @ split_char slash s \<and> q = d @ ''/'' @ s"
proof -
  assume "has_prefix q (d @ ''/'')"
  then obtain s where "q = (d @ ''/'') @ s" by (metis has_prefix_def append_take_drop_id)
  then show ?thesis by (simp add: split_char_append)
qed

lemma split_char_inject: "split_char sep s = split_char sep t \<longleftrightarrow> s = t"
proof (induction s arbitrary: t)
  case Nil
  then show ?case by (cases t) (auto split: list.splits simp: split_char_nonempty)
next
  case (Cons c s)
  show ?case
  proof (cases t)
    case Nil
    then show ?thesis by (auto split: list.splits simp: split_char_nonempty)
  next
    case t: (Cons d u)
    obtain p ps q qs where "split_char sep s = p # ps" "split_char sep u = q # qs"
      by (metis neq_Nil_conv split_char_nonempty)
    then show ?thesis using t Cons [of u] by auto
  qed
qed

text \<open>A cleaned absolute path has no parent component.\<close>

lemma clean_no_parent:
  "has_prefix p ''/'' \<Longrightarrow> ''..'' \<notin> set (split_char slash (path_clean p))"
proof -
  assume p: "has_prefix p ''/''"
  have "clean_list True cs \<Longrightarrow> ''..'' \<notin> set cs" for cs by (induction cs) (auto split: if_splits)
  then have no: "''..'' \<notin> set (path_comps p)" using path_comps_clean [of p] p by simp
  show ?thesis
  proof (cases "path_comps p = []")
    case True
    then show ?thesis using p by (simp add: path_clean_comps)
  next
    case False
    then show ?thesis using no by (simp add: split_path_clean path_parts_def)
  qed
qed

end
