(* ===== verification/World.thy ===== *)
theory World imports Go_Path begin

text \<open>
  The machine the program runs on.  What the program itself keeps on disk is a map from
  paths to files with the system calls of Go's package \<^verbatim>\<open>os\<close> on it: every call takes one
  tick of the world's counter and may fail there, as an arbitrary fault oracle says; a
  failing write may leave any prefix of its data behind.  \<open>w_trace\<close> is a ghost: every
  state of the file system that ever existed, newest first, so that ``at any moment a
  crash may happen'' is a statement about its elements.  A file whose data reached the
  disk by \<^verbatim>\<open>fsync\<close> has \<open>f_synced\<close>.

  Everything else outside the program (the routing tables of the kernel, the commands
  \<^verbatim>\<open>ip\<close>, \<^verbatim>\<open>nft\<close>, \<^verbatim>\<open>sing-box\<close>, other processes, clocks) is a parameter: a \<open>machine\<close> is a
  record of arbitrary functions over an arbitrary kernel state \<^typ>\<open>'k\<close>, and between any
  two steps of the program \<open>m_drift\<close> may change that state in any way.  \<open>w_log\<close> is a
  ghost: the commands the program executed, oldest first; \<open>w_signals\<close> and \<open>w_requests\<close>
  are the same for the signals it sent and for its HTTP requests.
\<close>

section \<open>State and parameters\<close>

record fnode =
  f_data :: string
  f_perm :: nat
  f_synced :: bool

type_synonym fs = "string \<rightharpoonup> fnode"

datatype fault = Fault (fault_permission: bool) (fault_text: string) (fault_bytes: nat)

text \<open>One reading of the clock: nanoseconds since 1970, the RFC 3339 text of
  \<^verbatim>\<open>time.Time\<close> in JSON, the compact stamp used in file names, and \<^verbatim>\<open>Format\<close> with another layout in
  local time.\<close>

record stamp =
  t_nanos :: int
  t_rfc :: string
  t_compact :: string
  t_format :: "string \<Rightarrow> string"

record iface =
  if_name :: string
  if_up :: bool
  if_loopback :: bool
  if_flags :: string

text \<open>What \<^verbatim>\<open>os.Stat\<close> and \<^verbatim>\<open>os.Lstat\<close> report of a host file.\<close>

record hstat =
  hs_dir :: bool
  hs_symlink :: bool
  hs_regular :: bool
  hs_exec :: bool
  hs_uid :: "nat option"
  hs_perm :: nat

text \<open>A request of the program's HTTP clients (the proxy it goes through, the address its client dials
  whatever the host of the URL is, the method and the URL), and the answer: status, the body as far as it arrived, and the error that ended it, if any.\<close>

record http_request =
  hq_proxy :: "string option"
  hq_dial :: "string option"
  hq_method :: string
  hq_url :: string

record http_response =
  hr_code :: int
  hr_status :: string
  hr_body :: string
  hr_error :: "gerr option"

text \<open>An entry of an archive as \<^verbatim>\<open>archive/zip\<close> and \<^verbatim>\<open>archive/tar\<close> deliver it.\<close>

datatype entry_kind = Dir_entry | Reg_entry | Other_entry

record archive_entry =
  ae_name :: string
  ae_kind :: entry_kind
  ae_mode :: nat
  ae_open :: "gerr option"
  ae_data :: string
  ae_error :: "gerr option"

text \<open>A user of the host as \<^verbatim>\<open>user.LookupId\<close> and \<^verbatim>\<open>GroupIds\<close> report it, an interface as \<^verbatim>\<open>net.Interfaces\<close>
  and \<^verbatim>\<open>Addrs\<close> do, a regular file that \<^verbatim>\<open>filepath.WalkDir\<close> visits, and a program to start with its
  environment and, when it is to run as another user, the credential.\<close>

record passwd =
  pw_uid :: string
  pw_gid :: string
  pw_name :: string
  pw_home :: string
  pw_groups :: "string list"

record net_iface =
  ni_name :: string
  ni_index :: int
  ni_up :: bool
  ni_loopback :: bool
  ni_p2p :: bool
  ni_multicast :: bool
  ni_addrs :: "string list"

record walk_file =
  wf_path :: string
  wf_mod :: int
  wf_size :: int

record launch =
  la_exe :: string
  la_env :: "string list"
  la_cred :: "(nat \<times> nat \<times> nat list) option"

record 'k machine =
  m_fault :: "nat \<Rightarrow> fault option"
  m_clock :: "nat \<Rightarrow> stamp"
  m_rand :: "nat \<Rightarrow> nat"
  m_drift :: "nat \<Rightarrow> 'k \<Rightarrow> 'k"
  m_exec :: "string list \<Rightarrow> 'k \<Rightarrow> (string \<times> gerr option) \<times> 'k"
  m_ifaces :: "'k \<Rightarrow> iface list"
  m_lookpath :: "'k \<Rightarrow> string \<Rightarrow> string option"
  m_proc_dir :: "'k \<Rightarrow> int \<Rightarrow> gerr option"
  m_proc_stat :: "'k \<Rightarrow> int \<Rightarrow> gerr + string"
  m_host_file :: "'k \<Rightarrow> string \<Rightarrow> gerr + string"
  m_host_stat :: "'k \<Rightarrow> string \<Rightarrow> gerr + hstat"
  m_host_lstat :: "'k \<Rightarrow> string \<Rightarrow> gerr + hstat"
  m_getenv :: "string \<Rightarrow> string"
  m_cwd :: string
  m_geteuid :: int
  m_stdin_tty :: bool
  m_getpid :: int
  m_self :: "gerr + string"
  m_output :: "string list \<Rightarrow> 'k \<Rightarrow> (string \<times> (gerr \<times> string option) option) \<times> 'k"
  m_spawn :: "string list \<Rightarrow> 'k \<Rightarrow> (gerr + int) \<times> 'k"
  m_exited :: "'k \<Rightarrow> int \<Rightarrow> gerr option option"
  m_signal :: "int \<Rightarrow> string \<Rightarrow> 'k \<Rightarrow> gerr option \<times> 'k"
  m_dial :: "'k \<Rightarrow> string \<Rightarrow> gerr option"
  m_read_dir :: "'k \<Rightarrow> string \<Rightarrow> gerr + string list"
  m_readlink :: "'k \<Rightarrow> string \<Rightarrow> gerr + string"
  m_http :: "http_request \<Rightarrow> 'k \<Rightarrow> (gerr + http_response) \<times> 'k"
  m_entropy :: "nat \<Rightarrow> nat \<Rightarrow> gerr + nat list"
  m_unzip :: "string \<Rightarrow> gerr + archive_entry list"
  m_untar :: "string \<Rightarrow> gerr + (archive_entry list \<times> gerr option)"
  m_username :: "gerr + string"
  m_getuid :: nat
  m_lookup_user :: "nat \<Rightarrow> gerr + (nat \<times> nat)"
  m_exec_in :: "string list \<Rightarrow> string \<Rightarrow> 'k \<Rightarrow> (string \<times> gerr option) \<times> 'k"
  m_wait :: "int \<Rightarrow> 'k \<Rightarrow> gerr option \<times> 'k"
  m_mkdir :: "string \<Rightarrow> 'k \<Rightarrow> gerr option \<times> 'k"
  m_rmdir :: "string \<Rightarrow> 'k \<Rightarrow> gerr option \<times> 'k"
  m_environ :: "string list"
  m_home :: "gerr + string"
  m_config_dir :: "gerr + string"
  m_passwd :: "string \<Rightarrow> gerr + passwd"
  m_lookup_ip :: "'k \<Rightarrow> string \<Rightarrow> string \<Rightarrow> gerr + nat list list"
  m_net_ifaces :: "'k \<Rightarrow> gerr + net_iface list"
  m_walk :: "'k \<Rightarrow> string \<Rightarrow> walk_file list"
  m_launch :: "launch \<Rightarrow> 'k \<Rightarrow> gerr option \<times> 'k"
  m_rune_lower :: "nat \<Rightarrow> nat"

record 'k world =
  w_files :: fs
  w_trace :: "fs list"
  w_tick :: nat
  w_log :: "string list list"
  w_kernel :: 'k
  w_signals :: "(int \<times> string) list"
  w_requests :: "http_request list"

section \<open>Steps of the machine\<close>

definition fault_err :: "fault \<Rightarrow> gerr" where
  "fault_err f = GErr (if fault_permission f then Permission else Plain) (fault_text f)"

definition tick :: "'k world \<Rightarrow> 'k world" where
  "tick w = w\<lparr>w_tick := Suc (w_tick w)\<rparr>"

definition put_fs :: "fs \<Rightarrow> 'k world \<Rightarrow> 'k world" where
  "put_fs s w = w\<lparr>w_files := s, w_trace := s # w_trace w\<rparr>"

definition fault_now :: "'k machine \<Rightarrow> 'k world \<Rightarrow> fault option" where
  "fault_now m w = m_fault m (w_tick w)"

text \<open>\<^verbatim>\<open>time.Now\<close>.\<close>

definition now :: "'k machine \<Rightarrow> 'k world \<Rightarrow> stamp \<times> 'k world" where
  "now m w = (m_clock m (w_tick w), tick w)"

text \<open>An observation of the kernel, and \<^verbatim>\<open>exec.Command(argv...).CombinedOutput()\<close>.\<close>

definition observe :: "'k machine \<Rightarrow> ('k \<Rightarrow> 'a) \<Rightarrow> 'k world \<Rightarrow> 'a \<times> 'k world" where
  "observe m f w = (let k = m_drift m (w_tick w) (w_kernel w) in (f k, tick w\<lparr>w_kernel := k\<rparr>))"

definition exec_cmd :: "'k machine \<Rightarrow> string list \<Rightarrow> 'k world \<Rightarrow> (string \<times> gerr option) \<times> 'k world" where
  "exec_cmd m argv w =
     (let k = m_drift m (w_tick w) (w_kernel w); (r, k') = m_exec m argv k
      in (r, tick w\<lparr>w_kernel := k', w_log := w_log w @ [argv]\<rparr>))"

text \<open>\<^verbatim>\<open>exec.Command(argv...).Output()\<close>: standard output only; an exit error carries standard
  error.  \<^verbatim>\<open>exec.Command(argv...).Start()\<close> gives the PID of the child.\<close>

definition exec_output ::
  "'k machine \<Rightarrow> string list \<Rightarrow> 'k world \<Rightarrow> (string \<times> (gerr \<times> string option) option) \<times> 'k world" where
  "exec_output m argv w =
     (let k = m_drift m (w_tick w) (w_kernel w); (r, k') = m_output m argv k
      in (r, tick w\<lparr>w_kernel := k', w_log := w_log w @ [argv]\<rparr>))"

definition spawn_cmd :: "'k machine \<Rightarrow> string list \<Rightarrow> 'k world \<Rightarrow> int res \<times> 'k world" where
  "spawn_cmd m argv w =
     (let k = m_drift m (w_tick w) (w_kernel w); (r, k') = m_spawn m argv k
      in (r, tick w\<lparr>w_kernel := k', w_log := w_log w @ [argv]\<rparr>))"

definition send_signal :: "'k machine \<Rightarrow> int \<Rightarrow> string \<Rightarrow> 'k world \<Rightarrow> gerr option \<times> 'k world" where
  "send_signal m pid sig w =
     (let k = m_drift m (w_tick w) (w_kernel w); (r, k') = m_signal m pid sig k
      in (r, tick w\<lparr>w_kernel := k', w_signals := w_signals w @ [(pid, sig)]\<rparr>))"

definition http_do :: "'k machine \<Rightarrow> http_request \<Rightarrow> 'k world \<Rightarrow> http_response res \<times> 'k world" where
  "http_do m q w =
     (let k = m_drift m (w_tick w) (w_kernel w); (r, k') = m_http m q k
      in (r, tick w\<lparr>w_kernel := k', w_requests := w_requests w @ [q]\<rparr>))"

text \<open>\<^verbatim>\<open>CombinedOutput\<close> of a command with the given standard input, logged after a \<open><\<close>;
  \<^verbatim>\<open>cmd.Wait\<close> for a child; \<^verbatim>\<open>os.Mkdir\<close> and \<^verbatim>\<open>os.Remove\<close> of a directory of the host.\<close>

definition exec_input :: "'k machine \<Rightarrow> string list \<Rightarrow> string \<Rightarrow> 'k world \<Rightarrow> (string \<times> gerr option) \<times> 'k world" where
  "exec_input m argv stdin w =
     (let k = m_drift m (w_tick w) (w_kernel w); (r, k') = m_exec_in m argv stdin k
      in (r, tick w\<lparr>w_kernel := k', w_log := w_log w @ [argv @ [''<'', stdin]]\<rparr>))"

definition change_host :: "'k machine \<Rightarrow> ('k \<Rightarrow> 'a \<times> 'k) \<Rightarrow> 'k world \<Rightarrow> 'a \<times> 'k world" where
  "change_host m f w = (let k = m_drift m (w_tick w) (w_kernel w); (r, k') = f k in (r, tick w\<lparr>w_kernel := k'\<rparr>))"

definition wait_child :: "'k machine \<Rightarrow> int \<Rightarrow> 'k world \<Rightarrow> gerr option \<times> 'k world" where
  "wait_child m pid = change_host m (m_wait m pid)"

definition make_dir :: "'k machine \<Rightarrow> string \<Rightarrow> 'k world \<Rightarrow> gerr option \<times> 'k world" where
  "make_dir m p = change_host m (m_mkdir m p)"

definition remove_dir :: "'k machine \<Rightarrow> string \<Rightarrow> 'k world \<Rightarrow> gerr option \<times> 'k world" where
  "remove_dir m p = change_host m (m_rmdir m p)"

text \<open>\<^verbatim>\<open>cmd.Start\<close> with an environment, logged as \<open>launch\<close>, the program and the environment.\<close>

definition start_program :: "'k machine \<Rightarrow> launch \<Rightarrow> 'k world \<Rightarrow> gerr option \<times> 'k world" where
  "start_program m l w =
     (let k = m_drift m (w_tick w) (w_kernel w); (r, k') = m_launch m l k
      in (r, tick w\<lparr>w_kernel := k', w_log := w_log w @ [''launch'' # la_exe l # la_env l]\<rparr>))"

text \<open>\<^verbatim>\<open>net.DialTimeout("tcp", addr, ...)\<close>, of which the program only uses the error.\<close>

definition dial_tcp :: "'k machine \<Rightarrow> string \<Rightarrow> 'k world \<Rightarrow> gerr option \<times> 'k world" where
  "dial_tcp m addr w = observe m (\<lambda>k. m_dial m k addr) w"

text \<open>\<^verbatim>\<open>crypto/rand.Read\<close> of \<open>n\<close> bytes.\<close>

definition random_bytes :: "'k machine \<Rightarrow> nat \<Rightarrow> 'k world \<Rightarrow> nat list res \<times> 'k world" where
  "random_bytes m n w = (map_sum id (\<lambda>bs. map (\<lambda>b. b mod 256) (take n (bs @ replicate n 0))) (m_entropy m (w_tick w) n), tick w)"

text \<open>\<^verbatim>\<open>net.InterfaceByName\<close>.\<close>

definition iface_by_name :: "'k machine \<Rightarrow> string \<Rightarrow> 'k world \<Rightarrow> iface option \<times> 'k world" where
  "iface_by_name m name w = observe m (\<lambda>k. find (\<lambda>i. if_name i = name) (m_ifaces m k)) w"

section \<open>System calls on files\<close>

definition no_such_file :: "string \<Rightarrow> string \<Rightarrow> gerr" where
  "no_such_file call p = GErr NotExist (call @ '' '' @ p @ '': no such file or directory'')"

definition read_file :: "'k machine \<Rightarrow> string \<Rightarrow> 'k world \<Rightarrow> string res \<times> 'k world" where
  "read_file m p w =
     (case fault_now m w of
        Some f \<Rightarrow> (Inl (fault_err f), tick w)
      | None \<Rightarrow> (case w_files w p of
            None \<Rightarrow> (Inl (no_such_file ''open'' p), tick w)
          | Some x \<Rightarrow> (Inr (f_data x), tick w)))"

definition stat_file :: "'k machine \<Rightarrow> string \<Rightarrow> 'k world \<Rightarrow> fnode res \<times> 'k world" where
  "stat_file m p w =
     (case fault_now m w of
        Some f \<Rightarrow> (Inl (fault_err f), tick w)
      | None \<Rightarrow> (case w_files w p of
            None \<Rightarrow> (Inl (no_such_file ''stat'' p), tick w)
          | Some x \<Rightarrow> (Inr x, tick w)))"

definition remove_file :: "'k machine \<Rightarrow> string \<Rightarrow> 'k world \<Rightarrow> unit res \<times> 'k world" where
  "remove_file m p w =
     (case fault_now m w of
        Some f \<Rightarrow> (Inl (fault_err f), tick w)
      | None \<Rightarrow> (case w_files w p of
            None \<Rightarrow> (Inl (no_such_file ''remove'' p), tick w)
          | Some x \<Rightarrow> (Inr (), put_fs ((w_files w)(p := None)) (tick w))))"

definition rename_file :: "'k machine \<Rightarrow> string \<Rightarrow> string \<Rightarrow> 'k world \<Rightarrow> unit res \<times> 'k world" where
  "rename_file m a b w =
     (case fault_now m w of
        Some f \<Rightarrow> (Inl (fault_err f), tick w)
      | None \<Rightarrow> (case w_files w a of
            None \<Rightarrow> (Inl (no_such_file ''rename'' a), tick w)
          | Some x \<Rightarrow> (Inr (), put_fs ((w_files w)(a := None, b := Some x)) (tick w))))"

definition mkdir_all :: "'k machine \<Rightarrow> string \<Rightarrow> 'k world \<Rightarrow> unit res \<times> 'k world" where
  "mkdir_all m p w =
     (case fault_now m w of Some f \<Rightarrow> (Inl (fault_err f), tick w) | None \<Rightarrow> (Inr (), tick w))"

text \<open>\<^verbatim>\<open>os.OpenFile(p, O_RDWR|O_CREATE|O_EXCL, perm)\<close>: \<^const>\<open>None\<close> when the file exists.\<close>

definition create_excl :: "'k machine \<Rightarrow> string \<Rightarrow> nat \<Rightarrow> 'k world \<Rightarrow> bool res \<times> 'k world" where
  "create_excl m p perm w =
     (case fault_now m w of
        Some f \<Rightarrow> (Inl (fault_err f), tick w)
      | None \<Rightarrow> (case w_files w p of
            Some x \<Rightarrow> (Inr False, tick w)
          | None \<Rightarrow> (Inr True, put_fs ((w_files w)(p \<mapsto> \<lparr>f_data = [], f_perm = perm, f_synced = False\<rparr>)) (tick w))))"

text \<open>
  \<^verbatim>\<open>os.CreateTemp(dir, pre + "*")\<close>: a random decimal suffix; after a collision it
  tries again, at most 10000 times.
\<close>

fun create_temp :: "nat \<Rightarrow> 'k machine \<Rightarrow> string \<Rightarrow> 'k world \<Rightarrow> string res \<times> 'k world" where
  "create_temp n m pre w =
     (if n = 0 then (Inl (new_err ''createtemp: file exists''), w)
      else (let p = pre @ nat_digits (m_rand m (w_tick w)) in
        case create_excl m p 384 w of
          (Inl e, w1) \<Rightarrow> (Inl e, w1)
        | (Inr True, w1) \<Rightarrow> (Inr p, w1)
        | (Inr False, w1) \<Rightarrow> create_temp (n - 1) m pre w1))"

declare create_temp.simps [simp del]

text \<open>Operations on an open file: \<^verbatim>\<open>Chmod\<close>, \<^verbatim>\<open>Write\<close>, \<^verbatim>\<open>Sync\<close>, \<^verbatim>\<open>Close\<close>.\<close>

definition update_file :: "string \<Rightarrow> (fnode \<Rightarrow> fnode) \<Rightarrow> 'k world \<Rightarrow> 'k world" where
  "update_file p g w =
     (case w_files w p of None \<Rightarrow> w | Some x \<Rightarrow> put_fs ((w_files w)(p \<mapsto> g x)) w)"

definition chmod_handle :: "'k machine \<Rightarrow> string \<Rightarrow> nat \<Rightarrow> 'k world \<Rightarrow> unit res \<times> 'k world" where
  "chmod_handle m p perm w =
     (case fault_now m w of
        Some f \<Rightarrow> (Inl (fault_err f), tick w)
      | None \<Rightarrow> (Inr (), update_file p (\<lambda>x. x\<lparr>f_perm := perm\<rparr>) (tick w)))"

definition write_handle :: "'k machine \<Rightarrow> string \<Rightarrow> string \<Rightarrow> 'k world \<Rightarrow> unit res \<times> 'k world" where
  "write_handle m p data w =
     (case fault_now m w of
        Some f \<Rightarrow> (Inl (fault_err f),
          update_file p (\<lambda>x. x\<lparr>f_data := f_data x @ take (fault_bytes f) data, f_synced := False\<rparr>) (tick w))
      | None \<Rightarrow> (Inr (),
          update_file p (\<lambda>x. x\<lparr>f_data := f_data x @ data, f_synced := False\<rparr>) (tick w)))"

definition sync_handle :: "'k machine \<Rightarrow> string \<Rightarrow> 'k world \<Rightarrow> unit res \<times> 'k world" where
  "sync_handle m p w =
     (case fault_now m w of
        Some f \<Rightarrow> (Inl (fault_err f), tick w)
      | None \<Rightarrow> (Inr (), update_file p (\<lambda>x. x\<lparr>f_synced := True\<rparr>) (tick w)))"

definition close_handle :: "'k machine \<Rightarrow> 'k world \<Rightarrow> unit res \<times> 'k world" where
  "close_handle m w =
     (case fault_now m w of Some f \<Rightarrow> (Inl (fault_err f), tick w) | None \<Rightarrow> (Inr (), tick w))"

text \<open>
  \<^verbatim>\<open>os.WriteFile\<close>: open with \<^verbatim>\<open>O_TRUNC\<close> (an existing file keeps its permissions), write,
  close.  The file is empty, then partly written, then complete; nothing is synced.
\<close>

definition write_file :: "'k machine \<Rightarrow> string \<Rightarrow> string \<Rightarrow> nat \<Rightarrow> 'k world \<Rightarrow> unit res \<times> 'k world" where
  "write_file m p data perm w =
     (case fault_now m w of
        Some f \<Rightarrow> (Inl (fault_err f), tick w)
      | None \<Rightarrow>
          (let perm' = (case w_files w p of Some x \<Rightarrow> f_perm x | None \<Rightarrow> perm);
               w1 = put_fs ((w_files w)(p \<mapsto> \<lparr>f_data = [], f_perm = perm', f_synced = False\<rparr>)) (tick w)
           in case write_handle m p data w1 of
                (Inl e, w2) \<Rightarrow> (Inl e, snd (close_handle m w2))
              | (Inr _, w2) \<Rightarrow> close_handle m w2))"

text \<open>\<^verbatim>\<open>os.OpenFile\<close> for appending, and with \<^verbatim>\<open>O_CREATE|O_TRUNC\<close>; and \<^verbatim>\<open>os.RemoveAll\<close> with all
  that is below the path.\<close>

definition open_append :: "'k machine \<Rightarrow> string \<Rightarrow> nat \<Rightarrow> 'k world \<Rightarrow> unit res \<times> 'k world" where
  "open_append m p perm w =
     (case fault_now m w of
        Some f \<Rightarrow> (Inl (fault_err f), tick w)
      | None \<Rightarrow> (case w_files w p of
            Some x \<Rightarrow> (Inr (), tick w)
          | None \<Rightarrow> (Inr (), put_fs ((w_files w)(p \<mapsto> \<lparr>f_data = [], f_perm = perm, f_synced = False\<rparr>)) (tick w))))"

definition open_trunc :: "'k machine \<Rightarrow> string \<Rightarrow> nat \<Rightarrow> 'k world \<Rightarrow> unit res \<times> 'k world" where
  "open_trunc m p perm w =
     (case fault_now m w of
        Some f \<Rightarrow> (Inl (fault_err f), tick w)
      | None \<Rightarrow>
          (let perm' = (case w_files w p of Some x \<Rightarrow> f_perm x | None \<Rightarrow> perm)
           in (Inr (), put_fs ((w_files w)(p \<mapsto> \<lparr>f_data = [], f_perm = perm', f_synced = False\<rparr>)) (tick w))))"

text \<open>\<^verbatim>\<open>os.Chmod\<close>, and \<^verbatim>\<open>os.Chown\<close>, of which the model only has the outcome.\<close>

definition chmod_file :: "'k machine \<Rightarrow> string \<Rightarrow> nat \<Rightarrow> 'k world \<Rightarrow> unit res \<times> 'k world" where
  "chmod_file m p perm w =
     (case fault_now m w of
        Some f \<Rightarrow> (Inl (fault_err f), tick w)
      | None \<Rightarrow> (case w_files w p of
            None \<Rightarrow> (Inl (no_such_file ''chmod'' p), tick w)
          | Some x \<Rightarrow> (Inr (), update_file p (\<lambda>x. x\<lparr>f_perm := perm\<rparr>) (tick w))))"

definition chown_file :: "'k machine \<Rightarrow> string \<Rightarrow> 'k world \<Rightarrow> unit res \<times> 'k world" where
  "chown_file m p w =
     (case fault_now m w of
        Some f \<Rightarrow> (Inl (fault_err f), tick w)
      | None \<Rightarrow> (case w_files w p of
            None \<Rightarrow> (Inl (no_such_file ''chown'' p), tick w)
          | Some x \<Rightarrow> (Inr (), tick w)))"

definition below :: "string \<Rightarrow> string \<Rightarrow> bool" where
  "below d p \<longleftrightarrow> p = d \<or> has_prefix p (d @ ''/'')"

definition remove_all :: "'k machine \<Rightarrow> string \<Rightarrow> 'k world \<Rightarrow> unit res \<times> 'k world" where
  "remove_all m d w =
     (case fault_now m w of
        Some f \<Rightarrow> (Inl (fault_err f), tick w)
      | None \<Rightarrow> (Inr (), put_fs (\<lambda>p. if below d p then None else w_files w p) (tick w)))"

section \<open>What holds at every moment\<close>

text \<open>\<open>always R p w\<close>: now, and in every earlier state of the file system, the entry of
  the path \<open>p\<close> satisfies \<open>R\<close>.\<close>

definition always :: "(fnode option \<Rightarrow> bool) \<Rightarrow> string \<Rightarrow> 'k world \<Rightarrow> bool" where
  "always R p w \<longleftrightarrow> R (w_files w p) \<and> (\<forall>s \<in> set (w_trace w). R (s p))"

lemma always_now: "always R p w \<Longrightarrow> R (w_files w p)"
  by (simp add: always_def)

lemma always_mono: "always R p w \<Longrightarrow> (\<And>x. R x \<Longrightarrow> Q x) \<Longrightarrow> always Q p w"
  by (simp add: always_def)

text \<open>What the program sent: its signals and its HTTP requests.\<close>

definition outs :: "'k world \<Rightarrow> (int \<times> string) list \<times> http_request list" where
  "outs w = (w_signals w, w_requests w)"

lemma tick_simps [simp]:
  "w_files (tick w) = w_files w" "w_trace (tick w) = w_trace w" "w_log (tick w) = w_log w"
  "w_kernel (tick w) = w_kernel w" "always R p (tick w) = always R p w"
  "outs (tick w) = outs w" "w_requests (tick w) = w_requests w" "w_signals (tick w) = w_signals w"
  by (simp_all add: tick_def always_def outs_def)

lemma put_fs_simps [simp]:
  "w_files (put_fs s w) = s" "w_log (put_fs s w) = w_log w" "w_kernel (put_fs s w) = w_kernel w"
  "w_tick (put_fs s w) = w_tick w" "outs (put_fs s w) = outs w"
  by (simp_all add: put_fs_def outs_def)

lemma always_put_fs [simp]: "always R p (put_fs s w) \<longleftrightarrow> R (s p) \<and> (\<forall>t \<in> set (w_trace w). R (t p))"
  by (auto simp: always_def put_fs_def)

lemma always_trace: "always R p w \<Longrightarrow> s \<in> set (w_trace w) \<Longrightarrow> R (s p)"
  by (simp add: always_def)

lemma update_file_simps [simp]:
  "w_log (update_file p g w) = w_log w" "w_kernel (update_file p g w) = w_kernel w"
  "w_files (update_file p g w) = (w_files w)(p := map_option g (w_files w p))"
  "w_tick (update_file p g w) = w_tick w" "outs (update_file p g w) = outs w"
  by (auto simp: update_file_def split: option.splits)

lemma always_update_file [simp]: "p \<noteq> q \<Longrightarrow> always R p w \<Longrightarrow> always R p (update_file q g w)"
  by (auto simp: update_file_def always_def put_fs_def split: option.splits)

text \<open>Every call on files leaves the kernel and the log of commands alone; a call on
  another path keeps what always holds of \<open>p\<close>.\<close>

lemma read_file_frame [simp]:
  "snd (read_file m p w) = tick w"
  by (simp add: read_file_def split: option.splits)

lemma stat_file_frame [simp]: "snd (stat_file m p w) = tick w"
  by (simp add: stat_file_def split: option.splits)

lemma mkdir_all_frame [simp]: "snd (mkdir_all m p w) = tick w"
  by (simp add: mkdir_all_def split: option.splits)

lemma close_handle_frame [simp]: "snd (close_handle m w) = tick w"
  by (simp add: close_handle_def split: option.splits)

definition same_env :: "'k world \<Rightarrow> 'k world \<Rightarrow> bool" where
  "same_env w w' \<longleftrightarrow> w_log w' = w_log w \<and> w_kernel w' = w_kernel w \<and> outs w' = outs w"

lemma same_env_refl [simp]: "same_env w w"
  by (simp add: same_env_def)

lemma same_env_trans [trans]: "same_env w w1 \<Longrightarrow> same_env w1 w2 \<Longrightarrow> same_env w w2"
  by (simp add: same_env_def)

lemma same_env_tick [simp]: "same_env w (tick w)" "same_env w (tick w1) = same_env w w1"
  by (simp_all add: same_env_def)

lemma same_env_put_fs [simp]: "same_env w (put_fs s w1) = same_env w w1"
  by (simp add: same_env_def)

lemma same_env_update_file [simp]: "same_env w (update_file p g w1) = same_env w w1"
  by (simp add: same_env_def)

lemma file_calls_env:
  "same_env w (snd (read_file m p w))" "same_env w (snd (stat_file m p w))"
  "same_env w (snd (mkdir_all m p w))" "same_env w (snd (close_handle m w))"
  "same_env w (snd (remove_file m p w))" "same_env w (snd (rename_file m a b w))"
  "same_env w (snd (create_excl m p n w))" "same_env w (snd (chmod_handle m p n w))"
  "same_env w (snd (write_handle m p d w))" "same_env w (snd (sync_handle m p w))"
  by (simp_all add: remove_file_def rename_file_def create_excl_def chmod_handle_def
      write_handle_def sync_handle_def split: option.splits)

lemma write_file_env: "same_env w (snd (write_file m p d n w))"
  by (auto simp: write_file_def write_handle_def close_handle_def Let_def split: option.splits)

lemma create_temp_env: "same_env w (snd (create_temp n m p w))"
proof (induction n m p w rule: create_temp.induct)
  case (1 n m p w)
  let ?q = "p @ nat_digits (m_rand m (w_tick w))"
  show ?case
  proof (cases "create_excl m ?q 384 w")
    case (Pair r w1)
    then have "same_env w w1" using file_calls_env(7) [of w m ?q 384] by simp
    then show ?thesis
      using 1 [OF _ refl Pair [symmetric]] Pair
      by (subst create_temp.simps) (auto simp: Let_def split: sum.splits bool.splits intro: same_env_trans)
  qed
qed

lemma open_remove_env:
  "open_append m p n w = (u, w') \<Longrightarrow> same_env w w'"
  "open_trunc m p n w = (u, w') \<Longrightarrow> same_env w w'"
  "remove_all m p w = (u, w') \<Longrightarrow> same_env w w'"
  by (auto simp: open_append_def open_trunc_def remove_all_def Let_def split: option.splits)

lemma open_remove_files:
  "open_append m p n w = (u, w') \<Longrightarrow> q \<noteq> p \<Longrightarrow> w_files w' q = w_files w q"
  "open_trunc m p n w = (u, w') \<Longrightarrow> q \<noteq> p \<Longrightarrow> w_files w' q = w_files w q"
  "remove_all m p w = (u, w') \<Longrightarrow> \<not> below p q \<Longrightarrow> w_files w' q = w_files w q"
  by (auto simp: open_append_def open_trunc_def remove_all_def Let_def split: option.splits)

text \<open>Inversion of a call that returned \<open>(r, w')\<close>.\<close>

lemma file_callD:
  "read_file m p w = (r, w') \<Longrightarrow> w' = tick w"
  "stat_file m p w = (r2, w') \<Longrightarrow> w' = tick w"
  "mkdir_all m p w = (u, w') \<Longrightarrow> w' = tick w"
  "close_handle m w = (u, w') \<Longrightarrow> w' = tick w"
  by (auto dest: arg_cong [where f = snd])

lemma file_call_envD:
  "remove_file m p w = (u, w') \<Longrightarrow> same_env w w'"
  "rename_file m a b w = (u, w') \<Longrightarrow> same_env w w'"
  "create_excl m p n w = (b1, w') \<Longrightarrow> same_env w w'"
  "create_temp k m p w = (s1, w') \<Longrightarrow> same_env w w'"
  "chmod_handle m p n w = (u, w') \<Longrightarrow> same_env w w'"
  "write_handle m p d w = (u, w') \<Longrightarrow> same_env w w'"
  "sync_handle m p w = (u, w') \<Longrightarrow> same_env w w'"
  "write_file m p d n w = (u, w') \<Longrightarrow> same_env w w'"
  by (metis file_calls_env create_temp_env write_file_env snd_conv)+

lemma file_call_alwaysD:
  "remove_file m q w = (u, w') \<Longrightarrow> p \<noteq> q \<Longrightarrow> always R p w \<Longrightarrow> always R p w'"
  "rename_file m a b w = (u, w') \<Longrightarrow> p \<noteq> a \<Longrightarrow> p \<noteq> b \<Longrightarrow> always R p w \<Longrightarrow> always R p w'"
  "create_excl m q n w = (b1, w') \<Longrightarrow> p \<noteq> q \<Longrightarrow> always R p w \<Longrightarrow> always R p w'"
  "chmod_handle m q n w = (u, w') \<Longrightarrow> p \<noteq> q \<Longrightarrow> always R p w \<Longrightarrow> always R p w'"
  "write_handle m q d w = (u, w') \<Longrightarrow> p \<noteq> q \<Longrightarrow> always R p w \<Longrightarrow> always R p w'"
  "sync_handle m q w = (u, w') \<Longrightarrow> p \<noteq> q \<Longrightarrow> always R p w \<Longrightarrow> always R p w'"
  by (auto simp: remove_file_def rename_file_def create_excl_def chmod_handle_def
      write_handle_def sync_handle_def always_def put_fs_def update_file_def split: option.splits)

lemma observe_simps [simp]:
  "w_files (snd (observe m f w)) = w_files w" "w_trace (snd (observe m f w)) = w_trace w"
  "w_log (snd (observe m f w)) = w_log w" "outs (snd (observe m f w)) = outs w"
  by (simp_all add: observe_def Let_def outs_def tick_def)

lemma exec_cmd_simps [simp]:
  "w_files (snd (exec_cmd m c w)) = w_files w" "w_trace (snd (exec_cmd m c w)) = w_trace w"
  "w_log (snd (exec_cmd m c w)) = w_log w @ [c]" "outs (snd (exec_cmd m c w)) = outs w"
  by (simp_all add: exec_cmd_def Let_def outs_def tick_def split: prod.splits)

lemma exec_cmdD:
  "exec_cmd m c w = (r, w') \<Longrightarrow>
     w_files w' = w_files w \<and> w_trace w' = w_trace w \<and> w_log w' = w_log w @ [c] \<and> outs w' = outs w"
  using exec_cmd_simps [of m c w] by simp

lemma observeD:
  "observe m f w = (r, w') \<Longrightarrow>
     w_files w' = w_files w \<and> w_trace w' = w_trace w \<and> w_log w' = w_log w \<and> outs w' = outs w"
  using observe_simps [of m f w] by simp

lemma iface_by_nameD:
  "iface_by_name m n w = (r, w') \<Longrightarrow>
     w_files w' = w_files w \<and> w_trace w' = w_trace w \<and> w_log w' = w_log w \<and> outs w' = outs w"
  unfolding iface_by_name_def by (rule observeD)

lemma dial_tcpD:
  "dial_tcp m a w = (r, w') \<Longrightarrow>
     w_files w' = w_files w \<and> w_trace w' = w_trace w \<and> w_log w' = w_log w \<and> outs w' = outs w"
  unfolding dial_tcp_def by (rule observeD)

text \<open>Starting, signalling and asking over the network change no file of the program.\<close>

lemma exec_outputD:
  "exec_output m c w = (r, w') \<Longrightarrow>
     w_files w' = w_files w \<and> w_trace w' = w_trace w \<and> w_log w' = w_log w @ [c] \<and> outs w' = outs w"
  by (auto simp: exec_output_def Let_def outs_def tick_def split: prod.splits)

lemma spawn_cmdD:
  "spawn_cmd m c w = (p, w') \<Longrightarrow>
     w_files w' = w_files w \<and> w_trace w' = w_trace w \<and> w_log w' = w_log w @ [c] \<and> outs w' = outs w"
  by (auto simp: spawn_cmd_def Let_def outs_def tick_def split: prod.splits)

lemma send_signalD:
  "send_signal m pid sig w = (e, w') \<Longrightarrow>
     w_files w' = w_files w \<and> w_trace w' = w_trace w \<and> w_log w' = w_log w \<and>
     w_signals w' = w_signals w @ [(pid, sig)] \<and> w_requests w' = w_requests w"
  by (auto simp: send_signal_def Let_def tick_def split: prod.splits)

lemma http_doD:
  "http_do m q w = (a, w') \<Longrightarrow>
     w_files w' = w_files w \<and> w_trace w' = w_trace w \<and> w_log w' = w_log w \<and>
     w_signals w' = w_signals w \<and> w_requests w' = w_requests w @ [q]"
  by (auto simp: http_do_def Let_def tick_def split: prod.splits)

lemma exec_inputD:
  "exec_input m c i w = (r, w') \<Longrightarrow>
     w_files w' = w_files w \<and> w_trace w' = w_trace w \<and> w_log w' = w_log w @ [c @ [''<'', i]] \<and> outs w' = outs w"
  by (auto simp: exec_input_def Let_def outs_def tick_def split: prod.splits)

lemma change_hostD:
  "change_host m f w = (r, w') \<Longrightarrow>
     w_files w' = w_files w \<and> w_trace w' = w_trace w \<and> w_log w' = w_log w \<and> outs w' = outs w"
  by (auto simp: change_host_def Let_def outs_def tick_def split: prod.splits)

lemma chmod_chownD:
  "chmod_file m p n w = (u, w') \<Longrightarrow> same_env w w' \<and> (\<forall>q. map_option f_data (w_files w' q) = map_option f_data (w_files w q))"
  "chown_file m p w = (u, w') \<Longrightarrow> w' = tick w"
  by (auto simp: chmod_file_def chown_file_def split: option.splits)

lemma random_bytesD: "random_bytes m n w = (b, w') \<Longrightarrow> w' = tick w"
  by (simp add: random_bytes_def)

lemma nowD: "now m w = (r, w') \<Longrightarrow> w' = tick w"
  by (simp add: now_def)


text \<open>A machine without faults and with an idle kernel, on which the operations can be
  evaluated.\<close>

definition quiet_machine :: "unit machine" where
  "quiet_machine = \<lparr>m_fault = (\<lambda>_. None), m_clock = (\<lambda>n. \<lparr>t_nanos = int n, t_rfc = ''2026-01-02T03:04:05Z'', t_compact = ''20260102T030405Z'', t_format = (\<lambda>_. ''20260102-040405'')\<rparr>),
     m_rand = (\<lambda>n. n), m_drift = (\<lambda>_ k. k), m_exec = (\<lambda>_ k. (([], None), k)), m_ifaces = (\<lambda>_. []),
     m_lookpath = (\<lambda>_ n. Some (''/usr/sbin/'' @ n)), m_proc_dir = (\<lambda>_ _. Some (GErr NotExist ''no such process'')),
     m_proc_stat = (\<lambda>_ _. Inl (GErr NotExist ''no such process'')), m_host_file = (\<lambda>_ p. Inl (no_such_file ''open'' p)),
     m_host_stat = (\<lambda>_ p. Inl (no_such_file ''stat'' p)), m_host_lstat = (\<lambda>_ p. Inl (no_such_file ''lstat'' p)),
     m_getenv = (\<lambda>_. []), m_cwd = ''/'', m_geteuid = 1000, m_stdin_tty = False,
     m_getpid = 4242, m_self = Inr ''/opt/antigraviti-proxi'',
     m_output = (\<lambda>_ k. (([], None), k)), m_spawn = (\<lambda>_ k. (Inr 777, k)), m_exited = (\<lambda>_ _. None),
     m_signal = (\<lambda>_ _ k. (None, k)), m_dial = (\<lambda>_ _. Some (new_err ''connection refused'')),
     m_read_dir = (\<lambda>_ p. Inl (no_such_file ''open'' p)), m_readlink = (\<lambda>_ p. Inl (no_such_file ''readlink'' p)),
     m_http = (\<lambda>_ k. (Inl (new_err ''network is unreachable''), k)),
     m_entropy = (\<lambda>_ n. Inr (replicate n 7)), m_unzip = (\<lambda>_. Inl (new_err ''zip: not a valid zip file'')),
     m_untar = (\<lambda>_. Inl (new_err ''gzip: invalid header'')),
     m_username = Inr ''user'', m_getuid = 1000, m_lookup_user = (\<lambda>u. Inr (u, u)), m_exec_in = (\<lambda>_ _ k. (([], None), k)),
     m_wait = (\<lambda>_ k. (None, k)), m_mkdir = (\<lambda>_ k. (None, k)), m_rmdir = (\<lambda>_ k. (None, k)),
     m_environ = [], m_home = Inr ''/home/user'', m_config_dir = Inr ''/home/user/.config'',
     m_passwd = (\<lambda>u. Inl (new_err ''user: unknown userid'')), m_lookup_ip = (\<lambda>_ _ _. Inl (new_err ''no such host'')),
     m_net_ifaces = (\<lambda>_. Inr []), m_walk = (\<lambda>_ _. []), m_launch = (\<lambda>_ k. (None, k)), m_rune_lower = (\<lambda>r. r)\<rparr>"

definition world_of :: "(string \<times> string) list \<Rightarrow> 'k \<Rightarrow> 'k world" where
  "world_of fs k = \<lparr>w_files = map_of (map (\<lambda>(p, d). (p, \<lparr>f_data = d, f_perm = 384, f_synced = True\<rparr>)) fs),
     w_trace = [], w_tick = 0, w_log = [], w_kernel = k, w_signals = [], w_requests = []\<rparr>"

end
