(* ===== verification/AtomicFile.thy ===== *)
theory AtomicFile imports World begin

text \<open>
  Package \<^verbatim>\<open>internal/atomicfile\<close>: replacing a file as a transaction (\<^verbatim>\<open>write.go\<close>, with
  \<^verbatim>\<open>replace_unix.go\<close>).  The data goes to a temporary file of the same directory, is
  synced and renamed over the target; \<^verbatim>\<open>Write\<close> first keeps the previous content at
  \<open>path.previous-good\<close>.  The main facts: at every moment, so after a crash at any point
  and whatever calls fail, the target is the old file or the complete, synced new one;
  and a successful \<^verbatim>\<open>Write\<close> changes the target and its backup and nothing else.
\<close>

section \<open>The operations\<close>

definition previous_good :: "string \<Rightarrow> string" where
  "previous_good path = path @ ''.previous-good''"

text \<open>\<^verbatim>\<open>os.CreateTemp\<close> puts the name below the directory with one separator.\<close>

definition temp_name :: "string \<Rightarrow> string" where
  "temp_name path =
     (let d = path_dir path; n = ''.'' @ path_base path @ ''.tmp-''
      in if has_suffix d ''/'' then d @ n else d @ ''/'' @ n)"

definition replace_unix :: "'k machine \<Rightarrow> string \<Rightarrow> string \<Rightarrow> 'k world \<Rightarrow> unit res \<times> 'k world" where
  "replace_unix m old_path new_path w = rename_file m old_path new_path w"

definition sync_directory :: "'k machine \<Rightarrow> string \<Rightarrow> 'k world \<Rightarrow> unit res \<times> 'k world" where
  "sync_directory m path w =
     (case fault_now m w of
        Some f \<Rightarrow> (Inl (fault_err f), tick w)
      | None \<Rightarrow>
          (let w1 = tick w in
           case fault_now m w1 of
             Some f \<Rightarrow> (Inl (fault_err f), snd (close_handle m (tick w1)))
           | None \<Rightarrow> (Inr (), snd (close_handle m (tick w1)))))"

text \<open>The body of \<^verbatim>\<open>writeReplace\<close> once the temporary file exists: fill it, then put it in
  place.\<close>

definition fill_temp :: "'k machine \<Rightarrow> string \<Rightarrow> string \<Rightarrow> nat \<Rightarrow> 'k world \<Rightarrow> unit res \<times> 'k world" where
  "fill_temp m tmp data perm w =
     (case chmod_handle m tmp perm w of (Inl e, w1) \<Rightarrow> (Inl e, w1) | (Inr _, w1) \<Rightarrow>
     (case write_handle m tmp data w1 of (Inl e, w2) \<Rightarrow> (Inl e, w2) | (Inr _, w2) \<Rightarrow>
     (case sync_handle m tmp w2 of (Inl e, w3) \<Rightarrow> (Inl e, w3) | (Inr _, w3) \<Rightarrow>
      close_handle m w3)))"

definition fill_and_replace ::
  "'k machine \<Rightarrow> string \<Rightarrow> string \<Rightarrow> string \<Rightarrow> nat \<Rightarrow> 'k world \<Rightarrow> unit res \<times> 'k world" where
  "fill_and_replace m tmp path data perm w =
     (case fill_temp m tmp data perm w of (Inl e, w1) \<Rightarrow> (Inl e, w1) | (Inr _, w1) \<Rightarrow>
     (case replace_unix m tmp path w1 of (Inl e, w2) \<Rightarrow> (Inl e, w2) | (Inr _, w2) \<Rightarrow>
      sync_directory m (path_dir path) w2))"

text \<open>\<^verbatim>\<open>writeReplace\<close>, with its deferred close and removal of the temporary file.\<close>

definition write_replace :: "'k machine \<Rightarrow> string \<Rightarrow> string \<Rightarrow> nat \<Rightarrow> 'k world \<Rightarrow> unit res \<times> 'k world" where
  "write_replace m path data perm w =
     (case create_temp 10000 m (temp_name path) w of
        (Inl e, w1) \<Rightarrow> (Inl e, w1)
      | (Inr tmp, w1) \<Rightarrow>
          (let (r, w2) = fill_and_replace m tmp path data perm w1;
               w3 = snd (close_handle m w2)
           in (r, snd (remove_file m tmp w3))))"

text \<open>\<^verbatim>\<open>Write\<close>: first the backup of an existing file, then the file.\<close>

definition back_up :: "'k machine \<Rightarrow> string \<Rightarrow> nat \<Rightarrow> 'k world \<Rightarrow> unit res \<times> 'k world" where
  "back_up m path perm w1 =
     (case read_file m path w1 of
        (Inr old, w2) \<Rightarrow>
          (let (st, w2') = stat_file m path w2;
               backup_perm = (case st of Inr x \<Rightarrow> f_perm x | Inl _ \<Rightarrow> perm)
           in case write_replace m (previous_good path) old backup_perm w2' of
                (Inl e, w3) \<Rightarrow> (Inl (wrap_err ''atomicfile: previous-good backup: '' e), w3)
              | (Inr _, w3) \<Rightarrow> (Inr (), w3))
      | (Inl e, w2) \<Rightarrow>
          if err_kind e = NotExist then (Inr (), w2)
          else (Inl (wrap_err (''atomicfile: read current '' @ path @ '': '') e), w2))"

definition atomic_write :: "'k machine \<Rightarrow> string \<Rightarrow> string \<Rightarrow> nat \<Rightarrow> 'k world \<Rightarrow> unit res \<times> 'k world" where
  "atomic_write m path data perm w =
     (if path = [] then (Inl (new_err ''atomicfile: empty path''), w) else
      case mkdir_all m (path_dir path) w of
        (Inl e, w1) \<Rightarrow> (Inl (wrap_err (''atomicfile: mkdir '' @ path_dir path @ '': '') e), w1)
      | (Inr _, w1) \<Rightarrow>
          (case back_up m path perm w1 of
             (Inl e, w3) \<Rightarrow> (Inl e, w3)
           | (Inr _, w3) \<Rightarrow>
               (case write_replace m path data perm w3 of
                  (Inl e, w4) \<Rightarrow> (Inl (wrap_err (''atomicfile: replace '' @ path @ '': '') e), w4)
                | (Inr _, w4) \<Rightarrow> (Inr (), w4))))"

text \<open>\<^verbatim>\<open>WriteDirect\<close>.\<close>

definition atomic_write_direct :: "'k machine \<Rightarrow> string \<Rightarrow> string \<Rightarrow> nat \<Rightarrow> 'k world \<Rightarrow> unit res \<times> 'k world" where
  "atomic_write_direct m path data perm w =
     (if path = [] then (Inl (new_err ''atomicfile: empty path''), w) else
      case mkdir_all m (path_dir path) w of
        (Inl e, w1) \<Rightarrow> (Inl (wrap_err (''atomicfile: mkdir '' @ path_dir path @ '': '') e), w1)
      | (Inr _, w1) \<Rightarrow>
          (case write_replace m path data perm w1 of
             (Inl e, w2) \<Rightarrow> (Inl (wrap_err (''atomicfile: replace '' @ path @ '': '') e), w2)
           | (Inr _, w2) \<Rightarrow> (Inr (), w2)))"

section \<open>The temporary name is neither the target nor anything the target is named after\<close>

lemma nat_digits_no_slash [simp]: "slash \<notin> set (nat_digits n)"
proof
  assume "slash \<in> set (nat_digits n)"
  then obtain d where "d < 10" "slash = digit_char d" using nat_digits_shape by blast
  then have "(of_char slash :: nat) = 48 + d" by simp
  then show False by simp
qed

lemma path_base_open:
  "p \<noteq> [] \<Longrightarrow> last p \<noteq> slash \<Longrightarrow> path_base p = rev (takeWhile (\<lambda>c. c \<noteq> slash) (rev p))"
  by (cases p rule: rev_cases) (auto simp: path_base_def Let_def)

lemma path_base_open_free: "p \<noteq> [] \<Longrightarrow> last p \<noteq> slash \<Longrightarrow> slash \<notin> set (path_base p)"
  by (auto simp: path_base_open dest: set_takeWhileD)

lemma path_base_slash_free: "path_base p = ''/'' \<or> slash \<notin> set (path_base p)"
  by (auto simp: path_base_def Let_def dest: set_takeWhileD)

lemma path_base_slash: "path_base p = ''/'' \<Longrightarrow> last p = slash \<and> p \<noteq> []"
  using path_base_open_free [of p] by (cases "p = []") (auto simp: path_base_def)

lemma temp_name_shape: "\<exists>d. temp_name p = d @ ''/'' @ ''.'' @ path_base p @ ''.tmp-''"
proof (cases "has_suffix (path_dir p) ''/''")
  case True
  then obtain r where "rev (path_dir p) = slash # r"
    by (cases "rev (path_dir p)") (auto simp: has_suffix_def has_prefix_def)
  then have "path_dir p = rev r @ ''/''" by (metis rev.simps(2) rev_rev_ident)
  with True show ?thesis by (auto simp: temp_name_def Let_def)
next
  case False
  then show ?thesis by (auto simp: temp_name_def Let_def)
qed

lemma last_temp: "last (temp_name p @ nat_digits k) \<noteq> slash"
  by (metis last_appendR last_in_set nat_digits_no_slash nat_digits_nonempty)

lemma temp_not_base:
  assumes "t = temp_name p @ nat_digits k" "slash \<notin> set (path_base p)"
  shows "length (path_base t) > length (path_base p)"
proof -
  obtain d where d: "temp_name p = d @ ''/'' @ ''.'' @ path_base p @ ''.tmp-''"
    using temp_name_shape by blast
  have "path_base (d @ ''/'' @ (''.'' @ path_base p @ ''.tmp-'' @ nat_digits k))
      = ''.'' @ path_base p @ ''.tmp-'' @ nat_digits k"
    by (rule path_base_name(1)) (use assms(2) in simp_all)
  then show ?thesis using assms(1) d by simp
qed

lemma temp_not_target: "temp_name p @ nat_digits k \<noteq> p"
  using last_temp [of p k] path_base_slash_free [of p] path_base_slash [of p] temp_not_base [OF refl, of p k]
  by (metis less_irrefl_nat)

lemma path_base_previous_good:
  "p \<noteq> [] \<Longrightarrow> last p \<noteq> slash \<Longrightarrow> path_base (previous_good p) = path_base p @ ''.previous-good''"
  by (simp add: path_base_open previous_good_def)

lemma temp_of_backup_not_target:
  assumes "p \<noteq> []"
  shows "temp_name (previous_good p) @ nat_digits k \<noteq> p"
proof
  let ?t = "temp_name (previous_good p) @ nat_digits k"
  assume eq: "?t = p"
  then have l: "last p \<noteq> slash" using last_temp by metis
  have b: "path_base (previous_good p) = path_base p @ ''.previous-good''"
    using assms l by (rule path_base_previous_good)
  then have "slash \<notin> set (path_base (previous_good p))"
    using path_base_open_free [OF assms l] by simp
  from temp_not_base [OF refl this, of k] show False using eq b by simp
qed

lemma previous_good_neq [simp]: "previous_good p \<noteq> p" "p \<noteq> previous_good p"
  by (simp_all add: previous_good_def)


section \<open>Crash safety\<close>

text \<open>What may be found at the target at any moment of a replacement: the old entry,
  or the complete new data, on disk.\<close>

definition old_or_new :: "fnode option \<Rightarrow> string \<Rightarrow> fnode option \<Rightarrow> bool" where
  "old_or_new old data x \<longleftrightarrow> x = old \<or> (\<exists>perm. x = Some \<lparr>f_data = data, f_perm = perm, f_synced = True\<rparr>)"

lemma create_temp_cases:
  assumes "create_temp n m pre w = (r, w')"
  obtains (none) e where "n = 0" "w' = w" "r = Inl e"
  | (error) e where "create_excl m (pre @ nat_digits (m_rand m (w_tick w))) 384 w = (Inl e, w')" "r = Inl e"
  | (made) "create_excl m (pre @ nat_digits (m_rand m (w_tick w))) 384 w = (Inr True, w')"
      "r = Inr (pre @ nat_digits (m_rand m (w_tick w)))"
  | (again) k w1 where "n = Suc k"
      "create_excl m (pre @ nat_digits (m_rand m (w_tick w))) 384 w = (Inr False, w1)"
      "create_temp k m pre w1 = (r, w')"
  using assms
  by (subst (asm) create_temp.simps, cases n)
    (auto simp: Let_def split: prod.splits sum.splits bool.splits)

lemma create_temp_fresh:
  "create_temp n m pre w = (Inr tmp, w') \<Longrightarrow>
     (\<exists>k. tmp = pre @ nat_digits k) \<and> w_files w tmp = None \<and>
     w_files w' = (w_files w)(tmp \<mapsto> \<lparr>f_data = [], f_perm = 384, f_synced = False\<rparr>)"
proof (induction n arbitrary: w)
  case 0
  then show ?case by (subst (asm) create_temp.simps) simp
next
  case (Suc n)
  from Suc.prems show ?case
  proof (cases rule: create_temp_cases)
    case made
    then show ?thesis by (auto simp: create_excl_def split: option.splits)
  next
    case (again k w1)
    then have "w_files w1 = w_files w" by (auto simp: create_excl_def split: option.splits)
    with again Suc.IH [of w1] show ?thesis by simp
  qed simp_all
qed

lemma create_temp_always:
  "create_temp n m pre w = (r, w') \<Longrightarrow> (\<And>k. p \<noteq> pre @ nat_digits k) \<Longrightarrow> always R p w \<Longrightarrow> always R p w'"
proof (induction n arbitrary: w)
  case 0
  then show ?case by (auto elim: create_temp_cases dest: file_call_alwaysD(3))
next
  case (Suc n)
  from Suc.prems(1) show ?case
  proof (cases rule: create_temp_cases)
    case (again k w1)
    then have "always R p w1" using file_call_alwaysD(3) [OF again(2)] Suc.prems(2,3) by simp
    with again Suc.IH [of w1] Suc.prems(2) show ?thesis by simp
  qed (use Suc.prems(2,3) file_call_alwaysD(3) in \<open>blast+\<close>)
qed

lemma sync_directoryD: "sync_directory m d w = (r, w') \<Longrightarrow> w_files w' = w_files w \<and> always R p w' = always R p w \<and> same_env w w'"
  by (auto simp: sync_directory_def Let_def split: option.splits)

lemmas handle_defs = chmod_handle_def write_handle_def sync_handle_def close_handle_def
  replace_unix_def rename_file_def sync_directory_def

lemma fill_temp_always:
  "fill_temp m tmp data perm w = (r, w') \<Longrightarrow> p \<noteq> tmp \<Longrightarrow> always R p w \<Longrightarrow> always R p w'"
  by (auto simp: fill_temp_def split: prod.splits sum.splits dest!: file_callD file_call_alwaysD(4-6) [where p = p and R = R])

lemma fill_temp_ok:
  "fill_temp m tmp data perm w = (Inr u, w') \<Longrightarrow> w_files w tmp = Some \<lparr>f_data = [], f_perm = n, f_synced = b\<rparr> \<Longrightarrow>
     w_files w' = (w_files w)(tmp \<mapsto> \<lparr>f_data = data, f_perm = perm, f_synced = True\<rparr>)"
  by (auto simp: fill_temp_def handle_defs split: option.splits)

lemma fill_temp_env: "fill_temp m tmp data perm w = (r, w') \<Longrightarrow> same_env w w'"
  by (auto simp: fill_temp_def handle_defs split: option.splits)

lemma fill_and_replace_cases:
  assumes "fill_and_replace m tmp path data perm w = (r, w')" "tmp \<noteq> path"
    and "w_files w tmp = Some \<lparr>f_data = [], f_perm = n, f_synced = b\<rparr>"
  obtains (filling) e where "fill_temp m tmp data perm w = (Inl e, w')" "r = Inl e"
  | (renaming) e w1 where "fill_temp m tmp data perm w = (Inr (), w1)" "r = Inl e" "w' = tick w1"
  | (renamed) w1 w2 where "fill_temp m tmp data perm w = (Inr (), w1)"
      "w_files w1 = (w_files w)(tmp \<mapsto> \<lparr>f_data = data, f_perm = perm, f_synced = True\<rparr>)"
      "w2 = put_fs ((w_files w)(tmp := None, path \<mapsto> \<lparr>f_data = data, f_perm = perm, f_synced = True\<rparr>)) (tick w1)"
      "sync_directory m (path_dir path) w2 = (r, w')"
proof (cases "fill_temp m tmp data perm w")
  case (Pair r1 w1)
  show ?thesis
  proof (cases r1)
    case (Inl e)
    with Pair assms(1) show ?thesis by (intro filling) (auto simp: fill_and_replace_def)
  next
    case (Inr u)
    with Pair have p: "fill_temp m tmp data perm w = (Inr (), w1)" by simp
    note f = fill_temp_ok [OF this assms(3)]
    show ?thesis
    proof (cases "fault_now m w1")
      case None
      with p f assms(1,2) show ?thesis
        by (intro renamed [OF p f refl])
          (auto simp: fill_and_replace_def replace_unix_def rename_file_def fun_upd_twist)
    next
      case (Some x)
      with p f assms(1,2) show ?thesis
        by (intro renaming [OF p, of "fault_err x"])
          (auto simp: fill_and_replace_def replace_unix_def rename_file_def)
    qed
  qed
qed

lemma fill_and_replace_always:
  assumes "fill_and_replace m tmp path data perm w = (r, w')" "tmp \<noteq> path"
    and "w_files w tmp = Some \<lparr>f_data = [], f_perm = n, f_synced = b\<rparr>"
    and "p \<noteq> tmp" "always R p w"
    and "p = path \<Longrightarrow> R (Some \<lparr>f_data = data, f_perm = perm, f_synced = True\<rparr>)"
  shows "always R p w'"
  using assms(1-3)
proof (cases rule: fill_and_replace_cases)
  case (filling e)
  then show ?thesis using assms(4,5) by (auto intro: fill_temp_always)
next
  case (renaming e w1)
  then show ?thesis using assms(4,5) fill_temp_always by simp
next
  case (renamed w1 w2)
  have "always R p w1" using renamed(1) assms(4,5) by (rule fill_temp_always)
  then have "always R p w2"
    using assms(4,6) renamed(3) always_now [OF assms(5)] by (auto simp: always_def put_fs_def)
  with sync_directoryD [OF renamed(4), of R p] show ?thesis by simp
qed

lemma fill_and_replace_ok:
  assumes "fill_and_replace m tmp path data perm w = (Inr u, w')" "tmp \<noteq> path"
    and "w_files w tmp = Some \<lparr>f_data = [], f_perm = n, f_synced = b\<rparr>"
  shows "w_files w' = (w_files w)(tmp := None, path \<mapsto> \<lparr>f_data = data, f_perm = perm, f_synced = True\<rparr>)"
  using assms
proof (cases rule: fill_and_replace_cases)
  case (renamed w1 w2)
  with sync_directoryD [OF renamed(4)] show ?thesis by simp
qed simp_all

lemma fill_and_replace_env:
  "fill_and_replace m tmp path data perm w = (r, w') \<Longrightarrow> same_env w w'"
  by (auto simp: fill_and_replace_def replace_unix_def split: prod.splits sum.splits
      dest!: fill_temp_env file_call_envD(2) sync_directoryD intro: same_env_trans)

lemma write_replace_cases:
  assumes "write_replace m path data perm w = (r, w')"
  obtains (no_temp) e where "create_temp 10000 m (temp_name path) w = (Inl e, w')" "r = Inl e"
  | (temp) tmp k w1 w2 where "create_temp 10000 m (temp_name path) w = (Inr tmp, w1)"
      "tmp = temp_name path @ nat_digits k"
      "w_files w1 = (w_files w)(tmp \<mapsto> \<lparr>f_data = [], f_perm = 384, f_synced = False\<rparr>)"
      "w_files w tmp = None"
      "fill_and_replace m tmp path data perm w1 = (r, w2)" "w' = snd (remove_file m tmp (tick w2))"
proof (cases "create_temp 10000 m (temp_name path) w")
  case (Pair r1 w1)
  show ?thesis
  proof (cases r1)
    case (Inl e)
    then show ?thesis using assms Pair no_temp by (auto simp: write_replace_def)
  next
    case (Inr tmp)
    with Pair obtain k where "tmp = temp_name path @ nat_digits k" "w_files w tmp = None"
        "w_files w1 = (w_files w)(tmp \<mapsto> \<lparr>f_data = [], f_perm = 384, f_synced = False\<rparr>)"
      by (metis create_temp_fresh)
    moreover obtain r2 w2 where "fill_and_replace m tmp path data perm w1 = (r2, w2)" by fastforce
    ultimately show ?thesis
      using Inr assms Pair by (intro temp [of tmp w1 k w2]) (auto simp: write_replace_def)
  qed
qed

lemma write_replace_always:
  assumes "write_replace m path data perm w = (r, w')"
    and "p \<noteq> path" "\<And>k. p \<noteq> temp_name path @ nat_digits k" "always R p w"
  shows "always R p w'"
  using assms(1)
proof (cases rule: write_replace_cases)
  case no_temp
  then show ?thesis using assms(3,4) by (auto intro: create_temp_always)
next
  case (temp tmp k w1 w2)
  have "always R p w1" using create_temp_always [OF temp(1) assms(3,4)] .
  then have "always R p (tick w2)"
    using fill_and_replace_always [OF temp(5), of 384 False p R] assms(2,3) temp(2,3) temp_not_target [of path]
    by simp
  then show ?thesis
    using temp(2,6) assms(3) file_call_alwaysD(1) by (metis prod.collapse)
qed

lemma write_replace_target:
  assumes "write_replace m path data perm w = (r, w')" "always (old_or_new old data) path w"
  shows "always (old_or_new old data) path w'"
  using assms(1)
proof (cases rule: write_replace_cases)
  case no_temp
  then show ?thesis using assms(2) temp_not_target by (metis create_temp_always)
next
  case (temp tmp k w1 w2)
  have neq: "tmp \<noteq> path" using temp(2) temp_not_target by simp
  have "always (old_or_new old data) path w1"
    using temp(1) assms(2) temp_not_target by (metis create_temp_always)
  then have "always (old_or_new old data) path (tick w2)"
    using fill_and_replace_always [OF temp(5) neq, of 384 False path] temp(3) neq
    by (simp add: old_or_new_def)
  then show ?thesis
    using temp(6) neq file_call_alwaysD(1) by (metis prod.collapse)
qed

lemma write_replace_ok:
  assumes "write_replace m path data perm w = (Inr u, w')"
  shows "w_files w' = (w_files w)(path \<mapsto> \<lparr>f_data = data, f_perm = perm, f_synced = True\<rparr>)"
  using assms(1)
proof (cases rule: write_replace_cases)
  case (temp tmp k w1 w2)
  have neq: "tmp \<noteq> path" using temp(2) temp_not_target by simp
  have "w_files w2 = (w_files w1)(tmp := None, path \<mapsto> \<lparr>f_data = data, f_perm = perm, f_synced = True\<rparr>)"
    using fill_and_replace_ok [OF temp(5) neq, of 384 False] temp(3) by simp
  moreover from this have "w_files (snd (remove_file m tmp (tick w2))) = w_files w2"
    using neq by (auto simp: remove_file_def split: option.splits)
  ultimately show ?thesis using temp(3,4,6) neq by (auto simp: fun_eq_iff)
qed simp

lemma write_replace_env: "write_replace m path data perm w = (r, w') \<Longrightarrow> same_env w w'"
proof (erule write_replace_cases)
  fix e assume "create_temp 10000 m (temp_name path) w = (Inl e, w')"
  then show "same_env w w'" by (rule file_call_envD)
next
  fix tmp k w1 w2
  assume c: "create_temp 10000 m (temp_name path) w = (Inr tmp, w1)"
    and f: "fill_and_replace m tmp path data perm w1 = (r, w2)" and w': "w' = snd (remove_file m tmp (tick w2))"
  have "same_env w w1" using c by (rule file_call_envD)
  moreover have "same_env w1 w2" using f by (rule fill_and_replace_env)
  moreover have "same_env (tick w2) w'" using w' file_calls_env(5) by metis
  ultimately show "same_env w w'" by (simp add: same_env_def)
qed


lemma last_nat_digits: "last (nat_digits k) \<noteq> CHR ''d''"
proof
  assume eq: "last (nat_digits k) = CHR ''d''"
  obtain d where "d < 10" "last (nat_digits k) = digit_char d"
    using nat_digits_shape [of k] last_in_set by blast
  with eq have "(of_char (CHR ''d'') :: nat) = 48 + d" by (metis digit_char_nat)
  with \<open>d < 10\<close> show False by simp
qed

lemma backup_not_temp: "previous_good p \<noteq> q @ nat_digits k"
proof
  assume eq: "previous_good p = q @ nat_digits k"
  have "last (previous_good p) = CHR ''d''" by (simp add: previous_good_def)
  with eq last_nat_digits [of k] show False by simp
qed

lemma atomic_write_cases:
  assumes "atomic_write m path data perm w = (r, w')"
  obtains (early) e w1 where "w' = w \<or> w' = tick w" "r = Inl e"
  | (backup) e where "path \<noteq> []" "back_up m path perm (tick w) = (Inl e, w')" "r = Inl e"
  | (replace) r2 w3 where "path \<noteq> []" "back_up m path perm (tick w) = (Inr (), w3)"
      "write_replace m path data perm w3 = (r2, w')" "is_ok r = is_ok r2"
proof (cases "path = []")
  case True
  with assms show ?thesis by (intro early) (auto simp: atomic_write_def)
next
  case ne: False
  show ?thesis
  proof (cases "mkdir_all m (path_dir path) w")
    case (Pair r1 w1)
    then have w1: "w1 = tick w" by (rule file_callD)
    show ?thesis
    proof (cases r1)
      case (Inl e)
      with ne assms Pair w1 show ?thesis by (intro early) (auto simp: atomic_write_def)
    next
      case (Inr u)
      with ne assms Pair w1 show ?thesis
        by (cases "back_up m path perm (tick w)"; cases "fst (back_up m path perm (tick w))")
          (auto simp: atomic_write_def split: prod.splits sum.splits intro: backup replace)
    qed
  qed
qed

lemma back_up_cases:
  assumes "back_up m path perm w = (r, w')"
  obtains (unread) e where "w' = tick w" "r = Inl e"
  | (absent) "w' = tick w" "r = Inr ()" "w_files w path = None \<or> (\<exists>f. fault_now m w = Some f)"
  | (copied) x perm' r2 where "w_files w path = Some x"
      "write_replace m (previous_good path) (f_data x) perm' (tick (tick w)) = (r2, w')"
      "is_ok r = is_ok r2" "fault_now m (tick w) = None \<Longrightarrow> perm' = f_perm x"
proof (cases "read_file m path w")
  case (Pair r1 w1)
  then have w1: "w1 = tick w" by (rule file_callD)
  show ?thesis
  proof (cases r1)
    case (Inl e)
    with assms Pair w1 show ?thesis
      by (cases "err_kind e = NotExist")
        (auto simp: back_up_def read_file_def split: option.splits intro: unread absent)
  next
    case (Inr old)
    with Pair obtain x where x: "w_files w path = Some x" "old = f_data x"
      by (auto simp: read_file_def split: option.splits)
    obtain st where st: "stat_file m path w1 = (st, tick w1)"
      by (metis stat_file_frame prod.collapse)
    have p: "fault_now m (tick w) = None \<Longrightarrow> (case st of Inr x \<Rightarrow> f_perm x | Inl _ \<Rightarrow> perm) = f_perm x"
      using st w1 x by (auto simp: stat_file_def)
    obtain r2 w3 where r2: "write_replace m (previous_good path) (f_data x)
        (case st of Inr x \<Rightarrow> f_perm x | Inl _ \<Rightarrow> perm) (tick w1) = (r2, w3)" by fastforce
    then have "w' = w3" "is_ok r = is_ok r2"
      using assms Pair Inr st w1 x by (cases r2; auto simp: back_up_def; fail)+
    with r2 w1 have "write_replace m (previous_good path) (f_data x)
        (case st of Inr x \<Rightarrow> f_perm x | Inl _ \<Rightarrow> perm) (tick (tick w)) = (r2, w')" by simp
    then show ?thesis using \<open>is_ok r = is_ok r2\<close> p by (rule copied [OF x(1)])
  qed
qed

lemma back_up_env: "back_up m path perm w = (r, w') \<Longrightarrow> same_env w w'"
  by (erule back_up_cases) (auto dest: write_replace_env simp: same_env_def)

lemma back_up_always:
  assumes "back_up m path perm w = (r, w')" "path \<noteq> []" "always R path w"
  shows "always R path w'"
  using assms(1)
proof (cases rule: back_up_cases)
  case (copied x perm' r2)
  show ?thesis
    by (rule write_replace_always [OF copied(2)])
      (use assms(2,3) temp_of_backup_not_target [OF assms(2), symmetric] in simp_all)
qed (use assms in auto)

lemma atomic_write_always:
  assumes "atomic_write m path data perm w = (r, w')" "always (old_or_new old data) path w"
  shows "always (old_or_new old data) path w'"
  using assms(1)
proof (cases rule: atomic_write_cases)
  case (backup e)
  then show ?thesis using assms(2) back_up_always [OF backup(2,1)] by simp
next
  case (replace r2 w3)
  have "always (old_or_new old data) path w3"
    using assms(2) back_up_always [OF replace(2,1)] by simp
  with replace(3) show ?thesis by (rule write_replace_target)
qed (use assms in auto)

lemma atomic_write_env: "atomic_write m path data perm w = (r, w') \<Longrightarrow> same_env w w'"
  by (erule atomic_write_cases)
    (auto dest!: back_up_env write_replace_env simp: same_env_def)

lemma atomic_write_direct_cases:
  assumes "atomic_write_direct m path data perm w = (r, w')"
  obtains (early) e where "w' = w \<or> w' = tick w" "r = Inl e"
  | (replace) r2 where "write_replace m path data perm (tick w) = (r2, w')" "is_ok r = is_ok r2"
proof (cases "mkdir_all m (path_dir path) w")
  case (Pair r1 w1)
  then have "w1 = tick w" by (rule file_callD)
  with assms Pair show ?thesis
    by (auto simp: atomic_write_direct_def split: if_splits sum.splits prod.splits intro: early replace)
qed

lemma atomic_write_direct_always:
  assumes "atomic_write_direct m path data perm w = (r, w')" "always (old_or_new old data) path w"
  shows "always (old_or_new old data) path w'"
  using assms(1)
proof (cases rule: atomic_write_direct_cases)
  case (replace r2)
  then show ?thesis using assms(2) write_replace_target by (metis tick_simps(5))
qed (use assms in auto)

lemma atomic_write_direct_ok:
  "atomic_write_direct m path data perm w = (Inr u, w') \<Longrightarrow>
     w_files w' = (w_files w)(path \<mapsto> \<lparr>f_data = data, f_perm = perm, f_synced = True\<rparr>)"
  by (erule atomic_write_direct_cases)
    (auto simp: is_ok_iff dest: write_replace_ok)

lemma atomic_write_direct_env: "atomic_write_direct m path data perm w = (r, w') \<Longrightarrow> same_env w w'"
  by (erule atomic_write_direct_cases) (auto dest!: write_replace_env simp: same_env_def)

text \<open>A successful \<^verbatim>\<open>Write\<close>: the target holds the new data, the previous content is at
  the backup path, and no other path changed.\<close>

lemma atomic_write_ok:
  assumes "atomic_write m path data perm w = (Inr u, w')"
  shows "w_files w' path = Some \<lparr>f_data = data, f_perm = perm, f_synced = True\<rparr>"
    and "q \<noteq> path \<Longrightarrow> q \<noteq> previous_good path \<Longrightarrow> w_files w' q = w_files w q"
    and "w_files w' (previous_good path) = w_files w (previous_good path) \<or>
         (\<exists>x p. w_files w path = Some x \<and>
            w_files w' (previous_good path) = Some \<lparr>f_data = f_data x, f_perm = p, f_synced = True\<rparr>)"
    and "fault_now m (tick w) = None \<Longrightarrow> fault_now m (tick (tick w)) = None \<Longrightarrow>
         w_files w' (previous_good path) =
           (case w_files w path of None \<Rightarrow> w_files w (previous_good path)
            | Some x \<Rightarrow> Some \<lparr>f_data = f_data x, f_perm = f_perm x, f_synced = True\<rparr>)"
proof -
  from assms obtain w3 where b: "back_up m path perm (tick w) = (Inr (), w3)"
    and r: "write_replace m path data perm w3 = (Inr (), w')"
    by (cases rule: atomic_write_cases) (auto simp: is_ok_iff)
  note f = write_replace_ok [OF r]
  show "w_files w' path = Some \<lparr>f_data = data, f_perm = perm, f_synced = True\<rparr>"
    using f by simp
  show "w_files w' q = w_files w q" if "q \<noteq> path" "q \<noteq> previous_good path"
    using b f that by (cases rule: back_up_cases) (auto simp: is_ok_iff dest!: write_replace_ok)
  show "w_files w' (previous_good path) = w_files w (previous_good path) \<or>
         (\<exists>x p. w_files w path = Some x \<and>
            w_files w' (previous_good path) = Some \<lparr>f_data = f_data x, f_perm = p, f_synced = True\<rparr>)"
    using b f by (cases rule: back_up_cases) (auto simp: is_ok_iff dest!: write_replace_ok)
  show "w_files w' (previous_good path) =
           (case w_files w path of None \<Rightarrow> w_files w (previous_good path)
            | Some x \<Rightarrow> Some \<lparr>f_data = f_data x, f_perm = f_perm x, f_synced = True\<rparr>)"
    if "fault_now m (tick w) = None" "fault_now m (tick (tick w)) = None"
    using b f that by (cases rule: back_up_cases) (auto simp: is_ok_iff dest!: write_replace_ok)
qed


lemma back_up_backup_always:
  assumes "back_up m path perm w = (r, w')" "always R (previous_good path) w"
    and "\<And>x p. w_files w path = Some x \<Longrightarrow> R (Some \<lparr>f_data = f_data x, f_perm = p, f_synced = True\<rparr>)"
  shows "always R (previous_good path) w'"
  using assms(1)
proof (cases rule: back_up_cases)
  case (copied x perm' r2)
  from copied(2) show ?thesis
  proof (cases rule: write_replace_cases)
    case (no_temp e)
    then show ?thesis using assms(2) backup_not_temp by (metis create_temp_always tick_simps(5))
  next
    case (temp tmp k w1 w2)
    have neq: "previous_good path \<noteq> tmp" "tmp \<noteq> previous_good path"
      using temp(2) backup_not_temp by metis+
    have "always R (previous_good path) w1"
      using create_temp_always [OF temp(1) backup_not_temp, of R] assms(2) by simp
    then have "always R (previous_good path) (tick w2)"
      using fill_and_replace_always [OF temp(5) neq(2), of 384 False "previous_good path" R] temp(3) neq
        assms(3) [OF copied(1)] by simp
    then show ?thesis
      using temp(6) neq file_call_alwaysD(1) by (metis prod.collapse)
  qed
qed (use assms in auto)

lemma atomic_write_backup_always:
  assumes "atomic_write m path data perm w = (r, w')" "always R (previous_good path) w"
    and "\<And>x p. w_files w path = Some x \<Longrightarrow> R (Some \<lparr>f_data = f_data x, f_perm = p, f_synced = True\<rparr>)"
  shows "always R (previous_good path) w'"
  using assms(1)
proof (cases rule: atomic_write_cases)
  case (backup e)
  then show ?thesis using assms(2,3) back_up_backup_always [OF backup(2)] by simp
next
  case (replace r2 w3)
  have "always R (previous_good path) w3"
    using assms(2,3) back_up_backup_always [OF replace(2)] by simp
  then show ?thesis
    using write_replace_always [OF replace(3), of "previous_good path" R] backup_not_temp by simp
qed (use assms in auto)

section \<open>Progress\<close>

text \<open>Without faults, and with no left-over temporary files of the same target, a write
  succeeds.\<close>

definition reliable :: "'k machine \<Rightarrow> bool" where
  "reliable m \<longleftrightarrow> (\<forall>n. m_fault m n = None)"

definition no_temps :: "string \<Rightarrow> 'k world \<Rightarrow> bool" where
  "no_temps path w \<longleftrightarrow> (\<forall>k. w_files w (temp_name path @ nat_digits k) = None)"

lemma reliable_fault [simp]: "reliable m \<Longrightarrow> fault_now m w = None"
  by (simp add: reliable_def fault_now_def)

lemma write_replace_succeeds:
  assumes "reliable m" "no_temps path w"
  shows "\<exists>w'. write_replace m path data perm w = (Inr (), w')"
proof -
  define tmp where "tmp = temp_name path @ nat_digits (m_rand m (w_tick w))"
  have "create_temp 10000 m (temp_name path) w =
      (Inr tmp, put_fs ((w_files w)(tmp \<mapsto> \<lparr>f_data = [], f_perm = 384, f_synced = False\<rparr>)) (tick w))"
    using assms by (subst create_temp.simps) (simp add: create_excl_def no_temps_def tmp_def Let_def)
  moreover have "fst (fill_and_replace m tmp path data perm
      (put_fs ((w_files w)(tmp \<mapsto> \<lparr>f_data = [], f_perm = 384, f_synced = False\<rparr>)) (tick w))) = Inr ()"
    using assms(1) by (simp add: fill_and_replace_def fill_temp_def handle_defs)
  ultimately show ?thesis
    by (auto simp: write_replace_def split: prod.splits)
qed

lemma atomic_write_succeeds:
  assumes "reliable m" "no_temps path w" "no_temps (previous_good path) w" "path \<noteq> []"
  shows "\<exists>w'. atomic_write m path data perm w = (Inr (), w')"
proof -
  have mk: "mkdir_all m (path_dir path) w = (Inr (), tick w)"
    using assms(1) by (simp add: mkdir_all_def)
  obtain w3 where w3: "back_up m path perm (tick w) = (Inr (), w3)" and t: "no_temps path w3"
  proof (cases "w_files w path")
    case None
    then show ?thesis using assms(1,2)
      by (intro that [of "tick (tick w)"])
        (auto simp: back_up_def read_file_def no_such_file_def no_temps_def)
  next
    case (Some x)
    let ?w = "tick (tick (tick w))"
    have "no_temps (previous_good path) ?w" using assms(3) by (simp add: no_temps_def)
    then obtain w3 where w3: "write_replace m (previous_good path) (f_data x) (f_perm x) ?w = (Inr (), w3)"
      using write_replace_succeeds [OF assms(1)] by blast
    have "no_temps path w3"
      using write_replace_ok [OF w3] assms(2) backup_not_temp [of path "temp_name path", symmetric]
      by (simp add: no_temps_def)
    with Some w3 assms(1) show ?thesis
      by (intro that [of w3]) (auto simp: back_up_def read_file_def stat_file_def)
  qed
  obtain w4 where "write_replace m path data perm w3 = (Inr (), w4)"
    using write_replace_succeeds [OF assms(1) t] by blast
  with mk w3 assms(4) show ?thesis by (simp add: atomic_write_def)
qed

lemma no_temps_single:
  "no_temps p (world_of [(p, d)] k)" "p \<noteq> [] \<Longrightarrow> no_temps (previous_good p) (world_of [(p, d)] k)"
  "no_temps p (world_of [] k)"
  by (simp_all add: no_temps_def world_of_def temp_not_target temp_of_backup_not_target)

lemma reliable_quiet [simp]: "reliable quiet_machine"
  by (simp add: reliable_def quiet_machine_def)

section \<open>Properties\<close>

text \<open>C1: \<^verbatim>\<open>atomicfile.Write\<close> is crash safe.  Whatever system calls fail and wherever the
  machine stops, at every moment the target holds what it held before or the complete new
  data, synced; and the backup holds what it held before or the complete previous content
  of the target, synced.\<close>

theorem atomic_write_crash_safe:
  "let w' = snd (atomic_write m path data perm (w\<lparr>w_trace := []\<rparr>)) in
     always (old_or_new (w_files w path) data) path w' \<and>
     always (\<lambda>b. b = w_files w (previous_good path) \<or>
         (\<exists>x p. w_files w path = Some x \<and> b = Some \<lparr>f_data = f_data x, f_perm = p, f_synced = True\<rparr>))
        (previous_good path) w'"
proof -
  obtain r w' where r: "atomic_write m path data perm (w\<lparr>w_trace := []\<rparr>) = (r, w')"
    by fastforce
  show ?thesis
    using atomic_write_always [OF r, of "w_files w path"]
      atomic_write_backup_always [OF r, of "\<lambda>b. b = w_files w (previous_good path) \<or>
         (\<exists>x p. w_files w path = Some x \<and> b = Some \<lparr>f_data = f_data x, f_perm = p, f_synced = True\<rparr>)"]
    by (auto simp: always_def old_or_new_def r)
qed

text \<open>A \<^verbatim>\<open>Write\<close> that reports success has put the data at the target with the wanted
  permissions, and changed no other path but the backup, which (when the backup's read and
  stat went through) is the previous content under its own permissions; in particular no
  temporary file is left.  No command was run.\<close>

theorem atomic_write_effect:
  assumes "atomic_write m path data perm w = (Inr (), w')"
    and "fault_now m (tick w) = None" "fault_now m (tick (tick w)) = None"
  shows "w_files w' = (case w_files w path of
        None \<Rightarrow> (w_files w)(path \<mapsto> \<lparr>f_data = data, f_perm = perm, f_synced = True\<rparr>)
      | Some x \<Rightarrow> (w_files w)(previous_good path \<mapsto> \<lparr>f_data = f_data x, f_perm = f_perm x, f_synced = True\<rparr>,
                             path \<mapsto> \<lparr>f_data = data, f_perm = perm, f_synced = True\<rparr>))
    \<and> w_log w' = w_log w"
proof -
  note ok = atomic_write_ok [OF assms(1)]
  have "w_files w' q = (case w_files w path of
        None \<Rightarrow> (w_files w)(path \<mapsto> \<lparr>f_data = data, f_perm = perm, f_synced = True\<rparr>)
      | Some x \<Rightarrow> (w_files w)(previous_good path \<mapsto> \<lparr>f_data = f_data x, f_perm = f_perm x, f_synced = True\<rparr>,
                             path \<mapsto> \<lparr>f_data = data, f_perm = perm, f_synced = True\<rparr>)) q" for q
    using ok(1) ok(2) [of q] ok(4) [OF assms(2,3)] by (auto split: option.splits)
  then show ?thesis using atomic_write_env [OF assms(1)] by (auto simp: same_env_def)
qed

lemma atomic_write_effect_witness:
  "\<exists>w'. atomic_write quiet_machine ''/s/j'' ''new'' 384 (world_of [(''/s/j'', ''old'')] ()) = (Inr (), w')
     \<and> f_data (the (w_files w' ''/s/j.previous-good'')) = ''old''"
proof -
  let ?w = "world_of [(''/s/j'', ''old'')] ()"
  obtain w' where w': "atomic_write quiet_machine ''/s/j'' ''new'' 384 ?w = (Inr (), w')"
    using atomic_write_succeeds [OF reliable_quiet no_temps_single(1,2)] by blast
  show ?thesis
    using atomic_write_effect [OF w'] w' by (simp add: world_of_def previous_good_def)
qed

end
