(* ===== verification/Go_Hash.thy ===== *)
theory Go_Hash imports Go_Strings "HOL-Library.Word" begin

text \<open>
  Go's packages \<^verbatim>\<open>crypto/sha256\<close> and \<^verbatim>\<open>encoding/hex\<close>, as far as the program uses them:
  the SHA-256 digest of a byte string (FIPS 180-4) on 32-bit words, and its lower case
  hexadecimal text.  Nothing here is code of the repository.
\<close>

unbundle bit_operations_syntax

type_synonym w32 = "32 word"

text \<open>The round constants are the first 32 bits of the fractional parts of the cube roots of
  the first 64 primes, and the initial value has the square roots of the first eight; the
  whole part of a scaled root drops out in the conversion to 32 bits.\<close>

fun root_bits :: "nat \<Rightarrow> int \<Rightarrow> nat \<Rightarrow> int \<Rightarrow> int" where
  "root_bits k x 0 r = r"
| "root_bits k x (Suc b) r = root_bits k x b (if (r + 2 ^ b) ^ k \<le> x then r + 2 ^ b else r)"

definition first_primes :: "int list" where
  "first_primes = [
    2, 3, 5, 7, 11, 13, 17, 19, 23, 29, 31, 37, 41, 43, 47, 53, 59, 61, 67, 71, 73, 79,
    83, 89, 97, 101, 103, 107, 109, 113, 127, 131, 137, 139, 149, 151, 157, 163, 167, 173, 179, 181, 191, 193,
    197, 199, 211, 223, 227, 229, 233, 239, 241, 251, 257, 263, 269, 271, 277, 281, 283, 293, 307, 311]"

definition sha_k :: "w32 list" where
  "sha_k = map (\<lambda>p. word_of_int (root_bits 3 (p * 2 ^ 96) 36 0)) first_primes"

definition sha_init :: "w32 list" where
  "sha_init = map (\<lambda>p. word_of_int (root_bits 2 (p * 2 ^ 64) 36 0)) (take 8 first_primes)"

definition rotr :: "nat \<Rightarrow> w32 \<Rightarrow> w32" where
  "rotr n x = (drop_bit n x OR push_bit (32 - n) x)"

definition be_word :: "nat list \<Rightarrow> w32" where
  "be_word bs = word_of_nat (foldl (\<lambda>a b. 256 * a + b) 0 bs)"

definition be_bytes :: "nat \<Rightarrow> nat \<Rightarrow> nat list" where
  "be_bytes n x = rev (map (\<lambda>i. (x div 256 ^ i) mod 256) [0..<n])"

fun chunks :: "nat \<Rightarrow> nat \<Rightarrow> 'a list \<Rightarrow> 'a list list" where
  "chunks 0 n xs = []"
| "chunks (Suc k) n xs = take n xs # chunks k n (drop n xs)"

definition sha_pad :: "nat list \<Rightarrow> nat list" where
  "sha_pad bs =
     (let l = length bs; z = (119 - l mod 64) mod 64
      in bs @ 128 # replicate z 0 @ be_bytes 8 (8 * l mod 2 ^ 64))"

text \<open>The message schedule, newest word first.\<close>

fun sha_schedule :: "nat \<Rightarrow> w32 list \<Rightarrow> w32 list" where
  "sha_schedule 0 ws = ws"
| "sha_schedule (Suc k) ws =
     (let x = ws ! 14; y = ws ! 1;
          s0 = (rotr 7 x XOR rotr 18 x XOR drop_bit 3 x);
          s1 = (rotr 17 y XOR rotr 19 y XOR drop_bit 10 y)
      in sha_schedule k ((ws ! 15 + s0 + ws ! 6 + s1) # ws))"

fun sha_round :: "w32 list \<Rightarrow> w32 \<times> w32 \<Rightarrow> w32 list" where
  "sha_round [a, b, c, d, e, f, g, h] (k, w) =
     (let s1 = (rotr 6 e XOR rotr 11 e XOR rotr 25 e);
          ch = ((e AND f) XOR (NOT e AND g));
          t1 = h + s1 + ch + k + w;
          s0 = (rotr 2 a XOR rotr 13 a XOR rotr 22 a);
          maj = ((a AND b) XOR (a AND c) XOR (b AND c))
      in [t1 + s0 + maj, a, b, c, d + t1, e, f, g])"
| "sha_round st _ = st"

definition sha_block :: "w32 list \<Rightarrow> nat list \<Rightarrow> w32 list" where
  "sha_block h bs =
     (let ws = rev (sha_schedule 48 (rev (map be_word (chunks 16 4 bs))))
      in map2 (+) h (foldl sha_round h (zip sha_k ws)))"

definition sha256 :: "string \<Rightarrow> nat list" where
  "sha256 s =
     (let bs = sha_pad (map of_char s)
      in concat (map (\<lambda>w. be_bytes 4 (unat w)) (foldl sha_block sha_init (chunks (length bs div 64) 64 bs))))"

definition hex_text :: "nat list \<Rightarrow> string" where
  "hex_text bs = concat (map (\<lambda>b. [hex_digit (b div 16), hex_digit (b mod 16)]) bs)"

lemma length_sha_round [simp]: "length h = 8 \<Longrightarrow> length (sha_round h kw) = 8"
  by (cases "(h, kw)" rule: sha_round.cases) (auto simp: Let_def)

lemma length_sha_rounds [simp]: "length h = 8 \<Longrightarrow> length (foldl sha_round h ks) = 8"
  by (induction ks arbitrary: h) simp_all

lemma length_sha_block [simp]: "length h = 8 \<Longrightarrow> length (sha_block h bs) = 8"
  by (simp add: sha_block_def Let_def)

lemma length_sha_blocks [simp]: "length h = 8 \<Longrightarrow> length (foldl sha_block h bs) = 8"
  by (induction bs arbitrary: h) simp_all

lemma length_be_bytes [simp]: "length (be_bytes n x) = n"
  by (simp add: be_bytes_def)

lemma length_concat_const: "(\<And>x. x \<in> set xs \<Longrightarrow> length (f x) = n) \<Longrightarrow> length (concat (map f xs)) = n * length xs"
  by (induction xs) simp_all

lemma length_sha256 [simp]: "length (sha256 s) = 32"
proof -
  have "length sha_init = 8" by (simp add: sha_init_def first_primes_def)
  then show ?thesis
    by (simp add: sha256_def Let_def length_concat_const [where n = 4])
qed

lemma length_hex_sha256 [simp]: "length (hex_text (sha256 s)) = 64"
  by (simp add: hex_text_def length_concat_const [where n = 2])

end
