(* ===== verification/Json.thy ===== *)
theory Json imports Prelude begin

text \<open>
  Go's package \<^verbatim>\<open>encoding/json\<close>, as far as the program uses it: the text of a value
  (\<^verbatim>\<open>Marshal\<close>, \<^verbatim>\<open>MarshalIndent(v, "", "  ")\<close>), the parser, and the decoding of a value into
  Go data (\<^verbatim>\<open>Unmarshal\<close>): case-insensitive field names, unknown fields ignored, \<^verbatim>\<open>null\<close>
  leaves a value alone, a value of the wrong type is skipped and reported at the end.
  Bytes beyond ASCII are assumed to be valid UTF-8 and pass through unchanged.  The main
  fact is the round trip \<open>parse_print\<close>.  Nothing here is code of the repository.
\<close>

section \<open>Values and their text\<close>

datatype json =
    JNull
  | JBool bool
  | JNum string
  | JStr string
  | JArr "json list"
  | JObj "(string \<times> json) list"

abbreviation quote_mark :: char where "quote_mark \<equiv> CHR 0x22"
abbreviation backslash :: char where "backslash \<equiv> CHR 0x5C"

definition esc_char :: "char \<Rightarrow> string" where
  "esc_char c = (let n = of_char c :: nat in
     if c = quote_mark \<or> c = backslash then [backslash, c]
     else if n = 8 then [backslash, CHR ''b''] else if n = 12 then [backslash, CHR ''f'']
     else if n = 10 then [backslash, CHR ''n''] else if n = 13 then [backslash, CHR ''r'']
     else if n = 9 then [backslash, CHR ''t'']
     else if n < 32 \<or> n = 38 \<or> n = 60 \<or> n = 62
       then [backslash, CHR ''u'', CHR ''0'', CHR ''0'', hex_digit (n div 16), hex_digit (n mod 16)]
     else [c])"

definition print_string :: "string \<Rightarrow> string" where
  "print_string s = quote_mark # concat (map esc_char s) @ [quote_mark]"

text \<open>A line break with its indentation; nothing in the compact form.\<close>

definition break_line :: "bool \<Rightarrow> nat \<Rightarrow> string" where
  "break_line ind i = (if ind then nl @ replicate (2 * i) (CHR '' '') else [])"

fun print_items :: "bool \<Rightarrow> nat \<Rightarrow> string list \<Rightarrow> string" where
  "print_items ind i [] = []"
| "print_items ind i [p] = break_line ind (Suc i) @ p @ break_line ind i"
| "print_items ind i (p # q # ps) = break_line ind (Suc i) @ p @ '','' @ print_items ind i (q # ps)"

fun print_json :: "bool \<Rightarrow> nat \<Rightarrow> json \<Rightarrow> string" where
  "print_json ind i JNull = ''null''"
| "print_json ind i (JBool b) = (if b then ''true'' else ''false'')"
| "print_json ind i (JNum t) = t"
| "print_json ind i (JStr s) = print_string s"
| "print_json ind i (JArr xs) = ''['' @ print_items ind i (map (print_json ind (Suc i)) xs) @ '']''"
| "print_json ind i (JObj kvs) = ''{'' @
     print_items ind i (map (\<lambda>(k, v). print_string k @ (if ind then '': '' else '':'') @ print_json ind (Suc i) v) kvs)
     @ ''}''"

definition marshal :: "json \<Rightarrow> string" where
  "marshal j = print_json False 0 j"

definition marshal_indent :: "json \<Rightarrow> string" where
  "marshal_indent j = print_json True 0 j"

section \<open>The parser\<close>

definition json_ws :: "char \<Rightarrow> bool" where
  "json_ws c \<longleftrightarrow> c = CHR '' '' \<or> c = CHR 0x09 \<or> c = CHR 0x0A \<or> c = CHR 0x0D"

definition skip_ws :: "string \<Rightarrow> string" where
  "skip_ws s = dropWhile json_ws s"

definition num_char :: "char \<Rightarrow> bool" where
  "num_char c \<longleftrightarrow> digit_of c \<noteq> None \<or> c \<in> {CHR ''-'', CHR ''+'', CHR ''.'', CHR ''e'', CHR ''E''}"

definition drop_digits :: "string \<Rightarrow> string" where
  "drop_digits s = dropWhile (\<lambda>c. digit_of c \<noteq> None) s"

definition starts_digit :: "string \<Rightarrow> bool" where
  "starts_digit s \<longleftrightarrow> (case s of [] \<Rightarrow> False | c # _ \<Rightarrow> digit_of c \<noteq> None)"

text \<open>The number grammar: sign, integer part without leading zero, fraction, exponent.\<close>

definition valid_num :: "string \<Rightarrow> bool" where
  "valid_num t =
     (let t1 = trim_prefix t ''-'';
          t2 = (if has_prefix t1 ''0'' then tl t1 else drop_digits t1);
          frac_ok = (has_prefix t2 ''.'' \<longrightarrow> starts_digit (tl t2));
          t3 = (if has_prefix t2 ''.'' then drop_digits (tl t2) else t2);
          exp = has_prefix t3 ''e'' \<or> has_prefix t3 ''E'';
          t4 = (if exp then (let e = tl t3 in if has_prefix e ''+'' \<or> has_prefix e ''-'' then tl e else e) else t3);
          exp_ok = (exp \<longrightarrow> starts_digit t4);
          t5 = (if exp then drop_digits t4 else t4)
      in starts_digit t1 \<and> frac_ok \<and> exp_ok \<and> t5 = [])"

text \<open>UTF-8 of a code point, and the escape after a backslash: its bytes and the rest.\<close>

definition utf8 :: "nat \<Rightarrow> string" where
  "utf8 n =
     (if n < 128 then [char_of n]
      else if n < 2048 then [char_of (192 + n div 64), char_of (128 + n mod 64)]
      else if n < 65536 then [char_of (224 + n div 4096), char_of (128 + n div 64 mod 64), char_of (128 + n mod 64)]
      else [char_of (240 + n div 262144), char_of (128 + n div 4096 mod 64),
            char_of (128 + n div 64 mod 64), char_of (128 + n mod 64)])"

definition hex4 :: "string \<Rightarrow> nat option" where
  "hex4 s = (if length s < 4 then None else hex_uint 0 (take 4 s))"

definition unicode_escape :: "string \<Rightarrow> (string \<times> string) option" where
  "unicode_escape s =
     (case hex4 s of
        None \<Rightarrow> None
      | Some u \<Rightarrow>
          (let r = drop 4 s in
           if 55296 \<le> u \<and> u < 56320 then
             (case (if has_prefix r [backslash, CHR ''u''] then hex4 (drop 2 r) else None) of
                Some v \<Rightarrow> if 56320 \<le> v \<and> v < 57344
                          then Some (utf8 (65536 + (u - 55296) * 1024 + (v - 56320)), drop 6 r)
                          else Some (utf8 65533, r)
              | None \<Rightarrow> Some (utf8 65533, r))
           else if 56320 \<le> u \<and> u < 57344 then Some (utf8 65533, r)
           else Some (utf8 u, r)))"

definition unescape :: "string \<Rightarrow> (string \<times> string) option" where
  "unescape s =
     (case s of
        [] \<Rightarrow> None
      | e # r \<Rightarrow>
          if e = quote_mark \<or> e = backslash \<or> e = CHR ''/'' then Some ([e], r)
          else if e = CHR ''b'' then Some ([CHR 0x08], r)
          else if e = CHR ''f'' then Some ([CHR 0x0C], r)
          else if e = CHR ''n'' then Some ([CHR 0x0A], r)
          else if e = CHR ''r'' then Some ([CHR 0x0D], r)
          else if e = CHR ''t'' then Some ([CHR 0x09], r)
          else if e = CHR ''u'' then unicode_escape r
          else None)"

lemma unicode_escape_shorter: "unicode_escape s = Some (x, r) \<Longrightarrow> length r < length s"
  by (auto simp: unicode_escape_def hex4_def Let_def split: option.splits if_splits)

lemma unescape_shorter: "unescape s = Some (x, r) \<Longrightarrow> length r < length s"
  by (auto simp: unescape_def dest: unicode_escape_shorter split: list.splits if_splits)

text \<open>The body of a string literal, after its opening quote.\<close>

function str_body :: "string \<Rightarrow> (string \<times> string) option" where
  "str_body s =
     (case s of
        [] \<Rightarrow> None
      | c # r \<Rightarrow>
          if c = quote_mark then Some ([], r)
          else if c = backslash then
            (case unescape r of
               None \<Rightarrow> None
             | Some (x, r') \<Rightarrow> map_option (\<lambda>(y, t). (x @ y, t)) (str_body r'))
          else if (of_char c :: nat) < 32 then None
          else map_option (\<lambda>(y, t). (c # y, t)) (str_body r))"
  by pat_completeness auto
termination
  by (relation "measure length") (auto dest: unescape_shorter)

declare str_body.simps [simp del]

definition parse_literal :: "string \<Rightarrow> (json \<times> string) option" where
  "parse_literal s =
     (if has_prefix s ''null'' then Some (JNull, drop 4 s)
      else if has_prefix s ''true'' then Some (JBool True, drop 4 s)
      else if has_prefix s ''false'' then Some (JBool False, drop 5 s)
      else (let t = takeWhile num_char s in
            if valid_num t then Some (JNum t, drop (length t) s) else None))"

text \<open>The fuel bounds the depth of the recursion; the length of the text is enough.\<close>

fun parse_value :: "nat \<Rightarrow> string \<Rightarrow> (json \<times> string) option"
  and parse_elems :: "nat \<Rightarrow> string \<Rightarrow> (json list \<times> string) option"
  and parse_members :: "nat \<Rightarrow> string \<Rightarrow> ((string \<times> json) list \<times> string) option" where
  "parse_value 0 s = None"
| "parse_value (Suc n) s =
     (case skip_ws s of
        [] \<Rightarrow> None
      | c # r \<Rightarrow>
          if c = CHR ''{'' then
            (if has_prefix (skip_ws r) ''}'' then Some (JObj [], tl (skip_ws r))
             else map_option (\<lambda>(kvs, t). (JObj kvs, t)) (parse_members n r))
          else if c = CHR ''['' then
            (if has_prefix (skip_ws r) '']'' then Some (JArr [], tl (skip_ws r))
             else map_option (\<lambda>(xs, t). (JArr xs, t)) (parse_elems n r))
          else if c = quote_mark then map_option (\<lambda>(x, t). (JStr x, t)) (str_body r)
          else parse_literal (c # r))"
| "parse_elems 0 s = None"
| "parse_elems (Suc n) s =
     (case parse_value n s of
        None \<Rightarrow> None
      | Some (v, r) \<Rightarrow>
          (case skip_ws r of
             [] \<Rightarrow> None
           | c # t \<Rightarrow>
               if c = CHR '']'' then Some ([v], t)
               else if c = CHR '','' then map_option (\<lambda>(vs, u). (v # vs, u)) (parse_elems n t)
               else None))"
| "parse_members 0 s = None"
| "parse_members (Suc n) s =
     (case skip_ws s of
        [] \<Rightarrow> None
      | q # r \<Rightarrow>
          if q \<noteq> quote_mark then None
          else (case str_body r of
             None \<Rightarrow> None
           | Some (k, r1) \<Rightarrow>
               (case skip_ws r1 of
                  [] \<Rightarrow> None
                | c # r2 \<Rightarrow>
                    if c \<noteq> CHR '':'' then None
                    else (case parse_value n r2 of
                       None \<Rightarrow> None
                     | Some (v, r3) \<Rightarrow>
                         (case skip_ws r3 of
                            [] \<Rightarrow> None
                          | d # t \<Rightarrow>
                              if d = CHR ''}'' then Some ([(k, v)], t)
                              else if d = CHR '','' then
                                map_option (\<lambda>(kvs, u). ((k, v) # kvs, u)) (parse_members n t)
                              else None)))))"

text \<open>A whole text, and the first value of a stream.\<close>

definition parse_json :: "string \<Rightarrow> json option" where
  "parse_json s =
     (case parse_value (length s) s of
        None \<Rightarrow> None
      | Some (v, r) \<Rightarrow> if skip_ws r = [] then Some v else None)"

definition parse_stream :: "string \<Rightarrow> json option" where
  "parse_stream s = map_option fst (parse_value (length s) s)"

section \<open>The round trip\<close>

text \<open>A value whose numbers are number literals.\<close>

fun wf_json :: "json \<Rightarrow> bool" where
  "wf_json (JNum t) = (valid_num t \<and> list_all num_char t)"
| "wf_json (JArr xs) = list_all wf_json xs"
| "wf_json (JObj kvs) = list_all (\<lambda>(k, v). wf_json v) kvs"
| "wf_json _ = True"

text \<open>What may follow a value so that a number ends there.\<close>

definition ends_value :: "string \<Rightarrow> bool" where
  "ends_value r \<longleftrightarrow> (case r of [] \<Rightarrow> True | c # _ \<Rightarrow> \<not> num_char c)"

lemma hex_val_digit [simp]: "d < 16 \<Longrightarrow> hex_val (hex_digit d) = Some d"
  by (auto simp: hex_val_def hex_digit_def Let_def)

lemma hex4_low:
  "n < 32 \<or> n = 38 \<or> n = 60 \<or> n = 62 \<Longrightarrow>
     hex4 (CHR ''0'' # CHR ''0'' # hex_digit (n div 16) # hex_digit (n mod 16) # r) = Some n"
  by (auto simp: hex4_def hex_val_def [of "CHR ''0''"])

lemma esc_char_cases:
  obtains (plain) "esc_char c = [c]" "c \<noteq> quote_mark" "c \<noteq> backslash" "\<not> (of_char c :: nat) < 32"
  | (escaped) e where "esc_char c = backslash # e" "\<And>r. unescape (e @ r) = Some ([c], r)"
proof -
  let ?n = "of_char c :: nat"
  have sp: "?n = 8 \<Longrightarrow> c = CHR 0x08" "?n = 12 \<Longrightarrow> c = CHR 0x0C" "?n = 10 \<Longrightarrow> c = CHR 0x0A"
      "?n = 13 \<Longrightarrow> c = CHR 0x0D" "?n = 9 \<Longrightarrow> c = CHR 0x09"
    by (simp_all flip: of_char_inject)
  consider "c = quote_mark \<or> c = backslash" | "c \<noteq> quote_mark" "c \<noteq> backslash" "?n \<in> {8, 9, 10, 12, 13}"
    | "c \<noteq> quote_mark" "c \<noteq> backslash" "?n \<notin> {8, 9, 10, 12, 13}" "?n < 32 \<or> ?n = 38 \<or> ?n = 60 \<or> ?n = 62"
    | "c \<noteq> quote_mark" "c \<noteq> backslash" "\<not> ?n < 32" "?n \<notin> {38, 60, 62}" by blast
  then show thesis
  proof cases
    case 1
    then show ?thesis by (intro escaped [of "[c]"]) (auto simp: esc_char_def Let_def unescape_def)
  next
    case 2
    then show ?thesis using sp
      by (intro escaped [of "tl (esc_char c)"]) (auto simp: esc_char_def Let_def unescape_def)
  next
    case 3
    have "unicode_escape (CHR ''0'' # CHR ''0'' # hex_digit (?n div 16) # hex_digit (?n mod 16) # r) = Some ([c], r)" for r
      using 3(4) by (auto simp: unicode_escape_def hex4_low utf8_def)
    with 3 show ?thesis
      by (intro escaped [of "CHR ''u'' # CHR ''0'' # CHR ''0'' # hex_digit (?n div 16) # [hex_digit (?n mod 16)]"])
        (auto simp: esc_char_def Let_def unescape_def)
  next
    case 4
    then show ?thesis by (intro plain) (auto simp: esc_char_def Let_def)
  qed
qed

lemma str_body_esc: "str_body (esc_char c @ t) = map_option (\<lambda>(y, u). (c # y, u)) (str_body t)"
  by (cases c rule: esc_char_cases) (simp_all add: str_body.simps [of "_ # _"])

lemma str_body_print: "str_body (concat (map esc_char s) @ quote_mark # r) = Some (s, r)"
  by (induction s) (simp_all add: str_body_esc str_body.simps [of "quote_mark # r"])

lemma skip_ws_cons [simp]: "\<not> json_ws c \<Longrightarrow> skip_ws (c # s) = c # s"
  by (simp add: skip_ws_def)

lemma skip_ws_break [simp]: "skip_ws (break_line ind i @ s) = skip_ws s"
proof -
  have "\<forall>c\<in>set (break_line ind i). json_ws c" by (auto simp: break_line_def json_ws_def nl_def)
  then show ?thesis by (simp add: skip_ws_def dropWhile_append2)
qed

lemma parse_value_skip: "skip_ws (b @ s) = skip_ws s \<Longrightarrow> parse_value n (b @ s) = parse_value n s"
  by (cases n) simp_all

lemma json_ws_simps [simp]:
  "\<not> json_ws (CHR ''{'')" "\<not> json_ws (CHR ''}'')" "\<not> json_ws (CHR ''['')" "\<not> json_ws (CHR '']'')"
  "\<not> json_ws (CHR '','')" "\<not> json_ws (CHR '':'')" "\<not> json_ws quote_mark"
  by (simp_all add: json_ws_def)

text \<open>The first byte of a printed value.\<close>

lemma valid_num_first:
  assumes "valid_num t"
  obtains c r where "t = c # r" "c = CHR ''-'' \<or> digit_of c \<noteq> None"
proof -
  have d: "starts_digit (trim_prefix t ''-'')" using assms unfolding valid_num_def Let_def by (rule conjunct1)
  show ?thesis
  proof (cases t)
    case Nil
    with d show ?thesis by (simp add: trim_prefix_def has_prefix_def starts_digit_def)
  next
    case (Cons c r)
    with d have "c = CHR ''-'' \<or> digit_of c \<noteq> None"
      by (auto simp: trim_prefix_def has_prefix_def starts_digit_def split: if_splits)
    with Cons show ?thesis using that by blast
  qed
qed

lemma num_first_simps:
  assumes "c = CHR ''-'' \<or> digit_of c \<noteq> None"
  shows "\<not> json_ws c" "c \<noteq> CHR ''{''" "c \<noteq> CHR ''[''" "c \<noteq> quote_mark" "c \<noteq> CHR ''n''"
    "c \<noteq> CHR ''t''" "c \<noteq> CHR ''f''" "c \<noteq> CHR '']''" "c \<noteq> CHR ''}''"
proof -
  have c: "(of_char c :: nat) = 45 \<or> 48 \<le> (of_char c :: nat) \<and> (of_char c :: nat) \<le> 57"
    using assms by (auto simp: digit_of_def Let_def split: if_splits)
  then show "c \<noteq> CHR ''{''" "c \<noteq> CHR ''[''" "c \<noteq> quote_mark" "c \<noteq> CHR ''n''"
    "c \<noteq> CHR ''t''" "c \<noteq> CHR ''f''" "c \<noteq> CHR '']''" "c \<noteq> CHR ''}''"
    by (simp_all flip: of_char_inject) linarith+
  show "\<not> json_ws c"
    using c unfolding json_ws_def by (simp flip: of_char_inject) linarith
qed

lemma parse_literal_num:
  assumes "valid_num t" "list_all num_char t" "ends_value r"
  shows "parse_literal (t @ r) = Some (JNum t, r)"
proof -
  obtain c u where t: "t = c # u" "c = CHR ''-'' \<or> digit_of c \<noteq> None" using valid_num_first [OF assms(1)] .
  have "takeWhile num_char (t @ r) = t"
    using assms(2,3) by (cases r) (auto simp: ends_value_def list_all_iff)
  then show ?thesis
    using assms(1) t num_first_simps [OF t(2)] by (auto simp: parse_literal_def has_prefix_def Let_def)
qed

lemma print_items_cons:
  "print_items ind i (p # ps) = break_line ind (Suc i) @ p @
     (if ps = [] then break_line ind i else '','' @ print_items ind i ps)"
  by (cases ps) simp_all

lemma ends_value_simps [simp]: "ends_value (CHR '','' # r)" "ends_value (CHR '']'' # r)" "ends_value (CHR ''}'' # r)"
  "ends_value []"
  by (simp_all add: ends_value_def num_char_def digit_of_def)

lemma ends_value_break [simp]: "ends_value r \<Longrightarrow> ends_value (break_line ind i @ r)"
  by (auto simp: ends_value_def break_line_def nl_def num_char_def digit_of_def)

text \<open>A printed value is not taken for the end of a list.\<close>

lemma print_json_first:
  assumes "wf_json j"
  obtains c r where "print_json ind i j = c # r" "\<not> json_ws c" "c \<noteq> CHR '']''" "c \<noteq> CHR ''}''"
proof (cases j)
  case (JNum t)
  with assms obtain c u where t: "t = c # u" "c = CHR ''-'' \<or> digit_of c \<noteq> None"
    using valid_num_first by auto
  with JNum show ?thesis using that num_first_simps [OF t(2)] by simp
next
  case (JBool b)
  then show ?thesis using that by (cases b) (simp_all add: json_ws_def)
qed (use that in \<open>simp_all add: print_string_def json_ws_def\<close>)

definition parses :: "bool \<Rightarrow> json \<Rightarrow> bool" where
  "parses ind j \<longleftrightarrow> (\<forall>n i r. size j < n \<longrightarrow> ends_value r \<longrightarrow> parse_value n (print_json ind i j @ r) = Some (j, r))"

lemma parsesD: "parses ind j \<Longrightarrow> size j < n \<Longrightarrow> ends_value r \<Longrightarrow> parse_value n (print_json ind i j @ r) = Some (j, r)"
  by (simp add: parses_def)

lemma parse_elems_print:
  "xs \<noteq> [] \<Longrightarrow> (\<forall>x\<in>set xs. parses ind x) \<Longrightarrow> size_list size xs < n \<Longrightarrow>
     parse_elems n (print_items ind i (map (print_json ind (Suc i)) xs) @ '']'' @ r) = Some (xs, r)"
proof (induction xs arbitrary: n)
  case (Cons x xs)
  then obtain m where n: "n = Suc m" by (cases n) auto
  show ?case
  proof (cases "xs = []")
    case True
    with Cons.prems n show ?thesis
      by (simp add: parse_value_skip parsesD)
  next
    case False
    with Cons n show ?thesis
      by (simp add: print_items_cons parse_value_skip parsesD)
  qed
qed simp

definition print_member :: "bool \<Rightarrow> nat \<Rightarrow> string \<times> json \<Rightarrow> string" where
  "print_member ind i kv = print_string (fst kv) @ (if ind then '': '' else '':'') @ print_json ind i (snd kv)"

lemma skip_ws_space [simp]: "skip_ws (CHR '' '' # s) = skip_ws s"
  by (simp add: skip_ws_def json_ws_def)

lemma parse_value_space: "parse_value n (CHR '' '' # s) = parse_value n s"
  using parse_value_skip [of "'' ''" s n] by simp

lemma parse_members_step:
  "parses ind v \<Longrightarrow> size v < n \<Longrightarrow> ends_value t \<Longrightarrow>
   parse_members (Suc n) (break_line ind (Suc i) @ print_member ind (Suc i) (k, v) @ t) =
     (case skip_ws t of
        [] \<Rightarrow> None
      | d # u \<Rightarrow> if d = CHR ''}'' then Some ([(k, v)], u)
                else if d = CHR '','' then map_option (\<lambda>(kvs, w). ((k, v) # kvs, w)) (parse_members n u)
                else None)"
  by (cases ind) (simp_all add: print_member_def print_string_def str_body_print parse_value_space parsesD)

lemma parse_members_print:
  "kvs \<noteq> [] \<Longrightarrow> (\<forall>kv\<in>set kvs. parses ind (snd kv)) \<Longrightarrow> size_list (size_prod (\<lambda>_. 0) size) kvs < n \<Longrightarrow>
     parse_members n (print_items ind i (map (print_member ind (Suc i)) kvs) @ ''}'' @ r) = Some (kvs, r)"
proof (induction kvs arbitrary: n)
  case (Cons kv kvs)
  then obtain m where n: "n = Suc m" by (cases n) auto
  obtain k v where kv: "kv = (k, v)" by (cases kv)
  show ?case
  proof (cases "kvs = []")
    case True
    with Cons.prems n kv show ?thesis
      using parse_members_step [of ind v m "break_line ind i @ ''}'' @ r"] by simp
  next
    case False
    with Cons n kv show ?thesis
      using parse_members_step [of ind v m "'','' @ print_items ind i (map (print_member ind (Suc i)) kvs) @ ''}'' @ r"]
      by (simp add: print_items_cons)
  qed
qed simp

lemma print_json_obj:
  "print_json ind i (JObj kvs) = ''{'' @ print_items ind i (map (print_member ind (Suc i)) kvs) @ ''}''"
proof -
  have "(\<lambda>(k, v). print_string k @ (if ind then '': '' else '':'') @ print_json ind (Suc i) v) = print_member ind (Suc i)"
    by (auto simp: fun_eq_iff print_member_def)
  then show ?thesis by simp
qed

lemma has_prefix_single: "has_prefix s [c] \<longleftrightarrow> (\<exists>r. s = c # r)"
  by (cases s) (auto simp: has_prefix_def)

lemma parses_wf: "wf_json j \<Longrightarrow> parses ind j"
proof (induction j)
  case (JArr xs)
  show ?case unfolding parses_def
  proof (intro allI impI)
    fix n i r
    assume n: "size (JArr xs) < n" and r: "ends_value r"
    then obtain m where m: "n = Suc m" by (cases n) auto
    show "parse_value n (print_json ind i (JArr xs) @ r) = Some (JArr xs, r)"
    proof (cases xs)
      case Nil
      with m show ?thesis by (simp add: has_prefix_single)
    next
      case (Cons x ys)
      have "wf_json x" using JArr.prems Cons by simp
      then obtain c u where c: "print_json ind (Suc i) x = c # u" "\<not> json_ws c" "c \<noteq> CHR '']''"
        by (rule print_json_first)
      have "\<not> has_prefix (skip_ws (print_items ind i (map (print_json ind (Suc i)) xs) @ '']'' @ r)) '']''"
        using c Cons by (simp add: print_items_cons has_prefix_single)
      moreover have "parse_elems m (print_items ind i (map (print_json ind (Suc i)) xs) @ '']'' @ r) = Some (xs, r)"
        using JArr n m Cons by (intro parse_elems_print) (auto simp: list_all_iff)
      ultimately show ?thesis using m by simp
    qed
  qed
next
  case (JObj kvs)
  have ps: "\<forall>kv\<in>set kvs. parses ind (snd kv)"
    using JObj by (fastforce simp: list_all_iff)
  show ?case unfolding parses_def
  proof (intro allI impI)
    fix n i r
    assume n: "size (JObj kvs) < n" and r: "ends_value r"
    then obtain m where m: "n = Suc m" by (cases n) auto
    show "parse_value n (print_json ind i (JObj kvs) @ r) = Some (JObj kvs, r)"
    proof (cases kvs)
      case Nil
      with m show ?thesis by (simp add: has_prefix_single)
    next
      case (Cons kv ys)
      have "\<not> has_prefix (skip_ws (print_items ind i (map (print_member ind (Suc i)) kvs) @ ''}'' @ r)) ''}''"
        using Cons by (simp add: print_items_cons has_prefix_single print_member_def print_string_def)
      moreover have "parse_members m (print_items ind i (map (print_member ind (Suc i)) kvs) @ ''}'' @ r) = Some (kvs, r)"
        using ps n m Cons by (intro parse_members_print) simp_all
      ultimately show ?thesis using m by (simp add: print_json_obj del: print_json.simps)
    qed
  qed
next
  case (JNum t)
  then obtain c u where t: "t = c # u" "c = CHR ''-'' \<or> digit_of c \<noteq> None"
    using valid_num_first by auto
  show ?case unfolding parses_def
  proof (intro allI impI)
    fix n i r
    assume "size (JNum t) < n" "ends_value r"
    then show "parse_value n (print_json ind i (JNum t) @ r) = Some (JNum t, r)"
      using JNum t num_first_simps [OF t(2)] parse_literal_num [of t r] by (cases n) auto
  qed
next
  case (JStr s)
  show ?case by (auto simp: parses_def print_string_def str_body_print gr0_conv_Suc)
next
  case JNull
  show ?case by (auto simp: parses_def parse_literal_def has_prefix_def gr0_conv_Suc json_ws_def)
next
  case (JBool b)
  show ?case by (auto simp: parses_def parse_literal_def has_prefix_def gr0_conv_Suc json_ws_def)
qed

lemma length_print_items:
  "length (print_items ind i ps) + 1 \<ge> sum_list (map (\<lambda>p. length p + 1) ps)"
  by (induction ind i ps rule: print_items.induct) simp_all

lemma size_print: "wf_json j \<Longrightarrow> size j < length (print_json ind i j)"
proof (induction j arbitrary: i)
  case (JArr xs)
  then have ps: "\<forall>x\<in>set xs. size x < length (print_json ind (Suc i) x)" by (simp add: list_all_iff)
  have "size_list size xs + length xs \<le> sum_list (map (\<lambda>p. length p + 1) (map (print_json ind (Suc i)) xs))"
    using ps by (induction xs) (auto simp: Suc_le_eq)
  with length_print_items [of "map (print_json ind (Suc i)) xs" ind i] show ?case
    by (cases xs) (simp_all del: print_items.simps)
next
  case (JObj kvs)
  have ps: "\<forall>kv\<in>set kvs. size (snd kv) < length (print_json ind (Suc i) (snd kv))"
    using JObj by (fastforce simp: list_all_iff)
  have "size_list (size_prod (\<lambda>_. 0) size) kvs + length kvs \<le> sum_list (map (\<lambda>p. length p + 1) (map (print_member ind (Suc i)) kvs))"
    using ps by (induction kvs) (auto simp: print_member_def print_string_def)
  with length_print_items [of "map (print_member ind (Suc i)) kvs" ind i] show ?case
    by (cases kvs) (simp_all add: print_json_obj del: print_json.simps print_items.simps)
next
  case (JNum t)
  then show ?case using valid_num_first by (auto simp: Suc_le_eq)
qed (simp_all add: print_string_def)

lemma parse_print:
  assumes "wf_json j"
  shows "parse_json (print_json ind i j) = Some j" "parse_json (print_json ind i j @ nl) = Some j"
    "parse_stream (print_json ind i j) = Some j"
proof -
  have e: "ends_value nl" "skip_ws nl = []" "skip_ws [] = []"
    by (simp_all add: ends_value_def nl_def num_char_def digit_of_def skip_ws_def json_ws_def)
  have p: "size j < n \<Longrightarrow> ends_value r \<Longrightarrow> parse_value n (print_json ind i j @ r) = Some (j, r)" for n r
    using parsesD [OF parses_wf [OF assms]] .
  show "parse_json (print_json ind i j) = Some j"
    using p [of "length (print_json ind i j)" "[]"] size_print [OF assms] e by (simp add: parse_json_def)
  show "parse_json (print_json ind i j @ nl) = Some j"
    using p [of "length (print_json ind i j @ nl)" nl] size_print [OF assms, of ind i] e
    by (simp add: parse_json_def)
  show "parse_stream (print_json ind i j) = Some j"
    using p [of "length (print_json ind i j)" "[]"] size_print [OF assms] e by (simp add: parse_stream_def)
qed

section \<open>The fuel is enough\<close>

text \<open>A value that any fuel can parse is parsed with fuel equal to the length of the text
  it consumes: \<^const>\<open>parse_json\<close> rejects a text only because it is not JSON.\<close>

definition consumes :: "(nat \<Rightarrow> string \<Rightarrow> ('a \<times> string) option) \<Rightarrow> string \<Rightarrow> 'a \<Rightarrow> string \<Rightarrow> bool" where
  "consumes p s v r \<longleftrightarrow> length r < length s \<and> (\<forall>m \<ge> length s - length r. p m s = Some (v, r))"

lemma skip_ws_length: "skip_ws s = c # r \<Longrightarrow> Suc (length r) \<le> length s"
  by (metis length_Cons length_dropWhile_le skip_ws_def)

lemma str_body_length: "str_body s = Some (x, r) \<Longrightarrow> length r < length s"
proof (induction s arbitrary: x r rule: str_body.induct)
  case (1 s)
  show ?case
  proof (cases s)
    case Nil
    with "1.prems" show ?thesis by (simp add: str_body.simps)
  next
    case (Cons c t)
    note step = str_body.simps [of s, unfolded Cons list.case]
    consider "c = quote_mark" | "c \<noteq> quote_mark" "c = backslash"
      | "c \<noteq> quote_mark" "c \<noteq> backslash" "\<not> (of_char c :: nat) < 32"
      | "c \<noteq> quote_mark" "c \<noteq> backslash" "(of_char c :: nat) < 32" by blast
    then show ?thesis
    proof cases
      case 1
      with "1.prems" Cons step show ?thesis by simp
    next
      case 2
      with "1.prems" Cons step obtain e t' where u: "unescape t = Some (e, t')" by (auto split: option.splits)
      with 2 "1.prems" Cons step have "\<exists>y. str_body t' = Some (y, r)" by (cases "str_body t'") auto
      then obtain y where "str_body t' = Some (y, r)" ..
      then have "length r < length t'" using "1.IH"(1) [OF Cons 2 u(1) refl] by blast
      with unescape_shorter [OF u(1)] Cons show ?thesis by simp
    next
      case 3
      with "1.prems" Cons step obtain y where "str_body t = Some (y, r)" by auto
      with "1.IH"(2) [OF Cons 3] Cons show ?thesis by fastforce
    next
      case 4
      with "1.prems" Cons step show ?thesis by simp
    qed
  qed
qed

lemma parse_literal_length: "parse_literal s = Some (v, r) \<Longrightarrow> length r < length s"
proof -
  have "valid_num t \<Longrightarrow> t \<noteq> []" for t using valid_num_first by fastforce
  then show "parse_literal s = Some (v, r) \<Longrightarrow> length r < length s"
    by (cases s) (auto simp: parse_literal_def has_prefix_def Let_def split: if_splits)
qed

lemma consumesI:
  "length r < length s \<Longrightarrow> (\<And>m. length s - length r \<le> Suc m \<Longrightarrow> p (Suc m) s = Some (v, r)) \<Longrightarrow> consumes p s v r"
  unfolding consumes_def by (metis Suc_pred' gr_zeroI le_zero_eq zero_less_diff)

lemma consumes_run:
  "consumes p s v r \<Longrightarrow> length s - length r \<le> m \<Longrightarrow> p m s = Some (v, r)"
  "consumes p s v r \<Longrightarrow> length r < length s"
  by (simp_all add: consumes_def)

lemma parse_fuel:
  "parse_value n s = Some (v, r) \<Longrightarrow> consumes parse_value s v r"
  "parse_elems n s = Some (vs, r) \<Longrightarrow> consumes parse_elems s vs r"
  "parse_members n s = Some (kvs, r) \<Longrightarrow> consumes parse_members s kvs r"
proof (induction n s and n s and n s arbitrary: v r and vs r and kvs r
    rule: parse_value_parse_elems_parse_members.induct)
  case (2 n s)
  from "2.prems" obtain c t where ct: "skip_ws s = c # t" by (auto split: list.splits)
  note len = skip_ws_length [OF ct]
  consider (obj0) "c = CHR ''{''" "has_prefix (skip_ws t) ''}''"
    | (obj) "c = CHR ''{''" "\<not> has_prefix (skip_ws t) ''}''"
    | (arr0) "c \<noteq> CHR ''{''" "c = CHR ''[''" "has_prefix (skip_ws t) '']''"
    | (arr) "c \<noteq> CHR ''{''" "c = CHR ''[''" "\<not> has_prefix (skip_ws t) '']''"
    | (str) "c \<noteq> CHR ''{''" "c \<noteq> CHR ''[''" "c = quote_mark"
    | (lit) "c \<noteq> CHR ''{''" "c \<noteq> CHR ''[''" "c \<noteq> quote_mark" by blast
  then show ?case
  proof cases
    case obj0
    then obtain u where u: "skip_ws t = CHR ''}'' # u" by (auto simp: has_prefix_single)
    with obj0 "2.prems" ct len skip_ws_length [OF u] show ?thesis
      by (intro consumesI) auto
  next
    case obj
    with "2.prems" ct obtain kvs where k: "parse_members n t = Some (kvs, r)" "v = JObj kvs" by auto
    note c = "2.IH"(1) [OF ct obj k(1)]
    show ?thesis using obj k ct len consumes_run [OF c]
      by (intro consumesI) simp_all
  next
    case arr0
    then obtain u where u: "skip_ws t = CHR '']'' # u" by (auto simp: has_prefix_single)
    with arr0 "2.prems" ct len skip_ws_length [OF u] show ?thesis
      by (intro consumesI) auto
  next
    case arr
    with "2.prems" ct obtain xs where k: "parse_elems n t = Some (xs, r)" "v = JArr xs" by auto
    note c = "2.IH"(2) [OF ct arr k(1)]
    show ?thesis using arr k ct len consumes_run [OF c]
      by (intro consumesI) simp_all
  next
    case str
    with "2.prems" ct len show ?thesis
      by (intro consumesI) (auto dest!: str_body_length)
  next
    case lit
    with "2.prems" ct len show ?thesis
      by (intro consumesI) (auto dest!: parse_literal_length)
  qed
next
  case (4 n s)
  from "4.prems" obtain x q where x: "parse_value n s = Some (x, q)" by (auto split: option.splits)
  with "4.prems" obtain c t where ct: "skip_ws q = c # t" by (auto split: list.splits)
  note cx = "4.IH"(1) [OF x]
  note len = skip_ws_length [OF ct] consumes_run(2) [OF cx]
  show ?case
  proof (cases "c = CHR '']''")
    case True
    with "4.prems" x ct len consumes_run(1) [OF cx] show ?thesis by (intro consumesI) auto
  next
    case False
    with "4.prems" x ct obtain ys where c: "c = CHR '',''" and y: "parse_elems n t = Some (ys, r)" "vs = x # ys"
      by (auto split: if_splits)
    note cy = "4.IH"(2) [OF x refl ct False c y(1)]
    show ?thesis
      using c y x ct len consumes_run [OF cx] consumes_run [OF cy] by (intro consumesI) simp_all
  qed
next
  case (6 n s)
  from "6.prems" obtain c0 t0 where 0: "skip_ws s = c0 # t0" "c0 = quote_mark" by (auto split: list.splits if_splits)
  with "6.prems" obtain k r1 where 1: "str_body t0 = Some (k, r1)" by (auto split: option.splits)
  with 0 "6.prems" obtain r2 where 2: "skip_ws r1 = CHR '':'' # r2" by (auto split: list.splits if_splits)
  with 0 1 "6.prems" obtain x r3 where 3: "parse_value n r2 = Some (x, r3)" by (auto split: option.splits)
  with 0 1 2 "6.prems" obtain d t where 4: "skip_ws r3 = d # t" by (auto split: list.splits)
  have cx: "consumes parse_value r2 x r3"
    by (rule "6.IH"(1) [OF 0(1) _ 1 refl 2 _ 3]) (use 0 in simp_all)
  note len = skip_ws_length [OF 0(1)] str_body_length [OF 1] skip_ws_length [OF 2]
    consumes_run(2) [OF cx] skip_ws_length [OF 4]
  show ?case
  proof (cases "d = CHR ''}''")
    case True
    with "6.prems" 0 1 2 3 4 len consumes_run(1) [OF cx] show ?thesis by (intro consumesI) auto
  next
    case False
    with "6.prems" 0 1 2 3 4 obtain ys where d: "d = CHR '',''" and y: "parse_members n t = Some (ys, r)" "kvs = (k, x) # ys"
      by (auto split: if_splits)
    have cy: "consumes parse_members t ys r"
      by (rule "6.IH"(2) [OF 0(1) _ 1 refl 2 _ 3 refl 4 False d y(1)]) (use 0 in simp_all)
    show ?thesis
      using d y 0 1 2 3 4 len consumes_run [OF cx] consumes_run [OF cy] by (intro consumesI) simp_all
  qed
qed simp_all

lemma parse_json_complete:
  "parse_value n s = Some (v, r) \<Longrightarrow> skip_ws r = [] \<Longrightarrow> parse_json s = Some v"
  using consumes_run(1) [OF parse_fuel(1), of n s v r "length s"] by (simp add: parse_json_def)

section \<open>Decoding into Go data\<close>

text \<open>
  A decoder gets the value and what the variable holds, and returns what it holds
  afterwards with whether all types matched; after a mismatch Go goes on and reports the
  first one at the end.
\<close>

type_synonym 'a decoder = "json \<Rightarrow> 'a \<Rightarrow> 'a \<times> bool"

definition dec_string :: "string decoder" where
  "dec_string j cur = (case j of JNull \<Rightarrow> (cur, True) | JStr s \<Rightarrow> (s, True) | _ \<Rightarrow> (cur, False))"

definition dec_bool :: "bool decoder" where
  "dec_bool j cur = (case j of JNull \<Rightarrow> (cur, True) | JBool b \<Rightarrow> (b, True) | _ \<Rightarrow> (cur, False))"

definition dec_int :: "int decoder" where
  "dec_int j cur =
     (case j of
        JNull \<Rightarrow> (cur, True)
      | JNum t \<Rightarrow> (case atoi t of Some i \<Rightarrow> (i, True) | None \<Rightarrow> (cur, False))
      | _ \<Rightarrow> (cur, False))"

text \<open>A pointer: \<^verbatim>\<open>null\<close> makes it nil, otherwise it points to a decoded value.\<close>

definition dec_ptr :: "'a \<Rightarrow> 'a decoder \<Rightarrow> 'a option decoder" where
  "dec_ptr z d j cur =
     (case j of
        JNull \<Rightarrow> (None, True)
      | _ \<Rightarrow> (case d j (case cur of Some x \<Rightarrow> x | None \<Rightarrow> z) of (x, ok) \<Rightarrow> (Some x, ok)))"

definition dec_list :: "'a \<Rightarrow> 'a decoder \<Rightarrow> 'a list decoder" where
  "dec_list z d j cur =
     (case j of
        JNull \<Rightarrow> ([], True)
      | JArr xs \<Rightarrow> (map (\<lambda>x. fst (d x z)) xs, list_all (\<lambda>x. snd (d x z)) xs)
      | _ \<Rightarrow> (cur, False))"

text \<open>The fields of a struct: an exact name wins over one that differs in case only.\<close>

definition find_field :: "(string \<times> 'a decoder) list \<Rightarrow> string \<Rightarrow> 'a decoder option" where
  "find_field fs k =
     (case map_of fs k of
        Some d \<Rightarrow> Some d
      | None \<Rightarrow> map_option snd (find (\<lambda>(n, _). equal_fold n k) fs))"

fun dec_members :: "(string \<times> 'a decoder) list \<Rightarrow> (string \<times> json) list \<Rightarrow> 'a \<Rightarrow> 'a \<times> bool" where
  "dec_members fs [] a = (a, True)"
| "dec_members fs ((k, v) # kvs) a =
     (case find_field fs k of
        None \<Rightarrow> dec_members fs kvs a
      | Some d \<Rightarrow> (case d v a of (a1, ok1) \<Rightarrow>
          (case dec_members fs kvs a1 of (a2, ok2) \<Rightarrow> (a2, ok1 \<and> ok2))))"

definition dec_struct :: "(string \<times> 'a decoder) list \<Rightarrow> 'a decoder" where
  "dec_struct fs j cur =
     (case j of JNull \<Rightarrow> (cur, True) | JObj kvs \<Rightarrow> dec_members fs kvs cur | _ \<Rightarrow> (cur, False))"

text \<open>One field of a record, by its getter and setter.\<close>

definition dec_field :: "string \<Rightarrow> 'b decoder \<Rightarrow> ('a \<Rightarrow> 'b) \<Rightarrow> ('b \<Rightarrow> 'a \<Rightarrow> 'a) \<Rightarrow> string \<times> 'a decoder" where
  "dec_field n d get put = (n, \<lambda>j a. case d j (get a) of (b, ok) \<Rightarrow> (put b a, ok))"

text \<open>\<^verbatim>\<open>json.Unmarshal\<close>: nothing is decoded from a text that is not JSON.\<close>

definition unmarshal :: "'a decoder \<Rightarrow> string \<Rightarrow> 'a \<Rightarrow> 'a \<times> bool" where
  "unmarshal d s cur = (case parse_json s of None \<Rightarrow> (cur, False) | Some j \<Rightarrow> d j cur)"

lemma unmarshal_text: "wf_json j \<Longrightarrow> unmarshal d (marshal_indent j @ nl) z = d j z"
  by (simp add: unmarshal_def marshal_indent_def parse_print)

definition json_error :: gerr where
  "json_error = new_err ''invalid JSON''"

lemmas dec_defs = dec_string_def dec_bool_def dec_int_def dec_ptr_def dec_list_def dec_struct_def dec_field_def

lemma dec_string_JStr [simp]: "dec_string (JStr s) cur = (s, True)"
  by (simp add: dec_string_def)

lemma dec_bool_JBool [simp]: "dec_bool (JBool b) cur = (b, True)"
  by (simp add: dec_bool_def)

definition enc_int :: "int \<Rightarrow> json" where
  "enc_int i = JNum (itoa i)"

lemma dec_int_enc [simp]: "int64_range i \<Longrightarrow> dec_int (enc_int i) cur = (i, True)"
  by (simp add: dec_int_def enc_int_def)

lemma dec_list_map [simp]:
  "(\<And>x. x \<in> set xs \<Longrightarrow> d (f x) z = (x, True)) \<Longrightarrow> dec_list z d (JArr (map f xs)) cur = (xs, True)"
  by (simp add: dec_list_def list_all_iff) (intro map_idI, simp)

lemma digit_of_nat_digits: "c \<in> set (nat_digits n) \<Longrightarrow> digit_of c \<noteq> None"
  using nat_digits_shape [of n] by auto

lemma nat_digits_lead: "0 < n \<Longrightarrow> hd (nat_digits n) \<noteq> CHR ''0''"
proof (induction n rule: nat_digits.induct)
  case (1 n)
  have "digit_char n \<noteq> CHR ''0''" if "n < 10"
  proof
    assume "digit_char n = CHR ''0''"
    then have "(of_char (digit_char n) :: nat) = 48" by simp
    with that 1 show False by simp
  qed
  with 1 show ?case by (cases "n < 10") (simp_all add: nat_digits.simps [of n])
qed

lemma drop_digits_all: "\<forall>c\<in>set s. digit_of c \<noteq> None \<Longrightarrow> drop_digits s = []"
  by (simp add: drop_digits_def)

lemma valid_num_digits:
  assumes "s = nat_digits n" "t = s \<or> t = CHR ''-'' # s"
  shows "valid_num t"
proof -
  obtain c r where cr: "s = c # r" using assms(1) nat_digits_nonempty [of n] by (metis list.exhaust)
  have d: "\<forall>c\<in>set s. digit_of c \<noteq> None" using assms(1) digit_of_nat_digits by blast
  have nm: "c \<noteq> CHR ''-''" using assms(1) cr nat_digits_no_sign by (metis list.set_intros(1))
  have t1: "trim_prefix t ''-'' = s" using assms(2) cr nm by (auto simp: trim_prefix_def has_prefix_def)
  have t2: "(if has_prefix s ''0'' then tl s else drop_digits s) = []"
  proof (cases "n = 0")
    case True
    then have "s = ''0''" using assms(1) by (simp add: nat_digits.simps)
    then show ?thesis by (simp add: has_prefix_def)
  next
    case False
    then have "\<not> has_prefix s ''0''" using nat_digits_lead [of n] unfolding assms(1) [symmetric] cr by (simp add: has_prefix_def)
    then show ?thesis using drop_digits_all [OF d] by simp
  qed
  have "starts_digit s" using cr d by (simp add: starts_digit_def)
  then show ?thesis
    unfolding valid_num_def t1 Let_def t2 by (simp add: has_prefix_def)
qed

lemma wf_enc_int [simp]: "wf_json (enc_int i)"
proof -
  have "list_all num_char (nat_digits n)" for n
    using digit_of_nat_digits [of _ n] by (auto simp: list_all_iff num_char_def)
  then show ?thesis
    using valid_num_digits by (auto simp: enc_int_def itoa_def) (simp_all add: num_char_def)
qed

end
