(* ===== verification/Go_Time.thy ===== *)
theory Go_Time imports Json begin

text \<open>
  Go's \<^verbatim>\<open>time.Time\<close> as the program stores it.  A time is its RFC 3339 text with
  nanoseconds, which is how \<^verbatim>\<open>encoding/json\<close> writes it; \<open>time_text\<close> is the reading of
  such a text, with the normal form in which it is written again, and \<open>time_nanos\<close> the
  instant it denotes.  Nothing here is code of the repository.
\<close>

definition two_digits :: "nat \<Rightarrow> string \<Rightarrow> nat" where
  "two_digits i s = (case digits_val 0 (take 2 (drop i s)) of Some n \<Rightarrow> n | None \<Rightarrow> 0)"

definition four_digits :: "string \<Rightarrow> nat" where
  "four_digits s = (case digits_val 0 (take 4 s) of Some n \<Rightarrow> n | None \<Rightarrow> 0)"

definition leap_year :: "nat \<Rightarrow> bool" where
  "leap_year y \<longleftrightarrow> y mod 4 = 0 \<and> (y mod 100 \<noteq> 0 \<or> y mod 400 = 0)"

definition days_in :: "nat \<Rightarrow> nat \<Rightarrow> nat" where
  "days_in y m = (if m = 2 then (if leap_year y then 29 else 28) else if m \<in> {4, 6, 9, 11} then 30 else 31)"

text \<open>Which of the first 19 bytes are digits, and the separators between them.\<close>

definition date_shape :: "string \<Rightarrow> bool" where
  "date_shape s \<longleftrightarrow> 19 \<le> length s \<and>
     list_all (\<lambda>i. digit_of (s ! i) \<noteq> None) [0, 1, 2, 3, 5, 6, 8, 9, 11, 12, 14, 15, 17, 18] \<and>
     s ! 4 = CHR ''-'' \<and> s ! 7 = CHR ''-'' \<and> s ! 10 = CHR ''T'' \<and> s ! 13 = CHR '':'' \<and> s ! 16 = CHR '':''"

definition date_range :: "string \<Rightarrow> bool" where
  "date_range s \<longleftrightarrow>
     (let y = four_digits s; mo = two_digits 5 s; d = two_digits 8 s
      in 1 \<le> mo \<and> mo \<le> 12 \<and> 1 \<le> d \<and> d \<le> days_in y mo \<and>
         two_digits 11 s \<le> 23 \<and> two_digits 14 s \<le> 59 \<and> two_digits 17 s \<le> 59)"

text \<open>The fraction (its digits without trailing zeros, at most nine) and what follows.\<close>

definition time_fraction :: "string \<Rightarrow> string \<times> string" where
  "time_fraction r =
     (if has_prefix r ''.'' \<and> starts_digit (tl r)
      then (let ds = takeWhile (\<lambda>c. digit_of c \<noteq> None) (tl r)
            in (trim_right_set ''0'' (take 9 ds), drop_digits (tl r)))
      else ([], r))"

definition time_zone :: "string \<Rightarrow> string option" where
  "time_zone z =
     (if z = ''Z'' then Some ''Z''
      else if length z = 6 \<and> (z ! 0 = CHR ''+'' \<or> z ! 0 = CHR ''-'') \<and> z ! 3 = CHR '':'' \<and>
              list_all (\<lambda>i. digit_of (z ! i) \<noteq> None) [1, 2, 4, 5] \<and> two_digits 1 z \<le> 23 \<and> two_digits 4 z \<le> 59
           then Some (if two_digits 1 z = 0 \<and> two_digits 4 z = 0 then ''Z'' else z)
      else None)"

definition time_text :: "string \<Rightarrow> string option" where
  "time_text s =
     (if date_shape s \<and> date_range s
      then (case time_fraction (drop 19 s) of (f, z) \<Rightarrow>
              map_option (\<lambda>z'. take 19 s @ (if f = [] then [] else CHR ''.'' # f) @ z') (time_zone z))
      else None)"

text \<open>Days since 1970-01-01 in the proleptic Gregorian calendar, and the instant.\<close>

definition civil_days :: "int \<Rightarrow> int \<Rightarrow> int \<Rightarrow> int" where
  "civil_days y m d =
     (let y' = (if m \<le> 2 then y - 1 else y); era = y' div 400; yoe = y' - era * 400;
          doy = (153 * (if m > 2 then m - 3 else m + 9) + 2) div 5 + d - 1;
          doe = yoe * 365 + yoe div 4 - yoe div 100 + doy
      in era * 146097 + doe - 719468)"

definition zone_seconds :: "string \<Rightarrow> int" where
  "zone_seconds z =
     (if length z < 6 then 0
      else (if z ! 0 = CHR ''-'' then - 1 else 1) * (int (two_digits 1 z) * 3600 + int (two_digits 4 z) * 60))"

definition time_nanos :: "string \<Rightarrow> int" where
  "time_nanos s =
     (case time_fraction (drop 19 s) of (f, z) \<Rightarrow>
        (civil_days (int (four_digits s)) (int (two_digits 5 s)) (int (two_digits 8 s)) * 86400 +
         int (two_digits 11 s) * 3600 + int (two_digits 14 s) * 60 + int (two_digits 17 s) - zone_seconds z) * 1000000000 +
        int (case digits_val 0 (take 9 (f @ replicate 9 (CHR ''0''))) of Some n \<Rightarrow> n | None \<Rightarrow> 0))"

text \<open>The date of a day, and the text of an instant in UTC, with the fraction without its final zeros.\<close>

definition civil_date :: "int \<Rightarrow> int \<times> int \<times> int" where
  "civil_date days =
     (let z = days + 719468; era = z div 146097; doe = z mod 146097;
          yoe = (doe - doe div 1460 + doe div 36524 - doe div 146096) div 365;
          doy = doe - (365 * yoe + yoe div 4 - yoe div 100); mp = (5 * doy + 2) div 153;
          m = (if mp < 10 then mp + 3 else mp - 9)
      in (yoe + era * 400 + (if m \<le> 2 then 1 else 0), m, doy - (153 * mp + 2) div 5 + 1))"

fun zero_padded :: "nat \<Rightarrow> int \<Rightarrow> string" where
  "zero_padded 0 i = []"
| "zero_padded (Suc n) i = zero_padded n (i div 10) @ [digit_char (nat (i mod 10))]"

definition utc_text :: "int \<Rightarrow> string" where
  "utc_text ns =
     (let s = ns div 1000000000; frac = trim_right_set ''0'' (zero_padded 9 (ns mod 1000000000));
          (y, m, d) = civil_date (s div 86400); t = s mod 86400
      in zero_padded 4 y @ ''-'' @ zero_padded 2 m @ ''-'' @ zero_padded 2 d @ ''T'' @
         zero_padded 2 (t div 3600) @ '':'' @ zero_padded 2 (t mod 3600 div 60) @ '':'' @ zero_padded 2 (t mod 60) @
         (if frac = [] then [] else ''.'' @ frac) @ ''Z'')"

definition zero_time :: string where
  "zero_time = ''0001-01-01T00:00:00Z''"

definition time_is_zero :: "string \<Rightarrow> bool" where
  "time_is_zero s \<longleftrightarrow> time_nanos s = - 62135596800000000000"

definition dec_time :: "string decoder" where
  "dec_time j cur =
     (case j of
        JNull \<Rightarrow> (cur, True)
      | JStr s \<Rightarrow> (case time_text s of Some t \<Rightarrow> (t, True) | None \<Rightarrow> (cur, False))
      | _ \<Rightarrow> (cur, False))"

text \<open>A text in normal form: what \<^verbatim>\<open>MarshalJSON\<close> writes.\<close>

definition is_time :: "string \<Rightarrow> bool" where
  "is_time s \<longleftrightarrow> time_text s = Some s"

lemma dec_time_JStr [simp]: "is_time s \<Longrightarrow> dec_time (JStr s) cur = (s, True)"
  by (simp add: dec_time_def is_time_def)

lemma takeWhile_all_digits:
  "list_all (\<lambda>c. digit_of c \<noteq> None) f \<Longrightarrow> \<not> starts_digit z \<Longrightarrow>
     takeWhile (\<lambda>c. digit_of c \<noteq> None) (f @ z) = f \<and> drop_digits (f @ z) = z"
  by (induction f; cases z) (auto simp: starts_digit_def drop_digits_def)

lemma trim_right_idem [simp]: "trim_right_set cs (trim_right_set cs s) = trim_right_set cs s"
  by (simp add: trim_right_set_def)

lemma trim_right_prefix: "\<exists>t. s = trim_right_set cs s @ t"
  unfolding trim_right_set_def by (metis rev_append rev_rev_ident takeWhile_dropWhile_id)

lemma time_zone_not_digit: "time_zone z = Some z' \<Longrightarrow> \<not> starts_digit z' \<and> \<not> has_prefix z' ''.''"
  by (auto simp: time_zone_def starts_digit_def has_prefix_def digit_of_def split: if_splits list.splits)

lemma time_zone_idem: "time_zone z = Some z' \<Longrightarrow> time_zone z' = Some z'"
  by (auto simp: time_zone_def split: if_splits)

lemma trim_right_length: "length (trim_right_set cs s) \<le> length s"
  by (metis length_append trim_right_prefix le_add1)

text \<open>Reading a text that was written in normal form changes nothing.\<close>

lemma time_fraction_idem:
  assumes "time_fraction r = (f, z)" "time_zone z = Some z'"
  shows "time_fraction ((if f = [] then [] else CHR ''.'' # f) @ z') = (f, z')"
proof (cases "f = []")
  case True
  then show ?thesis using time_zone_not_digit [OF assms(2)] by (auto simp: time_fraction_def)
next
  case False
  then obtain ds where ds: "f = trim_right_set ''0'' (take 9 ds)" "list_all (\<lambda>c. digit_of c \<noteq> None) ds"
    using assms(1) by (auto simp: time_fraction_def Let_def list_all_iff dest: set_takeWhileD split: if_splits)
  have len: "length f \<le> 9" using trim_right_length [of "''0''" "take 9 ds"] ds(1) by simp
  obtain t where "take 9 ds = f @ t" using trim_right_prefix [of "take 9 ds" "''0''"] ds(1) by blast
  then have f: "list_all (\<lambda>c. digit_of c \<noteq> None) f"
    using ds(2) by (metis append_take_drop_id list_all_append)
  have nz: "\<not> starts_digit z'" using time_zone_not_digit [OF assms(2)] by simp
  have "starts_digit (f @ z')" using False f by (cases f) (auto simp: starts_digit_def)
  moreover have "trim_right_set ''0'' (take 9 f) = f" using ds(1) len by simp
  ultimately show ?thesis
    using takeWhile_all_digits [OF f nz] False by (simp add: time_fraction_def has_prefix_def Let_def)
qed

lemma date_shape_take: "19 \<le> length s \<Longrightarrow> date_shape (take 19 s @ r) = date_shape s"
  by (simp add: date_shape_def nth_append)

lemma two_digits_take: "i \<le> 17 \<Longrightarrow> 19 \<le> length s \<Longrightarrow> two_digits i (take 19 s @ r) = two_digits i s"
  by (simp add: two_digits_def take_drop [symmetric] min_def) (simp add: drop_take)

lemma four_digits_take: "19 \<le> length s \<Longrightarrow> four_digits (take 19 s @ r) = four_digits s"
  by (simp add: four_digits_def min_def)

lemma date_range_take: "19 \<le> length s \<Longrightarrow> date_range (take 19 s @ r) = date_range s"
  by (simp add: date_range_def two_digits_take four_digits_take)

lemma time_text_is_time:
  assumes "time_text s = Some t"
  shows "is_time t"
proof -
  from assms obtain f z z' where s: "date_shape s" "date_range s" "time_fraction (drop 19 s) = (f, z)"
      "time_zone z = Some z'" "t = take 19 s @ (if f = [] then [] else CHR ''.'' # f) @ z'"
    by (auto simp: time_text_def split: if_splits prod.splits)
  then have len: "19 \<le> length s" by (simp add: date_shape_def)
  have "drop 19 t = (if f = [] then [] else CHR ''.'' # f) @ z'" "take 19 t = take 19 s"
    using s(5) len by simp_all
  then show ?thesis
    using s len time_fraction_idem [OF s(3,4)] time_zone_idem [OF s(4)]
    by (simp add: is_time_def time_text_def date_shape_take date_range_take)
qed

lemma is_time_zero: "is_time zero_time"
  by (simp add: is_time_def zero_time_def time_text_def date_shape_def date_range_def
      four_digits_def two_digits_def days_in_def time_fraction_def time_zone_def digit_of_def has_prefix_def)

end
