(* ===== verification/RouteOwnership.thy ===== *)
theory RouteOwnership imports World Go_Hash Go_Time "HOL-Library.Multiset" begin

text \<open>
  What the Agent Tunnel owns in the host's routing state, and the pure decisions about
  it: \<^verbatim>\<open>internal/proxy/routing_ownership.go\<close>, the snapshots and deltas of
  \<^verbatim>\<open>network_state.go\<close>, the ownership preflight of \<^verbatim>\<open>network_state_{linux,windows,other}.go\<close>.
  Lines of \<^verbatim>\<open>ip route\<close> and \<^verbatim>\<open>ip rule\<close> are read as text; the lemmas restate the checks in
  terms of the sets of tables and priorities that occur in a snapshot.
\<close>

section \<open>Data\<close>

datatype platform = Linux | Windows | Other_os string

fun goos :: "platform \<Rightarrow> string" where
  "goos Linux = ''linux''"
| "goos Windows = ''windows''"
| "goos (Other_os s) = s"

definition agent_tun_name :: string where
  "agent_tun_name = ''antigravity-tun''"

definition network_state_schema :: int where
  "network_state_schema = 1"

definition tunnel_route_table_index :: int where "tunnel_route_table_index = 20229"
definition tunnel_rule_start :: int where "tunnel_rule_start = 19000"
definition tunnel_rule_end :: int where "tunnel_rule_end = 19031"

record snapshot =
  ns_captured_at :: string
  ns_platform :: string
  ns_routes4 :: "string list"
  ns_routes6 :: "string list"
  ns_rules4 :: "string list"
  ns_rules6 :: "string list"
  ns_dns :: string
  ns_firewall :: string

record owned_delta =
  od_tun :: string
  od_tables4 :: "string list"
  od_tables6 :: "string list"
  od_prios4 :: "int list"
  od_prios6 :: "int list"
  od_dns_changed :: bool
  od_fw_changed :: bool

definition zero_snapshot :: snapshot where
  "zero_snapshot = \<lparr>ns_captured_at = zero_time, ns_platform = [], ns_routes4 = [], ns_routes6 = [],
     ns_rules4 = [], ns_rules6 = [], ns_dns = [], ns_firewall = []\<rparr>"

definition zero_delta :: owned_delta where
  "zero_delta = \<lparr>od_tun = [], od_tables4 = [], od_tables6 = [], od_prios4 = [], od_prios6 = [],
     od_dns_changed = False, od_fw_changed = False\<rparr>"

section \<open>Operations\<close>

definition reserved_platform_ownership :: "platform \<Rightarrow> owned_delta" where
  "reserved_platform_ownership pf =
     (let d = zero_delta\<lparr>od_tun := agent_tun_name\<rparr>
      in if pf \<noteq> Linux then d
         else (let table = itoa tunnel_route_table_index;
                   prios = [tunnel_rule_start..tunnel_rule_end]
               in d\<lparr>od_tables4 := [table], od_tables6 := [table], od_prios4 := prios, od_prios6 := prios\<rparr>))"

definition merge_strings :: "string list \<Rightarrow> string list \<Rightarrow> string list" where
  "merge_strings a b = sorted_keys (a @ b)"

definition merge_ints :: "int list \<Rightarrow> int list \<Rightarrow> int list" where
  "merge_ints a b = sorted_keys (a @ b)"

definition merge_owned_delta :: "owned_delta \<Rightarrow> owned_delta \<Rightarrow> owned_delta" where
  "merge_owned_delta base observed = \<lparr>
     od_tun = (if od_tun base = [] then od_tun observed else od_tun base),
     od_tables4 = merge_strings (od_tables4 base) (od_tables4 observed),
     od_tables6 = merge_strings (od_tables6 base) (od_tables6 observed),
     od_prios4 = merge_ints (od_prios4 base) (od_prios4 observed),
     od_prios6 = merge_ints (od_prios6 base) (od_prios6 observed),
     od_dns_changed = (od_dns_changed base \<or> od_dns_changed observed),
     od_fw_changed = (od_fw_changed base \<or> od_fw_changed observed)\<rparr>"

text \<open>\<^verbatim>\<open>routeTable\<close>: the field after the first field \<^verbatim>\<open>table\<close>; empty when there is none.\<close>

fun table_of_fields :: "string list \<Rightarrow> string" where
  "table_of_fields (a # b # f) = (if a = ''table'' then b else table_of_fields (b # f))"
| "table_of_fields _ = []"

definition route_table :: "string \<Rightarrow> string" where
  "route_table line = table_of_fields (str_fields line)"

definition rule_priority :: "string \<Rightarrow> int option" where
  "rule_priority line =
     (case str_fields (trim_space line) of
        [] \<Rightarrow> None
      | f # _ \<Rightarrow> atoi (trim_suffix f '':''))"

definition new_route_tables :: "string list \<Rightarrow> string list \<Rightarrow> string list" where
  "new_route_tables before after =
     (let b = filter (\<lambda>t. t \<noteq> []) (map route_table before);
          seen = filter (\<lambda>t. t \<noteq> [] \<and> t \<notin> set b) (map route_table after)
      in sorted_keys seen)"

definition new_rule_priorities :: "string list \<Rightarrow> string list \<Rightarrow> int list" where
  "new_rule_priorities before after =
     (let b = List.map_filter rule_priority before;
          seen = filter (\<lambda>p. p \<notin> set b) (List.map_filter rule_priority after)
      in sorted_keys seen)"

definition fingerprint_changed :: "string \<Rightarrow> string \<Rightarrow> bool" where
  "fingerprint_changed b a \<longleftrightarrow> b \<noteq> [] \<and> a \<noteq> [] \<and> b \<noteq> a"

definition derive_owned_delta :: "snapshot \<Rightarrow> snapshot \<Rightarrow> owned_delta" where
  "derive_owned_delta before after = \<lparr>
     od_tun = agent_tun_name,
     od_tables4 = new_route_tables (ns_routes4 before) (ns_routes4 after),
     od_tables6 = new_route_tables (ns_routes6 before) (ns_routes6 after),
     od_prios4 = new_rule_priorities (ns_rules4 before) (ns_rules4 after),
     od_prios6 = new_rule_priorities (ns_rules6 before) (ns_rules6 after),
     od_dns_changed = fingerprint_changed (ns_dns before) (ns_dns after),
     od_fw_changed = fingerprint_changed (ns_firewall before) (ns_firewall after)\<rparr>"

text \<open>\<^verbatim>\<open>verifyOwnedDeltaAbsent\<close>: the first owned object that a line of the snapshot still
  mentions is the error.\<close>

definition table_remains :: "string \<Rightarrow> string list \<Rightarrow> string \<Rightarrow> gerr option" where
  "table_remains fam routes t =
     first_error (\<lambda>line. if route_table line = t
        then Some (new_err (''owned '' @ fam @ '' route table '' @ t @ '' remains after recovery'')) else None) routes"

definition priority_remains :: "string \<Rightarrow> string list \<Rightarrow> int \<Rightarrow> gerr option" where
  "priority_remains fam rules p =
     first_error (\<lambda>line. if rule_priority line = Some p
        then Some (new_err (''owned '' @ fam @ '' rule priority '' @ itoa p @ '' remains after recovery'')) else None) rules"

definition verify_owned_absent :: "snapshot \<Rightarrow> owned_delta \<Rightarrow> gerr option" where
  "verify_owned_absent post owned =
     or_error (first_error (table_remains ''IPv4'' (ns_routes4 post)) (od_tables4 owned))
     (or_error (first_error (table_remains ''IPv6'' (ns_routes6 post)) (od_tables6 owned))
     (or_error (first_error (priority_remains ''IPv4'' (ns_rules4 post)) (od_prios4 owned))
      (first_error (priority_remains ''IPv6'' (ns_rules6 post)) (od_prios6 owned))))"

definition normalized_lines :: "string \<Rightarrow> string list" where
  "normalized_lines raw =
     sort (filter (\<lambda>l. l \<noteq> []) (map trim_space (split_char (CHR 0x0A) (replace_crlf raw))))"

definition fingerprint :: "string list \<Rightarrow> string" where
  "fingerprint parts = hex_text (sha256 (concat (map (\<lambda>p. p @ [CHR 0x00]) parts)))"

text \<open>\<^verbatim>\<open>preflightPlatformNetworkOwnership\<close> of Linux, and of the other platforms.\<close>

definition table_occupied :: "string \<Rightarrow> string list \<Rightarrow> gerr option" where
  "table_occupied fam routes =
     first_error (\<lambda>line. if route_table line = itoa tunnel_route_table_index
        then Some (new_err (''reserved Linux '' @ fam @ '' route table '' @ itoa tunnel_route_table_index @
                            '' is already occupied: '' @ line)) else None) routes"

definition priority_occupied :: "string \<Rightarrow> string list \<Rightarrow> gerr option" where
  "priority_occupied fam rules =
     first_error (\<lambda>line. case rule_priority line of
          None \<Rightarrow> None
        | Some p \<Rightarrow> if tunnel_rule_start \<le> p \<and> p \<le> tunnel_rule_end
            then Some (new_err (''reserved Linux '' @ fam @ '' rule priority '' @ itoa p @
                                '' is already occupied: '' @ line)) else None) rules"

definition preflight_linux_ownership :: "snapshot \<Rightarrow> gerr option" where
  "preflight_linux_ownership before =
     or_error (table_occupied ''IPv4'' (ns_routes4 before))
     (or_error (table_occupied ''IPv6'' (ns_routes6 before))
     (or_error (priority_occupied ''IPv4'' (ns_rules4 before))
      (priority_occupied ''IPv6'' (ns_rules6 before))))"

definition preflight_ownership :: "platform \<Rightarrow> snapshot \<Rightarrow> gerr option" where
  "preflight_ownership pf before = (if pf = Linux then preflight_linux_ownership before else None)"

section \<open>The specification side: the objects a snapshot mentions\<close>

definition tables_in :: "string list \<Rightarrow> string set" where
  "tables_in routes = {t. t \<noteq> [] \<and> (\<exists>l\<in>set routes. route_table l = t)}"

definition prios_in :: "string list \<Rightarrow> int set" where
  "prios_in rules = {p. \<exists>l\<in>set rules. rule_priority l = Some p}"

interpretation merged_strings: set_merge merge_strings
  by unfold_locales (auto simp: merge_strings_def)

interpretation merged_ints: set_merge merge_ints
  by unfold_locales (auto simp: merge_ints_def)

lemma tables_in_simps [simp]: "tables_in [] = {}" "tables_in (xs @ ys) = tables_in xs \<union> tables_in ys"
  by (auto simp: tables_in_def)

lemma prios_in_simps [simp]: "prios_in [] = {}" "prios_in (xs @ ys) = prios_in xs \<union> prios_in ys"
  by (auto simp: prios_in_def)

lemma new_route_tables_set [simp]:
  "set (new_route_tables before after) = tables_in after - tables_in before"
  by (auto simp: new_route_tables_def tables_in_def Let_def image_iff)

lemma set_map_filter: "set (List.map_filter f xs) = {y. \<exists>x\<in>set xs. f x = Some y}"
  by (induction xs) (auto simp: map_filter_simps split: option.splits)

lemma new_rule_priorities_set [simp]:
  "set (new_rule_priorities before after) = prios_in after - prios_in before"
  by (auto simp: new_rule_priorities_def prios_in_def Let_def set_map_filter)

lemma new_lists_sorted [simp]:
  "sorted (new_route_tables b a)" "distinct (new_route_tables b a)"
  "sorted (new_rule_priorities b a')" "distinct (new_rule_priorities b a')"
  by (simp_all add: new_route_tables_def new_rule_priorities_def Let_def)

lemma table_remains_None [simp]:
  "table_remains fam routes t = None \<longleftrightarrow> (\<forall>l\<in>set routes. route_table l \<noteq> t)"
  by (simp add: table_remains_def)

lemma priority_remains_None [simp]:
  "priority_remains fam rules p = None \<longleftrightarrow> p \<notin> prios_in rules"
  by (auto simp: priority_remains_def prios_in_def)

lemma table_occupied_None [simp]:
  "table_occupied fam routes = None \<longleftrightarrow> itoa tunnel_route_table_index \<notin> tables_in routes"
  by (auto simp: table_occupied_def tables_in_def itoa_def tunnel_route_table_index_def)

lemma priority_occupied_None [simp]:
  "priority_occupied fam rules = None \<longleftrightarrow> prios_in rules \<inter> {tunnel_rule_start..tunnel_rule_end} = {}"
  by (fastforce simp: priority_occupied_def prios_in_def split: option.splits)

lemma itoa_table_nonempty [simp]: "itoa tunnel_route_table_index \<noteq> []"
  by simp

lemma atoi_range: "atoi s = Some i \<Longrightarrow> int64_range i"
  by (auto simp: atoi_def Let_def split: option.splits if_splits)

lemma rule_priority_range: "rule_priority l = Some p \<Longrightarrow> int64_range p"
  by (auto simp: rule_priority_def dest: atoi_range split: list.splits)

lemma reserved_table_text: "itoa tunnel_route_table_index = ''20229''"
  by (simp add: itoa_def tunnel_route_table_index_def nat_digits.simps)

lemma verify_owned_absent_None:
  "verify_owned_absent post owned = None \<longleftrightarrow>
     set (od_tables4 owned) \<inter> route_table ` set (ns_routes4 post) = {} \<and>
     set (od_tables6 owned) \<inter> route_table ` set (ns_routes6 post) = {} \<and>
     set (od_prios4 owned) \<inter> prios_in (ns_rules4 post) = {} \<and>
     set (od_prios6 owned) \<inter> prios_in (ns_rules6 post) = {}"
  by (auto simp: verify_owned_absent_def disjoint_iff)

lemma preflight_linux_None:
  "preflight_linux_ownership before = None \<longleftrightarrow>
     itoa tunnel_route_table_index \<notin> tables_in (ns_routes4 before) \<union> tables_in (ns_routes6 before) \<and>
     (prios_in (ns_rules4 before) \<union> prios_in (ns_rules6 before)) \<inter> {tunnel_rule_start..tunnel_rule_end} = {}"
  by (auto simp: preflight_linux_ownership_def)

lemma tables_in_route_table: "t \<in> tables_in ls \<longleftrightarrow> t \<noteq> [] \<and> t \<in> route_table ` set ls"
  by (auto simp: tables_in_def)

lemma reserved_linux_simps [simp]:
  "od_tun (reserved_platform_ownership pf) = agent_tun_name"
  "od_tables4 (reserved_platform_ownership Linux) = [itoa tunnel_route_table_index]"
  "od_tables6 (reserved_platform_ownership Linux) = [itoa tunnel_route_table_index]"
  "od_prios4 (reserved_platform_ownership Linux) = [tunnel_rule_start..tunnel_rule_end]"
  "od_prios6 (reserved_platform_ownership Linux) = [tunnel_rule_start..tunnel_rule_end]"
  by (simp_all add: reserved_platform_ownership_def Let_def)

lemma merge_owned_delta_sets [simp]:
  "set (od_tables4 (merge_owned_delta a b)) = set (od_tables4 a) \<union> set (od_tables4 b)"
  "set (od_tables6 (merge_owned_delta a b)) = set (od_tables6 a) \<union> set (od_tables6 b)"
  "set (od_prios4 (merge_owned_delta a b)) = set (od_prios4 a) \<union> set (od_prios4 b)"
  "set (od_prios6 (merge_owned_delta a b)) = set (od_prios6 a) \<union> set (od_prios6 b)"
  by (simp_all add: merge_owned_delta_def merged_strings.set_merge merged_ints.set_merge)

text \<open>What a record of ownership grants: the objects recovery may remove.\<close>

definition covers :: "owned_delta \<Rightarrow> owned_delta \<Rightarrow> bool" where
  "covers d e \<longleftrightarrow> set (od_tables4 e) \<subseteq> set (od_tables4 d) \<and> set (od_tables6 e) \<subseteq> set (od_tables6 d) \<and>
     set (od_prios4 e) \<subseteq> set (od_prios4 d) \<and> set (od_prios6 e) \<subseteq> set (od_prios6 d)"

lemma covers_refl [simp]: "covers d d"
  by (simp add: covers_def)

lemma covers_trans: "covers a b \<Longrightarrow> covers b c \<Longrightarrow> covers a c"
  by (auto simp: covers_def)

lemma covers_merge [simp]: "covers (merge_owned_delta a b) a" "covers (merge_owned_delta a b) b"
  by (auto simp: covers_def)

lemma covers_verify: "covers d e \<Longrightarrow> verify_owned_absent post d = None \<Longrightarrow> verify_owned_absent post e = None"
  unfolding covers_def verify_owned_absent_None by blast

lemma verify_reserved_preflight:
  "verify_owned_absent post (reserved_platform_ownership Linux) = None \<longleftrightarrow> preflight_linux_ownership post = None"
  by (auto simp: verify_owned_absent_None preflight_linux_None tables_in_route_table disjoint_iff)

lemma preflight_verify:
  "covers d (reserved_platform_ownership pf) \<Longrightarrow> verify_owned_absent post d = None \<Longrightarrow> preflight_ownership pf post = None"
  by (auto simp: preflight_ownership_def dest: covers_verify simp flip: verify_reserved_preflight)

lemma set_normalized_lines:
  "set (normalized_lines raw) = {trim_space l |l. l \<in> set (split_char (CHR 0x0A) (replace_crlf raw))} - {[]}"
  by (auto simp: normalized_lines_def)

lemma normalized_lines_clean:
  "l \<in> set (normalized_lines raw) \<Longrightarrow> l \<noteq> [] \<and> trim_space l = l \<and> CHR 0x0A \<notin> set l"
  unfolding set_normalized_lines using trim_space_subset split_char_free by fastforce

lemma replace_crlf_line:
  "CHR 0x0A \<notin> set a \<Longrightarrow> a \<noteq> [] \<Longrightarrow> last a \<noteq> CHR 0x0D \<Longrightarrow>
     replace_crlf (a @ CHR 0x0A # b) = a @ CHR 0x0A # replace_crlf b"
proof (induction a)
  case (Cons c a)
  then show ?case by (cases a; cases b) auto
qed simp

lemma replace_crlf_last: "CHR 0x0A \<notin> set a \<Longrightarrow> replace_crlf a = a"
proof (induction a rule: replace_crlf.induct)
qed auto

lemma trimmed_last: "trim_space l = l \<Longrightarrow> l \<noteq> [] \<Longrightarrow> \<not> is_space (last l)"
  unfolding trim_space_def
  by (metis dropWhile_eq_Nil_conv hd_dropWhile hd_rev last_rev rev_is_Nil_conv set_empty)

lemma replace_crlf_join:
  "\<forall>l\<in>set ls. l \<noteq> [] \<and> trim_space l = l \<and> CHR 0x0A \<notin> set l \<Longrightarrow>
     replace_crlf (str_join ls nl) = str_join ls nl"
proof (induction ls nl rule: str_join.induct)
  case (3 x y xs)
  then have "last x \<noteq> CHR 0x0D" using trimmed_last [of x] by (auto simp: is_space_def)
  with 3 show ?case by (simp add: nl_def replace_crlf_line)
qed (auto simp: replace_crlf_last)

text \<open>Normalising clean lines, whatever their order, sorts them.\<close>

lemma normalized_lines_join:
  assumes "\<forall>l\<in>set ls. l \<noteq> [] \<and> trim_space l = l \<and> CHR 0x0A \<notin> set l"
  shows "normalized_lines (str_join ls nl) = sort ls"
proof (cases "ls = []")
  case False
  then have "split_char (CHR 0x0A) (str_join ls nl) = ls"
    using assms split_char_join [of ls "CHR 0x0A"] by (simp add: nl_def)
  moreover have "map trim_space ls = ls" using assms by (intro map_idI) simp
  moreover have "filter (\<lambda>l. l \<noteq> []) ls = ls" using assms by (intro filter_True) simp
  ultimately show ?thesis by (simp add: normalized_lines_def replace_crlf_join [OF assms])
qed (simp add: normalized_lines_def trim_space_def)

lemma sort_mset_cong: "mset xs = mset ys \<Longrightarrow> sort xs = sort (ys :: 'a::linorder list)"
  by (rule properties_for_sort) simp_all

lemma sort_rev_sorted: "sort (rev (sort xs)) = sort (xs :: 'a::linorder list)"
  by (metis mset_rev mset_sort sort_mset_cong)

section \<open>Properties\<close>



text \<open>The ownership preflight is exact.  On Linux it passes if and only if the snapshot
  mentions the reserved table in neither family and no rule priority of the reserved range;
  elsewhere nothing is reserved.  In particular a passing preflight means that every
  reserved object found later is new: it is in the difference derived from the snapshot.\<close>

theorem preflight_exact:
  "preflight_ownership pf before = None \<longleftrightarrow>
     \<not> (pf = Linux \<and>
       (''20229'' \<in> tables_in (ns_routes4 before) \<union> tables_in (ns_routes6 before) \<or>
        (\<exists>p. p \<in> prios_in (ns_rules4 before) \<union> prios_in (ns_rules6 before) \<and> 19000 \<le> p \<and> p \<le> 19031)))"
proof -
  show ?thesis using reserved_table_text
    by (auto simp: preflight_ownership_def preflight_linux_None tunnel_rule_start_def tunnel_rule_end_def)
qed

text \<open>Merging observed differences into a record of ownership is a join: the sets add
  up, sorted and without repetition, an interface once recorded stays, merging the same
  evidence again changes nothing, and the order in which evidence arrives does not matter.\<close>

theorem merge_owned_delta_join:
  "merge_owned_delta (merge_owned_delta base a) a = merge_owned_delta base a \<and>
   merge_owned_delta (merge_owned_delta base a) b =
     merge_owned_delta base (merge_owned_delta a b) \<and>
   (od_tun a = od_tun b \<longrightarrow> merge_owned_delta a b = merge_owned_delta b a) \<and>
   covers (merge_owned_delta a b) a \<and> covers (merge_owned_delta a b) b \<and>
   sorted (od_prios4 (merge_owned_delta a b)) \<and> distinct (od_prios4 (merge_owned_delta a b))"
proof (intro conjI impI)
  show "merge_owned_delta (merge_owned_delta base a) a = merge_owned_delta base a"
    by (auto simp: merge_owned_delta_def merged_strings.merge_again merged_ints.merge_again)
  show "merge_owned_delta (merge_owned_delta base a) b = merge_owned_delta base (merge_owned_delta a b)"
    by (auto simp: merge_owned_delta_def merged_strings.merge_assoc merged_ints.merge_assoc)
  show "merge_owned_delta a b = merge_owned_delta b a" if "od_tun a = od_tun b"
    using that merged_strings.merge_comm merged_ints.merge_comm
    by (simp add: merge_owned_delta_def disj_commute)
qed (simp_all add: merge_owned_delta_def merged_ints.merge_sorted merged_ints.merge_distinct covers_def
    merged_strings.set_merge merged_ints.set_merge)

lemma merge_owned_delta_join_witness:
  "merge_owned_delta (zero_delta\<lparr>od_prios4 := [2]\<rparr>) (zero_delta\<lparr>od_prios4 := [1]\<rparr>) =
   merge_owned_delta (zero_delta\<lparr>od_prios4 := [1]\<rparr>) (zero_delta\<lparr>od_prios4 := [2]\<rparr>)"
  using merge_owned_delta_join [of zero_delta "zero_delta\<lparr>od_prios4 := [2]\<rparr>" "zero_delta\<lparr>od_prios4 := [1]\<rparr>"]
  by (simp add: zero_delta_def)

text \<open>The normal form of a command's output.  Its lines are trimmed and not empty, in
  order; it depends on the set of lines with their number only, not on their order or their
  line ends, so two snapshots of the same state compare equal; and normalising it again
  changes nothing.\<close>

theorem normalized_lines_normal_form:
  "sorted (normalized_lines raw) \<and>
   [] \<notin> set (normalized_lines raw) \<and>
   map trim_space (normalized_lines raw) = normalized_lines raw \<and>
   normalized_lines (str_join (rev (normalized_lines raw)) nl) = normalized_lines raw"
proof -
  let ?n = "normalized_lines raw"
  have n: "\<forall>l\<in>set (rev ?n). l \<noteq> [] \<and> trim_space l = l \<and> CHR 0x0A \<notin> set l"
    using normalized_lines_clean by auto
  then have "normalized_lines (str_join (rev ?n) nl) = ?n"
    by (simp add: normalized_lines_join) (metis normalized_lines_def sort_rev_sorted)
  moreover have "map trim_space ?n = ?n" using n by (intro map_idI) simp
  ultimately show ?thesis by (simp add: normalized_lines_def)
qed

end
