(* ===== verification/Journal.thy ===== *)
theory Journal imports AtomicFile RouteOwnership begin

text \<open>
  The crash journal of the Agent Tunnel (\<^verbatim>\<open>internal/proxy/network_state.go\<close>): its data,
  its JSON form, and the operations that validate, load, write, quarantine and finalise it
  on disk.  A Go time is its RFC 3339 text.  The operations take the configured root
  directory; those that mutate the journal behind its pointer return it.
\<close>

section \<open>Data\<close>

record journal =
  tj_schema :: int
  tj_phase :: string
  tj_op :: string
  tj_pid :: int
  tj_pid_identity :: string
  tj_vpn :: string
  tj_created :: string
  tj_updated :: string
  tj_before :: snapshot
  tj_active :: "snapshot option"
  tj_owned :: owned_delta
  tj_last_error :: string
  tj_recovery :: "string list"
  tj_from_backup :: bool

definition zero_journal :: journal where
  "zero_journal = \<lparr>tj_schema = 0, tj_phase = [], tj_op = [], tj_pid = 0, tj_pid_identity = [], tj_vpn = [],
     tj_created = zero_time, tj_updated = zero_time, tj_before = zero_snapshot, tj_active = None,
     tj_owned = zero_delta, tj_last_error = [], tj_recovery = [], tj_from_backup = False\<rparr>"

text \<open>The fields that Go omits when empty.\<close>

definition opt_string :: "string \<Rightarrow> string \<Rightarrow> (string \<times> json) list" where
  "opt_string k s = (if s = [] then [] else [(k, JStr s)])"

definition opt_int :: "string \<Rightarrow> int \<Rightarrow> (string \<times> json) list" where
  "opt_int k i = (if i = 0 then [] else [(k, enc_int i)])"

definition opt_list :: "('a \<Rightarrow> json) \<Rightarrow> string \<Rightarrow> 'a list \<Rightarrow> (string \<times> json) list" where
  "opt_list f k xs = (if xs = [] then [] else [(k, JArr (map f xs))])"

definition opt_ptr :: "('a \<Rightarrow> json) \<Rightarrow> string \<Rightarrow> 'a option \<Rightarrow> (string \<times> json) list" where
  "opt_ptr f k x = (case x of None \<Rightarrow> [] | Some y \<Rightarrow> [(k, f y)])"

definition enc_snapshot :: "snapshot \<Rightarrow> json" where
  "enc_snapshot s = JObj
     ([(''captured_at'', JStr (ns_captured_at s)), (''platform'', JStr (ns_platform s))] @
      opt_list JStr ''routes_v4'' (ns_routes4 s) @ opt_list JStr ''routes_v6'' (ns_routes6 s) @
      opt_list JStr ''rules_v4'' (ns_rules4 s) @ opt_list JStr ''rules_v6'' (ns_rules6 s) @
      opt_string ''dns_fingerprint'' (ns_dns s) @ opt_string ''firewall_fingerprint'' (ns_firewall s))"

definition enc_owned :: "owned_delta \<Rightarrow> json" where
  "enc_owned d = JObj
     (opt_string ''tunnel_interface'' (od_tun d) @
      opt_list JStr ''new_route_tables_v4'' (od_tables4 d) @ opt_list JStr ''new_route_tables_v6'' (od_tables6 d) @
      opt_list enc_int ''new_rule_priorities_v4'' (od_prios4 d) @ opt_list enc_int ''new_rule_priorities_v6'' (od_prios6 d) @
      [(''dns_changed'', JBool (od_dns_changed d)), (''firewall_changed'', JBool (od_fw_changed d))])"

definition enc_journal :: "journal \<Rightarrow> json" where
  "enc_journal j = JObj
     ([(''schema_version'', enc_int (tj_schema j)), (''phase'', JStr (tj_phase j)), (''operation_id'', JStr (tj_op j))] @
      opt_int ''pid'' (tj_pid j) @ opt_string ''pid_identity'' (tj_pid_identity j) @
      [(''vpn_interface'', JStr (tj_vpn j)), (''created_at'', JStr (tj_created j)),
       (''updated_at'', JStr (tj_updated j)), (''before'', enc_snapshot (tj_before j))] @
      opt_ptr enc_snapshot ''active'' (tj_active j) @
      [(''owned'', enc_owned (tj_owned j))] @
      opt_string ''last_error'' (tj_last_error j) @ opt_list JStr ''recovery'' (tj_recovery j))"

definition snapshot_fields :: "(string \<times> snapshot decoder) list" where
  "snapshot_fields =
     [dec_field ''captured_at'' dec_time ns_captured_at (\<lambda>v a. a\<lparr>ns_captured_at := v\<rparr>),
      dec_field ''platform'' dec_string ns_platform (\<lambda>v a. a\<lparr>ns_platform := v\<rparr>),
      dec_field ''routes_v4'' (dec_list [] dec_string) ns_routes4 (\<lambda>v a. a\<lparr>ns_routes4 := v\<rparr>),
      dec_field ''routes_v6'' (dec_list [] dec_string) ns_routes6 (\<lambda>v a. a\<lparr>ns_routes6 := v\<rparr>),
      dec_field ''rules_v4'' (dec_list [] dec_string) ns_rules4 (\<lambda>v a. a\<lparr>ns_rules4 := v\<rparr>),
      dec_field ''rules_v6'' (dec_list [] dec_string) ns_rules6 (\<lambda>v a. a\<lparr>ns_rules6 := v\<rparr>),
      dec_field ''dns_fingerprint'' dec_string ns_dns (\<lambda>v a. a\<lparr>ns_dns := v\<rparr>),
      dec_field ''firewall_fingerprint'' dec_string ns_firewall (\<lambda>v a. a\<lparr>ns_firewall := v\<rparr>)]"

definition owned_fields :: "(string \<times> owned_delta decoder) list" where
  "owned_fields =
     [dec_field ''tunnel_interface'' dec_string od_tun (\<lambda>v a. a\<lparr>od_tun := v\<rparr>),
      dec_field ''new_route_tables_v4'' (dec_list [] dec_string) od_tables4 (\<lambda>v a. a\<lparr>od_tables4 := v\<rparr>),
      dec_field ''new_route_tables_v6'' (dec_list [] dec_string) od_tables6 (\<lambda>v a. a\<lparr>od_tables6 := v\<rparr>),
      dec_field ''new_rule_priorities_v4'' (dec_list 0 dec_int) od_prios4 (\<lambda>v a. a\<lparr>od_prios4 := v\<rparr>),
      dec_field ''new_rule_priorities_v6'' (dec_list 0 dec_int) od_prios6 (\<lambda>v a. a\<lparr>od_prios6 := v\<rparr>),
      dec_field ''dns_changed'' dec_bool od_dns_changed (\<lambda>v a. a\<lparr>od_dns_changed := v\<rparr>),
      dec_field ''firewall_changed'' dec_bool od_fw_changed (\<lambda>v a. a\<lparr>od_fw_changed := v\<rparr>)]"

definition journal_fields :: "(string \<times> journal decoder) list" where
  "journal_fields =
     [dec_field ''schema_version'' dec_int tj_schema (\<lambda>v a. a\<lparr>tj_schema := v\<rparr>),
      dec_field ''phase'' dec_string tj_phase (\<lambda>v a. a\<lparr>tj_phase := v\<rparr>),
      dec_field ''operation_id'' dec_string tj_op (\<lambda>v a. a\<lparr>tj_op := v\<rparr>),
      dec_field ''pid'' dec_int tj_pid (\<lambda>v a. a\<lparr>tj_pid := v\<rparr>),
      dec_field ''pid_identity'' dec_string tj_pid_identity (\<lambda>v a. a\<lparr>tj_pid_identity := v\<rparr>),
      dec_field ''vpn_interface'' dec_string tj_vpn (\<lambda>v a. a\<lparr>tj_vpn := v\<rparr>),
      dec_field ''created_at'' dec_time tj_created (\<lambda>v a. a\<lparr>tj_created := v\<rparr>),
      dec_field ''updated_at'' dec_time tj_updated (\<lambda>v a. a\<lparr>tj_updated := v\<rparr>),
      dec_field ''before'' (dec_struct snapshot_fields) tj_before (\<lambda>v a. a\<lparr>tj_before := v\<rparr>),
      dec_field ''active'' (dec_ptr zero_snapshot (dec_struct snapshot_fields)) tj_active (\<lambda>v a. a\<lparr>tj_active := v\<rparr>),
      dec_field ''owned'' (dec_struct owned_fields) tj_owned (\<lambda>v a. a\<lparr>tj_owned := v\<rparr>),
      dec_field ''last_error'' dec_string tj_last_error (\<lambda>v a. a\<lparr>tj_last_error := v\<rparr>),
      dec_field ''recovery'' (dec_list [] dec_string) tj_recovery (\<lambda>v a. a\<lparr>tj_recovery := v\<rparr>)]"

definition journal_text :: "journal \<Rightarrow> string" where
  "journal_text j = marshal_indent (enc_journal j) @ nl"

section \<open>Validation\<close>

definition known_phase :: "string \<Rightarrow> bool" where
  "known_phase p \<longleftrightarrow> p \<in> {''prepared'', ''active'', ''recovering'', ''clean'', ''aborted-before-network-apply''}"

definition decode_tunnel_journal :: "string \<Rightarrow> journal res" where
  "decode_tunnel_journal b =
     (case unmarshal (dec_struct journal_fields) b zero_journal of
        (j, ok) \<Rightarrow>
          if \<not> ok then Inl (wrap_err ''decode JSON: '' json_error)
          else if tj_schema j \<noteq> network_state_schema then Inl (new_err (''unsupported schema '' @ itoa (tj_schema j)))
          else if trim_space (tj_op j) = [] then Inl (new_err ''missing operation_id'')
          else if \<not> known_phase (tj_phase j) then Inl (new_err (''unsupported phase '' @ go_quote (tj_phase j)))
          else Inr j)"

definition append_journal_error :: "string \<Rightarrow> string \<Rightarrow> string" where
  "append_journal_error existing nxt =
     (if trim_space existing = [] then nxt else existing @ ''; '' @ nxt)"

section \<open>The files\<close>

definition journal_path :: "string \<Rightarrow> string" where
  "journal_path root = path_join root ''network-state.json''"

definition journal_backup_path :: "string \<Rightarrow> string" where
  "journal_backup_path root = journal_path root @ ''.previous-good''"

definition last_clean_path :: "string \<Rightarrow> string" where
  "last_clean_path root = path_join root ''network-state-last-clean.json''"

text \<open>\<^verbatim>\<open>loadTunnelJournal\<close>: the primary journal, or its previous good version.\<close>

definition load_backup_journal ::
  "'k machine \<Rightarrow> string \<Rightarrow> gerr \<Rightarrow> 'k world \<Rightarrow> journal option res \<times> 'k world" where
  "load_backup_journal m root primary_err w =
     (case read_file m (journal_backup_path root) w of
        (Inl e, w1) \<Rightarrow>
          (Inl (wrap_err (''network-state journal invalid: '' @ err_text primary_err @ ''; previous-good unavailable: '') e), w1)
      | (Inr raw, w1) \<Rightarrow>
          (case decode_tunnel_journal raw of
             Inl e \<Rightarrow>
               (Inl (new_err (''network-state journal invalid: '' @ err_text primary_err @ ''; previous-good invalid: '' @ err_text e)), w1)
           | Inr backup \<Rightarrow>
               (let (clean, w2) = read_file m (last_clean_path root) w1;
                    finalised = (case clean of
                       Inl _ \<Rightarrow> False
                     | Inr c \<Rightarrow> (case decode_tunnel_journal c of Inl _ \<Rightarrow> False | Inr cj \<Rightarrow> tj_op cj = tj_op backup))
                in if finalised
                   then (Inl (new_err (''network-state journal invalid: '' @ err_text primary_err @
                           ''; previous-good belongs to already-clean operation '' @ tj_op backup)), w2)
                   else (Inr (Some (backup\<lparr>tj_from_backup := True,
                           tj_last_error := append_journal_error (tj_last_error backup)
                             (''primary network-state journal invalid; recovered previous-good: '' @ err_text primary_err)\<rparr>)), w2))))"

definition load_tunnel_journal ::
  "'k machine \<Rightarrow> string \<Rightarrow> 'k world \<Rightarrow> journal option res \<times> 'k world" where
  "load_tunnel_journal m root w =
     (case read_file m (journal_path root) w of
        (Inl e, w1) \<Rightarrow> if err_kind e = NotExist then (Inr None, w1) else (Inl e, w1)
      | (Inr b, w1) \<Rightarrow>
          (case decode_tunnel_journal b of
             Inr j \<Rightarrow> (Inr (Some j), w1)
           | Inl primary_err \<Rightarrow> load_backup_journal m root primary_err w1))"

definition write_tunnel_journal ::
  "'k machine \<Rightarrow> string \<Rightarrow> journal \<Rightarrow> 'k world \<Rightarrow> unit res \<times> journal \<times> 'k world" where
  "write_tunnel_journal m root j w =
     (let (t, w1) = now m w;
          j' = j\<lparr>tj_updated := t_rfc t\<rparr>;
          (r, w2) = atomic_write m (journal_path root) (journal_text j') 384 w1
      in (r, j', w2))"

text \<open>Removing a file that may be gone already.\<close>

definition remove_if_present :: "'k machine \<Rightarrow> string \<Rightarrow> 'k world \<Rightarrow> unit res \<times> 'k world" where
  "remove_if_present m p w =
     (case remove_file m p w of
        (Inl e, w1) \<Rightarrow> if err_kind e = NotExist then (Inr (), w1) else (Inl e, w1)
      | (Inr _, w1) \<Rightarrow> (Inr (), w1))"

definition persist_clean_journal :: "'k machine \<Rightarrow> string \<Rightarrow> journal \<Rightarrow> 'k world \<Rightarrow> unit res \<times> 'k world" where
  "persist_clean_journal m root j w =
     (let (t, w1) = now m w;
          j' = j\<lparr>tj_updated := t_rfc t, tj_from_backup := False\<rparr>
      in case atomic_write m (last_clean_path root) (journal_text j') 384 w1 of
           (Inl e, w2) \<Rightarrow> (Inl e, w2)
         | (Inr _, w2) \<Rightarrow>
             (case remove_if_present m (journal_path root) w2 of
                (Inl e, w3) \<Rightarrow> (Inl e, w3)
              | (Inr _, w3) \<Rightarrow> remove_if_present m (journal_backup_path root) w3))"

definition quarantine_invalid_primary ::
  "'k machine \<Rightarrow> string \<Rightarrow> journal \<Rightarrow> 'k world \<Rightarrow> unit res \<times> journal \<times> 'k world" where
  "quarantine_invalid_primary m root j w =
     (if \<not> tj_from_backup j then (Inr (), j, w)
      else (let (t, w1) = now m w;
                q = journal_path root @ ''.corrupt-'' @ t_compact t
            in case rename_file m (journal_path root) q w1 of
                 (Inl e, w2) \<Rightarrow> (Inl (wrap_err ''quarantine invalid primary journal: '' e), j, w2)
               | (Inr _, w2) \<Rightarrow>
                   (Inr (), j\<lparr>tj_recovery := tj_recovery j @ [''quarantined invalid primary journal as '' @ path_base q],
                              tj_from_backup := False\<rparr>, w2)))"

record journal_status =
  js_open :: bool
  js_phase :: string
  js_op :: string
  js_updated :: string
  js_detail :: string

definition network_journal_status :: "'k machine \<Rightarrow> string \<Rightarrow> 'k world \<Rightarrow> journal_status \<times> 'k world" where
  "network_journal_status m root w =
     (case load_tunnel_journal m root w of
        (Inl e, w1) \<Rightarrow> (\<lparr>js_open = True, js_phase = ''invalid'', js_op = [], js_updated = zero_time, js_detail = err_text e\<rparr>, w1)
      | (Inr None, w1) \<Rightarrow> (\<lparr>js_open = False, js_phase = [], js_op = [], js_updated = zero_time,
                             js_detail = ''no open network transaction''\<rparr>, w1)
      | (Inr (Some j), w1) \<Rightarrow>
          (\<lparr>js_open = True, js_phase = tj_phase j, js_op = tj_op j, js_updated = tj_updated j,
             js_detail = (if tj_from_backup j
               then ''primary journal is invalid; validated previous-good is available for recovery''
               else ''network-state transaction requires completion or recovery'')\<rparr>, w1))"

section \<open>The round trip of the journal\<close>

definition valid_snapshot :: "snapshot \<Rightarrow> bool" where
  "valid_snapshot s \<longleftrightarrow> is_time (ns_captured_at s)"

definition valid_owned :: "owned_delta \<Rightarrow> bool" where
  "valid_owned d \<longleftrightarrow> list_all int64_range (od_prios4 d) \<and> list_all int64_range (od_prios6 d)"

text \<open>A journal as the program makes it, and one that also passes the checks on loading.\<close>

definition storable :: "journal \<Rightarrow> bool" where
  "storable j \<longleftrightarrow> int64_range (tj_schema j) \<and> int64_range (tj_pid j) \<and> is_time (tj_created j) \<and>
     is_time (tj_updated j) \<and> valid_snapshot (tj_before j) \<and> pred_option valid_snapshot (tj_active j) \<and>
     valid_owned (tj_owned j)"

definition valid_journal :: "journal \<Rightarrow> bool" where
  "valid_journal j \<longleftrightarrow> tj_schema j = network_state_schema \<and> trim_space (tj_op j) \<noteq> [] \<and> known_phase (tj_phase j)"

text \<open>One step of decoding: the field's decoder, applied to a value of its type.\<close>

definition run_field :: "(string \<times> 'a decoder) list \<Rightarrow> string \<Rightarrow> json \<Rightarrow> 'a \<Rightarrow> 'a \<times> bool" where
  "run_field fs k v a = (case find_field fs k of None \<Rightarrow> (a, True) | Some d \<Rightarrow> d v a)"

lemma dec_members_run:
  "snd (run_field fs k v a) \<Longrightarrow> dec_members fs ((k, v) # r) a = dec_members fs r (fst (run_field fs k v a))"
  by (auto simp: run_field_def split: option.splits prod.splits)

lemma dec_members_opt_list:
  "snd (run_field fs k (JArr (map f xs)) a) \<Longrightarrow> fst (run_field fs k (JArr []) a) = a \<Longrightarrow>
     dec_members fs (opt_list f k xs @ r) a = dec_members fs r (fst (run_field fs k (JArr (map f xs)) a))"
  by (auto simp: opt_list_def dec_members_run simp del: dec_members.simps)

lemma dec_members_opt_string:
  "snd (run_field fs k (JStr s) a) \<Longrightarrow> fst (run_field fs k (JStr []) a) = a \<Longrightarrow>
     dec_members fs (opt_string k s @ r) a = dec_members fs r (fst (run_field fs k (JStr s) a))"
  by (auto simp: opt_string_def dec_members_run simp del: dec_members.simps)

lemma dec_members_opt_int:
  "snd (run_field fs k (enc_int i) a) \<Longrightarrow> fst (run_field fs k (enc_int 0) a) = a \<Longrightarrow>
     dec_members fs (opt_int k i @ r) a = dec_members fs r (fst (run_field fs k (enc_int i) a))"
  by (auto simp: opt_int_def dec_members_run simp del: dec_members.simps)

lemma dec_members_opt_ptr:
  "pred_option (\<lambda>y. run_field fs k (f y) a = (put (Some y) a, True)) x \<Longrightarrow> put None a = a \<Longrightarrow>
     dec_members fs (opt_ptr f k x @ r) a = dec_members fs r (put x a)"
  by (cases x) (auto simp: opt_ptr_def dec_members_run simp del: dec_members.simps)

lemmas dec_last = dec_members_opt_list [where r = "[]", simplified] dec_members_opt_string [where r = "[]", simplified]
lemmas dec_steps = dec_members_run dec_members_opt_list dec_members_opt_string dec_members_opt_int dec_last

lemma int64_zero [simp]: "int64_range 0"
  by (simp add: int64_range_def max_int64_def min_int64_def)

lemma dec_list_strings [simp]: "dec_list [] dec_string (JArr (map JStr xs)) cur = (xs, True)"
  "dec_list [] dec_string (JArr []) cur = ([], True)" "dec_list 0 dec_int (JArr []) cur' = ([], True)"
  by (simp_all add: dec_list_def comp_def list_all_iff)

lemma dec_list_ints [simp]: "list_all int64_range xs \<Longrightarrow> dec_list 0 dec_int (JArr (map enc_int xs)) cur = (xs, True)"
  by (rule dec_list_map) (auto simp: list_all_iff)

lemma run_snapshot [simp]:
  "is_time t \<Longrightarrow> run_field snapshot_fields ''captured_at'' (JStr t) a = (a\<lparr>ns_captured_at := t\<rparr>, True)"
  "run_field snapshot_fields ''platform'' (JStr x) a = (a\<lparr>ns_platform := x\<rparr>, True)"
  "run_field snapshot_fields ''routes_v4'' (JArr (map JStr xs)) a = (a\<lparr>ns_routes4 := xs\<rparr>, True)"
  "run_field snapshot_fields ''routes_v6'' (JArr (map JStr xs)) a = (a\<lparr>ns_routes6 := xs\<rparr>, True)"
  "run_field snapshot_fields ''rules_v4'' (JArr (map JStr xs)) a = (a\<lparr>ns_rules4 := xs\<rparr>, True)"
  "run_field snapshot_fields ''rules_v6'' (JArr (map JStr xs)) a = (a\<lparr>ns_rules6 := xs\<rparr>, True)"
  "run_field snapshot_fields ''dns_fingerprint'' (JStr x) a = (a\<lparr>ns_dns := x\<rparr>, True)"
  "run_field snapshot_fields ''firewall_fingerprint'' (JStr x) a = (a\<lparr>ns_firewall := x\<rparr>, True)"
  by (simp_all add: run_field_def find_field_def snapshot_fields_def dec_field_def)

lemmas run_snapshot_nil [simp] = run_snapshot(3-6) [of "[]", simplified]

lemma snapshot_round_trip [simp]:
  "valid_snapshot s \<Longrightarrow> dec_struct snapshot_fields (enc_snapshot s) zero_snapshot = (s, True)"
  by (simp add: dec_struct_def enc_snapshot_def valid_snapshot_def dec_steps zero_snapshot_def
      del: dec_members.simps(2))

lemma run_owned [simp]:
  "run_field owned_fields ''tunnel_interface'' (JStr x) a = (a\<lparr>od_tun := x\<rparr>, True)"
  "run_field owned_fields ''new_route_tables_v4'' (JArr (map JStr xs)) a = (a\<lparr>od_tables4 := xs\<rparr>, True)"
  "run_field owned_fields ''new_route_tables_v6'' (JArr (map JStr xs)) a = (a\<lparr>od_tables6 := xs\<rparr>, True)"
  "list_all int64_range is \<Longrightarrow> run_field owned_fields ''new_rule_priorities_v4'' (JArr (map enc_int is)) a = (a\<lparr>od_prios4 := is\<rparr>, True)"
  "list_all int64_range is \<Longrightarrow> run_field owned_fields ''new_rule_priorities_v6'' (JArr (map enc_int is)) a = (a\<lparr>od_prios6 := is\<rparr>, True)"
  "run_field owned_fields ''dns_changed'' (JBool b) a = (a\<lparr>od_dns_changed := b\<rparr>, True)"
  "run_field owned_fields ''firewall_changed'' (JBool b) a = (a\<lparr>od_fw_changed := b\<rparr>, True)"
  by (simp_all add: run_field_def find_field_def owned_fields_def dec_field_def)

lemmas run_owned_nil [simp] = run_owned(2-5) [of "[]", simplified]

lemma owned_round_trip [simp]:
  "valid_owned d \<Longrightarrow> dec_struct owned_fields (enc_owned d) zero_delta = (d, True)"
  by (simp add: dec_struct_def enc_owned_def valid_owned_def dec_steps zero_delta_def
      del: dec_members.simps(2))

lemma run_journal [simp]:
  "int64_range i \<Longrightarrow> run_field journal_fields ''schema_version'' (enc_int i) a = (a\<lparr>tj_schema := i\<rparr>, True)"
  "run_field journal_fields ''phase'' (JStr x) a = (a\<lparr>tj_phase := x\<rparr>, True)"
  "run_field journal_fields ''operation_id'' (JStr x) a = (a\<lparr>tj_op := x\<rparr>, True)"
  "int64_range i \<Longrightarrow> run_field journal_fields ''pid'' (enc_int i) a = (a\<lparr>tj_pid := i\<rparr>, True)"
  "run_field journal_fields ''pid_identity'' (JStr x) a = (a\<lparr>tj_pid_identity := x\<rparr>, True)"
  "run_field journal_fields ''vpn_interface'' (JStr x) a = (a\<lparr>tj_vpn := x\<rparr>, True)"
  "is_time t \<Longrightarrow> run_field journal_fields ''created_at'' (JStr t) a = (a\<lparr>tj_created := t\<rparr>, True)"
  "is_time t \<Longrightarrow> run_field journal_fields ''updated_at'' (JStr t) a = (a\<lparr>tj_updated := t\<rparr>, True)"
  "run_field journal_fields ''last_error'' (JStr x) a = (a\<lparr>tj_last_error := x\<rparr>, True)"
  "run_field journal_fields ''recovery'' (JArr (map JStr xs)) a = (a\<lparr>tj_recovery := xs\<rparr>, True)"
  by (simp_all add: run_field_def find_field_def journal_fields_def dec_field_def)

lemmas run_journal_nil [simp] = run_journal(10) [of "[]", simplified]

lemma run_journal_parts [simp]:
  "valid_snapshot s \<Longrightarrow> tj_before a = zero_snapshot \<Longrightarrow>
     run_field journal_fields ''before'' (enc_snapshot s) a = (a\<lparr>tj_before := s\<rparr>, True)"
  "valid_owned d \<Longrightarrow> tj_owned a = zero_delta \<Longrightarrow>
     run_field journal_fields ''owned'' (enc_owned d) a = (a\<lparr>tj_owned := d\<rparr>, True)"
  by (simp_all add: run_field_def find_field_def journal_fields_def dec_field_def)

lemma run_journal_active [simp]:
  assumes "valid_snapshot s" "tj_active a = None"
  shows "run_field journal_fields ''active'' (enc_snapshot s) a = (a\<lparr>tj_active := Some s\<rparr>, True)"
proof -
  obtain kvs where "enc_snapshot s = JObj kvs" by (simp add: enc_snapshot_def)
  then have "dec_ptr zero_snapshot (dec_struct snapshot_fields) (enc_snapshot s) None = (Some s, True)"
    using snapshot_round_trip [OF assms(1)] by (simp add: dec_ptr_def)
  then show ?thesis
    using assms(2) by (simp add: run_field_def find_field_def journal_fields_def dec_field_def)
qed

lemma journal_round_trip:
  assumes "storable j"
  shows "dec_struct journal_fields (enc_journal j) zero_journal = (j\<lparr>tj_from_backup := False\<rparr>, True)"
proof -
  have put: "dec_members journal_fields (opt_ptr enc_snapshot ''active'' (tj_active j) @ r) a =
      dec_members journal_fields r (a\<lparr>tj_active := tj_active j\<rparr>)" if "tj_active a = None" for r a
    using assms that
    by (intro dec_members_opt_ptr [where put = "\<lambda>v a. a\<lparr>tj_active := v\<rparr>"])
      (auto simp: storable_def pred_option_def)
  show ?thesis
    using assms put
    by (simp add: dec_struct_def enc_journal_def storable_def dec_steps zero_journal_def
        del: dec_members.simps(2))
qed

lemma wf_opt [simp]:
  "list_all (\<lambda>(k, v). wf_json v) (opt_string k s)" "list_all (\<lambda>(k, v). wf_json v) (opt_int k i)"
  "(\<And>x. x \<in> set xs \<Longrightarrow> wf_json (f x)) \<Longrightarrow> list_all (\<lambda>(k, v). wf_json v) (opt_list f k xs)"
  "(\<And>x. wf_json (g x)) \<Longrightarrow> list_all (\<lambda>(k, v). wf_json v) (opt_ptr g k y)"
  by (auto simp: opt_string_def opt_int_def opt_list_def opt_ptr_def list_all_iff split: option.splits)

lemma wf_enc_journal [simp]: "wf_json (enc_snapshot s)" "wf_json (enc_owned d)" "wf_json (enc_journal j)"
  by (simp_all add: enc_snapshot_def enc_owned_def enc_journal_def)

lemma decode_journal_text:
  assumes "storable j" "valid_journal j"
  shows "decode_tunnel_journal (journal_text j) = Inr (j\<lparr>tj_from_backup := False\<rparr>)"
  using assms
  by (simp add: decode_tunnel_journal_def unmarshal_def journal_text_def marshal_indent_def parse_print
      journal_round_trip valid_journal_def)

lemma decode_journal_valid: "decode_tunnel_journal b = Inr j \<Longrightarrow> valid_journal j"
  by (auto simp: decode_tunnel_journal_def valid_journal_def split: prod.splits if_splits)

section \<open>The operations on disk\<close>

lemma journal_backup_previous_good: "journal_backup_path root = previous_good (journal_path root)"
  by (simp add: journal_backup_path_def previous_good_def)

lemma journal_names [simp]: "file_name ''network-state.json''" "file_name ''network-state-last-clean.json''"
  by (simp_all add: file_name_def)

lemma journal_path_nonempty [simp]: "journal_path root \<noteq> []" "last_clean_path root \<noteq> []"
  by (simp_all add: journal_path_def last_clean_path_def)

lemma path_base_journal:
  "path_base (journal_path root) = ''network-state.json''"
  "path_base (last_clean_path root) = ''network-state-last-clean.json''"
  "path_base (journal_backup_path root) = ''network-state.json.previous-good''"
  "path_base (previous_good (last_clean_path root)) = ''network-state-last-clean.json.previous-good''"
proof -
  show "path_base (journal_path root) = ''network-state.json''"
    "path_base (last_clean_path root) = ''network-state-last-clean.json''"
    by (simp_all add: journal_path_def last_clean_path_def)
  show "path_base (journal_backup_path root) = ''network-state.json.previous-good''"
    "path_base (previous_good (last_clean_path root)) = ''network-state-last-clean.json.previous-good''"
    using path_base_suffix [of "''network-state.json''" "''.previous-good''" root]
      path_base_suffix [of "''network-state-last-clean.json''" "''.previous-good''" root]
    by (simp_all add: journal_backup_path_def previous_good_def journal_path_def last_clean_path_def)
qed

lemma journal_paths_distinct [simp]:
  "journal_path root \<noteq> last_clean_path root" "last_clean_path root \<noteq> journal_path root"
  "journal_backup_path root \<noteq> last_clean_path root" "last_clean_path root \<noteq> journal_backup_path root"
  "journal_backup_path root \<noteq> journal_path root" "journal_path root \<noteq> journal_backup_path root"
  "journal_path root \<noteq> previous_good (last_clean_path root)"
  "journal_backup_path root \<noteq> previous_good (last_clean_path root)"
  by (rule notI, drule arg_cong [where f = path_base], simp add: path_base_journal)+

text \<open>A clock whose readings are times.\<close>

definition good_clock :: "'k machine \<Rightarrow> bool" where
  "good_clock m \<longleftrightarrow> (\<forall>n. is_time (t_rfc (m_clock m n)))"

lemma write_tunnel_journalD:
  assumes "write_tunnel_journal m root j w = (r, j', w')"
  shows "atomic_write m (journal_path root) (journal_text j') 384 (tick w) = (r, w')"
    and "j' = j\<lparr>tj_updated := t_rfc (m_clock m (w_tick w))\<rparr>"
  using assms by (auto simp: write_tunnel_journal_def now_def Let_def split: prod.splits)

lemma write_tunnel_journal_stored:
  "write_tunnel_journal m root j w = (r, j', w') \<Longrightarrow> good_clock m \<Longrightarrow> storable j \<Longrightarrow> valid_journal j \<Longrightarrow>
     storable j' \<and> valid_journal j' \<and> decode_tunnel_journal (journal_text j') = Inr (j'\<lparr>tj_from_backup := False\<rparr>)"
  using write_tunnel_journalD(2) [of m root j w r j' w'] decode_journal_text [of j']
  by (simp add: storable_def valid_journal_def good_clock_def)

lemma write_tunnel_journal_env: "write_tunnel_journal m root j w = (r, j', w') \<Longrightarrow> same_env w w'"
  using atomic_write_env [OF write_tunnel_journalD(1)] by (fastforce simp: same_env_def)

lemma read_file_ok: "read_file m p w = (Inr d, w') \<Longrightarrow> \<exists>x. w_files w p = Some x \<and> f_data x = d"
  by (auto simp: read_file_def split: option.splits)

lemma read_file_run:
  "fault_now m w = None \<Longrightarrow> w_files w p = Some x \<Longrightarrow> read_file m p w = (Inr (f_data x), tick w)"
  "fault_now m w = None \<Longrightarrow> w_files w p = None \<Longrightarrow> read_file m p w = (Inl (no_such_file ''open'' p), tick w)"
  by (simp_all add: read_file_def)

lemma err_kind_no_such_file [simp]: "err_kind (no_such_file c p) = NotExist"
  by (simp add: no_such_file_def)

lemma fault_kind [simp]: "err_kind (fault_err f) \<noteq> NotExist"
  by (simp add: fault_err_def)

lemma read_file_not_exist: "read_file m p w = (Inl e, w') \<Longrightarrow> err_kind e = NotExist \<Longrightarrow> w_files w p = None"
  by (auto simp: read_file_def split: option.splits)

lemma load_backup_cases:
  assumes "load_backup_journal m root pe w = (r, w')"
  obtains (failed) e where "r = Inl e"
  | (loaded) b x where "w_files w (journal_backup_path root) = Some x" "decode_tunnel_journal (f_data x) = Inr b"
      "r = Inr (Some (b\<lparr>tj_from_backup := True, tj_last_error := append_journal_error (tj_last_error b)
                 (''primary network-state journal invalid; recovered previous-good: '' @ err_text pe)\<rparr>))"
      "\<And>y c. fault_now m (tick w) = None \<Longrightarrow> w_files w (last_clean_path root) = Some y \<Longrightarrow>
         decode_tunnel_journal (f_data y) = Inr c \<Longrightarrow> tj_op c \<noteq> tj_op b"
proof (cases "read_file m (journal_backup_path root) w")
  case (Pair r1 w1)
  then have w1: "w1 = tick w" by (rule file_callD)
  show ?thesis
  proof (cases r1)
    case (Inl e)
    with assms Pair show ?thesis by (intro failed) (auto simp: load_backup_journal_def)
  next
    case (Inr raw)
    then obtain x where x: "w_files w (journal_backup_path root) = Some x" "raw = f_data x"
      using Pair read_file_ok by blast
    show ?thesis
    proof (cases "decode_tunnel_journal raw")
      case (Inl e)
      with assms Pair Inr show ?thesis by (intro failed) (auto simp: load_backup_journal_def)
    next
      case b: (Inr b)
      show ?thesis
      proof (cases "read_file m (last_clean_path root) w1")
        case c: (Pair c w2)
        show ?thesis
        proof (cases "\<exists>d cj. c = Inr d \<and> decode_tunnel_journal d = Inr cj \<and> tj_op cj = tj_op b")
          case True
          then show ?thesis using assms Pair Inr b c
            by (intro failed) (auto simp: load_backup_journal_def)
        next
          case False
          have "r = Inr (Some (b\<lparr>tj_from_backup := True, tj_last_error := append_journal_error (tj_last_error b)
                 (''primary network-state journal invalid; recovered previous-good: '' @ err_text pe)\<rparr>))"
            using False assms Pair Inr b c by (auto simp: load_backup_journal_def split: sum.splits)
          moreover have "tj_op c' \<noteq> tj_op b"
            if "fault_now m (tick w) = None" "w_files w (last_clean_path root) = Some y"
              "decode_tunnel_journal (f_data y) = Inr c'" for y c'
            using False c w1 that read_file_run(1) [of m "tick w" "last_clean_path root" y] by auto
          ultimately show ?thesis using loaded [OF x(1)] b x(2) by blast
        qed
      qed
    qed
  qed
qed

lemma load_tunnel_journal_cases:
  assumes "load_tunnel_journal m root w = (r, w')"
  obtains (failed) e where "r = Inl e"
  | (absent) "r = Inr None" "w_files w (journal_path root) = None" "w' = tick w"
  | (primary) x j where "w_files w (journal_path root) = Some x" "decode_tunnel_journal (f_data x) = Inr j" "r = Inr (Some j)"
  | (backup) x pe where "w_files w (journal_path root) = Some x" "decode_tunnel_journal (f_data x) = Inl pe"
      "load_backup_journal m root pe (tick w) = (r, w')"
proof (cases "read_file m (journal_path root) w")
  case (Pair r1 w1)
  then have w1: "w1 = tick w" by (rule file_callD)
  show ?thesis
  proof (cases r1)
    case (Inl e)
    with assms Pair w1 show ?thesis
      by (cases "err_kind e = NotExist")
        (auto simp: load_tunnel_journal_def dest: read_file_not_exist intro: failed absent)
  next
    case (Inr d)
    then obtain x where x: "w_files w (journal_path root) = Some x" "d = f_data x"
      using Pair read_file_ok by blast
    show ?thesis
    proof (cases "decode_tunnel_journal d")
      case (Inl pe)
      with assms Pair Inr w1 x show ?thesis by (intro backup [of x pe]) (auto simp: load_tunnel_journal_def)
    next
      case j: (Inr j)
      with assms Pair Inr x show ?thesis by (intro primary [of x j]) (auto simp: load_tunnel_journal_def)
    qed
  qed
qed

lemma load_backup_frame: "load_backup_journal m root pe w = (r, w') \<Longrightarrow> w_files w' = w_files w \<and> same_env w w' \<and> w_trace w' = w_trace w"
  by (auto simp: load_backup_journal_def Let_def split: prod.splits sum.splits if_splits dest!: file_callD)

lemma load_tunnel_journal_frame:
  "load_tunnel_journal m root w = (r, w') \<Longrightarrow> w_files w' = w_files w \<and> same_env w w' \<and> w_trace w' = w_trace w"
  by (auto simp: load_tunnel_journal_def split: prod.splits sum.splits if_splits
      dest!: file_callD load_backup_frame simp: same_env_def)

lemma load_tunnel_journal_valid:
  assumes "load_tunnel_journal m root w = (Inr (Some j), w')"
  shows "valid_journal j"
  using assms
proof (cases rule: load_tunnel_journal_cases)
  case (backup x pe)
  from backup(3) show ?thesis
    by (cases rule: load_backup_cases) (auto simp: valid_journal_def dest: decode_journal_valid)
qed (auto dest: decode_journal_valid)

section \<open>Finalising a journal\<close>

lemma remove_if_present_cases:
  assumes "remove_if_present m p w = (r, w')"
  obtains (failed) e where "r = Inl e" "w' = tick w"
  | (gone) "r = Inr ()" "w' = tick w" "w_files w p = None"
  | (removed) "r = Inr ()" "w' = put_fs ((w_files w)(p := None)) (tick w)"
  using assms
  by (auto simp: remove_if_present_def remove_file_def split: option.splits if_splits prod.splits sum.splits)

text \<open>Whether, at every moment, the journal is as it was or the clean record is \<open>d\<close>.\<close>

definition clean_before_removal :: "string \<Rightarrow> fnode option \<Rightarrow> string \<Rightarrow> 'k world \<Rightarrow> bool" where
  "clean_before_removal root old d w \<longleftrightarrow>
     (\<forall>s \<in> insert (w_files w) (set (w_trace w)).
        s (journal_path root) = old \<or> map_option f_data (s (last_clean_path root)) = Some d)"

lemma clean_before_removal_tick [simp]: "clean_before_removal root old d (tick w) = clean_before_removal root old d w"
  by (simp add: clean_before_removal_def)

lemma clean_before_removal_remove:
  "remove_if_present m p w = (r, w') \<Longrightarrow> p \<noteq> last_clean_path root \<Longrightarrow>
     map_option f_data (w_files w (last_clean_path root)) = Some d \<Longrightarrow>
     clean_before_removal root old d w \<Longrightarrow>
     clean_before_removal root old d w' \<and> map_option f_data (w_files w' (last_clean_path root)) = Some d"
  by (erule remove_if_present_cases) (auto simp: clean_before_removal_def put_fs_def)

lemma back_up_always_other:
  assumes "back_up m path perm w = (r, w')" "p \<noteq> previous_good path"
    and "\<And>k. p \<noteq> temp_name (previous_good path) @ nat_digits k" "always R p w"
  shows "always R p w'"
  using assms(1)
proof (cases rule: back_up_cases)
  case (copied x perm' r2)
  show ?thesis by (rule write_replace_always [OF copied(2) assms(2,3)]) (use assms(4) in simp)
qed (use assms(4) in auto)

lemma atomic_write_always_other:
  assumes "atomic_write m path data perm w = (r, w')" "p \<noteq> path" "p \<noteq> previous_good path"
    and "\<And>k. p \<noteq> temp_name path @ nat_digits k" "\<And>k. p \<noteq> temp_name (previous_good path) @ nat_digits k"
    and "always R p w"
  shows "always R p w'"
  using assms(1)
proof (cases rule: atomic_write_cases)
  case (backup e)
  show ?thesis by (rule back_up_always_other [OF backup(2) assms(3,5)]) (use assms(6) in simp)
next
  case (replace r2 w3)
  have "always R p w3" by (rule back_up_always_other [OF replace(2) assms(3,5)]) (use assms(6) in simp)
  then show ?thesis by (rule write_replace_always [OF replace(3) assms(2,4)])
qed (use assms in auto)

lemma journal_not_temp:
  "journal_path root \<noteq> q @ nat_digits k"
  "journal_backup_path root \<noteq> q @ nat_digits k" "last_clean_path root \<noteq> q @ nat_digits k"
proof -
  have last: "last (nat_digits k) \<noteq> CHR ''n''"
  proof
    assume eq: "last (nat_digits k) = CHR ''n''"
    obtain d where "d < 10" "last (nat_digits k) = digit_char d"
      using nat_digits_shape [of k] last_in_set by blast
    with eq have "(of_char (CHR ''n'') :: nat) = 48 + d" by (metis digit_char_nat)
    with \<open>d < 10\<close> show False by simp
  qed
  have "last (path_join root ''network-state.json'') = CHR ''n''"
    "last (path_join root ''network-state-last-clean.json'') = CHR ''n''"
    using path_join_shape [of "''network-state.json''" root] path_join_shape [of "''network-state-last-clean.json''" root]
    by auto
  then show "journal_path root \<noteq> q @ nat_digits k" "last_clean_path root \<noteq> q @ nat_digits k"
    using last by (metis journal_path_def last_appendR nat_digits_nonempty,
        metis last_clean_path_def last_appendR nat_digits_nonempty)
  show "journal_backup_path root \<noteq> q @ nat_digits k"
    unfolding journal_backup_previous_good by (rule backup_not_temp)
qed

lemma persist_clean_cases:
  assumes "persist_clean_journal m root j w = (r, w')"
  obtains (unwritten) e where "r = Inl e"
      "atomic_write m (last_clean_path root) (journal_text (j\<lparr>tj_updated := t_rfc (m_clock m (w_tick w)), tj_from_backup := False\<rparr>)) 384 (tick w) = (Inl e, w')"
  | (kept) e w2 where "r = Inl e"
      "atomic_write m (last_clean_path root) (journal_text (j\<lparr>tj_updated := t_rfc (m_clock m (w_tick w)), tj_from_backup := False\<rparr>)) 384 (tick w) = (Inr (), w2)"
      "remove_if_present m (journal_path root) w2 = (Inl e, w')"
  | (removed) w2 w3 where
      "atomic_write m (last_clean_path root) (journal_text (j\<lparr>tj_updated := t_rfc (m_clock m (w_tick w)), tj_from_backup := False\<rparr>)) 384 (tick w) = (Inr (), w2)"
      "remove_if_present m (journal_path root) w2 = (Inr (), w3)"
      "remove_if_present m (journal_backup_path root) w3 = (r, w')"
  using assms
  by (auto simp: persist_clean_journal_def now_def Let_def split: prod.splits sum.splits)

lemma persist_clean_order:
  assumes p: "persist_clean_journal m root j w = (r, w')"
    and j: "d = journal_text (j\<lparr>tj_updated := t_rfc (m_clock m (w_tick w)), tj_from_backup := False\<rparr>)"
    and a: "always (\<lambda>x. x = old) (journal_path root) w"
  shows "clean_before_removal root old d w'"
proof -
  have keep: "clean_before_removal root old d w2" if "atomic_write m (last_clean_path root) d 384 (tick w) = (r2, w2)" for r2 w2
  proof -
    have "always (\<lambda>x. x = old) (journal_path root) w2"
      by (rule atomic_write_always_other [OF that]) (use a journal_not_temp in simp_all)
    then show ?thesis by (auto simp: clean_before_removal_def always_def)
  qed
  have fin: "map_option f_data (w_files w2 (last_clean_path root)) = Some d"
    if "atomic_write m (last_clean_path root) d 384 (tick w) = (Inr (), w2)" for w2
    using atomic_write_ok(1) [OF that] by simp
  from p show ?thesis
  proof (cases rule: persist_clean_cases)
    case (unwritten e)
    then show ?thesis using keep j by blast
  next
    case (kept e w2)
    then show ?thesis using keep fin clean_before_removal_remove [OF kept(3)] j by simp
  next
    case (removed w2 w3)
    then show ?thesis
      using keep fin clean_before_removal_remove [OF removed(2)] clean_before_removal_remove [OF removed(3)] j by simp
  qed
qed

lemma persist_clean_env: "persist_clean_journal m root j w = (r, w') \<Longrightarrow> same_env w w'"
proof (erule persist_clean_cases)
  fix e w2
  assume "atomic_write m (last_clean_path root) (journal_text (j\<lparr>tj_updated := t_rfc (m_clock m (w_tick w)), tj_from_backup := False\<rparr>)) 384 (tick w) = (Inl e, w')"
  then show "same_env w w'" using atomic_write_env by (fastforce simp: same_env_def)
next
  fix e w2
  assume "atomic_write m (last_clean_path root) (journal_text (j\<lparr>tj_updated := t_rfc (m_clock m (w_tick w)), tj_from_backup := False\<rparr>)) 384 (tick w) = (Inr (), w2)"
    "remove_if_present m (journal_path root) w2 = (Inl e, w')"
  then show "same_env w w'"
    using atomic_write_env by (fastforce simp: same_env_def elim!: remove_if_present_cases)
next
  fix w2 w3
  assume "atomic_write m (last_clean_path root) (journal_text (j\<lparr>tj_updated := t_rfc (m_clock m (w_tick w)), tj_from_backup := False\<rparr>)) 384 (tick w) = (Inr (), w2)"
    "remove_if_present m (journal_path root) w2 = (Inr (), w3)" "remove_if_present m (journal_backup_path root) w3 = (r, w')"
  then show "same_env w w'"
    using atomic_write_env by (fastforce simp: same_env_def elim!: remove_if_present_cases)
qed

lemma persist_clean_ok:
  assumes p: "persist_clean_journal m root j w = (Inr (), w')"
  shows "w_files w' (journal_path root) = None" "w_files w' (journal_backup_path root) = None"
    and "map_option f_data (w_files w' (last_clean_path root)) =
      Some (journal_text (j\<lparr>tj_updated := t_rfc (m_clock m (w_tick w)), tj_from_backup := False\<rparr>))"
proof -
  from p obtain w2 w3 where 1: "atomic_write m (last_clean_path root) (journal_text (j\<lparr>tj_updated := t_rfc (m_clock m (w_tick w)), tj_from_backup := False\<rparr>)) 384 (tick w) = (Inr (), w2)"
    and 2: "remove_if_present m (journal_path root) w2 = (Inr (), w3)"
    and 3: "remove_if_present m (journal_backup_path root) w3 = (Inr (), w')"
    by (cases rule: persist_clean_cases) auto
  have r: "w_files w'' = (w_files w1)(p := None)" if "remove_if_present m p w1 = (Inr (), w'')" for p w1 w''
    using that by (cases rule: remove_if_present_cases) auto
  show "w_files w' (journal_path root) = None" "w_files w' (journal_backup_path root) = None"
    "map_option f_data (w_files w' (last_clean_path root)) =
      Some (journal_text (j\<lparr>tj_updated := t_rfc (m_clock m (w_tick w)), tj_from_backup := False\<rparr>))"
    using r [OF 2] r [OF 3] atomic_write_ok(1) [OF 1] by simp_all
qed

section \<open>Loaded journals can be stored again\<close>

lemma find_field_in: "find_field fs k = Some d \<Longrightarrow> \<exists>n. (n, d) \<in> set fs"
  by (auto simp: find_field_def find_Some_iff split: option.splits dest: map_of_SomeD) (metis nth_mem)

lemma dec_int_range: "int64_range a \<Longrightarrow> int64_range (fst (dec_int v a))"
  by (auto simp: dec_int_def dest: atoi_range split: json.splits option.splits)

lemma dec_time_is_time: "is_time a \<Longrightarrow> is_time (fst (dec_time v a))"
  by (auto simp: dec_time_def dest: time_text_is_time split: json.splits option.splits)

lemma dec_ints_range: "list_all int64_range a \<Longrightarrow> list_all int64_range (fst (dec_list 0 dec_int v a))"
  by (auto simp: dec_list_def list_all_iff intro: dec_int_range split: json.splits)

lemma dec_members_inv:
  assumes "\<And>n d v a. (n, d) \<in> set fs \<Longrightarrow> I a \<Longrightarrow> I (fst (d v a))" "I a"
  shows "I (fst (dec_members fs kvs a))"
  using assms(2)
proof (induction kvs arbitrary: a)
  case (Cons kv kvs)
  obtain k v where kv: "kv = (k, v)" by (cases kv)
  show ?case
  proof (cases "find_field fs k")
    case None
    with Cons kv show ?thesis by simp
  next
    case (Some d)
    then obtain n where "(n, d) \<in> set fs" using find_field_in by blast
    then have "I (fst (d v a))" using Cons.prems by (rule assms(1))
    with Cons.IH [of "fst (d v a)"] Some kv show ?thesis
      by (cases "d v a"; cases "dec_members fs kvs (fst (d v a))") simp
  qed
qed simp

lemma dec_struct_inv:
  assumes "\<And>n d v a. (n, d) \<in> set fs \<Longrightarrow> I a \<Longrightarrow> I (fst (d v a))" "I a"
  shows "I (fst (dec_struct fs v a))"
proof -
  have "I (fst (dec_members fs kvs a))" for kvs
    by (rule dec_members_inv) (fact assms)+
  then show ?thesis using assms(2) by (auto simp: dec_struct_def split: json.splits)
qed

lemma snapshot_fields_valid: "valid_snapshot a \<Longrightarrow> valid_snapshot (fst (dec_struct snapshot_fields v a))"
proof (rule dec_struct_inv)
  show "(n, d) \<in> set snapshot_fields \<Longrightarrow> valid_snapshot a \<Longrightarrow> valid_snapshot (fst (d v a))" for n d v a
    using dec_time_is_time [of "ns_captured_at a" v]
    by (auto simp: snapshot_fields_def dec_field_def valid_snapshot_def split: prod.splits)
qed

lemma owned_fields_valid: "valid_owned a \<Longrightarrow> valid_owned (fst (dec_struct owned_fields v a))"
proof (rule dec_struct_inv)
  show "(n, d) \<in> set owned_fields \<Longrightarrow> valid_owned a \<Longrightarrow> valid_owned (fst (d v a))" for n d v a
    using dec_ints_range [of "od_prios4 a" v] dec_ints_range [of "od_prios6 a" v]
    by (auto simp: owned_fields_def dec_field_def valid_owned_def split: prod.splits)
qed

lemma dec_ptr_valid:
  "pred_option valid_snapshot a \<Longrightarrow> pred_option valid_snapshot (fst (dec_ptr zero_snapshot (dec_struct snapshot_fields) v a))"
proof -
  assume a: "pred_option valid_snapshot a"
  have z: "valid_snapshot zero_snapshot" using is_time_zero by (simp add: valid_snapshot_def zero_snapshot_def)
  then have "valid_snapshot (case a of Some x \<Rightarrow> x | None \<Rightarrow> zero_snapshot)" using a by (cases a) simp_all
  from snapshot_fields_valid [OF this, of v]
  show ?thesis by (cases v) (auto simp: dec_ptr_def split: prod.splits)
qed

lemma journal_fields_storable:
  "(n, d) \<in> set journal_fields \<Longrightarrow> storable a \<Longrightarrow> storable (fst (d v a))"
  using dec_int_range [of "tj_schema a" v] dec_int_range [of "tj_pid a" v] dec_time_is_time [of "tj_created a" v]
    dec_time_is_time [of "tj_updated a" v] snapshot_fields_valid [of "tj_before a" v] owned_fields_valid [of "tj_owned a" v]
    dec_ptr_valid [of "tj_active a" v]
  by (auto simp: journal_fields_def dec_field_def storable_def split: prod.splits)

lemma decode_journal_storable: "decode_tunnel_journal b = Inr j \<Longrightarrow> storable j"
proof -
  have "storable zero_journal"
    using is_time_zero by (simp add: storable_def zero_journal_def valid_snapshot_def zero_snapshot_def valid_owned_def zero_delta_def)
  then have "storable (fst (dec_struct journal_fields v zero_journal))" for v
    by (rule dec_struct_inv [where I = storable, rotated]) (rule journal_fields_storable)
  with \<open>storable zero_journal\<close> have "storable (fst (unmarshal (dec_struct journal_fields) b zero_journal))"
    by (auto simp: unmarshal_def split: option.splits)
  then show "decode_tunnel_journal b = Inr j \<Longrightarrow> storable j"
    by (auto simp: decode_tunnel_journal_def split: prod.splits if_splits)
qed

section \<open>Loading\<close>

lemma dec_members_keeps:
  assumes "\<And>n d v a. (n, d) \<in> set fs \<Longrightarrow> g (fst (d v a)) = g a"
  shows "g (fst (dec_members fs kvs a)) = g a"
proof (induction kvs arbitrary: a)
  case (Cons kv kvs)
  obtain k v where kv: "kv = (k, v)" by (cases kv)
  show ?case
  proof (cases "find_field fs k")
    case None
    with Cons kv show ?thesis by simp
  next
    case (Some d)
    then obtain n where "(n, d) \<in> set fs" using find_field_in by blast
    then have "g (fst (d v a)) = g a" by (rule assms)
    with Cons [of "fst (d v a)"] Some kv show ?thesis
      by (cases "d v a"; cases "dec_members fs kvs (fst (d v a))") simp
  qed
qed simp

lemma journal_fields_keep_mark:
  "(n, d) \<in> set journal_fields \<Longrightarrow> tj_from_backup (fst (d v a)) = tj_from_backup a"
  by (auto simp: journal_fields_def dec_field_def split: prod.splits)

lemma decode_journal_mark: "decode_tunnel_journal b = Inr j \<Longrightarrow> \<not> tj_from_backup j"
proof -
  have keep: "tj_from_backup (fst (dec_members journal_fields kvs zero_journal)) = tj_from_backup zero_journal" for kvs
    by (rule dec_members_keeps) (rule journal_fields_keep_mark)
  have "\<not> tj_from_backup (fst (unmarshal (dec_struct journal_fields) b zero_journal))"
    using keep by (auto simp: unmarshal_def dec_struct_def zero_journal_def split: option.splits json.splits)
  then show "decode_tunnel_journal b = Inr j \<Longrightarrow> \<not> tj_from_backup j"
    by (auto simp: decode_tunnel_journal_def split: prod.splits if_splits)
qed

lemma recovered_storable: "storable (b\<lparr>tj_from_backup := x, tj_last_error := e\<rparr>) = storable b"
  by (simp add: storable_def)

lemma load_tunnel_journal_storable:
  assumes "load_tunnel_journal m root w = (Inr (Some j), w')"
  shows "storable j"
  using assms
proof (cases rule: load_tunnel_journal_cases)
  case (backup x pe)
  from backup(3) show ?thesis
    by (cases rule: load_backup_cases) (auto simp: recovered_storable dest: decode_journal_storable)
qed (auto dest: decode_journal_storable)

lemma load_tunnel_journal_run:
  assumes "fault_now m w = None" "w_files w (journal_path root) = Some x" "decode_tunnel_journal (f_data x) = Inr j"
  shows "load_tunnel_journal m root w = (Inr (Some j), tick w)"
  using assms read_file_run(1) [OF assms(1,2)] by (simp add: load_tunnel_journal_def)

definition recovered_from :: "gerr \<Rightarrow> journal \<Rightarrow> journal" where
  "recovered_from pe b = b\<lparr>tj_from_backup := True, tj_last_error := append_journal_error (tj_last_error b)
     (''primary network-state journal invalid; recovered previous-good: '' @ err_text pe)\<rparr>"

lemma load_backup_journal_run:
  assumes "reliable m" "w_files w (journal_backup_path root) = Some y" "decode_tunnel_journal (f_data y) = Inr b"
    and "\<And>z c. w_files w (last_clean_path root) = Some z \<Longrightarrow> decode_tunnel_journal (f_data z) = Inr c \<Longrightarrow> tj_op c \<noteq> tj_op b"
  shows "load_backup_journal m root pe w = (Inr (Some (recovered_from pe b)), tick (tick w))"
proof (cases "w_files w (last_clean_path root)")
  case None
  with assms show ?thesis
    by (simp add: load_backup_journal_def read_file_run recovered_from_def)
next
  case (Some z)
  with assms show ?thesis
    by (auto simp: load_backup_journal_def read_file_run recovered_from_def split: sum.splits)
qed

lemma journal_fallback:
  assumes "write_tunnel_journal m root j w = (Inr (), j', w')" "reliable m" "good_clock m" "storable j" "valid_journal j"
    and "w_files w (journal_path root) = Some x0" "decode_tunnel_journal (f_data x0) = Inr j0"
    and "w_files w (last_clean_path root) = None"
    and "decode_tunnel_journal (f_data junk) = Inl pe"
  shows "load_tunnel_journal m root w' = (Inr (Some (j'\<lparr>tj_from_backup := False\<rparr>)), tick w') \<and>
    fst (load_tunnel_journal m root (put_fs ((w_files w')(journal_path root \<mapsto> junk)) w')) = Inr (Some (recovered_from pe j0))"
proof -
  note ok = atomic_write_ok [OF write_tunnel_journalD(1) [OF assms(1)]]
  note f = reliable_fault [OF assms(2)]
  have new: "load_tunnel_journal m root w' = (Inr (Some (j'\<lparr>tj_from_backup := False\<rparr>)), tick w')"
    using write_tunnel_journal_stored [OF assms(1,3-5)] ok(1) f by (intro load_tunnel_journal_run) auto
  let ?w = "put_fs ((w_files w')(journal_path root \<mapsto> junk)) w'"
  have bak: "w_files w' (journal_backup_path root) = Some \<lparr>f_data = f_data x0, f_perm = f_perm x0, f_synced = True\<rparr>"
    using ok(4) f assms(6) by (simp add: journal_backup_previous_good)
  have lc: "w_files w' (last_clean_path root) = None"
    using ok(2) [of "last_clean_path root"] assms(8) by (simp flip: journal_backup_previous_good)
  have "load_backup_journal m root pe (tick ?w) = (Inr (Some (recovered_from pe j0)), tick (tick (tick ?w)))"
    using bak lc assms(2,7)
    by (intro load_backup_journal_run [where y = "\<lparr>f_data = f_data x0, f_perm = f_perm x0, f_synced = True\<rparr>"]) auto
  then have "fst (load_tunnel_journal m root ?w) = Inr (Some (recovered_from pe j0))"
    using assms(9) f by (simp add: load_tunnel_journal_def read_file_run)
  with new show ?thesis by simp
qed

section \<open>Properties\<close>

lemma good_clock_quiet [simp]: "good_clock quiet_machine"
  by (simp add: good_clock_def quiet_machine_def is_time_def time_text_def date_shape_def date_range_def
      four_digits_def two_digits_def days_in_def time_fraction_def time_zone_def digit_of_def has_prefix_def)

text \<open>What the program writes it reads back.  A journal with well-formed times and
  64-bit integers, a known phase and an operation, is decoded from its own JSON text to
  itself; only the mark of recovery from the backup is not persisted.\<close>

theorem journal_text_round_trip:
  assumes "storable j" "valid_journal j"
  shows "decode_tunnel_journal (journal_text j) = Inr (j\<lparr>tj_from_backup := False\<rparr>)"
  using assms by (rule decode_journal_text)

definition sample_journal :: journal where
  "sample_journal = zero_journal\<lparr>tj_schema := 1, tj_phase := ''prepared'', tj_op := ''7-42'',
     tj_owned := zero_delta\<lparr>od_tun := agent_tun_name, od_prios4 := [19000]\<rparr>\<rparr>"

lemma sample_journal_ok: "storable sample_journal" "valid_journal sample_journal"
  using is_time_zero
  by (simp_all add: sample_journal_def zero_journal_def storable_def valid_journal_def valid_snapshot_def
      zero_snapshot_def valid_owned_def zero_delta_def known_phase_def network_state_schema_def
      int64_range_def max_int64_def min_int64_def trim_space_def is_space_def)

lemma journal_text_round_trip_witness:
  "decode_tunnel_journal (journal_text sample_journal) = Inr sample_journal"
  using journal_text_round_trip [OF sample_journal_ok] by (simp add: sample_journal_def zero_journal_def)

text \<open>Writing the journal never leaves an unreadable one.  Whatever fails and wherever
  the machine stops during \<^verbatim>\<open>writeTunnelJournal\<close>, the journal's file is at every moment the
  file that was there before, or decodes to the new journal.\<close>

theorem journal_write_never_corrupts:
  assumes "good_clock m" "storable j" "valid_journal j"
  shows "let (r, j', w') = write_tunnel_journal m root j (w\<lparr>w_trace := []\<rparr>) in
    always (\<lambda>x. x = w_files w (journal_path root) \<or>
        (\<exists>y. x = Some y \<and> decode_tunnel_journal (f_data y) = Inr (j'\<lparr>tj_from_backup := False\<rparr>)))
      (journal_path root) w'"
proof -
  obtain r j' w' where r: "write_tunnel_journal m root j (w\<lparr>w_trace := []\<rparr>) = (r, j', w')"
    by (metis prod_cases3)
  have "always (old_or_new (w_files w (journal_path root)) (journal_text j')) (journal_path root) w'"
    by (rule atomic_write_always [OF write_tunnel_journalD(1) [OF r]]) (simp add: always_def old_or_new_def tick_def)
  moreover have "decode_tunnel_journal (journal_text j') = Inr (j'\<lparr>tj_from_backup := False\<rparr>)"
    using write_tunnel_journal_stored [OF r assms] by blast
  ultimately show ?thesis
    unfolding r by (auto simp: old_or_new_def elim!: always_mono)
qed

lemma journal_write_never_corrupts_witness:
  "let (r, j', w') = write_tunnel_journal quiet_machine ''/s'' sample_journal ((world_of [] ())\<lparr>w_trace := []\<rparr>) in
    always (\<lambda>x. x = None \<or>
        (\<exists>y. x = Some y \<and> decode_tunnel_journal (f_data y) = Inr (j'\<lparr>tj_from_backup := False\<rparr>)))
      (journal_path ''/s'') w'"
proof -
  from journal_write_never_corrupts [OF good_clock_quiet sample_journal_ok, of "''/s''" "world_of [] ()"]
  show ?thesis by (simp add: world_of_def)
qed

text \<open>C17: what \<^verbatim>\<open>loadTunnelJournal\<close> returns is sound.  A returned journal has the known
  schema, an operation and a known phase.  Either it is the decoded primary file; or the
  primary file is invalid and it is the decoded backup, marked and with the reason added to
  its last error, and then (if the last-clean record could be read) not a backup of the
  operation that was finalised last.  Loading changes nothing.\<close>

theorem load_journal_sound:
  assumes "load_tunnel_journal m root w = (Inr (Some j), w')"
  shows "valid_journal j \<and> w_files w' = w_files w \<and> w_log w' = w_log w \<and>
    (if \<not> tj_from_backup j
     then \<exists>x. w_files w (journal_path root) = Some x \<and> decode_tunnel_journal (f_data x) = Inr j
     else \<exists>x pe y b. w_files w (journal_path root) = Some x \<and> decode_tunnel_journal (f_data x) = Inl pe \<and>
            w_files w (journal_backup_path root) = Some y \<and> decode_tunnel_journal (f_data y) = Inr b \<and>
            j = recovered_from pe b \<and>
            (case w_files w (last_clean_path root) of
               None \<Rightarrow> True
             | Some z \<Rightarrow> fault_now m (tick (tick w)) = None \<longrightarrow>
                 (case decode_tunnel_journal (f_data z) of Inl _ \<Rightarrow> True | Inr c \<Rightarrow> tj_op c \<noteq> tj_op j)))"
  using assms
proof (cases rule: load_tunnel_journal_cases)
  case (primary x j')
  then show ?thesis
    using assms load_tunnel_journal_valid [OF assms] load_tunnel_journal_frame [OF assms]
    by (auto simp: same_env_def dest: decode_journal_mark)
next
  case (backup x pe)
  from backup(3) show ?thesis
  proof (cases rule: load_backup_cases)
    case (loaded b y)
    have j: "j = recovered_from pe b" "tj_from_backup j" "tj_op j = tj_op b"
      using loaded(3) by (simp_all add: recovered_from_def)
    have "case w_files w (last_clean_path root) of
               None \<Rightarrow> True
             | Some z \<Rightarrow> fault_now m (tick (tick w)) = None \<longrightarrow>
                 (case decode_tunnel_journal (f_data z) of Inl _ \<Rightarrow> True | Inr c \<Rightarrow> tj_op c \<noteq> tj_op j)"
      using loaded(4) j(3) by (auto split: option.splits sum.splits)
    then show ?thesis
      using loaded(1,2) backup j load_tunnel_journal_valid [OF assms] load_tunnel_journal_frame [OF assms]
      by (auto simp: same_env_def)
  qed simp
qed simp_all

lemma load_stored:
  assumes "reliable m" "storable j" "valid_journal j" "\<not> tj_from_backup j"
  shows "load_tunnel_journal m root (world_of [(journal_path root, journal_text j)] k) =
     (Inr (Some j), tick (world_of [(journal_path root, journal_text j)] k))"
proof (rule load_tunnel_journal_run)
  show "decode_tunnel_journal (f_data \<lparr>f_data = journal_text j, f_perm = 384, f_synced = True\<rparr>) = Inr j"
    using decode_journal_text [OF assms(2,3)] assms(4) by simp
qed (use assms(1) in \<open>simp_all add: world_of_def\<close>)

lemma sample_load:
  "load_tunnel_journal quiet_machine ''/s'' (world_of [(journal_path ''/s'', journal_text sample_journal)] ()) =
     (Inr (Some sample_journal), tick (world_of [(journal_path ''/s'', journal_text sample_journal)] ()))"
  by (rule load_stored [OF reliable_quiet sample_journal_ok]) (simp add: sample_journal_def zero_journal_def)

lemma load_journal_sound_witness:
  "\<exists>w'. load_tunnel_journal quiet_machine ''/s'' (world_of [(journal_path ''/s'', journal_text sample_journal)] ()) =
     (Inr (Some sample_journal), w') \<and> tj_schema sample_journal = network_state_schema \<and> w_log w' = []"
proof -
  let ?w = "world_of [(journal_path ''/s'', journal_text sample_journal)] ()"
  from load_journal_sound [OF sample_load] have "valid_journal sample_journal \<and> w_log (tick ?w) = w_log ?w" by blast
  with sample_load show ?thesis by (simp add: valid_journal_def world_of_def)
qed


lemma no_temps_tick [simp]: "no_temps p (tick w) = no_temps p w"
  by (simp add: no_temps_def)


text \<open>Finalising keeps the evidence until the clean record is on disk.  In
  \<^verbatim>\<open>persistCleanJournal\<close>, whatever fails and wherever the machine stops, at every moment the
  open journal is still there unchanged or the last-clean file holds the complete
  finalised journal; and on success the open journal and its backup are gone, so that
  loading finds no open transaction.\<close>

theorem persist_clean_keeps_evidence:
  "let (r, w') = persist_clean_journal m root j (w\<lparr>w_trace := []\<rparr>);
       d = journal_text (j\<lparr>tj_updated := t_rfc (m_clock m (w_tick w)), tj_from_backup := False\<rparr>)
   in clean_before_removal root (w_files w (journal_path root)) d w' \<and>
      (r = Inr () \<longrightarrow>
        w_files w' (journal_path root) = None \<and> w_files w' (journal_backup_path root) = None \<and>
        map_option f_data (w_files w' (last_clean_path root)) = Some d)"
proof -
  obtain r w' where p: "persist_clean_journal m root j (w\<lparr>w_trace := []\<rparr>) = (r, w')" by fastforce
  let ?d = "journal_text (j\<lparr>tj_updated := t_rfc (m_clock m (w_tick w)), tj_from_backup := False\<rparr>)"
  have "clean_before_removal root (w_files w (journal_path root)) ?d w'"
    by (rule persist_clean_order [OF p]) (simp_all add: always_def)
  moreover have "w_files w' (journal_path root) = None \<and> w_files w' (journal_backup_path root) = None \<and>
        map_option f_data (w_files w' (last_clean_path root)) = Some ?d" if "r = Inr ()"
    using persist_clean_ok [OF p [unfolded that(1)]] by simp
  ultimately show ?thesis by (simp add: p Let_def)
qed

lemma persist_clean_keeps_evidence_witness:
  "let (r, w') = persist_clean_journal quiet_machine ''/s'' sample_journal (world_of [] ()) in
     r = Inr () \<and> w_files w' (journal_path ''/s'') = None"
proof -
  let ?w = "world_of [] () :: unit world"
  have "no_temps (last_clean_path ''/s'') (tick ?w)" "no_temps (previous_good (last_clean_path ''/s'')) (tick ?w)"
    by (simp_all add: no_temps_def world_of_def)
  then obtain w' where a: "atomic_write quiet_machine (last_clean_path ''/s'')
      (journal_text (sample_journal\<lparr>tj_updated := t_rfc (m_clock quiet_machine 0), tj_from_backup := False\<rparr>)) 384 (tick ?w) = (Inr (), w')"
    using atomic_write_succeeds [OF reliable_quiet] journal_path_nonempty(2) by blast
  have rm: "\<exists>w2. remove_if_present quiet_machine p w1 = (Inr (), w2)" for p and w1 :: "unit world"
    by (cases "w_files w1 p") (simp_all add: remove_if_present_def remove_file_def)
  obtain w2 where w2: "remove_if_present quiet_machine (journal_path ''/s'') w' = (Inr (), w2)" using rm by blast
  obtain w3 where w3: "remove_if_present quiet_machine (journal_backup_path ''/s'') w2 = (Inr (), w3)" using rm by blast
  have "w_tick ?w = 0" by (simp add: world_of_def)
  then have "\<exists>w''. persist_clean_journal quiet_machine ''/s'' sample_journal ?w = (Inr (), w'')"
    by (simp add: persist_clean_journal_def now_def Let_def a w2 w3)
  then obtain w'' where w'': "persist_clean_journal quiet_machine ''/s'' sample_journal (?w\<lparr>w_trace := []\<rparr>) = (Inr (), w'')"
    by (auto simp: world_of_def)
  with persist_clean_keeps_evidence [of quiet_machine "''/s''" sample_journal ?w]
  have "w_files w'' (journal_path ''/s'') = None" by (simp add: Let_def)
  with w'' show ?thesis by (simp add: world_of_def)
qed

end
