(* ===== verification/Platform.thy ===== *)
theory Platform imports RouteOwnership begin

text \<open>
  The operating system behind the crash journal: \<^verbatim>\<open>network_state_{linux,windows,other}.go\<close>,
  \<^verbatim>\<open>process_identity_{linux,other}.go\<close> and the privilege broker of
  \<^verbatim>\<open>tunnel_host_linux.go\<close>.  External commands are executed through \<^const>\<open>exec_cmd\<close>; what
  they do is the machine's.  The build tags of the Go files are the argument \<open>pf\<close>.
\<close>

section \<open>Commands and observations\<close>

definition command_lines :: "'k machine \<Rightarrow> string list \<Rightarrow> 'k world \<Rightarrow> string list res \<times> 'k world" where
  "command_lines m argv w =
     (case exec_cmd m argv w of
        ((out, Some e), w1) \<Rightarrow> (Inl (wrap_out (str_join argv '' '' @ '': '') e (trim_space out)), w1)
      | ((out, None), w1) \<Rightarrow> (Inr (normalized_lines out), w1))"

definition host_file :: "'k machine \<Rightarrow> string \<Rightarrow> 'k world \<Rightarrow> (gerr + string) \<times> 'k world" where
  "host_file m p w = observe m (\<lambda>k. m_host_file m k p) w"

definition look_path :: "'k machine \<Rightarrow> string \<Rightarrow> 'k world \<Rightarrow> string option \<times> 'k world" where
  "look_path m name w = observe m (\<lambda>k. m_lookpath m k name) w"

text \<open>Output of a command that may be missing or fail: nothing then.\<close>

definition optional_output :: "'k machine \<Rightarrow> string list \<Rightarrow> 'k world \<Rightarrow> string list \<times> 'k world" where
  "optional_output m argv w =
     (case look_path m (hd argv) w of
        (None, w1) \<Rightarrow> ([], w1)
      | (Some _, w1) \<Rightarrow> (case exec_cmd m argv w1 of
            ((out, None), w2) \<Rightarrow> ([out], w2)
          | ((_, Some _), w2) \<Rightarrow> ([], w2)))"

section \<open>Snapshots\<close>

definition empty_snapshot :: "platform \<Rightarrow> 'k machine \<Rightarrow> 'k world \<Rightarrow> snapshot \<times> 'k world" where
  "empty_snapshot pf m w =
     (let (t, w1) = now m w in (zero_snapshot\<lparr>ns_captured_at := t_rfc t, ns_platform := goos pf\<rparr>, w1))"

definition route_show :: "string \<Rightarrow> string list" where
  "route_show family = [''ip'', ''-o'', family, ''route'', ''show'', ''table'', ''all'']"

definition rule_show :: "string \<Rightarrow> string list" where
  "rule_show family = [''ip'', ''-o'', family, ''rule'', ''show'']"

definition capture_linux :: "'k machine \<Rightarrow> 'k world \<Rightarrow> snapshot res \<times> 'k world" where
  "capture_linux m w =
     (let (s, w0) = empty_snapshot Linux m w in
      case command_lines m (route_show ''-4'') w0 of (Inl e, w1) \<Rightarrow> (Inl e, w1) | (Inr r4, w1) \<Rightarrow>
     (case command_lines m (route_show ''-6'') w1 of (Inl e, w2) \<Rightarrow> (Inl e, w2) | (Inr r6, w2) \<Rightarrow>
     (case command_lines m (rule_show ''-4'') w2 of (Inl e, w3) \<Rightarrow> (Inl e, w3) | (Inr u4, w3) \<Rightarrow>
     (case command_lines m (rule_show ''-6'') w3 of (Inl e, w4) \<Rightarrow> (Inl e, w4) | (Inr u6, w4) \<Rightarrow>
     (let (resolv, w5) = host_file m ''/etc/resolv.conf'' w4;
          (rd, w6) = optional_output m [''resolvectl'', ''dns''] w5;
          dns_parts = (case resolv of Inr b \<Rightarrow> [b] | Inl _ \<Rightarrow> []) @ rd;
          (nft, w7) = optional_output m [''nft'', ''list'', ''ruleset''] w6
      in (Inr (s\<lparr>ns_routes4 := r4, ns_routes6 := r6, ns_rules4 := u4, ns_rules6 := u6,
                 ns_dns := (if dns_parts = [] then [] else fingerprint dns_parts),
                 ns_firewall := (case nft of [] \<Rightarrow> [] | out # _ \<Rightarrow> fingerprint [out])\<rparr>), w7))))))"

definition capture_windows :: "'k machine \<Rightarrow> 'k world \<Rightarrow> snapshot res \<times> 'k world" where
  "capture_windows m w =
     (let (s, w0) = empty_snapshot Windows m w in
      case exec_cmd m [''route'', ''print'', ''-4''] w0 of
        ((out, Some e), w1) \<Rightarrow> (Inl (wrap_out ''route print -4: '' e (trim_space out)), w1)
      | ((out4, None), w1) \<Rightarrow>
     (case exec_cmd m [''route'', ''print'', ''-6''] w1 of
        ((out, Some e), w2) \<Rightarrow> (Inl (wrap_out ''route print -6: '' e (trim_space out)), w2)
      | ((out6, None), w2) \<Rightarrow>
     (let ((dns, de), w3) = exec_cmd m [''ipconfig'', ''/all''] w2;
          ((fw, fe), w4) = exec_cmd m [''netsh'', ''advfirewall'', ''show'', ''allprofiles''] w3
      in (Inr (s\<lparr>ns_routes4 := normalized_lines out4, ns_routes6 := normalized_lines out6,
                 ns_dns := (if de = None then fingerprint [dns] else []),
                 ns_firewall := (if fe = None then fingerprint [fw] else [])\<rparr>), w4))))"

definition capture_snapshot :: "platform \<Rightarrow> 'k machine \<Rightarrow> 'k world \<Rightarrow> snapshot res \<times> 'k world" where
  "capture_snapshot pf m w =
     (case pf of
        Linux \<Rightarrow> capture_linux m w
      | Windows \<Rightarrow> capture_windows m w
      | Other_os _ \<Rightarrow> (let (s, w1) = empty_snapshot pf m w in (Inr s, w1)))"

section \<open>Processes\<close>

definition tasklist_cmd :: "int \<Rightarrow> string list" where
  "tasklist_cmd pid = [''tasklist'', ''/FI'', ''PID eq '' @ itoa pid, ''/FO'', ''CSV'', ''/NH'']"

definition platform_process_alive :: "platform \<Rightarrow> 'k machine \<Rightarrow> int \<Rightarrow> 'k world \<Rightarrow> bool \<times> 'k world" where
  "platform_process_alive pf m pid w =
     (case pf of
        Linux \<Rightarrow>
          if pid \<le> 0 then (False, w)
          else (let (e, w1) = observe m (\<lambda>k. m_proc_dir m k pid) w
                in (case e of None \<Rightarrow> True | Some err \<Rightarrow> err_kind err \<noteq> NotExist, w1))
      | Windows \<Rightarrow>
          if pid \<le> 0 then (False, w)
          else (case exec_cmd m (tasklist_cmd pid) w of
                  ((out, Some e), w1) \<Rightarrow> (False, w1)
                | ((out, None), w1) \<Rightarrow>
                    (let text = to_lower out
                     in (\<not> str_contains text ''no tasks are running'' \<and> str_contains text (itoa pid), w1)))
      | Other_os _ \<Rightarrow> (False, w))"

text \<open>\<^verbatim>\<open>strings.LastIndex\<close>.\<close>

fun str_last_index :: "string \<Rightarrow> string \<Rightarrow> nat option" where
  "str_last_index [] p = (if p = [] then Some 0 else None)"
| "str_last_index (c # s) p =
     (case str_last_index s p of
        Some i \<Rightarrow> Some (Suc i)
      | None \<Rightarrow> if has_prefix (c # s) p then Some 0 else None)"

text \<open>The start time in a line of \<^verbatim>\<open>/proc/<pid>/stat\<close>: field 22, after the command name in
  parentheses, which may itself contain anything.\<close>

definition stat_start_time :: "int \<Rightarrow> string \<Rightarrow> string res" where
  "stat_start_time pid line =
     (case str_last_index line '') '' of
        None \<Rightarrow> Inl (new_err (''malformed /proc/'' @ itoa pid @ ''/stat''))
      | Some i \<Rightarrow>
          if length line \<le> i + 2 then Inl (new_err (''malformed /proc/'' @ itoa pid @ ''/stat''))
          else (let f = str_fields (drop (i + 2) line)
                in if length f \<le> 19 \<or> f ! 0 = [] then Inl (new_err (''missing start time in /proc/'' @ itoa pid @ ''/stat''))
                   else Inr (f ! 19)))"

definition platform_process_identity :: "platform \<Rightarrow> 'k machine \<Rightarrow> int \<Rightarrow> 'k world \<Rightarrow> string res \<times> 'k world" where
  "platform_process_identity pf m pid w =
     (if pf \<noteq> Linux then (Inr [], w)
      else if pid \<le> 0 then (Inl (new_err (''invalid PID '' @ itoa pid)), w)
      else (case observe m (\<lambda>k. m_proc_stat m k pid) w of
              (Inl e, w1) \<Rightarrow> (Inl e, w1)
            | (Inr line, w1) \<Rightarrow> (stat_start_time pid line, w1)))"

section \<open>Recovery of owned state\<close>

definition rule_del :: "string \<Rightarrow> int \<Rightarrow> string list" where
  "rule_del family p = [''ip'', family, ''rule'', ''del'', ''priority'', itoa p]"

definition route_flush :: "string \<Rightarrow> string \<Rightarrow> string list" where
  "route_flush family t = [''ip'', family, ''route'', ''flush'', ''table'', t]"

definition link_delete :: "string list" where
  "link_delete = [''ip'', ''link'', ''delete'', agent_tun_name]"

text \<open>At most eight rules of one priority are deleted, until there is none left.\<close>

fun delete_rule_loop :: "nat \<Rightarrow> 'k machine \<Rightarrow> string \<Rightarrow> int \<Rightarrow> 'k world \<Rightarrow> gerr option \<times> 'k world" where
  "delete_rule_loop 0 m family p w = (None, w)"
| "delete_rule_loop (Suc n) m family p w =
     (case exec_cmd m (rule_del family p) w of
        ((out, None), w1) \<Rightarrow> delete_rule_loop n m family p w1
      | ((out, Some e), w1) \<Rightarrow>
          (let text = to_lower out
           in if str_contains text ''no such file'' \<or> str_contains text ''not found'' \<or>
                 str_contains text ''cannot find'' \<or> trim_space out = []
              then (None, w1)
              else (Some (wrap_out (''delete '' @ family @ '' rule priority '' @ itoa p @ '': '') e (trim_space out)), w1)))"

definition delete_rule_priority :: "'k machine \<Rightarrow> string \<Rightarrow> int \<Rightarrow> 'k world \<Rightarrow> gerr option \<times> 'k world" where
  "delete_rule_priority m family p w =
     (case command_lines m (rule_show family) w of
        (Inl e, w1) \<Rightarrow> (Some e, w1)
      | (Inr lines, w1) \<Rightarrow>
          if list_ex (\<lambda>l. rule_priority l = Some p) lines then delete_rule_loop 8 m family p w1
          else (None, w1))"

definition flush_route_table :: "'k machine \<Rightarrow> string \<Rightarrow> string \<Rightarrow> 'k world \<Rightarrow> gerr option \<times> 'k world" where
  "flush_route_table m family t w =
     (case command_lines m (route_show family) w of
        (Inl e, w1) \<Rightarrow> (Some e, w1)
      | (Inr lines, w1) \<Rightarrow>
          if \<not> list_ex (\<lambda>l. route_table l = t) lines then (None, w1)
          else (case exec_cmd m (route_flush family t) w1 of
                  ((out, None), w2) \<Rightarrow> (None, w2)
                | ((out, Some e), w2) \<Rightarrow>
                    (let text = to_lower out
                     in if str_contains text ''fib table does not exist'' \<or> str_contains text ''no such file'' \<or>
                           str_contains text ''not found''
                        then (None, w2)
                        else (Some (wrap_out (''flush '' @ family @ '' route table '' @ t @ '': '') e (trim_space out)), w2))))"

text \<open>A loop over owned objects: it stops at the first error; the actions so far are
  reported in either case.\<close>

fun each_owned ::
  "('a \<Rightarrow> 'k world \<Rightarrow> gerr option \<times> 'k world) \<Rightarrow> ('a \<Rightarrow> string) \<Rightarrow> 'a list \<Rightarrow> 'k world \<Rightarrow> (string list \<times> gerr option) \<times> 'k world" where
  "each_owned f msg [] w = (([], None), w)"
| "each_owned f msg (x # xs) w =
     (case f x w of
        (Some e, w1) \<Rightarrow> (([], Some e), w1)
      | (None, w1) \<Rightarrow> (case each_owned f msg xs w1 of ((acts, e), w2) \<Rightarrow> ((msg x # acts, e), w2)))"

definition fingerprint_notes :: "string \<Rightarrow> string \<Rightarrow> owned_delta \<Rightarrow> string list" where
  "fingerprint_notes fw dns d = (if od_fw_changed d then [fw] else []) @ (if od_dns_changed d then [dns] else [])"

text \<open>Steps one after the other: the first error ends the recovery.\<close>

fun run_steps ::
  "('k world \<Rightarrow> (string list \<times> gerr option) \<times> 'k world) list \<Rightarrow> 'k world \<Rightarrow> (string list \<times> gerr option) \<times> 'k world" where
  "run_steps [] w = (([], None), w)"
| "run_steps (f # fs) w =
     (case f w of
        ((a, Some e), w1) \<Rightarrow> ((a, Some e), w1)
      | ((a, None), w1) \<Rightarrow> (case run_steps fs w1 of ((b, e), w2) \<Rightarrow> ((a @ b, e), w2)))"

definition delete_owned_tun :: "'k machine \<Rightarrow> 'k world \<Rightarrow> (string list \<times> gerr option) \<times> 'k world" where
  "delete_owned_tun m w =
     (case iface_by_name m agent_tun_name w of
        (None, w1) \<Rightarrow> (([], None), w1)
      | (Some _, w1) \<Rightarrow>
          (case exec_cmd m link_delete w1 of
             ((out, Some e), w2) \<Rightarrow>
               (([], Some (wrap_out (''delete owned TUN '' @ agent_tun_name @ '': '') e (trim_space out))), w2)
           | ((out, None), w2) \<Rightarrow> (([''deleted owned TUN interface '' @ agent_tun_name], None), w2)))"

definition recover_linux :: "'k machine \<Rightarrow> owned_delta \<Rightarrow> 'k world \<Rightarrow> (string list \<times> gerr option) \<times> 'k world" where
  "recover_linux m d w = run_steps
     [delete_owned_tun m,
      each_owned (delete_rule_priority m ''-4'')
        (\<lambda>p. ''removed owned IPv4 rule priority '' @ itoa p @ '' if present'') (od_prios4 d),
      each_owned (delete_rule_priority m ''-6'')
        (\<lambda>p. ''removed owned IPv6 rule priority '' @ itoa p @ '' if present'') (od_prios6 d),
      each_owned (flush_route_table m ''-4'') (\<lambda>t. ''flushed owned IPv4 route table '' @ t) (od_tables4 d),
      each_owned (flush_route_table m ''-6'') (\<lambda>t. ''flushed owned IPv6 route table '' @ t) (od_tables6 d),
      \<lambda>w'. ((fingerprint_notes
        ''firewall fingerprint changed during operation; left untouched because ownership is not proven''
        ''DNS fingerprint changed during operation; left untouched because ownership is not proven'' d, None), w')] w"

definition recover_windows :: "'k machine \<Rightarrow> owned_delta \<Rightarrow> 'k world \<Rightarrow> (string list \<times> gerr option) \<times> 'k world" where
  "recover_windows m d w =
     (case iface_by_name m agent_tun_name w of
        (Some _, w1) \<Rightarrow>
          (([], Some (new_err (''stale '' @ agent_tun_name @ '' still exists on Windows; automatic deletion is intentionally disabled because interface ownership cannot yet be proven strongly enough''))), w1)
      | (None, w1) \<Rightarrow>
          (([''previous helper is gone and antigravity-tun is absent; Windows route state left untouched''] @
            fingerprint_notes ''firewall fingerprint changed; no automatic rollback without ownership proof''
              ''DNS fingerprint changed; no automatic rollback without ownership proof'' d, None), w1))"

definition recover_owned ::
  "platform \<Rightarrow> 'k machine \<Rightarrow> owned_delta \<Rightarrow> 'k world \<Rightarrow> (string list \<times> gerr option) \<times> 'k world" where
  "recover_owned pf m d w =
     (case pf of
        Linux \<Rightarrow> recover_linux m d w
      | Windows \<Rightarrow> recover_windows m d w
      | Other_os _ \<Rightarrow> (([], Some (new_err ''automatic tunnel network-state recovery is unsupported on this platform'')), w))"

section \<open>The privilege broker\<close>

definition host_stat :: "'k machine \<Rightarrow> string \<Rightarrow> 'k world \<Rightarrow> (gerr + hstat) \<times> 'k world" where
  "host_stat m p w = observe m (\<lambda>k. m_host_stat m k p) w"

text \<open>\<^verbatim>\<open>findLinuxCommand\<close>: the search path, else the first usable of the given paths; the
  empty string when there is none.\<close>

fun first_executable :: "'k machine \<Rightarrow> string list \<Rightarrow> 'k world \<Rightarrow> string \<times> 'k world" where
  "first_executable m [] w = ([], w)"
| "first_executable m (p # ps) w =
     (case host_stat m p w of
        (Inr st, w1) \<Rightarrow> if \<not> hs_dir st \<and> hs_exec st then (p, w1) else first_executable m ps w1
      | (Inl _, w1) \<Rightarrow> first_executable m ps w1)"

definition find_linux_command :: "'k machine \<Rightarrow> string \<Rightarrow> string list \<Rightarrow> 'k world \<Rightarrow> string \<times> 'k world" where
  "find_linux_command m name absolute w =
     (case look_path m name w of
        (Some p, w1) \<Rightarrow> (if path_is_abs p then path_clean p else path_join (m_cwd m) p, w1)
      | (None, w1) \<Rightarrow> first_executable m absolute w1)"

definition run_privilege_broker :: "'k machine \<Rightarrow> string \<Rightarrow> string list \<Rightarrow> 'k world \<Rightarrow> gerr option \<times> 'k world" where
  "run_privilege_broker m command args w =
     (let (pkexec, w1) = find_linux_command m ''pkexec'' [''/usr/bin/pkexec''] w;
          (pk, w2) =
            (if pkexec = [] then (None, w1)
             else (case exec_cmd m (pkexec # command # args) w1 of
                     ((out, None), w') \<Rightarrow> (Some None, w')
                   | ((out, Some e), w') \<Rightarrow>
                       (Some (Some (wrap_out ''PolicyKit authorization failed: '' e (trim_space out))), w')))
      in if pk = Some None then (None, w2)
         else (let pk_err = (case pk of Some (Some e) \<Rightarrow> Some e | _ \<Rightarrow> None);
                   (sudo, w3) = find_linux_command m ''sudo'' [''/usr/bin/sudo'', ''/bin/sudo''] w2;
                   fallback = (case pk_err of
                       Some e \<Rightarrow> e
                     | None \<Rightarrow> new_err ''no usable privilege broker found: install PolicyKit/pkexec or launch AntigravitiProxi from a terminal with sudo available'')
               in if sudo \<noteq> [] \<and> m_stdin_tty m
                  then (case exec_cmd m (sudo # ''--'' # command # args) w3 of
                          ((_, None), w4) \<Rightarrow> (None, w4)
                        | ((_, Some e), w4) \<Rightarrow>
                            (Some (if pk_err = None then wrap_err ''sudo authorization failed: '' e else fallback), w4))
                  else (Some fallback, w3)))"

definition network_mutation_permission_error :: "string \<Rightarrow> bool" where
  "network_mutation_permission_error detail =
     (let d = to_lower detail
      in str_contains d ''operation not permitted'' \<or> str_contains d ''permission denied'' \<or> str_contains d ''eperm'')"

text \<open>The result of the privileged fallback: done, the cause itself, or another error.\<close>

datatype priv_result = Priv_done "string list" | Priv_cause | Priv_failed gerr

type_synonym ctx = "nat \<Rightarrow> gerr option"

definition try_privileged_recovery ::
  "platform \<Rightarrow> 'k machine \<Rightarrow> ctx \<Rightarrow> string \<Rightarrow> gerr \<Rightarrow> 'k world \<Rightarrow> priv_result \<times> 'k world" where
  "try_privileged_recovery pf m ctx jpath cause w =
     (if pf \<noteq> Linux then (Priv_cause, w)
      else if \<not> network_mutation_permission_error (err_text cause) then (Priv_cause, w)
      else (case ctx (w_tick w) of
        Some e \<Rightarrow> (Priv_failed e, w)
      | None \<Rightarrow> (case m_self m of
          Inl e \<Rightarrow> (Priv_failed (wrap_err ''resolve control-plane executable for privileged recovery: '' e), w)
        | Inr self \<Rightarrow>
            (case run_privilege_broker m self [''__linux-privileged-recover'', jpath] w of
               (Some e, w1) \<Rightarrow> (Priv_failed e, w1)
             | (None, w1) \<Rightarrow> (Priv_done [''privileged helper removed reserved Agent Tunnel network state''], w1)))))"

section \<open>Which commands an operation runs\<close>

text \<open>\<open>runs A w w'\<close>: between the two worlds only commands in \<open>A\<close> were executed.
  \<open>observes A w w'\<close>: and no file of the program changed.\<close>

definition runs :: "(string list \<Rightarrow> bool) \<Rightarrow> 'k world \<Rightarrow> 'k world \<Rightarrow> bool" where
  "runs A w w' \<longleftrightarrow> (\<exists>cs. w_log w' = w_log w @ cs \<and> list_all A cs)"

definition observes :: "(string list \<Rightarrow> bool) \<Rightarrow> 'k world \<Rightarrow> 'k world \<Rightarrow> bool" where
  "observes A w w' \<longleftrightarrow> runs A w w' \<and> w_files w' = w_files w \<and> w_trace w' = w_trace w \<and> outs w' = outs w"

lemma runs_refl [simp]: "runs A w w"
  by (simp add: runs_def)

lemma runs_trans [trans]: "runs A w w1 \<Longrightarrow> runs A w1 w2 \<Longrightarrow> runs A w w2"
  by (auto simp: runs_def)

lemma runs_mono: "runs A w w' \<Longrightarrow> (\<And>c. A c \<Longrightarrow> B c) \<Longrightarrow> runs B w w'"
  by (auto simp: runs_def list_all_iff)

lemma runs_same_env: "same_env w w' \<Longrightarrow> runs A w w'"
  by (simp add: runs_def same_env_def)

lemma runs_tick [simp]: "runs A w (tick w1) = runs A w w1" "runs A (tick w) w1 = runs A w w1"
  by (simp_all add: runs_def)

lemma observes_refl [simp]: "observes A w w"
  by (simp add: observes_def)

lemma observes_trans [trans]: "observes A w w1 \<Longrightarrow> observes A w1 w2 \<Longrightarrow> observes A w w2"
  by (auto simp: observes_def intro: runs_trans)

lemma observes_mono: "observes A w w' \<Longrightarrow> (\<And>c. A c \<Longrightarrow> B c) \<Longrightarrow> observes B w w'"
  by (auto simp: observes_def intro: runs_mono)

lemma observes_tick [simp]: "observes A w (tick w1) = observes A w w1" "observes A (tick w) w1 = observes A w w1"
  by (simp_all add: observes_def)

lemma observes_runs: "observes A w w' \<Longrightarrow> runs A w w'"
  by (simp add: observes_def)

lemma observe_observes: "observe m f w = (r, w') \<Longrightarrow> observes A w w'"
  by (auto simp: observes_def runs_def dest: observeD)

lemma exec_observes: "exec_cmd m c w = (r, w') \<Longrightarrow> A c \<Longrightarrow> observes A w w'"
  by (auto simp: observes_def runs_def dest: exec_cmdD)

lemma iface_observes: "iface_by_name m n w = (r, w') \<Longrightarrow> observes A w w'"
  unfolding iface_by_name_def by (rule observe_observes)

lemma look_path_observes: "look_path m n w = (r, w') \<Longrightarrow> observes A w w'"
  unfolding look_path_def by (rule observe_observes)

lemma host_file_observes: "host_file m n w = (r, w') \<Longrightarrow> observes A w w'"
  unfolding host_file_def by (rule observe_observes)

lemma host_stat_observes: "host_stat m n w = (r, w') \<Longrightarrow> observes A w w'"
  unfolding host_stat_def by (rule observe_observes)

lemma command_lines_observes: "command_lines m c w = (r, w') \<Longrightarrow> A c \<Longrightarrow> observes A w w'"
  by (auto simp: command_lines_def split: prod.splits option.splits dest: exec_observes)

lemma optional_output_observes: "optional_output m c w = (r, w') \<Longrightarrow> A c \<Longrightarrow> observes A w w'"
  by (auto simp: optional_output_def split: prod.splits option.splits
      dest: exec_observes look_path_observes intro: observes_trans)

text \<open>The commands that only read.\<close>

definition read_only_cmd :: "string list \<Rightarrow> bool" where
  "read_only_cmd c \<longleftrightarrow>
     c \<in> {route_show ''-4'', route_show ''-6'', rule_show ''-4'', rule_show ''-6'', [''resolvectl'', ''dns''],
           [''nft'', ''list'', ''ruleset''], [''route'', ''print'', ''-4''], [''route'', ''print'', ''-6''],
           [''ipconfig'', ''/all''], [''netsh'', ''advfirewall'', ''show'', ''allprofiles'']} \<or>
     (\<exists>pid. c = tasklist_cmd pid)"

lemma read_only_cmds [simp]:
  "read_only_cmd (route_show ''-4'')" "read_only_cmd (route_show ''-6'')" "read_only_cmd (rule_show ''-4'')"
  "read_only_cmd (rule_show ''-6'')" "read_only_cmd [''resolvectl'', ''dns'']" "read_only_cmd [''nft'', ''list'', ''ruleset'']"
  "read_only_cmd [''route'', ''print'', ''-4'']" "read_only_cmd [''route'', ''print'', ''-6'']"
  "read_only_cmd [''ipconfig'', ''/all'']" "read_only_cmd [''netsh'', ''advfirewall'', ''show'', ''allprofiles'']"
  "read_only_cmd (tasklist_cmd pid)"
  by (auto simp: read_only_cmd_def)

text \<open>The commands that a record of ownership allows on Linux.\<close>

definition owned_cmd :: "owned_delta \<Rightarrow> string list \<Rightarrow> bool" where
  "owned_cmd d c \<longleftrightarrow> c = link_delete \<or>
     (\<exists>p\<in>set (od_prios4 d). c = rule_del ''-4'' p) \<or> (\<exists>p\<in>set (od_prios6 d). c = rule_del ''-6'' p) \<or>
     (\<exists>t\<in>set (od_tables4 d). c = route_flush ''-4'' t) \<or> (\<exists>t\<in>set (od_tables6 d). c = route_flush ''-6'' t)"

definition recovery_cmd :: "owned_delta \<Rightarrow> string list \<Rightarrow> bool" where
  "recovery_cmd d c \<longleftrightarrow> read_only_cmd c \<or> owned_cmd d c"

lemma empty_snapshotD: "empty_snapshot pf m w = (s, w') \<Longrightarrow>
   w' = tick w \<and> s = zero_snapshot\<lparr>ns_captured_at := t_rfc (m_clock m (w_tick w)), ns_platform := goos pf\<rparr>"
  by (auto simp: empty_snapshot_def now_def Let_def)

lemma capture_linux_observes: "capture_linux m w = (r, w') \<Longrightarrow> observes read_only_cmd w w'"
  by (auto simp: capture_linux_def Let_def split: prod.splits sum.splits
      dest!: empty_snapshotD command_lines_observes [where A = read_only_cmd] host_file_observes [where A = read_only_cmd]
        optional_output_observes [where A = read_only_cmd]) ((drule (1) observes_trans)+, assumption)+

lemma capture_windows_observes: "capture_windows m w = (r, w') \<Longrightarrow> observes read_only_cmd w w'"
  by (auto simp: capture_windows_def Let_def split: prod.splits option.splits
      dest!: empty_snapshotD exec_observes [where A = read_only_cmd]) (meson observes_trans)+

lemma capture_observes: "capture_snapshot pf m w = (r, w') \<Longrightarrow> observes read_only_cmd w w'"
  by (cases pf) (auto simp: capture_snapshot_def Let_def split: prod.splits
      dest: capture_linux_observes capture_windows_observes empty_snapshotD)

lemma capture_time:
  "capture_snapshot pf m w = (Inr s, w') \<Longrightarrow> ns_captured_at s = t_rfc (m_clock m (w_tick w))"
  by (cases pf) (auto simp: capture_snapshot_def capture_linux_def capture_windows_def Let_def
      split: prod.splits sum.splits option.splits dest!: empty_snapshotD)

lemma alive_observes: "platform_process_alive pf m pid w = (r, w') \<Longrightarrow> observes read_only_cmd w w'"
  by (cases pf) (auto simp: platform_process_alive_def Let_def split: prod.splits option.splits if_splits
      dest: exec_observes [where A = read_only_cmd] observe_observes)

lemma identity_observes: "platform_process_identity pf m pid w = (r, w') \<Longrightarrow> observes A w w'"
  by (auto simp: platform_process_identity_def split: prod.splits sum.splits if_splits dest: observe_observes)

lemma delete_rule_loop_observes:
  "delete_rule_loop n m fam p w = (r, w') \<Longrightarrow> A (rule_del fam p) \<Longrightarrow> observes A w w'"
proof (induction n arbitrary: w)
  case (Suc n)
  obtain out e w1 where x: "exec_cmd m (rule_del fam p) w = ((out, e), w1)" by (metis surj_pair)
  then have o: "observes A w w1" using Suc.prems(2) by (rule exec_observes)
  show ?case
  proof (cases e)
    case None
    with Suc x have "observes A w1 w'" by simp
    with o show ?thesis by (rule observes_trans)
  next
    case (Some err)
    with Suc.prems x o show ?thesis by (auto simp: Let_def split: if_splits)
  qed
qed simp

lemma delete_rule_observes:
  "delete_rule_priority m fam p w = (r, w') \<Longrightarrow> A (rule_show fam) \<Longrightarrow> A (rule_del fam p) \<Longrightarrow> observes A w w'"
  by (auto simp: delete_rule_priority_def split: prod.splits sum.splits if_splits
      dest!: command_lines_observes [where A = A] delete_rule_loop_observes [where A = A] intro: observes_trans)

lemma flush_observes:
  "flush_route_table m fam t w = (r, w') \<Longrightarrow> A (route_show fam) \<Longrightarrow> A (route_flush fam t) \<Longrightarrow> observes A w w'"
  by (auto simp: flush_route_table_def Let_def split: prod.splits sum.splits if_splits option.splits
      dest!: command_lines_observes [where A = A] exec_observes [where A = A] intro: observes_trans)

lemma each_owned_observes:
  "each_owned f msg xs w = (r, w') \<Longrightarrow>
     (\<And>x w r w'. x \<in> set xs \<Longrightarrow> f x w = (r, w') \<Longrightarrow> observes A w w') \<Longrightarrow> observes A w w'"
proof (induction xs arbitrary: w r w')
  case (Cons x xs)
  obtain e w1 where x: "f x w = (e, w1)" by fastforce
  then have o: "observes A w w1" using Cons.prems(2) [of x w e w1] by simp
  show ?case
  proof (cases e)
    case None
    obtain r2 w2 where y: "each_owned f msg xs w1 = (r2, w2)" by fastforce
    have "observes A w1 w2"
      by (rule Cons.IH [OF y]) (meson Cons.prems(2) list.set_intros(2))
    moreover have "w' = w2" using None x y Cons.prems(1) by (simp split: prod.splits)
    ultimately show ?thesis using o by (auto intro: observes_trans)
  next
    case (Some err)
    with Cons.prems(1) x o show ?thesis by simp
  qed
qed simp

lemma recovery_cmd_owned [simp]:
  "recovery_cmd d link_delete" "read_only_cmd c \<Longrightarrow> recovery_cmd d c"
  "p \<in> set (od_prios4 d) \<Longrightarrow> recovery_cmd d (rule_del ''-4'' p)"
  "p \<in> set (od_prios6 d) \<Longrightarrow> recovery_cmd d (rule_del ''-6'' p)"
  "t \<in> set (od_tables4 d) \<Longrightarrow> recovery_cmd d (route_flush ''-4'' t)"
  "t \<in> set (od_tables6 d) \<Longrightarrow> recovery_cmd d (route_flush ''-6'' t)"
  by (auto simp: recovery_cmd_def owned_cmd_def)

lemma recover_linux_loops:
  "each_owned (delete_rule_priority m ''-4'') g4 (od_prios4 d) w = (r, w') \<Longrightarrow> observes (recovery_cmd d) w w'"
  "each_owned (delete_rule_priority m ''-6'') g6 (od_prios6 d) w = (r, w') \<Longrightarrow> observes (recovery_cmd d) w w'"
  "each_owned (flush_route_table m ''-4'') h4 (od_tables4 d) w = (r, w') \<Longrightarrow> observes (recovery_cmd d) w w'"
  "each_owned (flush_route_table m ''-6'') h6 (od_tables6 d) w = (r, w') \<Longrightarrow> observes (recovery_cmd d) w w'"
  by (erule each_owned_observes; auto intro: delete_rule_observes flush_observes)+

lemma run_steps_observes:
  "run_steps fs w = (r, w') \<Longrightarrow> (\<And>f w r w'. f \<in> set fs \<Longrightarrow> f w = (r, w') \<Longrightarrow> observes A w w') \<Longrightarrow> observes A w w'"
proof (induction fs arbitrary: w r w')
  case (Cons f fs)
  obtain a e w1 where f: "f w = ((a, e), w1)" by (metis surj_pair)
  have o: "observes A w w1" using Cons.prems(2) [of f w "(a, e)" w1] f by simp
  show ?case
  proof (cases e)
    case None
    obtain r2 w2 where y: "run_steps fs w1 = (r2, w2)" by fastforce
    have "observes A w1 w2" by (rule Cons.IH [OF y]) (meson Cons.prems(2) list.set_intros(2))
    moreover have "w' = w2" using None f y Cons.prems(1) by (simp split: prod.splits)
    ultimately show ?thesis using o by (auto intro: observes_trans)
  next
    case (Some err)
    with Cons.prems(1) f o show ?thesis by simp
  qed
qed simp

lemma delete_owned_tun_observes: "delete_owned_tun m w = (r, w') \<Longrightarrow> observes (recovery_cmd d) w w'"
  by (auto simp: delete_owned_tun_def split: prod.splits option.splits
      dest!: iface_observes [where A = "recovery_cmd d"] exec_observes [where A = "recovery_cmd d"]
      intro: observes_trans)

lemma recover_linux_observes:
  "recover_linux m d w = (r, w') \<Longrightarrow> observes (recovery_cmd d) w w'"
  unfolding recover_linux_def
  by (erule run_steps_observes) (auto intro: delete_owned_tun_observes recover_linux_loops)

lemma recover_windows_observes: "recover_windows m d w = (r, w') \<Longrightarrow> observes A w w'"
  by (auto simp: recover_windows_def split: prod.splits option.splits dest: iface_observes)

lemma recover_owned_observes: "recover_owned pf m d w = (r, w') \<Longrightarrow> observes (recovery_cmd d) w w'"
  by (cases pf) (auto simp: recover_owned_def dest: recover_linux_observes recover_windows_observes)

text \<open>The only command of the broker: the program itself, through \<^verbatim>\<open>pkexec\<close> or \<^verbatim>\<open>sudo\<close>,
  in its recovery mode on the journal.\<close>

definition broker_cmd :: "string \<Rightarrow> string list \<Rightarrow> string list \<Rightarrow> bool" where
  "broker_cmd command args c \<longleftrightarrow> (\<exists>b. c = b # command # args \<or> c = b # ''--'' # command # args)"

lemma first_executable_observes: "first_executable m ps w = (r, w') \<Longrightarrow> observes A w w'"
  by (induction ps arbitrary: w)
    (auto split: prod.splits sum.splits if_splits dest!: host_stat_observes [where A = A] intro: observes_trans)

lemma find_command_observes: "find_linux_command m n ps w = (r, w') \<Longrightarrow> observes A w w'"
  by (auto simp: find_linux_command_def split: prod.splits option.splits
      dest!: look_path_observes [where A = A] first_executable_observes [where A = A] intro: observes_trans)

lemma broker_observes:
  assumes "run_privilege_broker m command args w = (r, w')"
  shows "observes (broker_cmd command args) w w'"
proof -
  let ?A = "broker_cmd command args"
  obtain pk w1 where 1: "find_linux_command m ''pkexec'' [''/usr/bin/pkexec''] w = (pk, w1)" by fastforce
  obtain res w2 where 2: "(if pk = [] then (None, w1)
             else (case exec_cmd m (pk # command # args) w1 of
                     ((out, None), w') \<Rightarrow> (Some None, w')
                   | ((out, Some e), w') \<Rightarrow>
                       (Some (Some (wrap_out ''PolicyKit authorization failed: '' e (trim_space out))), w'))) = (res, w2)"
    by fastforce
  obtain sudo w3 where 3: "find_linux_command m ''sudo'' [''/usr/bin/sudo'', ''/bin/sudo''] w2 = (sudo, w3)" by fastforce
  have "observes ?A w w1" using 1 by (rule find_command_observes)
  also have "observes ?A w1 w2" using 2
    by (auto split: if_splits prod.splits option.splits elim!: exec_observes simp: broker_cmd_def)
  finally have o2: "observes ?A w w2" .
  have o3: "observes ?A w2 w3" using 3 by (rule find_command_observes)
  have "w' = w2 \<or> w' = w3 \<or> (\<exists>r3. exec_cmd m (sudo # ''--'' # command # args) w3 = (r3, w'))"
    using assms 1 2 3 by (auto simp: run_privilege_broker_def Let_def split: if_splits prod.splits option.splits)
  moreover have "observes ?A w3 w'" if "exec_cmd m (sudo # ''--'' # command # args) w3 = (r3, w')" for r3
    using that by (rule exec_observes) (auto simp: broker_cmd_def)
  ultimately show ?thesis using o2 o3 by (metis observes_trans)
qed

lemma try_privileged_observes:
  assumes "try_privileged_recovery pf m ctx jpath cause w = (r, w')"
  shows "observes (\<lambda>c. \<exists>self. m_self m = Inr self \<and> broker_cmd self [''__linux-privileged-recover'', jpath] c) w w'"
  using assms
  by (auto simp: try_privileged_recovery_def split: if_splits option.splits sum.splits prod.splits
      dest!: broker_observes elim: observes_mono)

lemma recover_other: "pf \<noteq> Linux \<Longrightarrow> recover_owned pf m d w = ((acts, e), w') \<Longrightarrow> w_log w' = w_log w"
  by (cases pf) (auto simp: recover_owned_def recover_windows_def split: prod.splits option.splits
      dest!: iface_by_nameD)

end
