(* ===== verification/Recovery.thy ===== *)
theory Recovery imports Journal Platform begin

text \<open>
  The tunnel transaction (\<^verbatim>\<open>internal/proxy/network_state.go\<close>): begin, mark active, abort,
  recover and finish, over the journal of \<^verbatim>\<open>Journal\<close>.  The operating system is reached
  through the five functions that the Go files with build tags provide; they are the record
  \<open>net_platform\<close>, their contract is the locale \<open>platform_contract\<close>, and the three platforms
  are its interpretations.
\<close>

section \<open>The platform interface\<close>

record 'k net_platform =
  np_capture :: "'k machine \<Rightarrow> 'k world \<Rightarrow> snapshot res \<times> 'k world"
  np_alive :: "'k machine \<Rightarrow> int \<Rightarrow> 'k world \<Rightarrow> bool \<times> 'k world"
  np_identity :: "'k machine \<Rightarrow> int \<Rightarrow> 'k world \<Rightarrow> string res \<times> 'k world"
  np_recover :: "'k machine \<Rightarrow> owned_delta \<Rightarrow> 'k world \<Rightarrow> (string list \<times> gerr option) \<times> 'k world"
  np_privileged :: "'k machine \<Rightarrow> ctx \<Rightarrow> string \<Rightarrow> gerr \<Rightarrow> 'k world \<Rightarrow> priv_result \<times> 'k world"
  np_preflight :: "snapshot \<Rightarrow> gerr option"
  np_reserved :: owned_delta

definition net_platform_of :: "platform \<Rightarrow> 'k net_platform" where
  "net_platform_of pf = \<lparr>np_capture = capture_snapshot pf, np_alive = platform_process_alive pf,
     np_identity = platform_process_identity pf, np_recover = recover_owned pf,
     np_privileged = try_privileged_recovery pf, np_preflight = preflight_ownership pf,
     np_reserved = reserved_platform_ownership pf\<rparr>"

section \<open>Recovery\<close>

text \<open>The refusal while the recorded process lives.\<close>

definition check_recorded_process ::
  "'k net_platform \<Rightarrow> 'k machine \<Rightarrow> journal \<Rightarrow> 'k world \<Rightarrow> journal res \<times> 'k world" where
  "check_recorded_process P m j w =
     (if tj_pid j \<le> 0 then (Inr j, w)
      else (case np_alive P m (tj_pid j) w of
        (False, w1) \<Rightarrow> (Inr j, w1)
      | (True, w1) \<Rightarrow>
          (case np_identity P m (tj_pid j) w1 of (ident, w2) \<Rightarrow>
             if tj_pid_identity j = [] \<or> \<not> is_ok ident
             then (Inl (new_err (''previous Agent Tunnel journal still points to live PID '' @ itoa (tj_pid j) @
                     '' without verifiable process identity; refusing to mutate its network state'')), w2)
             else if ident = Inr (tj_pid_identity j)
             then (Inl (new_err (''previous Agent Tunnel journal still points to the same live PID '' @ itoa (tj_pid j) @
                     ''; refusing to mutate its network state'')), w2)
             else (Inr (j\<lparr>tj_recovery := tj_recovery j @ [''PID '' @ itoa (tj_pid j) @
                     '' was reused by a different process identity; stale helper ownership released'']\<rparr>), w2))))"

definition own_observed :: "snapshot \<Rightarrow> journal \<Rightarrow> journal" where
  "own_observed current j =
     j\<lparr>tj_owned := (merge_owned_delta (tj_owned j) (derive_owned_delta (tj_before j) current))\<lparr>od_tun := agent_tun_name\<rparr>\<rparr>"

text \<open>The platform's recovery, then the privileged fallback.\<close>

definition attempt_recovery ::
  "'k net_platform \<Rightarrow> 'k machine \<Rightarrow> ctx \<Rightarrow> string \<Rightarrow> owned_delta \<Rightarrow> 'k world \<Rightarrow> (string list \<times> gerr option) \<times> 'k world" where
  "attempt_recovery P m ctx root d w =
     (case np_recover P m d w of
        ((actions, None), w1) \<Rightarrow> ((actions, None), w1)
      | ((actions, Some e), w1) \<Rightarrow>
          (case np_privileged P m ctx (journal_path root) e w1 of
             (Priv_done extra, w2) \<Rightarrow> ((actions @ extra, None), w2)
           | (Priv_cause, w2) \<Rightarrow> ((actions, Some e), w2)
           | (Priv_failed pe, w2) \<Rightarrow>
               ((actions, Some (GErr (err_kind pe)
                  (''unprivileged recovery: '' @ err_text e @ ''; privileged recovery: '' @ err_text pe))), w2)))"

text \<open>The check after recovery, and the end of the transaction.\<close>

definition conclude_recovery ::
  "'k net_platform \<Rightarrow> 'k machine \<Rightarrow> string \<Rightarrow> journal \<Rightarrow> 'k world \<Rightarrow> unit res \<times> 'k world" where
  "conclude_recovery P m root j w =
     (case np_capture P m w of
        (Inl e, w1) \<Rightarrow> (Inl (wrap_err ''capture post-recovery network state: '' e), w1)
      | (Inr post, w1) \<Rightarrow>
          (case verify_owned_absent post (tj_owned j) of
             Some e \<Rightarrow>
               (case write_tunnel_journal m root (j\<lparr>tj_last_error := err_text e\<rparr>) w1 of (_, _, w2) \<Rightarrow> (Inl e, w2))
           | None \<Rightarrow>
               (case iface_by_name m agent_tun_name w1 of
                  (Some _, w2) \<Rightarrow> (Inl (new_err (''recovery incomplete: '' @ agent_tun_name @ '' still exists'')), w2)
                | (None, w2) \<Rightarrow>
                    persist_clean_journal m root
                      (j\<lparr>tj_phase := ''clean'', tj_pid := 0, tj_pid_identity := [], tj_last_error := []\<rparr>) w2)))"

definition recover_dead ::
  "'k net_platform \<Rightarrow> 'k machine \<Rightarrow> ctx \<Rightarrow> string \<Rightarrow> journal \<Rightarrow> 'k world \<Rightarrow> unit res \<times> 'k world" where
  "recover_dead P m ctx root j w =
     (case np_capture P m w of
        (Inl e, w1) \<Rightarrow> (Inl (wrap_err ''capture stale network state: '' e), w1)
      | (Inr current, w1) \<Rightarrow>
          (let j1 = (if tj_active j = None then own_observed current j else j) in
           case quarantine_invalid_primary m root j1 w1 of
             (Inl e, _, w2) \<Rightarrow> (Inl e, w2)
           | (Inr _, j2, w2) \<Rightarrow>
               (case write_tunnel_journal m root (j2\<lparr>tj_phase := ''recovering''\<rparr>) w2 of
                  (Inl e, _, w3) \<Rightarrow> (Inl e, w3)
                | (Inr _, j3, w3) \<Rightarrow>
                    (case attempt_recovery P m ctx root (tj_owned j3) w3 of
                       ((actions, Some e), w4) \<Rightarrow>
                         (case write_tunnel_journal m root
                            (j3\<lparr>tj_last_error := err_text e, tj_recovery := tj_recovery j3 @ actions\<rparr>) w4 of
                            (_, _, w5) \<Rightarrow> (Inl e, w5))
                     | ((actions, None), w4) \<Rightarrow>
                         conclude_recovery P m root (j3\<lparr>tj_recovery := tj_recovery j3 @ actions\<rparr>) w4))))"

definition recover_stale_with ::
  "'k net_platform \<Rightarrow> 'k machine \<Rightarrow> ctx \<Rightarrow> string \<Rightarrow> 'k world \<Rightarrow> unit res \<times> 'k world" where
  "recover_stale_with P m ctx root w =
     (case load_tunnel_journal m root w of
        (Inl e, w1) \<Rightarrow> (Inl e, w1)
      | (Inr None, w1) \<Rightarrow> (Inr (), w1)
      | (Inr (Some j), w1) \<Rightarrow>
          if tj_phase j = ''clean'' \<or> tj_phase j = ''aborted-before-network-apply''
          then persist_clean_journal m root j w1
          else (case check_recorded_process P m j w1 of
                  (Inl e, w2) \<Rightarrow> (Inl e, w2)
                | (Inr j1, w2) \<Rightarrow> recover_dead P m ctx root j1 w2))"

definition recover_stale ::
  "platform \<Rightarrow> 'k machine \<Rightarrow> ctx \<Rightarrow> string \<Rightarrow> 'k world \<Rightarrow> unit res \<times> 'k world" where
  "recover_stale pf = recover_stale_with (net_platform_of pf)"

section \<open>The other transaction steps\<close>

definition begin_transaction ::
  "'k net_platform \<Rightarrow> 'k machine \<Rightarrow> ctx \<Rightarrow> string \<Rightarrow> string \<Rightarrow> 'k world \<Rightarrow> unit res \<times> 'k world" where
  "begin_transaction P m ctx root vpn w =
     (case recover_stale_with P m ctx root w of
        (Inl e, w1) \<Rightarrow> (Inl (wrap_err ''stale network-state recovery: '' e), w1)
      | (Inr _, w1) \<Rightarrow>
     (case iface_by_name m agent_tun_name w1 of
        (Some _, w2) \<Rightarrow> (Inl (new_err (''refusing Agent Tunnel start: unowned '' @ agent_tun_name @ '' already exists'')), w2)
      | (None, w2) \<Rightarrow>
     (case np_capture P m w2 of
        (Inl e, w3) \<Rightarrow> (Inl (wrap_err ''capture pre-tunnel network state: '' e), w3)
      | (Inr before, w3) \<Rightarrow>
     (case np_preflight P before of
        Some e \<Rightarrow> (Inl (wrap_err ''network ownership preflight: '' e), w3)
      | None \<Rightarrow>
     (case remove_if_present m (journal_backup_path root) w3 of
        (Inl e, w4) \<Rightarrow> (Inl (wrap_err ''remove stale previous-good journal: '' e), w4)
      | (Inr _, w4) \<Rightarrow>
     (let (t, w5) = now m w4;
          j = zero_journal\<lparr>tj_schema := network_state_schema, tj_phase := ''prepared'',
            tj_op := itoa (t_nanos t) @ ''-'' @ itoa (m_getpid m), tj_vpn := vpn, tj_created := t_rfc t,
            tj_updated := t_rfc t, tj_before := before, tj_owned := np_reserved P\<rparr>;
          (r, _, w6) = write_tunnel_journal m root j w5
      in (r, w6)))))))"

definition mark_active ::
  "'k net_platform \<Rightarrow> 'k machine \<Rightarrow> string \<Rightarrow> int \<Rightarrow> 'k world \<Rightarrow> unit res \<times> 'k world" where
  "mark_active P m root managed_pid w =
     (case load_tunnel_journal m root w of
        (Inl e, w1) \<Rightarrow> (Inl e, w1)
      | (Inr None, w1) \<Rightarrow> (Inl (new_err ''network-state journal missing during Agent Tunnel activation''), w1)
      | (Inr (Some j), w1) \<Rightarrow>
     (case np_capture P m w1 of
        (Inl e, w2) \<Rightarrow> (Inl (wrap_err ''capture active tunnel network state: '' e), w2)
      | (Inr act, w2) \<Rightarrow>
     (let (ident, w3) = (if managed_pid > 0 then np_identity P m managed_pid w2 else (Inr (tj_pid_identity j), w2))
      in case ident of
           Inl e \<Rightarrow> (Inl (wrap_err ''capture managed process identity: '' e), w3)
         | Inr idt \<Rightarrow>
             (let j' = own_observed act (j\<lparr>tj_phase := ''active'', tj_pid := managed_pid,
                                           tj_pid_identity := idt, tj_active := Some act\<rparr>);
                  (r, _, w4) = write_tunnel_journal m root j' w3
              in (r, w4)))))"

definition abort_prepared :: "'k machine \<Rightarrow> string \<Rightarrow> bool \<Rightarrow> string \<Rightarrow> 'k world \<Rightarrow> 'k world" where
  "abort_prepared m root managed_running reason w =
     (case load_tunnel_journal m root w of
        (Inl _, w1) \<Rightarrow> w1
      | (Inr None, w1) \<Rightarrow> w1
      | (Inr (Some j), w1) \<Rightarrow>
          if tj_phase j \<noteq> ''prepared'' \<or> managed_running then w1
          else snd (persist_clean_journal m root
                 (j\<lparr>tj_last_error := reason, tj_phase := ''aborted-before-network-apply''\<rparr>) w1))"

definition finish_transaction ::
  "'k net_platform \<Rightarrow> 'k machine \<Rightarrow> ctx \<Rightarrow> string \<Rightarrow> bool \<Rightarrow> 'k world \<Rightarrow> unit res \<times> 'k world" where
  "finish_transaction P m ctx root managed_running w =
     (case load_tunnel_journal m root w of
        (Inl e, w1) \<Rightarrow> (Inl e, w1)
      | (Inr None, w1) \<Rightarrow> (Inr (), w1)
      | (Inr (Some j), w1) \<Rightarrow>
          if managed_running
          then (Inl (new_err ''cannot finalize network-state journal while managed sing-box is still running''), w1)
          else recover_stale_with P m ctx root w1)"

section \<open>The contract of the platform, and its clients\<close>

text \<open>A record with everything that the current state has and an earlier one has not; and a snapshot without any of
  what a record owns.\<close>

definition grown :: "owned_delta \<Rightarrow> snapshot \<Rightarrow> snapshot \<Rightarrow> owned_delta \<Rightarrow> bool" where
  "grown base before current d \<longleftrightarrow>
     set (od_tables4 d) = set (od_tables4 base) \<union> (tables_in (ns_routes4 current) - tables_in (ns_routes4 before)) \<and>
     set (od_tables6 d) = set (od_tables6 base) \<union> (tables_in (ns_routes6 current) - tables_in (ns_routes6 before)) \<and>
     set (od_prios4 d) = set (od_prios4 base) \<union> (prios_in (ns_rules4 current) - prios_in (ns_rules4 before)) \<and>
     set (od_prios6 d) = set (od_prios6 base) \<union> (prios_in (ns_rules6 current) - prios_in (ns_rules6 before))"

definition shows_none :: "snapshot \<Rightarrow> owned_delta \<Rightarrow> bool" where
  "shows_none s d \<longleftrightarrow>
     set (od_tables4 d) \<inter> tables_in (ns_routes4 s) = {} \<and> set (od_tables6 d) \<inter> tables_in (ns_routes6 s) = {} \<and>
     set (od_prios4 d) \<inter> prios_in (ns_rules4 s) = {} \<and> set (od_prios6 d) \<inter> prios_in (ns_rules6 s) = {}"

lemma own_observed_grown: "grown (tj_owned j) (tj_before j) current (tj_owned (own_observed current j))"
  by (simp add: own_observed_def derive_owned_delta_def grown_def)

lemma verified_shows_none: "verify_owned_absent s d = None \<Longrightarrow> shows_none s d"
  by (auto simp: verify_owned_absent_None shows_none_def tables_in_route_table disjoint_iff)

definition allowed_cmd ::
  "(owned_delta \<Rightarrow> string list \<Rightarrow> bool) \<Rightarrow> (string list \<Rightarrow> bool) \<Rightarrow> owned_delta \<Rightarrow> string list \<Rightarrow> bool" where
  "allowed_cmd mutates broker d c \<longleftrightarrow> read_only_cmd c \<or> mutates d c \<or> broker c"

locale platform_contract =
  fixes P :: "'k net_platform"
    and mutates :: "owned_delta \<Rightarrow> string list \<Rightarrow> bool"
    and broker :: "'k machine \<Rightarrow> string \<Rightarrow> string list \<Rightarrow> bool"
  assumes capture: "np_capture P m w = (r, w') \<Longrightarrow> observes read_only_cmd w w'"
    and alive: "np_alive P m pid w = (b, w') \<Longrightarrow> observes read_only_cmd w w'"
    and identity: "np_identity P m pid w = (i, w') \<Longrightarrow> observes read_only_cmd w w'"
    and recover: "np_recover P m d w = (ae, w') \<Longrightarrow> observes (\<lambda>c. read_only_cmd c \<or> mutates d c) w w'"
    and privileged: "np_privileged P m ctx jp e w = (pr, w') \<Longrightarrow> observes (broker m jp) w w'"
    and capture_valid: "good_clock m \<Longrightarrow> np_capture P m w = (Inr s, w') \<Longrightarrow> valid_snapshot s"
    and reserved_valid: "valid_owned (np_reserved P)"
begin

lemma allowed_observes:
  "observes read_only_cmd w w' \<Longrightarrow> observes (allowed_cmd mutates (broker m (journal_path root)) d) w w'"
  "observes (\<lambda>c. read_only_cmd c \<or> mutates d c) w w' \<Longrightarrow> observes (allowed_cmd mutates (broker m (journal_path root)) d) w w'"
  "observes (broker m (journal_path root)) w w' \<Longrightarrow> observes (allowed_cmd mutates (broker m (journal_path root)) d) w w'"
  by (auto elim!: observes_mono simp: allowed_cmd_def)

lemma check_process_observes:
  "check_recorded_process P m j w = (r, w') \<Longrightarrow> observes read_only_cmd w w'"
  by (auto simp: check_recorded_process_def split: if_splits prod.splits bool.splits
      dest!: alive identity intro: observes_trans)

lemma check_process_keeps:
  "check_recorded_process P m j w = (Inr j1, w') \<Longrightarrow>
     tj_owned j1 = tj_owned j \<and> tj_active j1 = tj_active j \<and> tj_before j1 = tj_before j \<and>
     tj_from_backup j1 = tj_from_backup j"
  by (auto simp: check_recorded_process_def split: if_splits prod.splits bool.splits)

lemma attempt_observes:
  assumes "attempt_recovery P m ctx root d w = (r, w')"
  shows "observes (allowed_cmd mutates (broker m (journal_path root)) d) w w'"
proof -
  obtain actions e w1 where 1: "np_recover P m d w = ((actions, e), w1)" by (metis surj_pair)
  have o: "observes (allowed_cmd mutates (broker m (journal_path root)) d) w w1" using recover [OF 1] by (rule allowed_observes)
  show ?thesis
  proof (cases e)
    case None
    with assms 1 o show ?thesis by (simp add: attempt_recovery_def)
  next
    case (Some err)
    obtain pr w2 where 2: "np_privileged P m ctx (journal_path root) err w1 = (pr, w2)" by fastforce
    have "w2 = w'" using assms 1 2 Some by (cases pr) (simp_all add: attempt_recovery_def)
    with o allowed_observes(3) [OF privileged [OF 2]] show ?thesis by (auto intro: observes_trans)
  qed
qed

lemma conclude_runs:
  assumes "conclude_recovery P m root j w = (r, w')"
  shows "runs read_only_cmd w w'"
proof -
  obtain c w1 where 1: "np_capture P m w = (c, w1)" by fastforce
  have o: "runs read_only_cmd w w1" using capture [OF 1] by (rule observes_runs)
  have "runs read_only_cmd w1 w'"
    using assms 1
    by (auto simp: conclude_recovery_def split: sum.splits prod.splits option.splits
        dest!: write_tunnel_journal_env persist_clean_env runs_same_env [where A = read_only_cmd]
          observes_runs [OF iface_observes [where A = read_only_cmd]] intro: runs_trans)
  with o show ?thesis by (rule runs_trans)
qed

lemma quarantine_env: "quarantine_invalid_primary m root j w = (r, j', w') \<Longrightarrow> same_env w w'"
  by (auto simp: quarantine_invalid_primary_def now_def Let_def split: if_splits sum.splits prod.splits
      dest!: file_call_envD(2) simp: same_env_def)

lemma quarantine_keeps:
  "quarantine_invalid_primary m root j w = (Inr u, j', w') \<Longrightarrow>
     tj_owned j' = tj_owned j \<and> tj_phase j' = tj_phase j \<and> \<not> tj_from_backup j'"
  by (auto simp: quarantine_invalid_primary_def now_def Let_def split: if_splits sum.splits prod.splits)

lemma recover_dead_cases:
  assumes "recover_dead P m ctx root j w = (r, w')"
  obtains (unread) e e' where "r = Inl e" "np_capture P m w = (Inl e', w')"
  | (unjournaled) e current w1 j1 j2 w2 where "np_capture P m w = (Inr current, w1)" "r = Inl e"
      "j1 = (if tj_active j = None then own_observed current j else j)"
      "quarantine_invalid_primary m root j1 w1 = (Inl e, j2, w2)" "w' = w2"
  | (unwritten) e current w1 j1 j2 w2 j3 where "np_capture P m w = (Inr current, w1)" "r = Inl e"
      "j1 = (if tj_active j = None then own_observed current j else j)"
      "quarantine_invalid_primary m root j1 w1 = (Inr (), j2, w2)"
      "write_tunnel_journal m root (j2\<lparr>tj_phase := ''recovering''\<rparr>) w2 = (Inl e, j3, w')"
  | (attempted) current w1 j1 j2 w2 j3 w3 actions e w4 where "np_capture P m w = (Inr current, w1)"
      "j1 = (if tj_active j = None then own_observed current j else j)"
      "quarantine_invalid_primary m root j1 w1 = (Inr (), j2, w2)"
      "write_tunnel_journal m root (j2\<lparr>tj_phase := ''recovering''\<rparr>) w2 = (Inr (), j3, w3)"
      "attempt_recovery P m ctx root (tj_owned j3) w3 = ((actions, e), w4)"
      "case e of Some err \<Rightarrow> r = Inl err \<and> (\<exists>r5 j5. write_tunnel_journal m root
            (j3\<lparr>tj_last_error := err_text err, tj_recovery := tj_recovery j3 @ actions\<rparr>) w4 = (r5, j5, w'))
        | None \<Rightarrow> conclude_recovery P m root (j3\<lparr>tj_recovery := tj_recovery j3 @ actions\<rparr>) w4 = (r, w')"
proof -
  obtain c w1 where 1: "np_capture P m w = (c, w1)" by fastforce
  show thesis
  proof (cases c)
    case (Inl e)
    with 1 assms show ?thesis by (intro unread) (auto simp: recover_dead_def)
  next
    case (Inr current)
    let ?j1 = "if tj_active j = None then own_observed current j else j"
    obtain q j2 w2 where 2: "quarantine_invalid_primary m root ?j1 w1 = (q, j2, w2)" by (metis prod_cases3)
    show ?thesis
    proof (cases q)
      case (Inl e)
      with 1 2 Inr assms show ?thesis by (intro unjournaled [OF _ _ refl]) (auto simp: recover_dead_def Let_def)
    next
      case q: (Inr u)
      obtain x j3 w3 where 3: "write_tunnel_journal m root (j2\<lparr>tj_phase := ''recovering''\<rparr>) w2 = (x, j3, w3)" by (metis prod_cases3)
      show ?thesis
      proof (cases x)
        case (Inl e)
        with 1 2 3 Inr q assms show ?thesis by (intro unwritten [OF _ _ refl]) (auto simp: recover_dead_def Let_def)
      next
        case x: (Inr u')
        obtain actions e w4 where 4: "attempt_recovery P m ctx root (tj_owned j3) w3 = ((actions, e), w4)" by (metis surj_pair)
        have "case e of Some err \<Rightarrow> r = Inl err \<and> (\<exists>r5 j5. write_tunnel_journal m root
            (j3\<lparr>tj_last_error := err_text err, tj_recovery := tj_recovery j3 @ actions\<rparr>) w4 = (r5, j5, w'))
          | None \<Rightarrow> conclude_recovery P m root (j3\<lparr>tj_recovery := tj_recovery j3 @ actions\<rparr>) w4 = (r, w')"
          using 1 2 3 4 Inr q x assms by (auto simp: recover_dead_def Let_def split: option.splits prod.splits)
        with 1 2 3 4 Inr q x show ?thesis using attempted [OF _ refl] by simp
      qed
    qed
  qed
qed

lemma recover_dead_runs:
  assumes "recover_dead P m ctx root j w = (r, w')"
  shows "\<exists>d. (d = tj_owned j \<or> tj_active j = None \<and> (\<exists>current w1. np_capture P m w = (Inr current, w1) \<and> d = tj_owned (own_observed current j))) \<and>
     runs (allowed_cmd mutates (broker m (journal_path root)) d) w w'"
proof -
  let ?A = "allowed_cmd mutates (broker m (journal_path root))"
  have ro: "runs read_only_cmd u v \<Longrightarrow> runs (?A d) u v" for u v d
    by (erule runs_mono) (simp add: allowed_cmd_def)
  have env: "same_env u v \<Longrightarrow> runs (?A d) u v" for u v d by (rule runs_same_env)
  from assms show ?thesis
  proof (cases rule: recover_dead_cases)
    case (unread e e')
    then show ?thesis using ro [OF observes_runs [OF capture [OF unread(2)]]] by blast
  next
    case (unjournaled e current w1 j1 j2 w2)
    have "runs (?A (tj_owned j)) w w1" using observes_runs [OF capture [OF unjournaled(1)]] by (rule ro)
    also have "runs (?A (tj_owned j)) w1 w'" using env [OF quarantine_env [OF unjournaled(4)]] unjournaled(5) by simp
    finally show ?thesis by blast
  next
    case (unwritten e current w1 j1 j2 w2 j3)
    have "runs (?A (tj_owned j)) w w1" using observes_runs [OF capture [OF unwritten(1)]] by (rule ro)
    also have "runs (?A (tj_owned j)) w1 w2" using quarantine_env [OF unwritten(4)] by (rule env)
    also have "runs (?A (tj_owned j)) w2 w'" using write_tunnel_journal_env [OF unwritten(5)] by (rule env)
    finally show ?thesis by blast
  next
    case (attempted current w1 j1 j2 w2 j3 w3 actions e w4)
    let ?d = "tj_owned j3"
    have d: "?d = tj_owned j1"
      using quarantine_keeps [OF attempted(3)] write_tunnel_journalD(2) [OF attempted(4)] by simp
    have "runs (?A ?d) w w1" using observes_runs [OF capture [OF attempted(1)]] by (rule ro)
    also have "runs (?A ?d) w1 w2" using quarantine_env [OF attempted(3)] by (rule env)
    also have "runs (?A ?d) w2 w3" using write_tunnel_journal_env [OF attempted(4)] by (rule env)
    also have "runs (?A ?d) w3 w4" using attempt_observes [OF attempted(5)] by (rule observes_runs)
    also have "runs (?A ?d) w4 w'"
    proof (cases e)
      case None
      with attempted(6) show ?thesis using ro [OF conclude_runs] by simp
    next
      case (Some err)
      with attempted(6) obtain r5 j5 where "write_tunnel_journal m root
            (j3\<lparr>tj_last_error := err_text err, tj_recovery := tj_recovery j3 @ actions\<rparr>) w4 = (r5, j5, w')" by auto
      then show ?thesis using env [OF write_tunnel_journal_env] by blast
    qed
    finally have "runs (?A (tj_owned j1)) w w'" unfolding d .
    then show ?thesis using attempted(1,2) by (cases "tj_active j") auto
  qed
qed

lemma recover_stale_cases:
  assumes "recover_stale_with P m ctx root w = (r, w')"
  obtains (unloaded) e where "load_tunnel_journal m root w = (Inl e, w')" "r = Inl e"
  | (no_journal) "load_tunnel_journal m root w = (Inr None, w')" "r = Inr ()"
  | (finalised) j w1 where "load_tunnel_journal m root w = (Inr (Some j), w1)"
      "tj_phase j = ''clean'' \<or> tj_phase j = ''aborted-before-network-apply''"
      "persist_clean_journal m root j w1 = (r, w')"
  | (refused) j w1 e where "load_tunnel_journal m root w = (Inr (Some j), w1)"
      "\<not> (tj_phase j = ''clean'' \<or> tj_phase j = ''aborted-before-network-apply'')"
      "check_recorded_process P m j w1 = (Inl e, w')" "r = Inl e"
  | (dead) j w1 j1 w2 where "load_tunnel_journal m root w = (Inr (Some j), w1)"
      "\<not> (tj_phase j = ''clean'' \<or> tj_phase j = ''aborted-before-network-apply'')"
      "check_recorded_process P m j w1 = (Inr j1, w2)" "recover_dead P m ctx root j1 w2 = (r, w')"
  using assms
  by (auto simp: recover_stale_with_def split: prod.splits sum.splits option.splits if_splits)

text \<open>What recovery may do, as a function of the journal it finds.\<close>

lemma recover_stale_runs:
  assumes "recover_stale_with P m ctx root w = (r, w')" "load_tunnel_journal m root w = (Inr (Some j), w1)"
  shows "\<exists>d. (d = tj_owned j \<or> tj_active j = None \<and> (\<exists>j1 w2 current w3. check_recorded_process P m j w1 = (Inr j1, w2) \<and>
       np_capture P m w2 = (Inr current, w3) \<and> grown (tj_owned j) (tj_before j) current d)) \<and>
     runs (allowed_cmd mutates (broker m (journal_path root)) d) w w'"
proof -
  let ?A = "allowed_cmd mutates (broker m (journal_path root))"
  have l: "runs A w w1" for A
    using load_tunnel_journal_frame [OF assms(2)] by (intro runs_same_env) blast
  from assms(1) show ?thesis
  proof (cases rule: recover_stale_cases)
    case (finalised j' w1')
    then show ?thesis
      using assms(2) l runs_same_env [OF persist_clean_env [OF finalised(3)]] by (auto intro: runs_trans)
  next
    case (refused j' w1' e)
    have "runs read_only_cmd w1' w'" using check_process_observes [OF refused(3)] by (rule observes_runs)
    then have "runs (?A (tj_owned j)) w1' w'" by (rule runs_mono) (simp add: allowed_cmd_def)
    then show ?thesis using refused(1) assms(2) l by (auto intro: runs_trans)
  next
    case (dead j' w1' j1 w2)
    then have j': "j' = j" "w1' = w1" using assms(2) by simp_all
    note c = dead(3) [unfolded j']
    have k: "tj_owned j1 = tj_owned j" "tj_active j1 = tj_active j" "tj_before j1 = tj_before j"
      using check_process_keeps [OF c] by simp_all
    obtain d where d: "d = tj_owned j1 \<or> tj_active j1 = None \<and> (\<exists>current w3. np_capture P m w2 = (Inr current, w3) \<and> d = tj_owned (own_observed current j1))"
      and r: "runs (?A d) w2 w'" using recover_dead_runs [OF dead(4)] by blast
    have "runs read_only_cmd w1 w2" using check_process_observes [OF c] by (rule observes_runs)
    then have "runs (?A d) w1 w2" by (rule runs_mono) (simp add: allowed_cmd_def)
    then have "runs (?A d) w w'" using l r by (blast intro: runs_trans)
    moreover have "d = tj_owned j \<or> tj_active j = None \<and> (\<exists>j1 w2 current w3. check_recorded_process P m j w1 = (Inr j1, w2) \<and>
       np_capture P m w2 = (Inr current, w3) \<and> grown (tj_owned j) (tj_before j) current d)"
      using d c own_observed_grown [of j1] unfolding k by metis
    ultimately show ?thesis by blast
  qed (use assms(2) in auto)
qed

lemma conclude_ok:
  assumes "conclude_recovery P m root j w = (Inr (), w')"
  obtains post w1 w2 where "np_capture P m w = (Inr post, w1)" "verify_owned_absent post (tj_owned j) = None"
    "iface_by_name m agent_tun_name w1 = (None, w2)"
    "w_files w' (journal_path root) = None" "w_files w' (journal_backup_path root) = None"
  using assms
  by (auto simp: conclude_recovery_def split: sum.splits prod.splits option.splits)
    (meson persist_clean_ok(1,2))

lemma recover_dead_ok:
  assumes "recover_dead P m ctx root j w = (Inr (), w')"
  obtains post u u1 u2 where "np_capture P m u = (Inr post, u1)" "verify_owned_absent post (tj_owned j) = None"
    "tj_active j = None \<longrightarrow> (\<exists>current. verify_owned_absent post (derive_owned_delta (tj_before j) current) = None)"
    "iface_by_name m agent_tun_name u1 = (None, u2)"
    "w_files w' (journal_path root) = None" "w_files w' (journal_backup_path root) = None"
  using assms
proof (cases rule: recover_dead_cases)
  case (attempted current w1 j1 j2 w2 j3 w3 actions e w4)
  let ?j = "j3\<lparr>tj_recovery := tj_recovery j3 @ actions\<rparr>"
  from attempted(6) have "conclude_recovery P m root ?j w4 = (Inr (), w')" by (cases e) auto
  then obtain post u1 u2 where c: "np_capture P m w4 = (Inr post, u1)" "verify_owned_absent post (tj_owned ?j) = None"
    "iface_by_name m agent_tun_name u1 = (None, u2)"
    "w_files w' (journal_path root) = None" "w_files w' (journal_backup_path root) = None"
    by (rule conclude_ok)
  have d: "tj_owned ?j = tj_owned j1"
    using quarantine_keeps [OF attempted(3)] write_tunnel_journalD(2) [OF attempted(4)] by simp
  have cov: "covers (tj_owned (own_observed current j)) (tj_owned j)"
    "covers (tj_owned (own_observed current j)) (derive_owned_delta (tj_before j) current)"
    by (auto simp: own_observed_def covers_def)
  have "covers (tj_owned j1) (tj_owned j)" using attempted(2) cov by simp
  then have v: "verify_owned_absent post (tj_owned j) = None" using c(2) d covers_verify by metis
  have "verify_owned_absent post (derive_owned_delta (tj_before j) current) = None" if "tj_active j = None"
    using c(2) d attempted(2) cov(2) that covers_verify by metis
  then show ?thesis by (intro that [OF c(1) v _ c(3-5)]) blast
qed simp_all

lemma conclude_chain:
  assumes "conclude_recovery P m root j w = (Inr (), w')"
  obtains post w1 w2 where "np_capture P m w = (Inr post, w1)" "shows_none post (tj_owned j)"
    "iface_by_name m agent_tun_name w1 = (None, w2)" "same_env w2 w'"
    "w_files w' (journal_path root) = None" "w_files w' (journal_backup_path root) = None"
  using assms
  by (auto simp: conclude_recovery_def split: sum.splits prod.splits option.splits)
    (meson persist_clean_ok(1,2) persist_clean_env verified_shows_none)

lemma recover_stale_chain:
  assumes "recover_stale_with P m ctx root w = (Inr (), w')" "load_tunnel_journal m root w = (Inr (Some j), w1)"
    and "\<not> (tj_phase j = ''clean'' \<or> tj_phase j = ''aborted-before-network-apply'')"
  shows "\<exists>j1 w2 current w3 w4 d actions w5 post w6 w7.
     check_recorded_process P m j w1 = (Inr j1, w2) \<and> np_capture P m w2 = (Inr current, w3) \<and> same_env w3 w4 \<and>
     (if tj_active j = None then grown (tj_owned j) (tj_before j) current d else d = tj_owned j) \<and>
     attempt_recovery P m ctx root d w4 = ((actions, None), w5) \<and>
     np_capture P m w5 = (Inr post, w6) \<and> shows_none post d \<and> iface_by_name m agent_tun_name w6 = (None, w7) \<and> same_env w7 w' \<and>
     w_files w' (journal_path root) = None \<and> w_files w' (journal_backup_path root) = None"
  using assms(1)
proof (cases rule: recover_stale_cases)
  case (dead j' w1' j1 w2)
  then have j': "j' = j" "w1' = w1" using assms(2) by simp_all
  note c = dead(3) [unfolded j']
  have k: "tj_owned j1 = tj_owned j" "tj_active j1 = tj_active j" "tj_before j1 = tj_before j"
    using check_process_keeps [OF c] by simp_all
  from dead(4) show ?thesis
  proof (cases rule: recover_dead_cases)
    case (attempted current w3 j2 j3 w3' j4 w4 actions e w5)
    have e: "e = None" using attempted(6) by (cases e) auto
    define d where "d = tj_owned j4"
    have d: "d = tj_owned j2"
      using quarantine_keeps [OF attempted(3)] write_tunnel_journalD(2) [OF attempted(4)] by (simp add: d_def)
    have g: "if tj_active j = None then grown (tj_owned j) (tj_before j) current d else d = tj_owned j"
      using d attempted(2) own_observed_grown [of j1 current] k by simp
    have env: "same_env w3 w4"
      using quarantine_env [OF attempted(3)] write_tunnel_journal_env [OF attempted(4)] by (auto simp: same_env_def)
    obtain post w6 w7 where p: "np_capture P m w5 = (Inr post, w6)" "shows_none post d"
      "iface_by_name m agent_tun_name w6 = (None, w7)" "same_env w7 w'"
      "w_files w' (journal_path root) = None" "w_files w' (journal_backup_path root) = None"
      using attempted(6) unfolding e by (auto elim!: conclude_chain simp: d_def)
    have "attempt_recovery P m ctx root d w4 = ((actions, None), w5)" using attempted(5) e by (simp add: d_def)
    then show ?thesis
      by (rule_tac exI [of _ j1], rule_tac exI [of _ w2], rule_tac exI [of _ current], rule_tac exI [of _ w3], rule_tac exI [of _ w4], rule_tac exI [of _ d],
          rule_tac exI [of _ actions], rule_tac exI [of _ w5], rule_tac exI [of _ post], rule_tac exI [of _ w6], rule_tac exI [of _ w7])
        (intro conjI c attempted(1) env g p)
  qed simp_all
qed (use assms in auto)

lemma recover_stale_absent:
  assumes "recover_stale_with P m ctx root w = (Inr (), w')"
  shows "w_files w' (journal_path root) = None"
  using assms
proof (cases rule: recover_stale_cases)
  case no_journal
  have "w_files w (journal_path root) = None"
    using no_journal(1) by (cases rule: load_tunnel_journal_cases) (auto elim: load_backup_cases)
  then show ?thesis using load_tunnel_journal_frame [OF no_journal(1)] by simp
next
  case (finalised j w1)
  then show ?thesis using persist_clean_ok by blast
next
  case (dead j w1 j1 w2)
  from dead(4) show ?thesis by (rule recover_dead_ok)
qed simp_all

lemma begin_cases:
  assumes "begin_transaction P m ctx root vpn w = (Inr (), w')"
  obtains w1 w2 w3 w4 before j j' where "recover_stale_with P m ctx root w = (Inr (), w1)"
    "iface_by_name m agent_tun_name w1 = (None, w2)" "np_capture P m w2 = (Inr before, w3)"
    "np_preflight P before = None" "remove_if_present m (journal_backup_path root) w3 = (Inr (), w4)"
    "j = zero_journal\<lparr>tj_schema := network_state_schema, tj_phase := ''prepared'',
            tj_op := itoa (t_nanos (m_clock m (w_tick w4))) @ ''-'' @ itoa (m_getpid m), tj_vpn := vpn,
            tj_created := t_rfc (m_clock m (w_tick w4)),
            tj_updated := t_rfc (m_clock m (w_tick w4)), tj_before := before, tj_owned := np_reserved P\<rparr>"
    "write_tunnel_journal m root j (tick w4) = (Inr (), j', w')"
  using assms
  by (auto simp: begin_transaction_def now_def Let_def split: sum.splits prod.splits option.splits)

lemma trim_space_digits: "trim_space (itoa a @ ''-'' @ b) \<noteq> []"
  by (simp add: trim_space_empty is_space_def)

lemma begin_chain:
  assumes "begin_transaction P m ctx root vpn w = (Inr (), w')" "good_clock m"
  shows "\<exists>j w1 w2 w3. recover_stale_with P m ctx root w = (Inr (), w1) \<and> iface_by_name m agent_tun_name w1 = (None, w2) \<and>
    np_capture P m w2 = (Inr (tj_before j), w3) \<and> np_preflight P (tj_before j) = None \<and>
    runs read_only_cmd w1 w' \<and> outs w' = outs w1 \<and> same_env w3 w' \<and>
    (\<forall>q. q \<noteq> journal_path root \<and> q \<noteq> journal_backup_path root \<longrightarrow> w_files w' q = w_files w1 q) \<and>
    map_option (decode_tunnel_journal \<circ> f_data) (w_files w' (journal_path root)) = Some (Inr j) \<and>
    tj_phase j = ''prepared'' \<and> tj_owned j = np_reserved P \<and> tj_pid j = 0 \<and> tj_vpn j = vpn \<and> tj_active j = None \<and>
    w_files w' (journal_backup_path root) = None"
proof -
  from assms(1) obtain w1 w2 w3 w4 before j j' where b: "recover_stale_with P m ctx root w = (Inr (), w1)"
    "iface_by_name m agent_tun_name w1 = (None, w2)" "np_capture P m w2 = (Inr before, w3)"
    "np_preflight P before = None" "remove_if_present m (journal_backup_path root) w3 = (Inr (), w4)"
    "j = zero_journal\<lparr>tj_schema := network_state_schema, tj_phase := ''prepared'',
            tj_op := itoa (t_nanos (m_clock m (w_tick w4))) @ ''-'' @ itoa (m_getpid m), tj_vpn := vpn,
            tj_created := t_rfc (m_clock m (w_tick w4)),
            tj_updated := t_rfc (m_clock m (w_tick w4)), tj_before := before, tj_owned := np_reserved P\<rparr>"
    "write_tunnel_journal m root j (tick w4) = (Inr (), j', w')"
    by (rule begin_cases)
  have st: "storable j" "valid_journal j"
    using capture_valid [OF assms(2) b(3)] reserved_valid assms(2) trim_space_digits
    by (simp_all add: b(6) storable_def valid_journal_def good_clock_def zero_journal_def network_state_schema_def
        known_phase_def int64_range_def max_int64_def min_int64_def)
  note s = write_tunnel_journal_stored [OF b(7) assms(2) st]
  note a = write_tunnel_journalD [OF b(7)]
  note ok = atomic_write_ok [OF a(1)]
  have f1: "w_files w1 (journal_path root) = None" using b(1) by (rule recover_stale_absent)
  have o: "observes read_only_cmd w1 w3" using iface_observes [OF b(2), of read_only_cmd] capture [OF b(3)] by (rule observes_trans)
  then have f3: "w_files w3 = w_files w1" by (simp add: observes_def)
  have f4: "w_files w4 (journal_path root) = None" "w_files w4 (journal_backup_path root) = None"
    using b(5) f1 f3 by (cases rule: remove_if_present_cases; simp)+
  have o4: "w_files w4 q = w_files w3 q" if "q \<noteq> journal_backup_path root" for q
    using b(5) that by (cases rule: remove_if_present_cases) simp_all
  have e4: "same_env w3 w4" using b(5) by (cases rule: remove_if_present_cases) (simp_all add: same_env_def outs_def put_fs_def tick_def)
  have bk: "w_files w' (journal_backup_path root) = None"
    using ok(3) f4 by (simp add: journal_backup_previous_good)
  have fs: "q \<noteq> journal_path root \<Longrightarrow> q \<noteq> journal_backup_path root \<Longrightarrow> w_files w' q = w_files w1 q" for q
    using ok(2) [of q] o4 [of q] f3 by (simp add: journal_backup_previous_good)
  have env: "same_env w3 w'" using e4 write_tunnel_journal_env [OF b(7)] by (simp add: same_env_def outs_def)
  have r: "runs read_only_cmd w1 w'" "outs w' = outs w1"
    using runs_trans [OF observes_runs [OF o] runs_same_env [OF env]] o env by (simp_all add: same_env_def observes_def)
  have on_disk: "map_option (decode_tunnel_journal \<circ> f_data) (w_files w' (journal_path root)) = Some (Inr (j'\<lparr>tj_from_backup := False\<rparr>))"
    using ok(1) s by simp
  show ?thesis
    by (rule exI [of _ "j'\<lparr>tj_from_backup := False\<rparr>"], rule exI [of _ w1], rule exI [of _ w2], rule exI [of _ w3])
      (use a(2) b(1-4,6) bk on_disk r env fs in \<open>simp add: zero_journal_def\<close>)
qed

end

section \<open>The three platforms\<close>

lemma reserved_valid_owned: "valid_owned (reserved_platform_ownership pf)"
  by (simp add: reserved_platform_ownership_def valid_owned_def zero_delta_def Let_def list_all_iff
      tunnel_rule_start_def tunnel_rule_end_def int64_range_def max_int64_def min_int64_def)

lemma net_platform_simps [simp]:
  "np_capture (net_platform_of pf) = capture_snapshot pf" "np_alive (net_platform_of pf) = platform_process_alive pf"
  "np_identity (net_platform_of pf) = platform_process_identity pf" "np_recover (net_platform_of pf) = recover_owned pf"
  "np_privileged (net_platform_of pf) = try_privileged_recovery pf" "np_preflight (net_platform_of pf) = preflight_ownership pf"
  "np_reserved (net_platform_of pf) = reserved_platform_ownership pf"
  by (simp_all add: net_platform_of_def)

lemma capture_valid_snapshot: "good_clock m \<Longrightarrow> capture_snapshot pf m w = (Inr s, w') \<Longrightarrow> valid_snapshot s"
  using capture_time [of pf m w s w'] by (simp add: valid_snapshot_def good_clock_def)

text \<open>On Linux recovery may run the owned commands, and the broker the recovery helper;
  elsewhere there is nothing that mutates.\<close>

definition helper_cmd :: "'k machine \<Rightarrow> string \<Rightarrow> string list \<Rightarrow> bool" where
  "helper_cmd m jpath c \<longleftrightarrow> (\<exists>self. m_self m = Inr self \<and> broker_cmd self [''__linux-privileged-recover'', jpath] c)"

definition no_cmd :: "'a \<Rightarrow> 'b \<Rightarrow> bool" where
  "no_cmd a b \<longleftrightarrow> False"

interpretation linux: platform_contract "net_platform_of Linux" owned_cmd helper_cmd
proof unfold_locales
  show "np_privileged (net_platform_of Linux) m ctx jp e w = (pr, w') \<Longrightarrow> observes (helper_cmd m jp) w w'" for m ctx jp e w pr w'
    using try_privileged_observes [of Linux m ctx jp e w pr w'] by (simp add: helper_cmd_def [abs_def])
  show "np_recover (net_platform_of Linux) m d w = (ae, w') \<Longrightarrow> observes (\<lambda>c. read_only_cmd c \<or> owned_cmd d c) w w'" for m d w ae w'
    using recover_owned_observes [of Linux m d w ae w'] by (simp add: recovery_cmd_def [abs_def])
qed (auto intro: capture_observes alive_observes identity_observes capture_valid_snapshot reserved_valid_owned)

interpretation windows: platform_contract "net_platform_of Windows" no_cmd "\<lambda>m. no_cmd"
proof unfold_locales
  show "np_recover (net_platform_of Windows) m d w = (ae, w') \<Longrightarrow> observes (\<lambda>c. read_only_cmd c \<or> no_cmd d c) w w'" for m d w ae w'
    using recover_windows_observes by (simp add: recover_owned_def)
  show "np_privileged (net_platform_of Windows) m ctx jp e w = (pr, w') \<Longrightarrow> observes (no_cmd jp) w w'" for m ctx jp e w pr w'
    by (simp add: try_privileged_recovery_def)
qed (auto intro: capture_observes alive_observes identity_observes capture_valid_snapshot reserved_valid_owned)

interpretation other: platform_contract "net_platform_of (Other_os s)" no_cmd "\<lambda>m. no_cmd"
proof unfold_locales
  show "np_recover (net_platform_of (Other_os s)) m d w = (ae, w') \<Longrightarrow> observes (\<lambda>c. read_only_cmd c \<or> no_cmd d c) w w'" for m d w ae w'
    by (auto simp: recover_owned_def)
  show "np_privileged (net_platform_of (Other_os s)) m ctx jp e w = (pr, w') \<Longrightarrow> observes (no_cmd jp) w w'" for m ctx jp e w pr w'
    by (simp add: try_privileged_recovery_def)
qed (auto intro: capture_observes alive_observes identity_observes capture_valid_snapshot reserved_valid_owned)

section \<open>What a transaction writes\<close>

lemma new_priorities_range: "list_all int64_range (new_rule_priorities b a)"
  by (auto simp: list_all_iff prios_in_def dest: rule_priority_range)

lemma own_observed_storable: "storable j \<Longrightarrow> storable (own_observed current j)"
  using new_priorities_range
  by (auto simp: storable_def own_observed_def valid_owned_def merge_owned_delta_def derive_owned_delta_def
      list_all_iff merged_ints.set_merge)

lemma mark_active_cases:
  assumes "mark_active P m root pid w = (Inr (), w')"
  obtains j w1 act w2 idt w3 j' where "load_tunnel_journal m root w = (Inr (Some j), w1)"
    "np_capture P m w1 = (Inr act, w2)"
    "(if pid > 0 then np_identity P m pid w2 else (Inr (tj_pid_identity j), w2)) = (Inr idt, w3)"
    "write_tunnel_journal m root (own_observed act (j\<lparr>tj_phase := ''active'', tj_pid := pid,
        tj_pid_identity := idt, tj_active := Some act\<rparr>)) w3 = (Inr (), j', w')"
  using assms
  by (auto simp: mark_active_def Let_def split: sum.splits option.splits prod.splits if_splits)

section \<open>Progress on the quiet machine\<close>

text \<open>Without faults, left-over temporary files and routing state of its own the machine
  lets every transaction step succeed.\<close>

definition clean_names :: "'k world \<Rightarrow> bool" where
  "clean_names w \<longleftrightarrow> (\<forall>q k. w_files w (q @ nat_digits k) = None)"

lemma clean_names_temps: "clean_names w \<Longrightarrow> no_temps p w"
  by (simp add: clean_names_def no_temps_def)

lemma clean_names_cong: "w_files w' = w_files w \<Longrightarrow> clean_names w' = clean_names w"
  by (simp add: clean_names_def)

lemma clean_names_tick [simp]: "clean_names (tick w) = clean_names w"
  by (simp add: clean_names_def)

lemma clean_write:
  assumes "reliable m" "clean_names w" "p = journal_path root \<or> p = last_clean_path root"
  obtains w' where "atomic_write m p d perm w = (Inr (), w')" "clean_names w'"
proof -
  have "p \<noteq> []" using assms(3) journal_path_nonempty by metis
  then obtain w' where w': "atomic_write m p d perm w = (Inr (), w')"
    using atomic_write_succeeds [OF assms(1) clean_names_temps clean_names_temps] assms(2) by blast
  have "w_files w' (q @ nat_digits k) = None" for q k
    using atomic_write_ok(2) [OF w', of "q @ nat_digits k"] assms(2,3) journal_not_temp [of root q k] backup_not_temp [of p q k]
    by (metis clean_names_def)
  with w' show ?thesis using that by (simp add: clean_names_def)
qed

lemma write_journal_succeeds:
  assumes "reliable m" "clean_names w"
  obtains w' where "write_tunnel_journal m root j w = (Inr (), j\<lparr>tj_updated := t_rfc (m_clock m (w_tick w))\<rparr>, w')" "clean_names w'"
proof -
  have c: "clean_names (tick w)" using assms(2) by simp
  obtain w' where w': "atomic_write m (journal_path root)
      (journal_text (j\<lparr>tj_updated := t_rfc (m_clock m (w_tick w))\<rparr>)) 384 (tick w) = (Inr (), w')" "clean_names w'"
    by (rule clean_write [OF assms(1) c disjI1 [OF refl]])
  show ?thesis by (rule that [OF _ w'(2)]) (simp add: write_tunnel_journal_def now_def Let_def w'(1))
qed

lemma remove_if_present_succeeds:
  assumes "reliable m" "clean_names w"
  obtains w' where "remove_if_present m p w = (Inr (), w')" "clean_names w'"
  using assms by (cases "w_files w p") (auto simp: remove_if_present_def remove_file_def clean_names_def)

lemma persist_clean_succeeds:
  assumes "reliable m" "clean_names w"
  obtains w' where "persist_clean_journal m root j w = (Inr (), w')"
proof -
  have c: "clean_names (tick w)" using assms(2) by simp
  obtain w1 where 1: "atomic_write m (last_clean_path root)
      (journal_text (j\<lparr>tj_updated := t_rfc (m_clock m (w_tick w)), tj_from_backup := False\<rparr>)) 384 (tick w) = (Inr (), w1)"
      "clean_names w1"
    by (rule clean_write [OF assms(1) c disjI2 [OF refl]])
  obtain w2 where 2: "remove_if_present m (journal_path root) w1 = (Inr (), w2)" "clean_names w2"
    by (rule remove_if_present_succeeds [OF assms(1) 1(2)])
  obtain w3 where 3: "remove_if_present m (journal_backup_path root) w2 = (Inr (), w3)" "clean_names w3"
    by (rule remove_if_present_succeeds [OF assms(1) 2(2)])
  show ?thesis
    by (rule that) (simp add: persist_clean_journal_def now_def Let_def 1(1) 2(1) 3(1))
qed

lemma quiet_exec [simp]:
  "exec_cmd quiet_machine c w = (([], None), (tick w)\<lparr>w_log := w_log w @ [c]\<rparr>)"
  by (simp add: exec_cmd_def quiet_machine_def tick_def Let_def)

lemma normalized_lines_empty [simp]: "normalized_lines [] = []"
  by (simp add: normalized_lines_def trim_space_def)

lemma quiet_lines [simp]:
  "command_lines quiet_machine c w = (Inr [], (tick w)\<lparr>w_log := w_log w @ [c]\<rparr>)"
  by (simp add: command_lines_def)

lemma quiet_capture:
  obtains s w' where "capture_snapshot Linux quiet_machine w = (Inr s, w')" "w_files w' = w_files w"
    "ns_routes4 s = []" "ns_routes6 s = []" "ns_rules4 s = []" "ns_rules6 s = []"
proof -
  obtain c w' where c: "capture_snapshot Linux quiet_machine w = (c, w')" by fastforce
  have f: "w_files w' = w_files w" using capture_observes [OF c] by (simp add: observes_def)
  have "\<exists>s. c = Inr s \<and> ns_routes4 s = [] \<and> ns_routes6 s = [] \<and> ns_rules4 s = [] \<and> ns_rules6 s = []"
    using c by (auto simp: capture_snapshot_def capture_linux_def Let_def split: prod.splits)
  with c f show ?thesis using that by blast
qed

lemma quiet_iface [simp]: "iface_by_name quiet_machine n w = (None, tick w)"
  by (simp add: iface_by_name_def observe_def quiet_machine_def tick_def Let_def)

lemma quiet_each:
  assumes "\<And>x w. x \<in> set xs \<Longrightarrow> \<exists>w'. f x w = (None, w') \<and> w_files w' = w_files w"
  shows "\<exists>acts w'. each_owned f msg xs w = ((acts, None), w') \<and> w_files w' = w_files w"
  using assms
proof (induction xs arbitrary: w)
  case (Cons x xs)
  obtain w1 where 1: "f x w = (None, w1)" "w_files w1 = w_files w" using Cons.prems by force
  obtain acts w2 where "each_owned f msg xs w1 = ((acts, None), w2)" "w_files w2 = w_files w1"
    using Cons by (metis list.set_intros(2))
  with 1 show ?case by simp
qed simp

lemma quiet_steps:
  "(\<And>f w. f \<in> set fs \<Longrightarrow> \<exists>a w'. f w = ((a, None), w')) \<Longrightarrow> \<exists>a w'. run_steps fs w = ((a, None), w')"
proof (induction fs arbitrary: w)
  case (Cons f fs)
  obtain a w1 where 1: "f w = ((a, None), w1)" using Cons.prems by force
  obtain b w2 where "run_steps fs w1 = ((b, None), w2)" using Cons by (metis list.set_intros(2))
  with 1 show ?case by simp
qed simp

lemma quiet_recover:
  obtains acts w' where "recover_owned Linux quiet_machine d w = ((acts, None), w')" "w_files w' = w_files w"
proof -
  have del: "\<exists>w'. delete_rule_priority quiet_machine fam p w = (None, w') \<and> w_files w' = w_files w"
    and fl: "\<exists>w'. flush_route_table quiet_machine fam t w = (None, w') \<and> w_files w' = w_files w" for fam p t w
    by (simp_all add: delete_rule_priority_def flush_route_table_def)
  have e: "\<exists>a w'. each_owned (delete_rule_priority quiet_machine fam) g ps w = ((a, None), w')"
    "\<exists>a w'. each_owned (flush_route_table quiet_machine fam) h ts w = ((a, None), w')" for fam g h ps ts w
    using quiet_each [of ps "delete_rule_priority quiet_machine fam" g w, OF del]
      quiet_each [of ts "flush_route_table quiet_machine fam" h w, OF fl] by auto
  have "\<exists>acts w'. recover_linux quiet_machine d w = ((acts, None), w')"
    unfolding recover_linux_def
    by (rule quiet_steps) (auto simp: delete_owned_tun_def e)
  then obtain acts w' where r: "recover_owned Linux quiet_machine d w = ((acts, None), w')"
    by (auto simp: recover_owned_def)
  moreover have "w_files w' = w_files w" using recover_owned_observes [OF r] by (simp add: observes_def)
  ultimately show ?thesis using that by blast
qed

text \<open>The sample journal is recovered.\<close>

abbreviation sample_world :: "unit world" where
  "sample_world \<equiv> world_of [(journal_path ''/s'', journal_text sample_journal)] ()"

lemma sample_clean_names: "clean_names sample_world" "clean_names (world_of [] ())"
  using journal_not_temp(1) [of "''/s''", symmetric] by (simp_all add: clean_names_def world_of_def)

lemma sample_simps [simp]:
  "tj_pid sample_journal = 0" "tj_phase sample_journal = ''prepared''" "tj_active sample_journal = None"
  "tj_from_backup sample_journal = False"
  by (simp_all add: sample_journal_def zero_journal_def)

lemma quiet_verify:
  "ns_routes4 s = [] \<Longrightarrow> ns_routes6 s = [] \<Longrightarrow> ns_rules4 s = [] \<Longrightarrow> ns_rules6 s = [] \<Longrightarrow> verify_owned_absent s d = None"
  by (simp add: verify_owned_absent_None)

lemma sample_recover_stale:
  obtains w' where "recover_stale Linux quiet_machine ctx ''/s'' sample_world = (Inr (), w')"
proof -
  let ?P = "net_platform_of Linux :: unit net_platform"
  obtain s w1 where 1: "capture_snapshot Linux quiet_machine (tick sample_world) = (Inr s, w1)"
      "w_files w1 = w_files (tick sample_world)"
    by (rule quiet_capture)
  have c1: "clean_names w1" using sample_clean_names(1) by (simp add: clean_names_cong [OF 1(2)])
  let ?j2 = "(own_observed s sample_journal)\<lparr>tj_phase := ''recovering''\<rparr>"
  obtain w2 where 2: "write_tunnel_journal quiet_machine ''/s'' ?j2 w1 =
      (Inr (), ?j2\<lparr>tj_updated := t_rfc (m_clock quiet_machine (w_tick w1))\<rparr>, w2)" "clean_names w2"
    by (rule write_journal_succeeds [OF reliable_quiet c1])
  let ?j3 = "?j2\<lparr>tj_updated := t_rfc (m_clock quiet_machine (w_tick w1))\<rparr>"
  obtain acts w3 where 3: "recover_owned Linux quiet_machine (tj_owned ?j3) w2 = ((acts, None), w3)" "w_files w3 = w_files w2"
    by (rule quiet_recover)
  obtain post w4 where 4: "capture_snapshot Linux quiet_machine w3 = (Inr post, w4)" "w_files w4 = w_files w3"
    "ns_routes4 post = []" "ns_routes6 post = []" "ns_rules4 post = []" "ns_rules6 post = []"
    by (rule quiet_capture)
  have c4: "clean_names (tick w4)" using 2(2) 3(2) 4(2) by (simp add: clean_names_def)
  let ?j4 = "?j3\<lparr>tj_recovery := tj_recovery ?j3 @ acts\<rparr>"
  obtain w5 where 5: "persist_clean_journal quiet_machine ''/s''
      (?j4\<lparr>tj_phase := ''clean'', tj_pid := 0, tj_pid_identity := [], tj_last_error := []\<rparr>) (tick w4) = (Inr (), w5)"
    by (rule persist_clean_succeeds [OF reliable_quiet c4])
  have "attempt_recovery ?P quiet_machine ctx ''/s'' (tj_owned ?j3) w2 = ((acts, None), w3)"
    using 3(1) by (simp add: attempt_recovery_def)
  moreover have "conclude_recovery ?P quiet_machine ''/s'' ?j4 w3 = (Inr (), w5)"
    using 4 5 by (simp add: conclude_recovery_def quiet_verify)
  moreover have "quarantine_invalid_primary quiet_machine ''/s'' (own_observed s sample_journal) w1 =
      (Inr (), own_observed s sample_journal, w1)"
    by (simp add: quarantine_invalid_primary_def own_observed_def)
  ultimately have "recover_dead ?P quiet_machine ctx ''/s'' sample_journal (tick sample_world) = (Inr (), w5)"
    using 1(1) 2(1) by (simp add: recover_dead_def)
  then have "recover_stale Linux quiet_machine ctx ''/s'' sample_world = (Inr (), w5)"
    by (simp add: recover_stale_def recover_stale_with_def sample_load check_recorded_process_def)
  then show ?thesis using that by blast
qed

section \<open>Properties\<close>

text \<open>C2: a failed or successful recovery on Linux runs nothing but: commands that read; the
  deletion of the interface \<^verbatim>\<open>antigravity-tun\<close>, of rules with an owned priority and the
  flush of owned tables; and the program's own recovery helper through the privilege
  broker.  What is owned is the record in the journal; only if the tunnel never became active it is that
  record with exactly those tables and priorities that the snapshot taken in this run, after the check of
  the recorded process, has and the snapshot of the journal has not.\<close>

theorem recovery_runs_only_owned:
  assumes "load_tunnel_journal m root w = (Inr (Some j), w1)"
    and "recover_stale Linux m ctx root w = (r, w')"
  shows "\<exists>d. (d = tj_owned j \<or> tj_active j = None \<and> (\<exists>j1 w2 current w3.
        check_recorded_process (net_platform_of Linux) m j w1 = (Inr j1, w2) \<and> capture_snapshot Linux m w2 = (Inr current, w3) \<and>
        grown (tj_owned j) (tj_before j) current d)) \<and>
     runs (\<lambda>c. read_only_cmd c \<or> owned_cmd d c \<or> helper_cmd m (journal_path root) c) w w'"
  using linux.recover_stale_runs [of m ctx root w r w' j w1] assms
  by (simp add: recover_stale_def allowed_cmd_def [abs_def])

lemma recovery_runs_only_owned_witness:
  "\<exists>d w'. recover_stale Linux quiet_machine (\<lambda>_. None) ''/s'' sample_world = (Inr (), w') \<and>
     runs (\<lambda>c. read_only_cmd c \<or> owned_cmd d c \<or> helper_cmd quiet_machine (journal_path ''/s'') c) sample_world w'"
proof -
  obtain w' where w': "recover_stale Linux quiet_machine (\<lambda>_. None) ''/s'' sample_world = (Inr (), w')"
    by (rule sample_recover_stale)
  from recovery_runs_only_owned [OF sample_load w'] w' show ?thesis by blast
qed

text \<open>Everywhere but on Linux recovery runs no command that changes the host.\<close>

theorem recovery_elsewhere_only_reads:
  assumes "pf \<noteq> Linux" "recover_stale pf m ctx root w = (r, w')"
  shows "runs read_only_cmd w w'"
proof -
  have none: "allowed_cmd no_cmd (no_cmd (journal_path root)) d = read_only_cmd" for d
    by (simp add: allowed_cmd_def [abs_def] no_cmd_def)
  obtain l w1 where l: "load_tunnel_journal m root w = (l, w1)" by fastforce
  show ?thesis
  proof (cases "\<exists>j. l = Inr (Some j)")
    case True
    then show ?thesis
      using assms l none windows.recover_stale_runs [of m ctx root w r w'] other.recover_stale_runs [of _ m ctx root w r w']
      by (cases pf) (auto simp: recover_stale_def)
  next
    case False
    then have "w' = w1" using assms(2) l
      by (auto simp: recover_stale_def recover_stale_with_def split: sum.splits option.splits)
    then show ?thesis using load_tunnel_journal_frame [OF l] runs_same_env by blast
  qed
qed

lemma recovery_elsewhere_only_reads_witness:
  "runs read_only_cmd sample_world (snd (recover_stale Windows quiet_machine (\<lambda>_. None) ''/s'' sample_world))"
  using recovery_elsewhere_only_reads [of Windows quiet_machine "\<lambda>_. None" "''/s''" sample_world] by (metis platform.distinct(1) prod.collapse)

text \<open>C5: recovery refuses to touch anything while the recorded process may be alive.  If
  the journal is open and its process exists, and its recorded identity is missing, cannot
  be read or is the same, then recovery fails, no file changes and only commands that read
  were run.\<close>

theorem recovery_refuses_live_process:
  assumes "load_tunnel_journal m root w = (Inr (Some j), w1)"
    and "tj_phase j \<notin> {''clean'', ''aborted-before-network-apply''}" "0 < tj_pid j"
    and "platform_process_alive pf m (tj_pid j) w1 = (True, w2)"
    and "platform_process_identity pf m (tj_pid j) w2 = (ident, w3)"
    and "tj_pid_identity j = [] \<or> \<not> is_ok ident \<or> ident = Inr (tj_pid_identity j)"
  shows "\<exists>e w'. recover_stale pf m ctx root w = (Inl e, w') \<and> w_files w' = w_files w \<and> runs read_only_cmd w w'"
proof -
  have "\<exists>e. check_recorded_process (net_platform_of pf) m j w1 = (Inl e, w3)"
    using assms(3-6) by (simp add: check_recorded_process_def) blast
  then obtain e where e: "recover_stale pf m ctx root w = (Inl e, w3)"
    using assms(1,2) by (auto simp: recover_stale_def recover_stale_with_def)
  have "observes read_only_cmd w1 w2" "observes read_only_cmd w2 w3"
    using alive_observes [OF assms(4)] identity_observes [OF assms(5)] by simp_all
  then have "observes read_only_cmd w1 w3" by (rule observes_trans)
  moreover have "runs read_only_cmd w w1" "w_files w1 = w_files w"
    using load_tunnel_journal_frame [OF assms(1)] runs_same_env by blast+
  ultimately show ?thesis using e by (auto simp: observes_def intro: runs_trans)
qed

definition live_machine :: "unit machine" where
  "live_machine = quiet_machine\<lparr>m_proc_dir := \<lambda>_ _. None,
     m_proc_stat := \<lambda>_ _. Inr ''77 (sing box) S 1 1 1 0 0 0 0 0 0 0 0 0 0 0 0 0 0 0 555 0''\<rparr>"

lemma reliable_live [simp]: "reliable live_machine"
  by (simp add: reliable_def live_machine_def quiet_machine_def)

definition live_journal :: journal where
  "live_journal = sample_journal\<lparr>tj_pid := 77, tj_pid_identity := ''555''\<rparr>"

lemma recovery_refuses_live_process_witness:
  "\<exists>e w'. recover_stale Linux live_machine (\<lambda>_. None) ''/s'' (world_of [(journal_path ''/s'', journal_text live_journal)] ()) = (Inl e, w')"
proof -
  let ?w = "world_of [(journal_path ''/s'', journal_text live_journal)] ()"
  have j: "storable live_journal" "valid_journal live_journal" "\<not> tj_from_backup live_journal"
    using sample_journal_ok by (simp_all add: live_journal_def storable_def valid_journal_def int64_range_def
        max_int64_def min_int64_def)
  have l: "load_tunnel_journal live_machine ''/s'' ?w = (Inr (Some live_journal), tick ?w)"
    by (rule load_stored [OF reliable_live j])
  obtain w2 where a: "platform_process_alive Linux live_machine (tj_pid live_journal) (tick ?w) = (True, w2)"
    by (simp add: platform_process_alive_def live_journal_def live_machine_def observe_def)
  obtain ident w3 where i: "platform_process_identity Linux live_machine (tj_pid live_journal) w2 = (ident, w3)" by fastforce
  have "stat_start_time 77 ''77 (sing box) S 1 1 1 0 0 0 0 0 0 0 0 0 0 0 0 0 0 0 555 0'' = Inr ''555''"
    by (simp add: stat_start_time_def str_fields_def has_prefix_def is_space_def)
  then have "ident = Inr (tj_pid_identity live_journal)"
    using i by (simp add: platform_process_identity_def live_journal_def live_machine_def observe_def)
  moreover have "tj_phase live_journal \<notin> {''clean'', ''aborted-before-network-apply''}" "0 < tj_pid live_journal"
    by (simp_all add: live_journal_def)
  ultimately show ?thesis
    using recovery_refuses_live_process [OF l _ _ a i] by blast
qed

text \<open>C3: a transaction is closed only after the host was seen clean.  If recovery of an open
  journal reports success, these steps follow one another: the check of the recorded process; a snapshot;
  no command (the journal is written); the removal of what is owned, with success; a second snapshot, which
  shows none of the owned tables and priorities; the interface \<^verbatim>\<open>antigravity-tun\<close> was absent after that; and no
  further command.  What is owned is the record of the journal, if the tunnel never became active together with
  what the first snapshot has beyond the journal's.  The journal and its backup are gone.\<close>

theorem closed_only_after_verification:
  assumes "recover_stale pf m ctx root w = (Inr (), w')"
    and "load_tunnel_journal m root w = (Inr (Some j), w1)"
    and "tj_phase j \<notin> {''clean'', ''aborted-before-network-apply''}"
  shows "\<exists>j1 w2 current w3 w4 d actions w5 post w6 w7.
     check_recorded_process (net_platform_of pf) m j w1 = (Inr j1, w2) \<and> capture_snapshot pf m w2 = (Inr current, w3) \<and> same_env w3 w4 \<and>
     (if tj_active j = None then grown (tj_owned j) (tj_before j) current d else d = tj_owned j) \<and>
     attempt_recovery (net_platform_of pf) m ctx root d w4 = ((actions, None), w5) \<and>
     capture_snapshot pf m w5 = (Inr post, w6) \<and> shows_none post d \<and> iface_by_name m agent_tun_name w6 = (None, w7) \<and> same_env w7 w' \<and>
     w_files w' (journal_path root) = None \<and> w_files w' (journal_backup_path root) = None"
proof -
  have ph: "\<not> (tj_phase j = ''clean'' \<or> tj_phase j = ''aborted-before-network-apply'')" using assms(3) by simp
  note r = assms(1) [unfolded recover_stale_def]
  show ?thesis
    using linux.recover_stale_chain [OF _ assms(2) ph, of ctx w'] windows.recover_stale_chain [OF _ assms(2) ph, of ctx w']
      other.recover_stale_chain [OF _ assms(2) ph, of _ ctx w'] r
    unfolding net_platform_simps by (cases pf) (simp_all only: simp_thms)
qed

lemma closed_only_after_verification_witness:
  "\<exists>w'. recover_stale Linux quiet_machine (\<lambda>_. None) ''/s'' sample_world = (Inr (), w') \<and>
     w_files w' (journal_path ''/s'') = None"
proof -
  obtain w' where w': "recover_stale Linux quiet_machine (\<lambda>_. None) ''/s'' sample_world = (Inr (), w')"
    by (rule sample_recover_stale)
  from closed_only_after_verification [OF w' sample_load] w' show ?thesis by auto
qed

text \<open>C4: a started transaction is on disk before anything mutates the network.  If
  \<^verbatim>\<open>beginTunnelTransaction\<close> reports success, stale state was recovered, then the interface \<^verbatim>\<open>antigravity-tun\<close>
  was absent, and then the host was captured; since the recovery only reading commands ran, nothing was
  signalled or sent, and no file but the journal and its backup changed.  The journal's file decodes to a
  prepared journal that records exactly the reserved namespace as owned and exactly that capture, in which the
  namespace is empty, no process and no active snapshot; and no older backup is left.\<close>

theorem begin_records_ownership_first:
  assumes "begin_transaction (net_platform_of pf) m ctx root vpn w = (Inr (), w')" "good_clock m"
  shows "\<exists>j w1 w2 w3. recover_stale pf m ctx root w = (Inr (), w1) \<and> iface_by_name m agent_tun_name w1 = (None, w2) \<and>
    capture_snapshot pf m w2 = (Inr (tj_before j), w3) \<and> preflight_ownership pf (tj_before j) = None \<and>
    runs read_only_cmd w1 w' \<and> outs w' = outs w1 \<and> same_env w3 w' \<and>
    (\<forall>q. q \<noteq> journal_path root \<and> q \<noteq> journal_backup_path root \<longrightarrow> w_files w' q = w_files w1 q) \<and>
    map_option (decode_tunnel_journal \<circ> f_data) (w_files w' (journal_path root)) = Some (Inr j) \<and>
    tj_phase j = ''prepared'' \<and> tj_owned j = reserved_platform_ownership pf \<and> tj_pid j = 0 \<and> tj_vpn j = vpn \<and> tj_active j = None \<and>
    w_files w' (journal_backup_path root) = None"
  using linux.begin_chain [of m ctx root vpn w w', OF _ assms(2)] windows.begin_chain [of m ctx root vpn w w', OF _ assms(2)]
    other.begin_chain [of _ m ctx root vpn w w', OF _ assms(2)] assms(1)
  unfolding net_platform_simps recover_stale_def [symmetric] by (cases pf) (simp_all only: simp_thms)

lemma quiet_begin:
  obtains w' where "begin_transaction (net_platform_of Linux) quiet_machine ctx ''/s'' ''wg0'' (world_of [] ()) = (Inr (), w')"
proof -
  let ?w = "world_of [] () :: unit world"
  have l: "load_tunnel_journal quiet_machine ''/s'' ?w = (Inr None, tick ?w)"
    by (simp add: load_tunnel_journal_def read_file_run world_of_def)
  have st: "recover_stale_with (net_platform_of Linux) quiet_machine ctx ''/s'' ?w = (Inr (), tick ?w)"
    by (simp add: recover_stale_with_def l)
  obtain s w1 where c: "capture_snapshot Linux quiet_machine (tick (tick ?w)) = (Inr s, w1)"
      "w_files w1 = w_files (tick (tick ?w))" "ns_routes4 s = []" "ns_routes6 s = []" "ns_rules4 s = []" "ns_rules6 s = []"
    by (rule quiet_capture)
  have cn: "clean_names w1" using sample_clean_names(2) c(2) by (simp add: clean_names_def)
  obtain w2 where rm: "remove_if_present quiet_machine (journal_backup_path ''/s'') w1 = (Inr (), w2)" "clean_names w2"
    by (rule remove_if_present_succeeds [OF reliable_quiet cn])
  have pre: "preflight_ownership Linux s = None" using c(3-6) by (simp add: preflight_exact)
  let ?j = "zero_journal\<lparr>tj_schema := network_state_schema, tj_phase := ''prepared'',
            tj_op := itoa (t_nanos (m_clock quiet_machine (w_tick w2))) @ ''-'' @ itoa (m_getpid quiet_machine), tj_vpn := ''wg0'',
            tj_created := t_rfc (m_clock quiet_machine (w_tick w2)),
            tj_updated := t_rfc (m_clock quiet_machine (w_tick w2)), tj_before := s, tj_owned := reserved_platform_ownership Linux\<rparr>"
  have "clean_names (tick w2)" using rm(2) by simp
  then obtain w3 where "write_tunnel_journal quiet_machine ''/s'' ?j (tick w2) =
      (Inr (), ?j\<lparr>tj_updated := t_rfc (m_clock quiet_machine (w_tick (tick w2)))\<rparr>, w3)"
    by (rule write_journal_succeeds [OF reliable_quiet])
  then have "begin_transaction (net_platform_of Linux) quiet_machine ctx ''/s'' ''wg0'' ?w = (Inr (), w3)"
    using st c(1) pre rm(1) by (simp add: begin_transaction_def now_def Let_def)
  then show ?thesis by (rule that)
qed

lemma begin_records_ownership_first_witness:
  "\<exists>w' j. begin_transaction (net_platform_of Linux) quiet_machine (\<lambda>_. None) ''/s'' ''wg0'' (world_of [] ()) = (Inr (), w') \<and>
    map_option (decode_tunnel_journal \<circ> f_data) (w_files w' (journal_path ''/s'')) = Some (Inr j) \<and> tj_phase j = ''prepared''"
proof -
  obtain w' where w': "begin_transaction (net_platform_of Linux) quiet_machine (\<lambda>_. None) ''/s'' ''wg0'' (world_of [] ()) = (Inr (), w')"
    by (rule quiet_begin)
  from begin_records_ownership_first [OF w' good_clock_quiet] w' show ?thesis by blast
qed

text \<open>The start is refused without touching anything while the namespace is taken.  With
  no open journal, if the interface \<^verbatim>\<open>antigravity-tun\<close> exists already or the snapshot shows an
  occupied reserved table or priority, \<^verbatim>\<open>beginTunnelTransaction\<close> fails, no file changes
  and only commands that read were run.\<close>

theorem begin_refuses_occupied_namespace:
  assumes "load_tunnel_journal m root w = (Inr None, w1)"
    and "iface_by_name m agent_tun_name w1 = (tun, w2)" "capture_snapshot pf m w2 = (Inr before, w3)"
    and "tun \<noteq> None \<or> preflight_ownership pf before \<noteq> None"
  shows "\<exists>e w'. begin_transaction (net_platform_of pf) m ctx root vpn w = (Inl e, w') \<and>
    w_files w' = w_files w \<and> runs read_only_cmd w w'"
proof -
  have l: "observes read_only_cmd w w1"
    using load_tunnel_journal_frame [OF assms(1)] runs_same_env by (auto simp: observes_def same_env_def)
  have o: "observes read_only_cmd w w2" "observes read_only_cmd w w3"
    using l iface_observes [OF assms(2)] capture_observes [OF assms(3)] observes_trans by blast+
  have "\<exists>e w'. begin_transaction (net_platform_of pf) m ctx root vpn w = (Inl e, w') \<and> (w' = w2 \<or> w' = w3)"
    using assms by (cases tun) (auto simp: begin_transaction_def recover_stale_with_def)
  with o show ?thesis by (auto simp: observes_def)
qed

lemma begin_refuses_occupied_namespace_witness:
  "\<exists>e w'. begin_transaction (net_platform_of Linux)
     (quiet_machine\<lparr>m_ifaces := \<lambda>_. [\<lparr>if_name = agent_tun_name, if_up = True, if_loopback = False, if_flags = ''up''\<rparr>]\<rparr>)
     (\<lambda>_. None) ''/s'' ''wg0'' (world_of [] ()) = (Inl e, w')"
proof -
  let ?m = "quiet_machine\<lparr>m_ifaces := \<lambda>_. [\<lparr>if_name = agent_tun_name, if_up = True, if_loopback = False, if_flags = ''up''\<rparr>]\<rparr>"
  let ?w = "world_of [] () :: unit world"
  have l: "load_tunnel_journal ?m ''/s'' ?w = (Inr None, tick ?w)"
    by (simp add: load_tunnel_journal_def read_file_def fault_now_def quiet_machine_def world_of_def no_such_file_def)
  obtain w2 where i: "iface_by_name ?m agent_tun_name (tick ?w) = (Some \<lparr>if_name = agent_tun_name, if_up = True, if_loopback = False, if_flags = ''up''\<rparr>, w2)"
    by (simp add: iface_by_name_def observe_def)
  obtain s w3 where "capture_snapshot Linux ?m w2 = (Inr s, w3)"
  proof (cases "capture_snapshot Linux ?m w2")
    case (Pair r w3)
    have "exec_cmd ?m c u = (([], None), (tick u)\<lparr>w_log := w_log u @ [c]\<rparr>)" for c and u :: "unit world"
      by (simp add: exec_cmd_def quiet_machine_def tick_def Let_def)
    then have "\<exists>s. r = Inr s"
      using Pair by (auto simp: capture_snapshot_def capture_linux_def command_lines_def Let_def split: prod.splits)
    with Pair show ?thesis using that by blast
  qed
  from begin_refuses_occupied_namespace [OF l i this] show ?thesis by blast
qed

lemma reserved_rule_set: "{tunnel_rule_start..tunnel_rule_end} = {19000..19031}"
  by (simp add: tunnel_rule_start_def tunnel_rule_end_def)

text \<open>What a recovery owns when the tunnel never became active.  For a journal that
  records the reserved namespace, it is that namespace and every table and priority that
  the current state has and the journal's snapshot has not, whoever created them.\<close>

theorem unactivated_ownership_exact:
  assumes "tj_owned j = reserved_platform_ownership Linux" "d = tj_owned (own_observed current j)"
  shows "set (od_tables4 d) = {''20229''} \<union> (tables_in (ns_routes4 current) - tables_in (ns_routes4 (tj_before j))) \<and>
    set (od_tables6 d) = {''20229''} \<union> (tables_in (ns_routes6 current) - tables_in (ns_routes6 (tj_before j))) \<and>
    set (od_prios4 d) = {19000..19031} \<union> (prios_in (ns_rules4 current) - prios_in (ns_rules4 (tj_before j))) \<and>
    set (od_prios6 d) = {19000..19031} \<union> (prios_in (ns_rules6 current) - prios_in (ns_rules6 (tj_before j)))"
  using assms
  by (simp add: own_observed_def derive_owned_delta_def reserved_table_text reserved_rule_set)

lemma unactivated_ownership_exact_witness:
  "''100'' \<in> set (od_tables4 (tj_owned (own_observed (zero_snapshot\<lparr>ns_routes4 := [''default dev eth0 table 100'']\<rparr>)
      (sample_journal\<lparr>tj_owned := reserved_platform_ownership Linux\<rparr>))))"
proof -
  have "route_table ''default dev eth0 table 100'' = ''100''"
    by (simp add: route_table_def str_fields_def is_space_def)
  then show ?thesis
    using unactivated_ownership_exact [OF _ refl, of "sample_journal\<lparr>tj_owned := reserved_platform_ownership Linux\<rparr>"
        "zero_snapshot\<lparr>ns_routes4 := [''default dev eth0 table 100'']\<rparr>"]
    by (simp add: tables_in_def sample_journal_def zero_journal_def zero_snapshot_def)
qed

text \<open>Moving an invalid primary journal aside hides the transaction until the next write.
  After a successful \<^verbatim>\<open>quarantineInvalidPrimary\<close>, and until the journal is written again (if
  the machine stops there, or that write fails), loading finds no open transaction, although
  the valid backup is still on disk.\<close>

theorem quarantine_hides_transaction:
  assumes "quarantine_invalid_primary m root j w = (Inr (), j', w')" "tj_from_backup j" "fault_now m w' = None"
  shows "load_tunnel_journal m root w' = (Inr None, tick w') \<and>
    w_files w' (journal_backup_path root) = w_files w (journal_backup_path root)"
proof -
  obtain q where q: "q = journal_path root @ ''.corrupt-'' @ t_compact (m_clock m (w_tick w))"
    and r: "rename_file m (journal_path root) q (tick w) = (Inr (), w')"
    using assms(1,2) by (auto simp: quarantine_invalid_primary_def now_def Let_def split: prod.splits sum.splits)
  then obtain x where "w_files w' = (w_files w)(journal_path root := None, q \<mapsto> x)"
    by (auto simp: rename_file_def split: option.splits)
  moreover have "q \<noteq> journal_path root" "q \<noteq> journal_backup_path root"
    using q by (simp_all add: journal_backup_path_def)
  ultimately show ?thesis
    using assms(3) by (simp add: load_tunnel_journal_def read_file_run)
qed

definition damaged_world :: "unit world" where
  "damaged_world = world_of [(journal_path ''/s'', ''{''), (journal_backup_path ''/s'', journal_text sample_journal)] ()"

lemma quarantine_hides_transaction_witness:
  "\<exists>j' w'. quarantine_invalid_primary quiet_machine ''/s'' (sample_journal\<lparr>tj_from_backup := True\<rparr>) damaged_world = (Inr (), j', w') \<and>
     load_tunnel_journal quiet_machine ''/s'' w' = (Inr None, tick w') \<and> w_files w' (journal_backup_path ''/s'') \<noteq> None"
proof -
  let ?j = "sample_journal\<lparr>tj_from_backup := True\<rparr>"
  obtain j' w' where q: "quarantine_invalid_primary quiet_machine ''/s'' ?j damaged_world = (Inr (), j', w')"
    by (simp add: quarantine_invalid_primary_def now_def rename_file_def damaged_world_def world_of_def Let_def)
  from quarantine_hides_transaction [OF q] q show ?thesis
    by (simp add: damaged_world_def world_of_def)
qed

text \<open>A damaged journal of an active tunnel is recovered without looking at the process.
  If the journal of the active tunnel was written over the prepared journal \<open>j0\<close> (which has
  no process yet) and its file is then damaged, the loaded journal has no process, and the
  check for a live process passes without any observation.\<close>

theorem damaged_active_journal_skips_live_check:
  assumes "write_tunnel_journal m root j w = (Inr (), j', w')" "reliable m" "good_clock m" "storable j" "valid_journal j"
    and "w_files w (journal_path root) = Some x0" "decode_tunnel_journal (f_data x0) = Inr j0" "tj_pid j0 = 0"
    and "w_files w (last_clean_path root) = None"
    and "decode_tunnel_journal (f_data junk) = Inl pe"
  shows "\<exists>b. fst (load_tunnel_journal m root (put_fs ((w_files w')(journal_path root \<mapsto> junk)) w')) = Inr (Some b) \<and>
    tj_phase b = tj_phase j0 \<and> check_recorded_process P m b u = (Inr b, u)"
proof -
  have "fst (load_tunnel_journal m root (put_fs ((w_files w')(journal_path root \<mapsto> junk)) w')) = Inr (Some (recovered_from pe j0))"
    using journal_fallback [OF assms(1-7,9,10)] by blast
  then show ?thesis
    using assms(8) by (auto simp: recovered_from_def check_recorded_process_def)
qed

lemma damaged_active_journal_skips_live_check_witness:
  "\<exists>j' w' b. write_tunnel_journal live_machine ''/s'' live_journal sample_world = (Inr (), j', w') \<and>
     fst (load_tunnel_journal live_machine ''/s''
       (put_fs ((w_files w')(journal_path ''/s'' \<mapsto> \<lparr>f_data = [], f_perm = 384, f_synced = True\<rparr>)) w')) = Inr (Some b) \<and>
     check_recorded_process (net_platform_of Linux) live_machine b sample_world = (Inr b, sample_world)"
proof -
  let ?junk = "\<lparr>f_data = [], f_perm = 384, f_synced = True\<rparr>"
  have j: "storable live_journal" "valid_journal live_journal"
    using sample_journal_ok by (simp_all add: live_journal_def storable_def valid_journal_def int64_range_def
        max_int64_def min_int64_def)
  have gc: "good_clock live_machine"
    using good_clock_quiet by (simp add: good_clock_def live_machine_def)
  obtain j' w' where w: "write_tunnel_journal live_machine ''/s'' live_journal sample_world = (Inr (), j', w')"
    using write_journal_succeeds [OF reliable_live sample_clean_names(1)] by metis
  obtain pe where pe: "decode_tunnel_journal (f_data ?junk) = Inl pe"
    by (simp add: decode_tunnel_journal_def unmarshal_def parse_json_def)
  have d: "decode_tunnel_journal (f_data \<lparr>f_data = journal_text sample_journal, f_perm = 384, f_synced = True\<rparr>) = Inr sample_journal"
    using decode_journal_text [OF sample_journal_ok] by (simp add: sample_journal_def zero_journal_def)
  have "w_files sample_world (journal_path ''/s'') = Some \<lparr>f_data = journal_text sample_journal, f_perm = 384, f_synced = True\<rparr>"
    "w_files sample_world (last_clean_path ''/s'') = None"
    by (simp_all add: world_of_def)
  from damaged_active_journal_skips_live_check [OF w reliable_live gc j this(1) d _ this(2) pe,
      of "net_platform_of Linux" sample_world] w
  show ?thesis by auto
qed

text \<open>Activation is recorded completely.  If \<^verbatim>\<open>markTunnelActive\<close> reports success, the
  journal's file decodes to the loaded journal with the phase active, the managed process
  and (for a real process) the identity that the system reports for it, a snapshot of the
  host as active state, and as owned everything recorded before and everything that the
  active state has and the journal's first snapshot has not.\<close>

theorem activation_recorded:
  assumes "mark_active (net_platform_of pf) m root pid w = (Inr (), w')" "good_clock m" "int64_range pid"
  shows "\<exists>j j'. fst (load_tunnel_journal m root w) = Inr (Some j) \<and>
    map_option (decode_tunnel_journal \<circ> f_data) (w_files w' (journal_path root)) = Some (Inr j') \<and>
    tj_phase j' = ''active'' \<and> tj_op j' = tj_op j \<and> tj_pid j' = pid \<and> tj_before j' = tj_before j \<and>
    (0 < pid \<longrightarrow> (\<exists>u. fst (platform_process_identity pf m pid u) = Inr (tj_pid_identity j'))) \<and>
    (\<exists>act. tj_active j' = Some act \<and> covers (tj_owned j') (derive_owned_delta (tj_before j) act)) \<and>
    covers (tj_owned j') (tj_owned j)"
proof -
  from assms(1) obtain j w1 act w2 idt w3 j2 where l: "load_tunnel_journal m root w = (Inr (Some j), w1)"
    and c: "np_capture (net_platform_of pf) m w1 = (Inr act, w2)"
    and i: "(if pid > 0 then np_identity (net_platform_of pf) m pid w2 else (Inr (tj_pid_identity j), w2)) = (Inr idt, w3)"
    and wr: "write_tunnel_journal m root (own_observed act (j\<lparr>tj_phase := ''active'', tj_pid := pid,
        tj_pid_identity := idt, tj_active := Some act\<rparr>)) w3 = (Inr (), j2, w')"
    by (rule mark_active_cases)
  let ?j = "own_observed act (j\<lparr>tj_phase := ''active'', tj_pid := pid, tj_pid_identity := idt, tj_active := Some act\<rparr>)"
  have "valid_snapshot act" using capture_valid_snapshot [OF assms(2)] c by simp
  moreover have "storable j" using l by (rule load_tunnel_journal_storable)
  ultimately have st: "storable ?j" using assms(3) by (intro own_observed_storable) (simp add: storable_def)
  have va: "valid_journal ?j" using load_tunnel_journal_valid [OF l]
    by (simp add: valid_journal_def own_observed_def known_phase_def)
  note d = write_tunnel_journal_stored [OF wr assms(2) st va] write_tunnel_journalD [OF wr]
  have f: "map_option (decode_tunnel_journal \<circ> f_data) (w_files w' (journal_path root)) = Some (Inr (j2\<lparr>tj_from_backup := False\<rparr>))"
    using atomic_write_ok(1) [OF d(2)] d(1) by simp
  have "0 < pid \<Longrightarrow> fst (platform_process_identity pf m pid w2) = Inr idt" using i by simp
  then show ?thesis
    using l f d(3) by (intro exI [of _ j] exI [of _ "j2\<lparr>tj_from_backup := False\<rparr>"])
      (auto simp: own_observed_def covers_def)
qed

lemma activation_recorded_witness:
  "\<exists>w' j'. mark_active (net_platform_of Linux) quiet_machine ''/s'' 0 sample_world = (Inr (), w') \<and>
    map_option (decode_tunnel_journal \<circ> f_data) (w_files w' (journal_path ''/s'')) = Some (Inr j') \<and> tj_phase j' = ''active''"
proof -
  obtain s w1 where c: "capture_snapshot Linux quiet_machine (tick sample_world) = (Inr s, w1)"
      "w_files w1 = w_files (tick sample_world)"
    by (rule quiet_capture)
  have cn: "clean_names w1" using sample_clean_names(1) by (simp add: clean_names_cong [OF c(2)])
  let ?j = "own_observed s (sample_journal\<lparr>tj_phase := ''active'', tj_pid := 0,
     tj_pid_identity := tj_pid_identity sample_journal, tj_active := Some s\<rparr>)"
  obtain w2 where "write_tunnel_journal quiet_machine ''/s'' ?j w1 =
      (Inr (), ?j\<lparr>tj_updated := t_rfc (m_clock quiet_machine (w_tick w1))\<rparr>, w2)"
    using write_journal_succeeds [OF reliable_quiet cn] by metis
  then have m: "mark_active (net_platform_of Linux) quiet_machine ''/s'' 0 sample_world = (Inr (), w2)"
    by (simp add: mark_active_def sample_load c(1) Let_def)
  from activation_recorded [OF m good_clock_quiet] m show ?thesis by auto
qed

text \<open>A transaction is not closed under a running helper.  While the managed process
  runs, \<^verbatim>\<open>abortPreparedTunnelTransaction\<close> changes nothing and \<^verbatim>\<open>finishTunnelTransaction\<close>
  fails and changes nothing when a journal is open; and an abort never touches a journal
  whose phase is not prepared.\<close>

theorem running_helper_keeps_transaction:
  assumes "load_tunnel_journal m root w = (Inr (Some j), w1)"
  shows "w_files (abort_prepared m root True reason w) = w_files w \<and>
    (\<exists>e w'. finish_transaction P m ctx root True w = (Inl e, w') \<and> w_files w' = w_files w) \<and>
    (tj_phase j \<noteq> ''prepared'' \<longrightarrow> w_files (abort_prepared m root running reason w) = w_files w)"
  using assms load_tunnel_journal_frame [OF assms] by (simp add: abort_prepared_def finish_transaction_def)

lemma running_helper_keeps_transaction_witness:
  "w_files (abort_prepared quiet_machine ''/s'' True ''stop'' sample_world) = w_files sample_world"
  using running_helper_keeps_transaction [OF sample_load] by blast

end
