(* ===== verification/PrivilegedHelper.thy ===== *)
theory PrivilegedHelper imports Recovery begin

text \<open>
  What runs as root: \<^verbatim>\<open>linux_privileged_helper_linux.go\<close> (the recovery and setup entry
  points behind \<^verbatim>\<open>pkexec\<close>/\<^verbatim>\<open>sudo\<close>) and the host checks of \<^verbatim>\<open>tunnel_host_linux.go\<close> that
  lead to them.  Both entry points take their arguments from an unprivileged caller, so the
  lemmas bound the commands they can run whatever the arguments are.
\<close>

section \<open>Who called\<close>

text \<open>\<^verbatim>\<open>strconv.ParseUint(s, 10, 32)\<close>.\<close>

definition parse_uint32 :: "string \<Rightarrow> nat option" where
  "parse_uint32 s = (case atoi_digits s of None \<Rightarrow> None | Some n \<Rightarrow> if n < 2 ^ 32 then Some n else None)"

fun invoking_uid_of :: "(string \<Rightarrow> string) \<Rightarrow> string list \<Rightarrow> nat option res" where
  "invoking_uid_of env [] = Inr None"
| "invoking_uid_of env (key # keys) =
     (let raw = trim_space (env key) in
      if raw = [] then invoking_uid_of env keys
      else (case parse_uint32 raw of
              None \<Rightarrow> Inl (new_err (''invalid '' @ key @ ''='' @ go_quote raw))
            | Some v \<Rightarrow> Inr (Some v)))"

definition invoking_desktop_uid :: "'k machine \<Rightarrow> nat option res" where
  "invoking_desktop_uid m = invoking_uid_of (m_getenv m) [''PKEXEC_UID'', ''SUDO_UID'']"

definition host_lstat :: "'k machine \<Rightarrow> string \<Rightarrow> 'k world \<Rightarrow> (gerr + hstat) \<times> 'k world" where
  "host_lstat m p w = observe m (\<lambda>k. m_host_lstat m k p) w"

section \<open>The recovery entry point\<close>

definition validate_privileged_journal_target :: "'k machine \<Rightarrow> string \<Rightarrow> 'k world \<Rightarrow> gerr option \<times> 'k world" where
  "validate_privileged_journal_target m path w =
     (if \<not> path_is_abs path \<or> path_base path \<noteq> ''network-state.json'' \<or>
         path_base (path_dir path) \<noteq> ''AntigravitiProxi''
      then (Some (new_err (''refusing unexpected Agent Tunnel journal path '' @ go_quote path)), w)
      else (case host_lstat m path w of
        (Inl e, w1) \<Rightarrow> (Some (wrap_err ''lstat Agent Tunnel journal: '' e), w1)
      | (Inr st, w1) \<Rightarrow>
          if hs_symlink st \<or> \<not> hs_regular st
          then (Some (new_err ''refusing symlink or non-regular Agent Tunnel journal''), w1)
          else (case invoking_desktop_uid m of
                  Inl e \<Rightarrow> (Some e, w1)
                | Inr None \<Rightarrow> (None, w1)
                | Inr (Some uid) \<Rightarrow>
                    if hs_uid st \<noteq> Some uid
                    then (Some (new_err ''refusing journal not owned by invoking desktop user''), w1)
                    else (None, w1))))"

fun same_list :: "'a list \<Rightarrow> 'a list \<Rightarrow> bool" where
  "same_list [] [] = True"
| "same_list (x # xs) (y # ys) = (x = y \<and> same_list xs ys)"
| "same_list _ _ = False"

definition validate_reserved_ownership :: "owned_delta \<Rightarrow> gerr option" where
  "validate_reserved_ownership owned =
     (let want = reserved_platform_ownership Linux in
      if od_tun owned \<noteq> od_tun want \<or> \<not> same_list (od_tables4 owned) (od_tables4 want) \<or>
         \<not> same_list (od_tables6 owned) (od_tables6 want) \<or> \<not> same_list (od_prios4 owned) (od_prios4 want) \<or>
         \<not> same_list (od_prios6 owned) (od_prios6 want)
      then Some (new_err ''refusing privileged recovery: journal ownership is outside the reserved Agent Tunnel namespace'')
      else None)"

definition run_privileged_recovery :: "'k machine \<Rightarrow> string \<Rightarrow> 'k world \<Rightarrow> unit res \<times> 'k world" where
  "run_privileged_recovery m journal_arg w =
     (if m_geteuid m \<noteq> 0 then (Inl (new_err ''privileged Linux recovery helper must run as root''), w) else
      (let path = path_clean (trim_space journal_arg) in
       case validate_privileged_journal_target m path w of
         (Some e, w1) \<Rightarrow> (Inl e, w1)
       | (None, w1) \<Rightarrow>
      (case read_file m path w1 of
         (Inl e, w2) \<Rightarrow> (Inl (wrap_err ''read Agent Tunnel journal: '' e), w2)
       | (Inr raw, w2) \<Rightarrow>
      (case decode_tunnel_journal raw of
         Inl e \<Rightarrow> (Inl (wrap_err ''validate Agent Tunnel journal: '' e), w2)
       | Inr j \<Rightarrow>
           if tj_phase j \<noteq> ''recovering''
           then (Inl (new_err (''refusing privileged recovery for journal phase '' @ go_quote (tj_phase j))), w2)
           else (case (if tj_pid j > 0 then platform_process_alive Linux m (tj_pid j) w2 else (False, w2)) of
             (True, w3) \<Rightarrow> (Inl (new_err (''refusing privileged recovery while managed PID '' @ itoa (tj_pid j) @ '' is alive'')), w3)
           | (False, w3) \<Rightarrow>
               (case validate_reserved_ownership (tj_owned j) of
                  Some e \<Rightarrow> (Inl e, w3)
                | None \<Rightarrow>
                    (case recover_owned Linux m (tj_owned j) w3 of
                       ((_, Some e), w4) \<Rightarrow> (Inl e, w4)
                     | ((_, None), w4) \<Rightarrow> (Inr (), w4))))))))"

section \<open>Capabilities\<close>

definition tunnel_capability_spec :: string where
  "tunnel_capability_spec = ''cap_net_admin,cap_net_raw,cap_sys_ptrace,cap_dac_read_search+ep''"

definition required_capabilities :: "string list" where
  "required_capabilities = [''cap_net_admin'', ''cap_net_raw'', ''cap_sys_ptrace'', ''cap_dac_read_search'']"

text \<open>One field of \<^verbatim>\<open>getcap\<close>'s output against the clause pattern of the code: capability names
  separated by commas, \<^verbatim>\<open>=\<close> or \<^verbatim>\<open>+\<close>, then flags out of \<^verbatim>\<open>e\<close>, \<^verbatim>\<open>i\<close>, \<^verbatim>\<open>p\<close>.  A field has no white
  space, so the pattern has to match all of it.\<close>

definition cap_name_char :: "char \<Rightarrow> bool" where
  "cap_name_char c = (let n = of_char c :: nat in (97 \<le> n \<and> n \<le> 122) \<or> (48 \<le> n \<and> n \<le> 57) \<or> n = 95)"

definition is_cap_name :: "string \<Rightarrow> bool" where
  "is_cap_name s \<longleftrightarrow> has_prefix s ''cap_'' \<and> drop 4 s \<noteq> [] \<and> list_all cap_name_char (drop 4 s)"

definition cap_clause :: "string \<Rightarrow> (string list \<times> string) option" where
  "cap_clause field =
     (let names = takeWhile (\<lambda>c. c \<noteq> CHR ''='' \<and> c \<noteq> CHR ''+'') field;
          rest = drop (length names) field;
          ns = split_char (CHR '','') names
      in case rest of
           [] \<Rightarrow> None
         | _ # flags \<Rightarrow>
             if list_all is_cap_name ns \<and> flags \<noteq> [] \<and> list_all (\<lambda>c. c \<in> {CHR ''e'', CHR ''i'', CHR ''p''}) flags
             then Some (ns, flags) else None)"

definition present_capabilities :: "string \<Rightarrow> string list" where
  "present_capabilities output =
     concat (map (\<lambda>f. case cap_clause f of
         None \<Rightarrow> []
       | Some (ns, flags) \<Rightarrow> if CHR ''e'' \<in> set flags \<and> CHR ''p'' \<in> set flags then ns else [])
       (str_fields (to_lower output)))"

definition missing_capabilities :: "string \<Rightarrow> string list" where
  "missing_capabilities output = filter (\<lambda>c. c \<notin> set (present_capabilities output)) required_capabilities"

section \<open>The setup entry point\<close>

definition sha256_file :: "'k machine \<Rightarrow> string \<Rightarrow> 'k world \<Rightarrow> string res \<times> 'k world" where
  "sha256_file m p w =
     (case host_file m p w of (Inl e, w1) \<Rightarrow> (Inl e, w1) | (Inr b, w1) \<Rightarrow> (Inr (hex_text (sha256 b)), w1))"

definition verify_expected_hash :: "'k machine \<Rightarrow> string \<Rightarrow> string \<Rightarrow> 'k world \<Rightarrow> gerr option \<times> 'k world" where
  "verify_expected_hash m binary expected w =
     (case sha256_file m binary w of
        (Inl e, w1) \<Rightarrow> (Some (wrap_err ''hash managed sing-box: '' e), w1)
      | (Inr actual, w1) \<Rightarrow>
          if to_lower actual \<noteq> expected
          then (Some (new_err (''managed sing-box hash changed before privileged setup: got '' @ actual @ '' want '' @ expected)), w1)
          else (None, w1))"

definition validate_managed_binary :: "'k machine \<Rightarrow> string \<Rightarrow> 'k world \<Rightarrow> gerr option \<times> 'k world" where
  "validate_managed_binary m binary w =
     (let parent = path_dir binary in
      if \<not> path_is_abs binary \<or> path_base binary \<noteq> ''sing-box''
      then (Some (new_err (''refusing unexpected managed binary path '' @ go_quote binary)), w)
      else if path_base parent \<noteq> ''bin'' \<or> path_base (path_dir parent) \<noteq> ''AntigravitiProxi''
      then (Some (new_err (''refusing binary outside AntigravitiProxi/bin ownership boundary: '' @ go_quote binary)), w)
      else (case host_lstat m binary w of
        (Inl e, w1) \<Rightarrow> (Some (wrap_err ''lstat managed sing-box: '' e), w1)
      | (Inr st, w1) \<Rightarrow>
          if hs_symlink st
          then (Some (new_err (''refusing symlink as privileged managed sing-box target: '' @ go_quote binary)), w1)
          else if \<not> hs_regular st \<or> \<not> hs_exec st
          then (Some (new_err (''managed sing-box is not an executable regular file: '' @ go_quote binary)), w1)
          else (case invoking_desktop_uid m of
            Inl e \<Rightarrow> (Some e, w1)
          | Inr None \<Rightarrow> (None, w1)
          | Inr (Some uid) \<Rightarrow>
              (case hs_uid st of
                 None \<Rightarrow> (Some (new_err ''cannot verify managed sing-box owner''), w1)
               | Some owner \<Rightarrow>
                   if owner \<noteq> uid
                   then (Some (new_err (''refusing capability grant: managed sing-box owner uid='' @ itoa (int owner) @
                           '' does not match invoking desktop uid='' @ itoa (int uid))), w1)
                   else (case host_stat m parent w1 of
                     (Inl e, w2) \<Rightarrow> (Some (wrap_err ''stat managed bin directory: '' e), w2)
                   | (Inr pst, w2) \<Rightarrow>
                       if hs_uid pst \<noteq> Some uid
                       then (Some (new_err (''refusing capability grant: managed bin directory is not owned by invoking desktop uid='' @ itoa (int uid))), w2)
                       else (None, w2))))))"

definition tun_device_present :: "'k machine \<Rightarrow> 'k world \<Rightarrow> bool \<times> 'k world" where
  "tun_device_present m w =
     (case host_stat m ''/dev/net/tun'' w of (Inl _, w1) \<Rightarrow> (False, w1) | (Inr st, w1) \<Rightarrow> (\<not> hs_dir st, w1))"

text \<open>The wait for the device: every round sleeps 80 ms of the two seconds, so that 26
  rounds are enough.\<close>

fun wait_tun_device :: "nat \<Rightarrow> 'k machine \<Rightarrow> int \<Rightarrow> 'k world \<Rightarrow> bool \<times> 'k world" where
  "wait_tun_device 0 m deadline w = (False, w)"
| "wait_tun_device (Suc n) m deadline w =
     (let (t, w1) = now m w in
      if t_nanos t \<ge> deadline then (False, w1)
      else (case tun_device_present m w1 of
              (True, w2) \<Rightarrow> (True, w2)
            | (False, w2) \<Rightarrow> wait_tun_device n m deadline w2))"

definition ensure_tun_device :: "'k machine \<Rightarrow> 'k world \<Rightarrow> gerr option \<times> 'k world" where
  "ensure_tun_device m w =
     (case tun_device_present m w of
        (True, w1) \<Rightarrow> (None, w1)
      | (False, w1) \<Rightarrow>
          (let (modprobe, w2) = find_linux_command m ''modprobe'' [''/usr/sbin/modprobe'', ''/sbin/modprobe''] w1 in
           if modprobe = [] then (Some (new_err ''/dev/net/tun is unavailable and modprobe was not found''), w2)
           else (case exec_cmd m [modprobe, ''tun''] w2 of
             ((out, Some e), w3) \<Rightarrow> (Some (wrap_out ''modprobe tun: '' e (trim_space out)), w3)
           | ((out, None), w3) \<Rightarrow>
               (let (t, w4) = now m w3 in
                case wait_tun_device 26 m (t_nanos t + 2000000000) w4 of
                  (True, w5) \<Rightarrow> (None, w5)
                | (False, w5) \<Rightarrow> (Some (new_err ''modprobe tun returned successfully but /dev/net/tun did not appear''), w5)))))"

definition installers :: "(string \<times> string list \<times> string list) list" where
  "installers =
     [(''apt-get'', [''/usr/bin/apt-get''], [''install'', ''-y'', ''libcap2-bin'']),
      (''dnf'', [''/usr/bin/dnf''], [''install'', ''-y'', ''libcap'']),
      (''yum'', [''/usr/bin/yum''], [''install'', ''-y'', ''libcap'']),
      (''pacman'', [''/usr/bin/pacman''], [''-S'', ''--needed'', ''--noconfirm'', ''libcap'']),
      (''zypper'', [''/usr/bin/zypper''], [''--non-interactive'', ''install'', ''libcap-progs''])]"

fun choose_installer ::
  "(string \<times> string list \<times> string list) list \<Rightarrow> 'k machine \<Rightarrow> 'k world \<Rightarrow> string list option \<times> 'k world" where
  "choose_installer [] m w = (None, w)"
| "choose_installer ((name, absolute, args) # rest) m w =
     (let (p, w1) = find_linux_command m name absolute w
      in if p \<noteq> [] then (Some (p # args), w1) else choose_installer rest m w1)"

definition find_cap_tools :: "'k machine \<Rightarrow> 'k world \<Rightarrow> (string \<times> string) \<times> 'k world" where
  "find_cap_tools m w =
     (let (getcap, w1) = find_linux_command m ''getcap'' [''/usr/sbin/getcap'', ''/sbin/getcap''] w;
          (setcap, w2) = find_linux_command m ''setcap'' [''/usr/sbin/setcap'', ''/sbin/setcap''] w1
      in ((getcap, setcap), w2))"

definition ensure_capability_tools :: "'k machine \<Rightarrow> 'k world \<Rightarrow> (string \<times> string) res \<times> 'k world" where
  "ensure_capability_tools m w =
     (let ((getcap, setcap), w1) = find_cap_tools m w in
      if getcap \<noteq> [] \<and> setcap \<noteq> [] then (Inr (getcap, setcap), w1)
      else (case choose_installer installers m w1 of
        (None, w2) \<Rightarrow> (Inl (new_err ''getcap/setcap are missing and no supported package manager was found''), w2)
      | (Some argv, w2) \<Rightarrow>
          (case exec_cmd m argv w2 of
             ((out, Some e), w3) \<Rightarrow> (Inl (wrap_out ''install capability tools: '' e (trim_space out)), w3)
           | ((out, None), w3) \<Rightarrow>
               (let ((getcap', setcap'), w4) = find_cap_tools m w3 in
                if getcap' = [] \<or> setcap' = []
                then (Inl (new_err ''capability tools installation finished but getcap/setcap are unavailable''), w4)
                else (Inr (getcap', setcap'), w4)))))"

text \<open>The grant itself, with the check that revokes it.\<close>

definition grant_capabilities ::
  "'k machine \<Rightarrow> string \<Rightarrow> string \<Rightarrow> string \<Rightarrow> string \<Rightarrow> 'k world \<Rightarrow> unit res \<times> 'k world" where
  "grant_capabilities m getcap setcap binary expected w =
     (case exec_cmd m [setcap, tunnel_capability_spec, binary] w of
        ((out, Some e), w1) \<Rightarrow> (Inl (wrap_out ''setcap managed sing-box: '' e (trim_space out)), w1)
      | ((out, None), w1) \<Rightarrow>
     (case verify_expected_hash m binary expected w1 of
        (Some e, w2) \<Rightarrow>
          (Inl (wrap_err ''managed binary changed during capability grant; capabilities revoked: '' e),
           snd (exec_cmd m [setcap, ''-r'', binary] w2))
      | (None, w2) \<Rightarrow>
     (case exec_cmd m [getcap, binary] w2 of
        ((caps, Some e), w3) \<Rightarrow> (Inl (wrap_err ''verify capabilities: '' e), w3)
      | ((caps, None), w3) \<Rightarrow>
          (let missing = missing_capabilities caps in
           if missing \<noteq> []
           then (Inl (new_err (''post-setcap verification failed; missing ['' @ str_join missing '', '' @ '']'')), w3)
           else (Inr (), w3)))))"

definition run_privileged_setup :: "'k machine \<Rightarrow> string \<Rightarrow> string \<Rightarrow> 'k world \<Rightarrow> unit res \<times> 'k world" where
  "run_privileged_setup m binary_arg sha_arg w =
     (if m_geteuid m \<noteq> 0 then (Inl (new_err ''privileged Linux setup helper must run as root''), w) else
      (let binary = path_clean (trim_space binary_arg); expected = to_lower (trim_space sha_arg) in
      (case validate_managed_binary m binary w of (Some e, w1) \<Rightarrow> (Inl e, w1) | (None, w1) \<Rightarrow>
       if length expected \<noteq> 64 then (Inl (new_err ''invalid expected sing-box SHA-256''), w1) else
      (case verify_expected_hash m binary expected w1 of (Some e, w2) \<Rightarrow> (Inl e, w2) | (None, w2) \<Rightarrow>
      (case ensure_tun_device m w2 of (Some e, w3) \<Rightarrow> (Inl e, w3) | (None, w3) \<Rightarrow>
      (case ensure_capability_tools m w3 of (Inl e, w4) \<Rightarrow> (Inl e, w4) | (Inr (getcap, setcap), w4) \<Rightarrow>
      (case validate_managed_binary m binary w4 of (Some e, w5) \<Rightarrow> (Inl e, w5) | (None, w5) \<Rightarrow>
      (case verify_expected_hash m binary expected w5 of (Some e, w6) \<Rightarrow> (Inl e, w6) | (None, w6) \<Rightarrow>
       grant_capabilities m getcap setcap binary expected w6))))))))"

section \<open>The unprivileged side\<close>

definition tunnel_host_ready :: "'k machine \<Rightarrow> string \<Rightarrow> 'k world \<Rightarrow> bool \<times> 'k world" where
  "tunnel_host_ready m binary w =
     (case tun_device_present m w of
        (False, w1) \<Rightarrow> (False, w1)
      | (True, w1) \<Rightarrow>
          (let (getcap, w2) = find_linux_command m ''getcap'' [''/usr/sbin/getcap'', ''/sbin/getcap''] w1 in
           if getcap = [] then (False, w2)
           else (case exec_cmd m [getcap, binary] w2 of
                   ((caps, e), w3) \<Rightarrow> (e = None \<and> missing_capabilities caps = [], w3))))"

definition validate_agent_tunnel_host :: "'k machine \<Rightarrow> string \<Rightarrow> 'k world \<Rightarrow> gerr option \<times> 'k world" where
  "validate_agent_tunnel_host m binary_arg w =
     (let binary = path_clean (trim_space binary_arg) in
      if binary = [] \<or> binary = ''.'' then (Some (new_err ''managed sing-box path is empty''), w)
      else if m_geteuid m = 0 then ensure_tun_device m w
      else (case tunnel_host_ready m binary w of
        (True, w1) \<Rightarrow> (None, w1)
      | (False, w1) \<Rightarrow>
     (case sha256_file m binary w1 of
        (Inl e, w2) \<Rightarrow> (Some (wrap_err ''hash managed sing-box before privilege setup: '' e), w2)
      | (Inr hash, w2) \<Rightarrow>
     (case m_self m of
        Inl e \<Rightarrow> (Some (wrap_err ''resolve AntigravitiProxi executable for PolicyKit setup: '' e), w2)
      | Inr self \<Rightarrow>
     (case run_privilege_broker m self [''__linux-privileged-setup'', binary, hash] w2 of
        (Some e, w3) \<Rightarrow>
          (Some (GErr (err_kind e) (''automatic Agent Tunnel privilege setup failed: '' @ err_text e @
             ''; manual fallback: sudo setcap '' @ tunnel_capability_spec @ '' '' @ go_quote binary)), w3)
      | (None, w3) \<Rightarrow>
     (case tunnel_host_ready m binary w3 of
        (True, w4) \<Rightarrow> (None, w4)
      | (False, w4) \<Rightarrow>
          (Some (new_err ''Linux privilege setup returned successfully but TUN/capability readiness could not be proven''), w4)))))))"

section \<open>What the recovery helper may run\<close>

lemma same_list_iff [simp]: "same_list xs ys \<longleftrightarrow> xs = ys"
  by (induction xs ys rule: same_list.induct) auto

lemma validate_reserved_None:
  "validate_reserved_ownership d = None \<longleftrightarrow>
     od_tun d = agent_tun_name \<and> od_tables4 d = [itoa tunnel_route_table_index] \<and> od_tables6 d = [itoa tunnel_route_table_index] \<and>
     od_prios4 d = [tunnel_rule_start..tunnel_rule_end] \<and> od_prios6 d = [tunnel_rule_start..tunnel_rule_end]"
  by (simp add: validate_reserved_ownership_def Let_def)

lemma owned_cmd_reserved:
  "validate_reserved_ownership d = None \<Longrightarrow> owned_cmd d = owned_cmd (reserved_platform_ownership Linux)"
  unfolding validate_reserved_None by (simp add: owned_cmd_def [abs_def])

lemma host_lstat_observes: "host_lstat m p w = (r, w') \<Longrightarrow> observes A w w'"
  unfolding host_lstat_def by (rule observe_observes)

lemma validate_target_observes: "validate_privileged_journal_target m p w = (r, w') \<Longrightarrow> observes A w w'"
  by (auto simp: validate_privileged_journal_target_def split: if_splits prod.splits sum.splits option.splits
      dest!: host_lstat_observes [where A = A])

lemma validate_target_None:
  "validate_privileged_journal_target m p w = (None, w') \<Longrightarrow>
     path_is_abs p \<and> path_base p = ''network-state.json'' \<and> path_base (path_dir p) = ''AntigravitiProxi''"
  by (auto simp: validate_privileged_journal_target_def split: if_splits)

lemma read_file_observes: "read_file m p w = (r, w') \<Longrightarrow> observes A w w'"
  by (auto dest: file_callD)

text \<open>The helper either only reads, or it is root, the journal is the one of the expected
  place, and it records exactly the reserved namespace for a recovery in progress.\<close>

lemma privileged_recovery_cases:
  assumes "run_privileged_recovery m arg w = (r, w')"
  obtains (refused) "\<not> is_ok r" "observes read_only_cmd w w'"
  | (recovered) ae x j w3 where "m_geteuid m = 0" "path_is_abs (path_clean (trim_space arg))"
      "path_base (path_clean (trim_space arg)) = ''network-state.json''"
      "path_base (path_dir (path_clean (trim_space arg))) = ''AntigravitiProxi''"
      "w_files w (path_clean (trim_space arg)) = Some x" "decode_tunnel_journal (f_data x) = Inr j"
      "tj_phase j = ''recovering''" "validate_reserved_ownership (tj_owned j) = None"
      "observes read_only_cmd w w3" "recover_owned Linux m (tj_owned j) w3 = (ae, w')"
proof (cases "m_geteuid m = 0")
  case False
  with assms show ?thesis by (intro refused) (auto simp: run_privileged_recovery_def)
next
  case root: True
  let ?p = "path_clean (trim_space arg)"
  obtain t w1 where 1: "validate_privileged_journal_target m ?p w = (t, w1)" by fastforce
  obtain rd w2 where 2: "read_file m ?p w1 = (rd, w2)" by fastforce
  have o1: "observes read_only_cmd w w1" using 1 by (rule validate_target_observes)
  have o2: "observes read_only_cmd w w2"
    using o1 read_file_observes [OF 2] by (rule observes_trans)
  show ?thesis
  proof (cases "\<exists>raw j. t = None \<and> rd = Inr raw \<and> decode_tunnel_journal raw = Inr j \<and> tj_phase j = ''recovering''")
    case False
    with assms root 1 2 o1 o2 show ?thesis
      by (intro refused) (auto simp: run_privileged_recovery_def Let_def split: option.splits sum.splits if_splits)
  next
    case True
    then obtain raw j where t: "t = None" "rd = Inr raw" "decode_tunnel_journal raw = Inr j" "tj_phase j = ''recovering''"
      by blast
    then obtain x where x: "w_files w1 ?p = Some x" "f_data x = raw" using 2 read_file_ok by blast
    obtain al w3 where 3: "(if tj_pid j > 0 then platform_process_alive Linux m (tj_pid j) w2 else (False, w2)) = (al, w3)"
      by fastforce
    have o3: "observes read_only_cmd w w3"
      using 3 o2 alive_observes observes_trans by (metis prod.inject)
    show ?thesis
    proof (cases "al \<or> validate_reserved_ownership (tj_owned j) \<noteq> None")
      case True
      with assms root 1 2 3 t o3 show ?thesis
        by (intro refused) (auto simp: run_privileged_recovery_def Let_def split: option.splits bool.splits)
    next
      case False
      obtain ae w4 where 4: "recover_owned Linux m (tj_owned j) w3 = (ae, w4)" by fastforce
      have "w4 = w'" using assms root 1 2 3 4 t False
        by (cases ae) (auto simp: run_privileged_recovery_def Let_def split: option.splits)
      with 4 have 5: "recover_owned Linux m (tj_owned j) w3 = (ae, w')" by simp
      have v: "path_is_abs ?p" "path_base ?p = ''network-state.json''" "path_base (path_dir ?p) = ''AntigravitiProxi''"
        using validate_target_None [of m ?p w w1] 1 t(1) by simp_all
      have "w_files w ?p = Some x" "decode_tunnel_journal (f_data x) = Inr j" "validate_reserved_ownership (tj_owned j) = None"
        using x o1 t(3) False by (simp_all add: observes_def)
      then show ?thesis by (rule recovered [OF root v _ _ t(4) _ o3 5])
    qed
  qed
qed

section \<open>What the setup helper may run\<close>

text \<open>The commands of the setup helper for a binary: loading the \<^verbatim>\<open>tun\<close> module, installing
  the capability tools, and granting to, revoking from and reading the capabilities of that
  binary.\<close>

definition setup_cmd :: "string \<Rightarrow> string list \<Rightarrow> bool" where
  "setup_cmd binary c \<longleftrightarrow>
     (\<exists>tool. c = [tool, ''tun''] \<or> c \<in> (\<lambda>(_, _, args). tool # args) ` set installers \<or>
        c = [tool, tunnel_capability_spec, binary] \<or> c = [tool, ''-r'', binary] \<or> c = [tool, binary])"

lemma setup_cmds [simp]:
  "setup_cmd b [tool, ''tun'']" "setup_cmd b [tool, tunnel_capability_spec, b]" "setup_cmd b [tool, ''-r'', b]" "setup_cmd b [tool, b]"
  by (auto simp: setup_cmd_def)

lemma sha256_observes: "sha256_file m p w = (r, w') \<Longrightarrow> observes A w w'"
  by (auto simp: sha256_file_def split: prod.splits sum.splits dest: host_file_observes)

lemma verify_hash_observes: "verify_expected_hash m b x w = (r, w') \<Longrightarrow> observes A w w'"
  by (auto simp: verify_expected_hash_def split: prod.splits sum.splits if_splits dest: sha256_observes)

lemma validate_binary_observes:
  assumes "validate_managed_binary m b w = (r, w')"
  shows "observes A w w'"
proof -
  obtain l w1 where 1: "host_lstat m b w = (l, w1)" by fastforce
  obtain p w2 where 2: "host_stat m (path_dir b) w1 = (p, w2)" by fastforce
  have "w' \<in> {w, w1, w2}"
    using assms 1 2 by (auto simp: validate_managed_binary_def Let_def split: if_splits sum.splits option.splits)
  moreover have "observes A w w1" "observes A w w2"
    using host_lstat_observes [OF 1, of A] host_stat_observes [OF 2, of A] observes_trans by blast+
  ultimately show ?thesis by auto
qed

lemma validate_binary_None:
  "validate_managed_binary m b w = (None, w') \<Longrightarrow>
     path_is_abs b \<and> path_base b = ''sing-box'' \<and> path_base (path_dir b) = ''bin'' \<and>
     path_base (path_dir (path_dir b)) = ''AntigravitiProxi''"
  by (auto simp: validate_managed_binary_def Let_def split: if_splits)

lemma tun_present_observes: "tun_device_present m w = (r, w') \<Longrightarrow> observes A w w'"
  by (auto simp: tun_device_present_def split: prod.splits sum.splits dest: host_stat_observes)

lemma wait_tun_observes: "wait_tun_device n m d w = (r, w') \<Longrightarrow> observes A w w'"
proof (induction n arbitrary: w)
  case (Suc n)
  obtain p w2 where p: "tun_device_present m (tick w) = (p, w2)" by fastforce
  have "observes A w w2" using tun_present_observes [OF p, of A] by simp
  then show ?case
    using Suc p by (auto simp: now_def Let_def split: if_splits bool.splits intro: observes_trans)
qed simp

lemma ensure_tun_observes:
  assumes "ensure_tun_device m w = (r, w')"
  shows "observes (setup_cmd b) w w'"
proof -
  let ?A = "setup_cmd b"
  obtain p w1 where 1: "tun_device_present m w = (p, w1)" by fastforce
  obtain t w2 where 2: "find_linux_command m ''modprobe'' [''/usr/sbin/modprobe'', ''/sbin/modprobe''] w1 = (t, w2)" by fastforce
  obtain x w3 where 3: "exec_cmd m [t, ''tun''] w2 = (x, w3)" by fastforce
  obtain y w5 where 5: "wait_tun_device 26 m (t_nanos (m_clock m (w_tick w3)) + 2000000000) (tick w3) = (y, w5)" by fastforce
  have o1: "observes ?A w w1" using 1 by (rule tun_present_observes)
  then have o2: "observes ?A w w2" using find_command_observes [OF 2] by (blast intro: observes_trans)
  then have o3: "observes ?A w w3" using exec_observes [OF 3, of ?A] by (auto intro: observes_trans)
  then have o5: "observes ?A w w5" using wait_tun_observes [OF 5, of ?A] by (auto intro: observes_trans)
  have "w' \<in> {w1, w2, w3, w5}"
    using assms 1 2 3 5
    by (auto simp: ensure_tun_device_def now_def Let_def split: bool.splits if_splits option.splits prod.splits)
  with o1 o2 o3 o5 show ?thesis by auto
qed

lemma find_cap_tools_observes: "find_cap_tools m w = (r, w') \<Longrightarrow> observes A w w'"
  by (auto simp: find_cap_tools_def Let_def split: prod.splits dest!: find_command_observes [where A = A] intro: observes_trans)

lemma choose_installer_observes: "choose_installer is m w = (r, w') \<Longrightarrow> observes A w w'"
proof (induction "is" m w rule: choose_installer.induct)
  case (2 name absolute args rest m w)
  obtain p w1 where p: "find_linux_command m name absolute w = (p, w1)" by fastforce
  have "observes A w w1" using p by (rule find_command_observes)
  with 2 p show ?case by (auto simp: Let_def split: if_splits intro: observes_trans)
qed simp

lemma choose_installer_cmd:
  "choose_installer is m w = (Some c, w') \<Longrightarrow> \<exists>tool. c \<in> (\<lambda>(_, _, args). tool # args) ` set is"
  by (induction "is" m w rule: choose_installer.induct)
    (auto simp: Let_def split: prod.splits if_splits, blast+)

lemma ensure_tools_observes:
  assumes "ensure_capability_tools m w = (r, w')"
  shows "observes (setup_cmd b) w w'"
proof -
  let ?A = "setup_cmd b"
  obtain g s w1 where 1: "find_cap_tools m w = ((g, s), w1)" by (metis surj_pair)
  obtain c w2 where 2: "choose_installer installers m w1 = (c, w2)" by fastforce
  have o1: "observes ?A w w1" using 1 by (rule find_cap_tools_observes)
  then have o2: "observes ?A w w2" using choose_installer_observes [OF 2] by (blast intro: observes_trans)
  show ?thesis
  proof (cases "(g \<noteq> [] \<and> s \<noteq> []) \<or> c = None")
    case True
    with assms 1 2 have "w' = w1 \<or> w' = w2"
      by (auto simp: ensure_capability_tools_def split: if_splits option.splits)
    with o1 o2 show ?thesis by auto
  next
    case False
    then obtain argv where c: "c = Some argv" by auto
    obtain x e w3 where 3: "exec_cmd m argv w2 = ((x, e), w3)" by (metis surj_pair)
    obtain g' s' w4 where 4: "find_cap_tools m w3 = ((g', s'), w4)" by (metis surj_pair)
    have "?A argv" unfolding setup_cmd_def using choose_installer_cmd [of installers m w1 argv w2] 2 c by blast
    then have o3: "observes ?A w w3" using exec_observes [OF 3] o2 by (blast intro: observes_trans)
    then have o4: "observes ?A w w4" using find_cap_tools_observes [OF 4] by (blast intro: observes_trans)
    have "w' = w3 \<or> w' = w4"
      using assms False 1 2 3 4 c by (auto simp: ensure_capability_tools_def split: if_splits option.splits)
    with o3 o4 show ?thesis by auto
  qed
qed

lemma grant_cases:
  assumes "grant_capabilities m getcap setcap b x w = (r, w')"
  shows "observes (setup_cmd b) w w'"
    and "r = Inr () \<Longrightarrow> \<exists>w1 w2 caps. verify_expected_hash m b x w1 = (None, w2) \<and>
           exec_cmd m [getcap, b] w2 = ((caps, None), w') \<and> missing_capabilities caps = []"
proof -
  let ?A = "setup_cmd b"
  obtain o1 e1 w1 where 1: "exec_cmd m [setcap, tunnel_capability_spec, b] w = ((o1, e1), w1)" by (metis surj_pair)
  obtain v w2 where 2: "verify_expected_hash m b x w1 = (v, w2)" by fastforce
  obtain y w3 where 3: "exec_cmd m [setcap, ''-r'', b] w2 = (y, w3)" by fastforce
  obtain caps e4 w4 where 4: "exec_cmd m [getcap, b] w2 = ((caps, e4), w4)" by (metis surj_pair)
  have p1: "observes ?A w w1" using 1 by (rule exec_observes) simp
  have p2: "observes ?A w w2" using p1 verify_hash_observes [OF 2] by (blast intro: observes_trans)
  have p3: "observes ?A w w3" using p2 exec_observes [OF 3, of ?A] by (auto intro: observes_trans)
  have p4: "observes ?A w w4" using p2 exec_observes [OF 4, of ?A] by (auto intro: observes_trans)
  have "w' \<in> {w1, w2, w3, w4}"
    using assms 1 2 3 4 by (auto simp: grant_capabilities_def Let_def split: option.splits if_splits)
  with p1 p2 p3 p4 show "observes ?A w w'" by auto
  show "\<exists>w1 w2 caps. verify_expected_hash m b x w1 = (None, w2) \<and>
           exec_cmd m [getcap, b] w2 = ((caps, None), w') \<and> missing_capabilities caps = []" if "r = Inr ()"
    using assms 1 2 3 4 that by (auto simp: grant_capabilities_def Let_def split: option.splits if_splits)
qed

lemma verify_hash_None:
  "verify_expected_hash m b x w = (None, w') \<Longrightarrow>
     \<exists>k d. m_host_file m k b = Inr d \<and> to_lower (hex_text (sha256 d)) = x"
  by (auto simp: verify_expected_hash_def sha256_file_def host_file_def observe_def Let_def
      split: prod.splits sum.splits if_splits)

section \<open>The clause pattern\<close>

lemma takeWhile_stop: "\<forall>c\<in>set xs. P c \<Longrightarrow> \<not> P y \<Longrightarrow> takeWhile P (xs @ y # ys) = xs"
  by (induction xs) auto

lemma cap_name_char_no_sep: "cap_name_char c \<Longrightarrow> c \<noteq> CHR ''='' \<and> c \<noteq> CHR ''+'' \<and> c \<noteq> CHR '',''"
  by (auto simp: cap_name_char_def Let_def)

lemma is_cap_name_chars: "is_cap_name n \<Longrightarrow> c \<in> set n \<Longrightarrow> c \<noteq> CHR ''='' \<and> c \<noteq> CHR ''+'' \<and> c \<noteq> CHR '',''"
proof -
  assume n: "is_cap_name n" "c \<in> set n"
  have "take (length ''cap_'') n = ''cap_''" using n(1) unfolding is_cap_name_def has_prefix_def by blast
  then have t: "take 4 n = ''cap_''" by (simp add: numeral_eq_Suc)
  have "c \<in> set (take 4 n) \<or> c \<in> set (drop 4 n)" using n(2) by (metis Un_iff append_take_drop_id set_append)
  then show ?thesis
  proof
    assume "c \<in> set (take 4 n)"
    then show ?thesis unfolding t by auto
  next
    assume "c \<in> set (drop 4 n)"
    then have "cap_name_char c" using n(1) by (simp add: is_cap_name_def list_all_iff)
    then show ?thesis by (rule cap_name_char_no_sep)
  qed
qed

lemma str_join_chars: "c \<in> set (str_join ns sep) \<Longrightarrow> (\<exists>n\<in>set ns. c \<in> set n) \<or> c \<in> set sep"
  by (induction ns sep rule: str_join.induct) auto

lemma str_join_Cons_char: "str_join ((c # a) # l) sep = c # str_join (a # l) sep"
  by (cases l) simp_all

lemma str_join_Nil_piece: "l \<noteq> [] \<Longrightarrow> str_join ([] # l) sep = sep @ str_join l sep"
  by (cases l) simp_all

lemma str_join_split: "str_join (split_char sep s) [sep] = s"
proof (induction s)
  case (Cons c s)
  obtain a l where "split_char sep s = a # l" by (cases "split_char sep s") auto
  with Cons show ?case by (simp add: str_join_Cons_char)
qed simp

text \<open>A field is a clause exactly when it is names joined by commas, a sign and flags.\<close>

definition not_sign :: "char \<Rightarrow> bool" where
  "not_sign c \<longleftrightarrow> c \<noteq> CHR ''='' \<and> c \<noteq> CHR ''+''"

definition flag_chars :: "char set" where
  "flag_chars = {CHR ''e'', CHR ''i'', CHR ''p''}"

lemma cap_clause_eq:
  "cap_clause f =
     (let names = takeWhile not_sign f; ns = split_char (CHR '','') names
      in case dropWhile not_sign f of [] \<Rightarrow> None
         | _ # flags \<Rightarrow> if list_all is_cap_name ns \<and> flags \<noteq> [] \<and> set flags \<subseteq> flag_chars then Some (ns, flags) else None)"
  unfolding cap_clause_def Let_def not_sign_def [symmetric, abs_def] flag_chars_def [symmetric]
    dropWhile_eq_drop [symmetric] list_all_iff subset_eq ..

lemma cap_clause_iff:
  "cap_clause f = Some (ns, flags) \<longleftrightarrow>
     (\<exists>c. f = str_join ns '','' @ c # flags \<and> \<not> not_sign c) \<and>
     ns \<noteq> [] \<and> list_all is_cap_name ns \<and> flags \<noteq> [] \<and> set flags \<subseteq> flag_chars"
  (is "?L \<longleftrightarrow> ?R")
proof
  assume ?L
  then obtain c where c: "dropWhile not_sign f = c # flags" "ns = split_char (CHR '','') (takeWhile not_sign f)"
      "list_all is_cap_name ns" "flags \<noteq> []" "set flags \<subseteq> flag_chars"
    by (cases "dropWhile not_sign f") (auto simp: cap_clause_eq Let_def split: if_splits)
  have "f = takeWhile not_sign f @ c # flags" using c(1) by (metis takeWhile_dropWhile_id)
  moreover have "\<not> not_sign c" using c(1) by (metis hd_dropWhile list.distinct(1) list.sel(1))
  ultimately show ?R using c(2-5) str_join_split [of "CHR '',''" "takeWhile not_sign f"] by auto
next
  assume ?R
  then obtain c where f: "f = str_join ns '','' @ c # flags" "\<not> not_sign c"
    and n: "ns \<noteq> []" "list_all is_cap_name ns" "flags \<noteq> []" "set flags \<subseteq> flag_chars" by blast
  have names: "not_sign d \<and> d \<noteq> CHR '',''" if "n \<in> set ns" "d \<in> set n" for n d
    using n(2) that is_cap_name_chars unfolding list_all_iff not_sign_def by blast
  have all: "\<forall>d\<in>set (str_join ns '',''). not_sign d"
  proof
    fix d assume "d \<in> set (str_join ns '','')"
    then have "(\<exists>n\<in>set ns. d \<in> set n) \<or> d \<in> set '',''" by (rule str_join_chars)
    then show "not_sign d" using names by (auto simp: not_sign_def)
  qed
  then have tw: "takeWhile not_sign f = str_join ns '',''" using f takeWhile_stop [of _ not_sign] by simp
  have dw: "dropWhile not_sign f = c # flags" using all f by (simp add: dropWhile_append2)
  have "\<forall>n\<in>set ns. CHR '','' \<notin> set n" using names by blast
  then have "split_char (CHR '','') (str_join ns '','') = ns" using n(1) by (rule split_char_join [rotated])
  then show ?L using n by (simp add: cap_clause_eq tw dw)
qed

section \<open>Properties\<close>

text \<open>C6: the recovery helper that runs as root is confined to the reserved namespace.
  Whatever its argument and whatever the journal holds, it changes no file of the program
  and runs only commands that read, the deletion of the interface \<^verbatim>\<open>antigravity-tun\<close>, of
  rules with priorities 19000 to 19031 and the flush of table 20229.  And it runs one of the
  latter only as root, for a file \<^verbatim>\<open>AntigravitiProxi/network-state.json\<close> that decodes to a
  journal of a recovery in progress.\<close>

theorem privileged_recovery_confined:
  assumes "run_privileged_recovery m arg w = (r, w')"
  shows "observes (\<lambda>c. read_only_cmd c \<or> owned_cmd (reserved_platform_ownership Linux) c) w w' \<and>
    (runs read_only_cmd w w' \<or>
      (let p = path_clean (trim_space arg) in
       m_geteuid m = 0 \<and> path_base p = ''network-state.json'' \<and> path_base (path_dir p) = ''AntigravitiProxi'' \<and>
       (\<exists>x j. w_files w p = Some x \<and> decode_tunnel_journal (f_data x) = Inr j \<and> tj_phase j = ''recovering'')))"
  using assms
proof (cases rule: privileged_recovery_cases)
  case refused
  then show ?thesis by (auto simp: observes_def intro: runs_mono)
next
  case (recovered ae x j w3)
  let ?A = "\<lambda>c. read_only_cmd c \<or> owned_cmd (reserved_platform_ownership Linux) c"
  have "recovery_cmd (tj_owned j) = ?A"
    using owned_cmd_reserved [OF recovered(8)] by (simp add: recovery_cmd_def [abs_def])
  then have "observes ?A w3 w'" using recover_owned_observes [OF recovered(10)] by simp
  moreover have "observes ?A w w3" using recovered(9) by (rule observes_mono) simp
  ultimately have "observes ?A w w'" by (blast intro: observes_trans)
  then show ?thesis using recovered by (auto simp: Let_def)
qed

lemma privileged_recovery_confined_witness:
  "runs (\<lambda>c. read_only_cmd c \<or> owned_cmd (reserved_platform_ownership Linux) c) sample_world
     (snd (run_privileged_recovery (quiet_machine\<lparr>m_geteuid := 0\<rparr>) ''/home/u/.config/AntigravitiProxi/network-state.json'' sample_world))"
  using privileged_recovery_confined [of "quiet_machine\<lparr>m_geteuid := 0\<rparr>" "''/home/u/.config/AntigravitiProxi/network-state.json''"
      sample_world] observes_runs by (metis (no_types, lifting) prod.collapse)

text \<open>C7: the setup helper that runs as root acts on the managed binary only.  Whatever its
  arguments, it changes no file of the program and runs only: loading the \<^verbatim>\<open>tun\<close> module,
  installing the capability tools, and granting, revoking and reading the capabilities of
  the named binary; and it runs a command only as root, for an absolute path
  \<^verbatim>\<open>AntigravitiProxi/bin/sing-box\<close>.  When it reports success, its last two steps after the grant were: the
  binary's content has the expected SHA-256, and the capabilities read back are complete.\<close>

theorem privileged_setup_confined:
  assumes "run_privileged_setup m arg sha w = (r, w')"
  shows "let b = path_clean (trim_space arg) in
    observes (setup_cmd b) w w' \<and>
    (w_log w' \<noteq> w_log w \<longrightarrow> m_geteuid m = 0 \<and> path_is_abs b \<and> path_base b = ''sing-box'' \<and>
       path_base (path_dir b) = ''bin'' \<and> path_base (path_dir (path_dir b)) = ''AntigravitiProxi'') \<and>
    (r = Inr () \<longrightarrow>
       (\<exists>u1 u2 getcap caps. verify_expected_hash m b (to_lower (trim_space sha)) u1 = (None, u2) \<and>
          exec_cmd m [getcap, b] u2 = ((caps, None), w') \<and> missing_capabilities caps = []))"
proof -
  let ?b = "path_clean (trim_space arg)" and ?x = "to_lower (trim_space sha)"
  let ?A = "setup_cmd ?b"
  obtain v1 w1 where 1: "validate_managed_binary m ?b w = (v1, w1)" by fastforce
  obtain v2 w2 where 2: "verify_expected_hash m ?b ?x w1 = (v2, w2)" by fastforce
  obtain v3 w3 where 3: "ensure_tun_device m w2 = (v3, w3)" by fastforce
  obtain v4 w4 where 4: "ensure_capability_tools m w3 = (v4, w4)" by fastforce
  obtain v5 w5 where 5: "validate_managed_binary m ?b w4 = (v5, w5)" by fastforce
  obtain v6 w6 where 6: "verify_expected_hash m ?b ?x w5 = (v6, w6)" by fastforce
  have o1: "observes A w w1" for A using 1 by (rule validate_binary_observes)
  have o2: "observes ?A w w2" using o1 verify_hash_observes [OF 2] by (rule observes_trans)
  have o3: "observes ?A w w3" using o2 ensure_tun_observes [OF 3] by (rule observes_trans)
  have o4: "observes ?A w w4" using o3 ensure_tools_observes [OF 4] by (rule observes_trans)
  have o5: "observes ?A w w5" using o4 validate_binary_observes [OF 5] by (rule observes_trans)
  have o6: "observes ?A w w6" using o5 verify_hash_observes [OF 6] by (rule observes_trans)
  show ?thesis
  proof (cases "m_geteuid m = 0 \<and> v1 = None")
    case False
    then have r: "\<not> is_ok r" "w' = w \<or> w' = w1"
      using assms 1 by (auto simp: run_privileged_setup_def Let_def split: if_splits option.splits)
    have "w_log w1 = w_log w" using o1 [of "\<lambda>_. False"] by (auto simp: observes_def runs_def list_all_iff)
    then show ?thesis using r o1 by (auto simp: Let_def)
  next
    case True
    then have b: "m_geteuid m = 0 \<and> path_is_abs ?b \<and> path_base ?b = ''sing-box'' \<and>
        path_base (path_dir ?b) = ''bin'' \<and> path_base (path_dir (path_dir ?b)) = ''AntigravitiProxi''"
      using validate_binary_None 1 by blast
    have "(\<not> is_ok r \<and> w' \<in> {w1, w2, w3, w4, w5, w6}) \<or>
        (\<exists>getcap setcap. grant_capabilities m getcap setcap ?b ?x w6 = (r, w'))"
      using assms 1 2 3 4 5 6 True
      by (auto simp: run_privileged_setup_def Let_def split: if_splits option.splits sum.splits)
    then show ?thesis
    proof
      assume "\<not> is_ok r \<and> w' \<in> {w1, w2, w3, w4, w5, w6}"
      then show ?thesis using b o1 o2 o3 o4 o5 o6 by (auto simp: Let_def)
    next
      assume "\<exists>getcap setcap. grant_capabilities m getcap setcap ?b ?x w6 = (r, w')"
      then obtain getcap setcap where g: "grant_capabilities m getcap setcap ?b ?x w6 = (r, w')" by blast
      have "observes ?A w w'" using o6 grant_cases(1) [OF g] by (rule observes_trans)
      then show ?thesis using b grant_cases(2) [OF g] unfolding Let_def by blast
    qed
  qed
qed

lemma privileged_setup_confined_witness:
  "observes (setup_cmd ''/home/u/AntigravitiProxi/bin/sing-box'') sample_world
     (snd (run_privileged_setup (quiet_machine\<lparr>m_geteuid := 0\<rparr>) ''/home/u/AntigravitiProxi/bin/sing-box'' ''00'' sample_world))"
proof -
  have "path_clean (trim_space ''/home/u/AntigravitiProxi/bin/sing-box'') = ''/home/u/AntigravitiProxi/bin/sing-box''"
    by code_simp
  then show ?thesis
    using privileged_setup_confined [of "quiet_machine\<lparr>m_geteuid := 0\<rparr>" "''/home/u/AntigravitiProxi/bin/sing-box''" "''00''"
        sample_world] by (metis (no_types, lifting) prod.collapse)
qed

text \<open>The capability check reads \<^verbatim>\<open>getcap\<close>'s output exactly by its clauses.  A capability
  counts as present if and only if some field of the lower-cased output consists of
  comma-separated capability names that include it, a sign and flags out of \<^verbatim>\<open>e\<close>, \<^verbatim>\<open>i\<close>, \<^verbatim>\<open>p\<close>
  that contain both \<^verbatim>\<open>e\<close> and \<^verbatim>\<open>p\<close>; and nothing is missing exactly when the four required ones
  are all present.\<close>

theorem capabilities_present_exactly:
  "(c \<in> set (present_capabilities output) \<longleftrightarrow>
      (\<exists>ns sign flags. str_join ns '','' @ sign # flags \<in> set (str_fields (to_lower output)) \<and> sign \<in> {CHR ''='', CHR ''+''} \<and>
         list_all is_cap_name ns \<and> c \<in> set ns \<and> set flags \<subseteq> {CHR ''e'', CHR ''i'', CHR ''p''} \<and> CHR ''e'' \<in> set flags \<and> CHR ''p'' \<in> set flags)) \<and>
   (missing_capabilities output = [] \<longleftrightarrow> set required_capabilities \<subseteq> set (present_capabilities output))"
proof
  show "missing_capabilities output = [] \<longleftrightarrow> set required_capabilities \<subseteq> set (present_capabilities output)"
    by (auto simp: missing_capabilities_def filter_empty_conv)
  have "c \<in> set (present_capabilities output) \<longleftrightarrow>
      (\<exists>f ns flags. f \<in> set (str_fields (to_lower output)) \<and> cap_clause f = Some (ns, flags) \<and>
         CHR ''e'' \<in> set flags \<and> CHR ''p'' \<in> set flags \<and> c \<in> set ns)"
    unfolding present_capabilities_def by (force split: option.splits if_splits)
  also have "\<dots> \<longleftrightarrow> (\<exists>ns sign flags. str_join ns '','' @ sign # flags \<in> set (str_fields (to_lower output)) \<and> \<not> not_sign sign \<and>
         list_all is_cap_name ns \<and> c \<in> set ns \<and> set flags \<subseteq> flag_chars \<and> CHR ''e'' \<in> set flags \<and> CHR ''p'' \<in> set flags)"
    unfolding cap_clause_iff by (rule iffI; elim exE conjE; force)
  finally show "c \<in> set (present_capabilities output) \<longleftrightarrow>
      (\<exists>ns sign flags. str_join ns '','' @ sign # flags \<in> set (str_fields (to_lower output)) \<and> sign \<in> {CHR ''='', CHR ''+''} \<and>
         list_all is_cap_name ns \<and> c \<in> set ns \<and> set flags \<subseteq> {CHR ''e'', CHR ''i'', CHR ''p''} \<and> CHR ''e'' \<in> set flags \<and> CHR ''p'' \<in> set flags)"
    unfolding not_sign_def flag_chars_def by blast
qed

end
