(* ===== verification/Go_Net.thy ===== *)
theory Go_Net imports Prelude begin

text \<open>
  Go's packages \<^verbatim>\<open>net\<close> and \<^verbatim>\<open>net/netip\<close>, as far as the program uses them: reading and printing
  IP addresses and prefixes, and host:port pairs.  An address is its bytes, 4 or 16 of
  them; \<open>ip_norm\<close> is \<^verbatim>\<open>To4\<close> where that exists, and decides \<^verbatim>\<open>IP.Equal\<close>.  Nothing here is
  code of the repository.
\<close>

type_synonym ip = "nat list"

section \<open>Addresses\<close>

definition v4_in_v6 :: "nat list" where
  "v4_in_v6 = replicate 10 0 @ [255, 255]"

definition to4 :: "ip \<Rightarrow> ip option" where
  "to4 a = (if length a = 4 then Some a
            else if length a = 16 \<and> take 12 a = v4_in_v6 then Some (drop 12 a) else None)"

definition ip_norm :: "ip \<Rightarrow> ip" where
  "ip_norm a = (case to4 a of Some b \<Rightarrow> b | None \<Rightarrow> a)"

definition ip_equal :: "ip \<Rightarrow> ip \<Rightarrow> bool" where
  "ip_equal a b \<longleftrightarrow> ip_norm a = ip_norm b"

definition ip_loopback :: "ip \<Rightarrow> bool" where
  "ip_loopback a \<longleftrightarrow> (case to4 a of Some b \<Rightarrow> hd b = 127 | None \<Rightarrow> a = replicate 15 0 @ [1])"

text \<open>An octet: decimal, at most 255, no leading zero.\<close>

definition parse_octet :: "string \<Rightarrow> nat option" where
  "parse_octet s =
     (case atoi_digits s of
        None \<Rightarrow> None
      | Some v \<Rightarrow> if v > 255 \<or> (length s > 1 \<and> hd s = CHR ''0'') then None else Some v)"

definition parse_ipv4 :: "string \<Rightarrow> ip option" where
  "parse_ipv4 s =
     (case map parse_octet (split_char (CHR ''.'') s) of
        [Some a, Some b, Some c, Some d] \<Rightarrow> Some [a, b, c, d]
      | _ \<Rightarrow> None)"

text \<open>The fields of an IPv6 text after an optional leading \<open>::\<close>; \<open>got\<close> are the bytes so far,
  \<open>ell\<close> where the \<open>::\<close> was.  A field takes two bytes, so eight rounds are enough.\<close>

definition hex_run :: "string \<Rightarrow> string" where
  "hex_run s = takeWhile (\<lambda>c. hex_val c \<noteq> None) s"

fun ipv6_fields :: "nat \<Rightarrow> nat list \<Rightarrow> nat option \<Rightarrow> string \<Rightarrow> (nat list \<times> nat option) option" where
  "ipv6_fields 0 got ell s = (if s = [] then Some (got, ell) else None)"
| "ipv6_fields (Suc n) got ell s =
     (let h = hex_run s; r = drop (length h) s in
      if h = [] \<or> length h > 4 then None
      else if r \<noteq> [] \<and> hd r = CHR ''.''
      then (if (ell = None \<and> length got \<noteq> 12) \<or> length got + 4 > 16 then None
            else map_option (\<lambda>b. (got @ b, ell)) (parse_ipv4 s))
      else (case hex_uint 0 h of
          None \<Rightarrow> None
        | Some v \<Rightarrow>
            (let got' = got @ [v div 256, v mod 256] in
             case r of
               [] \<Rightarrow> Some (got', ell)
             | [_] \<Rightarrow> None
             | c # d # r' \<Rightarrow>
                 if c \<noteq> CHR '':'' then None
                 else if d = CHR '':''
                 then (if ell \<noteq> None then None
                       else if r' = [] then Some (got', Some (length got'))
                       else ipv6_fields n got' (Some (length got')) r')
                 else ipv6_fields n got' ell (d # r'))))"

definition ipv6_expand :: "nat list \<Rightarrow> nat option \<Rightarrow> ip option" where
  "ipv6_expand got ell =
     (case ell of
        None \<Rightarrow> if length got = 16 then Some got else None
      | Some i \<Rightarrow> if length got < 16 then Some (take i got @ replicate (16 - length got) 0 @ drop i got) else None)"

definition parse_ipv6 :: "string \<Rightarrow> ip option" where
  "parse_ipv6 s =
     (if s = ''::'' then Some (replicate 16 0)
      else (let (ell, r) = (if has_prefix s ''::'' then (Some 0, drop 2 s) else (None, s)) in
        case ipv6_fields 8 [] ell r of None \<Rightarrow> None | Some (got, e) \<Rightarrow> ipv6_expand got e))"

text \<open>\<^verbatim>\<open>net.ParseIP\<close>: the first dot or colon decides; a zone is refused.\<close>

fun ip_kind :: "string \<Rightarrow> char option" where
  "ip_kind [] = None"
| "ip_kind (c # s) = (if c = CHR ''.'' \<or> c = CHR '':'' \<or> c = CHR ''%'' then Some c else ip_kind s)"

definition parse_ip :: "string \<Rightarrow> ip option" where
  "parse_ip s =
     (if CHR ''%'' \<in> set s then None
      else if ip_kind s = Some (CHR ''.'') then parse_ipv4 s
      else if ip_kind s = Some (CHR '':'') then parse_ipv6 s else None)"

text \<open>\<^verbatim>\<open>netip.ParseAddr\<close>, with the zone: an IPv6 address may have one, not empty.\<close>

definition parse_addr :: "string \<Rightarrow> (ip \<times> string) option" where
  "parse_addr s =
     (case ip_kind s of
        None \<Rightarrow> None
      | Some c \<Rightarrow>
          if c = CHR ''.'' then map_option (\<lambda>a. (a, [])) (parse_ipv4 s)
          else if c = CHR '':'' then
            (case cut_char (CHR ''%'') s of
               None \<Rightarrow> map_option (\<lambda>a. (a, [])) (parse_ipv6 s)
             | Some (a, z) \<Rightarrow> if z = [] then None else map_option (\<lambda>a. (a, z)) (parse_ipv6 a))
          else None)"

definition addr_bits :: "ip \<Rightarrow> nat" where
  "addr_bits a = 8 * length a"

text \<open>\<^verbatim>\<open>netip.ParsePrefix\<close>: address, slash, number of bits.\<close>

definition parse_prefix :: "string \<Rightarrow> (ip \<times> nat) option" where
  "parse_prefix s =
     (case last_index s CHR ''/'' of
        None \<Rightarrow> None
      | Some i \<Rightarrow>
          (let b = drop (Suc i) s in
           case parse_addr (take i s) of
             Some (a, []) \<Rightarrow>
               if length b > 1 \<and> (hd b = CHR ''0'' \<or> digit_of (hd b) = None) then None
               else (case atoi b of
                   None \<Rightarrow> None
                 | Some n \<Rightarrow> if 0 \<le> n \<and> n \<le> int (addr_bits a) then Some (a, nat n) else None)
           | _ \<Rightarrow> None))"

section \<open>Printing\<close>

definition ipv4_text :: "ip \<Rightarrow> string" where
  "ipv4_text a = str_join (map nat_digits a) ''.''"

fun groups16 :: "nat list \<Rightarrow> nat list" where
  "groups16 (a # b # xs) = (256 * a + b) # groups16 xs"
| "groups16 _ = []"

fun hex_digits :: "nat \<Rightarrow> string" where
  "hex_digits n = (if n < 16 then [hex_digit n] else hex_digits (n div 16) @ [hex_digit (n mod 16)])"

declare hex_digits.simps [simp del]

text \<open>The leftmost longest run of at least two zero groups: its start and length.\<close>

fun zero_run :: "nat list \<Rightarrow> nat" where
  "zero_run (0 # xs) = Suc (zero_run xs)"
| "zero_run _ = 0"

definition longest_zeros :: "nat list \<Rightarrow> (nat \<times> nat) option" where
  "longest_zeros g =
     foldl (\<lambda>best i. let l = zero_run (drop i g) in
        if l \<ge> 2 \<and> (case best of None \<Rightarrow> True | Some (_, k) \<Rightarrow> l > k) then Some (i, l) else best)
       None [0..<length g]"

definition ipv6_text :: "ip \<Rightarrow> string" where
  "ipv6_text a =
     (let g = groups16 a; show = (\<lambda>xs. str_join (map hex_digits xs) '':'') in
      case longest_zeros g of
        None \<Rightarrow> show g
      | Some (i, l) \<Rightarrow> show (take i g) @ ''::'' @ show (drop (i + l) g))"

text \<open>\<^verbatim>\<open>IP.String\<close>, and \<^verbatim>\<open>Prefix.String\<close>, which keeps a mapped address apart from an IPv4 one.\<close>

definition ip_text :: "ip \<Rightarrow> string" where
  "ip_text a = (case to4 a of Some b \<Rightarrow> ipv4_text b | None \<Rightarrow> ipv6_text a)"

definition prefix_text :: "ip \<times> nat \<Rightarrow> string" where
  "prefix_text p =
     (let (a, n) = p;
          t = (if length a = 4 then ipv4_text a
               else case to4 a of Some b \<Rightarrow> ''::ffff:'' @ ipv4_text b | None \<Rightarrow> ipv6_text a)
      in t @ ''/'' @ nat_digits n)"

section \<open>Host and port\<close>

definition join_host_port :: "string \<Rightarrow> string \<Rightarrow> string" where
  "join_host_port host port =
     (if CHR '':'' \<in> set host then ''['' @ host @ '']:'' @ port else host @ '':'' @ port)"

definition addr_err :: "string \<Rightarrow> string \<Rightarrow> gerr" where
  "addr_err a why = new_err (''address '' @ a @ '': '' @ why)"

definition split_host_port :: "string \<Rightarrow> (string \<times> string) res" where
  "split_host_port s =
     (case last_index s CHR '':'' of
        None \<Rightarrow> Inl (addr_err s ''missing port in address'')
      | Some i \<Rightarrow>
          if hd s = CHR ''['' then
            (case cut_char (CHR '']'') s of
               None \<Rightarrow> Inl (addr_err s ''missing ']' in address'')
             | Some (h, r) \<Rightarrow>
                 if r = [] then Inl (addr_err s ''missing port in address'')
                 else if length h + 1 \<noteq> i then
                   Inl (addr_err s (if hd r = CHR '':'' then ''too many colons in address'' else ''missing port in address''))
                 else if CHR ''['' \<in> set (tl s) then Inl (addr_err s ''unexpected '['  in address'')
                 else if CHR '']'' \<in> set r then Inl (addr_err s ''unexpected ']' in address'')
                 else Inr (tl h, drop (Suc i) s))
          else
            (let host = take i s in
             if CHR '':'' \<in> set host then Inl (addr_err s ''too many colons in address'')
             else if CHR ''['' \<in> set s then Inl (addr_err s ''unexpected '['  in address'')
             else if CHR '']'' \<in> set s then Inl (addr_err s ''unexpected ']' in address'')
             else Inr (host, drop (Suc i) s)))"

section \<open>Laws\<close>

lemma ip_equal_equiv: "ip_equal a a" "ip_equal a b \<Longrightarrow> ip_equal b a" "ip_equal a b \<Longrightarrow> ip_equal b c \<Longrightarrow> ip_equal a c"
  by (simp_all add: ip_equal_def)

lemma to4_length: "to4 a = Some b \<Longrightarrow> length b = 4"
  by (auto simp: to4_def split: if_splits)

lemma ip_loopback_equal: "ip_equal a b \<Longrightarrow> ip_loopback a \<Longrightarrow> ip_loopback b"
  unfolding ip_equal_def ip_norm_def ip_loopback_def
  by (auto split: option.splits dest!: to4_length)
    (auto simp: to4_def v4_in_v6_def)

lemma last_index_append: "c \<notin> set b \<Longrightarrow> last_index (a @ c # b) c = Some (length a)"
proof (induction a)
  case Nil
  have "last_index b c = None" using Nil by (induction b) auto
  then show ?case by simp
qed simp

lemma cut_char_append: "c \<notin> set a \<Longrightarrow> cut_char c (a @ c # b) = Some (a, b)"
  by (induction a) auto

text \<open>Splitting reads back what joining wrote.\<close>

lemma split_join_host_port:
  assumes "CHR ''['' \<notin> set h \<and> CHR '']'' \<notin> set h" "CHR ''['' \<notin> set p \<and> CHR '']'' \<notin> set p \<and> CHR '':'' \<notin> set p"
  shows "split_host_port (join_host_port h p) = Inr (h, p)"
proof (cases "CHR '':'' \<in> set h")
  case True
  let ?s = "(''['' @ h @ '']'') @ CHR '':'' # p"
  have l: "last_index ?s CHR '':'' = Some (length h + 2)"
    using last_index_append [of "CHR '':''" p "''['' @ h @ '']''"] assms by simp
  have c: "cut_char (CHR '']'') ?s = Some (CHR ''['' # h, CHR '':'' # p)"
    using cut_char_append [of "CHR '']''" "CHR ''['' # h" "CHR '':'' # p"] assms by simp
  have "split_host_port ?s = Inr (h, p)" using l c assms by (simp add: split_host_port_def)
  then show ?thesis using True by (simp add: join_host_port_def)
next
  case False
  have l: "last_index (h @ CHR '':'' # p) CHR '':'' = Some (length h)" using assms last_index_append by blast
  have "hd (h @ CHR '':'' # p) \<noteq> CHR ''[''" using assms by (cases h) auto
  then show ?thesis using False l assms by (simp add: join_host_port_def split_host_port_def)
qed

lemma parse_octet_digits: "n \<le> 255 \<Longrightarrow> parse_octet (nat_digits n) = Some n"
proof -
  assume n: "n \<le> 255"
  have "\<not> (length (nat_digits n) > 1 \<and> hd (nat_digits n) = CHR ''0'')"
  proof (cases "n < 10")
    case True
    then show ?thesis by (simp add: nat_digits.simps)
  next
    case False
    have "hd (nat_digits n) \<noteq> CHR ''0''" if "0 < n" for n
      using that
    proof (induction n rule: nat_digits.induct)
      case (1 n)
      show ?case
      proof (cases "n < 10")
        case True
        have "(of_char (digit_char n) :: nat) \<noteq> of_char CHR ''0''" using True 1(2) by (simp only: digit_char_nat) simp
        then have "digit_char n \<noteq> CHR ''0''" by metis
        then show ?thesis using True by (simp add: nat_digits.simps [of n])
      next
        case False
        then show ?thesis using 1 by (simp add: nat_digits.simps [of n])
      qed
    qed
    then show ?thesis using False by simp
  qed
  then show ?thesis using n by (auto simp: parse_octet_def atoi_digits_def)
qed

lemma parse_ipv4_text:
  assumes "length a = 4" "\<forall>x\<in>set a. x \<le> 255"
  shows "parse_ipv4 (ipv4_text a) = Some a"
proof -
  obtain p q r s where a: "a = [p, q, r, s]" using assms(1) by (auto simp: numeral_eq_Suc length_Suc_conv)
  have nodot: "CHR ''.'' \<notin> set (nat_digits n)" for n
  proof
    assume "CHR ''.'' \<in> set (nat_digits n)"
    then obtain d where "d < 10" "CHR ''.'' = digit_char d" using nat_digits_shape by blast
    then have "(of_char CHR ''.'' :: nat) = 48 + d" using digit_char_nat by metis
    then show False by simp
  qed
  have "split_char (CHR ''.'') (ipv4_text a) = map nat_digits a"
    unfolding ipv4_text_def using nodot a by (intro split_char_join) auto
  then show ?thesis using a assms parse_octet_digits by (simp add: parse_ipv4_def)
qed

end
