(* ===== verification/SocketOwners.thy ===== *)
theory SocketOwners imports Platform Go_Net begin

text \<open>
  Socket ownership on Linux: \<^verbatim>\<open>internal/proxy/listener_linux.go\<close> and
  \<^verbatim>\<open>internal/proxy/pid_attestation_linux.go\<close>.  Which process owns a listening or a connected
  socket is read off \<^verbatim>\<open>/proc/net\<close> (endpoints and inodes) and \<^verbatim>\<open>/proc/PID/fd\<close> (links to socket
  inodes).  The tables are parsed by pure functions on their text; the readings of
  \<^verbatim>\<open>/proc\<close> are observations of the machine, each at its own moment.  A Go map used as a set
  of inodes is a list here; where the code ranges over a map and stops at the first hit,
  the model takes the first in the order of the table.
\<close>

section \<open>The tables\<close>

text \<open>\<^verbatim>\<open>bufio.Scanner\<close> on lines: the line ends are \<open>\n\<close> or \<open>\r\n\<close>, an empty rest after the last
  one is no line, and a line of 65536 bytes or more stops the scan with an error.\<close>

definition drop_cr :: "string \<Rightarrow> string" where
  "drop_cr l = (if l \<noteq> [] \<and> last l = CHR 0x0D then butlast l else l)"

definition text_lines :: "string \<Rightarrow> string list" where
  "text_lines s = (let ls = split_char (CHR 0x0A) s in if last ls = [] then butlast ls else ls)"

definition scan_lines :: "string \<Rightarrow> string list \<times> bool" where
  "scan_lines s =
     (let ls = text_lines s; ok = takeWhile (\<lambda>l. int (length l) < 65536) ls
      in (map drop_cr ok, length ok < length ls))"

definition too_long :: gerr where
  "too_long = new_err ''bufio.Scanner: token too long''"

fun hex_bytes :: "string \<Rightarrow> nat list option" where
  "hex_bytes [] = Some []"
| "hex_bytes [_] = None"
| "hex_bytes (a # b # s) =
     (case (hex_val a, hex_val b, hex_bytes s) of
        (Some x, Some y, Some r) \<Rightarrow> Some ((16 * x + y) # r)
      | _ \<Rightarrow> None)"

fun swap_words :: "nat list \<Rightarrow> nat list" where
  "swap_words (a # b # c # d # r) = d # c # b # a # swap_words r"
| "swap_words r = r"

definition decode_proc_endpoint :: "string \<Rightarrow> (ip \<times> int) option" where
  "decode_proc_endpoint raw =
     (case split_char (CHR '':'') raw of
        [addr, port] \<Rightarrow>
          (case (if port = [] then None else hex_uint 0 port) of
             None \<Rightarrow> None
           | Some p \<Rightarrow>
               if int p > 65535 then None
               else (case hex_bytes addr of
                   None \<Rightarrow> None
                 | Some b \<Rightarrow> if length b = 4 \<or> length b = 16 then Some (swap_words b, int p) else None))
      | _ \<Rightarrow> None)"

definition contains_ip :: "ip list \<Rightarrow> ip \<Rightarrow> bool" where
  "contains_ip expected got \<longleftrightarrow> list_ex (\<lambda>a. ip_equal a got) expected"

text \<open>One line of a table: its inode and printed address if it is a listening socket on the
  port and one of the addresses.\<close>

definition listen_line :: "int \<Rightarrow> ip list \<Rightarrow> string \<Rightarrow> (string \<times> string) option" where
  "listen_line port expected line =
     (let f = str_fields line in
      if length f < 10 \<or> f ! 3 \<noteq> ''0A'' then None
      else (case decode_proc_endpoint (f ! 1) of
          None \<Rightarrow> None
        | Some (a, p) \<Rightarrow>
            if p \<noteq> port \<or> \<not> contains_ip expected a then None
            else Some (f ! 9, join_host_port (ip_text a) (itoa p))))"

definition listen_inodes :: "int \<Rightarrow> ip list \<Rightarrow> string \<Rightarrow> (string \<times> string) list res" where
  "listen_inodes port expected text =
     (let (ls, long) = scan_lines text in
      if long then Inl too_long else Inr (List.map_filter (listen_line port expected) (tl ls)))"

definition matching_listen_inodes ::
  "'k machine \<Rightarrow> string \<Rightarrow> int \<Rightarrow> ip list \<Rightarrow> 'k world \<Rightarrow> (string \<times> string) list res \<times> 'k world" where
  "matching_listen_inodes m path port expected w =
     (case host_file m path w of
        (Inl e, w1) \<Rightarrow> (Inl e, w1)
      | (Inr text, w1) \<Rightarrow> (listen_inodes port expected text, w1))"

definition source_line :: "ip \<Rightarrow> int \<Rightarrow> string \<Rightarrow> string option" where
  "source_line a port line =
     (let f = str_fields line in
      if length f < 10 then None
      else (case decode_proc_endpoint (f ! 1) of
          None \<Rightarrow> None
        | Some (b, p) \<Rightarrow>
            if p \<noteq> port \<or> \<not> ip_equal b a then None
            else if f ! 9 \<noteq> [] \<and> f ! 9 \<noteq> ''0'' then Some (f ! 9) else None))"

definition source_inodes :: "ip \<Rightarrow> int \<Rightarrow> string \<Rightarrow> string list res" where
  "source_inodes a port text =
     (let (ls, long) = scan_lines text in
      if long then Inl too_long else Inr (List.map_filter (source_line a port) (tl ls)))"

definition source_socket_inodes ::
  "'k machine \<Rightarrow> string \<Rightarrow> ip \<Rightarrow> int \<Rightarrow> 'k world \<Rightarrow> string list res \<times> 'k world" where
  "source_socket_inodes m path a port w =
     (case host_file m path w of
        (Inl e, w1) \<Rightarrow> (Inl e, w1)
      | (Inr text, w1) \<Rightarrow> (source_inodes a port text, w1))"

section \<open>The sockets of a process\<close>

definition socket_link :: "string \<Rightarrow> string option" where
  "socket_link target =
     (if has_prefix target ''socket:['' \<and> has_suffix target '']''
      then Some (trim_suffix (trim_prefix target ''socket:['') '']'') else None)"

fun read_socket_links :: "'k machine \<Rightarrow> string \<Rightarrow> string list \<Rightarrow> 'k world \<Rightarrow> string list \<times> 'k world" where
  "read_socket_links m dir [] w = ([], w)"
| "read_socket_links m dir (n # ns) w =
     (let (t, w1) = observe m (\<lambda>k. m_readlink m k (path_join dir n)) w;
          (rest, w2) = read_socket_links m dir ns w1
      in ((case t of Inl _ \<Rightarrow> rest
           | Inr target \<Rightarrow> (case socket_link target of None \<Rightarrow> rest | Some i \<Rightarrow> i # rest)), w2))"

definition fd_dir :: "int \<Rightarrow> string" where
  "fd_dir pid = ''/proc/'' @ itoa pid @ ''/fd''"

definition process_socket_inodes :: "'k machine \<Rightarrow> int \<Rightarrow> 'k world \<Rightarrow> string list res \<times> 'k world" where
  "process_socket_inodes m pid w =
     (case observe m (\<lambda>k. m_read_dir m k (fd_dir pid)) w of
        (Inl e, w1) \<Rightarrow> (Inl e, w1)
      | (Inr names, w1) \<Rightarrow> (let (is, w2) = read_socket_links m (fd_dir pid) names w1 in (Inr is, w2)))"

section \<open>Who listens\<close>

definition loopback4 :: ip where "loopback4 = replicate 10 0 @ [255, 255, 127, 0, 0, 1]"
definition loopback6 :: ip where "loopback6 = replicate 15 0 @ [1]"

definition expected_loopback_ips :: "string \<Rightarrow> ip list res" where
  "expected_loopback_ips raw =
     (let host = trim_set ''[]'' (trim_space raw) in
      case parse_ip host of
        Some a \<Rightarrow> if ip_loopback a then Inr [a] else Inl (new_err (''listener host '' @ go_quote host @ '' is not loopback''))
      | None \<Rightarrow> if equal_fold host ''localhost'' then Inr [loopback4, loopback6]
                else Inl (new_err (''unsupported listener host '' @ go_quote host)))"

fun search_tables ::
  "string list \<Rightarrow> 'k machine \<Rightarrow> int \<Rightarrow> int \<Rightarrow> ip list \<Rightarrow> string list \<Rightarrow> 'k world \<Rightarrow> (bool \<times> string) res \<times> 'k world" where
  "search_tables [] m pid port ips inodes w =
     (Inr (False, ''pid='' @ itoa pid @ '' has sockets but none own expected LISTEN port '' @ itoa port), w)"
| "search_tables (t # ts) m pid port ips inodes w =
     (case matching_listen_inodes m t port ips w of
        (Inl e, w1) \<Rightarrow> if err_kind e = NotExist then search_tables ts m pid port ips inodes w1 else (Inl e, w1)
      | (Inr matches, w1) \<Rightarrow>
          (case find (\<lambda>x. fst x \<in> set inodes) matches of
             Some (i, addr) \<Rightarrow> (Inr (True, ''pid='' @ itoa pid @ '' owns LISTEN '' @ addr @ '' inode='' @ i), w1)
           | None \<Rightarrow> search_tables ts m pid port ips inodes w1))"

definition process_owns_listener ::
  "'k machine \<Rightarrow> int \<Rightarrow> string \<Rightarrow> int \<Rightarrow> 'k world \<Rightarrow> (bool \<times> string) res \<times> 'k world" where
  "process_owns_listener m pid host port w =
     (case process_socket_inodes m pid w of
        (Inl e, w1) \<Rightarrow> (Inl (wrap_err (''inspect /proc/'' @ itoa pid @ ''/fd: '') e), w1)
      | (Inr inodes, w1) \<Rightarrow>
          if inodes = [] then (Inr (False, ''process owns no visible socket descriptors''), w1)
          else (case expected_loopback_ips host of
              Inl e \<Rightarrow> (Inl e, w1)
            | Inr ips \<Rightarrow> search_tables [''/proc/net/tcp'', ''/proc/net/tcp6''] m pid port ips inodes w1))"

section \<open>Who owns a connection\<close>

definition unique_positive :: "int list \<Rightarrow> int list" where
  "unique_positive xs = sorted_keys (filter (\<lambda>v. v > 0) xs)"

definition split_runtime_source :: "string \<Rightarrow> (ip \<times> int) res" where
  "split_runtime_source source =
     (case split_host_port (trim_space source) of
        Inl e \<Rightarrow> Inl (wrap_err (''parse runtime source '' @ go_quote source @ '': '') e)
      | Inr (host, port) \<Rightarrow>
          (case parse_ip (trim_set ''[]'' host) of
             None \<Rightarrow> Inl (new_err (''runtime source '' @ go_quote source @ '' does not contain an IP address''))
           | Some a \<Rightarrow>
               (case atoi port of
                  None \<Rightarrow> Inl (new_err (''runtime source '' @ go_quote source @ '' has invalid port''))
                | Some p \<Rightarrow> if p \<le> 0 \<or> p > 65535
                    then Inl (new_err (''runtime source '' @ go_quote source @ '' has invalid port''))
                    else Inr (a, p))))"

definition socket_tables :: "string \<Rightarrow> string list" where
  "socket_tables network =
     (let n = to_lower (trim_space network) in
      if n = ''tcp'' then [''/proc/net/tcp'', ''/proc/net/tcp6'']
      else if n = ''udp'' then [''/proc/net/udp'', ''/proc/net/udp6'']
      else if n = [] then [''/proc/net/tcp'', ''/proc/net/tcp6'', ''/proc/net/udp'', ''/proc/net/udp6'']
      else [])"

fun collect_inodes :: "string list \<Rightarrow> 'k machine \<Rightarrow> ip \<Rightarrow> int \<Rightarrow> 'k world \<Rightarrow> string list res \<times> 'k world" where
  "collect_inodes [] m a port w = (Inr [], w)"
| "collect_inodes (t # ts) m a port w =
     (case source_socket_inodes m t a port w of
        (Inl e, w1) \<Rightarrow> if err_kind e = NotExist then collect_inodes ts m a port w1 else (Inl e, w1)
      | (Inr is, w1) \<Rightarrow>
          (case collect_inodes ts m a port w1 of
             (Inl e, w2) \<Rightarrow> (Inl e, w2)
           | (Inr js, w2) \<Rightarrow> (Inr (is @ js), w2)))"

fun owning_pids :: "int list \<Rightarrow> 'k machine \<Rightarrow> string list \<Rightarrow> 'k world \<Rightarrow> int list \<times> 'k world" where
  "owning_pids [] m inodes w = ([], w)"
| "owning_pids (p # ps) m inodes w =
     (case process_socket_inodes m p w of
        (Inl _, w1) \<Rightarrow> owning_pids ps m inodes w1
      | (Inr owned, w1) \<Rightarrow>
          (let (rest, w2) = owning_pids ps m inodes w1
           in (if list_ex (\<lambda>i. i \<in> set owned) inodes then p # rest else rest, w2)))"

definition connection_owners ::
  "'k machine \<Rightarrow> string \<Rightarrow> string \<Rightarrow> int list \<Rightarrow> 'k world \<Rightarrow> (int list \<times> string) res \<times> 'k world" where
  "connection_owners m source network candidates w =
     (case split_runtime_source source of
        Inl e \<Rightarrow> (Inl e, w)
      | Inr (a, port) \<Rightarrow>
          if socket_tables network = [] then (Inl (new_err (''unsupported runtime network '' @ go_quote network)), w)
          else (case collect_inodes (socket_tables network) m a port w of
              (Inl e, w1) \<Rightarrow> (Inl e, w1)
            | (Inr inodes, w1) \<Rightarrow>
                if inodes = [] then (Inr ([], ''no Linux socket table entry matches source '' @ source), w1)
                else (let (owners, w2) = owning_pids (unique_positive candidates) m inodes w1
                  in (Inr (owners, ''source='' @ source @ '' matched '' @ itoa (int (card (set inodes))) @
                        '' kernel socket inode(s) and '' @ itoa (int (length owners)) @ '' candidate PID(s)''), w2))))"

section \<open>The same on Windows\<close>

text \<open>\<^verbatim>\<open>listener_windows.go\<close> and \<^verbatim>\<open>pid_attestation_windows.go\<close>: the rows of \<^verbatim>\<open>netstat -ano\<close>.\<close>

definition netstat_cmd :: "string \<Rightarrow> string list" where
  "netstat_cmd proto = [''netstat'', ''-ano'', ''-p'', proto]"

definition windows_host_matches :: "ip list \<Rightarrow> string \<Rightarrow> bool" where
  "windows_host_matches expected raw =
     (case parse_ip (trim_set ''[]'' raw) of None \<Rightarrow> False | Some got \<Rightarrow> contains_ip expected got)"

definition listening_row :: "int \<Rightarrow> ip list \<Rightarrow> int \<Rightarrow> string \<Rightarrow> string option" where
  "listening_row pid expected port line =
     (let f = str_fields line in
      if length f < 5 \<or> \<not> equal_fold (f ! 0) ''TCP'' then None
      else if last f \<noteq> itoa pid \<or> \<not> equal_fold (f ! (length f - 2)) ''LISTENING'' then None
      else (case split_host_port (f ! 1) of
          Inl _ \<Rightarrow> None
        | Inr (h, p) \<Rightarrow>
            if atoi p = Some port \<and> windows_host_matches expected h then Some (f ! 1) else None))"

definition windows_owns_listener ::
  "'k machine \<Rightarrow> int \<Rightarrow> string \<Rightarrow> int \<Rightarrow> 'k world \<Rightarrow> (bool \<times> string) res \<times> 'k world" where
  "windows_owns_listener m pid host port w =
     (case exec_cmd m (netstat_cmd ''tcp'') w of
        ((out, Some e), w1) \<Rightarrow> (Inl (wrap_out ''netstat -ano -p tcp: '' e (trim_space out)), w1)
      | ((out, None), w1) \<Rightarrow>
          (case expected_loopback_ips host of
             Inl e \<Rightarrow> (Inl e, w1)
           | Inr ips \<Rightarrow>
               (case List.map_filter (listening_row pid ips port) (split_char (CHR 0x0A) out) of
                  [] \<Rightarrow> (Inr (False, ''pid='' @ itoa pid @ '' has no LISTEN socket on '' @ host @ '':'' @ itoa port), w1)
                | addr # _ \<Rightarrow> (Inr (True, ''pid='' @ itoa pid @ '' owns LISTEN '' @ addr), w1))))"

definition owns_listener ::
  "platform \<Rightarrow> 'k machine \<Rightarrow> int \<Rightarrow> string \<Rightarrow> int \<Rightarrow> 'k world \<Rightarrow> (bool \<times> string) res \<times> 'k world" where
  "owns_listener pf = (case pf of Windows \<Rightarrow> windows_owns_listener | _ \<Rightarrow> process_owns_listener)"

text \<open>The output of \<^verbatim>\<open>netstat\<close> is kept for 1.5 seconds.\<close>

type_synonym netstat_cache = "string \<rightharpoonup> string \<times> int"

definition netstat_output ::
  "'k machine \<Rightarrow> netstat_cache \<Rightarrow> string \<Rightarrow> 'k world \<Rightarrow> string res \<times> netstat_cache \<times> 'k world" where
  "netstat_output m c proto w =
     (let (t, w1) = now m w in
      case (case c proto of Some (out, at) \<Rightarrow> if t_nanos t - at < 1500000000 then Some out else None | None \<Rightarrow> None) of
        Some out \<Rightarrow> (Inr out, c, w1)
      | None \<Rightarrow>
          (case exec_cmd m (netstat_cmd proto) w1 of
             ((out, Some e), w2) \<Rightarrow> (Inl (wrap_out (''netstat -ano -p '' @ proto @ '': '') e (trim_space out)), c, w2)
           | ((out, None), w2) \<Rightarrow> (Inr out, c(proto \<mapsto> (out, t_nanos t)), w2)))"

definition drop_zone :: "string \<Rightarrow> string" where
  "drop_zone h = (case last_index h CHR ''%'' of None \<Rightarrow> h | Some i \<Rightarrow> take i h)"

definition split_windows_source :: "string \<Rightarrow> (ip \<times> int) res" where
  "split_windows_source source =
     (case split_host_port (trim_space source) of
        Inl e \<Rightarrow> Inl (wrap_err (''parse runtime source '' @ go_quote source @ '': '') e)
      | Inr (host, port) \<Rightarrow>
          (case parse_ip (drop_zone (trim_set ''[]'' host)) of
             None \<Rightarrow> Inl (new_err (''runtime source '' @ go_quote source @ '' does not contain an IP address''))
           | Some a \<Rightarrow>
               (case atoi port of
                  None \<Rightarrow> Inl (new_err (''runtime source '' @ go_quote source @ '' has invalid port''))
                | Some p \<Rightarrow> if p \<le> 0 \<or> p > 65535
                    then Inl (new_err (''runtime source '' @ go_quote source @ '' has invalid port''))
                    else Inr (a, p))))"

definition netstat_row :: "string \<Rightarrow> ip \<Rightarrow> int \<Rightarrow> string \<Rightarrow> int option" where
  "netstat_row proto want_ip want_port line =
     (let f = str_fields line in
      if length f < 4 \<or> \<not> equal_fold (f ! 0) proto then None
      else (case split_windows_source (f ! 1) of
          Inl _ \<Rightarrow> None
        | Inr (a, p) \<Rightarrow>
            if p \<noteq> want_port \<or> \<not> ip_equal a want_ip then None
            else (case atoi (last f) of Some pid \<Rightarrow> if pid > 0 then Some pid else None | None \<Rightarrow> None)))"

definition parse_netstat_owners :: "string \<Rightarrow> string \<Rightarrow> ip \<Rightarrow> int \<Rightarrow> int list \<Rightarrow> int list \<times> nat" where
  "parse_netstat_owners raw proto a port candidates =
     (let pids = List.map_filter (netstat_row (to_lower (trim_space proto)) a port) (split_char (CHR 0x0A) (replace_crlf raw))
      in (sorted_keys (filter (\<lambda>p. p \<in> set (unique_positive candidates)) pids), length pids))"

definition windows_connection_owners ::
  "'k machine \<Rightarrow> netstat_cache \<Rightarrow> string \<Rightarrow> string \<Rightarrow> int list \<Rightarrow> 'k world \<Rightarrow>
     (int list \<times> string) res \<times> netstat_cache \<times> 'k world" where
  "windows_connection_owners m c source network candidates w =
     (case split_windows_source source of
        Inl e \<Rightarrow> (Inl e, c, w)
      | Inr (a, port) \<Rightarrow>
          (let p0 = to_lower (trim_space network) in
           if p0 \<noteq> ''tcp'' \<and> p0 \<noteq> ''udp'' \<and> p0 \<noteq> []
           then (Inl (new_err (''unsupported runtime network '' @ go_quote network)), c, w)
           else (let proto = (if p0 = [] then ''tcp'' else p0) in
             case netstat_output m c proto w of
               (Inl e, c1, w1) \<Rightarrow> (Inl e, c1, w1)
             | (Inr out, c1, w1) \<Rightarrow>
                 (let (owners, n) = parse_netstat_owners out proto a port candidates
                  in (Inr (owners, ''source='' @ source @ '' matched '' @ itoa (int n) @ '' netstat row(s) and '' @
                        itoa (int (length owners)) @ '' candidate PID(s)''), c1, w1)))))"

text \<open>The function of the build: on other platforms there is none.\<close>

definition runtime_connection_owners ::
  "platform \<Rightarrow> 'k machine \<Rightarrow> netstat_cache \<Rightarrow> string \<Rightarrow> string \<Rightarrow> int list \<Rightarrow> 'k world \<Rightarrow>
     (int list \<times> string) res \<times> netstat_cache \<times> 'k world" where
  "runtime_connection_owners pf m c source network candidates w =
     (case pf of
        Linux \<Rightarrow> (let (r, w1) = connection_owners m source network candidates w in (r, c, w1))
      | Windows \<Rightarrow> windows_connection_owners m c source network candidates w
      | Other_os _ \<Rightarrow> (Inl (new_err ''PID/socket ownership attestation is unsupported on this platform''), c, w))"

section \<open>The kernel's endpoint format\<close>

text \<open>How the kernel prints an endpoint (little endian): every 32-bit word of the address byte
  by byte from its last, and the port, as upper case hexadecimal.\<close>

definition upper_hex :: "nat \<Rightarrow> char" where
  "upper_hex d = (if d < 10 then char_of (48 + d) else char_of (55 + d))"

definition hex_byte :: "nat \<Rightarrow> string" where
  "hex_byte b = [upper_hex (b div 16), upper_hex (b mod 16)]"

definition proc_endpoint :: "ip \<Rightarrow> nat \<Rightarrow> string" where
  "proc_endpoint a p = concat (map hex_byte (swap_words a)) @ '':'' @ hex_byte (p div 256) @ hex_byte (p mod 256)"

lemma hex_val_upper [simp]: "d < 16 \<Longrightarrow> hex_val (upper_hex d) = Some d"
  by (auto simp: hex_val_def upper_hex_def Let_def)

lemma upper_hex_no_colon [simp]: "d < 16 \<Longrightarrow> CHR '':'' \<noteq> upper_hex d"
proof
  assume "d < 16" "CHR '':'' = upper_hex d"
  then have "hex_val CHR '':'' = Some d" using hex_val_upper by metis
  then show False by (simp add: hex_val_def)
qed

lemma high_nibble [simp]: "b < 256 \<Longrightarrow> b div 16 < (16::nat)"
  by (rule less_mult_imp_div_less) simp

lemma hex_bytes_concat: "\<forall>b\<in>set bs. b < 256 \<Longrightarrow> hex_bytes (concat (map hex_byte bs)) = Some bs"
  by (induction bs) (simp_all add: hex_byte_def)

lemma swap_words_4 [simp]: "length a = 4 \<Longrightarrow> swap_words (swap_words a) = a \<and> length (swap_words a) = 4 \<and> set (swap_words a) = set a"
  by (auto simp: numeral_eq_Suc length_Suc_conv)

lemma swap_words_16 [simp]: "length a = 16 \<Longrightarrow> swap_words (swap_words a) = a \<and> length (swap_words a) = 16 \<and> set (swap_words a) = set a"
  by (auto simp: numeral_eq_Suc length_Suc_conv)

lemma hex_bytes_no_colon: "\<forall>b\<in>set bs. b < 256 \<Longrightarrow> CHR '':'' \<notin> set (concat (map hex_byte bs))"
  by (induction bs) (auto simp: hex_byte_def)

lemma decode_endpoint:
  assumes "length a = 4 \<or> length a = 16" "\<forall>b\<in>set a. b < 256" "p < 65536"
  shows "decode_proc_endpoint (proc_endpoint a p) = Some (a, int p)"
proof -
  let ?h = "concat (map hex_byte (swap_words a))" and ?p = "hex_byte (p div 256) @ hex_byte (p mod 256)"
  have s: "swap_words (swap_words a) = a" "length (swap_words a) = length a" "\<forall>b\<in>set (swap_words a). b < 256"
    using assms(1,2) by auto
  have pb: "p div 256 < 256" "p mod 256 < 256" using assms(3) by simp_all
  have "CHR '':'' \<notin> set ?h" using s(3) by (rule hex_bytes_no_colon)
  moreover have "CHR '':'' \<notin> set ?p" using hex_bytes_no_colon [of "[p div 256, p mod 256]"] pb by simp
  ultimately have split: "split_char (CHR '':'') (proc_endpoint a p) = [?h, ?p]"
    by (simp add: proc_endpoint_def split_char_append split_char_none)
  have "hex_uint 0 ?p = Some ((p div 256 div 16 * 16 + p div 256 mod 16) * 256 + (p mod 256 div 16) * 16 + p mod 256 mod 16)"
    using pb by (simp add: hex_byte_def)
  also have "\<dots> = Some p" by (metis (no_types, lifting) add.assoc div_mult_mod_eq)
  finally have port: "hex_uint 0 ?p = Some p" .
  have "?p \<noteq> []" by (simp add: hex_byte_def)
  with split port show ?thesis
    using assms(1,3) s hex_bytes_concat [OF s(3)] by (simp add: decode_proc_endpoint_def)
qed

section \<open>Evidence behind an answer\<close>

lemma has_prefixD: "has_prefix s p \<Longrightarrow> \<exists>r. s = p @ r"
  by (metis append_take_drop_id has_prefix_def)

lemma has_suffixD: "has_suffix s p \<Longrightarrow> \<exists>r. s = r @ p"
  unfolding has_suffix_def by (metis has_prefixD rev_append rev_rev_ident)

lemma socket_linkD: "socket_link t = Some i \<Longrightarrow> t = ''socket:['' @ i @ '']''"
proof -
  assume t: "socket_link t = Some i"
  then have p: "has_prefix t ''socket:[''" "has_suffix t '']''" and i: "i = trim_suffix (trim_prefix t ''socket:['') '']''"
    by (auto simp: socket_link_def split: if_splits)
  from p(1) obtain r where r: "t = ''socket:['' @ r" using has_prefixD by blast
  from p(2) obtain q where q: "t = q @ '']''" using has_suffixD by blast
  have "r \<noteq> []" using r q by (cases r) (auto dest: arg_cong [where f = last])
  then obtain r' where r': "r = r' @ '']''" using r q by (metis append_butlast_last_id last_appendR last_snoc)
  have "trim_prefix t ''socket:['' = r" using r by (simp add: trim_prefix_def has_prefix_def)
  then have "i = r'" using i r' by (simp add: trim_suffix_def has_suffix_def has_prefix_def)
  with r r' show ?thesis by simp
qed

lemma observe_value: "observe m f w = (r, w') \<Longrightarrow> \<exists>k. r = f k"
  by (auto simp: observe_def Let_def)

definition holds_socket :: "'k machine \<Rightarrow> int \<Rightarrow> string \<Rightarrow> bool" where
  "holds_socket m pid inode \<longleftrightarrow>
     (\<exists>k k' names n. m_read_dir m k (fd_dir pid) = Inr names \<and> n \<in> set names \<and>
        m_readlink m k' (path_join (fd_dir pid) n) = Inr (''socket:['' @ inode @ '']''))"

lemma read_links_sound:
  "read_socket_links m dir ns w = (is, w') \<Longrightarrow> i \<in> set is \<Longrightarrow>
     \<exists>n k. n \<in> set ns \<and> m_readlink m k (path_join dir n) = Inr (''socket:['' @ i @ '']'')"
proof (induction m dir ns w arbitrary: "is" w' rule: read_socket_links.induct)
  case (2 m dir n ns w)
  obtain t w1 where t: "observe m (\<lambda>k. m_readlink m k (path_join dir n)) w = (t, w1)" by fastforce
  obtain rest w2 where rest: "read_socket_links m dir ns w1 = (rest, w2)" by fastforce
  show ?case
  proof (cases "i \<in> set rest")
    case True
    then show ?thesis using 2(1) [OF t [symmetric] refl rest] by auto
  next
    case False
    then obtain target where "t = Inr target" "socket_link target = Some i"
      using 2(2,3) t rest by (auto split: sum.splits option.splits)
    then show ?thesis using observe_value [OF t] socket_linkD by fastforce
  qed
qed simp

lemma socket_inodes_sound:
  assumes "process_socket_inodes m pid w = (Inr is, w')" "i \<in> set is"
  shows "holds_socket m pid i"
proof -
  obtain d w1 where d: "observe m (\<lambda>k. m_read_dir m k (fd_dir pid)) w = (d, w1)" by fastforce
  then obtain names where n: "d = Inr names" using assms(1) by (cases d) (auto simp: process_socket_inodes_def)
  then have "read_socket_links m (fd_dir pid) names w1 = (is, w')"
    using assms(1) d by (auto simp: process_socket_inodes_def Let_def split: prod.splits)
  then show ?thesis using read_links_sound assms(2) observe_value [OF d] n unfolding holds_socket_def by metis
qed

text \<open>A table of \<^verbatim>\<open>/proc/net\<close> lists the inode with an endpoint that satisfies \<open>Q\<close>, in a line
  that satisfies \<open>L\<close>.\<close>

definition table_lists :: "'k machine \<Rightarrow> string \<Rightarrow> (string list \<Rightarrow> bool) \<Rightarrow> (ip \<Rightarrow> int \<Rightarrow> bool) \<Rightarrow> string \<Rightarrow> bool" where
  "table_lists m table L Q inode \<longleftrightarrow>
     (\<exists>k text line a p. m_host_file m k table = Inr text \<and> line \<in> set (fst (scan_lines text)) \<and>
        length (str_fields line) \<ge> 10 \<and> L (str_fields line) \<and>
        decode_proc_endpoint (str_fields line ! 1) = Some (a, p) \<and> Q a p \<and> str_fields line ! 9 = inode)"

lemma map_filter_set: "y \<in> set (List.map_filter f xs) \<longleftrightarrow> (\<exists>x\<in>set xs. f x = Some y)"
  by (force simp: List.map_filter_def)

lemma tl_subset: "x \<in> set (tl xs) \<Longrightarrow> x \<in> set xs"
  by (cases xs) auto

lemma listen_lineD:
  assumes "listen_line port ips line = Some (i, addr)"
  shows "\<exists>a p. 10 \<le> length (str_fields line) \<and> str_fields line ! 3 = ''0A'' \<and>
           decode_proc_endpoint (str_fields line ! 1) = Some (a, p) \<and> (p = port \<and> contains_ip ips a) \<and> str_fields line ! 9 = i"
proof -
  define f where "f = str_fields line"
  have "\<not> (length f < 10 \<or> f ! 3 \<noteq> ''0A'')" using assms unfolding listen_line_def Let_def f_def [symmetric] by (metis option.distinct(1))
  moreover obtain a p where "decode_proc_endpoint (f ! 1) = Some (a, p)" "\<not> (p \<noteq> port \<or> \<not> contains_ip ips a)" "f ! 9 = i"
    using assms unfolding listen_line_def Let_def f_def [symmetric] by (auto split: if_splits option.splits)
  ultimately show ?thesis unfolding f_def [symmetric] by (metis not_less)
qed

lemma source_lineD:
  assumes "source_line b port line = Some i"
  shows "\<exists>a p. 10 \<le> length (str_fields line) \<and>
           decode_proc_endpoint (str_fields line ! 1) = Some (a, p) \<and> (p = port \<and> ip_equal a b) \<and> str_fields line ! 9 = i"
proof -
  define f where "f = str_fields line"
  have "\<not> length f < 10" using assms unfolding source_line_def Let_def f_def [symmetric] by (metis option.distinct(1))
  moreover obtain a p where "decode_proc_endpoint (f ! 1) = Some (a, p)" "\<not> (p \<noteq> port \<or> \<not> ip_equal a b)" "f ! 9 = i"
    using assms unfolding source_line_def Let_def f_def [symmetric] by (auto split: if_splits option.splits)
  ultimately show ?thesis unfolding f_def [symmetric] by (metis not_less)
qed

lemma listen_inodes_sound:
  assumes "matching_listen_inodes m t port ips w = (Inr ms, w')" "(i, addr) \<in> set ms"
  shows "table_lists m t (\<lambda>f. f ! 3 = ''0A'') (\<lambda>a p. p = port \<and> contains_ip ips a) i"
proof -
  obtain tx where x: "host_file m t w = (Inr tx, w')" "listen_inodes port ips tx = Inr ms"
    using assms(1) by (auto simp: matching_listen_inodes_def split: prod.splits sum.splits)
  then have "\<exists>line\<in>set (tl (fst (scan_lines tx))). listen_line port ips line = Some (i, addr)"
    using assms(2) by (auto simp: listen_inodes_def Let_def map_filter_set split: prod.splits if_splits)
  then obtain line where l0: "line \<in> set (tl (fst (scan_lines tx)))" "listen_line port ips line = Some (i, addr)"
    by (rule bexE)
  note l = tl_subset [OF l0(1)] l0(2)
  from observe_value [OF x(1) [unfolded host_file_def]] obtain k where "Inr tx = m_host_file m k t" by (rule exE)
  then have k: "m_host_file m k t = Inr tx" by (rule sym)
  from listen_lineD [OF l(2)] show ?thesis
    unfolding table_lists_def
    by (elim exE conjE)
      (rule exI [of _ k], rule exI [of _ tx], rule exI [of _ line], rule exI, rule exI, intro conjI k l(1); assumption)
qed

lemma source_inodes_sound:
  assumes "source_socket_inodes m t a port w = (Inr is, w')" "i \<in> set is"
  shows "table_lists m t (\<lambda>_. True) (\<lambda>b p. p = port \<and> ip_equal b a) i"
proof -
  obtain tx where x: "host_file m t w = (Inr tx, w')" "source_inodes a port tx = Inr is"
    using assms(1) by (auto simp: source_socket_inodes_def split: prod.splits sum.splits)
  then have "\<exists>line\<in>set (tl (fst (scan_lines tx))). source_line a port line = Some i"
    using assms(2) by (auto simp: source_inodes_def Let_def map_filter_set split: prod.splits if_splits)
  then obtain line where l0: "line \<in> set (tl (fst (scan_lines tx)))" "source_line a port line = Some i"
    by (rule bexE)
  note l = tl_subset [OF l0(1)] l0(2)
  from observe_value [OF x(1) [unfolded host_file_def]] obtain k where "Inr tx = m_host_file m k t" by (rule exE)
  then have k: "m_host_file m k t = Inr tx" by (rule sym)
  from source_lineD [OF l(2)] show ?thesis
    unfolding table_lists_def
    by (elim exE conjE)
      (rule exI [of _ k], rule exI [of _ tx], rule exI [of _ line], rule exI, rule exI, intro conjI TrueI k l(1); assumption)
qed

lemma search_tables_sound:
  "search_tables ts m pid port ips inodes w = (Inr (True, d), w') \<Longrightarrow>
     \<exists>t\<in>set ts. \<exists>i\<in>set inodes. table_lists m t (\<lambda>f. f ! 3 = ''0A'') (\<lambda>a p. p = port \<and> contains_ip ips a) i"
proof (induction ts arbitrary: w)
  case (Cons t ts)
  obtain r w1 where r: "matching_listen_inodes m t port ips w = (r, w1)" by fastforce
  show ?case
  proof (cases "search_tables ts m pid port ips inodes w1 = (Inr (True, d), w')")
    case True
    with Cons.IH show ?thesis by fastforce
  next
    case False
    then obtain ms x where ms: "r = Inr ms" "find (\<lambda>x. fst x \<in> set inodes) ms = Some x"
      using Cons.prems r by (auto split: sum.splits option.splits if_splits)
    then have "x \<in> set ms \<and> fst x \<in> set inodes" by (auto simp: find_Some_iff)
    then show ?thesis using listen_inodes_sound [of m t port ips w ms w1 "fst x" "snd x"] r ms by auto
  qed
qed simp

lemma collect_inodes_sound:
  "collect_inodes ts m a port w = (Inr is, w') \<Longrightarrow> i \<in> set is \<Longrightarrow>
     \<exists>t\<in>set ts. table_lists m t (\<lambda>_. True) (\<lambda>b p. p = port \<and> ip_equal b a) i"
proof (induction ts arbitrary: w "is")
  case (Cons t ts)
  obtain r w1 where r: "source_socket_inodes m t a port w = (r, w1)" by fastforce
  show ?case
  proof (cases r)
    case (Inl e)
    then have "collect_inodes ts m a port w1 = (Inr is, w')" using Cons.prems r by (auto split: if_splits)
    with Cons.IH Cons.prems(2) show ?thesis by fastforce
  next
    case (Inr js)
    then obtain rest where rest: "collect_inodes ts m a port w1 = (Inr rest, w')" "is = js @ rest"
      using Cons.prems r by (auto split: prod.splits sum.splits)
    then show ?thesis using Cons.IH [OF rest(1)] Cons.prems(2) source_inodes_sound r Inr by fastforce
  qed
qed simp

lemma owning_pids_sound:
  "owning_pids ps m inodes w = (owners, w') \<Longrightarrow> p \<in> set owners \<Longrightarrow> \<exists>i\<in>set inodes. holds_socket m p i"
proof (induction ps m inodes w arbitrary: owners w' rule: owning_pids.induct)
  case (2 q ps m inodes w)
  obtain r w1 where r: "process_socket_inodes m q w = (r, w1)" by fastforce
  show ?case
  proof (cases r)
    case (Inl e)
    then show ?thesis using 2 r by auto
  next
    case (Inr owned)
    obtain rest w2 where rest: "owning_pids ps m inodes w1 = (rest, w2)" by fastforce
    have o: "owners = (if list_ex (\<lambda>i. i \<in> set owned) inodes then q # rest else rest)"
      using 2(3) r Inr rest by simp
    show ?thesis
    proof (cases "p \<in> set rest")
      case True
      then show ?thesis using 2(2) [OF r [symmetric] Inr rest] by blast
    next
      case False
      then have "p = q" "\<exists>i\<in>set inodes. i \<in> set owned" using o 2(4) by (auto simp: list_ex_iff split: if_splits)
      then show ?thesis using socket_inodes_sound r Inr by blast
    qed
  qed
qed simp

lemma owning_pids_order:
  "owning_pids ps m inodes w = (owners, w') \<Longrightarrow>
     set owners \<subseteq> set ps \<and> (sorted ps \<longrightarrow> sorted owners) \<and> (distinct ps \<longrightarrow> distinct owners)"
proof (induction ps m inodes w arbitrary: owners w' rule: owning_pids.induct)
  case (2 q ps m inodes w)
  obtain r w1 where r: "process_socket_inodes m q w = (r, w1)" by fastforce
  show ?case
  proof (cases r)
    case (Inl e)
    then show ?thesis using 2(1) [OF r [symmetric]] 2(3) r by auto
  next
    case (Inr owned)
    obtain rest w2 where rest: "owning_pids ps m inodes w1 = (rest, w2)" by fastforce
    have "owners = rest \<or> owners = q # rest"
      using 2(3) r Inr rest by (auto split: if_splits)
    then show ?thesis using 2(2) [OF r [symmetric] Inr rest] by fastforce
  qed
qed simp

lemma socket_links_observes: "read_socket_links m dir ns w = (r, w') \<Longrightarrow> observes A w w'"
proof (induction ns arbitrary: w r w')
  case (Cons n ns)
  obtain t w1 where 1: "observe m (\<lambda>k. m_readlink m k (path_join dir n)) w = (t, w1)" by fastforce
  obtain rest w2 where 2: "read_socket_links m dir ns w1 = (rest, w2)" by fastforce
  have "w' = w2" using Cons.prems 1 2 by simp
  then show ?case using observe_observes [OF 1] Cons.IH [OF 2] observes_trans by blast
qed simp

lemma socket_inodes_observes: "process_socket_inodes m pid w = (r, w') \<Longrightarrow> observes A w w'"
  by (auto simp: process_socket_inodes_def split: prod.splits sum.splits dest!: observe_observes [where A = A] socket_links_observes [where A = A]
      intro: observes_trans)

lemma listen_inodes_observes: "matching_listen_inodes m t port ips w = (r, w') \<Longrightarrow> observes A w w'"
  by (auto simp: matching_listen_inodes_def split: prod.splits sum.splits dest!: host_file_observes)

lemma search_tables_observes: "search_tables ts m pid port ips inodes w = (r, w') \<Longrightarrow> observes A w w'"
proof (induction ts arbitrary: w)
  case (Cons t ts)
  obtain x w1 where 1: "matching_listen_inodes m t port ips w = (x, w1)" by fastforce
  have "w' = w1 \<or> search_tables ts m pid port ips inodes w1 = (r, w')"
    using Cons.prems 1 by (auto split: sum.splits if_splits option.splits)
  then show ?case using listen_inodes_observes [OF 1] Cons.IH observes_trans by blast
qed simp

lemma process_listener_observes: "process_owns_listener m pid host port w = (r, w') \<Longrightarrow> observes A w w'"
  by (auto simp: process_owns_listener_def simp del: search_tables.simps split: prod.splits sum.splits if_splits
      dest!: socket_inodes_observes [where A = A] search_tables_observes [where A = A] intro: observes_trans)

lemma loopback_constants [simp]: "ip_loopback loopback4" "ip_loopback loopback6"
  by code_simp+

lemma expected_ips_loopback: "expected_loopback_ips host = Inr ips \<Longrightarrow> list_all ip_loopback ips"
  by (auto simp: expected_loopback_ips_def Let_def split: option.splits if_splits)

section \<open>Properties\<close>

text \<open>A printed endpoint of the kernel is read back exactly.  For every IPv4 or IPv6
  address and every port, decoding what \<^verbatim>\<open>/proc/net/tcp\<close> or \<^verbatim>\<open>tcp6\<close> shows for it gives that
  address and port; and whatever text decodes, the address has 4 or 16 bytes and the port
  fits 16 bits.\<close>

theorem endpoint_round_trip:
  assumes "length a = 4 \<or> length a = 16" "\<forall>b\<in>set a. b < 256" "p < 65536"
  shows "decode_proc_endpoint (proc_endpoint a p) = Some (a, int p) \<and>
    (\<forall>raw b q. decode_proc_endpoint raw = Some (b, q) \<longrightarrow> (length b = 4 \<or> length b = 16) \<and> 0 \<le> q \<and> q \<le> 65535)"
proof (intro conjI allI impI)
  show "decode_proc_endpoint (proc_endpoint a p) = Some (a, int p)" using assms by (rule decode_endpoint)
  fix raw b q assume "decode_proc_endpoint raw = Some (b, q)"
  then obtain bs where "b = swap_words bs" "length bs = 4 \<or> length bs = 16" "0 \<le> q \<and> q \<le> 65535"
    by (auto simp: decode_proc_endpoint_def split: list.splits option.splits if_splits)
  then show "length b = 4 \<or> length b = 16" "0 \<le> q" "q \<le> 65535" by auto
qed

lemma endpoint_round_trip_witness:
  "decode_proc_endpoint (proc_endpoint [127, 0, 0, 1] 7890) = Some ([127, 0, 0, 1], 7890)"
  using endpoint_round_trip [of "[127, 0, 0, 1]" 7890] by simp

text \<open>C19: ownership of the listener is never assumed.  When the check says that a process owns
  the listener, \<^verbatim>\<open>/proc/net/tcp\<close> or \<^verbatim>\<open>tcp6\<close> listed a socket in state LISTEN on exactly that
  port and on an address that the configured host stands for, all of them loopback
  addresses, and one of the process's descriptors was a link to that very socket.  The
  check itself runs no command and changes nothing.\<close>

theorem listener_ownership_sound:
  assumes "process_owns_listener m pid host port w = (Inr (True, d), w')"
  shows "\<exists>ips t inode. expected_loopback_ips host = Inr ips \<and> list_all ip_loopback ips \<and>
    t \<in> {''/proc/net/tcp'', ''/proc/net/tcp6''} \<and>
    table_lists m t (\<lambda>f. f ! 3 = ''0A'') (\<lambda>a p. p = port \<and> contains_ip ips a) inode \<and> holds_socket m pid inode \<and>
    observes (\<lambda>_. False) w w'"
proof -
  obtain inodes w1 ips where p: "process_socket_inodes m pid w = (Inr inodes, w1)" "expected_loopback_ips host = Inr ips"
      "search_tables [''/proc/net/tcp'', ''/proc/net/tcp6''] m pid port ips inodes w1 = (Inr (True, d), w')"
    using assms by (auto simp: process_owns_listener_def simp del: search_tables.simps split: prod.splits sum.splits if_splits)
  have "list_all ip_loopback ips" using p(2) by (rule expected_ips_loopback)
  then show ?thesis using p(2) search_tables_sound [OF p(3)] socket_inodes_sound [OF p(1)]
    process_listener_observes [OF assms, of "\<lambda>_. False"] by auto
qed

definition listening_machine :: "unit machine" where
  "listening_machine = quiet_machine\<lparr>
     m_read_dir := (\<lambda>_ _. Inr [''5'']),
     m_readlink := (\<lambda>_ _. Inr ''socket:[4711]''),
     m_host_file := (\<lambda>_ _. Inr (''head'' @ nl @ ''0: 0100007F:0050 00000000:0000 0A 0 0 0 0 0 4711'' @ nl))\<rparr>"

lemma listening_machine_owns:
  "fst (process_owns_listener listening_machine 7 ''localhost'' 80 (world_of [] ())) =
     Inr (True, ''pid=7 owns LISTEN 127.0.0.1:80 inode=4711'')"
  by code_simp

lemma listener_ownership_sound_witness:
  "\<exists>t inode ips. table_lists listening_machine t (\<lambda>f. f ! 3 = ''0A'') (\<lambda>a p. p = 80 \<and> contains_ip ips a) inode \<and>
     holds_socket listening_machine 7 inode"
proof -
  obtain w' where "process_owns_listener listening_machine 7 ''localhost'' 80 (world_of [] ()) =
      (Inr (True, ''pid=7 owns LISTEN 127.0.0.1:80 inode=4711''), w')"
    using listening_machine_owns by (metis prod.collapse)
  from listener_ownership_sound [OF this] show ?thesis by blast
qed

text \<open>The owners of a connection are exactly evidenced candidates.  Every PID reported for
  a source endpoint is one of the supplied positive PIDs, each at most once and in
  increasing order, and it holds a descriptor of a socket that one of the tables for the
  network lists with that source address and port.\<close>

theorem connection_owners_evidenced:
  assumes "connection_owners m source network candidates w = (Inr (owners, d), w')"
  shows "sorted owners \<and> distinct owners \<and> set owners \<subseteq> {p \<in> set candidates. 0 < p} \<and>
    (\<forall>p\<in>set owners. \<exists>a port t inode. split_runtime_source source = Inr (a, port) \<and> t \<in> set (socket_tables network) \<and>
       table_lists m t (\<lambda>_. True) (\<lambda>b q. q = port \<and> ip_equal b a) inode \<and> holds_socket m p inode)"
proof -
  obtain a port where s: "split_runtime_source source = Inr (a, port)"
    using assms by (auto simp: connection_owners_def split: sum.splits)
  obtain inodes w1 where c: "collect_inodes (socket_tables network) m a port w = (Inr inodes, w1)"
    using assms s by (auto simp: connection_owners_def split: prod.splits sum.splits if_splits)
  show ?thesis
  proof (cases "owners = []")
    case False
    obtain ow w2 where ow: "owning_pids (unique_positive candidates) m inodes w1 = (ow, w2)" by fastforce
    have o: "owning_pids (unique_positive candidates) m inodes w1 = (owners, w')"
      using assms s c ow False by (auto simp: connection_owners_def Let_def split: if_splits)
    note sub = owning_pids_order [OF o]
    have "sorted owners" "distinct owners"
      using sub by (simp_all add: unique_positive_def)
    moreover have "set owners \<subseteq> {p \<in> set candidates. 0 < p}"
      using sub by (auto simp: unique_positive_def)
    moreover have "\<forall>p\<in>set owners. \<exists>i\<in>set inodes. holds_socket m p i" using owning_pids_sound [OF o] by blast
    ultimately show ?thesis using s collect_inodes_sound [OF c] by meson
  qed simp
qed

lemma listening_machine_owners:
  "map_sum (\<lambda>_. ()) fst (fst (connection_owners listening_machine ''127.0.0.1:80'' ''tcp'' [7, 7, 0] (world_of [] ()))) = Inr [7]"
  by code_simp

lemma connection_owners_evidenced_witness:
  "\<exists>t inode. table_lists listening_machine t (\<lambda>_. True) (\<lambda>b q. q = 80 \<and> ip_equal b [127, 0, 0, 1]) inode \<and> holds_socket listening_machine 7 inode"
proof -
  have sp: "split_runtime_source ''127.0.0.1:80'' = Inr ([127, 0, 0, 1], 80)" by code_simp
  obtain d w' where "connection_owners listening_machine ''127.0.0.1:80'' ''tcp'' [7, 7, 0] (world_of [] ()) = (Inr ([7], d), w')"
  proof (cases "connection_owners listening_machine ''127.0.0.1:80'' ''tcp'' [7, 7, 0] (world_of [] ())")
    case (Pair r w')
    with listening_machine_owners that show ?thesis by (cases r) auto
  qed
  from connection_owners_evidenced [OF this] sp show ?thesis by fastforce
qed

text \<open>On Windows the reported owners are exactly the candidates that a row of \<^verbatim>\<open>netstat\<close>
  shows: a positive candidate PID is reported if and only if some row has the protocol, the
  local address, the local port and that PID; the list is sorted without repetition and no
  longer than the number of matching rows.\<close>

theorem windows_owners_exact:
  "let (owners, n) = parse_netstat_owners raw proto a port candidates in
   sorted owners \<and> distinct owners \<and> length owners \<le> n \<and>
   (p \<in> set owners \<longleftrightarrow> 0 < p \<and> p \<in> set candidates \<and>
      (\<exists>line f b. line \<in> set (split_char (CHR 0x0A) (replace_crlf raw)) \<and> f = str_fields line \<and> 4 \<le> length f \<and>
         equal_fold (f ! 0) (to_lower (trim_space proto)) \<and> split_windows_source (f ! 1) = Inr (b, port) \<and>
         ip_equal b a \<and> atoi (last f) = Some p))"
proof -
  let ?proto = "to_lower (trim_space proto)"
  let ?pids = "List.map_filter (netstat_row ?proto a port) (split_char (CHR 0x0A) (replace_crlf raw))"
  have row: "netstat_row ?proto a port line = Some p \<longleftrightarrow> 0 < p \<and>
      (\<exists>f b. f = str_fields line \<and> 4 \<le> length f \<and> equal_fold (f ! 0) ?proto \<and>
         split_windows_source (f ! 1) = Inr (b, port) \<and> ip_equal b a \<and> atoi (last f) = Some p)" for line
    unfolding netstat_row_def Let_def
    by (auto split: sum.splits option.splits if_splits)
  have "length (sorted_keys (filter (\<lambda>p. p \<in> set (unique_positive candidates)) ?pids)) \<le> length ?pids"
    unfolding length_sorted_keys by (meson card_length length_filter_le order_trans)
  moreover have "p \<in> set (sorted_keys (filter (\<lambda>p. p \<in> set (unique_positive candidates)) ?pids)) \<longleftrightarrow>
      0 < p \<and> p \<in> set candidates \<and> (\<exists>line\<in>set (split_char (CHR 0x0A) (replace_crlf raw)). netstat_row ?proto a port line = Some p)"
    by (auto simp: unique_positive_def map_filter_set)
  ultimately show ?thesis unfolding parse_netstat_owners_def Let_def row by auto
qed

text \<open>A cached output of \<^verbatim>\<open>netstat\<close> is used only while it is younger than 1.5 seconds.
  Either the answer is the cached one of that protocol, no command runs and the cache stays;
  or exactly one \<^verbatim>\<open>netstat\<close> of that protocol runs, a success is what the cache now holds
  with the time before the run, and a failure leaves the cache as it was.\<close>

theorem netstat_cache_fresh:
  assumes "netstat_output m c proto w = (r, c', w')"
  shows "(\<exists>out at. c proto = Some (out, at) \<and> t_nanos (m_clock m (w_tick w)) - at < 1500000000 \<and> r = Inr out \<and>
            c' = c \<and> w_log w' = w_log w) \<or>
    (w_log w' = w_log w @ [netstat_cmd proto] \<and>
       c' = (case r of Inl _ \<Rightarrow> c | Inr out \<Rightarrow> c(proto \<mapsto> (out, t_nanos (m_clock m (w_tick w))))))"
  using assms
  by (auto simp: netstat_output_def now_def Let_def split: option.splits if_splits prod.splits dest!: exec_cmdD)

lemma netstat_cache_fresh_witness:
  "w_log (snd (snd (netstat_output quiet_machine Map.empty ''tcp'' (world_of [] ())))) = [netstat_cmd ''tcp'']"
proof -
  obtain r c' w' where n: "netstat_output quiet_machine Map.empty ''tcp'' (world_of [] ()) = (r, c', w')"
    by (metis prod_cases3)
  from netstat_cache_fresh [OF n] show ?thesis using n by (simp add: world_of_def)
qed

end
