(* ===== verification/Manager.thy ===== *)
theory Manager imports Journal Platform Go_Net begin

text \<open>
  The manager of the data plane (\<^verbatim>\<open>internal/proxy/manager.go\<close>, \<^verbatim>\<open>config_runtime.go\<close>,
  \<^verbatim>\<open>process_linux.go\<close>, \<^verbatim>\<open>process_other.go\<close>): its configuration, the one child process it
  manages, starting and stopping that process, and the proxy configuration it writes.

  The struct \<^verbatim>\<open>Manager\<close> is the record \<open>manager\<close>; its mutex makes every method that locks it
  one step.  The goroutines that wait for the children are the step \<open>poll\<close>: whenever a
  method reads the process fields, the child may have exited by then (\<open>m_exited\<close>), and its
  goroutine has cleared the field and the mode.  Messages to the logger are collected in
  \<open>mg_log\<close>.
\<close>

section \<open>State\<close>

datatype mode = Mode_off | Mode_proxy | Mode_tunnel

fun mode_text :: "mode \<Rightarrow> string" where
  "mode_text Mode_off = ''off''"
| "mode_text Mode_proxy = ''proxy''"
| "mode_text Mode_tunnel = ''agent-tunnel''"

record config =
  cf_root :: string
  cf_host :: string
  cf_port :: int
  cf_vpn :: string
  cf_dns :: string
  cf_version :: string

record manager =
  mg_cfg :: config
  mg_cmd :: "int option"
  mg_hard :: "int option"
  mg_mode :: mode
  mg_ready :: bool
  mg_version_path :: string
  mg_version_value :: string
  mg_version_at :: int
  mg_log :: "(string \<times> string) list"

definition default_sing_box_version :: string where
  "default_sing_box_version = ''1.14.0''"

definition new_manager :: "config \<Rightarrow> manager" where
  "new_manager c =
     \<lparr>mg_cfg = c\<lparr>cf_host := if cf_host c = [] then ''127.0.0.1'' else cf_host c,
                cf_port := if cf_port c = 0 then 7890 else cf_port c,
                cf_dns := if cf_dns c = [] then ''cloudflare'' else cf_dns c,
                cf_version := if cf_version c = [] then default_sing_box_version else cf_version c\<rparr>,
      mg_cmd = None, mg_hard = None, mg_mode = Mode_off, mg_ready = False,
      mg_version_path = [], mg_version_value = [], mg_version_at = time_nanos zero_time, mg_log = []\<rparr>"

definition log_msg :: "string \<Rightarrow> string \<Rightarrow> manager \<Rightarrow> manager" where
  "log_msg level msg g = g\<lparr>mg_log := mg_log g @ [(level, msg)]\<rparr>"

definition set_vpn_interface :: "string \<Rightarrow> manager \<Rightarrow> manager" where
  "set_vpn_interface v g = g\<lparr>mg_cfg := (mg_cfg g)\<lparr>cf_vpn := v\<rparr>\<rparr>"

definition set_dns_provider :: "string \<Rightarrow> manager \<Rightarrow> manager" where
  "set_dns_provider v g = g\<lparr>mg_cfg := (mg_cfg g)\<lparr>cf_dns := v\<rparr>\<rparr>"

definition set_sing_box_version :: "string \<Rightarrow> manager \<Rightarrow> manager" where
  "set_sing_box_version v g = (if v \<noteq> [] then g\<lparr>mg_cfg := (mg_cfg g)\<lparr>cf_version := v\<rparr>\<rparr> else g)"

definition mark_ready :: "manager \<Rightarrow> manager" where
  "mark_ready g = g\<lparr>mg_ready := True\<rparr>"

section \<open>The children\<close>

definition poll_cmd :: "'k machine \<Rightarrow> manager \<Rightarrow> 'k world \<Rightarrow> manager \<times> 'k world" where
  "poll_cmd m g w =
     (case mg_cmd g of
        None \<Rightarrow> (g, w)
      | Some pid \<Rightarrow>
          (case observe m (\<lambda>k. m_exited m k pid) w of
             (None, w1) \<Rightarrow> (g, w1)
           | (Some e, w1) \<Rightarrow>
               ((case e of
                   Some err \<Rightarrow> log_msg ''error'' (''sing-box exited: '' @ err_text err)
                 | None \<Rightarrow> log_msg ''info'' ''sing-box stopped'')
                  (g\<lparr>mg_cmd := None, mg_mode := Mode_off\<rparr>), w1)))"

definition poll_hard :: "'k machine \<Rightarrow> manager \<Rightarrow> 'k world \<Rightarrow> manager \<times> 'k world" where
  "poll_hard m g w =
     (case mg_hard g of
        None \<Rightarrow> (g, w)
      | Some pid \<Rightarrow>
          (case observe m (\<lambda>k. m_exited m k pid) w of
             (None, w1) \<Rightarrow> (g, w1)
           | (Some e, w1) \<Rightarrow>
               ((case e of
                   Some err \<Rightarrow> log_msg ''error'' (''kernel-hard launcher exited: '' @ err_text err)
                 | None \<Rightarrow> (\<lambda>g. g))
                  (g\<lparr>mg_hard := None, mg_mode := Mode_off\<rparr>), w1)))"

definition poll :: "'k machine \<Rightarrow> manager \<Rightarrow> 'k world \<Rightarrow> manager \<times> 'k world" where
  "poll m g w = (let (g1, w1) = poll_cmd m g w in poll_hard m g1 w1)"

definition mode_now :: "'k machine \<Rightarrow> manager \<Rightarrow> 'k world \<Rightarrow> mode \<times> manager \<times> 'k world" where
  "mode_now m g w = (let (g1, w1) = poll m g w in (mg_mode g1, g1, w1))"

definition managed_running :: "'k machine \<Rightarrow> manager \<Rightarrow> 'k world \<Rightarrow> bool \<times> manager \<times> 'k world" where
  "managed_running m g w = (let (g1, w1) = poll m g w in (mg_cmd g1 \<noteq> None, g1, w1))"

definition tunnel_running :: "'k machine \<Rightarrow> manager \<Rightarrow> 'k world \<Rightarrow> bool \<times> manager \<times> 'k world" where
  "tunnel_running m g w = (let (g1, w1) = poll m g w in (mg_mode g1 = Mode_tunnel \<and> mg_cmd g1 \<noteq> None, g1, w1))"

definition managed_pid :: "'k machine \<Rightarrow> manager \<Rightarrow> 'k world \<Rightarrow> int \<times> manager \<times> 'k world" where
  "managed_pid m g w = (let (g1, w1) = poll m g w in ((case mg_cmd g1 of None \<Rightarrow> 0 | Some pid \<Rightarrow> pid), g1, w1))"

definition hard_running :: "platform \<Rightarrow> 'k machine \<Rightarrow> manager \<Rightarrow> 'k world \<Rightarrow> bool \<times> manager \<times> 'k world" where
  "hard_running pf m g w =
     (if pf = Linux then (let (g1, w1) = poll m g w in (mg_hard g1 \<noteq> None, g1, w1)) else (False, g, w))"

section \<open>Paths and versions\<close>

definition config_path :: "manager \<Rightarrow> string" where
  "config_path g = path_join (cf_root (mg_cfg g)) ''sing-box.json''"

definition tunnel_config_path :: "manager \<Rightarrow> string" where
  "tunnel_config_path g = path_join (cf_root (mg_cfg g)) ''sing-box-agent-tunnel.json''"

definition log_path :: "manager \<Rightarrow> string" where
  "log_path g = path_join (cf_root (mg_cfg g)) ''sing-box.log''"

definition err_path :: "manager \<Rightarrow> string" where
  "err_path g = path_join (cf_root (mg_cfg g)) ''sing-box-error.log''"

definition executable_name :: "platform \<Rightarrow> string" where
  "executable_name pf = (if pf = Windows then ''sing-box.exe'' else ''sing-box'')"

definition managed_path :: "platform \<Rightarrow> manager \<Rightarrow> string" where
  "managed_path pf g = path_join (path_join (cf_root (mg_cfg g)) ''bin'') (executable_name pf)"

definition file_exists :: "'k machine \<Rightarrow> string \<Rightarrow> 'k world \<Rightarrow> bool \<times> 'k world" where
  "file_exists m p w = (case stat_file m p w of (Inl _, w1) \<Rightarrow> (False, w1) | (Inr _, w1) \<Rightarrow> (True, w1))"

definition find_sing_box :: "platform \<Rightarrow> 'k machine \<Rightarrow> manager \<Rightarrow> 'k world \<Rightarrow> string \<times> 'k world" where
  "find_sing_box pf m g w =
     (case file_exists m (managed_path pf g) w of
        (True, w1) \<Rightarrow> (managed_path pf g, w1)
      | (False, w1) \<Rightarrow>
          (case look_path m (executable_name pf) w1 of
             (Some p, w2) \<Rightarrow> (p, w2)
           | (None, w2) \<Rightarrow>
               (case look_path m ''sing-box'' w2 of
                  (Some p, w3) \<Rightarrow> (p, w3)
                | (None, w3) \<Rightarrow> ([], w3))))"

definition binary_version :: "'k machine \<Rightarrow> string \<Rightarrow> 'k world \<Rightarrow> string \<times> 'k world" where
  "binary_version m path w =
     (if path = [] then ([], w)
      else (case exec_cmd m [path, ''version''] w of
        ((out, Some e), w1) \<Rightarrow> ([], w1)
      | ((out, None), w1) \<Rightarrow> (takeWhile (\<lambda>c. c \<noteq> CHR 0x0A) (trim_space out), w1)))"

definition version_contains :: "string \<Rightarrow> string \<Rightarrow> bool" where
  "version_contains out want \<longleftrightarrow>
     out \<noteq> [] \<and> want \<noteq> [] \<and>
     (str_contains out ('' '' @ want) \<or> has_suffix out want \<or> str_contains out (''v'' @ want))"

definition version_of :: "platform \<Rightarrow> 'k machine \<Rightarrow> manager \<Rightarrow> 'k world \<Rightarrow> string \<times> manager \<times> 'k world" where
  "version_of pf m g w =
     (let (path, w1) = find_sing_box pf m g w; (t, w2) = now m w1 in
      if path = mg_version_path g \<and> t_nanos t - mg_version_at g < 30000000000 then (mg_version_value g, g, w2)
      else (let (v, w3) = binary_version m path w2; (t', w4) = now m w3
            in (v, g\<lparr>mg_version_path := path, mg_version_value := v, mg_version_at := t_nanos t'\<rparr>, w4)))"

definition asset_name_for :: "string \<Rightarrow> string \<Rightarrow> string \<Rightarrow> string" where
  "asset_name_for os arch ver =
     (if os = ''windows'' then ''sing-box-'' @ ver @ ''-windows-'' @ arch @ ''.zip''
      else ''sing-box-'' @ ver @ ''-linux-'' @ arch @ ''.tar.gz'')"

section \<open>The configuration of the proxy mode\<close>

text \<open>\<^verbatim>\<open>map[string]any\<close> in JSON: the keys are sorted.\<close>

definition json_map :: "(string \<times> json) list \<Rightarrow> json" where
  "json_map kvs = JObj (sort_key fst kvs)"

definition strs :: "string list \<Rightarrow> json" where
  "strs xs = JArr (map JStr xs)"

definition dns_of :: "string \<Rightarrow> string \<times> string" where
  "dns_of provider = (if equal_fold provider ''google'' then (''8.8.8.8'', ''dns.google'') else (''1.1.1.1'', ''cloudflare-dns.com''))"

definition proxy_doc :: "config \<Rightarrow> json" where
  "proxy_doc c =
     (let (dns_ip, dns_name) = dns_of (cf_dns c);
          bound = (if cf_vpn c \<noteq> [] then [(''bind_interface'', JStr (cf_vpn c))] else []);
          resolver = json_map [(''server'', JStr ''secure-doh''), (''strategy'', JStr ''ipv4_only'')];
          dns_server = json_map ([(''type'', JStr ''https''), (''tag'', JStr ''secure-doh''), (''server'', JStr dns_ip),
            (''server_port'', enc_int 443), (''path'', JStr ''/dns-query''),
            (''tls'', json_map [(''enabled'', JBool True), (''server_name'', JStr dns_name)])] @ bound);
          direct = json_map ([(''type'', JStr ''direct''), (''tag'', JStr ''vpn-direct''), (''domain_resolver'', resolver)] @ bound)
      in json_map
        [(''log'', json_map [(''level'', JStr ''info''), (''timestamp'', JBool True)]),
         (''dns'', json_map [(''servers'', JArr [dns_server]), (''final'', JStr ''secure-doh''), (''strategy'', JStr ''ipv4_only'')]),
         (''inbounds'', JArr [json_map [(''type'', JStr ''mixed''), (''tag'', JStr ''local-mixed''),
            (''listen'', JStr (cf_host c)), (''listen_port'', enc_int (cf_port c))]]),
         (''outbounds'', JArr [direct]),
         (''route'', json_map [(''default_domain_resolver'', resolver), (''final'', JStr ''vpn-direct'')])])"

definition write_config :: "'k machine \<Rightarrow> config \<Rightarrow> string \<Rightarrow> 'k world \<Rightarrow> unit res \<times> 'k world" where
  "write_config m c path w =
     (case mkdir_all m (cf_root c) w of
        (Inl e, w1) \<Rightarrow> (Inl e, w1)
      | (Inr _, w1) \<Rightarrow> write_file m path (marshal_indent (proxy_doc c) @ nl) 384 w1)"

section \<open>Start and stop\<close>

definition start_locked ::
  "platform \<Rightarrow> 'k machine \<Rightarrow> string \<Rightarrow> mode \<Rightarrow> string \<Rightarrow> manager \<Rightarrow> 'k world \<Rightarrow> unit res \<times> manager \<times> 'k world" where
  "start_locked pf m cfg_path mode description g w =
     (if mg_cmd g \<noteq> None
      then (Inl (new_err (''sing-box already started by this process in '' @ mode_text (mg_mode g) @ '' mode'')), g, w)
      else (let (p, w1) = find_sing_box pf m g w in
        if p = [] then (Inl (new_err ''sing-box not installed''), g, w1)
        else (case exec_cmd m [p, ''check'', ''-c'', cfg_path] w1 of
          ((out, Some e), w2) \<Rightarrow>
            (Inl (new_err (''sing-box config check failed: '' @ err_text e @ '': '' @ trim_space out)), g, w2)
        | ((out, None), w2) \<Rightarrow>
        (case open_append m (log_path g) 384 w2 of
          (Inl e, w3) \<Rightarrow> (Inl e, g, w3)
        | (Inr _, w3) \<Rightarrow>
        (case open_append m (err_path g) 384 w3 of
          (Inl e, w4) \<Rightarrow> (Inl e, g, snd (close_handle m w4))
        | (Inr _, w4) \<Rightarrow>
        (case spawn_cmd m [p, ''run'', ''-c'', cfg_path] w4 of
          (Inl e, w5) \<Rightarrow> (Inl e, g, snd (close_handle m (snd (close_handle m w5))))
        | (Inr pid, w5) \<Rightarrow>
            (Inr (), log_msg ''info'' description (g\<lparr>mg_cmd := Some pid, mg_mode := mode, mg_ready := False\<rparr>), w5)))))))"

definition start_proxy :: "platform \<Rightarrow> 'k machine \<Rightarrow> manager \<Rightarrow> 'k world \<Rightarrow> unit res \<times> manager \<times> 'k world" where
  "start_proxy pf m g0 w0 =
     (let (g, w) = poll m g0 w0 in
      case write_config m (mg_cfg g) (config_path g) w of
        (Inl e, w1) \<Rightarrow> (Inl e, g, w1)
      | (Inr _, w1) \<Rightarrow>
          start_locked pf m (config_path g) Mode_proxy
            (''local mixed proxy started at '' @ cf_host (mg_cfg g) @ '':'' @ itoa (cf_port (mg_cfg g))) g w1)"

definition stop_managed_process :: "platform \<Rightarrow> 'k machine \<Rightarrow> int \<Rightarrow> 'k world \<Rightarrow> gerr option \<times> 'k world" where
  "stop_managed_process pf m pid = send_signal m pid (if pf = Linux then ''SIGTERM'' else ''SIGKILL'')"

definition stop_hard :: "'k machine \<Rightarrow> int option \<Rightarrow> 'k world \<Rightarrow> gerr option \<times> 'k world" where
  "stop_hard m hard w =
     (case hard of
        None \<Rightarrow> (None, w)
      | Some pid \<Rightarrow>
          (case send_signal m pid ''SIGKILL'' w of
             (None, w1) \<Rightarrow> (None, w1)
           | (Some e, w1) \<Rightarrow> (if err_kind e = ProcessDone then None else Some e, w1)))"

definition stop_manager :: "platform \<Rightarrow> 'k machine \<Rightarrow> manager \<Rightarrow> 'k world \<Rightarrow> gerr option \<times> manager \<times> 'k world" where
  "stop_manager pf m g0 w0 =
     (let (g, w) = poll m g0 w0 in
      case (case mg_cmd g of None \<Rightarrow> (None, w) | Some pid \<Rightarrow> stop_managed_process pf m pid w) of
        (Some e, w1) \<Rightarrow> (Some e, g, w1)
      | (None, w1) \<Rightarrow> (let (e, w2) = stop_hard m (mg_hard g) w1 in (e, g, w2)))"

section \<open>The local listener\<close>

definition listen_addr :: "config \<Rightarrow> string" where
  "listen_addr c = join_host_port (cf_host c) (itoa (cf_port c))"

definition listener_reachable :: "'k machine \<Rightarrow> manager \<Rightarrow> 'k world \<Rightarrow> bool \<times> 'k world" where
  "listener_reachable m g w = (let (e, w1) = dial_tcp m (listen_addr (mg_cfg g)) w in (e = None, w1))"

definition http_proxy_url :: "config \<Rightarrow> string" where
  "http_proxy_url c = ''http://'' @ cf_host c @ '':'' @ itoa (cf_port c)"

definition socks_proxy_addr :: "config \<Rightarrow> string" where
  "socks_proxy_addr c = listen_addr c"

section \<open>Changing the configuration\<close>

definition update_stopped_config ::
  "'k machine \<Rightarrow> string \<Rightarrow> int \<Rightarrow> string \<Rightarrow> string \<Rightarrow> string \<Rightarrow> manager \<Rightarrow> 'k world \<Rightarrow> gerr option \<times> manager \<times> 'k world" where
  "update_stopped_config m host port vpn dns ver g0 w0 =
     (let (g, w) = poll m g0 w0 in
      if mg_cmd g \<noteq> None
      then (Some (new_err (''cannot change proxy/VPN/DNS/version configuration while sing-box is running in '' @ mode_text (mg_mode g) @ '' mode'')), g, w)
      else if trim_space host = [] then (Some (new_err ''proxy host is empty''), g, w)
      else if (case parse_ip (trim_set ''[]'' host) of Some a \<Rightarrow> \<not> ip_loopback a | None \<Rightarrow> False)
      then (Some (new_err ''proxy host must be loopback-only''), g, w)
      else if port \<le> 0 \<or> port > 65535 then (Some (new_err (''invalid proxy port '' @ itoa port)), g, w)
      else if dns \<noteq> ''cloudflare'' \<and> dns \<noteq> ''google'' then (Some (new_err (''unsupported DNS provider '' @ go_quote dns)), g, w)
      else if trim_space ver = [] then (Some (new_err ''sing-box version is empty''), g, w)
      else (None, g\<lparr>mg_cfg := (mg_cfg g)\<lparr>cf_host := host, cf_port := port, cf_vpn := vpn, cf_dns := dns, cf_version := ver\<rparr>\<rparr>, w))"

section \<open>Lemmas on polling\<close>

lemma log_msg_simps [simp]:
  "mg_cfg (log_msg l t g) = mg_cfg g" "mg_cmd (log_msg l t g) = mg_cmd g" "mg_hard (log_msg l t g) = mg_hard g"
  "mg_mode (log_msg l t g) = mg_mode g" "mg_ready (log_msg l t g) = mg_ready g"
  by (simp_all add: log_msg_def)

lemma poll_cmd_cases:
  assumes "poll_cmd m g w = (g', w')"
  obtains "g' = g" "observes (\<lambda>_. False) w w'"
  | "mg_cmd g \<noteq> None" "mg_cmd g' = None" "mg_mode g' = Mode_off" "mg_hard g' = mg_hard g" "mg_cfg g' = mg_cfg g"
    "observes (\<lambda>_. False) w w'"
proof (cases "mg_cmd g")
  case None
  with assms that(1) show ?thesis by (simp add: poll_cmd_def)
next
  case (Some pid)
  obtain e w1 where o: "observe m (\<lambda>k. m_exited m k pid) w = (e, w1)" by fastforce
  have "observes (\<lambda>_. False) w w1" using o by (rule observe_observes)
  with assms Some o that show ?thesis
    by (auto simp: poll_cmd_def split: option.splits)
qed

lemma poll_hard_cases:
  assumes "poll_hard m g w = (g', w')"
  obtains "g' = g" "observes (\<lambda>_. False) w w'"
  | "mg_hard g \<noteq> None" "mg_hard g' = None" "mg_mode g' = Mode_off" "mg_cmd g' = mg_cmd g" "mg_cfg g' = mg_cfg g"
    "observes (\<lambda>_. False) w w'"
proof (cases "mg_hard g")
  case None
  with assms that(1) show ?thesis by (simp add: poll_hard_def)
next
  case (Some pid)
  obtain e w1 where o: "observe m (\<lambda>k. m_exited m k pid) w = (e, w1)" by fastforce
  have "observes (\<lambda>_. False) w w1" using o by (rule observe_observes)
  with assms Some o that show ?thesis
    by (auto simp: poll_hard_def split: option.splits)
qed

text \<open>Polling only forgets children: it never invents one, keeps the configuration, and turns
  the mode off whenever it forgets.\<close>

lemma pollD:
  assumes "poll m g w = (g', w')"
  shows "observes A w w'" and "mg_cfg g' = mg_cfg g"
    and "mg_cmd g' = mg_cmd g \<or> mg_cmd g' = None" and "mg_hard g' = mg_hard g \<or> mg_hard g' = None"
    and "mg_mode g' = Mode_off \<or> mg_mode g' = mg_mode g \<and> mg_cmd g' = mg_cmd g \<and> mg_hard g' = mg_hard g"
proof -
  obtain g1 w1 where c: "poll_cmd m g w = (g1, w1)" by fastforce
  with assms have h: "poll_hard m g1 w1 = (g', w')" by (simp add: poll_def)
  have "observes (\<lambda>_. False) w w1" using c by (cases rule: poll_cmd_cases)
  moreover have "observes (\<lambda>_. False) w1 w'" using h by (cases rule: poll_hard_cases)
  ultimately have "observes (\<lambda>_. False) w w'" by (rule observes_trans)
  then show "observes A w w'" by (rule observes_mono) simp
  show "mg_cfg g' = mg_cfg g" "mg_cmd g' = mg_cmd g \<or> mg_cmd g' = None" "mg_hard g' = mg_hard g \<or> mg_hard g' = None"
    "mg_mode g' = Mode_off \<or> mg_mode g' = mg_mode g \<and> mg_cmd g' = mg_cmd g \<and> mg_hard g' = mg_hard g"
    using c by (cases rule: poll_cmd_cases; use h in \<open>cases rule: poll_hard_cases; simp\<close>)+
qed

definition mode_ok :: "manager \<Rightarrow> bool" where
  "mode_ok g \<longleftrightarrow> (mg_mode g \<noteq> Mode_off \<longrightarrow> mg_cmd g \<noteq> None \<or> mg_hard g \<noteq> None)"

lemma poll_mode_ok: "poll m g w = (g', w') \<Longrightarrow> mode_ok g \<Longrightarrow> mode_ok g'"
  using pollD(5) [of m g w g' w'] by (auto simp: mode_ok_def)

section \<open>Lemmas on starting\<close>

definition start_cmd :: "string \<Rightarrow> string list \<Rightarrow> bool" where
  "start_cmd cfg_path c \<longleftrightarrow> (\<exists>p. c = [p, ''check'', ''-c'', cfg_path] \<or> c = [p, ''run'', ''-c'', cfg_path])"

lemma file_existsD: "file_exists m q w = (b, w1) \<Longrightarrow> w1 = tick w"
  unfolding file_exists_def by (auto split: prod.splits sum.splits dest: file_callD(2))


lemma find_sing_box_env:
  assumes "find_sing_box pf m g w = (p, w')"
  shows "observes A w w'"
proof -
  obtain b w1 where 1: "file_exists m (managed_path pf g) w = (b, w1)" by fastforce
  obtain r2 w2 where 2: "look_path m (executable_name pf) w1 = (r2, w2)" by fastforce
  obtain r3 w3 where 3: "look_path m ''sing-box'' w2 = (r3, w3)" by fastforce
  have o1: "observes A w w1" using file_existsD [OF 1] by simp
  have o2: "observes A w w2" using o1 look_path_observes [OF 2] by (rule observes_trans)
  have o3: "observes A w w3" using o2 look_path_observes [OF 3] by (rule observes_trans)
  have "w' = w1 \<or> w' = w2 \<or> w' = w3"
    using assms 1 2 3 by (auto simp: find_sing_box_def split: bool.splits option.splits)
  with o1 o2 o3 show ?thesis by auto
qed

text \<open>What starting does, step by step.\<close>

lemma start_locked_cases:
  assumes "start_locked pf m cp md d g w = (r, g', w')"
  obtains (refused) "\<not> is_ok r" "g' = g" "mg_cmd g \<noteq> None" "w' = w"
  | (failed) cs where "\<not> is_ok r" "g' = g" "mg_cmd g = None" "w_log w' = w_log w @ cs" "list_all (start_cmd cp) cs"
      "outs w' = outs w" "\<forall>q. q \<noteq> log_path g \<longrightarrow> q \<noteq> err_path g \<longrightarrow> w_files w' q = w_files w q"
  | (started) p pid where "r = Inr ()" "g' = log_msg ''info'' d (g\<lparr>mg_cmd := Some pid, mg_mode := md, mg_ready := False\<rparr>)"
      "mg_cmd g = None" "w_log w' = w_log w @ [[p, ''check'', ''-c'', cp], [p, ''run'', ''-c'', cp]]" "outs w' = outs w"
      "\<forall>q. q \<noteq> log_path g \<longrightarrow> q \<noteq> err_path g \<longrightarrow> w_files w' q = w_files w q"
proof (cases "mg_cmd g")
  case (Some pid)
  with assms show ?thesis by (intro refused) (auto simp: start_locked_def)
next
  case none: None
  obtain p w1 where 1: "find_sing_box pf m g w = (p, w1)" by fastforce
  note o1 = find_sing_box_env [OF 1, of "\<lambda>_. False", unfolded observes_def runs_def]
  then have l1: "w_log w1 = w_log w" "outs w1 = outs w" "w_files w1 = w_files w" by (auto simp: list_all_iff)
  let ?check = "[p, ''check'', ''-c'', cp]" and ?run = "[p, ''run'', ''-c'', cp]"
  obtain out e w2 where 2: "exec_cmd m ?check w1 = ((out, e), w2)" by (metis surj_pair)
  note l2 = exec_cmdD [OF 2]
  obtain r3 w3 where 3: "open_append m (log_path g) 384 w2 = (r3, w3)" by fastforce
  note l3 = open_remove_env(1) [OF 3, unfolded same_env_def] open_remove_files(1) [OF 3]
  obtain r4 w4 where 4: "open_append m (err_path g) 384 w3 = (r4, w4)" by fastforce
  note l4 = open_remove_env(1) [OF 4, unfolded same_env_def] open_remove_files(1) [OF 4]
  obtain r5 w5 where 5: "spawn_cmd m ?run w4 = (r5, w5)" by fastforce
  note l5 = spawn_cmdD [OF 5]
  have ok: "start_cmd cp ?check" "start_cmd cp ?run" by (auto simp: start_cmd_def)
  consider "p = []" | "p \<noteq> []" "e \<noteq> None" | "p \<noteq> []" "e = None" "\<not> is_ok r3" | "p \<noteq> []" "e = None" "is_ok r3" "\<not> is_ok r4"
    | "p \<noteq> []" "e = None" "is_ok r3" "is_ok r4" "\<not> is_ok r5" | "p \<noteq> []" "e = None" "is_ok r3" "is_ok r4" "is_ok r5"
    by blast
  then show ?thesis
  proof cases
    case 1
    with assms none \<open>find_sing_box pf m g w = (p, w1)\<close> l1 show ?thesis
      by (intro failed [of "[]"]) (auto simp: start_locked_def)
  next
    case 2
    with assms none \<open>find_sing_box pf m g w = (p, w1)\<close> \<open>exec_cmd m ?check w1 = ((out, e), w2)\<close> l1 l2 ok show ?thesis
      by (intro failed [of "[?check]"]) (auto simp: start_locked_def)
  next
    case c: 3
    with assms none 1 2 3 l1 l2 l3 ok show ?thesis
      by (intro failed [of "[?check]"]) (auto simp: start_locked_def is_ok_iff split: sum.splits)
  next
    case c: 4
    with assms none 1 2 3 4 l1 l2 l3 l4 ok show ?thesis
      by (intro failed [of "[?check]"]) (auto simp: start_locked_def is_ok_iff split: sum.splits)
  next
    case c: 5
    with assms none 1 2 3 4 5 l1 l2 l3 l4 l5 ok show ?thesis
      by (intro failed [of "[?check, ?run]"]) (auto simp: start_locked_def is_ok_iff split: sum.splits)
  next
    case c: 6
    with assms none 1 2 3 4 5 l1 l2 l3 l4 l5 ok show ?thesis
      by (auto simp: start_locked_def is_ok_iff split: sum.splits intro!: started)
  qed
qed

lemma write_file_files: "write_file m p d n w = (r, w') \<Longrightarrow> q \<noteq> p \<Longrightarrow> w_files w' q = w_files w q"
  unfolding write_file_def write_handle_def close_handle_def
  by (auto simp: Let_def split: option.splits)

lemma write_file_ok: "write_file m p d n w = (Inr u, w') \<Longrightarrow> \<exists>x. w_files w' p = Some x \<and> f_data x = d"
  unfolding write_file_def write_handle_def close_handle_def
  by (auto simp: Let_def split: option.splits)

section \<open>Lemmas on the configuration\<close>

fun jget :: "string \<Rightarrow> json \<Rightarrow> json option" where
  "jget k (JObj kvs) = map_of kvs k"
| "jget k _ = None"

lemma map_of_sort_key:
  assumes "distinct (map fst kvs)"
  shows "map_of (sort_key fst kvs) = map_of kvs"
proof -
  have d: "distinct (map fst (sort_key fst kvs))" using assms by (simp add: distinct_map)
  have "map_of (sort_key fst kvs) k = Some v \<longleftrightarrow> map_of kvs k = Some v" for k v
    unfolding map_of_eq_Some_iff [OF d] map_of_eq_Some_iff [OF assms] by simp
  then show ?thesis by (metis (no_types, opaque_lifting) ext not_None_eq)
qed

lemma jget_map [simp]: "distinct (map fst kvs) \<Longrightarrow> jget k (json_map kvs) = map_of kvs k"
  by (simp add: json_map_def map_of_sort_key)

lemma wf_json_map [simp]: "wf_json (json_map kvs) = list_all (\<lambda>(k, v). wf_json v) kvs"
  by (simp add: json_map_def list_all_iff)

lemma wf_strs [simp]: "wf_json (strs xs)"
  by (simp add: strs_def list_all_iff)

lemma wf_proxy_doc: "wf_json (proxy_doc c)"
  by (simp add: proxy_doc_def Let_def dns_of_def)

lemma write_config_ok:
  assumes "write_config m c path w = (Inr u, w')"
  shows "\<exists>x. w_files w' path = Some x \<and> parse_json (f_data x) = Some (proxy_doc c)"
proof -
  obtain r w1 where "mkdir_all m (cf_root c) w = (r, w1)" by fastforce
  then have "write_file m path (marshal_indent (proxy_doc c) @ nl) 384 w1 = (Inr u, w')"
    using assms by (auto simp: write_config_def split: sum.splits)
  then show ?thesis
    using write_file_ok parse_print(2) [OF wf_proxy_doc, of True 0 c] by (fastforce simp: marshal_indent_def)
qed

lemma write_config_files: "write_config m c path w = (r, w') \<Longrightarrow> q \<noteq> path \<Longrightarrow> w_files w' q = w_files w q"
  by (auto simp: write_config_def split: prod.splits sum.splits dest!: file_callD(3) write_file_files)

lemma str_index_prefix: "str_index (p @ s) p = Some 0"
  by (cases "p @ s") (auto simp: has_prefix_def dest: arg_cong [where f = "take (length p)"])

lemma str_contains_append: "str_contains (a @ p @ s) p"
proof -
  have "str_index (a @ p @ s) p \<noteq> None"
  proof (induction a)
    case Nil
    then show ?case by (simp add: str_index_prefix)
  next
    case (Cons c a)
    then show ?case by (cases "str_index (a @ p @ s) p") auto
  qed
  then show ?thesis by (simp add: str_contains_def)
qed

section \<open>Properties\<close>

text \<open>C20: the manager has at most one child and starts it only from a checked configuration.
  Starting with a child recorded is refused without any effect; a failure leaves the
  manager's state as it was; and success means that no child was recorded, the same
  \<^verbatim>\<open>sing-box\<close> passed \<^verbatim>\<open>check\<close> on the same configuration file just before the \<^verbatim>\<open>run\<close>, the new
  child and mode are recorded, and an earlier readiness confirmation is withdrawn.\<close>

theorem start_single_child:
  assumes "start_locked pf m cp md d g w = (r, g', w')"
  shows "(mg_cmd g \<noteq> None \<longrightarrow> \<not> is_ok r \<and> w' = w) \<and> (\<not> is_ok r \<longrightarrow> g' = g) \<and>
    (is_ok r \<longrightarrow> mg_cmd g = None \<and> mg_cmd g' \<noteq> None \<and> mg_mode g' = md \<and> \<not> mg_ready g' \<and> mg_cfg g' = mg_cfg g \<and>
       (\<exists>p. w_log w' = w_log w @ [[p, ''check'', ''-c'', cp], [p, ''run'', ''-c'', cp]]))"
  using assms by (cases rule: start_locked_cases) auto

lemma start_single_child_witness:
  "\<exists>g' w'. start_locked Linux quiet_machine ''/c.json'' Mode_proxy ''d'' (new_manager (config.make [] [] 0 [] [] [])) (world_of [] ()) = (Inr (), g', w') \<and>
     mg_cmd g' \<noteq> None \<and> (\<exists>p. w_log w' = [[p, ''check'', ''-c'', ''/c.json''], [p, ''run'', ''-c'', ''/c.json'']])"
proof -
  let ?g = "new_manager (config.make [] [] 0 [] [] [])" and ?w = "world_of [] () :: unit world"
  obtain r g' w' where s: "start_locked Linux quiet_machine ''/c.json'' Mode_proxy ''d'' ?g ?w = (r, g', w')" by (metis prod_cases3)
  moreover have r: "r = Inr ()"
    using s by (auto simp: start_locked_def new_manager_def find_sing_box_def file_exists_def stat_file_def quiet_machine_def
        fault_now_def world_of_def look_path_def observe_def exec_cmd_def open_append_def spawn_cmd_def no_such_file_def Let_def tick_def put_fs_def
        split: option.splits)
  ultimately show ?thesis using start_single_child [OF s] by (simp add: world_of_def)
qed

text \<open>A mode other than off means that a child is recorded.  This invariant of the manager
  holds initially and is kept by every operation: by the goroutines that wait for the
  children, starting, stopping and reconfiguring.\<close>

theorem mode_needs_child:
  "mode_ok (new_manager c) \<and>
   (mode_ok g \<longrightarrow>
      mode_ok (fst (poll m g w)) \<and> mode_ok (fst (snd (start_proxy pf m g w))) \<and>
      (mg_cmd g = None \<longrightarrow> mode_ok (fst (snd (start_locked pf m cp md d g w)))) \<and>
      mode_ok (fst (snd (stop_manager pf m g w))) \<and>
      mode_ok (fst (snd (update_stopped_config m host port vpn dns ver g w))) \<and>
      mode_ok (set_vpn_interface v g) \<and> mode_ok (set_dns_provider v g) \<and> mode_ok (set_sing_box_version v g) \<and> mode_ok (mark_ready g))"
proof (intro conjI impI)
  show "mode_ok (new_manager c)" by (simp add: mode_ok_def new_manager_def)
next
  assume g: "mode_ok g"
  obtain g1 w1 where p: "poll m g w = (g1, w1)" by fastforce
  note g1 = poll_mode_ok [OF p g]
  show "mode_ok (fst (poll m g w))" using p g1 by simp
  have locked: "mode_ok (fst (snd (start_locked pf m cp md d g w)))" if "mode_ok g" for cp md d and g :: manager and w
  proof -
    obtain r g' w' where s: "start_locked pf m cp md d g w = (r, g', w')" by (metis prod_cases3)
    then have "mode_ok g'" using that by (cases rule: start_locked_cases) (auto simp: mode_ok_def)
    with s show ?thesis by simp
  qed
  then show "mode_ok (fst (snd (start_locked pf m cp md d g w)))" using g by blast
  show "mode_ok (fst (snd (start_proxy pf m g w)))"
    using p g1 locked by (auto simp: start_proxy_def split: prod.splits sum.splits)
  show "mode_ok (fst (snd (stop_manager pf m g w)))"
    using p g1 by (auto simp: stop_manager_def Let_def split: prod.splits option.splits)
  show "mode_ok (fst (snd (update_stopped_config m host port vpn dns ver g w)))"
    using p g1 by (auto simp: update_stopped_config_def mode_ok_def)
  show "mode_ok (set_vpn_interface v g)" "mode_ok (set_dns_provider v g)" "mode_ok (set_sing_box_version v g)" "mode_ok (mark_ready g)"
    using g by (simp_all add: mode_ok_def set_vpn_interface_def set_dns_provider_def set_sing_box_version_def mark_ready_def)
qed

lemma mode_needs_child_witness:
  "mode_ok (fst (poll quiet_machine ((new_manager (config.make [] [] 0 [] [] []))\<lparr>mg_cmd := Some 7, mg_mode := Mode_tunnel\<rparr>) (world_of [] ())))"
  using mode_needs_child [of undefined "(new_manager (config.make [] [] 0 [] [] []))\<lparr>mg_cmd := Some 7, mg_mode := Mode_tunnel\<rparr>" quiet_machine "world_of [] ()"]
  by (simp add: mode_ok_def)

text \<open>Stopping signals only the manager's own children.  \<^verbatim>\<open>Stop\<close> runs no command, changes no
  file and sends at most two signals: the platform's stop signal to the recorded child and
  a kill to the recorded launcher; the configuration stays.\<close>

theorem stop_signals_only_children:
  assumes "stop_manager pf m g w = (e, g', w')"
  shows "w_log w' = w_log w \<and> w_files w' = w_files w \<and> w_requests w' = w_requests w \<and> mg_cfg g' = mg_cfg g \<and>
    (\<exists>a b. w_signals w' = w_signals w @ a @ b \<and>
       (a = [] \<or> (\<exists>pid. mg_cmd g = Some pid \<and> a = [(pid, if pf = Linux then ''SIGTERM'' else ''SIGKILL'')])) \<and>
       (b = [] \<or> (\<exists>pid. mg_hard g = Some pid \<and> b = [(pid, ''SIGKILL'')])))"
proof -
  obtain g1 w1 where p: "poll m g w = (g1, w1)" by fastforce
  have o: "w_log w1 = w_log w" "w_files w1 = w_files w" "w_signals w1 = w_signals w" "w_requests w1 = w_requests w"
    using pollD(1) [OF p, of "\<lambda>_. False"] by (auto simp: observes_def runs_def outs_def list_all_iff)
  define a where "a = (case mg_cmd g1 of None \<Rightarrow> [] | Some pid \<Rightarrow> [(pid, if pf = Linux then ''SIGTERM'' else ''SIGKILL'')])"
  define b where "b = (case mg_hard g1 of None \<Rightarrow> [] | Some pid \<Rightarrow> [(pid, ''SIGKILL'')])"
  obtain e2 w2 where 2: "(case mg_cmd g1 of None \<Rightarrow> (None, w1) | Some pid \<Rightarrow> stop_managed_process pf m pid w1) = (e2, w2)" by fastforce
  have s2: "w_log w2 = w_log w \<and> w_files w2 = w_files w \<and> w_signals w2 = w_signals w @ a \<and> w_requests w2 = w_requests w"
    using 2 o by (auto simp: stop_managed_process_def a_def split: option.splits dest!: send_signalD)
  obtain e3 w3 where 3: "stop_hard m (mg_hard g1) w2 = (e3, w3)" by fastforce
  have s3: "w_log w3 = w_log w2 \<and> w_files w3 = w_files w2 \<and> w_signals w3 = w_signals w2 @ b \<and> w_requests w3 = w_requests w2"
    using 3 by (auto simp: stop_hard_def b_def split: option.splits prod.splits dest!: send_signalD)
  have r: "g' = g1 \<and> (w' = w2 \<or> w' = w3)"
    using assms p 2 3 by (auto simp: stop_manager_def Let_def split: option.splits)
  have "a = [] \<or> (\<exists>pid. mg_cmd g = Some pid \<and> a = [(pid, if pf = Linux then ''SIGTERM'' else ''SIGKILL'')])"
    using pollD(3) [OF p] by (auto simp: a_def split: option.splits)
  moreover have "b = [] \<or> (\<exists>pid. mg_hard g = Some pid \<and> b = [(pid, ''SIGKILL'')])"
    using pollD(4) [OF p] by (auto simp: b_def split: option.splits)
  moreover have "w_signals w' = w_signals w @ a @ [] \<or> w_signals w' = w_signals w @ a @ b" using r s2 s3 by auto
  ultimately show ?thesis using r s2 s3 pollD(2) [OF p] by (metis (no_types, lifting))
qed

lemma stop_signals_only_children_witness:
  "w_log (snd (snd (stop_manager Linux quiet_machine ((new_manager (config.make [] [] 0 [] [] []))\<lparr>mg_cmd := Some 7\<rparr>) (world_of [] ())))) = []"
proof -
  let ?g = "(new_manager (config.make [] [] 0 [] [] []))\<lparr>mg_cmd := Some 7\<rparr>"
  obtain e g' w' where s: "stop_manager Linux quiet_machine ?g (world_of [] ()) = (e, g', w')" by (metis prod_cases3)
  from stop_signals_only_children [OF s] show ?thesis using s by (simp add: world_of_def)
qed

text \<open>The proxy configuration on disk is the one of the manager, and it is bound to the VPN.
  After a successful write the file parses to the document of the configuration; its only
  inbound listens on the configured host and port, and its DNS server and its only outbound
  are bound to the VPN interface whenever one is configured.\<close>

theorem proxy_config_bound:
  assumes "write_config m c path w = (Inr u, w')"
  shows "\<exists>x doc inb dns direct dns_server. w_files w' path = Some x \<and> parse_json (f_data x) = Some doc \<and>
    jget ''inbounds'' doc = Some (JArr [inb]) \<and> jget ''listen'' inb = Some (JStr (cf_host c)) \<and>
    jget ''listen_port'' inb = Some (enc_int (cf_port c)) \<and>
    jget ''dns'' doc = Some dns \<and> jget ''servers'' dns = Some (JArr [dns_server]) \<and> jget ''outbounds'' doc = Some (JArr [direct]) \<and>
    (cf_vpn c \<noteq> [] \<longrightarrow> jget ''bind_interface'' dns_server = Some (JStr (cf_vpn c)) \<and> jget ''bind_interface'' direct = Some (JStr (cf_vpn c)))"
proof -
  obtain x where x: "w_files w' path = Some x" "parse_json (f_data x) = Some (proxy_doc c)"
    using write_config_ok [OF assms] by blast
  obtain dns_ip dns_name where d: "dns_of (cf_dns c) = (dns_ip, dns_name)" by fastforce
  show ?thesis
    by (rule exI [of _ x], rule exI [of _ "proxy_doc c"], cases "cf_vpn c = []")
      (simp_all add: x proxy_doc_def d Let_def)
qed

lemma proxy_config_bound_witness:
  "\<exists>x doc. w_files (snd (write_config quiet_machine (config.make ''/r'' ''127.0.0.1'' 7890 ''tun0'' ''google'' ''1.14.0'') ''/r/sing-box.json'' (world_of [] ()))) ''/r/sing-box.json'' = Some x \<and>
     parse_json (f_data x) = Some doc"
proof -
  let ?c = "config.make ''/r'' ''127.0.0.1'' 7890 ''tun0'' ''google'' ''1.14.0''" and ?w = "world_of [] () :: unit world"
  obtain r w' where r: "write_config quiet_machine ?c ''/r/sing-box.json'' ?w = (r, w')" by fastforce
  moreover have "r = Inr ()"
    using r by (auto simp: write_config_def mkdir_all_def write_file_def write_handle_def close_handle_def fault_now_def quiet_machine_def Let_def)
  ultimately show ?thesis using proxy_config_bound [of quiet_machine ?c "''/r/sing-box.json''" ?w "()" w'] by auto
qed

text \<open>A stopped manager takes a new configuration exactly when it is valid, and then all five
  settings at once; in every other case the configuration is unchanged.\<close>

theorem config_update_exact:
  assumes "update_stopped_config m host port vpn dns ver g w = (e, g', w')"
  shows "(e \<noteq> None \<longrightarrow> mg_cfg g' = mg_cfg g) \<and>
    (e = None \<longrightarrow> mg_cmd g' = None \<and> trim_space host \<noteq> [] \<and> 0 < port \<and> port \<le> 65535 \<and> dns \<in> {''cloudflare'', ''google''} \<and>
       trim_space ver \<noteq> [] \<and> (\<forall>a. parse_ip (trim_set ''[]'' host) = Some a \<longrightarrow> ip_loopback a) \<and>
       mg_cfg g' = \<lparr>cf_root = cf_root (mg_cfg g), cf_host = host, cf_port = port, cf_vpn = vpn, cf_dns = dns, cf_version = ver\<rparr>)"
proof -
  obtain g1 w1 where p: "poll m g w = (g1, w1)" by fastforce
  note c = pollD(2) [OF p]
  show ?thesis
    using assms c unfolding update_stopped_config_def p Let_def prod.case
    by (cases "parse_ip (trim_set ''[]'' host)") (auto split: if_splits)
qed

lemma config_update_exact_witness:
  "mg_cfg (fst (snd (update_stopped_config quiet_machine ''192.168.1.1'' 7890 ''tun0'' ''google'' ''1.14.0''
      (new_manager (config.make ''/r'' [] 0 [] [] [])) (world_of [] ())))) = mg_cfg (new_manager (config.make ''/r'' [] 0 [] [] []))"
proof -
  let ?g = "new_manager (config.make ''/r'' [] 0 [] [] [])"
  obtain e g' w' where u: "update_stopped_config quiet_machine ''192.168.1.1'' 7890 ''tun0'' ''google'' ''1.14.0'' ?g (world_of [] ()) = (e, g', w')"
    by (metis prod_cases3)
  have "parse_ip (trim_set ''[]'' ''192.168.1.1'') = Some [192, 168, 1, 1] \<and> \<not> ip_loopback [192, 168, 1, 1]" by code_simp
  then have "e \<noteq> None" using config_update_exact [OF u] by blast
  then show ?thesis using config_update_exact [OF u] u by simp
qed

text \<open>The version test is a substring test.  Whatever follows the wanted version in the
  output, it is accepted: a pre-release \<^verbatim>\<open>1.14.0-beta.1\<close> or a version \<^verbatim>\<open>1.14.01\<close> counts as
  \<^verbatim>\<open>1.14.0\<close>, although the manager means to reuse only the exact release.\<close>

theorem version_test_accepts_suffix:
  "want \<noteq> [] \<longrightarrow> version_contains (''sing-box version '' @ want @ rest) want"
proof
  assume w: "want \<noteq> []"
  have "''sing-box version '' @ want @ rest = ''sing-box version'' @ ('' '' @ want) @ rest" by simp
  then have "str_contains (''sing-box version '' @ want @ rest) ('' '' @ want)"
    using str_contains_append by metis
  then show "version_contains (''sing-box version '' @ want @ rest) want"
    using w by (simp add: version_contains_def)
qed

lemma version_test_accepts_suffix_witness:
  "version_contains ''sing-box version 1.14.0-beta.1'' ''1.14.0''"
  using version_test_accepts_suffix [of "''1.14.0''" "''-beta.1''"] by simp

end
