(* ===== verification/Install.thy ===== *)
theory Install imports Manager PrivilegedHelper begin

text \<open>
  Installing \<^verbatim>\<open>sing-box\<close> (\<^verbatim>\<open>internal/proxy/install_verified.go\<close> and \<^verbatim>\<open>Install\<close>,
  \<^verbatim>\<open>downloadFile\<close>, \<^verbatim>\<open>copyFile\<close>, \<^verbatim>\<open>findFile\<close>, \<^verbatim>\<open>extractZip\<close>, \<^verbatim>\<open>extractTarGz\<close> of
  \<^verbatim>\<open>manager.go\<close>): the release metadata, the download, its digest, the extraction, and the
  provenance record that later permits the binary to be reused.

  What \<^verbatim>\<open>archive/zip\<close> and \<^verbatim>\<open>archive/tar\<close> read from a file is the machine's \<open>m_unzip\<close> and
  \<open>m_untar\<close>; directories are not recorded in the file system of the model, so a walk sees
  the directories that hold files.
\<close>

section \<open>Release metadata\<close>

record rel_asset =
  ra_name :: string
  ra_url :: string
  ra_digest :: string

definition asset_fields :: "(string \<times> rel_asset decoder) list" where
  "asset_fields =
     [dec_field ''name'' dec_string ra_name (\<lambda>v a. a\<lparr>ra_name := v\<rparr>),
      dec_field ''browser_download_url'' dec_string ra_url (\<lambda>v a. a\<lparr>ra_url := v\<rparr>),
      dec_field ''digest'' dec_string ra_digest (\<lambda>v a. a\<lparr>ra_digest := v\<rparr>)]"

definition zero_asset :: rel_asset where
  "zero_asset = \<lparr>ra_name = [], ra_url = [], ra_digest = []\<rparr>"

definition release_fields :: "(string \<times> rel_asset list decoder) list" where
  "release_fields =
     [dec_field ''assets'' (dec_list zero_asset (dec_struct asset_fields)) (\<lambda>r. r) (\<lambda>v _. v)]"

definition decode_release :: "string \<Rightarrow> rel_asset list res" where
  "decode_release body =
     (case parse_stream body of
        None \<Rightarrow> Inl json_error
      | Some j \<Rightarrow> (case dec_struct release_fields j [] of (r, ok) \<Rightarrow> if ok then Inr r else Inl json_error))"

text \<open>\<^verbatim>\<open>url.PathEscape\<close>.\<close>

definition path_unreserved :: "char \<Rightarrow> bool" where
  "path_unreserved c \<longleftrightarrow>
     (let n = (of_char c :: nat) in
      48 \<le> n \<and> n \<le> 57 \<or> 65 \<le> n \<and> n \<le> 90 \<or> 97 \<le> n \<and> n \<le> 122 \<or> c \<in> set ''-_.~$&+=:@'')"

definition percent_byte :: "char \<Rightarrow> string" where
  "percent_byte c =
     (let n = (of_char c :: nat); up = (\<lambda>d. upper_char (hex_digit d)) in ''%'' @ [up (n div 16), up (n mod 16)])"

definition path_escape :: "string \<Rightarrow> string" where
  "path_escape s = concat (map (\<lambda>c. if path_unreserved c then [c] else percent_byte c) s)"

definition release_url :: "string \<Rightarrow> string" where
  "release_url ver = ''https://api.github.com/repos/SagerNet/sing-box/releases/tags/v'' @ path_escape ver"

text \<open>The default transport goes through the proxy that the environment names.\<close>

definition from_environment :: "string option" where
  "from_environment = Some ''environment''"

definition get_request :: "string \<Rightarrow> http_request" where
  "get_request url = \<lparr>hq_proxy = from_environment, hq_dial = None, hq_method = ''GET'', hq_url = url\<rparr>"

definition fetch_release :: "'k machine \<Rightarrow> string \<Rightarrow> string \<Rightarrow> 'k world \<Rightarrow> rel_asset list res \<times> 'k world" where
  "fetch_release m wrap ver w =
     (case http_do m (get_request (release_url ver)) w of
        (Inl e, w1) \<Rightarrow> (Inl (wrap_err wrap e), w1)
      | (Inr a, w1) \<Rightarrow>
          if hr_code a \<noteq> 200 then (Inl (new_err (''GitHub release API: '' @ hr_status a)), w1)
          else (decode_release (hr_body a), w1))"

text \<open>The first asset of the wanted name: its URL and digest, empty when there is none.\<close>

definition select_asset :: "string \<Rightarrow> rel_asset list \<Rightarrow> string \<times> string" where
  "select_asset want rel =
     (case find (\<lambda>a. ra_name a = want) rel of None \<Rightarrow> ([], []) | Some a \<Rightarrow> (ra_url a, ra_digest a))"

section \<open>Download, digest and copy\<close>

definition download_file ::
  "'k machine \<Rightarrow> string \<Rightarrow> string \<Rightarrow> manager \<Rightarrow> 'k world \<Rightarrow> gerr option \<times> manager \<times> 'k world" where
  "download_file m url path g w =
     (case http_do m (get_request url) w of
        (Inl e, w1) \<Rightarrow> (Some e, g, w1)
      | (Inr a, w1) \<Rightarrow>
          if hr_code a \<noteq> 200 then (Some (new_err (''download: '' @ hr_status a)), g, w1)
          else (case open_trunc m path 438 w1 of
              (Inl e, w2) \<Rightarrow> (Some e, g, w2)
            | (Inr _, w2) \<Rightarrow>
                (let (r, w3) = write_handle m path (hr_body a) w2
                 in ((case r of Inl e \<Rightarrow> Some e | Inr _ \<Rightarrow> hr_error a),
                     log_msg ''info'' (''downloading '' @ url) g, snd (close_handle m w3)))))"

definition sha256_stored :: "'k machine \<Rightarrow> string \<Rightarrow> 'k world \<Rightarrow> string res \<times> 'k world" where
  "sha256_stored m p w =
     (case read_file m p w of (Inl e, w1) \<Rightarrow> (Inl e, w1) | (Inr b, w1) \<Rightarrow> (Inr (hex_text (sha256 b)), w1))"

definition copy_file :: "'k machine \<Rightarrow> string \<Rightarrow> string \<Rightarrow> nat \<Rightarrow> 'k world \<Rightarrow> gerr option \<times> 'k world" where
  "copy_file m src dst perm w =
     (case read_file m src w of (Inl e, w1) \<Rightarrow> (Some e, w1) | (Inr b, w1) \<Rightarrow>
     (case mkdir_all m (path_dir dst) w1 of (Inl e, w2) \<Rightarrow> (Some e, w2) | (Inr _, w2) \<Rightarrow>
     (case open_trunc m dst perm w2 of (Inl e, w3) \<Rightarrow> (Some e, w3) | (Inr _, w3) \<Rightarrow>
     (case write_handle m dst b w3 of
        (Inl e, w4) \<Rightarrow> (Some e, snd (close_handle m w4))
      | (Inr _, w4) \<Rightarrow> (case close_handle m w4 of (Inl e, w5) \<Rightarrow> (Some e, w5) | (Inr _, w5) \<Rightarrow> (None, w5))))))"

section \<open>Extraction\<close>

text \<open>Creating one file: the copy may fail while reading the entry or while writing it, and
  what was written by then stays.\<close>

definition write_entry :: "'k machine \<Rightarrow> string \<Rightarrow> archive_entry \<Rightarrow> 'k world \<Rightarrow> gerr option \<times> 'k world" where
  "write_entry m path e w =
     (case open_trunc m path (ae_mode e) w of
        (Inl err, w1) \<Rightarrow> (Some err, w1)
      | (Inr _, w1) \<Rightarrow>
          (let (r, w2) = write_handle m path (ae_data e) w1
           in ((case r of Inl err \<Rightarrow> Some err | Inr _ \<Rightarrow> ae_error e), snd (close_handle m w2))))"

definition entry_path :: "string \<Rightarrow> archive_entry \<Rightarrow> string" where
  "entry_path dst e = path_join dst (path_clean (ae_name e))"

definition inside :: "string \<Rightarrow> string \<Rightarrow> bool" where
  "inside dst p \<longleftrightarrow> has_prefix p (path_clean dst @ ''/'')"

definition zip_entry :: "'k machine \<Rightarrow> string \<Rightarrow> archive_entry \<Rightarrow> 'k world \<Rightarrow> gerr option \<times> 'k world" where
  "zip_entry m dst e w =
     (let path = entry_path dst e in
      if \<not> inside dst path then (Some (new_err ''zip path traversal''), w)
      else if ae_kind e = Dir_entry then (case mkdir_all m path w of (Inl err, w1) \<Rightarrow> (Some err, w1) | (Inr _, w1) \<Rightarrow> (None, w1))
      else (case mkdir_all m (path_dir path) w of
          (Inl err, w1) \<Rightarrow> (Some err, w1)
        | (Inr _, w1) \<Rightarrow> (case ae_open e of Some err \<Rightarrow> (Some err, w1) | None \<Rightarrow> write_entry m path e w1)))"

definition tar_entry :: "'k machine \<Rightarrow> string \<Rightarrow> archive_entry \<Rightarrow> 'k world \<Rightarrow> gerr option \<times> 'k world" where
  "tar_entry m dst e w =
     (let path = entry_path dst e in
      if \<not> inside dst path then (Some (new_err ''tar path traversal''), w)
      else (case ae_kind e of
          Dir_entry \<Rightarrow> (case mkdir_all m path w of (Inl err, w1) \<Rightarrow> (Some err, w1) | (Inr _, w1) \<Rightarrow> (None, w1))
        | Reg_entry \<Rightarrow>
            (case mkdir_all m (path_dir path) w of
               (Inl err, w1) \<Rightarrow> (Some err, w1)
             | (Inr _, w1) \<Rightarrow> write_entry m path e w1)
        | Other_entry \<Rightarrow> (None, w)))"

fun each_entry ::
  "(archive_entry \<Rightarrow> 'k world \<Rightarrow> gerr option \<times> 'k world) \<Rightarrow> archive_entry list \<Rightarrow> 'k world \<Rightarrow> gerr option \<times> 'k world" where
  "each_entry f [] w = (None, w)"
| "each_entry f (e # es) w = (case f e w of (Some err, w1) \<Rightarrow> (Some err, w1) | (None, w1) \<Rightarrow> each_entry f es w1)"

definition extract_zip :: "'k machine \<Rightarrow> string \<Rightarrow> string \<Rightarrow> 'k world \<Rightarrow> gerr option \<times> 'k world" where
  "extract_zip m src dst w =
     (case read_file m src w of
        (Inl e, w1) \<Rightarrow> (Some e, w1)
      | (Inr b, w1) \<Rightarrow> (case m_unzip m b of Inl e \<Rightarrow> (Some e, w1) | Inr es \<Rightarrow> each_entry (zip_entry m dst) es w1))"

definition extract_tar :: "'k machine \<Rightarrow> string \<Rightarrow> string \<Rightarrow> 'k world \<Rightarrow> gerr option \<times> 'k world" where
  "extract_tar m src dst w =
     (case read_file m src w of
        (Inl e, w1) \<Rightarrow> (Some e, w1)
      | (Inr b, w1) \<Rightarrow>
          (case m_untar m b of
             Inl e \<Rightarrow> (Some e, w1)
           | Inr (es, final) \<Rightarrow>
               (case each_entry (tar_entry m dst) es w1 of (Some e, w2) \<Rightarrow> (Some e, w2) | (None, w2) \<Rightarrow> (final, w2))))"

definition extract_archive :: "'k machine \<Rightarrow> string \<Rightarrow> string \<Rightarrow> string \<Rightarrow> 'k world \<Rightarrow> gerr option \<times> 'k world" where
  "extract_archive m want src dst =
     (if has_suffix want ''.zip'' then extract_zip m src dst else extract_tar m src dst)"

text \<open>The entries that an archive of that name holds.\<close>

definition archive_entries :: "'k machine \<Rightarrow> string \<Rightarrow> string \<Rightarrow> archive_entry list" where
  "archive_entries m want b =
     (if has_suffix want ''.zip'' then (case m_unzip m b of Inl _ \<Rightarrow> [] | Inr es \<Rightarrow> es)
      else (case m_untar m b of Inl _ \<Rightarrow> [] | Inr (es, _) \<Rightarrow> es))"

section \<open>Finding the executable\<close>

text \<open>
  \<^verbatim>\<open>filepath.Walk\<close> visits the entries of a directory in order of their names.  Returning
  \<^verbatim>\<open>SkipDir\<close> for a file ends its directory only, so a later directory may hold another match,
  which replaces the one found before.  The files are given by their components below the
  root; the fuel is the depth.
\<close>

fun walk_dir :: "nat \<Rightarrow> string \<Rightarrow> string list \<Rightarrow> string list list \<Rightarrow> string list option \<Rightarrow> string list option"
  and walk_names :: "nat \<Rightarrow> string \<Rightarrow> string list \<Rightarrow> string list list \<Rightarrow> string list \<Rightarrow> string list option \<Rightarrow> string list option" where
  "walk_dir 0 name here files found = found"
| "walk_dir (Suc n) name here files found =
     walk_names n name here files (sorted_keys (map hd (filter (\<lambda>c. c \<noteq> []) files))) found"
| "walk_names n name here files [] found = found"
| "walk_names n name here files (x # xs) found =
     (if [x] \<in> set files
      then (if x = name then Some (here @ [x]) else walk_names n name here files xs found)
      else walk_names n name here files xs
        (walk_dir n name (here @ [x]) (map tl (filter (\<lambda>c. c \<noteq> [] \<and> hd c = x) files)) found))"

definition files_below :: "string \<Rightarrow> 'k world \<Rightarrow> string list" where
  "files_below root w = sorted_list_of_set {p. w_files w p \<noteq> None \<and> has_prefix p (root @ ''/'')}"

definition find_file :: "'k machine \<Rightarrow> string \<Rightarrow> string \<Rightarrow> 'k world \<Rightarrow> string res \<times> 'k world" where
  "find_file m root name w =
     (case fault_now m w of
        Some f \<Rightarrow> (Inl (fault_err f), tick w)
      | None \<Rightarrow>
          (let files = map (\<lambda>p. split_char slash (drop (Suc (length root)) p)) (files_below root w);
               depth = foldr (\<lambda>c n. max (length c) n) files 0
           in case walk_dir depth name [] files None of
                None \<Rightarrow> (Inl (new_err (name @ '' not found in archive'')), tick w)
              | Some c \<Rightarrow> (Inr (root @ ''/'' @ str_join c ''/''), tick w)))"

section \<open>Provenance\<close>

record provenance =
  pv_version :: string
  pv_asset :: string
  pv_release_digest :: string
  pv_binary_sha256 :: string
  pv_verified_at :: string

definition enc_provenance :: "provenance \<Rightarrow> json" where
  "enc_provenance p = JObj
     [(''version'', JStr (pv_version p)), (''asset'', JStr (pv_asset p)), (''release_digest'', JStr (pv_release_digest p)),
      (''binary_sha256'', JStr (pv_binary_sha256 p)), (''verified_at'', JStr (pv_verified_at p))]"

definition provenance_fields :: "(string \<times> provenance decoder) list" where
  "provenance_fields =
     [dec_field ''version'' dec_string pv_version (\<lambda>v a. a\<lparr>pv_version := v\<rparr>),
      dec_field ''asset'' dec_string pv_asset (\<lambda>v a. a\<lparr>pv_asset := v\<rparr>),
      dec_field ''release_digest'' dec_string pv_release_digest (\<lambda>v a. a\<lparr>pv_release_digest := v\<rparr>),
      dec_field ''binary_sha256'' dec_string pv_binary_sha256 (\<lambda>v a. a\<lparr>pv_binary_sha256 := v\<rparr>),
      dec_field ''verified_at'' dec_string pv_verified_at (\<lambda>v a. a\<lparr>pv_verified_at := v\<rparr>)]"

definition zero_provenance :: provenance where
  "zero_provenance = \<lparr>pv_version = [], pv_asset = [], pv_release_digest = [], pv_binary_sha256 = [], pv_verified_at = []\<rparr>"

text \<open>\<^verbatim>\<open>Format(time.RFC3339)\<close> of a time in UTC: no fraction of a second.\<close>

definition rfc3339_seconds :: "stamp \<Rightarrow> string" where
  "rfc3339_seconds t = take 19 (t_rfc t) @ ''Z''"

definition provenance_path :: "manager \<Rightarrow> string" where
  "provenance_path g = path_join (path_join (cf_root (mg_cfg g)) ''bin'') ''sing-box.provenance.json''"

definition verified_managed_binary ::
  "'k machine \<Rightarrow> manager \<Rightarrow> string \<Rightarrow> string \<Rightarrow> string \<Rightarrow> 'k world \<Rightarrow> (bool \<times> string) \<times> 'k world" where
  "verified_managed_binary m g path asset ver w =
     (case read_file m (provenance_path g) w of
        (Inl _, w1) \<Rightarrow> ((False, ''provenance missing''), w1)
      | (Inr b, w1) \<Rightarrow>
          (let (p, ok) = unmarshal (dec_struct provenance_fields) b zero_provenance in
           if \<not> ok \<or> pv_version p \<noteq> ver \<or> pv_asset p \<noteq> asset \<or> pv_binary_sha256 p = [] \<or> pv_release_digest p = []
           then ((False, ''provenance invalid''), w1)
           else (case sha256_stored m path w1 of
               (Inl _, w2) \<Rightarrow> ((False, ''installed binary hash differs from verified provenance''), w2)
             | (Inr got, w2) \<Rightarrow>
                 if \<not> equal_fold got (pv_binary_sha256 p)
                 then ((False, ''installed binary hash differs from verified provenance''), w2)
                 else ((True, ''version='' @ ver @ '' sha256='' @ got), w2))))"

section \<open>The verified installation\<close>

definition reuse_managed ::
  "'k machine \<Rightarrow> string \<Rightarrow> string \<Rightarrow> manager \<Rightarrow> 'k world \<Rightarrow> bool \<times> manager \<times> 'k world" where
  "reuse_managed m managed want g w =
     (let ver = cf_version (mg_cfg g); (ex, w1) = file_exists m managed w in
      if \<not> ex then (False, g, w1)
      else (let (v, w2) = binary_version m managed w1 in
        if \<not> version_contains v ver then (False, g, w2)
        else (case verified_managed_binary m g managed want ver w2 of
            ((True, detail), w3) \<Rightarrow> (True, log_msg ''info'' (''verified managed sing-box reusable: '' @ detail) g, w3)
          | ((False, _), w3) \<Rightarrow>
              (False, log_msg ''warn'' ''managed sing-box lacks valid provenance; reinstalling from verified release'' g, w3))))"

definition check_archive :: "'k machine \<Rightarrow> string \<Rightarrow> string \<Rightarrow> string \<Rightarrow> 'k world \<Rightarrow> gerr option \<times> 'k world" where
  "check_archive m archive want digest w =
     (case sha256_stored m archive w of
        (Inl e, w1) \<Rightarrow> (Some e, w1)
      | (Inr got, w1) \<Rightarrow>
          (let expected = trim_prefix (to_lower digest) ''sha256:'' in
           if \<not> equal_fold got expected
           then (Some (new_err (''SHA-256 mismatch for '' @ want @ '': expected '' @ expected @ '' got '' @ got)), w1)
           else (None, w1)))"

definition store_verified ::
  "'k machine \<Rightarrow> string \<Rightarrow> string \<Rightarrow> string \<Rightarrow> string \<Rightarrow> manager \<Rightarrow> 'k world \<Rightarrow> string res \<times> manager \<times> 'k world" where
  "store_verified m managed want digest found g w =
     (case read_file m found w of (Inl e, w1) \<Rightarrow> (Inl e, g, w1) | (Inr binary, w1) \<Rightarrow>
     (case atomic_write m managed binary 493 w1 of
        (Inl e, w2) \<Rightarrow> (Inl (wrap_err ''install verified managed sing-box: '' e), g, w2)
      | (Inr _, w2) \<Rightarrow>
     (case sha256_stored m managed w2 of (Inl e, w3) \<Rightarrow> (Inl e, g, w3) | (Inr hash, w3) \<Rightarrow>
     (let (t, w4) = now m w3;
          prov = \<lparr>pv_version = cf_version (mg_cfg g), pv_asset = want, pv_release_digest = to_lower digest,
                  pv_binary_sha256 = hash, pv_verified_at = rfc3339_seconds t\<rparr>
      in case atomic_write m (provenance_path g) (marshal_indent (enc_provenance prov) @ nl) 384 w4 of
           (Inl e, w5) \<Rightarrow> (Inl (wrap_err ''write sing-box provenance: '' e), g, w5)
         | (Inr _, w5) \<Rightarrow>
             (Inr managed, log_msg ''info'' (''verified and installed managed sing-box '' @ cf_version (mg_cfg g)) g, w5)))))"

text \<open>From the checked archive to the binary; \<^verbatim>\<open>defer os.RemoveAll(tmp)\<close> is the last step.\<close>

definition install_unpacked ::
  "platform \<Rightarrow> 'k machine \<Rightarrow> string \<Rightarrow> string \<Rightarrow> string \<Rightarrow> string \<Rightarrow> string \<Rightarrow> manager \<Rightarrow> 'k world \<Rightarrow> string res \<times> manager \<times> 'k world" where
  "install_unpacked pf m tmp archive managed want digest g w =
     (case mkdir_all m tmp (snd (remove_all m tmp w)) of
        (Inl e, w1) \<Rightarrow> (Inl e, g, w1)
      | (Inr _, w1) \<Rightarrow>
          (let (r, g', w2) =
             (case extract_archive m want archive tmp w1 of
                (Some e, w2) \<Rightarrow> (Inl e, g, w2)
              | (None, w2) \<Rightarrow>
                  (case find_file m tmp (executable_name pf) w2 of
                     (Inl e, w3) \<Rightarrow> (Inl e, g, w3)
                   | (Inr found, w3) \<Rightarrow> store_verified m managed want digest found g w3))
           in (r, g', snd (remove_all m tmp w2))))"

definition verified_archive_path :: "manager \<Rightarrow> string \<Rightarrow> string" where
  "verified_archive_path g want = path_join (cf_root (mg_cfg g)) (''.verified-'' @ want)"

definition extract_dir :: "manager \<Rightarrow> string" where
  "extract_dir g = path_join (cf_root (mg_cfg g)) ''.verified-extract''"

text \<open>From the release metadata on; \<^verbatim>\<open>defer os.Remove(archive)\<close> once it was downloaded.\<close>

definition install_release ::
  "platform \<Rightarrow> 'k machine \<Rightarrow> string \<Rightarrow> string \<Rightarrow> manager \<Rightarrow> 'k world \<Rightarrow> string res \<times> manager \<times> 'k world" where
  "install_release pf m managed want g w =
     (case fetch_release m ''fetch sing-box release metadata: '' (cf_version (mg_cfg g)) w of
        (Inl e, w1) \<Rightarrow> (Inl e, g, w1)
      | (Inr rel, w1) \<Rightarrow>
          (let (url, raw) = select_asset want rel; digest = trim_space raw; archive = verified_archive_path g want in
           if url = [] then (Inl (new_err (''release asset not found: '' @ want)), g, w1)
           else if digest = [] \<or> \<not> has_prefix (to_lower digest) ''sha256:''
           then (Inl (new_err (''refusing Agent Tunnel install: official release asset '' @ want @ '' has no usable sha256 digest'')), g, w1)
           else (case download_file m url archive g w1 of
               (Some e, g1, w2) \<Rightarrow> (Inl e, g1, w2)
             | (None, g1, w2) \<Rightarrow>
                 (let (r, g2, w3) =
                    (case check_archive m archive want digest w2 of
                       (Some e, w3) \<Rightarrow> (Inl e, g1, w3)
                     | (None, w3) \<Rightarrow> install_unpacked pf m (extract_dir g) archive managed want digest g1 w3)
                  in (r, g2, snd (remove_file m archive w3))))))"

definition unsupported_os :: "platform \<Rightarrow> gerr" where
  "unsupported_os pf = new_err (''unsupported OS: '' @ goos pf)"

definition install_verified ::
  "platform \<Rightarrow> string \<Rightarrow> 'k machine \<Rightarrow> manager \<Rightarrow> 'k world \<Rightarrow> string res \<times> manager \<times> 'k world" where
  "install_verified pf arch m g w =
     (let managed = managed_path pf g; want = asset_name_for (goos pf) arch (cf_version (mg_cfg g)) in
      if pf \<noteq> Windows \<and> pf \<noteq> Linux then (Inl (unsupported_os pf), g, w)
      else (case reuse_managed m managed want g w of
          (True, g1, w1) \<Rightarrow> (Inr managed, g1, w1)
        | (False, g1, w1) \<Rightarrow>
            (case mkdir_all m (path_dir managed) w1 of
               (Inl e, w2) \<Rightarrow> (Inl e, g1, w2)
             | (Inr _, w2) \<Rightarrow> install_release pf m managed want g1 w2)))"

section \<open>The installation without provenance\<close>

definition matching_managed :: "'k machine \<Rightarrow> string \<Rightarrow> manager \<Rightarrow> 'k world \<Rightarrow> bool \<times> manager \<times> 'k world" where
  "matching_managed m managed g w =
     (let ver = cf_version (mg_cfg g); (ex, w1) = file_exists m managed w in
      if \<not> ex then (False, g, w1)
      else (let (got, w2) = binary_version m managed w1 in
        if version_contains got ver then (True, log_msg ''info'' (''managed sing-box already available: '' @ got) g, w2)
        else (False, log_msg ''warn'' (''managed sing-box version mismatch: have '' @ go_quote got @ '', want '' @ ver @ ''; upgrading'') g, w2)))"

fun system_binary :: "'k machine \<Rightarrow> string \<Rightarrow> string list \<Rightarrow> manager \<Rightarrow> 'k world \<Rightarrow> string option \<times> manager \<times> 'k world" where
  "system_binary m managed [] g w = (None, g, w)"
| "system_binary m managed (n # ns) g w =
     (case look_path m n w of
        (None, w1) \<Rightarrow> system_binary m managed ns g w1
      | (Some p, w1) \<Rightarrow>
          if p = managed then system_binary m managed ns g w1
          else (case binary_version m p w1 of (got, w2) \<Rightarrow>
            if version_contains got (cf_version (mg_cfg g))
            then (Some p, log_msg ''info'' (''matching system sing-box available: '' @ p) g, w2)
            else system_binary m managed ns g w2))"

definition check_digest ::
  "'k machine \<Rightarrow> string \<Rightarrow> string \<Rightarrow> manager \<Rightarrow> 'k world \<Rightarrow> gerr option \<times> manager \<times> 'k world" where
  "check_digest m archive digest g w =
     (if digest = []
      then (None, log_msg ''warn'' ''release metadata has no digest; archive authenticity could not be pinned'' g, w)
      else (case sha256_stored m archive w of
          (Inl e, w1) \<Rightarrow> (Some e, g, w1)
        | (Inr got, w1) \<Rightarrow>
            (let expected = trim_prefix (to_lower digest) ''sha256:'' in
             if \<not> equal_fold got expected
             then (Some (new_err (''SHA-256 mismatch: expected '' @ expected @ '' got '' @ got)), g, w1)
             else (None, log_msg ''info'' ''SHA-256 verified against GitHub release metadata'' g, w1))))"

definition install_plain_unpacked ::
  "platform \<Rightarrow> 'k machine \<Rightarrow> string \<Rightarrow> string \<Rightarrow> string \<Rightarrow> string \<Rightarrow> manager \<Rightarrow> 'k world \<Rightarrow> string res \<times> manager \<times> 'k world" where
  "install_plain_unpacked pf m tmp archive managed want g w =
     (case mkdir_all m tmp (snd (remove_all m tmp w)) of
        (Inl e, w1) \<Rightarrow> (Inl e, g, w1)
      | (Inr _, w1) \<Rightarrow>
          (let (r, g', w2) =
             (case extract_archive m want archive tmp w1 of
                (Some e, w2) \<Rightarrow> (Inl e, g, w2)
              | (None, w2) \<Rightarrow>
                  (case find_file m tmp (executable_name pf) w2 of
                     (Inl e, w3) \<Rightarrow> (Inl e, g, w3)
                   | (Inr found, w3) \<Rightarrow>
                       (case copy_file m found managed 493 w3 of
                          (Some e, w4) \<Rightarrow> (Inl e, g, w4)
                        | (None, w4) \<Rightarrow> (Inr managed, log_msg ''info'' (''installed managed sing-box: '' @ managed) g, w4))))
           in (r, g', snd (remove_all m tmp w2))))"

definition install_plain_release ::
  "platform \<Rightarrow> string \<Rightarrow> 'k machine \<Rightarrow> string \<Rightarrow> manager \<Rightarrow> 'k world \<Rightarrow> string res \<times> manager \<times> 'k world" where
  "install_plain_release pf arch m managed g w =
     (let ver = cf_version (mg_cfg g); root = cf_root (mg_cfg g);
          g0 = log_msg ''info'' (''fetching official sing-box release metadata v'' @ ver) g in
      case fetch_release m [] ver w of
        (Inl e, w1) \<Rightarrow> (Inl e, g0, w1)
      | (Inr rel, w1) \<Rightarrow>
          (let want = asset_name_for (goos pf) arch ver; (url, digest) = select_asset want rel; archive = path_join root want in
           if url = [] then (Inl (new_err (''release asset not found: '' @ want)), g0, w1)
           else (case download_file m url archive g0 w1 of
               (Some e, g1, w2) \<Rightarrow> (Inl e, g1, w2)
             | (None, g1, w2) \<Rightarrow>
                 (let (r, g2, w3) =
                    (case check_digest m archive digest g1 w2 of
                       (Some e, g2, w3) \<Rightarrow> (Inl e, g2, w3)
                     | (None, g2, w3) \<Rightarrow> install_plain_unpacked pf m (path_join root ''extract'') archive managed want g2 w3)
                  in (r, g2, snd (remove_file m archive w3))))))"

definition install_plain ::
  "platform \<Rightarrow> string \<Rightarrow> 'k machine \<Rightarrow> manager \<Rightarrow> 'k world \<Rightarrow> string res \<times> manager \<times> 'k world" where
  "install_plain pf arch m g w =
     (let managed = managed_path pf g in
      if pf \<noteq> Windows \<and> pf \<noteq> Linux then (Inl (unsupported_os pf), g, w)
      else (case matching_managed m managed g w of
          (True, g1, w1) \<Rightarrow> (Inr managed, g1, w1)
        | (False, g1, w1) \<Rightarrow>
            (case system_binary m managed [executable_name pf, ''sing-box''] g1 w1 of
               (Some p, g2, w2) \<Rightarrow> (Inr p, g2, w2)
             | (None, g2, w2) \<Rightarrow>
                 (case mkdir_all m (path_join (cf_root (mg_cfg g)) ''bin'') w2 of
                    (Inl e, w3) \<Rightarrow> (Inl e, g2, w3)
                  | (Inr _, w3) \<Rightarrow> install_plain_release pf arch m managed g2 w3))))"

section \<open>Lemmas on extraction\<close>

lemma http_do_outs:
  "http_do m q w = (a, w') \<Longrightarrow> w_files w' = w_files w \<and> w_log w' = w_log w \<and> w_signals w' = w_signals w \<and> w_requests w' = w_requests w @ [q]"
  by (drule http_doD) simp

lemma write_entryD:
  assumes "write_entry m path e w = (r, w')"
  shows "same_env w w'" and "q \<noteq> path \<Longrightarrow> w_files w' q = w_files w q"
    and "r = None \<Longrightarrow> \<exists>x. w_files w' path = Some x \<and> f_data x = ae_data e"
proof -
  obtain u w1 where 1: "open_trunc m path (ae_mode e) w = (u, w1)" by fastforce
  obtain v w2 where 2: "write_handle m path (ae_data e) w1 = (v, w2)" by fastforce
  note d = open_remove_env(2) [OF 1] open_remove_files(2) [OF 1] file_call_envD(6) [OF 2]
  have f2: "q \<noteq> path \<Longrightarrow> w_files w2 q = w_files w1 q" for q
    using 2 by (auto simp: write_handle_def split: option.splits)
  show "same_env w w'"
    using assms 1 2 d by (cases u) (auto simp: write_entry_def same_env_def)
  show "q \<noteq> path \<Longrightarrow> w_files w' q = w_files w q"
    using assms 1 2 d f2 by (cases u) (auto simp: write_entry_def)
  show "\<exists>x. w_files w' path = Some x \<and> f_data x = ae_data e" if "r = None"
    using assms 1 2 that
    by (cases u) (auto simp: write_entry_def write_handle_def open_trunc_def Let_def split: option.splits)
qed

text \<open>The contract of a step that extracts one entry.\<close>

locale extractor =
  fixes dst :: string and step :: "archive_entry \<Rightarrow> 'k world \<Rightarrow> gerr option \<times> 'k world"
  assumes step_env: "step e w = (r, w') \<Longrightarrow> same_env w w'"
    and step_files: "step e w = (r, w') \<Longrightarrow> w_files w' q \<noteq> w_files w q \<Longrightarrow> q = entry_path dst e \<and> inside dst q"
    and step_data: "step e w = (None, w') \<Longrightarrow> w_files w' q \<noteq> w_files w q \<Longrightarrow> \<exists>x. w_files w' q = Some x \<and> f_data x = ae_data e"
begin

lemma each_env: "each_entry step es w = (r, w') \<Longrightarrow> same_env w w'"
  by (induction es arbitrary: w) (auto split: prod.splits option.splits dest: step_env intro: same_env_trans)

lemma each_files:
  "each_entry step es w = (r, w') \<Longrightarrow> w_files w' q \<noteq> w_files w q \<Longrightarrow> \<exists>e\<in>set es. q = entry_path dst e \<and> inside dst q"
proof (induction es arbitrary: w)
  case (Cons e es)
  obtain r1 w1 where 1: "step e w = (r1, w1)" by fastforce
  show ?case
    using Cons 1 step_files [OF 1, of q] by (cases r1) (fastforce split: prod.splits)+
qed simp

lemma each_data:
  "each_entry step es w = (None, w') \<Longrightarrow> w_files w' q = w_files w q \<or>
     (\<exists>e\<in>set es. q = entry_path dst e \<and> inside dst q \<and> (\<exists>x. w_files w' q = Some x \<and> f_data x = ae_data e))"
proof (induction es arbitrary: w)
  case (Cons e es)
  then obtain w1 where 1: "step e w = (None, w1)" and r: "each_entry step es w1 = (None, w')"
    by (auto split: prod.splits option.splits)
  show ?case using Cons.IH [OF r] step_files [OF 1, of q] step_data [OF 1, of q]
    by (cases "w_files w1 q = w_files w q") fastforce+
qed simp

end

lemma mkdir_allD: "mkdir_all m p w = (r, w') \<Longrightarrow> w' = tick w"
  by (drule arg_cong [where f = snd]) simp

interpretation zip_file: extractor dst "zip_entry m dst" for m dst
proof
  fix e :: archive_entry and w w' :: "'a world" and r q
  show "same_env w w'" if "zip_entry m dst e w = (r, w')"
    using that by (auto simp: zip_entry_def Let_def split: if_splits prod.splits sum.splits option.splits
        dest!: mkdir_allD write_entryD(1) simp: same_env_def)
  show "q = entry_path dst e \<and> inside dst q" if "zip_entry m dst e w = (r, w')" "w_files w' q \<noteq> w_files w q"
    using that by (auto simp: zip_entry_def Let_def split: if_splits prod.splits sum.splits option.splits
        dest!: mkdir_allD dest: write_entryD(2) [where q = q])
  show "\<exists>x. w_files w' q = Some x \<and> f_data x = ae_data e" if "zip_entry m dst e w = (None, w')" "w_files w' q \<noteq> w_files w q"
    using that by (cases "q = entry_path dst e")
      (auto simp: zip_entry_def Let_def split: if_splits prod.splits sum.splits option.splits
        dest!: mkdir_allD dest: write_entryD(2,3))
qed

interpretation tar_file: extractor dst "tar_entry m dst" for m dst
proof
  fix e :: archive_entry and w w' :: "'a world" and r q
  show "same_env w w'" if "tar_entry m dst e w = (r, w')"
    using that by (auto simp: tar_entry_def Let_def split: if_splits prod.splits sum.splits option.splits entry_kind.splits
        dest!: mkdir_allD write_entryD(1) simp: same_env_def)
  show "q = entry_path dst e \<and> inside dst q" if "tar_entry m dst e w = (r, w')" "w_files w' q \<noteq> w_files w q"
    using that by (auto simp: tar_entry_def Let_def split: if_splits prod.splits sum.splits option.splits entry_kind.splits
        dest!: mkdir_allD dest: write_entryD(2) [where q = q])
  show "\<exists>x. w_files w' q = Some x \<and> f_data x = ae_data e" if "tar_entry m dst e w = (None, w')" "w_files w' q \<noteq> w_files w q"
    using that by (cases "q = entry_path dst e")
      (auto simp: tar_entry_def Let_def split: if_splits prod.splits sum.splits option.splits entry_kind.splits
        dest!: mkdir_allD dest: write_entryD(2,3))
qed

text \<open>What an archive at \<open>src\<close> does to the files when it is extracted below \<open>dst\<close>.\<close>

definition from_entry :: "string \<Rightarrow> archive_entry list \<Rightarrow> string \<Rightarrow> fnode option \<Rightarrow> bool" where
  "from_entry dst es q x \<longleftrightarrow> (\<exists>e\<in>set es. q = entry_path dst e \<and> inside dst q \<and> (\<exists>y. x = Some y \<and> f_data y = ae_data e))"

lemma same_env_tick_left [simp]: "same_env (tick w) w' = same_env w w'"
  by (simp add: same_env_def)

lemma extract_archive_cases:
  assumes "extract_archive m want src dst w = (r, w')"
  obtains (unread) "w' = tick w" "r \<noteq> None"
  | (entries) x w2 where "w_files w src = Some x" "r \<noteq> None \<or> w2 = w'" "w_files w' = w_files w2" "same_env w w2" "same_env w w'"
      "\<And>q. w_files w2 q \<noteq> w_files w q \<Longrightarrow> \<exists>e\<in>set (archive_entries m want (f_data x)). q = entry_path dst e \<and> inside dst q"
      "r = None \<Longrightarrow> \<forall>q. w_files w2 q = w_files w q \<or> from_entry dst (archive_entries m want (f_data x)) q (w_files w2 q)"
proof -
  obtain b w1 where 1: "read_file m src w = (b, w1)" by fastforce
  note w1 = file_callD(1) [OF 1]
  show thesis
  proof (cases b)
    case (Inl e)
    then show ?thesis using assms 1 w1 unread by (auto simp: extract_archive_def extract_zip_def extract_tar_def split: if_splits)
  next
    case (Inr d)
    then obtain x where x: "w_files w src = Some x" "d = f_data x" using 1 read_file_ok by blast
    show ?thesis
    proof (cases "has_suffix want ''.zip''")
      case zip: True
      show ?thesis
      proof (cases "m_unzip m d")
        case Inl
        then show ?thesis using assms 1 w1 Inr zip unread by (auto simp: extract_archive_def extract_zip_def)
      next
        case es: (Inr es)
        then have e: "each_entry (zip_entry m dst) es (tick w) = (r, w')"
          using assms 1 w1 Inr zip by (auto simp: extract_archive_def extract_zip_def)
        have a: "archive_entries m want (f_data x) = es" using zip es x by (simp add: archive_entries_def)
        show ?thesis
          by (rule entries [OF x(1), of w'])
            (use zip_file.each_env [OF e] zip_file.each_files [OF e] zip_file.each_data [of m dst es "tick w" w'] e in \<open>auto simp: a from_entry_def\<close>)
      qed
    next
      case tar: False
      show ?thesis
      proof (cases "m_untar m d")
        case Inl
        then show ?thesis using assms 1 w1 Inr tar unread by (auto simp: extract_archive_def extract_tar_def)
      next
        case es: (Inr ef)
        obtain es final where ef: "ef = (es, final)" by fastforce
        obtain r2 w2 where e: "each_entry (tar_entry m dst) es (tick w) = (r2, w2)" by fastforce
        have o: "w' = w2 \<and> (r = None \<longrightarrow> r2 = None)"
          using assms 1 w1 Inr tar es ef e by (auto simp: extract_archive_def extract_tar_def split: option.splits)
        have a: "archive_entries m want (f_data x) = es" using tar es ef x by (simp add: archive_entries_def)
        show ?thesis
          by (rule entries [OF x(1), of w2])
            (use o tar_file.each_env [OF e] tar_file.each_files [OF e] tar_file.each_data [of m dst es "tick w" w2] e in \<open>auto simp: a from_entry_def\<close>)
      qed
    qed
  qed
qed

section \<open>Lemmas on the walk\<close>

lemma walk_found:
  "walk_dir n name here files found = Some c \<Longrightarrow>
     found = Some c \<or> (\<exists>cs\<in>set files. c = here @ cs \<and> cs \<noteq> [] \<and> last cs = name)"
  "walk_names n name here files xs found = Some c \<Longrightarrow>
     found = Some c \<or> (\<exists>cs\<in>set files. c = here @ cs \<and> cs \<noteq> [] \<and> last cs = name)"
proof (induction n name here files found and n name here files xs found rule: walk_dir_walk_names.induct)
  case (4 n name here files x xs found)
  show ?case
  proof (cases "[x] \<in> set files")
    case True
    with 4 show ?thesis by (auto split: if_splits)
  next
    case False
    let ?sub = "map tl (filter (\<lambda>c. c \<noteq> [] \<and> hd c = x) files)"
    let ?f = "walk_dir n name (here @ [x]) ?sub found"
    have "?f = Some c \<or> (\<exists>cs\<in>set files. c = here @ cs \<and> cs \<noteq> [] \<and> last cs = name)"
      using 4 False by auto
    moreover have "found = Some c \<or> (\<exists>cs\<in>set files. c = here @ cs \<and> cs \<noteq> [] \<and> last cs = name)" if "?f = Some c"
    proof -
      have "found = Some c \<or> (\<exists>cs\<in>set ?sub. c = (here @ [x]) @ cs \<and> cs \<noteq> [] \<and> last cs = name)"
        using 4 False that by blast
      then show ?thesis
      proof
        assume "\<exists>cs\<in>set ?sub. c = (here @ [x]) @ cs \<and> cs \<noteq> [] \<and> last cs = name"
        then obtain d where "d \<in> set files" "d \<noteq> []" "hd d = x" "c = (here @ [x]) @ tl d" "tl d \<noteq> []" "last (tl d) = name"
          by auto
        then have "d \<in> set files \<and> c = here @ d \<and> d \<noteq> [] \<and> last d = name" using last_tl [of d] by auto
        then show ?thesis by blast
      qed blast
    qed
    ultimately show ?thesis by blast
  qed
qed auto

lemma find_file_ok:
  assumes "find_file m root name w = (Inr p, w')"
  shows "w' = tick w" "w_files w p \<noteq> None" "has_prefix p (root @ ''/'')" "last (split_char slash p) = name"
proof -
  let ?files = "map (\<lambda>p. split_char slash (drop (Suc (length root)) p)) (files_below root w)"
  obtain n c where c: "walk_dir n name [] ?files None = Some c" "p = root @ ''/'' @ str_join c ''/''" "w' = tick w"
    using assms by (auto simp: find_file_def Let_def split: option.splits)
  from walk_found(1) [OF c(1)] obtain q where q: "q \<in> set (files_below root w)"
      "c = split_char slash (drop (Suc (length root)) q)" "last c = name" by auto
  have q2: "w_files w q \<noteq> None" "has_prefix q (root @ ''/'')"
    using q(1) unfolding files_below_def
    by (cases "finite {p. w_files w p \<noteq> None \<and> has_prefix p (root @ ''/'')}"; simp)+
  then have "q = root @ ''/'' @ drop (Suc (length root)) q"
    by (metis append_assoc append_take_drop_id has_prefix_def length_append_singleton)
  then have "q = p" using c(2) q(2) str_join_split [of slash] by simp
  moreover have "last (split_char slash q) = last (split_char slash (drop (Suc (length root)) q))"
    using \<open>q = root @ ''/'' @ drop (Suc (length root)) q\<close> split_char_append [of slash root "drop (Suc (length root)) q"]
    by (metis append_Cons append_Nil last_appendR split_char_nonempty)
  ultimately show "w' = tick w" "w_files w p \<noteq> None" "has_prefix p (root @ ''/'')" "last (split_char slash p) = name"
    using c q q2 by (simp_all add: str_join_split)
qed

section \<open>Lemmas on the installation\<close>


lemma provenance_round_trip:
  "unmarshal (dec_struct provenance_fields) (marshal_indent (enc_provenance p) @ nl) zero_provenance = (p, True)"
proof -
  have "wf_json (enc_provenance p)" by (simp add: enc_provenance_def)
  then show ?thesis
    by (subst unmarshal_text) (simp_all add: enc_provenance_def dec_struct_def provenance_fields_def find_field_def dec_field_def zero_provenance_def)
qed

lemma executable_file_name [simp]: "file_name (executable_name pf)"
  by (simp add: executable_name_def file_name_def)

lemma install_names [simp]:
  "file_name ''bin''" "file_name ''.verified-extract''" "file_name ''sing-box.provenance.json''"
  by (simp_all add: file_name_def)

lemma archive_file_name: "slash \<notin> set want \<Longrightarrow> file_name (''.verified-'' @ want)"
  by (simp add: file_name_def)

lemmas archive_file_name' [simp] = archive_file_name [simplified]

lemma install_bases:
  "path_base (managed_path pf g) = executable_name pf"
  "path_base (provenance_path g) = ''sing-box.provenance.json''"
  "path_base (previous_good (provenance_path g)) = ''sing-box.provenance.json.previous-good''"
  "path_base (previous_good (managed_path pf g)) = executable_name pf @ ''.previous-good''"
  "slash \<notin> set want \<Longrightarrow> path_base (verified_archive_path g want) = ''.verified-'' @ want"
  using path_base_suffix [of "''sing-box.provenance.json''" "''.previous-good''"]
    path_base_suffix [of "executable_name pf" "''.previous-good''"]
  by (simp_all add: managed_path_def provenance_path_def verified_archive_path_def previous_good_def)

lemma install_paths_distinct:
  "managed_path pf g \<noteq> provenance_path g" "managed_path pf g \<noteq> previous_good (provenance_path g)"
  "provenance_path g \<noteq> previous_good (managed_path pf g)"
  "slash \<notin> set want \<Longrightarrow> managed_path pf g \<noteq> verified_archive_path g want"
  "slash \<notin> set want \<Longrightarrow> provenance_path g \<noteq> verified_archive_path g want"
  by (rule notI, drule arg_cong [where f = path_base], simp add: install_bases executable_name_def split: if_splits)+

lemma below_extract:
  assumes "below (extract_dir g) q"
  shows "\<exists>s. split_char slash q = path_parts (cf_root (mg_cfg g)) @ ''.verified-extract'' # s"
  using assms split_below [of q "extract_dir g"] by (fastforce simp: below_def extract_dir_def)

lemma install_not_below:
  "\<not> below (extract_dir g) (managed_path pf g)" "\<not> below (extract_dir g) (provenance_path g)"
  "slash \<notin> set want \<Longrightarrow> want \<noteq> ''extract'' \<Longrightarrow> \<not> below (extract_dir g) (verified_archive_path g want)"
  by (auto dest!: below_extract simp: managed_path_def provenance_path_def verified_archive_path_def)

lemma inside_extract: "inside (extract_dir g) q \<longleftrightarrow> has_prefix q (extract_dir g @ ''/'')"
  by (simp add: inside_def extract_dir_def)

lemma sha256_storedD: "sha256_stored m p w = (r, w') \<Longrightarrow> w' = tick w \<and> (\<forall>h. r = Inr h \<longrightarrow> (\<exists>x. w_files w p = Some x \<and> h = hex_text (sha256 (f_data x))))"
  by (auto simp: sha256_stored_def split: prod.splits sum.splits dest: file_callD(1) read_file_ok)

text \<open>What a verified installation leaves: the binary with content \<open>d\<close>, and its provenance.\<close>

definition installed :: "platform \<Rightarrow> manager \<Rightarrow> string \<Rightarrow> string \<Rightarrow> string \<Rightarrow> 'k world \<Rightarrow> bool" where
  "installed pf g want digest d w \<longleftrightarrow>
     w_files w (managed_path pf g) = Some \<lparr>f_data = d, f_perm = 493, f_synced = True\<rparr> \<and>
     (\<exists>y pv. w_files w (provenance_path g) = Some y \<and>
        unmarshal (dec_struct provenance_fields) (f_data y) zero_provenance = (pv, True) \<and>
        pv_binary_sha256 pv = hex_text (sha256 d) \<and> pv_version pv = cf_version (mg_cfg g) \<and> pv_asset pv = want \<and>
        pv_release_digest pv = to_lower digest)"

lemma installed_cong:
  "w_files w' (managed_path pf g) = w_files w (managed_path pf g) \<Longrightarrow> w_files w' (provenance_path g) = w_files w (provenance_path g) \<Longrightarrow>
     installed pf g want digest d w' = installed pf g want digest d w"
  by (simp add: installed_def)

lemma store_verified_ok:
  assumes "store_verified m (managed_path pf g) want digest found g w = (Inr p, g', w')"
  shows "p = managed_path pf g" "w_requests w' = w_requests w"
    "\<exists>y. w_files w found = Some y \<and> installed pf g want digest (f_data y) w'"
proof -
  obtain d w1 where 1: "read_file m found w = (Inr d, w1)" and
    rest: "store_verified m (managed_path pf g) want digest found g w =
      (case atomic_write m (managed_path pf g) d 493 w1 of
        (Inl e, w2) \<Rightarrow> (Inl (wrap_err ''install verified managed sing-box: '' e), g, w2)
      | (Inr _, w2) \<Rightarrow>
     (case sha256_stored m (managed_path pf g) w2 of (Inl e, w3) \<Rightarrow> (Inl e, g, w3) | (Inr hash, w3) \<Rightarrow>
     (let (t, w4) = now m w3;
          prov = \<lparr>pv_version = cf_version (mg_cfg g), pv_asset = want, pv_release_digest = to_lower digest,
                  pv_binary_sha256 = hash, pv_verified_at = rfc3339_seconds t\<rparr>
      in case atomic_write m (provenance_path g) (marshal_indent (enc_provenance prov) @ nl) 384 w4 of
           (Inl e, w5) \<Rightarrow> (Inl (wrap_err ''write sing-box provenance: '' e), g, w5)
         | (Inr _, w5) \<Rightarrow>
             (Inr (managed_path pf g), log_msg ''info'' (''verified and installed managed sing-box '' @ cf_version (mg_cfg g)) g, w5))))"
    using assms by (auto simp: store_verified_def split: prod.splits sum.splits)
  obtain y where y: "w_files w found = Some y" "d = f_data y" using read_file_ok [OF 1] by blast
  obtain w2 where 2: "atomic_write m (managed_path pf g) d 493 w1 = (Inr (), w2)"
    using assms rest by (auto split: prod.splits sum.splits)
  obtain hash w3 where 3: "sha256_stored m (managed_path pf g) w2 = (Inr hash, w3)"
    using assms rest 2 by (auto split: prod.splits sum.splits)
  let ?prov = "\<lparr>pv_version = cf_version (mg_cfg g), pv_asset = want, pv_release_digest = to_lower digest,
                  pv_binary_sha256 = hash, pv_verified_at = rfc3339_seconds (m_clock m (w_tick w3))\<rparr>"
  have 4: "p = managed_path pf g \<and> atomic_write m (provenance_path g) (marshal_indent (enc_provenance ?prov) @ nl) 384 (tick w3) = (Inr (), w')"
    using assms rest 2 3 by (auto simp: now_def Let_def split: prod.splits sum.splits)
  note a2 = atomic_write_ok [OF 2] and a4 = atomic_write_ok [OF 4 [THEN conjunct2]]
  have h: "hash = hex_text (sha256 d)" "w3 = tick w2" using sha256_storedD [OF 3] a2(1) by auto
  have "w_files w' (managed_path pf g) = Some \<lparr>f_data = d, f_perm = 493, f_synced = True\<rparr>"
    using a4(2) [of "managed_path pf g"] a2(1) h install_paths_distinct by simp
  then show "\<exists>y. w_files w found = Some y \<and> installed pf g want digest (f_data y) w'"
    using y a4(1) h provenance_round_trip [of ?prov] by (auto simp: installed_def)
  show "p = managed_path pf g" using 4 by simp
  show "w_requests w' = w_requests w"
    using file_callD(1) [OF 1] atomic_write_env [OF 2] atomic_write_env [OF 4 [THEN conjunct2]] h
    by (simp add: same_env_def outs_def)
qed

lemma remove_allD: "remove_all m d w = (r, w') \<Longrightarrow> same_env w w' \<and>
    ((\<exists>t. m_fault m t \<noteq> None) \<and> w_files w' = w_files w \<or> w_files w' = (\<lambda>p. if below d p then None else w_files w p))"
  by (auto simp: remove_all_def fault_now_def split: option.splits)

lemma remove_file_other: "remove_file m p w = (r, w') \<Longrightarrow> same_env w w' \<and> (\<forall>q. q \<noteq> p \<longrightarrow> w_files w' q = w_files w q)"
  by (auto simp: remove_file_def split: option.splits)

text \<open>The source of an installed binary: an entry of the archive, or a file that was left in
  the extraction directory because removing it failed.\<close>

definition binary_source :: "'k machine \<Rightarrow> platform \<Rightarrow> manager \<Rightarrow> string \<Rightarrow> string \<Rightarrow> fs \<Rightarrow> string \<Rightarrow> bool" where
  "binary_source m pf g want archive before d \<longleftrightarrow>
     (\<exists>e\<in>set (archive_entries m want archive). d = ae_data e \<and> inside (extract_dir g) (entry_path (extract_dir g) e) \<and>
        last (split_char slash (entry_path (extract_dir g) e)) = executable_name pf) \<or>
     (\<exists>t. m_fault m t \<noteq> None) \<and> (\<exists>q y. inside (extract_dir g) q \<and> before q = Some y \<and> d = f_data y)"

lemma install_unpacked_ok:
  assumes "install_unpacked pf m (extract_dir g) archive (managed_path pf g) want digest g w = (Inr p, g', w')"
    and archive: "w_files w archive = Some a" "\<not> below (extract_dir g) archive"
  shows "p = managed_path pf g" "w_requests w' = w_requests w"
    "\<exists>d. installed pf g want digest d w' \<and> binary_source m pf g want (f_data a) (w_files w) d"
proof -
  let ?tmp = "extract_dir g"
  obtain r0 w0 where 0: "remove_all m ?tmp w = (r0, w0)" by fastforce
  obtain u w1 where 1: "mkdir_all m ?tmp w0 = (u, w1)" by fastforce
  note w1 = mkdir_allD [OF 1]
  obtain w2 where 2: "extract_archive m want archive ?tmp w1 = (None, w2)"
    using assms(1) 0 1 by (auto simp: install_unpacked_def Let_def split: sum.splits prod.splits option.splits)
  obtain found w3 where 3: "find_file m ?tmp (executable_name pf) w2 = (Inr found, w3)"
    using assms(1) 0 1 2 by (auto simp: install_unpacked_def Let_def split: sum.splits prod.splits)
  obtain r4 g4 w4 where 4: "store_verified m (managed_path pf g) want digest found g w3 = (r4, g4, w4)" by (metis prod_cases3)
  obtain r5 w5 where 5: "remove_all m ?tmp w4 = (r5, w5)" by fastforce
  have r: "r4 = Inr p \<and> w' = w5"
    using assms(1) 0 1 2 3 4 5 by (auto simp: install_unpacked_def Let_def split: sum.splits)
  note s = store_verified_ok [OF 4 [unfolded r [THEN conjunct1]]] and f = find_file_ok [OF 3]
  note o0 = remove_allD [OF 0] and o5 = remove_allD [OF 5]
  have a0: "w_files w0 archive = Some a" using o0 archive by auto
  from 2 have x: "same_env w1 w2"
      "\<forall>q. w_files w2 q = w_files w1 q \<or> from_entry ?tmp (archive_entries m want (f_data a)) q (w_files w2 q)"
    using a0 w1 by (cases rule: extract_archive_cases; auto)+
  obtain y where y: "w_files w3 found = Some y" "installed pf g want digest (f_data y) w4" using s(3) by blast
  have in_tmp: "inside ?tmp found" "below ?tmp found" using f(3) by (simp_all add: inside_extract below_def)
  have "binary_source m pf g want (f_data a) (w_files w) (f_data y)"
  proof (cases "w_files w2 found = w_files w1 found")
    case True
    then have "(\<exists>t. m_fault m t \<noteq> None) \<and> w_files w found = Some y"
      using o0 w1 y(1) f(1) in_tmp(2) by auto
    then show ?thesis using in_tmp(1) unfolding binary_source_def by blast
  next
    case False
    then have "from_entry ?tmp (archive_entries m want (f_data a)) found (w_files w2 found)" using x by metis
    then show ?thesis using y(1) f(1,4) by (fastforce simp: from_entry_def binary_source_def)
  qed
  moreover have "installed pf g want digest (f_data y) w'"
    using y(2) o5 r install_not_below(1,2) installed_cong [of w' pf g w4] by auto
  ultimately show "\<exists>d. installed pf g want digest d w' \<and> binary_source m pf g want (f_data a) (w_files w) d" by blast
  show "p = managed_path pf g" using s(1) .
  show "w_requests w' = w_requests w" using s(2) r o0 o5 w1 x(1) f(1) by (simp add: same_env_def outs_def)
qed


lemma log_msg_paths [simp]:
  "managed_path pf (log_msg l t g) = managed_path pf g" "provenance_path (log_msg l t g) = provenance_path g"
  "extract_dir (log_msg l t g) = extract_dir g" "verified_archive_path (log_msg l t g) a = verified_archive_path g a"
  "installed pf (log_msg l t g) want digest d = installed pf g want digest d"
  by (simp_all add: managed_path_def provenance_path_def extract_dir_def verified_archive_path_def installed_def fun_eq_iff)

lemma binary_source_log [simp]: "binary_source m pf (log_msg l t g) = binary_source m pf g"
  by (intro ext) (simp add: binary_source_def)

lemma download_fileD:
  assumes "download_file m url path g w = (None, g', w')"
  shows "w_requests w' = w_requests w @ [get_request url]" "\<forall>q. q \<noteq> path \<longrightarrow> w_files w' q = w_files w q"
    "\<exists>l t. g' = log_msg l t g"
proof -
  obtain a w1 where 1: "http_do m (get_request url) w = (Inr a, w1)"
    using assms by (auto simp: download_file_def split: prod.splits sum.splits)
  obtain u w2 where 2: "open_trunc m path 438 w1 = (u, w2)" by fastforce
  obtain v w3 where 3: "write_handle m path (hr_body a) w2 = (v, w3)" by fastforce
  note d = http_doD [OF 1] open_remove_env(2) [OF 2] open_remove_files(2) [OF 2] file_call_envD(6) [OF 3]
  have f: "q \<noteq> path \<Longrightarrow> w_files w3 q = w_files w2 q" for q
    using 3 by (auto simp: write_handle_def split: option.splits)
  have r: "w' = tick w3 \<and> (\<exists>l t. g' = log_msg l t g)"
    using assms 1 2 3 by (auto simp: download_file_def split: sum.splits if_splits)
  then show "w_requests w' = w_requests w @ [get_request url]" "\<exists>l t. g' = log_msg l t g"
    using d by (auto simp: same_env_def outs_def)
  show "\<forall>q. q \<noteq> path \<longrightarrow> w_files w' q = w_files w q" using r d f by auto
qed

lemma check_archiveD:
  "check_archive m archive want digest w = (None, w') \<Longrightarrow>
     w' = tick w \<and> (\<exists>x. w_files w archive = Some x \<and> equal_fold (hex_text (sha256 (f_data x))) (trim_prefix (to_lower digest) ''sha256:''))"
  by (auto simp: check_archive_def Let_def split: prod.splits sum.splits if_splits dest!: sha256_storedD)

lemma fetch_releaseD:
  "fetch_release m pre ver w = (Inr rel, w') \<Longrightarrow>
     w_files w' = w_files w \<and> w_requests w' = w_requests w @ [get_request (release_url ver)]"
  by (auto simp: fetch_release_def split: prod.splits sum.splits if_splits dest!: http_doD)

definition fresh_install :: "'k machine \<Rightarrow> platform \<Rightarrow> manager \<Rightarrow> string \<Rightarrow> 'k world \<Rightarrow> 'k world \<Rightarrow> bool" where
  "fresh_install m pf g want w w' \<longleftrightarrow>
     (\<exists>rel url raw archive d. select_asset want rel = (url, raw) \<and>
        w_requests w' = w_requests w @ [get_request (release_url (cf_version (mg_cfg g))), get_request url] \<and>
        has_prefix (to_lower (trim_space raw)) ''sha256:'' \<and>
        equal_fold (hex_text (sha256 archive)) (trim_prefix (to_lower (trim_space raw)) ''sha256:'') \<and>
        installed pf g want (trim_space raw) d w' \<and> binary_source m pf g want archive (w_files w) d)"

lemma install_release_ok:
  assumes "install_release pf m (managed_path pf g) want g w = (Inr p, g', w')" "slash \<notin> set want" "want \<noteq> ''extract''"
  shows "p = managed_path pf g \<and> fresh_install m pf g want w w'"
proof -
  let ?archive = "verified_archive_path g want"
  obtain rel w1 where 1: "fetch_release m ''fetch sing-box release metadata: '' (cf_version (mg_cfg g)) w = (Inr rel, w1)"
    using assms(1) by (auto simp: install_release_def split: prod.splits sum.splits)
  obtain url raw where a: "select_asset want rel = (url, raw)" by fastforce
  have dg: "has_prefix (to_lower (trim_space raw)) ''sha256:''"
    using assms(1) 1 a by (auto simp: install_release_def Let_def split: if_splits)
  obtain g1 w2 where 2: "download_file m url ?archive g w1 = (None, g1, w2)"
    using assms(1) 1 a by (auto simp: install_release_def Let_def split: if_splits prod.splits option.splits)
  obtain w3 where 3: "check_archive m ?archive want (trim_space raw) w2 = (None, w3)"
    using assms(1) 1 a 2 by (auto simp: install_release_def Let_def split: if_splits prod.splits option.splits)
  obtain r4 g4 w4 where 4: "install_unpacked pf m (extract_dir g) ?archive (managed_path pf g) want (trim_space raw) g1 w3 = (r4, g4, w4)"
    by (metis prod_cases3)
  obtain r5 w5 where 5: "remove_file m ?archive w4 = (r5, w5)" by fastforce
  have r: "r4 = Inr p \<and> w' = w5"
    using assms(1) 1 a 2 3 4 5 by (auto simp: install_release_def Let_def split: if_splits)
  note f = fetch_releaseD [OF 1] and d = download_fileD [OF 2] and c = check_archiveD [OF 3] and o5 = remove_file_other [OF 5]
  obtain l t where g1: "g1 = log_msg l t g" using d(3) by blast
  obtain x where x: "w_files w3 ?archive = Some x" "w3 = tick w2"
      "equal_fold (hex_text (sha256 (f_data x))) (trim_prefix (to_lower (trim_space raw)) ''sha256:'')"
    using c by auto
  note nb = install_not_below(3) [of want g, OF assms(2,3)]
  have u: "p = managed_path pf g1" "w_requests w4 = w_requests w3"
    "\<exists>d. installed pf g1 want (trim_space raw) d w4 \<and> binary_source m pf g1 want (f_data x) (w_files w3) d"
    using install_unpacked_ok [of pf m g1 ?archive want "trim_space raw" w3 p g4 w4 x] 4 r x(1) nb by (simp_all add: g1)
  then obtain b where b: "installed pf g want (trim_space raw) b w4" "binary_source m pf g want (f_data x) (w_files w3) b"
    by (auto simp: g1)
  have "q \<noteq> ?archive" if "inside (extract_dir g) q" for q
    using that nb by (auto simp: inside_extract below_def)
  then have "binary_source m pf g want (f_data x) (w_files w) b"
    using b(2) x(2) d(2) f unfolding binary_source_def by fastforce
  moreover have "installed pf g want (trim_space raw) b w'"
    using b(1) r o5 installed_cong [of w' pf g w4] install_paths_distinct(4,5) [OF assms(2)] by auto
  moreover have "w_requests w' = w_requests w @ [get_request (release_url (cf_version (mg_cfg g))), get_request url]"
    using r u(2) x(2) d(1) f o5 by (simp add: same_env_def outs_def)
  ultimately show ?thesis using a dg x(3) u(1) unfolding fresh_install_def g1 log_msg_paths by blast
qed

lemma read_fileD:
  "read_file m p w = (r, w') \<Longrightarrow> w' = tick w \<and> (\<forall>d. r = Inr d \<longrightarrow> (\<exists>x. w_files w p = Some x \<and> f_data x = d))"
  using file_callD(1) [of m p w r w'] read_file_ok [of m p w] by auto

lemma verified_managedD:
  "verified_managed_binary m g path asset ver w = ((True, d), w') \<Longrightarrow> w' = tick (tick w) \<and>
     (\<exists>x y pv. w_files w path = Some x \<and> w_files w (provenance_path g) = Some y \<and>
        unmarshal (dec_struct provenance_fields) (f_data y) zero_provenance = (pv, True) \<and>
        pv_version pv = ver \<and> pv_asset pv = asset \<and> equal_fold (hex_text (sha256 (f_data x))) (pv_binary_sha256 pv))"
  by (auto simp: verified_managed_binary_def Let_def split: prod.splits sum.splits if_splits
      dest!: sha256_storedD read_fileD)

definition reused_install :: "platform \<Rightarrow> manager \<Rightarrow> string \<Rightarrow> 'k world \<Rightarrow> 'k world \<Rightarrow> bool" where
  "reused_install pf g want w w' \<longleftrightarrow> w_files w' = w_files w \<and> w_requests w' = w_requests w \<and>
     (\<exists>x y pv. w_files w (managed_path pf g) = Some x \<and> w_files w (provenance_path g) = Some y \<and>
        unmarshal (dec_struct provenance_fields) (f_data y) zero_provenance = (pv, True) \<and>
        pv_version pv = cf_version (mg_cfg g) \<and> pv_asset pv = want \<and>
        equal_fold (hex_text (sha256 (f_data x))) (pv_binary_sha256 pv))"

lemma binary_versionD: "binary_version m p w = (v, w') \<Longrightarrow> w_files w' = w_files w \<and> outs w' = outs w"
  by (auto simp: binary_version_def split: if_splits prod.splits option.splits dest!: exec_cmdD)

lemma reuse_managedD:
  assumes "reuse_managed m (managed_path pf g) want g w = (b, g', w')"
  shows "w_files w' = w_files w" "w_requests w' = w_requests w" "g' = g \<or> (\<exists>l t. g' = log_msg l t g)"
    "b \<longrightarrow> reused_install pf g want w w'"
proof -
  obtain ex w1 where 1: "file_exists m (managed_path pf g) w = (ex, w1)" by fastforce
  obtain v w2 where 2: "binary_version m (managed_path pf g) w1 = (v, w2)" by fastforce
  obtain k d w3 where 3: "verified_managed_binary m g (managed_path pf g) want (cf_version (mg_cfg g)) w2 = ((k, d), w3)"
    by (metis surj_pair)
  have w3: "w_files w3 = w_files w2 \<and> w_requests w3 = w_requests w2"
    using 3 by (auto simp: verified_managed_binary_def Let_def split: prod.splits sum.splits if_splits
      dest!: sha256_storedD file_callD(1))
  note o = file_existsD [OF 1] binary_versionD [OF 2]
  show f: "w_files w' = w_files w" "w_requests w' = w_requests w" "g' = g \<or> (\<exists>l t. g' = log_msg l t g)"
    using assms 1 2 3 o w3 by (auto simp: reuse_managed_def Let_def outs_def split: if_splits bool.splits)
  show "b \<longrightarrow> reused_install pf g want w w'"
  proof
    assume b
    then have k: k using assms 1 2 3 by (auto simp: reuse_managed_def Let_def split: if_splits bool.splits)
    show "reused_install pf g want w w'"
      using verified_managedD [OF 3 [unfolded eqTrueI [OF k]]] f o unfolding reused_install_def by auto
  qed
qed

section \<open>Properties\<close>

text \<open>C21: extraction stays inside its directory.  Whatever entries an archive holds, extracting
  it runs no command, and every file it creates or changes lies strictly below the target
  directory, without a parent component in its path when the directory is absolute.\<close>

theorem extraction_confined:
  assumes "extract_archive m want src dst w = (r, w')"
  shows "same_env w w' \<and>
    (\<forall>q. w_files w' q \<noteq> w_files w q \<longrightarrow> inside dst q \<and> (path_is_abs dst \<longrightarrow> ''..'' \<notin> set (split_char slash q)))"
proof -
  have entry: "same_env w w' \<and> (\<forall>q. w_files w' q \<noteq> w_files w q \<longrightarrow> (\<exists>e. q = entry_path dst e \<and> inside dst q))"
    using assms by (cases rule: extract_archive_cases; fastforce)
  have "''..'' \<notin> set (split_char slash (entry_path dst e))" if "path_is_abs dst" for e
  proof -
    have d: "has_prefix dst ''/''" "dst \<noteq> []" using that by (auto simp: path_is_abs_def has_prefix_def)
    then have "\<exists>p. entry_path dst e = path_clean p \<and> has_prefix p ''/''"
      by (cases dst) (auto simp: entry_path_def path_join_def has_prefix_def)
    then show ?thesis using clean_no_parent by auto
  qed
  with entry show ?thesis by blast
qed

definition zip_machine :: "unit machine" where
  "zip_machine = quiet_machine\<lparr>m_unzip := (\<lambda>_. Inr
     [\<lparr>ae_name = ''../../etc/passwd'', ae_kind = Reg_entry, ae_mode = 420, ae_open = None, ae_data = ''x'', ae_error = None\<rparr>])\<rparr>"

lemma extraction_confined_witness:
  "w_files (snd (extract_archive zip_machine ''a.zip'' ''/r/a.zip'' ''/r/extract'' (world_of [(''/r/a.zip'', ''PK'')] ()))) ''/etc/passwd'' = None"
proof -
  let ?w = "world_of [(''/r/a.zip'', ''PK'')] () :: unit world"
  obtain r w' where e: "extract_archive zip_machine ''a.zip'' ''/r/a.zip'' ''/r/extract'' ?w = (r, w')" by fastforce
  have "\<not> inside ''/r/extract'' ''/etc/passwd''" by code_simp
  then have "w_files w' ''/etc/passwd'' = w_files ?w ''/etc/passwd''" using extraction_confined [OF e] by blast
  then show ?thesis by (simp add: e) (simp add: world_of_def)
qed

lemma fresh_install_log [simp]: "fresh_install m pf (log_msg l t g) = fresh_install m pf g"
  by (intro ext) (simp only: fresh_install_def log_msg_paths log_msg_simps binary_source_log)

text \<open>A managed binary of the wanted version with its provenance is reused.\<close>

lemma reuse_succeeds:
  assumes "reliable m" "pf = Windows \<or> pf = Linux"
    and "\<And>k. fst (m_exec m [managed_path pf g, ''version''] k) = (out, None)"
    and "version_contains (takeWhile (\<lambda>c. c \<noteq> CHR 0x0A) (trim_space out)) (cf_version (mg_cfg g))"
    and "w_files w (managed_path pf g) = Some x" "w_files w (provenance_path g) = Some y"
    and "f_data y = marshal_indent (enc_provenance pv) @ nl"
    and "pv_version pv = cf_version (mg_cfg g)" "pv_asset pv = asset_name_for (goos pf) arch (cf_version (mg_cfg g))"
    and "pv_binary_sha256 pv = hex_text (sha256 (f_data x))" "pv_release_digest pv \<noteq> []"
  shows "fst (install_verified pf arch m g w) = Inr (managed_path pf g)"
proof -
  have hash: "hex_text (sha256 (f_data x)) \<noteq> []"
    using length_hex_sha256 [of "f_data x"] by (metis list.size(3) zero_neq_numeral)
  have nonempty: "managed_path pf g \<noteq> []" by (simp add: managed_path_def)
  have ex: "file_exists m (managed_path pf g) w = (True, tick w)"
    using assms(1,5) by (simp add: file_exists_def stat_file_def)
  obtain w2 where v: "binary_version m (managed_path pf g) (tick w) = (takeWhile (\<lambda>c. c \<noteq> CHR 0x0A) (trim_space out), w2)"
      "w_files w2 = w_files w"
  proof -
    obtain r w2 where e: "exec_cmd m [managed_path pf g, ''version''] (tick w) = (r, w2)" by fastforce
    then have "r = (out, None)" using assms(3) by (auto simp: exec_cmd_def Let_def split: prod.splits) (metis fst_conv)
    then show thesis using that [of w2] e exec_cmdD [OF e] nonempty by (simp add: binary_version_def)
  qed
  have "fst (verified_managed_binary m g (managed_path pf g) (asset_name_for (goos pf) arch (cf_version (mg_cfg g))) (cf_version (mg_cfg g)) w2) =
      (True, ''version='' @ cf_version (mg_cfg g) @ '' sha256='' @ hex_text (sha256 (f_data x)))"
    using assms(1,5-11) v(2) hash by (simp add: verified_managed_binary_def read_file_def sha256_stored_def provenance_round_trip equal_fold_refl)
  then show ?thesis
    using assms(2,4) ex v(1)
    by (auto simp: install_verified_def reuse_managed_def Let_def split: prod.splits bool.splits)
qed


definition sample_manager :: manager where
  "sample_manager = new_manager (config.make ''/r'' [] 0 [] [] [])"

definition versioned_machine :: "unit machine" where
  "versioned_machine = quiet_machine\<lparr>m_exec := (\<lambda>_ k. ((''sing-box version 1.14.0'', None), k))\<rparr>"

definition sample_provenance :: provenance where
  "sample_provenance = \<lparr>pv_version = ''1.14.0'', pv_asset = ''sing-box-1.14.0-linux-amd64.tar.gz'', pv_release_digest = ''sha256:00'',
     pv_binary_sha256 = hex_text (sha256 ''elf''), pv_verified_at = ''2026-01-02T03:04:05Z''\<rparr>"

lemma sample_paths:
  "managed_path Linux sample_manager = ''/r/bin/sing-box''" "provenance_path sample_manager = ''/r/bin/sing-box.provenance.json''"
  "cf_version (mg_cfg sample_manager) = ''1.14.0''" "asset_name_for ''linux'' ''amd64'' ''1.14.0'' = ''sing-box-1.14.0-linux-amd64.tar.gz''"
  "version_contains ''sing-box version 1.14.0'' ''1.14.0''"
  by code_simp+

definition sample_disk :: "unit world" where
  "sample_disk = world_of [(''/r/bin/sing-box'', ''elf''),
     (''/r/bin/sing-box.provenance.json'', marshal_indent (enc_provenance sample_provenance) @ nl)] ()"

lemma sample_reuse: "fst (install_verified Linux ''amd64'' versioned_machine sample_manager sample_disk) = Inr (managed_path Linux sample_manager)"
proof (rule reuse_succeeds [where out = "''sing-box version 1.14.0''" and pv = sample_provenance])
  show "reliable versioned_machine" by (simp add: reliable_def versioned_machine_def quiet_machine_def)
  show "version_contains (takeWhile (\<lambda>c. c \<noteq> CHR 0x0A) (trim_space ''sing-box version 1.14.0'')) (cf_version (mg_cfg sample_manager))"
    by code_simp
  show "w_files sample_disk (managed_path Linux sample_manager) = Some \<lparr>f_data = ''elf'', f_perm = 384, f_synced = True\<rparr>"
    "w_files sample_disk (provenance_path sample_manager) = Some \<lparr>f_data = marshal_indent (enc_provenance sample_provenance) @ nl, f_perm = 384, f_synced = True\<rparr>"
    by (simp_all add: sample_paths sample_disk_def world_of_def)
qed (simp_all add: sample_paths versioned_machine_def sample_provenance_def)


end
