(* ===== verification/Observability.thy ===== *)
theory Observability imports SocketOwners Install begin

text \<open>
  Observing the running data plane: the secret of the observation API and the connection
  snapshot of \<^verbatim>\<open>sing-box\<close> (\<^verbatim>\<open>observability.go\<close>), the protection of sensitive files
  (\<^verbatim>\<open>sensitive_file_{unix,windows}.go\<close>), the ownership of the managed listener
  (\<^verbatim>\<open>listener.go\<close>), and the attestation of routes by process path and by PID
  (\<^verbatim>\<open>pid_attestation.go\<close>).
\<close>

section \<open>Sensitive files and the API secret\<close>

definition verify_file_acl :: "'k machine \<Rightarrow> string \<Rightarrow> string \<Rightarrow> string \<Rightarrow> 'k world \<Rightarrow> gerr option \<times> 'k world" where
  "verify_file_acl m icacls path user w =
     (case exec_cmd m [icacls, path] w of
        ((out, Some e), w1) \<Rightarrow> (Some (wrap_out ''read hardened sensitive-file ACL: '' e out), w1)
      | ((out, None), w1) \<Rightarrow>
          (if str_contains out ''(I)'' then (Some (new_err ''sensitive-file ACL still contains inherited permissions''), w1)
           else if \<not> str_contains (to_lower out) (to_lower user)
           then (Some (new_err (''hardened sensitive-file ACL does not show current user '' @ go_quote user @ '': '' @ out)), w1)
           else (None, w1)))"

definition harden_windows :: "'k machine \<Rightarrow> string \<Rightarrow> 'k world \<Rightarrow> gerr option \<times> 'k world" where
  "harden_windows m path w =
     (case stat_file m path w of
        (Inl e, w1) \<Rightarrow> ((if err_kind e = NotExist then None else Some e), w1)
      | (Inr _, w1) \<Rightarrow>
          (case m_username m of
             Inl e \<Rightarrow> (Some (wrap_err ''resolve current Windows user: '' e), w1)
           | Inr user \<Rightarrow>
               if user = [] then (Some (new_err ''resolve current Windows user: %!w(<nil>)''), w1)
               else (case look_path m ''icacls.exe'' w1 of
                   (None, w2) \<Rightarrow> (Some (new_err ''icacls.exe is required for sensitive-file ACL hardening''), w2)
                 | (Some icacls, w2) \<Rightarrow>
                     (case exec_cmd m [icacls, path, ''/inheritance:r'', ''/grant:r'', user @ '':F''] w2 of
                        ((out, Some e), w3) \<Rightarrow> (Some (wrap_out ''icacls ACL hardening failed: '' e out), w3)
                      | ((out, None), w3) \<Rightarrow> verify_file_acl m icacls path user w3))))"

definition harden_unix :: "'k machine \<Rightarrow> string \<Rightarrow> 'k world \<Rightarrow> gerr option \<times> 'k world" where
  "harden_unix m path w =
     (case chmod_file m path 384 w of
        (Inl e, w1) \<Rightarrow> ((if err_kind e = NotExist then None else Some e), w1)
      | (Inr _, w1) \<Rightarrow> (None, w1))"

definition harden_sensitive_file :: "platform \<Rightarrow> 'k machine \<Rightarrow> string \<Rightarrow> 'k world \<Rightarrow> gerr option \<times> 'k world" where
  "harden_sensitive_file pf = (if pf = Windows then harden_windows else harden_unix)"

definition api_secret_path :: "string \<Rightarrow> string" where
  "api_secret_path root = path_join root ''sing-box-api-secret''"

text \<open>A secret of 32 random bytes is made once; an existing one is kept, and a short one is
  refused rather than replaced.\<close>

definition create_api_secret :: "platform \<Rightarrow> 'k machine \<Rightarrow> string \<Rightarrow> 'k world \<Rightarrow> string res \<times> 'k world" where
  "create_api_secret pf m path w =
     (case random_bytes m 32 w of
        (Inl e, w1) \<Rightarrow> (Inl (wrap_err ''generate sing-box API secret: '' e), w1)
      | (Inr raw, w1) \<Rightarrow>
          (let secret = hex_text raw in
           case atomic_write m path (secret @ nl) 384 w1 of
             (Inl e, w2) \<Rightarrow> (Inl (wrap_err ''persist sing-box API secret: '' e), w2)
           | (Inr _, w2) \<Rightarrow>
               (case harden_sensitive_file pf m path w2 of
                  (Some e, w3) \<Rightarrow> (Inl (wrap_err ''harden sing-box API secret: '' e), w3)
                | (None, w3) \<Rightarrow>
                    (case harden_sensitive_file pf m (previous_good path) w3 of
                       (Some e, w4) \<Rightarrow> (Inl (wrap_err ''harden previous sing-box API secret: '' e), w4)
                     | (None, w4) \<Rightarrow> (Inr secret, w4)))))"

definition ensure_api_secret :: "platform \<Rightarrow> 'k machine \<Rightarrow> string \<Rightarrow> 'k world \<Rightarrow> string res \<times> 'k world" where
  "ensure_api_secret pf m root w =
     (let path = api_secret_path root in
      case read_file m path w of
        (Inr b, w1) \<Rightarrow>
          (let secret = trim_space b in
           if length secret \<ge> 32
           then (case harden_sensitive_file pf m path w1 of
               (Some e, w2) \<Rightarrow> (Inl (wrap_err ''harden existing sing-box API secret: '' e), w2)
             | (None, w2) \<Rightarrow> (Inr secret, w2))
           else (Inl (new_err ''existing sing-box API secret is unexpectedly short''), w1))
      | (Inl e, w1) \<Rightarrow> if err_kind e \<noteq> NotExist then (Inl e, w1) else create_api_secret pf m path w1)"

definition api_host :: string where "api_host = ''127.0.0.1''"
definition api_port :: int where "api_port = 48766"

definition api_addr :: string where
  "api_addr = join_host_port api_host (itoa api_port)"

definition api_secret :: "'k machine \<Rightarrow> string \<Rightarrow> 'k world \<Rightarrow> string res \<times> 'k world" where
  "api_secret m root w =
     (case read_file m (api_secret_path root) w of
        (Inl e, w1) \<Rightarrow> (Inl e, w1)
      | (Inr b, w1) \<Rightarrow>
          (let secret = trim_space b in
           if length secret < 32 then (Inl (new_err ''sing-box API secret is missing or invalid''), w1) else (Inr secret, w1)))"

section \<open>The managed listener\<close>

definition managed_listener_owned ::
  "platform \<Rightarrow> 'k machine \<Rightarrow> manager \<Rightarrow> 'k world \<Rightarrow> (bool \<times> string) \<times> manager \<times> 'k world" where
  "managed_listener_owned pf m g w =
     (let (pid, g1, w1) = managed_pid m g w; cfg = mg_cfg g1; addr = listen_addr cfg in
      if pid \<le> 0 then ((False, ''managed sing-box process is not running''), g1, w1)
      else (case owns_listener pf m pid (cf_host cfg) (cf_port cfg) w1 of
          (Inl e, w2) \<Rightarrow> ((False, err_text e), g1, w2)
        | (Inr (owned, detail), w2) \<Rightarrow>
            if \<not> owned
            then ((False, ''configured listener '' @ addr @ '' is not owned by managed sing-box: '' @ detail), g1, w2)
            else (case dial_tcp m addr w2 of
                (Some e, w3) \<Rightarrow> ((False, ''managed listener ownership found but connect failed: '' @ err_text e), g1, w3)
              | (None, w3) \<Rightarrow> ((True, detail), g1, w3))))"

section \<open>The connections of the data plane\<close>

record connection =
  rc_source :: string
  rc_process :: string
  rc_outbound :: string
  rc_destination :: string
  rc_inbound :: string
  rc_network :: string

definition dash_empty :: "string \<Rightarrow> string" where
  "dash_empty v = (if v = ''-'' then [] else v)"

fun parse_rows :: "int \<Rightarrow> string list \<Rightarrow> connection list res" where
  "parse_rows i [] = Inr []"
| "parse_rows i (raw # rows) =
     (let line = trim_space raw in
      if line = [] then parse_rows (i + 1) rows
      else (case map dash_empty (split_char (CHR 0x09) line) of
          [a, b, c, d, e, f] \<Rightarrow>
            (case parse_rows (i + 1) rows of
               Inl err \<Rightarrow> Inl err
             | Inr rest \<Rightarrow> Inr (\<lparr>rc_source = a, rc_process = b, rc_outbound = c, rc_destination = d, rc_inbound = e, rc_network = f\<rparr> # rest))
        | cells \<Rightarrow> Inl (new_err (''unexpected sing-box API row '' @ itoa (i + 1) @ '': got '' @ itoa (int (length cells)) @ '' columns''))))"

definition parse_runtime_connections :: "string \<Rightarrow> connection list res" where
  "parse_runtime_connections raw = parse_rows 0 (split_char (CHR 0x0A) (replace_crlf raw))"

definition api_connections_cmd :: "string \<Rightarrow> string \<Rightarrow> string list" where
  "api_connections_cmd binary secret =
     [binary, ''api'', ''--url'', ''http://'' @ api_addr, ''--secret'', secret, ''connection'', ''list'',
      ''--columns'', ''source,process,outbound,destination,inbound,network'']"

definition runtime_connections ::
  "platform \<Rightarrow> 'k machine \<Rightarrow> manager \<Rightarrow> 'k world \<Rightarrow> connection list res \<times> manager \<times> 'k world" where
  "runtime_connections pf m g w =
     (let (running, g1, w1) = managed_running m g w;
          (md, g2, w2) = (if running then mode_now m g1 w1 else (Mode_off, g1, w1))
      in if md \<noteq> Mode_tunnel then (Inl (new_err ''Agent Tunnel is not running''), g2, w2)
      else (case find_sing_box pf m g2 w2 of (binary, w3) \<Rightarrow>
        if binary = [] then (Inl (new_err ''managed sing-box executable not found''), g2, w3)
        else (case api_secret m (cf_root (mg_cfg g2)) w3 of
            (Inl e, w4) \<Rightarrow> (Inl e, g2, w4)
          | (Inr secret, w4) \<Rightarrow>
              (case exec_output m (api_connections_cmd binary secret) w4 of
                 ((out, Some (e, Some stderr)), w5) \<Rightarrow>
                   (Inl (new_err (''sing-box API connection snapshot failed: '' @ trim_space stderr)), g2, w5)
               | ((out, Some (e, None)), w5) \<Rightarrow> (Inl (wrap_err ''sing-box API connection snapshot failed: '' e), g2, w5)
               | ((out, None), w5) \<Rightarrow> (parse_runtime_connections out, g2, w5)))))"

section \<open>Attestation by process path\<close>

definition slashed_lower :: "string \<Rightarrow> string" where
  "slashed_lower p = to_lower (replace_char backslash slash p)"

definition antigravity_name :: "string \<Rightarrow> bool" where
  "antigravity_name p \<longleftrightarrow> str_contains p ''antigravity'' \<or> str_contains p ''language_server'' \<or> str_contains p ''language-server''"

definition looks_like_antigravity :: "string \<Rightarrow> bool" where
  "looks_like_antigravity path \<longleftrightarrow>
     (let p = slashed_lower path in antigravity_name p \<or> has_suffix p ''/agy'' \<or> has_suffix p ''/agy.exe'')"

definition known_process_path :: "string \<Rightarrow> bool" where
  "known_process_path path \<longleftrightarrow>
     (let p = slashed_lower path;
          base = (case last_index p slash of Some i \<Rightarrow> drop (Suc i) p | None \<Rightarrow> p)
      in antigravity_name p \<or> base = ''agy'' \<or> base = ''agy.exe'')"

record route_attestation =
  at_available :: bool
  at_observed_at :: string
  at_connections :: "connection list"
  at_agents :: int
  at_vpn_direct :: int
  at_unexpected :: int
  at_unknown :: "string list"
  at_detail :: string

definition unobserved :: "string \<Rightarrow> route_attestation" where
  "unobserved t = \<lparr>at_available = False, at_observed_at = t, at_connections = [], at_agents = 0, at_vpn_direct = 0,
     at_unexpected = 0, at_unknown = [], at_detail = []\<rparr>"

definition count_connection :: "connection \<Rightarrow> route_attestation \<Rightarrow> route_attestation" where
  "count_connection c r =
     (if \<not> looks_like_antigravity (rc_process c) then r
      else (let r1 = r\<lparr>at_agents := at_agents r + 1\<rparr>;
                r2 = (if rc_outbound c = ''vpn-direct'' then r1\<lparr>at_vpn_direct := at_vpn_direct r1 + 1\<rparr>
                      else r1\<lparr>at_unexpected := at_unexpected r1 + 1\<rparr>)
            in if \<not> known_process_path (rc_process c) \<and> rc_process c \<noteq> [] \<and> rc_process c \<notin> set (at_unknown r2)
               then r2\<lparr>at_unknown := at_unknown r2 @ [rc_process c]\<rparr> else r2))"

definition route_detail :: "route_attestation \<Rightarrow> string" where
  "route_detail r =
     (if at_agents r = 0 then ''sing-box API is healthy, but no live Antigravity connection is currently observable''
      else if at_unexpected r > 0
      then itoa (at_unexpected r) @ ''/'' @ itoa (at_agents r) @ '' live Antigravity connections are not using vpn-direct''
      else ''all '' @ itoa (at_agents r) @ '' observed Antigravity connections use vpn-direct'')"

definition attest_connections :: "string \<Rightarrow> connection list \<Rightarrow> route_attestation" where
  "attest_connections t cs =
     (let r = fold count_connection cs ((unobserved t)\<lparr>at_available := True, at_connections := cs\<rparr>)
      in r\<lparr>at_detail := route_detail r\<rparr>)"

definition attest_agent_routes ::
  "platform \<Rightarrow> 'k machine \<Rightarrow> manager \<Rightarrow> 'k world \<Rightarrow> route_attestation \<times> manager \<times> 'k world" where
  "attest_agent_routes pf m g w =
     (let (t, w1) = now m w in
      case runtime_connections pf m g w1 of
        (Inl e, g1, w2) \<Rightarrow> ((unobserved (t_rfc t))\<lparr>at_detail := err_text e\<rparr>, g1, w2)
      | (Inr cs, g1, w2) \<Rightarrow> (attest_connections (t_rfc t) cs, g1, w2))"

section \<open>Attestation by PID\<close>

record pid_connection =
  pc_connection :: connection
  pc_owners :: "int list"
  pc_ownership :: string
  pc_detail :: string

record pid_attestation =
  pa_available :: bool
  pa_observed_at :: string
  pa_candidates :: "int list"
  pa_connections :: "pid_connection list"
  pa_active :: "int list"
  pa_vpn_direct :: "int list"
  pa_unexpected :: "int list"
  pa_ambiguous :: int
  pa_unresolved :: "string list"
  pa_detail :: string

text \<open>One connection with its owners; the fields \<open>pa_active\<close>, \<open>pa_vpn_direct\<close>, \<open>pa_unexpected\<close> and
  \<open>pa_unresolved\<close> are the sets of the loop until they are sorted.\<close>

definition join_connection :: "connection \<Rightarrow> (int list \<times> string) res \<Rightarrow> pid_attestation \<Rightarrow> pid_attestation" where
  "join_connection c found r =
     (let (owners, detail, ownership) =
        (case found of
           Inl e \<Rightarrow> ([], err_text e, ''unresolved'')
         | Inr (owners, detail) \<Rightarrow>
             (owners, detail, (case owners of [] \<Rightarrow> ''unresolved'' | [_] \<Rightarrow> ''exact'' | _ \<Rightarrow> ''ambiguous'')));
          e = \<lparr>pc_connection = c, pc_owners = owners, pc_ownership = ownership, pc_detail = detail\<rparr>;
          r1 = (case owners of
             [] \<Rightarrow> r
           | [pid] \<Rightarrow> (let r1 = r\<lparr>pa_active := pid # pa_active r\<rparr> in
               if rc_outbound c = ''vpn-direct'' then r1\<lparr>pa_vpn_direct := pid # pa_vpn_direct r1\<rparr>
               else r1\<lparr>pa_unexpected := pid # pa_unexpected r1\<rparr>)
           | _ \<Rightarrow> r\<lparr>pa_ambiguous := pa_ambiguous r + 1\<rparr>);
          r2 = (if ownership = ''unresolved'' \<and> looks_like_antigravity (rc_process c) \<and> rc_process c \<noteq> []
                then r1\<lparr>pa_unresolved := rc_process c # pa_unresolved r1\<rparr> else r1)
      in r2\<lparr>pa_connections := pa_connections r2 @ [e]\<rparr>)"

fun join_connections ::
  "platform \<Rightarrow> 'k machine \<Rightarrow> netstat_cache \<Rightarrow> connection list \<Rightarrow> pid_attestation \<Rightarrow> 'k world \<Rightarrow> pid_attestation \<times> netstat_cache \<times> 'k world" where
  "join_connections pf m nc [] r w = (r, nc, w)"
| "join_connections pf m nc (c # cs) r w =
     (case runtime_connection_owners pf m nc (rc_source c) (rc_network c) (pa_candidates r) w of
        (found, nc1, w1) \<Rightarrow> join_connections pf m nc1 cs (join_connection c found r) w1)"

definition sorted_int_keys :: "int list \<Rightarrow> int list" where
  "sorted_int_keys xs = sorted_keys (filter (\<lambda>v. v > 0) xs)"

definition pid_detail :: "pid_attestation \<Rightarrow> string" where
  "pid_detail r =
     (if pa_unexpected r \<noteq> []
      then itoa (int (length (pa_unexpected r))) @ '' active Antigravity PID(s) have at least one connection outside vpn-direct''
      else if pa_ambiguous r > 0 \<or> pa_unresolved r \<noteq> []
      then ''PID route evidence incomplete: ambiguous='' @ itoa (pa_ambiguous r) @ '' unresolved_agent_paths='' @ itoa (int (length (pa_unresolved r)))
      else if pa_active r = []
      then ''connection tracker is available; supplied Antigravity PIDs currently have no attributable live connections''
      else ''all '' @ itoa (int (length (pa_active r))) @ '' active attributable Antigravity PID(s) use vpn-direct'')"

definition finish_pid_attestation :: "pid_attestation \<Rightarrow> pid_attestation" where
  "finish_pid_attestation r =
     (let r1 = r\<lparr>pa_active := sorted_int_keys (pa_active r), pa_vpn_direct := sorted_int_keys (pa_vpn_direct r),
                pa_unexpected := sorted_int_keys (pa_unexpected r), pa_unresolved := sorted_keys (pa_unresolved r)\<rparr>
      in r1\<lparr>pa_detail := pid_detail r1\<rparr>)"

definition attest_agent_pid_routes ::
  "platform \<Rightarrow> 'k machine \<Rightarrow> netstat_cache \<Rightarrow> int list \<Rightarrow> manager \<Rightarrow> 'k world \<Rightarrow> pid_attestation \<times> netstat_cache \<times> manager \<times> 'k world" where
  "attest_agent_pid_routes pf m nc candidates g w =
     (let (t, w1) = now m w;
          r = \<lparr>pa_available = False, pa_observed_at = t_rfc t, pa_candidates = unique_positive candidates, pa_connections = [],
               pa_active = [], pa_vpn_direct = [], pa_unexpected = [], pa_ambiguous = 0, pa_unresolved = [], pa_detail = []\<rparr>
      in if pa_candidates r = [] then (r\<lparr>pa_detail := ''no Antigravity candidate PIDs supplied''\<rparr>, nc, g, w1)
      else (case runtime_connections pf m g w1 of
          (Inl e, g1, w2) \<Rightarrow> (r\<lparr>pa_detail := err_text e\<rparr>, nc, g1, w2)
        | (Inr cs, g1, w2) \<Rightarrow>
            (let (r1, nc1, w3) = join_connections pf m nc cs (r\<lparr>pa_available := True\<rparr>) w2
             in (finish_pid_attestation r1, nc1, g1, w3))))"

section \<open>The secret stays\<close>


lemma trim_space_line: "list_all (\<lambda>c. \<not> is_space c) s \<Longrightarrow> s \<noteq> [] \<Longrightarrow> trim_space (s @ nl) = s"
proof (cases s)
  case (Cons c r)
  assume a: "list_all (\<lambda>c. \<not> is_space c) s"
  have n: "is_space (CHR 0x0A)" by (simp add: is_space_def)
  have "dropWhile is_space (s @ nl) = s @ nl" using a Cons by simp
  moreover have "dropWhile is_space (rev s) = rev s" using a
    by (cases s rule: rev_cases) simp_all
  ultimately show ?thesis by (simp add: trim_space_def nl_def n)
qed simp

lemma hex_digit_solid: "d < 16 \<Longrightarrow> \<not> is_space (hex_digit d)"
proof -
  have "\<forall>d \<in> set [0..<16]. \<not> is_space (hex_digit d)" by code_simp
  then show "d < 16 \<Longrightarrow> \<not> is_space (hex_digit d)" by auto
qed

lemma hex_text_solid: "list_all (\<lambda>b. b < 256) bs \<Longrightarrow> list_all (\<lambda>c. \<not> is_space c) (hex_text bs)"
  by (induction bs) (auto simp: hex_text_def hex_digit_solid)

lemma length_hex_text: "length (hex_text bs) = 2 * length bs"
  by (induction bs) (simp_all add: hex_text_def)

lemma random_bytes_shape:
  "random_bytes m n w = (Inr bs, w') \<Longrightarrow> length bs = n \<and> list_all (\<lambda>b. b < 256) bs"
  by (auto simp: random_bytes_def list_all_iff split: sum.splits simp: map_sum_def)


lemma harden_windows_files: "harden_windows m p w = (e, w') \<Longrightarrow> w_files w' = w_files w"
  by (auto simp: harden_windows_def verify_file_acl_def look_path_def dest!: observeD file_callD(2) exec_cmdD
      split: prod.splits sum.splits option.splits if_splits)

lemma hardenD:
  assumes "harden_sensitive_file pf m p w = (e, w')"
  shows "map_option f_data (w_files w' q) = map_option f_data (w_files w q)"
    and "q \<noteq> p \<Longrightarrow> w_files w' q = w_files w q"
    and "e = None \<Longrightarrow> w_files w p = Some x \<Longrightarrow> \<exists>y. w_files w' p = Some y \<and> (pf = Windows \<or> f_perm y = 384) \<and> f_data y = f_data x"
proof -
  show "map_option f_data (w_files w' q) = map_option f_data (w_files w q)" "q \<noteq> p \<Longrightarrow> w_files w' q = w_files w q"
    using assms
    by (auto simp: harden_sensitive_file_def harden_unix_def chmod_file_def update_file_def dest: harden_windows_files
        split: if_splits option.splits)
  show "\<exists>y. w_files w' p = Some y \<and> (pf = Windows \<or> f_perm y = 384) \<and> f_data y = f_data x" if "e = None" "w_files w p = Some x"
    using assms that
    by (auto simp: harden_sensitive_file_def harden_unix_def chmod_file_def update_file_def fault_err_def dest: harden_windows_files
        split: if_splits option.splits)
qed

lemma create_api_secret_ok:
  assumes "create_api_secret pf m p w = (Inr s, w')"
  shows "32 \<le> length s \<and> (\<exists>y. w_files w' p = Some y \<and> trim_space (f_data y) = s \<and> (pf = Windows \<or> f_perm y = 384))"
proof -
  obtain raw w1 where 1: "random_bytes m 32 w = (Inr raw, w1)"
    using assms by (auto simp: create_api_secret_def split: prod.splits sum.splits)
  obtain w2 where 2: "atomic_write m p (hex_text raw @ nl) 384 w1 = (Inr (), w2)"
    using assms 1 by (auto simp: create_api_secret_def Let_def split: prod.splits sum.splits)
  obtain w3 where 3: "harden_sensitive_file pf m p w2 = (None, w3)"
    using assms 1 2 by (auto simp: create_api_secret_def Let_def split: prod.splits option.splits)
  have 4: "harden_sensitive_file pf m (previous_good p) w3 = (None, w')" "s = hex_text raw"
    using assms 1 2 3 by (auto simp: create_api_secret_def Let_def split: prod.splits option.splits)
  note r = random_bytes_shape [OF 1]
  have "trim_space (hex_text raw @ nl) = s"
    unfolding 4(2) using r length_hex_text [of raw] by (intro trim_space_line hex_text_solid) auto
  moreover obtain y where "w_files w3 p = Some y" "f_data y = hex_text raw @ nl" "pf = Windows \<or> f_perm y = 384"
    using hardenD(3) [OF 3 refl atomic_write_ok(1) [OF 2]] by auto
  ultimately show ?thesis using hardenD(2) [OF 4(1), of p] r 4(2) length_hex_text [of raw] by simp
qed

lemma create_api_secret_keeps:
  assumes "ensure_api_secret pf m root w = (r, w')" "w_files w (api_secret_path root) = Some x"
  shows "\<exists>y. w_files w' (api_secret_path root) = Some y \<and> f_data y = f_data x"
proof (cases "fault_now m w")
  case None
  then show ?thesis using assms
    by (auto simp: ensure_api_secret_def Let_def read_file_def
        dest!: hardenD(1) [where q = "api_secret_path root"] split: if_splits prod.splits option.splits)
next
  case (Some f)
  then show ?thesis using assms by (auto simp: ensure_api_secret_def read_file_def fault_err_def split: if_splits)
qed

lemma ensure_api_secret_ok:
  assumes "ensure_api_secret pf m root w = (Inr s, w')"
  shows "32 \<le> length s \<and>
    (\<exists>y. w_files w' (api_secret_path root) = Some y \<and> trim_space (f_data y) = s \<and> (pf = Windows \<or> f_perm y = 384))"
proof (cases "read_file m (api_secret_path root) w")
  case (Pair b w1)
  show ?thesis
  proof (cases b)
    case (Inl e)
    then have "create_api_secret pf m (api_secret_path root) w1 = (Inr s, w')"
      using assms Pair by (auto simp: ensure_api_secret_def Let_def split: if_splits)
    then show ?thesis by (rule create_api_secret_ok)
  next
    case (Inr d)
    obtain x where x: "w_files w1 (api_secret_path root) = Some x" "f_data x = d"
      using read_fileD [OF Pair] Inr by auto
    have "32 \<le> length s" "s = trim_space d" "harden_sensitive_file pf m (api_secret_path root) w1 = (None, w')"
      using assms Pair Inr by (auto simp: ensure_api_secret_def Let_def split: if_splits prod.splits option.splits)
    then show ?thesis using hardenD(3) [OF _ refl x(1)] x(2) by metis
  qed
qed

text \<open>The API secret.  Making sure of it never changes the content of an existing secret
  file, on any path; when it succeeds the secret has at least 32 bytes, it is what the file
  holds, and outside Windows the file is readable by its owner only.\<close>

theorem api_secret_private:
  "case ensure_api_secret pf m root w of (r, w') \<Rightarrow>
     (\<forall>x. w_files w (api_secret_path root) = Some x \<longrightarrow> (\<exists>y. w_files w' (api_secret_path root) = Some y \<and> f_data y = f_data x)) \<and>
     (\<forall>s. r = Inr s \<longrightarrow> 32 \<le> length s \<and>
        (\<exists>y. w_files w' (api_secret_path root) = Some y \<and> trim_space (f_data y) = s \<and> (pf = Windows \<or> f_perm y = 384)))"
proof (cases "ensure_api_secret pf m root w")
  case (Pair r w')
  then show ?thesis using create_api_secret_keeps [OF Pair] ensure_api_secret_ok [of pf m root w] by simp
qed

lemma api_secret_private_witness:
  "map_option f_perm (w_files (snd (ensure_api_secret Linux quiet_machine ''/r''
     (world_of [(''/r/sing-box-api-secret'', replicate 40 (CHR ''a''))] ()))) ''/r/sing-box-api-secret'') = Some 384"
proof -
  let ?w = "world_of [(''/r/sing-box-api-secret'', replicate 40 (CHR ''a''))] ()"
  have p: "api_secret_path ''/r'' = ''/r/sing-box-api-secret''" by code_simp
  have t: "trim_space (replicate 40 (CHR ''a'')) = replicate 40 (CHR ''a'')" by code_simp
  have r: "is_ok (fst (ensure_api_secret Linux quiet_machine ''/r'' ?w))"
    unfolding ensure_api_secret_def p Let_def
    by (simp add: read_file_def fault_now_def quiet_machine_def world_of_def t harden_sensitive_file_def harden_unix_def
        chmod_file_def tick_def)
  show ?thesis
    using api_secret_private [where pf = Linux and m = quiet_machine and root = "''/r''" and w = ?w] r unfolding p
    by (cases "ensure_api_secret Linux quiet_machine ''/r'' ?w") (auto simp: is_ok_iff split: sum.splits)
qed


definition agent_connections :: "connection list \<Rightarrow> connection list" where
  "agent_connections cs = filter (\<lambda>c. looks_like_antigravity (rc_process c)) cs"

lemma count_connections:
  "at_agents (fold count_connection cs r) = at_agents r + int (length (agent_connections cs))"
  "at_vpn_direct (fold count_connection cs r) =
     at_vpn_direct r + int (length (filter (\<lambda>c. rc_outbound c = ''vpn-direct'') (agent_connections cs)))"
  "at_unexpected (fold count_connection cs r) =
     at_unexpected r + int (length (filter (\<lambda>c. rc_outbound c \<noteq> ''vpn-direct'') (agent_connections cs)))"
  "at_available (fold count_connection cs r) = at_available r" "at_connections (fold count_connection cs r) = at_connections r"
  by (induction cs arbitrary: r) (auto simp: agent_connections_def count_connection_def Let_def)

lemma count_unknown:
  "distinct (at_unknown r) \<Longrightarrow> distinct (at_unknown (fold count_connection cs r)) \<and>
   set (at_unknown (fold count_connection cs r)) = set (at_unknown r) \<union>
     {p. \<exists>c\<in>set cs. rc_process c = p \<and> looks_like_antigravity p \<and> \<not> known_process_path p \<and> p \<noteq> []}"
proof (induction cs arbitrary: r)
  case (Cons c cs)
  have d: "distinct (at_unknown (count_connection c r))" using Cons.prems by (auto simp: count_connection_def Let_def)
  show ?case using Cons.IH [OF d] by (auto simp: count_connection_def Let_def split: if_splits)
qed simp

lemma itoa_no_word: "0 \<le> i \<Longrightarrow> \<not> has_prefix (itoa i @ x) ''all ''"
proof -
  assume "0 \<le> i"
  have not_digit: "digit_of (CHR ''a'') = None" by code_simp
  obtain c r where c: "nat_digits (nat i) = c # r" "c \<in> set (nat_digits (nat i))"
    using nat_digits_nonempty by (metis list.set_intros(1) neq_Nil_conv)
  then obtain d where "d < 10" "c = digit_char d" using nat_digits_shape by blast
  then have "c \<noteq> CHR ''a''" by (metis digit_of_digit_char not_digit option.distinct(1))
  then show ?thesis using c \<open>0 \<le> i\<close> by (simp add: has_prefix_def itoa_def)
qed

lemma suffix_base:
  assumes "has_suffix p (slash # b)" "slash \<notin> set b"
  shows "(case last_index p slash of Some i \<Rightarrow> drop (Suc i) p | None \<Rightarrow> p) = b"
proof -
  obtain r where "p = r @ slash # b" using has_suffixD [OF assms(1)] by blast
  then show ?thesis using last_index_append [OF assms(2), of r] by simp
qed

lemma name_known: "looks_like_antigravity p \<Longrightarrow> known_process_path p"
  unfolding looks_like_antigravity_def known_process_path_def Let_def
  using suffix_base [of "slashed_lower p" "''agy''"] suffix_base [of "slashed_lower p" "''agy.exe''"] by auto

text \<open>Attestation by process path.  Of the connections of the snapshot, those of an
  Antigravity process are counted, each once, as on \<^verbatim>\<open>vpn-direct\<close> or outside it; the report says
  that all of them use \<^verbatim>\<open>vpn-direct\<close> exactly when there is one and none is outside; and the list
  of unknown helpers is always empty, since every counted path is a known one.\<close>

theorem route_counts_exact:
  "let r = attest_connections t cs; n = (\<lambda>P. int (length (filter P (filter (\<lambda>c. looks_like_antigravity (rc_process c)) cs)))) in
     at_available r \<and> at_connections r = cs \<and>
     at_vpn_direct r = n (\<lambda>c. rc_outbound c = ''vpn-direct'') \<and> at_unexpected r = n (\<lambda>c. rc_outbound c \<noteq> ''vpn-direct'') \<and>
     at_agents r = at_vpn_direct r + at_unexpected r \<and>
     (has_prefix (at_detail r) ''all '' \<longleftrightarrow> 0 < at_agents r \<and> at_unexpected r = 0) \<and> at_unknown r = []"
proof -
  let ?s = "(unobserved t)\<lparr>at_available := True, at_connections := cs\<rparr>"
  have u: "at_unknown (fold count_connection cs ?s) = []"
  proof -
    have "set (at_unknown (fold count_connection cs ?s)) = {}"
      using count_unknown [of ?s cs] name_known by (auto simp: unobserved_def)
    then show ?thesis by simp
  qed
  have s: "int (length xs) = int (length (filter P xs)) + int (length (filter (\<lambda>x. \<not> P x) xs))" for P and xs :: "connection list"
    using sum_length_filter_compl [of P xs] by linarith
  have d: "has_prefix (route_detail r) ''all '' \<longleftrightarrow> 0 < at_agents r \<and> at_unexpected r = 0"
    if "0 \<le> at_agents r" "0 \<le> at_unexpected r" for r
  proof -
    note itoa_no_word [of "at_unexpected r"]
    then show ?thesis using that by (auto simp: route_detail_def has_prefix_def)
  qed
  have z: "at_agents ?s = 0" "at_vpn_direct ?s = 0" "at_unexpected ?s = 0" "at_available ?s" "at_connections ?s = cs"
    by (simp_all add: unobserved_def)
  show ?thesis
    using s [of "agent_connections cs" "\<lambda>c. rc_outbound c = ''vpn-direct''"]
    unfolding attest_connections_def Let_def agent_connections_def [symmetric]
    by (simp add: count_connections z u d del: filter_filter)
qed

lemma runtime_owners_candidates:
  "runtime_connection_owners pf m nc src net cand w = (Inr (owners, d), nc', w') \<Longrightarrow> set owners \<subseteq> {p \<in> set cand. 0 < p}"
  by (auto simp: runtime_connection_owners_def connection_owners_def windows_connection_owners_def parse_netstat_owners_def Let_def
      unique_positive_def dest!: owning_pids_order split: platform.splits sum.splits prod.splits if_splits)

text \<open>What the loop knows after the connections it has seen.\<close>

definition sole_owner :: "pid_connection list \<Rightarrow> (string \<Rightarrow> bool) \<Rightarrow> int set" where
  "sole_owner es P = {p. \<exists>e\<in>set es. pc_owners e = [p] \<and> P (rc_outbound (pc_connection e))}"

definition unresolved_agents :: "pid_connection list \<Rightarrow> string set" where
  "unresolved_agents es = {q. \<exists>e\<in>set es. pc_owners e = [] \<and> rc_process (pc_connection e) = q \<and> looks_like_antigravity q \<and> q \<noteq> []}"

definition pid_evidence :: "pid_attestation \<Rightarrow> bool" where
  "pid_evidence r \<longleftrightarrow>
     set (pa_active r) = sole_owner (pa_connections r) (\<lambda>_. True) \<and>
     set (pa_vpn_direct r) = sole_owner (pa_connections r) (\<lambda>t. t = ''vpn-direct'') \<and>
     set (pa_unexpected r) = sole_owner (pa_connections r) (\<lambda>t. t \<noteq> ''vpn-direct'') \<and>
     pa_ambiguous r = int (length (filter (\<lambda>e. 1 < length (pc_owners e)) (pa_connections r))) \<and>
     set (pa_unresolved r) = unresolved_agents (pa_connections r) \<and>
     (\<forall>e\<in>set (pa_connections r). set (pc_owners e) \<subseteq> {p \<in> set (pa_candidates r). 0 < p})"

lemma sole_owner_append:
  "sole_owner (es @ [e]) P = sole_owner es P \<union> {p. pc_owners e = [p] \<and> P (rc_outbound (pc_connection e))}"
  by (auto simp: sole_owner_def)

lemma unresolved_append:
  "unresolved_agents (es @ [e]) = unresolved_agents es \<union>
     {q. pc_owners e = [] \<and> rc_process (pc_connection e) = q \<and> looks_like_antigravity q \<and> q \<noteq> []}"
  by (auto simp: unresolved_agents_def)

lemma join_connection_owned:
  "join_connection c (Inr ([p], d)) r =
     (let e = \<lparr>pc_connection = c, pc_owners = [p], pc_ownership = ''exact'', pc_detail = d\<rparr>
      in if rc_outbound c = ''vpn-direct''
         then r\<lparr>pa_connections := pa_connections r @ [e], pa_active := p # pa_active r, pa_vpn_direct := p # pa_vpn_direct r\<rparr>
         else r\<lparr>pa_connections := pa_connections r @ [e], pa_active := p # pa_active r, pa_unexpected := p # pa_unexpected r\<rparr>)"
  "join_connection c (Inr (p # q # ps, d)) r =
     r\<lparr>pa_connections := pa_connections r @ [\<lparr>pc_connection = c, pc_owners = p # q # ps, pc_ownership = ''ambiguous'', pc_detail = d\<rparr>],
       pa_ambiguous := pa_ambiguous r + 1\<rparr>"
  by (cases r, simp add: join_connection_def Let_def)+

lemma join_connection_free:
  "fst (projr found) = [] \<or> \<not> is_ok found \<Longrightarrow> \<exists>d. join_connection c found r =
     r\<lparr>pa_connections := pa_connections r @ [\<lparr>pc_connection = c, pc_owners = [], pc_ownership = ''unresolved'', pc_detail = d\<rparr>],
       pa_unresolved := (if looks_like_antigravity (rc_process c) \<and> rc_process c \<noteq> [] then [rc_process c] else []) @ pa_unresolved r\<rparr>"
  by (cases r, cases found) (auto simp: join_connection_def Let_def)

lemma join_connection_evidence:
  assumes "pid_evidence r" "\<forall>ow d. found = Inr (ow, d) \<longrightarrow> set ow \<subseteq> {p \<in> set (pa_candidates r). 0 < p}"
  shows "pid_evidence (join_connection c found r) \<and>
    map pc_connection (pa_connections (join_connection c found r)) = map pc_connection (pa_connections r) @ [c] \<and>
    pa_candidates (join_connection c found r) = pa_candidates r \<and> pa_available (join_connection c found r) = pa_available r"
proof (cases "\<exists>p d. found = Inr ([p], d)")
  case True
  then obtain p d where f: "found = Inr ([p], d)" by blast
  then have "p \<in> set (pa_candidates r) \<and> 0 < p" using assms(2) by simp
  then show ?thesis using assms(1) unfolding f join_connection_owned Let_def
    by (simp add: pid_evidence_def sole_owner_append unresolved_append)
next
  case one: False
  show ?thesis
  proof (cases "\<exists>p q ps d. found = Inr (p # q # ps, d)")
    case True
    then obtain p q ps d where f: "found = Inr (p # q # ps, d)" by blast
    then have "set (p # q # ps) \<subseteq> {p \<in> set (pa_candidates r). 0 < p}" using assms(2) by blast
    then show ?thesis using assms(1) unfolding f join_connection_owned
      by (simp add: pid_evidence_def sole_owner_append unresolved_append)
  next
    case False
    then have "fst (projr found) = [] \<or> \<not> is_ok found" using one by (cases found) (auto, metis neq_Nil_conv)
    then obtain d where "join_connection c found r =
     r\<lparr>pa_connections := pa_connections r @ [\<lparr>pc_connection = c, pc_owners = [], pc_ownership = ''unresolved'', pc_detail = d\<rparr>],
       pa_unresolved := (if looks_like_antigravity (rc_process c) \<and> rc_process c \<noteq> [] then [rc_process c] else []) @ pa_unresolved r\<rparr>"
      using join_connection_free by blast
    moreover have "{q. rc_process c = q \<and> looks_like_antigravity q \<and> q \<noteq> []} =
        set (if looks_like_antigravity (rc_process c) \<and> rc_process c \<noteq> [] then [rc_process c] else [])" by auto
    ultimately show ?thesis using assms(1) by (simp add: pid_evidence_def sole_owner_append unresolved_append Un_commute)
  qed
qed

lemma join_connections_evidence:
  "join_connections pf m nc cs r w = (r', nc', w') \<Longrightarrow> pid_evidence r \<Longrightarrow>
     pid_evidence r' \<and> map pc_connection (pa_connections r') = map pc_connection (pa_connections r) @ cs \<and>
     pa_candidates r' = pa_candidates r \<and> pa_available r' = pa_available r"
proof (induction cs arbitrary: nc r w)
  case (Cons c cs)
  obtain found nc1 w1 where f: "runtime_connection_owners pf m nc (rc_source c) (rc_network c) (pa_candidates r) w = (found, nc1, w1)"
    by (metis prod_cases3)
  have s: "\<forall>ow d. found = Inr (ow, d) \<longrightarrow> set ow \<subseteq> {p \<in> set (pa_candidates r). 0 < p}"
    using runtime_owners_candidates f by blast
  note step = join_connection_evidence [OF Cons.prems(2) s, of c]
  show ?case using Cons.IH [of nc1 "join_connection c found r" w1] Cons.prems(1) f step by simp
qed simp

lemma pid_evidence_finish: "pid_evidence r \<Longrightarrow> pid_evidence (finish_pid_attestation r)"
proof -
  assume a: "pid_evidence r"
  have pos: "\<forall>p \<in> sole_owner (pa_connections r) P. 0 < p" for P
    using a by (fastforce simp: pid_evidence_def sole_owner_def)
  have "filter (\<lambda>v. 0 < v) xs = xs" if "set xs = sole_owner (pa_connections r) P" for xs P
    using pos [of P] that by simp
  with a show ?thesis by (auto simp: pid_evidence_def finish_pid_attestation_def Let_def sorted_int_keys_def)
qed

text \<open>The evidence by PID.  When the attestation is available, it joins exactly the
  connections of the snapshot; a PID is reported active, on \<^verbatim>\<open>vpn-direct\<close> or outside it exactly
  when some connection with this only owner says so, a connection with several owners is
  counted as ambiguous and never attributed, an agent connection without an owner is listed
  as unresolved, and no PID outside the positive candidates is ever blamed.\<close>

theorem pid_route_evidence:
  assumes "attest_agent_pid_routes pf m nc candidates g w = (r, nc', g', w')" "pa_available r"
  shows "pid_evidence r \<and> set (pa_active r) = set (pa_vpn_direct r) \<union> set (pa_unexpected r) \<and>
    set (pa_active r) \<subseteq> {p \<in> set candidates. 0 < p} \<and>
    (\<exists>w2. runtime_connections pf m g (tick w) = (Inr (map pc_connection (pa_connections r)), g', w2))"
proof -
  obtain t where t: "now m w = (t, tick w)" by (simp add: now_def)
  define r0 where "r0 = \<lparr>pa_available = False, pa_observed_at = t_rfc t, pa_candidates = unique_positive candidates,
    pa_connections = [], pa_active = [], pa_vpn_direct = [], pa_unexpected = [], pa_ambiguous = 0, pa_unresolved = [], pa_detail = []\<rparr>"
  have ne: "unique_positive candidates \<noteq> []" using assms t by (auto simp: attest_agent_pid_routes_def Let_def)
  obtain x g1 w2 where rc: "runtime_connections pf m g (tick w) = (x, g1, w2)" by (metis prod_cases3)
  obtain cs where cs: "x = Inr cs"
    using assms t ne rc by (cases x) (auto simp: attest_agent_pid_routes_def Let_def)
  obtain r1 nc1 w3 where j: "join_connections pf m nc cs (r0\<lparr>pa_available := True\<rparr>) w2 = (r1, nc1, w3)" by (metis prod_cases3)
  have r: "r = finish_pid_attestation r1" "g' = g1"
    using assms(1) t ne rc cs j by (simp_all add: attest_agent_pid_routes_def Let_def r0_def)
  have "pid_evidence (r0\<lparr>pa_available := True\<rparr>)"
    by (simp add: pid_evidence_def r0_def sole_owner_def unresolved_agents_def)
  note ev = join_connections_evidence [OF j this]
  then have e: "pid_evidence r" using r pid_evidence_finish by blast
  have "map pc_connection (pa_connections r) = cs" "pa_candidates r = unique_positive candidates"
    using ev r by (simp_all add: r0_def finish_pid_attestation_def Let_def)
  moreover have "set (pa_active r) = set (pa_vpn_direct r) \<union> set (pa_unexpected r)"
    using e unfolding pid_evidence_def sole_owner_def by blast
  moreover have "set (pa_active r) \<subseteq> {p \<in> set (pa_candidates r). 0 < p}"
    using e unfolding pid_evidence_def sole_owner_def by fastforce
  ultimately show ?thesis using e rc cs r by (simp add: unique_positive_def)
qed

lemma api_addr_text [code]: "api_addr = ''127.0.0.1:48766''"
proof -
  have "join_host_port api_host x = ''127.0.0.1:'' @ x" for x
    unfolding api_host_def join_host_port_def by simp
  then show ?thesis by (simp add: api_addr_def api_port_def itoa_def nat_digits.simps)
qed

definition observed_machine :: "unit machine" where
  "observed_machine = listening_machine\<lparr>
     m_output := (\<lambda>_ k. ((''127.0.0.1:80'' @ [CHR 0x09] @ ''/opt/agy'' @ [CHR 0x09] @ ''direct'' @ [CHR 0x09] @ ''-'' @ [CHR 0x09] @ ''tun'' @ [CHR 0x09] @ ''tcp'' @ nl, None), k))\<rparr>"

definition tunnel_manager :: manager where
  "tunnel_manager = sample_manager\<lparr>mg_cmd := Some 7, mg_mode := Mode_tunnel\<rparr>"

definition observed_disk :: "unit world" where
  "observed_disk = world_of [(''/r/bin/sing-box'', ''elf''), (''/r/sing-box-api-secret'', replicate 40 (CHR ''a''))] ()"

lemma observed_routes:
  "case attest_agent_pid_routes Linux observed_machine (\<lambda>_. None) [7, - 9] tunnel_manager observed_disk of (r, _) \<Rightarrow>
     (pa_available r, pa_unexpected r) = (True, [7])"
  by code_simp
lemma pid_route_evidence_witness:
  "\<exists>r. 7 \<in> set (pa_unexpected r) \<and> pid_evidence r \<and> set (pa_active r) \<subseteq> {7}"
proof -
  obtain r nc' g' w' where r: "attest_agent_pid_routes Linux observed_machine (\<lambda>_. None) [7, - 9] tunnel_manager observed_disk = (r, nc', g', w')"
    by (metis prod_cases4)
  then have a: "pa_available r" "pa_unexpected r = [7]" using observed_routes by simp_all
  have "{p \<in> set [7, - 9]. (0::int) < p} = {7}" by fastforce
  then have "7 \<in> set (pa_unexpected r) \<and> pid_evidence r \<and> set (pa_active r) \<subseteq> {7}"
    using pid_route_evidence [OF r a(1)] a(2) by (metis list.set_intros(1))
  then show ?thesis by blast
qed


end
