(* ===== verification/Go_Regexp.thy ===== *)
theory Go_Regexp imports Prelude begin

text \<open>
  Go's package \<^verbatim>\<open>regexp\<close> as far as the program uses it.  The result of a match is the one that
  Perl's backtracking search finds first: the leftmost one, and among those that start there the
  first in the order of the alternatives and of greedy or reluctant repetition.  \<open>rmatch\<close> gives all
  matches at a place in that order.  A place is the character before it, if any, and the rest of the
  text.  The expressions of the program never match the empty text, so the rules for empty matches
  in \<^verbatim>\<open>FindAll\<close> and \<^verbatim>\<open>ReplaceAll\<close> are left out.  Texts are bytes: a class that excludes some ASCII
  characters matches the bytes of any other character one by one.
  Nothing in this theory is code of the repository.
\<close>

section \<open>Expressions and matching\<close>

datatype rx =
    Cls "char \<Rightarrow> bool"
  | Word_boundary
  | Text_begin
  | Text_end
  | Empty
  | Seq rx rx
  | Alt rx rx
  | Star bool rx
  | Cap nat rx

type_synonym place = "char option \<times> string"
type_synonym caps = "(nat \<times> string) list"

definition word_char :: "char \<Rightarrow> bool" where
  "word_char c = (let n = of_char c :: nat in 48 \<le> n \<and> n \<le> 57 \<or> 65 \<le> n \<and> n \<le> 90 \<or> 97 \<le> n \<and> n \<le> 122 \<or> n = 95)"

definition at_boundary :: "place \<Rightarrow> bool" where
  "at_boundary p =
     ((case fst p of None \<Rightarrow> False | Some c \<Rightarrow> word_char c) \<noteq> (case snd p of [] \<Rightarrow> False | c # _ \<Rightarrow> word_char c))"

function rmatch :: "rx \<Rightarrow> place \<Rightarrow> caps \<Rightarrow> (place \<times> caps) list" where
  "rmatch (Cls f) p c = (case snd p of [] \<Rightarrow> [] | x # s \<Rightarrow> if f x then [((Some x, s), c)] else [])"
| "rmatch Word_boundary p c = (if at_boundary p then [(p, c)] else [])"
| "rmatch Text_begin p c = (if fst p = None then [(p, c)] else [])"
| "rmatch Text_end p c = (if snd p = [] then [(p, c)] else [])"
| "rmatch Empty p c = [(p, c)]"
| "rmatch (Seq a b) p c =
     concat (map (\<lambda>x. if length (snd (fst x)) \<le> length (snd p) then rmatch b (fst x) (snd x) else []) (rmatch a p c))"
| "rmatch (Alt a b) p c = rmatch a p c @ rmatch b p c"
| "rmatch (Star greedy a) p c =
     (let again = concat (map (\<lambda>x. if length (snd (fst x)) < length (snd p) then rmatch (Star greedy a) (fst x) (snd x) else []) (rmatch a p c))
      in if greedy then again @ [(p, c)] else (p, c) # again)"
| "rmatch (Cap n a) p c =
     map (\<lambda>x. (fst x, (n, take (length (snd p) - length (snd (fst x))) (snd p)) # snd x)) (rmatch a p c)"
  by pat_completeness auto
termination
  by (relation "measures [\<lambda>(r, p, c). length (snd p), \<lambda>(r, p, c). size r]") (auto simp: le_less)

declare rmatch.simps(8) [simp del]

section \<open>Searching\<close>

text \<open>The first match from a place on: the text skipped, the text matched, the place after it and
  the captures.\<close>

fun find_from :: "rx \<Rightarrow> char option \<Rightarrow> string \<Rightarrow> (string \<times> string \<times> place \<times> caps) option" where
  "find_from r pr s =
     (case rmatch r (pr, s) [] of
        (q, c) # _ \<Rightarrow> Some ([], take (length s - length (snd q)) s, q, c)
      | [] \<Rightarrow> (case s of
            [] \<Rightarrow> None
          | x # t \<Rightarrow> map_option (\<lambda>(b, m, q, c). (x # b, m, q, c)) (find_from r (Some x) t)))"

declare find_from.simps [simp del]

function find_all :: "rx \<Rightarrow> char option \<Rightarrow> string \<Rightarrow> (string \<times> caps) list" where
  "find_all r pr s =
     (case find_from r pr s of
        None \<Rightarrow> []
      | Some (b, m, q, c) \<Rightarrow> (m, c) # (if length (snd q) < length s then find_all r (fst q) (snd q) else []))"
  by pat_completeness auto
termination by (relation "measure (\<lambda>(r, pr, s). length s)") auto

declare find_all.simps [simp del]

function replace_from :: "rx \<Rightarrow> (string \<Rightarrow> caps \<Rightarrow> string) \<Rightarrow> char option \<Rightarrow> string \<Rightarrow> string" where
  "replace_from r f pr s =
     (case find_from r pr s of
        None \<Rightarrow> s
      | Some (b, m, q, c) \<Rightarrow> b @ f m c @ (if length (snd q) < length s then replace_from r f (fst q) (snd q) else snd q))"
  by pat_completeness auto
termination by (relation "measure (\<lambda>(r, f, pr, s). length s)") auto

declare replace_from.simps [simp del]

definition rx_matches :: "rx \<Rightarrow> string \<Rightarrow> bool" where
  "rx_matches r s \<longleftrightarrow> find_from r None s \<noteq> None"

definition rx_replace :: "rx \<Rightarrow> (string \<Rightarrow> caps \<Rightarrow> string) \<Rightarrow> string \<Rightarrow> string" where
  "rx_replace r f s = replace_from r f None s"

definition rx_find_all :: "rx \<Rightarrow> string \<Rightarrow> (string \<times> caps) list" where
  "rx_find_all r s = find_all r None s"

definition cap_text :: "nat \<Rightarrow> caps \<Rightarrow> string" where
  "cap_text n c = (case map_of c n of Some t \<Rightarrow> t | None \<Rightarrow> [])"

section \<open>Building expressions\<close>

definition rx_seq :: "rx list \<Rightarrow> rx" where
  "rx_seq rs = foldr Seq rs Empty"

definition rx_lit :: "string \<Rightarrow> rx" where
  "rx_lit s = rx_seq (map (\<lambda>x. Cls (\<lambda>c. c = x)) s)"

text \<open>Under \<^verbatim>\<open>(?i)\<close>: letters in either case; the argument is in lower case.\<close>

definition rx_lit_i :: "string \<Rightarrow> rx" where
  "rx_lit_i s = rx_seq (map (\<lambda>x. Cls (\<lambda>c. lower_char c = x)) s)"

definition rx_opt :: "rx \<Rightarrow> rx" where
  "rx_opt r = Alt r Empty"

definition rx_plus :: "rx \<Rightarrow> rx" where
  "rx_plus r = Seq r (Star True r)"

definition rx_times :: "nat \<Rightarrow> rx \<Rightarrow> rx" where
  "rx_times n r = rx_seq (replicate n r)"

definition rx_at_least :: "nat \<Rightarrow> rx \<Rightarrow> rx" where
  "rx_at_least n r = Seq (rx_times n r) (Star True r)"

fun rx_up_to :: "nat \<Rightarrow> rx \<Rightarrow> rx" where
  "rx_up_to 0 r = Empty"
| "rx_up_to (Suc n) r = rx_opt (Seq r (rx_up_to n r))"

definition rx_between :: "nat \<Rightarrow> nat \<Rightarrow> rx \<Rightarrow> rx" where
  "rx_between m n r = Seq (rx_times m r) (rx_up_to (n - m) r)"

definition rx_alts :: "rx list \<Rightarrow> rx" where
  "rx_alts rs = (case rev rs of [] \<Rightarrow> Empty | r # rest \<Rightarrow> foldl (\<lambda>b a. Alt a b) r rest)"

definition char_in :: "nat \<Rightarrow> nat \<Rightarrow> char \<Rightarrow> bool" where
  "char_in a b c = (let n = of_char c :: nat in a \<le> n \<and> n \<le> b)"

definition ascii_digit :: "char \<Rightarrow> bool" where "ascii_digit = char_in 48 57"
definition ascii_lower :: "char \<Rightarrow> bool" where "ascii_lower = char_in 97 122"

text \<open>The class \<^verbatim>\<open>\s\<close>.\<close>

definition rx_space :: "char \<Rightarrow> bool" where
  "rx_space c \<longleftrightarrow> c = CHR '' '' \<or> c = CHR 0x09 \<or> c = CHR 0x0A \<or> c = CHR 0x0C \<or> c = CHR 0x0D"

section \<open>Lemmas\<close>

text \<open>A match ends later in the same text.\<close>

lemma rmatch_suffix: "(q, d) \<in> set (rmatch r p c) \<Longrightarrow> \<exists>t. snd p = t @ snd q"
proof (induction r p c arbitrary: q d rule: rmatch.induct)
  case (1 f p c)
  then show ?case by (cases p) (auto split: list.splits if_splits)
next
  case (6 a b p c)
  from "6.prems" obtain x where x: "x \<in> set (rmatch a p c)" "length (snd (fst x)) \<le> length (snd p)" "(q, d) \<in> set (rmatch b (fst x) (snd x))"
    by (auto split: if_splits)
  obtain t where "snd p = t @ snd (fst x)" using "6.IH"(1) [of "fst x" "snd x"] x(1) by auto
  moreover obtain u where "snd (fst x) = u @ snd q" using "6.IH"(2) [OF x(1,2)] x(3) by blast
  ultimately show ?case by auto
next
  case (8 g a p c)
  from "8.prems" have "(q, d) = (p, c) \<or> (\<exists>x\<in>set (rmatch a p c). length (snd (fst x)) < length (snd p) \<and> (q, d) \<in> set (rmatch (Star g a) (fst x) (snd x)))"
    by (subst (asm) rmatch.simps) (auto simp: Let_def split: if_splits)
  then show ?case
  proof
    assume "\<exists>x\<in>set (rmatch a p c). length (snd (fst x)) < length (snd p) \<and> (q, d) \<in> set (rmatch (Star g a) (fst x) (snd x))"
    then obtain x where x: "x \<in> set (rmatch a p c)" "length (snd (fst x)) < length (snd p)" "(q, d) \<in> set (rmatch (Star g a) (fst x) (snd x))"
      by blast
    obtain t where "snd p = t @ snd (fst x)" using "8.IH"(1) [of "fst x" "snd x"] x(1) by auto
    moreover obtain u where "snd (fst x) = u @ snd q" using "8.IH"(2) [OF x(1,2)] x(3) by blast
    ultimately show ?case by auto
  qed simp
qed (auto split: if_splits)

lemma rmatch_lit:
  "\<exists>q. rmatch (rx_lit l) (pr, s) c = (if has_prefix s l then [((q, drop (length l) s), c)] else [])"
proof (induction l arbitrary: pr s)
  case Nil
  show ?case by (simp add: rx_lit_def rx_seq_def has_prefix_def)
next
  case (Cons x l)
  have e: "rx_lit (x # l) = Seq (Cls (\<lambda>c. c = x)) (rx_lit l)" by (simp add: rx_lit_def rx_seq_def)
  show ?case
  proof (cases s)
    case Nil
    then show ?thesis by (simp add: e has_prefix_def)
  next
    case (Cons y t)
    obtain q where "rmatch (rx_lit l) (Some y, t) c = (if has_prefix t l then [((q, drop (length l) t), c)] else [])"
      using Cons.IH by blast
    then show ?thesis using Cons by (auto simp: e has_prefix_def)
  qed
qed

lemma rmatch_any_star:
  "rmatch (Star False (Cls (\<lambda>_. True))) (pr, s) c =
     ((pr, s), c) # (case s of [] \<Rightarrow> [] | x # t \<Rightarrow> rmatch (Star False (Cls (\<lambda>_. True))) (Some x, t) c)"
  by (subst rmatch.simps) (auto split: list.splits)

lemma rmatch_Seq: "rmatch (Seq a b) p c = concat (map (\<lambda>x. rmatch b (fst x) (snd x)) (rmatch a p c))"
proof -
  have "length (snd (fst x)) \<le> length (snd p)" if "x \<in> set (rmatch a p c)" for x
    using rmatch_suffix [of "fst x" "snd x" a p c] that by auto
  then show ?thesis by (auto intro!: arg_cong [where f = concat])
qed

lemma rmatch_any:
  "rmatch (Seq (Star False (Cls (\<lambda>_. True))) r) (pr, s) c =
     rmatch r (pr, s) c @ (case s of [] \<Rightarrow> [] | x # t \<Rightarrow> rmatch (Seq (Star False (Cls (\<lambda>_. True))) r) (Some x, t) c)"
  unfolding rmatch_Seq by (subst rmatch_any_star) (cases s, simp_all)

lemma rmatch_run:
  "\<exists>q rest. rmatch (Star True (Cls f)) (pr, s) c = ((q, dropWhile f s), c) # rest"
proof (induction s arbitrary: pr)
  case Nil
  show ?case by (subst rmatch.simps) simp
next
  case (Cons x s)
  obtain q rest where "rmatch (Star True (Cls f)) (Some x, s) c = ((q, dropWhile f s), c) # rest" using Cons by blast
  then show ?case by (subst rmatch.simps) simp
qed

text \<open>The first match: nothing for the empty list of matches.\<close>

lemma find_from_none: "(\<forall>t u p. s = t @ u \<longrightarrow> rmatch r (p, u) [] = []) \<Longrightarrow> find_from r pr s = None"
proof (induction s arbitrary: pr)
  case Nil
  then show ?case by (subst find_from.simps) simp
next
  case (Cons x s)
  have "\<forall>t u p. s = t @ u \<longrightarrow> rmatch r (p, u) [] = []" using Cons.prems by (metis append_Cons)
  then have "find_from r (Some x) s = None" by (rule Cons.IH)
  moreover have "rmatch r (pr, x # s) [] = []" using Cons.prems by (metis append_Nil)
  ultimately show ?case by (subst find_from.simps) simp
qed

lemma find_from_at:
  assumes "\<forall>j<i. \<forall>p. rmatch r (p, drop j s) [] = []" "\<forall>p. \<exists>q c rest. rmatch r (p, drop i s) [] = ((q, v), c) # rest" "i \<le> length s"
  shows "\<exists>m q c. find_from r pr s = Some (take i s, m, (q, v), c)"
  using assms
proof (induction i arbitrary: pr s)
  case 0
  then obtain q c rest where "rmatch r (pr, s) [] = ((q, v), c) # rest" by (metis drop0)
  then show ?case by (subst find_from.simps) simp
next
  case (Suc i)
  then obtain x t where s: "s = x # t" by (cases s) auto
  have "\<forall>j<i. \<forall>p. rmatch r (p, drop j t) [] = []" using Suc.prems(1) s by (metis Suc_less_eq drop_Suc_Cons)
  moreover have "\<forall>p. \<exists>q c rest. rmatch r (p, drop i t) [] = ((q, v), c) # rest" using Suc.prems(2) s by simp
  ultimately have "\<exists>m q c. find_from r (Some x) t = Some (take i t, m, (q, v), c)"
    using Suc.IH Suc.prems(3) s by simp
  moreover have "rmatch r (pr, x # t) [] = []" using Suc.prems(1) s by (metis drop0 zero_less_Suc)
  ultimately show ?case unfolding s by (subst find_from.simps) auto
qed

end
