(* ===== verification/Settings.thy ===== *)
theory Settings imports Install begin

text \<open>
  The settings of the control plane (\<^verbatim>\<open>app/config.go\<close>): defaults, loading with migration and
  fail-closed repair, validation and saving.  The lemmas show that whatever the file holds, the
  settings that are loaded pass the validation, and that saved settings are loaded back.
\<close>

section \<open>Data\<close>

record settings =
  st_listen :: string
  st_host :: string
  st_port :: int
  st_vpn :: string
  st_dns :: string
  st_version :: string
  st_auto_open :: bool
  st_auto_start :: bool
  st_strict :: bool
  st_fallback :: bool
  st_domains :: "string list"

definition default_settings :: settings where
  "default_settings = \<lparr>st_listen = ''127.0.0.1:48765'', st_host = ''127.0.0.1'', st_port = 7890, st_vpn = [],
     st_dns = ''cloudflare'', st_version = default_sing_box_version, st_auto_open = True, st_auto_start = True,
     st_strict = False, st_fallback = False, st_domains = []\<rparr>"

definition enc_settings :: "settings \<Rightarrow> json" where
  "enc_settings s = JObj
     ([(''listen'', JStr (st_listen s)), (''proxy_host'', JStr (st_host s)), (''proxy_port'', enc_int (st_port s)),
       (''vpn_interface'', JStr (st_vpn s)), (''dns_provider'', JStr (st_dns s)), (''sing_box_version'', JStr (st_version s)),
       (''auto_open'', JBool (st_auto_open s)), (''proxy_auto_start'', JBool (st_auto_start s)),
       (''tunnel_strict_route'', JBool (st_strict s)), (''tunnel_domain_fallback'', JBool (st_fallback s))] @
      opt_list JStr ''tunnel_learned_domains'' (st_domains s))"

definition settings_fields :: "(string \<times> settings decoder) list" where
  "settings_fields =
     [dec_field ''listen'' dec_string st_listen (\<lambda>v a. a\<lparr>st_listen := v\<rparr>),
      dec_field ''proxy_host'' dec_string st_host (\<lambda>v a. a\<lparr>st_host := v\<rparr>),
      dec_field ''proxy_port'' dec_int st_port (\<lambda>v a. a\<lparr>st_port := v\<rparr>),
      dec_field ''vpn_interface'' dec_string st_vpn (\<lambda>v a. a\<lparr>st_vpn := v\<rparr>),
      dec_field ''dns_provider'' dec_string st_dns (\<lambda>v a. a\<lparr>st_dns := v\<rparr>),
      dec_field ''sing_box_version'' dec_string st_version (\<lambda>v a. a\<lparr>st_version := v\<rparr>),
      dec_field ''auto_open'' dec_bool st_auto_open (\<lambda>v a. a\<lparr>st_auto_open := v\<rparr>),
      dec_field ''proxy_auto_start'' dec_bool st_auto_start (\<lambda>v a. a\<lparr>st_auto_start := v\<rparr>),
      dec_field ''tunnel_strict_route'' dec_bool st_strict (\<lambda>v a. a\<lparr>st_strict := v\<rparr>),
      dec_field ''tunnel_domain_fallback'' dec_bool st_fallback (\<lambda>v a. a\<lparr>st_fallback := v\<rparr>),
      dec_field ''tunnel_learned_domains'' (dec_list [] dec_string) st_domains (\<lambda>v a. a\<lparr>st_domains := v\<rparr>)]"

section \<open>Validation\<close>

definition is_loopback_host :: "string \<Rightarrow> bool" where
  "is_loopback_host host =
     (let h = trim_set ''[]'' (trim_space host) in
      equal_fold h ''localhost'' \<or> (case parse_ip h of Some a \<Rightarrow> ip_loopback a | None \<Rightarrow> False))"

definition is_loopback_listen :: "string \<Rightarrow> bool" where
  "is_loopback_listen addr = (case split_host_port (trim_space addr) of Inl _ \<Rightarrow> False | Inr (host, _) \<Rightarrow> is_loopback_host host)"

definition learned_domain :: "string \<Rightarrow> bool" where
  "learned_domain h \<longleftrightarrow> h \<noteq> [] \<and> \<not> contains_any h ''/:*?[]'' \<and> \<not> str_contains h ''..'' \<and> str_contains h ''.''"

text \<open>Kept in the order of the first occurrences, then sorted.\<close>

definition normalize_domains :: "string list \<Rightarrow> string list" where
  "normalize_domains xs = sorted_keys (filter learned_domain (map (\<lambda>raw. to_lower (trim_space raw)) xs))"

definition validate_settings :: "settings \<Rightarrow> gerr option" where
  "validate_settings s =
     (if \<not> is_loopback_listen (st_listen s)
      then Some (new_err (''control-plane listen address must be loopback-only, got '' @ go_quote (st_listen s)))
      else if \<not> is_loopback_host (st_host s)
      then Some (new_err (''local proxy host must be loopback-only, got '' @ go_quote (st_host s)))
      else if st_port s \<le> 0 \<or> st_port s > 65535 then Some (new_err (''invalid proxy port '' @ itoa (st_port s)))
      else if length (normalize_domains (st_domains s)) \<noteq> length (st_domains s)
      then Some (new_err ''tunnel learned domains contain invalid or duplicate entries'')
      else None)"

section \<open>Loading and saving\<close>

text \<open>The keys of the raw object; \<^verbatim>\<open>null\<close> decodes to a map without keys.\<close>

definition raw_keys :: "string \<Rightarrow> string list option" where
  "raw_keys b = (case parse_json b of Some (JObj kvs) \<Rightarrow> Some (map fst kvs) | Some JNull \<Rightarrow> Some [] | _ \<Rightarrow> None)"

definition fill_defaults :: "settings \<Rightarrow> settings" where
  "fill_defaults s =
     (let d = default_settings in
      s\<lparr>st_listen := if st_listen s = [] then st_listen d else st_listen s,
        st_host := if st_host s = [] then st_host d else st_host s,
        st_port := if st_port s = 0 then st_port d else st_port s,
        st_dns := if st_dns s = [] then st_dns d else st_dns s,
        st_version := if st_version s = [] \<or> st_version s = ''1.13.1'' then default_sing_box_version else st_version s\<rparr>)"

definition migrate_keys :: "string list option \<Rightarrow> settings \<Rightarrow> settings" where
  "migrate_keys ks s =
     (case ks of
        None \<Rightarrow> s
      | Some ks \<Rightarrow>
          s\<lparr>st_auto_start := if ''proxy_auto_start'' \<in> set ks then st_auto_start s else True,
            st_fallback := if ''tunnel_domain_fallback'' \<in> set ks then st_fallback s else False\<rparr>)"

definition fail_closed :: "settings \<Rightarrow> settings" where
  "fail_closed s =
     (let d = default_settings in
      s\<lparr>st_listen := if is_loopback_listen (st_listen s) then st_listen s else st_listen d,
        st_host := if is_loopback_host (st_host s) then st_host s else st_host d,
        st_port := if st_port s \<le> 0 \<or> st_port s > 65535 then st_port d else st_port s,
        st_domains := normalize_domains (st_domains s)\<rparr>)"

definition load_settings :: "'k machine \<Rightarrow> string \<Rightarrow> 'k world \<Rightarrow> settings \<times> 'k world" where
  "load_settings m path w =
     (case read_file m path w of
        (Inl _, w1) \<Rightarrow> (default_settings, w1)
      | (Inr b, w1) \<Rightarrow>
          (fail_closed (migrate_keys (raw_keys b) (fill_defaults (fst (unmarshal (dec_struct settings_fields) b default_settings)))), w1))"

definition save_settings :: "'k machine \<Rightarrow> string \<Rightarrow> settings \<Rightarrow> 'k world \<Rightarrow> unit res \<times> 'k world" where
  "save_settings m path s w =
     (case validate_settings s of
        Some e \<Rightarrow> (Inl e, w)
      | None \<Rightarrow> atomic_write m path (marshal_indent (enc_settings s) @ nl) 384 w)"

section \<open>Lemmas\<close>

lemma normal_domain: "to_lower (trim_space (to_lower (trim_space s))) = to_lower (trim_space s)"
  by (simp add: trim_space_to_lower)

lemma normalize_domains_idem: "normalize_domains (normalize_domains xs) = normalize_domains xs"
proof -
  have "map (\<lambda>raw. to_lower (trim_space raw)) (normalize_domains xs) = normalize_domains xs"
    by (rule map_idI) (auto simp: normalize_domains_def normal_domain)
  moreover have "filter learned_domain (normalize_domains xs) = normalize_domains xs"
    by (rule filter_True) (auto simp: normalize_domains_def)
  ultimately show ?thesis
    by (subst normalize_domains_def) (simp add: sorted_keys_fixed normalize_domains_def)
qed

lemma default_valid: "validate_settings default_settings = None"
  by code_simp

lemma default_parts: "is_loopback_listen (st_listen default_settings)" "is_loopback_host (st_host default_settings)"
    "0 < st_port default_settings" "st_port default_settings \<le> 65535"
  by code_simp+

lemma fail_closed_valid: "validate_settings (fail_closed s) = None"
  using default_parts by (simp add: validate_settings_def fail_closed_def Let_def normalize_domains_idem)

lemma run_settings_fields [simp]:
  "run_field settings_fields ''listen'' (JStr x) a = (a\<lparr>st_listen := x\<rparr>, True)"
  "run_field settings_fields ''proxy_host'' (JStr x) a = (a\<lparr>st_host := x\<rparr>, True)"
  "int64_range i \<Longrightarrow> run_field settings_fields ''proxy_port'' (enc_int i) a = (a\<lparr>st_port := i\<rparr>, True)"
  "run_field settings_fields ''vpn_interface'' (JStr x) a = (a\<lparr>st_vpn := x\<rparr>, True)"
  "run_field settings_fields ''dns_provider'' (JStr x) a = (a\<lparr>st_dns := x\<rparr>, True)"
  "run_field settings_fields ''sing_box_version'' (JStr x) a = (a\<lparr>st_version := x\<rparr>, True)"
  "run_field settings_fields ''auto_open'' (JBool b) a = (a\<lparr>st_auto_open := b\<rparr>, True)"
  "run_field settings_fields ''proxy_auto_start'' (JBool b) a = (a\<lparr>st_auto_start := b\<rparr>, True)"
  "run_field settings_fields ''tunnel_strict_route'' (JBool b) a = (a\<lparr>st_strict := b\<rparr>, True)"
  "run_field settings_fields ''tunnel_domain_fallback'' (JBool b) a = (a\<lparr>st_fallback := b\<rparr>, True)"
  "run_field settings_fields ''tunnel_learned_domains'' (JArr (map JStr xs)) a = (a\<lparr>st_domains := xs\<rparr>, True)"
  by (simp_all add: run_field_def settings_fields_def find_field_def dec_field_def)

lemma settings_decode:
  assumes "int64_range (st_port s)"
  shows "dec_struct settings_fields (enc_settings s) default_settings = (s, True)"
  using assms
  by (cases s, cases "st_domains s")
    (simp_all add: enc_settings_def dec_struct_def default_settings_def dec_members_run opt_list_def dec_members.simps(1) del: dec_members.simps(2) list.map)

lemma wf_enc_settings [simp]: "wf_json (enc_settings s)"
  by (auto simp: enc_settings_def opt_list_def list_all_iff)

lemma raw_keys_settings:
  "raw_keys (marshal_indent (enc_settings s) @ nl) = Some (map fst (case enc_settings s of JObj kvs \<Rightarrow> kvs))"
proof -
  have "parse_json (marshal_indent (enc_settings s) @ nl) = Some (enc_settings s)"
    by (simp add: marshal_indent_def parse_print)
  then show ?thesis by (simp add: raw_keys_def enc_settings_def)
qed

lemma saved_keys: "{''proxy_auto_start'', ''tunnel_domain_fallback''} \<subseteq> set (map fst (case enc_settings s of JObj kvs \<Rightarrow> kvs))"
  by (simp add: enc_settings_def)

section \<open>Properties\<close>

text \<open>C26: settings fail closed.  Whatever the settings file holds, valid, damaged, old or absent,
  the settings that are loaded pass the validation: the control plane and the proxy listen on
  loopback only, the port is a port, and the learned domains are normal, sorted and distinct.  Nothing
  is changed by loading.\<close>

theorem load_settings_safe:
  "case load_settings m path w of (s, w') \<Rightarrow>
     validate_settings s = None \<and> is_loopback_listen (st_listen s) \<and> is_loopback_host (st_host s) \<and>
     0 < st_port s \<and> st_port s \<le> 65535 \<and> normalize_domains (st_domains s) = st_domains s \<and> w_files w' = w_files w"
proof -
  obtain r w1 where r: "read_file m path w = (r, w1)" by fastforce
  have f: "w_files w1 = w_files w" using file_callD(1) [OF r] by simp
  show ?thesis
  proof (cases r)
    case (Inl e)
    have "normalize_domains (st_domains default_settings) = st_domains default_settings" by code_simp
    then show ?thesis using r f Inl default_valid default_parts by (simp add: load_settings_def)
  next
    case (Inr b)
    let ?s = "migrate_keys (raw_keys b) (fill_defaults (fst (unmarshal (dec_struct settings_fields) b default_settings)))"
    have "load_settings m path w = (fail_closed ?s, w1)" using r Inr by (simp add: load_settings_def)
    moreover have "is_loopback_listen (st_listen (fail_closed ?s))" "is_loopback_host (st_host (fail_closed ?s))"
        "0 < st_port (fail_closed ?s)" "st_port (fail_closed ?s) \<le> 65535" "normalize_domains (st_domains (fail_closed ?s)) = st_domains (fail_closed ?s)"
      using default_parts by (simp_all add: fail_closed_def Let_def normalize_domains_idem)
    ultimately show ?thesis using fail_closed_valid [of ?s] f by simp
  qed
qed

text \<open>Saved settings come back.  A successful save only happens for valid settings; when the next
  read does not fail it gives the same settings, except that an empty DNS provider and an empty or
  outdated version of \<^verbatim>\<open>sing-box\<close> become the defaults and the learned domains are normalised.\<close>

theorem settings_round_trip:
  assumes "save_settings m path s w = (Inr u, w1)" "fault_now m w1 = None"
  shows "validate_settings s = None \<and> load_settings m path w1 =
    (s\<lparr>st_dns := if st_dns s = [] then ''cloudflare'' else st_dns s,
       st_version := if st_version s \<in> {[], ''1.13.1''} then default_sing_box_version else st_version s,
       st_domains := normalize_domains (st_domains s)\<rparr>, tick w1)"
proof -
  have v: "validate_settings s = None" and a: "atomic_write m path (marshal_indent (enc_settings s) @ nl) 384 w = (Inr u, w1)"
    using assms(1) by (auto simp: save_settings_def split: option.splits)
  have v': "is_loopback_listen (st_listen s)" "is_loopback_host (st_host s)" "0 < st_port s" "st_port s \<le> 65535"
    using v by (auto simp: validate_settings_def split: if_splits)
  have ne: "st_listen s \<noteq> []" "st_host s \<noteq> []"
  proof -
    have "\<not> is_loopback_listen []" "\<not> is_loopback_host []" by code_simp+
    then show "st_listen s \<noteq> []" "st_host s \<noteq> []" using v'(1,2) by auto
  qed
  have i: "int64_range (st_port s)" using v'(3,4) by (simp add: int64_range_def min_int64_def max_int64_def)
  have r: "read_file m path w1 = (Inr (marshal_indent (enc_settings s) @ nl), tick w1)"
    using atomic_write_ok(1) [OF a] assms(2) by (simp add: read_file_def)
  have d: "unmarshal (dec_struct settings_fields) (marshal_indent (enc_settings s) @ nl) default_settings = (s, True)"
    using settings_decode [OF i] by (simp add: unmarshal_text)
  have k: "migrate_keys (raw_keys (marshal_indent (enc_settings s) @ nl)) t = t" for t
    using saved_keys [of s] by (simp add: migrate_keys_def raw_keys_settings)
  have "load_settings m path w1 = (fail_closed (fill_defaults s), tick w1)"
    unfolding load_settings_def r by (simp add: d k)
  moreover have "fail_closed (fill_defaults s) = s\<lparr>st_dns := if st_dns s = [] then ''cloudflare'' else st_dns s,
       st_version := if st_version s \<in> {[], ''1.13.1''} then default_sing_box_version else st_version s,
       st_domains := normalize_domains (st_domains s)\<rparr>"
    using v' ne by (simp add: fail_closed_def fill_defaults_def Let_def default_settings_def)
  ultimately show ?thesis using v by simp
qed

lemma settings_round_trip_witness:
  "\<exists>w1. load_settings quiet_machine ''/c'' w1 = (default_settings, tick w1)"
proof -
  have "no_temps ''/c'' (world_of [] ())" "no_temps (previous_good ''/c'') (world_of [] ())"
    by (simp_all add: no_temps_def world_of_def)
  then obtain w1 where "atomic_write quiet_machine ''/c'' (marshal_indent (enc_settings default_settings) @ nl) 384 (world_of [] ()) = (Inr (), w1)"
    using atomic_write_succeeds [OF reliable_quiet, of "''/c''" "world_of [] ()" "marshal_indent (enc_settings default_settings) @ nl" 384] by auto
  then have s: "save_settings quiet_machine ''/c'' default_settings (world_of [] ()) = (Inr (), w1)"
    unfolding save_settings_def default_valid by simp
  have f: "fault_now quiet_machine w1 = None" by (simp add: fault_now_def quiet_machine_def)
  have d: "default_settings\<lparr>st_dns := if st_dns default_settings = [] then ''cloudflare'' else st_dns default_settings,
       st_version := if st_version default_settings \<in> {[], ''1.13.1''} then default_sing_box_version else st_version default_settings,
       st_domains := normalize_domains (st_domains default_settings)\<rparr> = default_settings"
    by code_simp
  from settings_round_trip [OF s f] have "load_settings quiet_machine ''/c'' w1 = (default_settings, tick w1)"
    unfolding d by (rule conjunct2)
  then show ?thesis by (rule exI)
qed

end
