(* ===== verification/Hosts.thy ===== *)
theory Hosts imports Go_Regexp Settings begin

text \<open>
  The emergency override of one host name (\<^verbatim>\<open>antigravity/hosts.go\<close>): the marked block in the hosts
  file, its removal by a regular expression, the metadata file that records its expiry, and the
  removal at the next start after that.  The lemmas show that the expression removes exactly the
  marked blocks, that an override can be undone, and what an expiry may touch.
\<close>

section \<open>Data\<close>

definition hosts_start :: string where "hosts_start = ''# >>> ANTIGRAVITI-PROXI >>>''"
definition hosts_end :: string where "hosts_end = ''# <<< ANTIGRAVITI-PROXI <<<''"

text \<open>Thirty minutes in nanoseconds.\<close>

definition hosts_ttl :: int where "hosts_ttl = 1800000000000"

record hosts_meta =
  hm_domain :: string
  hm_ip :: string
  hm_created :: string
  hm_expires :: string

definition zero_hosts_meta :: hosts_meta where
  "zero_hosts_meta = \<lparr>hm_domain = [], hm_ip = [], hm_created = zero_time, hm_expires = zero_time\<rparr>"

definition enc_hosts_meta :: "hosts_meta \<Rightarrow> json" where
  "enc_hosts_meta x = JObj [(''domain'', JStr (hm_domain x)), (''ip'', JStr (hm_ip x)), (''created_at'', JStr (hm_created x)),
     (''expires_at'', JStr (hm_expires x))]"

definition hosts_meta_fields :: "(string \<times> hosts_meta decoder) list" where
  "hosts_meta_fields =
     [dec_field ''domain'' dec_string hm_domain (\<lambda>v a. a\<lparr>hm_domain := v\<rparr>),
      dec_field ''ip'' dec_string hm_ip (\<lambda>v a. a\<lparr>hm_ip := v\<rparr>),
      dec_field ''created_at'' dec_time hm_created (\<lambda>v a. a\<lparr>hm_created := v\<rparr>),
      dec_field ''expires_at'' dec_time hm_expires (\<lambda>v a. a\<lparr>hm_expires := v\<rparr>)]"

definition hosts_meta_path :: "string \<Rightarrow> string" where
  "hosts_meta_path dir = path_join dir ''hosts-override.json''"

definition hosts_path :: "platform \<Rightarrow> 'k machine \<Rightarrow> string" where
  "hosts_path pf m =
     (if pf = Windows
      then (let root = m_getenv m ''SystemRoot''
            in foldl path_join (if root = [] then ''C:'' @ [CHR 0x5C] @ ''Windows'' else root) [''System32'', ''drivers'', ''etc'', ''hosts''])
      else ''/etc/hosts'')"

section \<open>The marked block\<close>

definition block_rx :: rx where
  "block_rx = rx_seq [rx_lit hosts_start, Star False (Cls (\<lambda>_. True)), rx_lit hosts_end, Star True (Cls rx_space)]"

definition remove_block :: "string \<Rightarrow> string" where
  "remove_block s = rx_replace block_rx (\<lambda>_ _. []) s"

definition has_owned_line :: "string \<Rightarrow> hosts_meta \<Rightarrow> bool" where
  "has_owned_line hosts x =
     (case (str_index hosts hosts_start, str_index hosts hosts_end) of
        (Some a, Some b) \<Rightarrow>
          (if b < a then False
           else list_ex (\<lambda>line. str_fields line = [hm_ip x, hm_domain x]) (split_char (CHR 0x0A) (take (b - a) (drop a hosts))))
      | _ \<Rightarrow> False)"

definition hosts_block :: "string \<Rightarrow> string \<Rightarrow> string" where
  "hosts_block ip domain = hosts_start @ nl @ ip @ ''    '' @ domain @ nl @ hosts_end @ nl"

section \<open>Setting, removing and expiring\<close>

definition override_text :: "string \<Rightarrow> string \<Rightarrow> string \<Rightarrow> string" where
  "override_text hosts ip domain =
     trim_right_set [CHR 0x0D, CHR 0x0A] (remove_block hosts) @ nl @ hosts_block ip domain"

definition hosts_backup :: "string \<Rightarrow> stamp \<Rightarrow> string" where
  "hosts_backup dir t = trim_right_set [CHR ''/'', CHR 0x5C] dir @ ''/hosts-'' @ t_format t ''20060102-150405'' @ ''.bak''"

definition set_hosts_override ::
  "platform \<Rightarrow> 'k machine \<Rightarrow> string \<Rightarrow> string \<Rightarrow> string \<Rightarrow> 'k world \<Rightarrow> string res \<times> 'k world" where
  "set_hosts_override pf m domain ip dir w =
     (case read_file m (hosts_path pf m) w of
        (Inl e, w1) \<Rightarrow> (Inl e, w1)
      | (Inr b, w1) \<Rightarrow>
     (case mkdir_all m dir w1 of
        (Inl e, w2) \<Rightarrow> (Inl e, w2)
      | (Inr _, w2) \<Rightarrow>
     (let (t, w3) = now m w2;
          backup = hosts_backup dir t
      in case write_file m backup b 384 w3 of
        (Inl e, w4) \<Rightarrow> (Inl e, w4)
      | (Inr _, w4) \<Rightarrow>
     (case atomic_write_direct m (hosts_path pf m) (override_text b ip domain) 420 w4 of
        (Inl e, w5) \<Rightarrow> (Inl e, w5)
      | (Inr _, w5) \<Rightarrow>
     (let (t2, w6) = now m w5;
          x = \<lparr>hm_domain = domain, hm_ip = ip, hm_created = t_rfc t2, hm_expires = utc_text (t_nanos t2 + hosts_ttl)\<rparr>
      in case atomic_write m (hosts_meta_path dir) (marshal_indent (enc_hosts_meta x) @ nl) 384 w6 of
        (Inl e, w7) \<Rightarrow> (Inl e, w7)
      | (Inr _, w7) \<Rightarrow> (Inr backup, w7))))))"

definition remove_hosts_override :: "platform \<Rightarrow> 'k machine \<Rightarrow> 'k world \<Rightarrow> unit res \<times> 'k world" where
  "remove_hosts_override pf m w =
     (case read_file m (hosts_path pf m) w of
        (Inl e, w1) \<Rightarrow> (Inl e, w1)
      | (Inr b, w1) \<Rightarrow> atomic_write_direct m (hosts_path pf m) (remove_block b) 420 w1)"

definition valid_hosts_meta :: "string \<Rightarrow> hosts_meta option" where
  "valid_hosts_meta b =
     (case unmarshal (dec_struct hosts_meta_fields) b zero_hosts_meta of (x, ok) \<Rightarrow>
        if \<not> ok \<or> hm_domain x = [] \<or> hm_ip x = [] \<or> time_is_zero (hm_expires x) then None else Some x)"

definition expire_hosts_override ::
  "platform \<Rightarrow> 'k machine \<Rightarrow> string \<Rightarrow> int \<Rightarrow> 'k world \<Rightarrow> bool res \<times> 'k world" where
  "expire_hosts_override pf m dir now_ns w =
     (case read_file m (hosts_meta_path dir) w of
        (Inl e, w1) \<Rightarrow> ((if err_kind e = NotExist then Inr False else Inl e), w1)
      | (Inr b, w1) \<Rightarrow>
     (case valid_hosts_meta b of
        None \<Rightarrow> (Inl (new_err ''invalid hosts override metadata''), w1)
      | Some x \<Rightarrow>
     (if now_ns < time_nanos (hm_expires x) then (Inr False, w1)
      else (case read_file m (hosts_path pf m) w1 of
        (Inl e, w2) \<Rightarrow> (Inl e, w2)
      | (Inr hosts, w2) \<Rightarrow>
     (if \<not> has_owned_line hosts x then (Inl (new_err ''hosts override ownership cannot be proven''), w2)
      else (case atomic_write_direct m (hosts_path pf m) (remove_block hosts) 420 w2 of
        (Inl e, w3) \<Rightarrow> (Inl e, w3)
      | (Inr _, w3) \<Rightarrow>
     (case remove_file m (hosts_meta_path dir) w3 of
        (Inl e, w4) \<Rightarrow> ((if err_kind e = NotExist then Inr True else Inl e), w4)
      | (Inr _, w4) \<Rightarrow> (Inr True, w4))))))))"

section \<open>The expression removes exactly the marked blocks\<close>

lemma str_index_Some:
  "str_index s p = Some i \<longleftrightarrow> i \<le> length s \<and> has_prefix (drop i s) p \<and> (\<forall>j<i. \<not> has_prefix (drop j s) p)"
proof (induction s arbitrary: i)
  case Nil
  then show ?case by (auto simp: has_prefix_def)
next
  case (Cons c s)
  show ?case
  proof (cases i)
    case 0
    then show ?thesis by (auto split: option.splits)
  next
    case (Suc k)
    have "(\<forall>j<Suc k. \<not> has_prefix (drop j (c # s)) p) \<longleftrightarrow> \<not> has_prefix (c # s) p \<and> (\<forall>j<k. \<not> has_prefix (drop j s) p)"
      by (auto simp: less_Suc_eq_0_disj)
    with Suc Cons.IH [of k] show ?thesis by (auto simp del: drop_Suc_Cons simp: drop_Suc_Cons)
  qed
qed

lemma str_index_None: "str_index s p = None \<longleftrightarrow> (\<forall>j\<le>length s. \<not> has_prefix (drop j s) p)"
proof (induction s)
  case Nil
  then show ?case by (auto simp: has_prefix_def)
next
  case (Cons c s)
  have "(\<forall>j\<le>length (c # s). \<not> has_prefix (drop j (c # s)) p) \<longleftrightarrow> \<not> has_prefix (c # s) p \<and> (\<forall>j\<le>length s. \<not> has_prefix (drop j s) p)"
    unfolding less_Suc_eq_le [symmetric] by (subst list.size(4)) (simp only: add_0_right add_Suc_right All_less_Suc2 drop0 drop_Suc_Cons)
  then show ?case using Cons by auto
qed

lemma has_prefix_length: "has_prefix s p \<Longrightarrow> length p \<le> length s"
  by (metis has_prefix_def length_take min.cobounded1 min.commute)

text \<open>Reference: cut from the first start marker to the first end marker after it and the white space
  that follows, then go on; a start marker without an end marker stays.\<close>

function cut_blocks :: "string \<Rightarrow> string" where
  "cut_blocks s =
     (case str_index s hosts_start of
        None \<Rightarrow> s
      | Some i \<Rightarrow>
          (let t = drop (i + length hosts_start) s
           in case str_index t hosts_end of
                None \<Rightarrow> s
              | Some j \<Rightarrow> take i s @ cut_blocks (dropWhile rx_space (drop (j + length hosts_end) t))))"
  by pat_completeness auto

termination
  by (relation "measure length")
    (auto simp: hosts_start_def dest!: str_index_Some [THEN iffD1] has_prefix_length intro: le_less_trans [OF length_dropWhile_le])

declare cut_blocks.simps [simp del]

lemma has_prefix_append: "has_prefix s p \<longleftrightarrow> (\<exists>t. s = p @ t)"
  by (metis append_eq_conv_conj append_take_drop_id has_prefix_def)

lemma block_tail:
  "(case str_index s hosts_end of
      None \<Rightarrow> rmatch (Seq (Star False (Cls (\<lambda>_. True))) (Seq (rx_lit hosts_end) (Seq (Star True (Cls rx_space)) Empty))) (pr, s) c = []
    | Some j \<Rightarrow> \<exists>q rest. rmatch (Seq (Star False (Cls (\<lambda>_. True))) (Seq (rx_lit hosts_end) (Seq (Star True (Cls rx_space)) Empty))) (pr, s) c =
        ((q, dropWhile rx_space (drop (j + length hosts_end) s)), c) # rest)"
proof (induction s arbitrary: pr)
  case Nil
  obtain q where "rmatch (rx_lit hosts_end) (pr, []) c = (if has_prefix [] hosts_end then [((q, drop (length hosts_end) []), c)] else [])"
    using rmatch_lit by blast
  moreover have "\<not> has_prefix [] hosts_end" by code_simp
  moreover have "str_index [] hosts_end = None" by code_simp
  ultimately show ?case by (subst (1 2) rmatch_any) (simp add: rmatch_Seq [of "rx_lit hosts_end"] del: rmatch.simps(6))
next
  case (Cons x s)
  obtain q where q: "rmatch (rx_lit hosts_end) (pr, x # s) c =
      (if has_prefix (x # s) hosts_end then [((q, drop (length hosts_end) (x # s)), c)] else [])"
    using rmatch_lit by blast
  obtain q2 rest where q2: "rmatch (Star True (Cls rx_space)) (q, drop (length hosts_end) (x # s)) c =
      ((q2, dropWhile rx_space (drop (length hosts_end) (x # s))), c) # rest"
    using rmatch_run by blast
  show ?case
  proof (cases "has_prefix (x # s) hosts_end")
    case True
    then show ?thesis by (subst (1 2) rmatch_any) (simp add: rmatch_Seq [of "rx_lit hosts_end"] rmatch_Seq [of "Star True (Cls rx_space)"] q q2 del: rmatch.simps(6))
  next
    case False
    then show ?thesis using Cons.IH [of "Some x"]
      by (subst (1 2) rmatch_any) (simp add: rmatch_Seq [of "rx_lit hosts_end"] q del: rmatch.simps(6) split: option.splits)
  qed
qed

lemma block_match:
  "if has_prefix s hosts_start \<and> str_contains (drop (length hosts_start) s) hosts_end
   then \<exists>q rest. rmatch block_rx (pr, s) c =
     ((q, dropWhile rx_space (drop (the (str_index (drop (length hosts_start) s) hosts_end) + length hosts_end) (drop (length hosts_start) s))), c) # rest
   else rmatch block_rx (pr, s) c = []"
proof -
  obtain q where q: "rmatch (rx_lit hosts_start) (pr, s) c = (if has_prefix s hosts_start then [((q, drop (length hosts_start) s), c)] else [])"
    using rmatch_lit by blast
  have r: "block_rx = Seq (rx_lit hosts_start) (Seq (Star False (Cls (\<lambda>_. True))) (Seq (rx_lit hosts_end) (Seq (Star True (Cls rx_space)) Empty)))"
    by (simp add: block_rx_def rx_seq_def)
  show ?thesis using block_tail [where s = "drop (length hosts_start) s" and pr = q and c = c]
    unfolding r rmatch_Seq [of "rx_lit hosts_start"] q
    by (auto simp: str_contains_def simp del: rmatch.simps(6) drop_drop split: option.splits)
qed

lemma str_contains_iff: "str_contains s p \<longleftrightarrow> (\<exists>j\<le>length s. has_prefix (drop j s) p)"
  by (auto simp: str_contains_def str_index_None)

lemma str_contains_split: "str_contains s p \<longleftrightarrow> (\<exists>a b. s = a @ p @ b)"
proof
  assume "str_contains s p"
  then obtain j where "has_prefix (drop j s) p" by (auto simp: str_contains_iff)
  then show "\<exists>a b. s = a @ p @ b" by (metis append_take_drop_id has_prefix_append)
next
  assume "\<exists>a b. s = a @ p @ b"
  then obtain a b where "s = a @ p @ b" by blast
  then have "length a \<le> length s \<and> has_prefix (drop (length a) s) p" by (simp add: has_prefix_append)
  then show "str_contains s p" unfolding str_contains_iff by blast
qed

lemma str_contains_drop: "str_contains (drop i s) p \<Longrightarrow> str_contains s p"
  by (metis append.assoc append_take_drop_id str_contains_split)

lemma block_none:
  assumes "str_index s hosts_start = None \<or> (\<exists>i. str_index s hosts_start = Some i \<and> str_index (drop (i + length hosts_start) s) hosts_end = None)"
  shows "find_from block_rx pr s = None"
proof (rule find_from_none, intro allI impI)
  fix t u p
  assume s: "s = t @ u"
  have "\<not> (has_prefix u hosts_start \<and> str_contains (drop (length hosts_start) u) hosts_end)"
  proof
    assume u: "has_prefix u hosts_start \<and> str_contains (drop (length hosts_start) u) hosts_end"
    have d: "drop (length t) s = u" using s by simp
    show False using assms
    proof (elim disjE exE conjE)
      assume "str_index s hosts_start = None"
      then show False using u d s by (metis str_index_None length_append le_add1)
    next
      fix i assume i: "str_index s hosts_start = Some i" and e: "str_index (drop (i + length hosts_start) s) hosts_end = None"
      have "i \<le> length t" using i u d by (metis linorder_not_less str_index_Some)
      then have "drop (length hosts_start) u = drop (length t - i) (drop (i + length hosts_start) s)"
        unfolding d [symmetric] by (simp add: add.commute)
      then show False using u e str_contains_drop by (metis str_contains_def)
    qed
  qed
  then show "rmatch block_rx (p, u) [] = []" using block_match [of u p "[]"] by (simp only: if_False)
qed

lemma block_some:
  assumes i: "str_index s hosts_start = Some i" and j: "str_index (drop (i + length hosts_start) s) hosts_end = Some j"
  shows "\<exists>m q c. find_from block_rx pr s =
    Some (take i s, m, (q, dropWhile rx_space (drop (j + length hosts_end) (drop (i + length hosts_start) s))), c)"
proof (rule find_from_at)
  have a: "i \<le> length s" "has_prefix (drop i s) hosts_start" "\<forall>k<i. \<not> has_prefix (drop k s) hosts_start"
    using i by (simp_all add: str_index_Some)
  show "i \<le> length s" by (rule a(1))
  show "\<forall>k<i. \<forall>p. rmatch block_rx (p, drop k s) [] = []"
  proof (intro allI impI)
    fix k p assume "k < i"
    then show "rmatch block_rx (p, drop k s) [] = []" using a(3) block_match [of "drop k s" p "[]"] by (simp only: if_False simp_thms)
  qed
  have d: "drop (length hosts_start) (drop i s) = drop (i + length hosts_start) s" by (simp add: add.commute)
  have "str_contains (drop (length hosts_start) (drop i s)) hosts_end" using j unfolding d by (simp add: str_contains_def)
  then show "\<forall>p. \<exists>q c rest. rmatch block_rx (p, drop i s) [] =
      ((q, dropWhile rx_space (drop (j + length hosts_end) (drop (i + length hosts_start) s))), c) # rest"
    using block_match [of "drop i s" _ "[]"] a(2) j unfolding d by (metis option.sel)
qed

lemma remove_block_reference: "remove_block s = cut_blocks s"
proof -
  have "replace_from block_rx (\<lambda>_ _. []) pr s = cut_blocks s" for pr
  proof (induction s arbitrary: pr rule: cut_blocks.induct)
    case (1 s)
    show ?case
    proof (cases "str_index s hosts_start")
      case None
      then show ?thesis using block_none [of s pr]
        by (subst replace_from.simps, subst cut_blocks.simps) simp
    next
      case (Some i)
      show ?thesis
      proof (cases "str_index (drop (i + length hosts_start) s) hosts_end")
        case None
        then show ?thesis using Some block_none [of s pr]
          by (subst replace_from.simps, subst cut_blocks.simps) simp
      next
        case j: (Some j)
        let ?u = "dropWhile rx_space (drop (j + length hosts_end) (drop (i + length hosts_start) s))"
        obtain m q c where f: "find_from block_rx pr s = Some (take i s, m, (q, ?u), c)"
          using block_some [OF Some j] by blast
        have l: "length ?u < length s"
        proof -
          have "length ?u \<le> length s - (length hosts_start)"
            by (rule le_trans [OF length_dropWhile_le]) simp
          moreover have "0 < length hosts_start" by (simp add: hosts_start_def)
          moreover have "length hosts_start \<le> length s"
            using Some has_prefix_length [of "drop i s" hosts_start] by (simp add: str_index_Some)
          ultimately show ?thesis by linarith
        qed
        have "replace_from block_rx (\<lambda>_ _. []) q ?u = cut_blocks ?u" by (rule 1 [OF Some refl j])
        then show ?thesis using f l Some j
          by (subst replace_from.simps, subst cut_blocks.simps) (simp add: Let_def)
      qed
    qed
  qed
  then show ?thesis by (simp add: remove_block_def rx_replace_def)
qed

text \<open>C29: the regular expression removes exactly the marked blocks: it computes the reference that cuts
  from each start marker to the first end marker after it with the white space behind, and leaves
  everything else, a start marker without an end included.\<close>

theorem remove_block_exact: "remove_block s = cut_blocks s"
  by (rule remove_block_reference)

section \<open>Undoing an override\<close>

lemma contains_split:
  assumes "z \<notin> set p" "p \<noteq> []"
  shows "str_contains (x @ z # y) p \<longleftrightarrow> str_contains x p \<or> str_contains y p"
proof
  assume "str_contains (x @ z # y) p"
  then obtain a b where e: "x @ z # y = a @ p @ b" by (auto simp: str_contains_split)
  then obtain us where "x = a @ us \<and> us @ z # y = p @ b \<or> x @ us = a \<and> z # y = us @ p @ b"
    by (auto simp: append_eq_append_conv2)
  then show "str_contains x p \<or> str_contains y p"
  proof
    assume u: "x = a @ us \<and> us @ z # y = p @ b"
    then obtain vs where "us = p @ vs \<or> p = us @ vs \<and> z # y = vs @ b"
      by (auto simp: append_eq_append_conv2)
    then show ?thesis
    proof
      assume "us = p @ vs"
      then show ?thesis using u str_contains_split [of x p] by auto
    next
      assume v: "p = us @ vs \<and> z # y = vs @ b"
      then have "vs = []" using assms(1) by (cases vs) auto
      then have "x = a @ p @ []" using u v by simp
      then show ?thesis unfolding str_contains_split by blast
    qed
  next
    assume u: "x @ us = a \<and> z # y = us @ p @ b"
    show ?thesis
    proof (cases us)
      case Nil
      then show ?thesis using u assms by (cases p) auto
    next
      case (Cons c cs)
      then show ?thesis using u str_contains_split [of y p] by auto
    qed
  qed
next
  assume "str_contains x p \<or> str_contains y p"
  then show "str_contains (x @ z # y) p"
  proof
    assume "str_contains x p"
    then obtain a b where "x = a @ p @ b" by (auto simp: str_contains_split)
    then have "x @ z # y = a @ p @ (b @ z # y)" by simp
    then show ?thesis unfolding str_contains_split by blast
  next
    assume "str_contains y p"
    then obtain a b where "y = a @ p @ b" by (auto simp: str_contains_split)
    then have "x @ z # y = (x @ z # a) @ p @ b" by simp
    then show ?thesis unfolding str_contains_split by blast
  qed
qed

lemma index_after:
  assumes "\<not> str_contains b p" "z \<notin> set p" "p \<noteq> []"
  shows "str_index (b @ z # p @ t) p = Some (Suc (length b))"
  unfolding str_index_Some
proof (intro conjI allI impI)
  show "Suc (length b) \<le> length (b @ z # p @ t)" by simp
  show "has_prefix (drop (Suc (length b)) (b @ z # p @ t)) p" by (simp add: has_prefix_append)
  fix k assume k: "k < Suc (length b)"
  show "\<not> has_prefix (drop k (b @ z # p @ t)) p"
  proof
    assume "has_prefix (drop k (b @ z # p @ t)) p"
    then have "take (length p) (drop k b @ z # p @ t) = p" using k by (simp add: has_prefix_def)
    moreover have "length p > length (drop k b)"
    proof (rule ccontr)
      assume "\<not> length p > length (drop k b)"
      then have "has_prefix (drop k b) p" using calculation by (simp add: has_prefix_def)
      then show False using assms(1) k by (auto simp: str_contains_iff less_Suc_eq_le)
    qed
    ultimately have "z \<in> set p"
      by (metis in_set_conv_nth append_eq_append_conv2 length_append nth_append_length nth_take list.size(4) length_take less_imp_le min.absorb2 nth_append)
    then show False using assms(2) by simp
  qed
qed

lemma contains_char: "str_contains s p \<Longrightarrow> c \<in> set p \<Longrightarrow> c \<in> set s"
  by (auto simp: str_contains_split)

definition plain_token :: "string \<Rightarrow> bool" where
  "plain_token s \<longleftrightarrow> s \<noteq> [] \<and> list_all (\<lambda>c. \<not> is_space c \<and> c \<noteq> CHR ''#'') s"

lemma markers: "CHR 0x0A \<notin> set hosts_start" "CHR 0x0A \<notin> set hosts_end" "hosts_start \<noteq> []" "hosts_end \<noteq> []"
    "CHR ''#'' \<in> set hosts_end" "\<not> str_contains hosts_start hosts_end"
  by code_simp+

lemma override_line:
  assumes "plain_token ip" "plain_token domain"
  shows "CHR ''#'' \<notin> set (ip @ ''    '' @ domain)" "CHR 0x0A \<notin> set (ip @ ''    '' @ domain)"
    "str_fields (ip @ ''    '' @ domain) = [ip, domain]"
proof -
  have n: "CHR 0x0A \<notin> set t" if "plain_token t" for t
    using that by (auto simp: plain_token_def list_all_iff is_space_def)
  show "CHR ''#'' \<notin> set (ip @ ''    '' @ domain)"
    using assms by (auto simp: plain_token_def list_all_iff)
  show "CHR 0x0A \<notin> set (ip @ ''    '' @ domain)" using n assms by auto
  have f: "fields_acc acc (t @ r) = fields_acc (rev t @ acc) r" if "list_all (\<lambda>c. \<not> is_space c \<and> c \<noteq> CHR ''#'') t" for t acc r
    using that by (induction t arbitrary: acc) auto
  have sp: "is_space (CHR '' '')" by code_simp
  have "fields_acc [] (ip @ ''    '' @ domain) = [ip, domain]"
    using assms f [of domain "[]" "[]"] by (simp add: f plain_token_def sp)
  then show "str_fields (ip @ ''    '' @ domain) = [ip, domain]" by (simp add: str_fields_def)
qed

lemma drop_past: "drop (Suc (length a) + length p) (a @ z # p @ t) = t"
  by simp

lemma take_between: "take (Suc (length (b @ z # c)) - Suc (length b)) (drop (Suc (length b)) ((b @ z # c) @ z # t)) = c @ [z]"
  by simp

lemma override_undone:
  assumes p: "plain_token ip" "plain_token domain" and b: "\<not> str_contains b hosts_start"
  shows "remove_block (b @ nl @ hosts_block ip domain) = b @ nl"
proof -
  let ?l = "ip @ ''    '' @ domain"
  let ?s = "b @ CHR 0x0A # hosts_start @ (CHR 0x0A # ?l @ CHR 0x0A # hosts_end @ nl)"
  have s: "b @ nl @ hosts_block ip domain = ?s" by (simp add: hosts_block_def nl_def)
  have i: "str_index ?s hosts_start = Some (Suc (length b))" by (rule index_after [OF b markers(1,3)])
  have d: "drop (Suc (length b) + length hosts_start) ?s = (CHR 0x0A # ?l) @ CHR 0x0A # hosts_end @ nl" by simp
  have "CHR ''#'' \<notin> set (CHR 0x0A # ?l)" using override_line(1) [OF p] by simp
  then have nc: "\<not> str_contains (CHR 0x0A # ?l) hosts_end" using contains_char [OF _ markers(5)] by blast
  have j: "str_index ((CHR 0x0A # ?l) @ CHR 0x0A # hosts_end @ nl) hosts_end = Some (Suc (length (CHR 0x0A # ?l)))"
    by (rule index_after [OF nc markers(2,4)])
  have e: "dropWhile rx_space (drop (Suc (length (CHR 0x0A # ?l)) + length hosts_end) ((CHR 0x0A # ?l) @ CHR 0x0A # hosts_end @ nl)) = []"
    unfolding drop_past by (simp add: nl_def rx_space_def)
  have c: "cut_blocks [] = []" by (subst cut_blocks.simps) (simp add: hosts_start_def)
  have "cut_blocks ?s = take (Suc (length b)) ?s @ cut_blocks []"
    by (subst cut_blocks.simps) (simp only: i option.simps Let_def d j e)
  then show ?thesis unfolding s remove_block_reference c by (simp add: nl_def)
qed

lemma override_owned:
  assumes p: "plain_token (hm_ip x)" "plain_token (hm_domain x)" and b: "\<not> str_contains b hosts_start" "\<not> str_contains b hosts_end"
  shows "has_owned_line (b @ nl @ hosts_block (hm_ip x) (hm_domain x)) x"
proof -
  let ?l = "hm_ip x @ ''    '' @ hm_domain x"
  let ?p = "b @ CHR 0x0A # hosts_start @ CHR 0x0A # ?l"
  let ?s = "?p @ CHR 0x0A # hosts_end @ nl"
  have s: "b @ nl @ hosts_block (hm_ip x) (hm_domain x) = ?s" by (simp add: hosts_block_def nl_def)
  have s2: "?s = b @ CHR 0x0A # hosts_start @ (CHR 0x0A # ?l @ CHR 0x0A # hosts_end @ nl)" by simp
  have i: "str_index ?s hosts_start = Some (Suc (length b))" unfolding s2 by (rule index_after [OF b(1) markers(1,3)])
  have "\<not> str_contains ?l hosts_end" using override_line(1) [OF p] contains_char [OF _ markers(5)] by blast
  then have nc: "\<not> str_contains ?p hosts_end"
    using b(2) markers(6) contains_split [OF markers(2,4)] by simp
  have j: "str_index ?s hosts_end = Some (Suc (length ?p))" by (rule index_after [OF nc markers(2,4)])
  have t: "take (Suc (length ?p) - Suc (length b)) (drop (Suc (length b)) ?s) = hosts_start @ CHR 0x0A # ?l @ CHR 0x0A # []"
    using take_between [of b "CHR 0x0A" "hosts_start @ CHR 0x0A # ?l" "hosts_end @ nl"] by simp
  have "?l \<in> set (split_char (CHR 0x0A) (hosts_start @ CHR 0x0A # ?l @ CHR 0x0A # []))"
    unfolding split_char_append using split_char_none [OF override_line(2) [OF p]] by simp
  then have "list_ex (\<lambda>line. str_fields line = [hm_ip x, hm_domain x]) (split_char (CHR 0x0A) (hosts_start @ CHR 0x0A # ?l @ CHR 0x0A # []))"
    using override_line(3) [OF p] unfolding list_ex_iff by blast
  then show ?thesis unfolding s has_owned_line_def i j by (simp only: option.simps prod.simps t) simp
qed

section \<open>Properties of the operations\<close>

lemma override_steps:
  assumes "set_hosts_override pf m domain ip dir w = (Inr backup, w')"
  obtains h w3 w4 w5 w6 t x where "w_files w (hosts_path pf m) = Some h" "w_files w3 = w_files w"
    "write_file m backup (f_data h) 384 w3 = (Inr (), w4)"
    "atomic_write_direct m (hosts_path pf m) (override_text (f_data h) ip domain) 420 w4 = (Inr (), w5)"
    "now m w5 = (t, w6)"
    "x = \<lparr>hm_domain = domain, hm_ip = ip, hm_created = t_rfc t, hm_expires = utc_text (t_nanos t + hosts_ttl)\<rparr>"
    "atomic_write m (hosts_meta_path dir) (marshal_indent (enc_hosts_meta x) @ nl) 384 w6 = (Inr (), w')"
proof -
  obtain r w1 where r: "read_file m (hosts_path pf m) w = (r, w1)" by fastforce
  with assms obtain b where b: "r = Inr b" by (cases r) (auto simp: set_hosts_override_def)
  obtain r2 w2 where d: "mkdir_all m dir w1 = (r2, w2)" by fastforce
  obtain t3 w3 where t3: "now m w2 = (t3, w3)" by fastforce
  have r2: "\<exists>u. r2 = Inr u" using assms r b d by (cases r2) (auto simp: set_hosts_override_def)
  let ?b = "hosts_backup dir t3"
  obtain r4 w4 where wr: "write_file m ?b b 384 w3 = (r4, w4)" by fastforce
  obtain r5 w5 where aw: "atomic_write_direct m (hosts_path pf m) (override_text b ip domain) 420 w4 = (r5, w5)" by fastforce
  obtain t w6 where t: "now m w5 = (t, w6)" by fastforce
  let ?x = "\<lparr>hm_domain = domain, hm_ip = ip, hm_created = t_rfc t, hm_expires = utc_text (t_nanos t + hosts_ttl)\<rparr>"
  obtain r7 w7 where mw: "atomic_write m (hosts_meta_path dir) (marshal_indent (enc_hosts_meta ?x) @ nl) 384 w6 = (r7, w7)" by fastforce
  have all: "(case r4 of Inl e \<Rightarrow> (Inl e, w4) | Inr _ \<Rightarrow> (case r5 of Inl e \<Rightarrow> (Inl e, w5) | Inr _ \<Rightarrow>
      (case r7 of Inl e \<Rightarrow> (Inl e, w7) | Inr _ \<Rightarrow> (Inr ?b, w7)))) = (Inr backup, w')"
    using assms r2 by (cases r4; cases r5; cases r7) (auto simp: set_hosts_override_def r b d t3 Let_def wr aw t mw)
  then have ok: "r4 = Inr ()" "r5 = Inr ()" "r7 = Inr ()" "backup = ?b" "w' = w7" by (auto split: sum.splits)
  obtain h where h: "w_files w (hosts_path pf m) = Some h" "b = f_data h"
    using r b by (auto simp: read_file_def split: option.splits)
  have "w_files w3 = w_files w" using file_callD(1) [OF r] file_callD(3) [OF d] nowD [OF t3] by simp
  then show ?thesis using that h ok wr aw t mw by blast
qed


lemma expire_cases:
  assumes "expire_hosts_override pf m dir t w = (r, w')"
  obtains (quiet) "w_files w' = w_files w" "w_trace w' = w_trace w" "r \<noteq> Inr True"
  | (due) g x h w2 r3 w3 where "w_files w (hosts_meta_path dir) = Some g" "valid_hosts_meta (f_data g) = Some x"
      "time_nanos (hm_expires x) \<le> t" "w_files w (hosts_path pf m) = Some h" "has_owned_line (f_data h) x"
      "w_files w2 = w_files w" "w_trace w2 = w_trace w"
      "atomic_write_direct m (hosts_path pf m) (remove_block (f_data h)) 420 w2 = (r3, w3)"
      "(\<exists>e. r3 = Inl e \<and> r = Inl e \<and> w' = w3) \<or>
       (r3 = Inr () \<and> (\<exists>r4. remove_file m (hosts_meta_path dir) w3 = (r4, w') \<and>
          r = (case r4 of Inl e \<Rightarrow> if err_kind e = NotExist then Inr True else Inl e | Inr _ \<Rightarrow> Inr True)))"
proof -
  obtain r1 w1 where r1: "read_file m (hosts_meta_path dir) w = (r1, w1)" by fastforce
  have w1: "w1 = tick w" by (rule file_callD(1) [OF r1])
  show ?thesis
  proof (cases r1)
    case (Inl e)
    show ?thesis by (rule quiet) (use assms r1 w1 Inl in \<open>auto simp: expire_hosts_override_def split: if_splits\<close>)
  next
    case (Inr b)
    obtain g where g: "w_files w (hosts_meta_path dir) = Some g" "b = f_data g"
      using r1 Inr by (auto simp: read_file_def split: option.splits)
    show ?thesis
    proof (cases "valid_hosts_meta b")
      case None
      show ?thesis by (rule quiet) (use assms r1 w1 Inr None in \<open>auto simp: expire_hosts_override_def\<close>)
    next
      case (Some x)
      show ?thesis
      proof (cases "t < time_nanos (hm_expires x)")
        case True
        show ?thesis by (rule quiet) (use assms r1 w1 Inr Some True in \<open>auto simp: expire_hosts_override_def\<close>)
      next
        case False
        obtain r2 w2 where r2: "read_file m (hosts_path pf m) w1 = (r2, w2)" by fastforce
        have w2: "w2 = tick w1" by (rule file_callD(1) [OF r2])
        show ?thesis
        proof (cases r2)
          case (Inl e)
          show ?thesis by (rule quiet) (use assms r1 w1 w2 r2 Inl \<open>r1 = Inr b\<close> Some False in \<open>auto simp: expire_hosts_override_def\<close>)
        next
          case h2: (Inr hs)
          obtain h where h: "w_files w (hosts_path pf m) = Some h" "hs = f_data h"
            using r2 h2 w1 by (auto simp: read_file_def split: option.splits)
          show ?thesis
          proof (cases "has_owned_line hs x")
            case f: False
            show ?thesis by (rule quiet) (use assms r1 w1 w2 r2 h2 \<open>r1 = Inr b\<close> Some False f in \<open>auto simp: expire_hosts_override_def\<close>)
          next
            case True
            obtain r3 w3 where r3: "atomic_write_direct m (hosts_path pf m) (remove_block hs) 420 w2 = (r3, w3)" by fastforce
            obtain r4 w4 where r4: "remove_file m (hosts_meta_path dir) w3 = (r4, w4)" by fastforce
            have "(r, w') = (case r3 of Inl e \<Rightarrow> (Inl e, w3) | Inr _ \<Rightarrow>
                (case r4 of Inl e \<Rightarrow> (if err_kind e = NotExist then Inr True else Inl e, w4) | Inr _ \<Rightarrow> (Inr True, w4)))"
              using assms r1 r2 h2 \<open>r1 = Inr b\<close> Some False True r3 r4
              by (auto simp: expire_hosts_override_def split: sum.splits)
            then have "(\<exists>e. r3 = Inl e \<and> r = Inl e \<and> w' = w3) \<or>
               (r3 = Inr () \<and> (\<exists>r4. remove_file m (hosts_meta_path dir) w3 = (r4, w') \<and>
                  r = (case r4 of Inl e \<Rightarrow> if err_kind e = NotExist then Inr True else Inl e | Inr _ \<Rightarrow> Inr True)))"
              using r4 by (cases r3; cases r4) auto
            then show ?thesis using due [of g x h w2 r3 w3] g h Some False True r3 w1 w2 by (simp add: not_less tick_def)
          qed
        qed
      qed
    qed
  qed
qed

text \<open>C27: an expiry touches the hosts file only with proof.  At every moment of an expiry, a crash
  included, the hosts file is as it was, or the metadata is valid, its time has come, the hosts file
  holds the owned line, and the new file is the old one without the marked blocks.  When the answer is
  that nothing expired, nothing changed; when it expired, the metadata is gone.\<close>

theorem expire_hosts_safe:
  assumes "expire_hosts_override pf m dir t w = (r, w')" "w_trace w = []" "w_files w (hosts_path pf m) = Some h"
    and "hosts_meta_path dir \<noteq> hosts_path pf m"
  shows "always (\<lambda>f. f = Some h \<or>
      (\<exists>g x. w_files w (hosts_meta_path dir) = Some g \<and> valid_hosts_meta (f_data g) = Some x \<and> time_nanos (hm_expires x) \<le> t \<and>
         has_owned_line (f_data h) x \<and> map_option f_data f = Some (remove_block (f_data h)))) (hosts_path pf m) w' \<and>
    (r = Inr False \<longrightarrow> w_files w' = w_files w) \<and>
    (r = Inr True \<longrightarrow> w_files w' (hosts_meta_path dir) = None \<and> map_option f_data (w_files w' (hosts_path pf m)) = Some (remove_block (f_data h)))"
  using assms(1)
proof (cases rule: expire_cases)
  case quiet
  then show ?thesis using assms(2,3) by (simp add: always_def)
next
  case (due g x h' w2 r3 w3)
  have h: "h' = h" using due(4) assms(3) by simp
  let ?P = "\<lambda>f. f = Some h \<or> (\<exists>g x. w_files w (hosts_meta_path dir) = Some g \<and> valid_hosts_meta (f_data g) = Some x \<and>
      time_nanos (hm_expires x) \<le> t \<and> has_owned_line (f_data h) x \<and> map_option f_data f = Some (remove_block (f_data h)))"
  have "always (old_or_new (Some h) (remove_block (f_data h))) (hosts_path pf m) w3"
    by (rule atomic_write_direct_always [OF due(8) [unfolded h]]) (use due(6,7) assms(2,3) in \<open>simp add: always_def old_or_new_def\<close>)
  then have a3: "always ?P (hosts_path pf m) w3"
    by (rule always_mono) (use due(1-3,5) h in \<open>auto simp: old_or_new_def\<close>)
  from due(9) show ?thesis
  proof
    assume "\<exists>e. r3 = Inl e \<and> r = Inl e \<and> w' = w3"
    then show ?thesis using a3 by auto
  next
    assume e: "r3 = Inr () \<and> (\<exists>r4. remove_file m (hosts_meta_path dir) w3 = (r4, w') \<and>
          r = (case r4 of Inl e \<Rightarrow> if err_kind e = NotExist then Inr True else Inl e | Inr _ \<Rightarrow> Inr True))"
    then obtain r4 where r4: "remove_file m (hosts_meta_path dir) w3 = (r4, w')"
      "r = (case r4 of Inl e \<Rightarrow> if err_kind e = NotExist then Inr True else Inl e | Inr _ \<Rightarrow> Inr True)" by blast
    have f3: "w_files w3 = (w_files w2)(hosts_path pf m \<mapsto> \<lparr>f_data = remove_block (f_data h), f_perm = 420, f_synced = True\<rparr>)"
      using atomic_write_direct_ok due(8) e h by blast
    have a: "always ?P (hosts_path pf m) w'" using file_call_alwaysD(1) [OF r4(1) assms(4) [symmetric]] a3 by blast
    have nf: "r \<noteq> Inr False" using r4(2) by (auto split: sum.splits if_splits)
    have "r = Inr True \<Longrightarrow> w_files w' (hosts_meta_path dir) = None \<and> w_files w' (hosts_path pf m) = w_files w3 (hosts_path pf m)"
      using r4 assms(4) by (auto simp: remove_file_def fault_err_def split: option.splits if_splits)
    then show ?thesis using a nf f3 by auto
  qed
qed

text \<open>Removing an override by hand leaves its metadata behind.  After a successful removal the
  metadata still stands, and once its time has come every expiry fails, since the ownership of the
  line that is no longer there cannot be proven.\<close>

theorem removal_leaves_metadata:
  assumes "remove_hosts_override pf m w = (Inr u, w')" "w_files w (hosts_path pf m) = Some h"
    and "w_files w (hosts_meta_path dir) = Some g" "valid_hosts_meta (f_data g) = Some x" "time_nanos (hm_expires x) \<le> t"
    and "\<not> str_contains (remove_block (f_data h)) hosts_start" "hosts_meta_path dir \<noteq> hosts_path pf m" "reliable m"
  shows "w_files w' (hosts_meta_path dir) = Some g \<and>
    fst (expire_hosts_override pf m dir t w') = Inl (new_err ''hosts override ownership cannot be proven'')"
proof -
  obtain w1 where "read_file m (hosts_path pf m) w = (Inr (f_data h), w1)" "w_files w1 = w_files w"
    using assms(2,8) by (simp add: read_file_def)
  then have f: "w_files w' = (w_files w)(hosts_path pf m \<mapsto> \<lparr>f_data = remove_block (f_data h), f_perm = 420, f_synced = True\<rparr>)"
    using assms(1) atomic_write_direct_ok [of m "hosts_path pf m" "remove_block (f_data h)" 420 w1]
    by (auto simp: remove_hosts_override_def)
  have n: "\<not> has_owned_line (remove_block (f_data h)) x" using assms(6) by (simp add: has_owned_line_def str_contains_def)
  have g: "w_files w' (hosts_meta_path dir) = Some g" using f assms(3,7) by simp
  have "read_file m (hosts_meta_path dir) w' = (Inr (f_data g), tick w')" using g assms(8) by (simp add: read_file_def)
  moreover have "read_file m (hosts_path pf m) (tick w') = (Inr (remove_block (f_data h)), tick (tick w'))"
    using f assms(8) by (simp add: read_file_def)
  ultimately show ?thesis using g assms(4,5) n by (simp add: expire_hosts_override_def)
qed

section \<open>A concrete override\<close>

lemma run_hosts_meta [simp]:
  "run_field hosts_meta_fields ''domain'' (JStr x) a = (a\<lparr>hm_domain := x\<rparr>, True)"
  "run_field hosts_meta_fields ''ip'' (JStr x) a = (a\<lparr>hm_ip := x\<rparr>, True)"
  "is_time x \<Longrightarrow> run_field hosts_meta_fields ''created_at'' (JStr x) a = (a\<lparr>hm_created := x\<rparr>, True)"
  "is_time x \<Longrightarrow> run_field hosts_meta_fields ''expires_at'' (JStr x) a = (a\<lparr>hm_expires := x\<rparr>, True)"
  by (simp_all add: run_field_def hosts_meta_fields_def find_field_def dec_field_def)

lemma wf_enc_hosts_meta [simp]: "wf_json (enc_hosts_meta x)"
  by (simp add: enc_hosts_meta_def list_all_iff)

lemma hosts_meta_back:
  assumes "is_time (hm_created x)" "is_time (hm_expires x)" "hm_domain x \<noteq> []" "hm_ip x \<noteq> []" "\<not> time_is_zero (hm_expires x)"
  shows "valid_hosts_meta (marshal_indent (enc_hosts_meta x) @ nl) = Some x"
proof -
  have "dec_struct hosts_meta_fields (enc_hosts_meta x) zero_hosts_meta = (x, True)"
    using assms by (cases x) (simp add: enc_hosts_meta_def dec_struct_def zero_hosts_meta_def dec_members_run dec_members.simps(1) del: dec_members.simps(2))
  then have "unmarshal (dec_struct hosts_meta_fields) (marshal_indent (enc_hosts_meta x) @ nl) zero_hosts_meta = (x, True)"
    by (simp add: unmarshal_text)
  then show ?thesis using assms by (simp add: valid_hosts_meta_def)
qed

definition sample_meta :: hosts_meta where
  "sample_meta = \<lparr>hm_domain = ''a.b'', hm_ip = ''1.2.3.4'', hm_created = ''2026-01-02T03:04:05Z'', hm_expires = ''2026-01-02T03:34:05Z''\<rparr>"

definition sample_hosts :: "unit world" where
  "sample_hosts = world_of [(''/etc/hosts'', ''x'' @ nl @ hosts_block ''1.2.3.4'' ''a.b''),
     (''/b/hosts-override.json'', marshal_indent (enc_hosts_meta sample_meta) @ nl)] ()"

lemma sample_valid: "valid_hosts_meta (marshal_indent (enc_hosts_meta sample_meta) @ nl) = Some sample_meta"
  by (rule hosts_meta_back) (code_simp+)

lemma sample_facts: "hosts_path Linux quiet_machine = ''/etc/hosts''" "hosts_meta_path ''/b'' = ''/b/hosts-override.json''"
    "time_nanos (hm_expires sample_meta) \<le> 2000000000000000000"
    "has_owned_line (''x'' @ nl @ hosts_block ''1.2.3.4'' ''a.b'') sample_meta"
    "remove_block (''x'' @ nl @ hosts_block ''1.2.3.4'' ''a.b'') = ''x'' @ nl"
    "\<not> str_contains (''x'' @ nl) hosts_start" "hm_ip sample_meta = ''1.2.3.4''" "hm_domain sample_meta = ''a.b''"
  by code_simp+

lemma sample_files: "w_files sample_hosts ''/etc/hosts'' = Some \<lparr>f_data = ''x'' @ nl @ hosts_block ''1.2.3.4'' ''a.b'', f_perm = 384, f_synced = True\<rparr>"
    "w_files sample_hosts ''/b/hosts-override.json'' = Some \<lparr>f_data = marshal_indent (enc_hosts_meta sample_meta) @ nl, f_perm = 384, f_synced = True\<rparr>"
    "w_trace sample_hosts = []"
  by (simp_all add: sample_hosts_def world_of_def)

lemma direct_succeeds: "reliable m \<Longrightarrow> no_temps p w \<Longrightarrow> p \<noteq> [] \<Longrightarrow> \<exists>w'. atomic_write_direct m p d n w = (Inr (), w')"
  using write_replace_succeeds [of m p "tick w" d n] by (auto simp: atomic_write_direct_def mkdir_all_def no_temps_def)

lemma sample_temps: "temp_name ''/etc/hosts'' = ''/etc/.hosts.tmp-''" "temp_name ''/b/hosts-override.json'' = ''/b/.hosts-override.json.tmp-''"
    "previous_good ''/b/hosts-override.json'' = ''/b/hosts-override.json.previous-good''"
    "temp_name ''/b/hosts-override.json.previous-good'' = ''/b/.hosts-override.json.previous-good.tmp-''"
  by code_simp+

lemma sample_no_temps: "no_temps ''/etc/hosts'' sample_hosts"
  by (auto simp: no_temps_def sample_hosts_def world_of_def sample_temps)

lemma expire_hosts_safe_witness:
  "\<exists>w'. expire_hosts_override Linux quiet_machine ''/b'' 2000000000000000000 sample_hosts = (Inr True, w') \<and>
     w_files w' ''/b/hosts-override.json'' = None \<and> map_option f_data (w_files w' ''/etc/hosts'') = Some (''x'' @ nl)"
proof -
  have n2: "no_temps ''/etc/hosts'' (tick (tick sample_hosts))" using sample_no_temps by (simp add: no_temps_def)
  obtain w3 where w3: "atomic_write_direct quiet_machine ''/etc/hosts'' (''x'' @ nl) 420 (tick (tick sample_hosts)) = (Inr (), w3)"
    using direct_succeeds [OF reliable_quiet n2] by blast
  have "w_files w3 ''/b/hosts-override.json'' \<noteq> None"
    using atomic_write_direct_ok [OF w3] by (simp add: sample_files)
  then obtain w4 where "remove_file quiet_machine ''/b/hosts-override.json'' w3 = (Inr (), w4)"
    by (auto simp: remove_file_def)
  then have e: "expire_hosts_override Linux quiet_machine ''/b'' 2000000000000000000 sample_hosts = (Inr True, w4)"
    using w3 sample_valid sample_facts by (simp add: expire_hosts_override_def read_file_def sample_files)
  show ?thesis using expire_hosts_safe [OF e sample_files(3), unfolded sample_facts, OF sample_files(1)] e sample_facts(5) by simp
qed

lemma removal_leaves_metadata_witness:
  "\<exists>w'. fst (expire_hosts_override Linux quiet_machine ''/b'' 2000000000000000000 w') = Inl (new_err ''hosts override ownership cannot be proven'')"
proof -
  have n2: "no_temps ''/etc/hosts'' (tick sample_hosts)" using sample_no_temps by (simp add: no_temps_def)
  obtain w3 where w3: "atomic_write_direct quiet_machine ''/etc/hosts'' (''x'' @ nl) 420 (tick sample_hosts) = (Inr (), w3)"
    using direct_succeeds [OF reliable_quiet n2] by blast
  then have r: "remove_hosts_override Linux quiet_machine sample_hosts = (Inr (), w3)"
    using sample_facts by (simp add: remove_hosts_override_def read_file_def sample_files)
  show ?thesis
    using removal_leaves_metadata [OF r, where dir = "''/b''" and x = sample_meta and t = 2000000000000000000,
        unfolded sample_facts, OF sample_files(1,2)] sample_valid sample_facts by auto
qed


end
