(* ===== verification/KernelIsolation.thy ===== *)
theory KernelIsolation imports PrivilegedHelper Manager begin

text \<open>
  The kernel-hard mode (\<^verbatim>\<open>kernel_isolation_linux.go\<close>): the protected program runs in a network
  namespace of its own, whose only way out is a veth pair, a routing table and a packet filter
  that the root helper sets up and takes down again.  The sysctl files below \<^verbatim>\<open>/proc/sys\<close> are
  files of the model, since the program only reads and writes them; commands, directories of
  \<^verbatim>\<open>/sys/fs/cgroup\<close> and the processes belong to the machine.
\<close>

section \<open>The state file\<close>

record hard_state =
  hl_namespace :: string
  hl_host :: string
  hl_peer :: string
  hl_vpn :: string
  hl_uid :: nat
  hl_pid :: int
  hl_cgroup :: string
  hl_fwd4 :: string
  hl_fwd6 :: string
  hl_all4 :: string
  hl_all6 :: string
  hl_vpn4 :: string
  hl_vpn6 :: string

definition zero_hard_state :: hard_state where
  "zero_hard_state = \<lparr>hl_namespace = [], hl_host = [], hl_peer = [], hl_vpn = [], hl_uid = 0, hl_pid = 0, hl_cgroup = [],
     hl_fwd4 = [], hl_fwd6 = [], hl_all4 = [], hl_all6 = [], hl_vpn4 = [], hl_vpn6 = []\<rparr>"

definition hard_table_base :: int where "hard_table_base = 20240"
definition hard_rule_base :: int where "hard_rule_base = 19240"
definition hard_v4_prefix :: string where "hard_v4_prefix = ''198.18.0.0/30''"
definition hard_v6_host :: string where "hard_v6_host = ''fd42:aa:1::1/126''"
definition hard_v6_peer :: string where "hard_v6_peer = ''fd42:aa:1::2/126''"

definition hard_names :: "nat \<Rightarrow> string \<times> string \<times> string" where
  "hard_names uid = (let s = nat_digits uid in (''agp-net-'' @ s, ''agp-h-'' @ s, ''agp-n-'' @ s))"

definition hard_cgroup_path :: "nat \<Rightarrow> string" where
  "hard_cgroup_path uid = path_join ''/sys/fs/cgroup'' (''antigraviti-proxi-'' @ nat_digits uid)"

definition hard_table_name :: "nat \<Rightarrow> string" where
  "hard_table_name uid = ''agp_hard_'' @ nat_digits uid"

definition hard_state_path :: "string \<Rightarrow> string" where
  "hard_state_path root = path_join root ''kernel-hard-state.json''"

definition enc_hard_state :: "hard_state \<Rightarrow> json" where
  "enc_hard_state s = JObj
     ([(''namespace'', JStr (hl_namespace s)), (''host_veth'', JStr (hl_host s)), (''peer_veth'', JStr (hl_peer s)),
       (''vpn_interface'', JStr (hl_vpn s)), (''uid'', enc_int (int (hl_uid s)))] @
      opt_int ''pid'' (hl_pid s) @ [(''cgroup'', JStr (hl_cgroup s))] @
      opt_string ''forwarding_ipv4'' (hl_fwd4 s) @ opt_string ''forwarding_ipv6'' (hl_fwd6 s) @
      opt_string ''forwarding_all_ipv4'' (hl_all4 s) @ opt_string ''forwarding_all_ipv6'' (hl_all6 s) @
      opt_string ''forwarding_vpn_ipv4'' (hl_vpn4 s) @ opt_string ''forwarding_vpn_ipv6'' (hl_vpn6 s))"

text \<open>Decoding into a \<^verbatim>\<open>uint32\<close>.\<close>

definition dec_uint32 :: "nat decoder" where
  "dec_uint32 j cur =
     (case j of
        JNull \<Rightarrow> (cur, True)
      | JNum t \<Rightarrow> (case parse_uint32 t of Some n \<Rightarrow> (n, True) | None \<Rightarrow> (cur, False))
      | _ \<Rightarrow> (cur, False))"

definition hard_state_fields :: "(string \<times> hard_state decoder) list" where
  "hard_state_fields =
     [dec_field ''namespace'' dec_string hl_namespace (\<lambda>v a. a\<lparr>hl_namespace := v\<rparr>),
      dec_field ''host_veth'' dec_string hl_host (\<lambda>v a. a\<lparr>hl_host := v\<rparr>),
      dec_field ''peer_veth'' dec_string hl_peer (\<lambda>v a. a\<lparr>hl_peer := v\<rparr>),
      dec_field ''vpn_interface'' dec_string hl_vpn (\<lambda>v a. a\<lparr>hl_vpn := v\<rparr>),
      dec_field ''uid'' dec_uint32 hl_uid (\<lambda>v a. a\<lparr>hl_uid := v\<rparr>),
      dec_field ''pid'' dec_int hl_pid (\<lambda>v a. a\<lparr>hl_pid := v\<rparr>),
      dec_field ''cgroup'' dec_string hl_cgroup (\<lambda>v a. a\<lparr>hl_cgroup := v\<rparr>),
      dec_field ''forwarding_ipv4'' dec_string hl_fwd4 (\<lambda>v a. a\<lparr>hl_fwd4 := v\<rparr>),
      dec_field ''forwarding_ipv6'' dec_string hl_fwd6 (\<lambda>v a. a\<lparr>hl_fwd6 := v\<rparr>),
      dec_field ''forwarding_all_ipv4'' dec_string hl_all4 (\<lambda>v a. a\<lparr>hl_all4 := v\<rparr>),
      dec_field ''forwarding_all_ipv6'' dec_string hl_all6 (\<lambda>v a. a\<lparr>hl_all6 := v\<rparr>),
      dec_field ''forwarding_vpn_ipv4'' dec_string hl_vpn4 (\<lambda>v a. a\<lparr>hl_vpn4 := v\<rparr>),
      dec_field ''forwarding_vpn_ipv6'' dec_string hl_vpn6 (\<lambda>v a. a\<lparr>hl_vpn6 := v\<rparr>)]"

definition write_hard_state :: "'k machine \<Rightarrow> string \<Rightarrow> hard_state \<Rightarrow> 'k world \<Rightarrow> unit res \<times> 'k world" where
  "write_hard_state m root s w = write_file m (hard_state_path root) (marshal_indent (enc_hard_state s) @ nl) 384 w"

definition read_hard_state :: "'k machine \<Rightarrow> string \<Rightarrow> 'k world \<Rightarrow> hard_state res \<times> 'k world" where
  "read_hard_state m root w =
     (case read_file m (hard_state_path root) w of
        (Inl e, w1) \<Rightarrow> (Inl e, w1)
      | (Inr b, w1) \<Rightarrow>
          (let (s, ok) = unmarshal (dec_struct hard_state_fields) b zero_hard_state in
           if \<not> ok then (Inl json_error, w1)
           else if hl_namespace s = [] \<or> hl_host s = [] \<or> hl_peer s = [] \<or> hl_vpn s = []
           then (Inl (new_err ''invalid kernel-hard state''), w1)
           else (Inr s, w1)))"

section \<open>Steps\<close>

text \<open>A step may fail; a sequence stops at the first failure.\<close>

type_synonym 'k step = "'k world \<Rightarrow> gerr option \<times> 'k world"

fun each_step :: "'k step list \<Rightarrow> 'k step" where
  "each_step [] w = (None, w)"
| "each_step (f # fs) w = (case f w of (Some e, w1) \<Rightarrow> (Some e, w1) | (None, w1) \<Rightarrow> each_step fs w1)"

definition ip_run :: "'k machine \<Rightarrow> string list \<Rightarrow> 'k step" where
  "ip_run m args w =
     (case exec_cmd m (''ip'' # args) w of
        ((out, Some e), w1) \<Rightarrow> (Some (wrap_out (''ip '' @ str_join args '' '' @ '': '') e (trim_space out)), w1)
      | ((_, None), w1) \<Rightarrow> (None, w1))"

definition put_file :: "'k machine \<Rightarrow> string \<Rightarrow> string \<Rightarrow> string \<Rightarrow> 'k step" where
  "put_file m context p data w =
     (case write_file m p data 420 w of (Inl e, w1) \<Rightarrow> (Some (wrap_err context e), w1) | (Inr _, w1) \<Rightarrow> (None, w1))"

definition safe_linux_name :: "string \<Rightarrow> bool" where
  "safe_linux_name n \<longleftrightarrow> n \<noteq> [] \<and> length n \<le> 15 \<and>
     list_all (\<lambda>c. c = CHR ''-'' \<or> c = CHR ''_'' \<or> c = CHR ''.'' \<or>
       (let i = of_char c :: nat in 48 \<le> i \<and> i \<le> 57 \<or> 97 \<le> i \<and> i \<le> 122 \<or> 65 \<le> i \<and> i \<le> 90)) n"

definition net_interface :: "'k machine \<Rightarrow> string \<Rightarrow> 'k step" where
  "net_interface m name w =
     (case exec_cmd m [''ip'', ''link'', ''show'', ''dev'', name] w of
        ((_, Some e), w1) \<Rightarrow> (Some (wrap_err (''VPN interface '' @ go_quote name @ '' is unavailable: '') e), w1)
      | ((out, None), w1) \<Rightarrow>
          (if str_contains out ''UP'' then None else Some (new_err (''VPN interface '' @ go_quote name @ '' is down'')), w1))"

fun all_commands :: "string list \<Rightarrow> 'k machine \<Rightarrow> 'k step" where
  "all_commands [] m w = (None, w)"
| "all_commands (n # ns) m w =
     (case look_path m n w of
        (None, w1) \<Rightarrow> (Some (new_err (''required Linux command '' @ go_quote n @ '' is unavailable: exec: '' @ go_quote n @ '': executable file not found in $PATH'')), w1)
      | (Some _, w1) \<Rightarrow> all_commands ns m w1)"

definition hard_available :: "'k machine \<Rightarrow> 'k step" where
  "hard_available m w =
     (case host_stat m ''/sys/fs/cgroup/cgroup.controllers'' w of
        (Inl e, w1) \<Rightarrow> (Some (wrap_err ''cgroup v2 unavailable: '' e), w1)
      | (Inr _, w1) \<Rightarrow> all_commands [''ip'', ''nft''] m w1)"

section \<open>Forwarding\<close>

definition fwd4_path :: string where "fwd4_path = ''/proc/sys/net/ipv4/ip_forward''"
definition all4_path :: string where "all4_path = ''/proc/sys/net/ipv4/conf/all/forwarding''"
definition all6_path :: string where "all6_path = ''/proc/sys/net/ipv6/conf/all/forwarding''"
definition vpn4_path :: "string \<Rightarrow> string" where "vpn4_path vpn = path_join (path_join ''/proc/sys/net/ipv4/conf'' vpn) ''forwarding''"
definition vpn6_path :: "string \<Rightarrow> string" where "vpn6_path vpn = path_join (path_join ''/proc/sys/net/ipv6/conf'' vpn) ''forwarding''"

definition read_trimmed :: "'k machine \<Rightarrow> string \<Rightarrow> string \<Rightarrow> 'k world \<Rightarrow> string res \<times> 'k world" where
  "read_trimmed m context p w =
     (case read_file m p w of (Inl e, w1) \<Rightarrow> (Inl (wrap_err context e), w1) | (Inr b, w1) \<Rightarrow> (Inr (trim_space b), w1))"

definition capture_forwarding :: "'k machine \<Rightarrow> hard_state \<Rightarrow> 'k world \<Rightarrow> hard_state res \<times> 'k world" where
  "capture_forwarding m s w =
     (let get = (\<lambda>p. read_trimmed m (''read forwarding state '' @ p @ '': '') p) in
      case read_trimmed m ''read IPv4 forwarding state: '' fwd4_path w of
        (Inl e, w1) \<Rightarrow> (Inl e, w1)
      | (Inr a, w1) \<Rightarrow> (case read_trimmed m ''read IPv6 forwarding state: '' all6_path w1 of
        (Inl e, w2) \<Rightarrow> (Inl e, w2)
      | (Inr b, w2) \<Rightarrow> (case get all4_path w2 of
        (Inl e, w3) \<Rightarrow> (Inl e, w3)
      | (Inr c, w3) \<Rightarrow> (case get all6_path w3 of
        (Inl e, w4) \<Rightarrow> (Inl e, w4)
      | (Inr d, w4) \<Rightarrow> (case get (vpn4_path (hl_vpn s)) w4 of
        (Inl e, w5) \<Rightarrow> (Inl e, w5)
      | (Inr f, w5) \<Rightarrow> (case get (vpn6_path (hl_vpn s)) w5 of
        (Inl e, w6) \<Rightarrow> (Inl e, w6)
      | (Inr h, w6) \<Rightarrow>
          (Inr (s\<lparr>hl_fwd4 := a, hl_fwd6 := b, hl_all4 := c, hl_all6 := d, hl_vpn4 := f, hl_vpn6 := h\<rparr>), w6)))))))"

definition set_forwarding :: "'k machine \<Rightarrow> bool \<Rightarrow> 'k step" where
  "set_forwarding m on = (let v = if on then ''1'' else ''0'' in put_file m (''set IPv4 forwarding='' @ v @ '': '') fwd4_path v)"

definition set_forwarding6 :: "'k machine \<Rightarrow> bool \<Rightarrow> 'k step" where
  "set_forwarding6 m on = (let v = if on then ''1'' else ''0'' in put_file m (''set IPv6 forwarding='' @ v @ '': '') all6_path v)"

definition enable_interface_forwarding :: "'k machine \<Rightarrow> string \<Rightarrow> 'k step" where
  "enable_interface_forwarding m vpn =
     each_step (map (\<lambda>p. put_file m (''enable forwarding at '' @ p @ '': '') p ''1'') [all4_path, all6_path, vpn4_path vpn, vpn6_path vpn])"

text \<open>Writing a value back unless nothing was captured; errors are ignored.\<close>

definition put_back :: "'k machine \<Rightarrow> string \<times> string \<Rightarrow> 'k world \<Rightarrow> 'k world" where
  "put_back m pv w = (if snd pv = [] then w else snd (write_file m (fst pv) (snd pv) 420 w))"

definition restore_forwarding :: "'k machine \<Rightarrow> hard_state \<Rightarrow> 'k world \<Rightarrow> 'k world" where
  "restore_forwarding m s w = fold (put_back m)
     [(all4_path, hl_all4 s), (all6_path, hl_all6 s), (vpn4_path (hl_vpn s), hl_vpn4 s), (vpn6_path (hl_vpn s), hl_vpn6 s)] w"

section \<open>Taking down\<close>

definition hard_cleanup :: "'k machine \<Rightarrow> hard_state \<Rightarrow> 'k world \<Rightarrow> 'k world" where
  "hard_cleanup m s w =
     (let w1 = snd (exec_cmd m [''nft'', ''delete'', ''table'', ''inet'', hard_table_name (hl_uid s)] w);
          table = itoa hard_table_base; prio = itoa hard_rule_base;
          w2 = fold (\<lambda>args w. snd (exec_cmd m (''ip'' # args) w))
            [[''-4'', ''rule'', ''del'', ''priority'', prio, ''from'', ''198.18.0.2/32'', ''table'', table],
             [''-6'', ''rule'', ''del'', ''priority'', prio, ''from'', ''fd42:aa:1::2/128'', ''table'', table],
             [''-4'', ''route'', ''flush'', ''table'', table],
             [''-6'', ''route'', ''flush'', ''table'', table],
             [''link'', ''del'', hl_host s],
             [''netns'', ''del'', hl_namespace s]] w1;
          w3 = snd (remove_all m (path_join ''/etc/netns'' (hl_namespace s)) w2);
          w4 = restore_forwarding m s (fold (put_back m) [(fwd4_path, hl_fwd4 s), (all6_path, hl_fwd6 s)] w3)
      in snd (remove_dir m (hl_cgroup s) w4))"

section \<open>Routes\<close>

text \<open>\<^verbatim>\<open>ip -j addr show\<close> as the code decodes it.\<close>

definition addr_rows :: "string list list decoder" where
  "addr_rows = dec_list [] (dec_struct
     [dec_field ''addr_info'' (dec_list [] (dec_struct [dec_field ''local'' dec_string id (\<lambda>v _. v)])) id (\<lambda>v _. v)])"

definition interface_source_address :: "'k machine \<Rightarrow> string \<Rightarrow> string \<Rightarrow> 'k world \<Rightarrow> string \<times> 'k world" where
  "interface_source_address m vpn family w =
     (case exec_output m [''ip'', ''-j'', family, ''addr'', ''show'', ''dev'', vpn] w of
        ((_, Some _), w1) \<Rightarrow> ([], w1)
      | ((out, None), w1) \<Rightarrow>
          (case unmarshal addr_rows out [] of
             (row # _, True) \<Rightarrow> (case find (\<lambda>a. a \<noteq> []) row of Some a \<Rightarrow> (a, w1) | None \<Rightarrow> ([], w1))
           | _ \<Rightarrow> ([], w1)))"

record route_row =
  rr_dst :: string
  rr_dev :: string
  rr_gateway :: string

definition dec_routes :: "route_row list decoder" where
  "dec_routes = dec_list \<lparr>rr_dst = [], rr_dev = [], rr_gateway = []\<rparr> (dec_struct
     [dec_field ''dst'' dec_string rr_dst (\<lambda>v a. a\<lparr>rr_dst := v\<rparr>),
      dec_field ''dev'' dec_string rr_dev (\<lambda>v a. a\<lparr>rr_dev := v\<rparr>),
      dec_field ''gateway'' dec_string rr_gateway (\<lambda>v a. a\<lparr>rr_gateway := v\<rparr>)])"

text \<open>A destination: a prefix, or a single address.\<close>

definition route_prefix :: "string \<Rightarrow> (ip \<times> nat) option" where
  "route_prefix dst =
     (case parse_prefix dst of
        Some p \<Rightarrow> Some p
      | None \<Rightarrow> (case parse_addr dst of Some (a, _) \<Rightarrow> Some (a, addr_bits a) | None \<Rightarrow> None))"

text \<open>\<^verbatim>\<open>netip.Addr.IsGlobalUnicast\<close>, \<^verbatim>\<open>IsPrivate\<close> and \<^verbatim>\<open>String\<close>.\<close>

definition global_unicast :: "ip \<Rightarrow> bool" where
  "global_unicast a \<longleftrightarrow>
     (let b = ip_norm a in
      if length b = 4
      then b \<noteq> [0, 0, 0, 0] \<and> b \<noteq> [255, 255, 255, 255] \<and> b ! 0 \<noteq> 127 \<and> b ! 0 div 16 \<noteq> 14 \<and> \<not> (b ! 0 = 169 \<and> b ! 1 = 254)
      else b \<noteq> replicate 16 0 \<and> b \<noteq> replicate 15 0 @ [1] \<and> b ! 0 \<noteq> 255 \<and> \<not> (b ! 0 = 254 \<and> b ! 1 div 64 = 2))"

definition private_addr :: "ip \<Rightarrow> bool" where
  "private_addr a \<longleftrightarrow>
     (let b = ip_norm a in
      if length b = 4
      then b ! 0 = 10 \<or> b ! 0 = 172 \<and> b ! 1 div 16 = 1 \<or> b ! 0 = 192 \<and> b ! 1 = 168
      else b ! 0 div 2 = 126)"

definition netip_text :: "ip \<Rightarrow> string" where
  "netip_text a =
     (if length a = 4 then ipv4_text a
      else case to4 a of Some b \<Rightarrow> ''::ffff:'' @ ipv4_text b | None \<Rightarrow> ipv6_text a)"

text \<open>The addresses of the copied host routes, by family.\<close>

type_synonym transport = "string list \<times> string list"

definition transport_route :: "hard_state \<Rightarrow> string \<Rightarrow> route_row \<Rightarrow> (ip \<times> string list) option" where
  "transport_route s family r =
     (if rr_dev r = [] \<or> rr_dev r = hl_vpn s \<or> rr_dst r = ''default'' then None
      else case route_prefix (rr_dst r) of
          None \<Rightarrow> None
        | Some (a, n) \<Rightarrow>
            if n \<noteq> addr_bits a \<or> \<not> global_unicast a \<or> private_addr a then None
            else Some (a, [family, ''route'', ''replace'', prefix_text (a, n)] @
                   (if rr_gateway r \<noteq> [] then [''via'', rr_gateway r] else []) @
                   [''dev'', rr_dev r, ''table'', itoa hard_table_base]))"

fun copy_rows :: "'k machine \<Rightarrow> (ip \<times> string list) list \<Rightarrow> transport \<Rightarrow> 'k world \<Rightarrow> transport res \<times> 'k world" where
  "copy_rows m [] t w = (Inr t, w)"
| "copy_rows m ((a, args) # rs) (t4, t6) w =
     (case ip_run m args w of
        (Some e, w1) \<Rightarrow> (Inl e, w1)
      | (None, w1) \<Rightarrow>
          copy_rows m rs (if length a = 4 then (t4 @ [netip_text a], t6) else (t4, t6 @ [netip_text a])) w1)"

fun copy_transport_routes :: "string list \<Rightarrow> 'k machine \<Rightarrow> hard_state \<Rightarrow> transport \<Rightarrow> 'k world \<Rightarrow> transport res \<times> 'k world" where
  "copy_transport_routes [] m s t w = (Inr t, w)"
| "copy_transport_routes (family # fs) m s t w =
     (case exec_output m [''ip'', ''-j'', family, ''route'', ''show'', ''table'', ''main''] w of
        ((_, Some (e, _)), w1) \<Rightarrow> (Inl (wrap_err ''inspect host transport routes: '' e), w1)
      | ((out, None), w1) \<Rightarrow>
          (case unmarshal dec_routes out [] of
             (_, False) \<Rightarrow> (Inl json_error, w1)
           | (rows, True) \<Rightarrow>
               (case copy_rows m (List.map_filter (transport_route s family) rows) t w1 of
                  (Inl e, w2) \<Rightarrow> (Inl e, w2)
                | (Inr t1, w2) \<Rightarrow> copy_transport_routes fs m s t1 w2)))"

definition hard_route_cmds :: "hard_state \<Rightarrow> string \<Rightarrow> string \<Rightarrow> string list list" where
  "hard_route_cmds s v4src v6src =
     (let table = itoa hard_table_base; prio = itoa hard_rule_base;
          src = (\<lambda>a. if a \<noteq> [] then [''src'', a] else [])
      in [[''-4'', ''rule'', ''add'', ''priority'', prio, ''from'', ''198.18.0.2/32'', ''table'', table],
          [''-6'', ''rule'', ''add'', ''priority'', prio, ''from'', ''fd42:aa:1::2/128'', ''table'', table],
          [''-4'', ''route'', ''replace'', ''default'', ''dev'', hl_vpn s] @ src v4src @ [''table'', table],
          [''-6'', ''route'', ''replace'', ''default'', ''dev'', hl_vpn s] @ src v6src @ [''table'', table]])"

definition install_hard_routes :: "'k machine \<Rightarrow> hard_state \<Rightarrow> 'k world \<Rightarrow> transport res \<times> 'k world" where
  "install_hard_routes m s w =
     (let (v4src, w1) = interface_source_address m (hl_vpn s) ''-4'' w;
          (v6src, w2) = interface_source_address m (hl_vpn s) ''-6'' w1
      in case each_step (map (ip_run m) (hard_route_cmds s v4src v6src)) w2 of
           (Some e, w3) \<Rightarrow> (Inl e, w3)
         | (None, w3) \<Rightarrow> copy_transport_routes [''-4'', ''-6''] m s ([], []) w3)"

section \<open>The packet filter\<close>

definition hard_firewall_script :: "hard_state \<Rightarrow> transport \<Rightarrow> string" where
  "hard_firewall_script s t =
     (let table = hard_table_name (hl_uid s); q = [CHR 0x22];
          set_of = (\<lambda>name ty as. if as = [] then [] else
            ''add set inet '' @ table @ '' '' @ name @ '' { type '' @ ty @ ''; elements = { '' @ str_join as '', '' @ '' } }'' @ nl);
          accept = (\<lambda>fam name as. if as = [] then [] else
            ''add rule inet '' @ table @ '' forward iifname '' @ q @ hl_host s @ q @ '' '' @ fam @ '' daddr @'' @ name @ '' counter accept'' @ nl)
      in ''add table inet '' @ table @ nl @
         set_of ''transport4'' ''ipv4_addr'' (fst t) @ set_of ''transport6'' ''ipv6_addr'' (snd t) @
         ''add chain inet '' @ table @ '' forward { type filter hook forward priority -150; policy accept; }'' @ nl @
         ''add chain inet '' @ table @ '' postrouting { type nat hook postrouting priority 100; policy accept; }'' @ nl @
         ''add rule inet '' @ table @ '' postrouting oifname '' @ q @ hl_vpn s @ q @ '' ip saddr '' @ hard_v4_prefix @ '' counter masquerade'' @ nl @
         ''add rule inet '' @ table @ '' postrouting oifname '' @ q @ hl_vpn s @ q @ '' ip6 saddr fd42:aa:1::/126 counter masquerade'' @ nl @
         ''add rule inet '' @ table @ '' forward ct state established,related oifname '' @ q @ hl_host s @ q @ '' counter accept'' @ nl @
         accept ''ip'' ''transport4'' (fst t) @ accept ''ip6'' ''transport6'' (snd t) @
         ''add rule inet '' @ table @ '' forward iifname '' @ q @ hl_host s @ q @ '' oifname '' @ q @ hl_vpn s @ q @ '' counter accept'' @ nl @
         ''add rule inet '' @ table @ '' forward iifname '' @ q @ hl_host s @ q @ '' counter drop'' @ nl)"

definition install_hard_firewall :: "'k machine \<Rightarrow> hard_state \<Rightarrow> transport \<Rightarrow> 'k step" where
  "install_hard_firewall m s t w =
     (case exec_input m [''nft'', ''-f'', ''-''] (hard_firewall_script s t) w of
        ((out, Some e), w1) \<Rightarrow> (Some (wrap_out ''install kernel kill-switch: '' e (trim_space out)), w1)
      | ((_, None), w1) \<Rightarrow> (None, w1))"

section \<open>Setting up\<close>

fun priority_free :: "string list \<Rightarrow> 'k machine \<Rightarrow> 'k step" where
  "priority_free [] m w = (None, w)"
| "priority_free (family # fs) m w =
     (case exec_output m [''ip'', family, ''rule'', ''show''] w of
        ((out, r), w1) \<Rightarrow>
          if r = None \<and> str_contains out (itoa hard_rule_base @ '':'')
          then (Some (new_err (''kernel-hard policy priority '' @ itoa hard_rule_base @ '' is already in use'')), w1)
          else priority_free fs m w1)"

definition hard_ownership_free :: "'k machine \<Rightarrow> hard_state \<Rightarrow> 'k step" where
  "hard_ownership_free m s w =
     (case exec_output m [''ip'', ''link'', ''show'', ''dev'', hl_host s] w of
        ((_, None), w1) \<Rightarrow> (Some (new_err (''kernel-hard host veth '' @ go_quote (hl_host s) @ '' already exists'')), w1)
      | ((_, Some _), w1) \<Rightarrow>
     (case exec_output m [''nft'', ''list'', ''table'', ''inet'', hard_table_name (hl_uid s)] w1 of
        ((_, None), w2) \<Rightarrow> (Some (new_err ''kernel-hard nftables table already exists''), w2)
      | ((_, Some _), w2) \<Rightarrow>
     (case priority_free [''-4'', ''-6''] m w2 of
        (Some e, w3) \<Rightarrow> (Some e, w3)
      | (None, w3) \<Rightarrow>
     (case host_stat m (hl_cgroup s) w3 of
        (Inr _, w4) \<Rightarrow> (Some (new_err (''kernel-hard cgroup '' @ go_quote (hl_cgroup s) @ '' already exists'')), w4)
      | (Inl _, w4) \<Rightarrow> (None, w4)))))"

definition make_cgroup :: "'k machine \<Rightarrow> hard_state \<Rightarrow> 'k step" where
  "make_cgroup m s w =
     (case make_dir m (hl_cgroup s) w of
        (Some e, w1) \<Rightarrow> (if err_kind e = Exist then None else Some (wrap_err ''create protected cgroup: '' e), w1)
      | (None, w1) \<Rightarrow> (None, w1))"

definition reverse_path_file :: "string \<Rightarrow> string" where
  "reverse_path_file veth = path_join (path_join ''/proc/sys/net/ipv4/conf'' veth) ''rp_filter''"

definition disable_reverse_path :: "'k machine \<Rightarrow> string \<Rightarrow> 'k step" where
  "disable_reverse_path m veth =
     put_file m (''disable strict rp_filter on protected veth '' @ go_quote veth @ '': '') (reverse_path_file veth) ''0''"

definition veth_cmds :: "hard_state \<Rightarrow> string list list" where
  "veth_cmds s =
     (let ns = hl_namespace s; h = hl_host s; p = hl_peer s in
      [[''link'', ''add'', h, ''type'', ''veth'', ''peer'', ''name'', p],
       [''link'', ''set'', p, ''netns'', ns],
       [''addr'', ''add'', ''198.18.0.1/30'', ''dev'', h],
       [''-6'', ''addr'', ''add'', hard_v6_host, ''dev'', h],
       [''link'', ''set'', h, ''up''],
       [''-n'', ns, ''link'', ''set'', ''lo'', ''up''],
       [''-n'', ns, ''addr'', ''add'', ''198.18.0.2/30'', ''dev'', p],
       [''-n'', ns, ''-6'', ''addr'', ''add'', hard_v6_peer, ''dev'', p],
       [''-n'', ns, ''link'', ''set'', p, ''up''],
       [''-n'', ns, ''route'', ''replace'', ''default'', ''via'', ''198.18.0.1''],
       [''-n'', ns, ''-6'', ''route'', ''replace'', ''default'', ''via'', ''fd42:aa:1::1'']])"

definition resolv_dir :: "hard_state \<Rightarrow> string" where
  "resolv_dir s = path_join ''/etc/netns'' (hl_namespace s)"

definition resolv_text :: string where
  "resolv_text = ''nameserver 1.1.1.1'' @ nl @ ''nameserver 8.8.8.8'' @ nl @ ''nameserver 2606:4700:4700::1111'' @ nl"

text \<open>A call of \<^verbatim>\<open>os\<close> as a step, its error passed on as it is.\<close>

definition plain :: "('k world \<Rightarrow> unit res \<times> 'k world) \<Rightarrow> 'k step" where
  "plain f w = (case f w of (Inl e, w1) \<Rightarrow> (Some e, w1) | (Inr _, w1) \<Rightarrow> (None, w1))"

definition wrapped :: "string \<Rightarrow> ('k world \<Rightarrow> unit res \<times> 'k world) \<Rightarrow> 'k step" where
  "wrapped context f w = (case f w of (Inl e, w1) \<Rightarrow> (Some (wrap_err context e), w1) | (Inr _, w1) \<Rightarrow> (None, w1))"

definition install_routes_and_firewall :: "'k machine \<Rightarrow> hard_state \<Rightarrow> 'k step" where
  "install_routes_and_firewall m s w =
     (case install_hard_routes m s w of
        (Inl e, w1) \<Rightarrow> (Some e, w1)
      | (Inr t, w1) \<Rightarrow> install_hard_firewall m s t w1)"

text \<open>Everything after the namespace exists; on the first failure the caller cleans up.\<close>

definition hard_setup_steps :: "'k machine \<Rightarrow> string \<Rightarrow> hard_state \<Rightarrow> 'k step list" where
  "hard_setup_steps m root s =
     [hard_ownership_free m s, make_cgroup m s, set_forwarding m True, set_forwarding6 m True,
      enable_interface_forwarding m (hl_vpn s)] @
     map (ip_run m) (veth_cmds s) @
     [disable_reverse_path m (hl_host s), install_routes_and_firewall m s,
      plain (mkdir_all m (resolv_dir s)),
      plain (write_file m (path_join (resolv_dir s) ''resolv.conf'') resolv_text 420),
      plain (write_hard_state m root s),
      wrapped ''handoff kernel-hard state ownership: '' (chown_file m (hard_state_path root)),
      plain (chmod_file m (hard_state_path root) 420)]"

definition hard_setup :: "'k machine \<Rightarrow> string \<Rightarrow> hard_state \<Rightarrow> 'k step" where
  "hard_setup m root s w =
     (case ip_run m [''netns'', ''add'', hl_namespace s] w of
        (Some e, w1) \<Rightarrow> (Some e, w1)
      | (None, w1) \<Rightarrow>
          (case each_step (hard_setup_steps m root s) w1 of
             (Some e, w2) \<Rightarrow> (Some e, hard_cleanup m s w2)
           | (None, w2) \<Rightarrow> (None, w2)))"

section \<open>The launch helper\<close>

definition hard_env_path :: "string \<Rightarrow> string" where
  "hard_env_path root = path_join root ''kernel-hard-env.json''"

definition abs_path :: "'k machine \<Rightarrow> string \<Rightarrow> string" where
  "abs_path m p = (if path_is_abs p then path_clean p else path_join (m_cwd m) p)"

definition validate_hard_target :: "'k machine \<Rightarrow> string \<Rightarrow> string \<Rightarrow> string \<Rightarrow> nat \<Rightarrow> 'k step" where
  "validate_hard_target m root executable env_path uid w =
     (if \<not> path_is_abs executable \<or> path_base executable = []
      then (Some (new_err (''refusing non-absolute Antigravity executable '' @ go_quote executable)), w)
      else if path_clean env_path \<noteq> hard_env_path (abs_path m root)
      then (Some (new_err ''refusing environment file outside AntigravitiProxi root''), w)
      else (case host_stat m executable w of
        (Inl e, w1) \<Rightarrow> (Some (wrap_err ''invalid Antigravity executable: '' e), w1)
      | (Inr st, w1) \<Rightarrow>
          if hs_dir st \<or> \<not> hs_exec st then (Some (new_err ''invalid Antigravity executable: %!w(<nil>)''), w1)
          else (case host_stat m env_path w1 of
            (Inl e, w2) \<Rightarrow> (Some (wrap_err ''protected launch environment must be a private regular file: '' e), w2)
          | (Inr st, w2) \<Rightarrow>
              if hs_perm st mod 64 \<noteq> 0
              then (Some (new_err ''protected launch environment must be a private regular file: %!w(<nil>)''), w2)
              else if hs_uid st \<noteq> Some uid
              then (Some (new_err ''protected launch environment is not owned by the invoking desktop user''), w2)
              else (case m_lookup_user m uid of
                  Inl e \<Rightarrow> (Some (wrap_err ''invalid protected launch uid: '' e), w2)
                | Inr _ \<Rightarrow> (None, w2)))))"

definition move_self_to_cgroup :: "'k machine \<Rightarrow> string \<Rightarrow> 'k step" where
  "move_self_to_cgroup m cgroup =
     put_file m ''attach protected launcher to cgroup: '' (path_join cgroup ''cgroup.procs'') (itoa (m_getpid m))"

text \<open>\<^verbatim>\<open>strings.SplitN(line, ":", 3)\<close> when it has three parts.\<close>

definition split_three :: "string \<Rightarrow> (string \<times> string \<times> string) option" where
  "split_three line =
     (case cut_char (CHR '':'') line of
        None \<Rightarrow> None
      | Some (a, r) \<Rightarrow> (case cut_char (CHR '':'') r of None \<Rightarrow> None | Some (b, c) \<Rightarrow> Some (a, b, c)))"

fun unified_cgroup :: "string list \<Rightarrow> string res" where
  "unified_cgroup [] = Inl (new_err ''unified cgroup path not found'')"
| "unified_cgroup (line # ls) =
     (case split_three line of
        Some (a, _, c) \<Rightarrow>
          if a = ''0'' \<and> path_is_abs (trim_space c) then Inr (path_join ''/sys/fs/cgroup'' (trim_space c)) else unified_cgroup ls
      | None \<Rightarrow> unified_cgroup ls)"

definition current_cgroup_path :: "'k machine \<Rightarrow> 'k world \<Rightarrow> string res \<times> 'k world" where
  "current_cgroup_path m w =
     (case host_file m ''/proc/self/cgroup'' w of
        (Inl e, w1) \<Rightarrow> (Inl e, w1)
      | (Inr b, w1) \<Rightarrow> (unified_cgroup (split_char (CHR 0x0A) b), w1))"

definition hard_evidence_items :: "nat \<Rightarrow> (string \<times> string list) list" where
  "hard_evidence_items uid =
     (let table = itoa hard_table_base in
      [(''rules4'', [''ip'', ''-4'', ''rule'', ''show'']),
       (''routes4'', [''ip'', ''-4'', ''route'', ''show'', ''table'', table]),
       (''rules6'', [''ip'', ''-6'', ''rule'', ''show'']),
       (''routes6'', [''ip'', ''-6'', ''route'', ''show'', ''table'', table]),
       (''nft'', [''nft'', ''list'', ''table'', ''inet'', hard_table_name uid]),
       (''iptables4'', [''iptables'', ''-S'', ''FORWARD'']),
       (''iptables6'', [''ip6tables'', ''-S'', ''FORWARD''])])"

fun collect_evidence :: "'k machine \<Rightarrow> (string \<times> string list) list \<Rightarrow> 'k world \<Rightarrow> string \<times> 'k world" where
  "collect_evidence m [] w = ([], w)"
| "collect_evidence m ((name, cmd) # xs) w =
     (case exec_cmd m cmd w of
        ((out, e), w1) \<Rightarrow>
          (let (rest, w2) = collect_evidence m xs w1
           in (''=== '' @ name @ '' ==='' @ nl @ out @
                (case e of None \<Rightarrow> [] | Some err \<Rightarrow> ''error: '' @ err_text err @ nl) @ rest, w2)))"

definition hard_evidence_path :: "string \<Rightarrow> string" where
  "hard_evidence_path root = path_join root ''kernel-hard-last-evidence.txt''"

definition write_hard_evidence :: "'k machine \<Rightarrow> string \<Rightarrow> nat \<Rightarrow> 'k world \<Rightarrow> gerr option \<times> 'k world" where
  "write_hard_evidence m root uid w =
     (let (text, w1) = collect_evidence m (hard_evidence_items uid) w in
      case write_file m (hard_evidence_path root) text 420 w1 of
        (Inl e, w2) \<Rightarrow> (Some e, w2)
      | (Inr _, w2) \<Rightarrow> (None, snd (chown_file m (hard_evidence_path root) w2)))"

text \<open>The protected program itself, once everything is set up: in the cgroup, then the
  namespace, until it exits.\<close>

definition run_protected :: "'k machine \<Rightarrow> string \<Rightarrow> string \<Rightarrow> string \<Rightarrow> hard_state \<Rightarrow> 'k step" where
  "run_protected m root executable env_path s w =
     (case m_self m of
        Inl e \<Rightarrow> (Some e, w)
      | Inr self \<Rightarrow>
          (case spawn_cmd m [''ip'', ''netns'', ''exec'', hl_namespace s, self, ''__linux-hard-child'', executable, env_path, nat_digits (hl_uid s)] w of
             (Inl e, w1) \<Rightarrow> (Some (wrap_err ''start Antigravity in kernel namespace: '' e), w1)
           | (Inr pid, w1) \<Rightarrow>
               (let (_, w2) = write_hard_state m root (s\<lparr>hl_pid := pid\<rparr>) w1;
                    (e, w3) = wait_child m pid w2;
                    (_, w4) = write_hard_evidence m root (hl_uid s) w3
                in (map_option (wrap_err ''protected Antigravity exited: '') e, w4))))"

definition in_cgroup :: "'k machine \<Rightarrow> hard_state \<Rightarrow> 'k step \<Rightarrow> 'k step" where
  "in_cgroup m s body w =
     (case current_cgroup_path m w of
        (Inl e, w1) \<Rightarrow> (Some e, w1)
      | (Inr parent, w1) \<Rightarrow>
          (case move_self_to_cgroup m (hl_cgroup s) w1 of
             (Some e, w2) \<Rightarrow> (Some e, w2)
           | (None, w2) \<Rightarrow>
               (case body w2 of (e, w3) \<Rightarrow> (e, snd (move_self_to_cgroup m parent w3)))))"

text \<open>The deferred calls of the helper, in the order they run.\<close>

definition hard_finish :: "'k machine \<Rightarrow> string \<Rightarrow> string \<Rightarrow> hard_state \<Rightarrow> 'k world \<Rightarrow> 'k world" where
  "hard_finish m root env_path s w =
     hard_cleanup m s (snd (remove_file m (hard_state_path root) (snd (remove_file m env_path w))))"

definition launch_state :: "string \<Rightarrow> nat \<Rightarrow> hard_state" where
  "launch_state vpn uid =
     (let (ns, h, p) = hard_names uid in
      zero_hard_state\<lparr>hl_namespace := ns, hl_host := h, hl_peer := p, hl_vpn := vpn, hl_uid := uid, hl_cgroup := hard_cgroup_path uid\<rparr>)"

definition launch_tail :: "'k machine \<Rightarrow> string \<Rightarrow> string \<Rightarrow> string \<Rightarrow> hard_state \<Rightarrow> 'k step" where
  "launch_tail m root executable env_path s w =
     (case hard_setup m root s w of
        (Some e, w1) \<Rightarrow> (Some e, w1)
      | (None, w1) \<Rightarrow>
          (case in_cgroup m s (run_protected m root executable env_path s) w1 of
             (e, w2) \<Rightarrow> (e, hard_finish m root env_path s w2)))"

definition run_hard_launch :: "'k machine \<Rightarrow> string \<Rightarrow> string \<Rightarrow> string \<Rightarrow> string \<Rightarrow> nat \<Rightarrow> 'k step" where
  "run_hard_launch m root vpn executable env_path uid w =
     (if m_geteuid m \<noteq> 0 then (Some (new_err ''kernel-hard launch helper must run as root''), w)
      else (case validate_hard_target m root executable env_path uid w of
        (Some e, w1) \<Rightarrow> (Some e, w1)
      | (None, w1) \<Rightarrow>
          if trim_space vpn = [] \<or> vpn = agent_tun_name
          then (Some (new_err (''invalid kernel-hard VPN interface '' @ go_quote vpn)), w1)
          else if \<not> safe_linux_name vpn then (Some (new_err (''invalid VPN interface name '' @ go_quote vpn)), w1)
          else (case net_interface m vpn w1 of
            (Some e, w2) \<Rightarrow> (Some e, w2)
          | (None, w2) \<Rightarrow>
              (case capture_forwarding m (launch_state vpn uid) w2 of
                 (Inl e, w3) \<Rightarrow> (Some e, w3)
               | (Inr s, w3) \<Rightarrow>
                   launch_tail m root executable env_path s w3))))"

text \<open>The child inside the namespace: it runs the program with the stored environment as the
  desktop user; the log of the machine records the credentials and the environment.\<close>

definition run_hard_child :: "'k machine \<Rightarrow> string \<Rightarrow> string \<Rightarrow> nat \<Rightarrow> 'k step" where
  "run_hard_child m executable env_path uid w =
     (case read_file m env_path w of
        (Inl e, w1) \<Rightarrow> (Some (wrap_err ''read protected launch environment: '' e), w1)
      | (Inr b, w1) \<Rightarrow>
          (case unmarshal (dec_list [] dec_string) b [] of
             (_, False) \<Rightarrow> (Some (wrap_err ''decode protected launch environment: '' json_error), w1)
           | (env, True) \<Rightarrow>
               (case m_lookup_user m uid of
                  Inl e \<Rightarrow> (Some e, w1)
                | Inr (u, g) \<Rightarrow>
                    (case exec_cmd m ([executable, ''uid='' @ nat_digits u, ''gid='' @ nat_digits g] @ env) w1 of
                       ((_, e), w2) \<Rightarrow> (e, w2)))))"

section \<open>The manager's side\<close>

definition kernel_hard_state :: "platform \<Rightarrow> 'k machine \<Rightarrow> manager \<Rightarrow> 'k world \<Rightarrow> hard_state res \<times> 'k world" where
  "kernel_hard_state pf m g w =
     (if pf = Linux then read_hard_state m (cf_root (mg_cfg g)) w
      else (Inl (new_err ''kernel-hard isolation is supported only on Linux''), w))"

definition hard_state_active :: "platform \<Rightarrow> 'k machine \<Rightarrow> manager \<Rightarrow> 'k world \<Rightarrow> bool \<times> 'k world" where
  "hard_state_active pf m g w = (case kernel_hard_state pf m g w of (r, w1) \<Rightarrow> (\<not> isl r, w1))"

definition kernel_hard_preflight :: "platform \<Rightarrow> 'k machine \<Rightarrow> manager \<Rightarrow> 'k step" where
  "kernel_hard_preflight pf m g w =
     (if pf \<noteq> Linux then (Some (new_err ''kernel-hard isolation is supported only on Linux''), w)
      else (case hard_available m w of
        (Some e, w1) \<Rightarrow> (Some e, w1)
      | (None, w1) \<Rightarrow>
          (if trim_space (cf_vpn (mg_cfg g)) = [] then Some (new_err ''kernel-hard mode requires an explicit VPN interface'') else None, w1)))"

definition launch_kernel_hard ::
  "platform \<Rightarrow> 'k machine \<Rightarrow> string \<Rightarrow> string list \<Rightarrow> manager \<Rightarrow> 'k world \<Rightarrow> gerr option \<times> manager \<times> 'k world" where
  "launch_kernel_hard pf m executable env g w =
     (case kernel_hard_preflight pf m g w of
        (Some e, w1) \<Rightarrow> (Some e, g, w1)
      | (None, w1) \<Rightarrow>
     (let root = cf_root (mg_cfg g); env_path = hard_env_path root in
      case write_file m env_path (marshal (strs env)) 384 w1 of
        (Inl e, w2) \<Rightarrow> (Some (wrap_err ''write protected launch environment: '' e), g, w2)
      | (Inr _, w2) \<Rightarrow>
     (case m_self m of
        Inl e \<Rightarrow> (Some e, g, w2)
      | Inr self \<Rightarrow>
     (case find_linux_command m ''pkexec'' [''/usr/bin/pkexec''] w2 of
        (pkexec, w3) \<Rightarrow>
          if pkexec = [] then (Some (new_err ''kernel-hard launch requires pkexec''), g, w3)
          else (case spawn_cmd m [pkexec, self, ''__linux-hard-launch'', root, cf_vpn (mg_cfg g), executable, env_path, nat_digits (m_getuid m)] w3 of
              (Inl e, w4) \<Rightarrow> (Some (wrap_err ''authorize kernel-hard launcher: '' e), g, w4)
            | (Inr pid, w4) \<Rightarrow> (None, g\<lparr>mg_hard := Some pid, mg_mode := Mode_tunnel\<rparr>, w4))))))"


section \<open>The packet filter as rules\<close>

datatype fw_match = Established_to string | From_to4 string | From_to6 string | From_to string string | From_iface string

datatype fw_line =
    Add_table
  | Add_set string string "string list"
  | Add_chain string
  | Masquerade string string
  | Forward fw_match bool

definition quoted :: "string \<Rightarrow> string" where
  "quoted s = [CHR 0x22] @ s @ [CHR 0x22]"

fun match_text :: "fw_match \<Rightarrow> string" where
  "match_text (Established_to i) = ''ct state established,related oifname '' @ quoted i"
| "match_text (From_to4 i) = ''iifname '' @ quoted i @ '' ip daddr @transport4''"
| "match_text (From_to6 i) = ''iifname '' @ quoted i @ '' ip6 daddr @transport6''"
| "match_text (From_to i j) = ''iifname '' @ quoted i @ '' oifname '' @ quoted j"
| "match_text (From_iface i) = ''iifname '' @ quoted i"

fun line_text :: "string \<Rightarrow> fw_line \<Rightarrow> string" where
  "line_text t Add_table = ''add table inet '' @ t @ nl"
| "line_text t (Add_set n ty as) = ''add set inet '' @ t @ '' '' @ n @ '' { type '' @ ty @ ''; elements = { '' @ str_join as '', '' @ '' } }'' @ nl"
| "line_text t (Add_chain d) = ''add chain inet '' @ t @ '' '' @ d @ nl"
| "line_text t (Masquerade i src) = ''add rule inet '' @ t @ '' postrouting oifname '' @ quoted i @ '' '' @ src @ '' counter masquerade'' @ nl"
| "line_text t (Forward c ok) = ''add rule inet '' @ t @ '' forward '' @ match_text c @ '' counter '' @ (if ok then ''accept'' else ''drop'') @ nl"

definition fw_lines :: "hard_state \<Rightarrow> transport \<Rightarrow> fw_line list" where
  "fw_lines s t =
     [Add_table] @ (if fst t = [] then [] else [Add_set ''transport4'' ''ipv4_addr'' (fst t)]) @
     (if snd t = [] then [] else [Add_set ''transport6'' ''ipv6_addr'' (snd t)]) @
     [Add_chain ''forward { type filter hook forward priority -150; policy accept; }'',
      Add_chain ''postrouting { type nat hook postrouting priority 100; policy accept; }'',
      Masquerade (hl_vpn s) (''ip saddr '' @ hard_v4_prefix), Masquerade (hl_vpn s) ''ip6 saddr fd42:aa:1::/126'',
      Forward (Established_to (hl_host s)) True] @
     (if fst t = [] then [] else [Forward (From_to4 (hl_host s)) True]) @
     (if snd t = [] then [] else [Forward (From_to6 (hl_host s)) True]) @
     [Forward (From_to (hl_host s) (hl_vpn s)) True, Forward (From_iface (hl_host s)) False]"

text \<open>A forwarded packet, and what the chain does with it: the first matching rule decides, the
  policy of the chain is to accept.\<close>

record packet =
  pk_in :: string
  pk_out :: string
  pk_established :: bool
  pk_v6 :: bool
  pk_dst :: string

fun matches :: "transport \<Rightarrow> packet \<Rightarrow> fw_match \<Rightarrow> bool" where
  "matches t p (Established_to i) = (pk_established p \<and> pk_out p = i)"
| "matches t p (From_to4 i) = (pk_in p = i \<and> \<not> pk_v6 p \<and> pk_dst p \<in> set (fst t))"
| "matches t p (From_to6 i) = (pk_in p = i \<and> pk_v6 p \<and> pk_dst p \<in> set (snd t))"
| "matches t p (From_to i j) = (pk_in p = i \<and> pk_out p = j)"
| "matches t p (From_iface i) = (pk_in p = i)"

fun forwards :: "transport \<Rightarrow> packet \<Rightarrow> fw_line list \<Rightarrow> bool" where
  "forwards t p [] = True"
| "forwards t p (Forward c ok # ls) = (if matches t p c then ok else forwards t p ls)"
| "forwards t p (_ # ls) = forwards t p ls"

text \<open>C22: the kill switch.  The script given to \<^verbatim>\<open>nft\<close> is the text of the rules \<open>fw_lines\<close>, and
  those forward a packet that comes from the protected namespace exactly when it goes out of the
  chosen VPN interface, or to one of the copied transport addresses, or is an established answer
  into the namespace; packets from elsewhere are left alone.\<close>

theorem kill_switch_exact:
  "hard_firewall_script s t = concat (map (line_text (hard_table_name (hl_uid s))) (fw_lines s t)) \<and>
   (forwards t p (fw_lines s t) \<longleftrightarrow>
      (if pk_in p = hl_host s
       then pk_established p \<and> pk_out p = hl_host s \<or> pk_out p = hl_vpn s \<or> pk_dst p \<in> set (if pk_v6 p then snd t else fst t)
       else True))"
proof
  show "hard_firewall_script s t = concat (map (line_text (hard_table_name (hl_uid s))) (fw_lines s t))"
    by (simp add: hard_firewall_script_def fw_lines_def quoted_def Let_def)
  show "forwards t p (fw_lines s t) \<longleftrightarrow>
      (if pk_in p = hl_host s
       then pk_established p \<and> pk_out p = hl_host s \<or> pk_out p = hl_vpn s \<or> pk_dst p \<in> set (if pk_v6 p then snd t else fst t)
       else True)"
    by (auto simp: fw_lines_def)
qed

section \<open>The state file round trip\<close>

lemma parse_uint32_digits [simp]: "n < 2 ^ 32 \<Longrightarrow> parse_uint32 (nat_digits n) = Some n"
  by (simp add: parse_uint32_def atoi_digits_def)

lemma dec_uint32_enc [simp]: "n < 2 ^ 32 \<Longrightarrow> dec_uint32 (enc_int (int n)) cur = (n, True)"
  by (simp add: dec_uint32_def enc_int_def itoa_def)

lemma run_hard_fields [simp]:
  "run_field hard_state_fields ''namespace'' (JStr x) a = (a\<lparr>hl_namespace := x\<rparr>, True)"
  "run_field hard_state_fields ''host_veth'' (JStr x) a = (a\<lparr>hl_host := x\<rparr>, True)"
  "run_field hard_state_fields ''peer_veth'' (JStr x) a = (a\<lparr>hl_peer := x\<rparr>, True)"
  "run_field hard_state_fields ''vpn_interface'' (JStr x) a = (a\<lparr>hl_vpn := x\<rparr>, True)"
  "n < 2 ^ 32 \<Longrightarrow> run_field hard_state_fields ''uid'' (enc_int (int n)) a = (a\<lparr>hl_uid := n\<rparr>, True)"
  "int64_range i \<Longrightarrow> run_field hard_state_fields ''pid'' (enc_int i) a = (a\<lparr>hl_pid := i\<rparr>, True)"
  "run_field hard_state_fields ''cgroup'' (JStr x) a = (a\<lparr>hl_cgroup := x\<rparr>, True)"
  "run_field hard_state_fields ''forwarding_ipv4'' (JStr x) a = (a\<lparr>hl_fwd4 := x\<rparr>, True)"
  "run_field hard_state_fields ''forwarding_ipv6'' (JStr x) a = (a\<lparr>hl_fwd6 := x\<rparr>, True)"
  "run_field hard_state_fields ''forwarding_all_ipv4'' (JStr x) a = (a\<lparr>hl_all4 := x\<rparr>, True)"
  "run_field hard_state_fields ''forwarding_all_ipv6'' (JStr x) a = (a\<lparr>hl_all6 := x\<rparr>, True)"
  "run_field hard_state_fields ''forwarding_vpn_ipv4'' (JStr x) a = (a\<lparr>hl_vpn4 := x\<rparr>, True)"
  "run_field hard_state_fields ''forwarding_vpn_ipv6'' (JStr x) a = (a\<lparr>hl_vpn6 := x\<rparr>, True)"
  by (simp_all add: run_field_def hard_state_fields_def find_field_def dec_field_def)

lemma hard_state_decodes:
  assumes "hl_uid s < 2 ^ 32" "int64_range (hl_pid s)"
  shows "dec_struct hard_state_fields (enc_hard_state s) zero_hard_state = (s, True)"
  using assms
  by (cases s) (simp add: enc_hard_state_def dec_struct_def zero_hard_state_def dec_steps del: dec_members.simps)

lemma wf_enc_hard [simp]: "wf_json (enc_hard_state s)"
  by (simp add: enc_hard_state_def)

text \<open>The state file.  After a successful write of a launch state with its names set, a read
  gives the same state back.\<close>

theorem hard_state_round_trip:
  assumes "write_hard_state m root s w = (Inr u, w1)" "hl_uid s < 2 ^ 32" "int64_range (hl_pid s)"
    and "hl_namespace s \<noteq> []" "hl_host s \<noteq> []" "hl_peer s \<noteq> []" "hl_vpn s \<noteq> []" "fault_now m w1 = None"
  shows "read_hard_state m root w1 = (Inr s, tick w1)"
proof -
  obtain x where x: "w_files w1 (hard_state_path root) = Some x" "f_data x = marshal_indent (enc_hard_state s) @ nl"
    using write_file_ok assms(1) unfolding write_hard_state_def by blast
  have r: "read_file m (hard_state_path root) w1 = (Inr (marshal_indent (enc_hard_state s) @ nl), tick w1)"
    using x assms(8) by (simp add: read_file_def)
  have u: "unmarshal (dec_struct hard_state_fields) (marshal_indent (enc_hard_state s) @ nl) zero_hard_state = (s, True)"
    using hard_state_decodes [OF assms(2,3)] by (simp add: unmarshal_text)
  show ?thesis using assms(4-7) unfolding read_hard_state_def r by (simp add: u)
qed

lemma hard_state_round_trip_witness:
  "\<exists>w1 s. hl_vpn s = ''wg0'' \<and> read_hard_state quiet_machine ''/r'' w1 = (Inr s, tick w1)"
proof -
  let ?s = "launch_state ''wg0'' 7"
  obtain u w1 where w: "write_hard_state quiet_machine ''/r'' ?s (world_of [] ()) = (Inr u, w1)"
    by (auto simp: write_hard_state_def write_file_def write_handle_def close_handle_def fault_now_def quiet_machine_def Let_def)
  have "fault_now quiet_machine w1 = None" by (simp add: fault_now_def quiet_machine_def)
  then have "read_hard_state quiet_machine ''/r'' w1 = (Inr ?s, tick w1)"
    using hard_state_round_trip [OF w] by (simp add: launch_state_def hard_names_def zero_hard_state_def Let_def)
  moreover have "hl_vpn ?s = ''wg0''" by (simp add: launch_state_def hard_names_def Let_def)
  ultimately show ?thesis by blast
qed

section \<open>Forwarding comes back\<close>

lemma put_back_fold:
  assumes "reliable m" "\<forall>(q, v) \<in> set L. v = f q"
  shows "w_files (fold (put_back m) L w) p =
    (if (\<exists>v. (p, v) \<in> set L) \<and> f p \<noteq> [] then w_files (fold (put_back m) L w) p else w_files w p)"
    and "(\<exists>v. (p, v) \<in> set L) \<Longrightarrow> f p \<noteq> [] \<Longrightarrow> \<exists>y. w_files (fold (put_back m) L w) p = Some y \<and> f_data y = f p"
proof -
  have wf: "\<exists>y. w_files (snd (write_file m q d n w)) q = Some y \<and> f_data y = d" for q d n and w :: "'a world"
    using assms(1) by (auto simp: write_file_def write_handle_def close_handle_def Let_def)
  have nf: "p \<noteq> q \<Longrightarrow> w_files (snd (write_file m q d n w)) p = w_files w p" for q d n and w :: "'a world"
    using write_file_files [of m q d n w] by (metis prod.collapse)
  have step: "w_files (put_back m (q, v) w) p = w_files w p" if "p \<noteq> q \<or> v = []" for q v and w :: "'a world"
    using that nf by (auto simp: put_back_def)
  have hit: "\<exists>y. w_files (put_back m (p, f p) w) p = Some y \<and> f_data y = f p" if "f p \<noteq> []" for w :: "'a world"
    using that wf by (simp add: put_back_def)
  have keep: "(\<exists>y. w_files w p = Some y \<and> f_data y = f p) \<Longrightarrow> f p \<noteq> [] \<Longrightarrow> \<forall>(q, v) \<in> set L. v = f q \<Longrightarrow>
      \<exists>y. w_files (fold (put_back m) L w) p = Some y \<and> f_data y = f p" for L w
  proof (induction L arbitrary: w)
    case (Cons a L)
    obtain q where a: "a = (q, f q)" using Cons.prems(3) by (cases a) auto
    have "\<exists>y. w_files (put_back m a w) p = Some y \<and> f_data y = f p"
      using hit [OF Cons.prems(2)] step [of q "f q" w] Cons.prems(1) unfolding a by (cases "p = q") auto
    then show ?case using Cons.IH Cons.prems by simp
  qed simp
  show "\<exists>y. w_files (fold (put_back m) L w) p = Some y \<and> f_data y = f p" if "\<exists>v. (p, v) \<in> set L" "f p \<noteq> []"
    using that assms(2)
  proof (induction L arbitrary: w)
    case (Cons a L)
    obtain q where a: "a = (q, f q)" using Cons.prems(3) by (cases a) auto
    show ?case
    proof (cases "q = p")
      case True
      then show ?thesis using hit [OF Cons.prems(2), of w] keep [of "put_back m a w" L] Cons.prems(2,3) unfolding a by simp
    next
      case False
      then show ?thesis using Cons.IH [of "put_back m a w"] Cons.prems a by auto
    qed
  qed simp
  show "w_files (fold (put_back m) L w) p =
    (if (\<exists>v. (p, v) \<in> set L) \<and> f p \<noteq> [] then w_files (fold (put_back m) L w) p else w_files w p)"
    using assms(2)
  proof (induction L arbitrary: w)
    case (Cons a L)
    obtain q where a: "a = (q, f q)" using Cons.prems by (cases a) auto
    have IH: "w_files (fold (put_back m) L (put_back m a w)) p =
      (if (\<exists>v. (p, v) \<in> set L) \<and> f p \<noteq> [] then w_files (fold (put_back m) L (put_back m a w)) p else w_files (put_back m a w) p)"
      using Cons.IH [of "put_back m a w"] Cons.prems by auto
    show ?case
    proof (cases "p \<noteq> q \<or> f q = []")
      case True
      then have "w_files (put_back m a w) p = w_files w p" using step unfolding a by blast
      then show ?thesis using IH True unfolding a by auto
    next
      case False
      then show ?thesis unfolding a by auto
    qed
  qed simp
qed



definition forward_values :: "hard_state \<Rightarrow> (string \<times> string) list" where
  "forward_values s = [(fwd4_path, hl_fwd4 s), (all6_path, hl_fwd6 s), (all4_path, hl_all4 s), (all6_path, hl_all6 s),
     (vpn4_path (hl_vpn s), hl_vpn4 s), (vpn6_path (hl_vpn s), hl_vpn6 s)]"

definition sysctl_value :: "'k world \<Rightarrow> string \<Rightarrow> string" where
  "sysctl_value w p = (case w_files w p of Some x \<Rightarrow> trim_space (f_data x) | None \<Rightarrow> [])"

lemma read_trimmedD:
  assumes "read_trimmed m c p w = (Inr v, w')"
  shows "w_files w' = w_files w \<and> v = sysctl_value w p"
proof -
  have "v = sysctl_value w p" using assms by (auto simp: read_trimmed_def read_file_def sysctl_value_def split: option.splits)
  moreover have "w' = tick w" using assms file_callD(1) by (fastforce simp: read_trimmed_def split: prod.splits sum.splits)
  ultimately show ?thesis by simp
qed

lemma read_trimmed_files: "read_trimmed m c p w = (r, w') \<Longrightarrow> observes A w w'"
  by (auto simp: read_trimmed_def dest!: read_file_observes split: prod.splits sum.splits)

lemma capture_forwardingD:
  assumes "capture_forwarding m s0 w = (Inr s, w')"
  shows "w_files w' = w_files w" "hl_vpn s = hl_vpn s0" "\<forall>(q, v) \<in> set (forward_values s). v = sysctl_value w q"
proof -
  obtain a w1 where 1: "read_trimmed m ''read IPv4 forwarding state: '' fwd4_path w = (Inr a, w1)"
    using assms by (auto simp: capture_forwarding_def Let_def split: prod.splits sum.splits)
  obtain b w2 where 2: "read_trimmed m ''read IPv6 forwarding state: '' all6_path w1 = (Inr b, w2)"
    using assms 1 by (auto simp: capture_forwarding_def Let_def split: prod.splits sum.splits)
  obtain c w3 where 3: "read_trimmed m (''read forwarding state '' @ all4_path @ '': '') all4_path w2 = (Inr c, w3)"
    using assms 1 2 by (auto simp: capture_forwarding_def Let_def split: prod.splits sum.splits)
  obtain d w4 where 4: "read_trimmed m (''read forwarding state '' @ all6_path @ '': '') all6_path w3 = (Inr d, w4)"
    using assms 1 2 3 by (auto simp: capture_forwarding_def Let_def split: prod.splits sum.splits)
  obtain f w5 where 5: "read_trimmed m (''read forwarding state '' @ vpn4_path (hl_vpn s0) @ '': '') (vpn4_path (hl_vpn s0)) w4 = (Inr f, w5)"
    using assms 1 2 3 4 by (auto simp: capture_forwarding_def Let_def split: prod.splits sum.splits)
  obtain h where 6: "read_trimmed m (''read forwarding state '' @ vpn6_path (hl_vpn s0) @ '': '') (vpn6_path (hl_vpn s0)) w5 = (Inr h, w')"
    "s = s0\<lparr>hl_fwd4 := a, hl_fwd6 := b, hl_all4 := c, hl_all6 := d, hl_vpn4 := f, hl_vpn6 := h\<rparr>"
    using assms 1 2 3 4 5 by (auto simp: capture_forwarding_def Let_def split: prod.splits sum.splits)
  note all = read_trimmedD [OF 1] read_trimmedD [OF 2] read_trimmedD [OF 3] read_trimmedD [OF 4] read_trimmedD [OF 5] read_trimmedD [OF 6(1)]
  show "w_files w' = w_files w" "hl_vpn s = hl_vpn s0" "\<forall>(q, v) \<in> set (forward_values s). v = sysctl_value w q"
    using all 6(2) by (simp_all add: forward_values_def sysctl_value_def)
qed

lemma cleanup_restores:
  assumes "reliable m" "\<forall>(q, v) \<in> set (forward_values s). v = f q" "p \<in> fst ` set (forward_values s)" "f p \<noteq> []"
  shows "\<exists>y. w_files (hard_cleanup m s w) p = Some y \<and> f_data y = f p"
proof -
  have rd: "w_files (snd (remove_dir m q w)) = w_files w" for q and w :: "'a world"
    using change_hostD [of m "m_rmdir m q" w] unfolding remove_dir_def by (metis prod.collapse)
  have "\<exists>v. (p, v) \<in> set (forward_values s)" using assms(3) by auto
  note put_back_fold(2) [OF assms(1,2) this assms(4)]
  then show ?thesis
    by (simp add: hard_cleanup_def Let_def rd restore_forwarding_def forward_values_def)
qed

lemma ip_run_observes: "ip_run m args w = (e, w') \<Longrightarrow> A (''ip'' # args) \<Longrightarrow> observes A w w'"
  by (auto simp: ip_run_def dest!: exec_observes split: prod.splits option.splits)

lemma validate_hard_observes: "validate_hard_target m root exe env uid w = (e, w') \<Longrightarrow> observes A w w'"
  by (auto simp: validate_hard_target_def dest!: host_stat_observes intro: observes_trans
      split: if_splits prod.splits sum.splits)

lemma net_interface_observes: "net_interface m n w = (e, w') \<Longrightarrow> A [''ip'', ''link'', ''show'', ''dev'', n] \<Longrightarrow> observes A w w'"
  by (auto simp: net_interface_def dest!: exec_observes split: prod.splits option.splits)

lemma capture_forwarding_observes: "capture_forwarding m s w = (r, w') \<Longrightarrow> observes A w w'"
  unfolding capture_forwarding_def Let_def
  by (clarsimp split: prod.splits sum.splits; drule read_trimmed_files [where A = A])+ (meson observes_trans read_trimmed_files)+

definition early_cmd :: "string \<Rightarrow> nat \<Rightarrow> string list \<Rightarrow> bool" where
  "early_cmd vpn uid c \<longleftrightarrow> c = [''ip'', ''link'', ''show'', ''dev'', vpn] \<or> c = [''ip'', ''netns'', ''add'', fst (hard_names uid)]"

lemma run_hard_launch_cases:
  assumes "run_hard_launch m root vpn exe env uid w = (e, w')"
  obtains (refused) "observes (early_cmd vpn uid) w w'"
  | (cleaned) s w3 w4 w5 where "observes (early_cmd vpn uid) w w3" "m_geteuid m = 0" "safe_linux_name vpn"
      "capture_forwarding m (launch_state vpn uid) w3 = (Inr s, w4)" "launch_tail m root exe env s w4 = (e, w')" "w' = hard_cleanup m s w5"
proof (cases "m_geteuid m = 0")
  case False
  with assms refused show ?thesis by (simp add: run_hard_launch_def)
next
  case root: True
  obtain x1 w1 where 1: "validate_hard_target m root exe env uid w = (x1, w1)" by fastforce
  note o1 = validate_hard_observes [OF 1, where A = "early_cmd vpn uid"]
  show ?thesis
  proof (cases "x1 = None \<and> \<not> (trim_space vpn = [] \<or> vpn = agent_tun_name) \<and> safe_linux_name vpn")
    case False
    then have "w' = w1" using assms root 1 by (auto simp: run_hard_launch_def split: if_splits option.splits)
    then show ?thesis using o1 refused by blast
  next
    case ok: True
    obtain x2 w2 where 2: "net_interface m vpn w1 = (x2, w2)" by fastforce
    have o2: "observes (early_cmd vpn uid) w w2"
      using o1 net_interface_observes [OF 2] by (rule observes_trans) (simp add: early_cmd_def)
    show ?thesis
    proof (cases x2)
      case (Some e2)
      then have "w' = w2" using assms root 1 2 ok by (auto simp: run_hard_launch_def)
      then show ?thesis using o2 refused by blast
    next
      case None
      obtain r3 w3 where 3: "capture_forwarding m (launch_state vpn uid) w2 = (r3, w3)" by fastforce
      have o3: "observes (early_cmd vpn uid) w w3"
        using o2 capture_forwarding_observes [OF 3] by (rule observes_trans)
      show ?thesis
      proof (cases r3)
        case (Inl e3)
        then have "w' = w3" using assms root 1 2 3 ok None by (auto simp: run_hard_launch_def)
        then show ?thesis using o3 refused by blast
      next
        case (Inr s)
        have ns: "hl_namespace s = fst (hard_names uid)"
          using 3 Inr by (auto simp: capture_forwarding_def Let_def launch_state_def split: prod.splits sum.splits)
        have lt: "launch_tail m root exe env s w3 = (e, w')"
          using assms root 1 2 3 ok None Inr by (simp add: run_hard_launch_def)
        obtain x4 w4 where 4: "hard_setup m root s w3 = (x4, w4)" by fastforce
        obtain x5 w5 where 5: "ip_run m [''netns'', ''add'', hl_namespace s] w3 = (x5, w5)" by fastforce
        have o5: "observes (early_cmd vpn uid) w w5"
          using o3 ip_run_observes [OF 5] by (rule observes_trans) (simp add: early_cmd_def ns)
        show ?thesis
        proof (cases "x5 = None \<and> x4 = None")
          case True
          then have "\<exists>w6. w' = hard_finish m root env s w6"
            using lt 4 by (auto simp: launch_tail_def split: prod.splits)
          then show ?thesis using cleaned [OF o2 root _ 3 [unfolded Inr] lt] ok by (auto simp: hard_finish_def)
        next
          case no: False
          have w': "w' = w4"
          proof (cases x4)
            case None': None
            then have False using 4 5 no by (auto simp: hard_setup_def split: option.splits prod.splits)
            then show ?thesis ..
          next
            case (Some e4)
            then show ?thesis using lt 4 by (simp add: launch_tail_def)
          qed
          show ?thesis
          proof (cases x5)
            case (Some e5)
            then have "w' = w5" using 4 5 w' by (auto simp: hard_setup_def)
            then show ?thesis using o5 refused by blast
          next
            case None': None
            then have "\<exists>w6. w' = hard_cleanup m s w6"
              using 4 5 no w' by (auto simp: hard_setup_def split: option.splits prod.splits)
            then show ?thesis using cleaned [OF o2 root _ 3 [unfolded Inr] lt] ok by blast
          qed
        qed
      qed
    qed
  qed
qed




section \<open>What the helper may run and write\<close>

locale world_relation =
  fixes R :: "'k world \<Rightarrow> 'k world \<Rightarrow> bool"
  assumes stays: "R w w" and chains: "R w w1 \<Longrightarrow> R w1 w2 \<Longrightarrow> R w w2"
begin

lemma each_step_in: "(\<And>f w. f \<in> set fs \<Longrightarrow> R w (snd (f w))) \<Longrightarrow> R w (snd (each_step fs w))"
proof (induction fs arbitrary: w)
  case (Cons f fs)
  obtain e w1 where f: "f w = (e, w1)" by fastforce
  have "R w w1" using Cons.prems [of f w] f by simp
  moreover have "R w1 (snd (each_step fs w1))" using Cons.IH Cons.prems by simp
  ultimately show ?case using f chains by (auto split: option.splits)
qed (simp add: stays)

lemma fold_in: "(\<And>x w. x \<in> set xs \<Longrightarrow> R w (f x w)) \<Longrightarrow> R w (fold f xs w)"
proof (induction xs arbitrary: w)
  case (Cons x xs)
  have "R w (f x w)" using Cons.prems [of x] by simp
  moreover have "R (f x w) (fold f xs (f x w))" using Cons.IH Cons.prems by simp
  ultimately show ?case using chains by simp
qed (simp add: stays)

end

definition confined :: "(string list \<Rightarrow> bool) \<Rightarrow> (string \<Rightarrow> bool) \<Rightarrow> 'k world \<Rightarrow> 'k world \<Rightarrow> bool" where
  "confined A P w w' \<longleftrightarrow> runs A w w' \<and> (\<forall>q. \<not> P q \<longrightarrow> w_files w' q = w_files w q)"

interpretation confined: world_relation "confined A P" for A P
  by unfold_locales (auto simp: confined_def intro: runs_trans)

lemma observes_confined: "observes A w w' \<Longrightarrow> confined A P w w'"
  by (simp add: observes_def confined_def)

lemma confined_file:
  "P q \<Longrightarrow> confined A P w (snd (write_file m q d n w))"
  "P q \<Longrightarrow> confined A P w (snd (remove_file m q w))"
  "(\<And>p. below q p \<Longrightarrow> P p) \<Longrightarrow> confined A P w (snd (remove_all m q w))"
  "P q \<Longrightarrow> confined A P w (snd (chmod_file m q n w))"
  "confined A P w (snd (chown_file m q w))" "confined A P w (snd (mkdir_all m q w))"
  subgoal using write_file_env [of w m q d n] write_file_files [of m q d n w] unfolding confined_def
    by (metis prod.collapse runs_same_env)
  subgoal by (auto simp: remove_file_def confined_def runs_def split: option.splits)
  subgoal by (auto simp: remove_all_def confined_def runs_def split: option.splits)
  subgoal by (auto simp: chmod_file_def update_file_def confined_def runs_def split: option.splits)
  subgoal by (auto simp: chown_file_def confined_def runs_def split: option.splits)
  subgoal by (simp add: confined_def)
  done

lemma confined_host:
  "confined A P w (snd (make_dir m q w))" "confined A P w (snd (remove_dir m q w))" "confined A P w (snd (wait_child m pid w))"
  using change_hostD [of m _ w] unfolding make_dir_def remove_dir_def wait_child_def confined_def runs_def
  by (metis append_Nil2 list.pred_inject(1) prod.collapse)+

lemma confined_exec:
  "A c \<Longrightarrow> confined A P w (snd (exec_cmd m c w))" "A c \<Longrightarrow> confined A P w (snd (exec_output m c w))"
  "A c \<Longrightarrow> confined A P w (snd (spawn_cmd m c w))" "A (c @ [''<'', i]) \<Longrightarrow> confined A P w (snd (exec_input m c i w))"
  using exec_cmdD [of m c w] exec_outputD [of m c w] spawn_cmdD [of m c w] exec_inputD [of m c i w]
  unfolding confined_def runs_def by (metis list.pred_inject prod.collapse)+



text \<open>The commands of the launch helper for one VPN interface and user.\<close>

inductive hard_cmd :: "string \<Rightarrow> nat \<Rightarrow> string list \<Rightarrow> bool" for vpn uid where
  early: "early_cmd vpn uid c \<Longrightarrow> hard_cmd vpn uid c"
| veth_show: "hard_cmd vpn uid [''ip'', ''link'', ''show'', ''dev'', hl_host (launch_state vpn uid)]"
| table_show: "hard_cmd vpn uid [''nft'', ''list'', ''table'', ''inet'', hard_table_name uid]"
| rules_show: "hard_cmd vpn uid [''ip'', fam, ''rule'', ''show'']"
| routes_show: "hard_cmd vpn uid [''ip'', fam, ''route'', ''show'', ''table'', itoa hard_table_base]"
| main_show: "hard_cmd vpn uid [''ip'', ''-j'', fam, ''route'', ''show'', ''table'', ''main'']"
| addr_show: "hard_cmd vpn uid [''ip'', ''-j'', fam, ''addr'', ''show'', ''dev'', vpn]"
| filter_show: "hard_cmd vpn uid [cmd, ''-S'', ''FORWARD'']"
| veth: "args \<in> set (veth_cmds (launch_state vpn uid)) \<Longrightarrow> hard_cmd vpn uid (''ip'' # args)"
| route: "args \<in> set (hard_route_cmds (launch_state vpn uid) a b) \<Longrightarrow> hard_cmd vpn uid (''ip'' # args)"
| transport: "hard_cmd vpn uid ([''ip'', fam, ''route'', ''replace'', dst] @ via @ [''dev'', dev, ''table'', itoa hard_table_base])"
| filter: "hard_cmd vpn uid [''nft'', ''-f'', ''-'', ''<'', hard_firewall_script (launch_state vpn uid) t]"
| protected: "hard_cmd vpn uid [''ip'', ''netns'', ''exec'', fst (hard_names uid), self, ''__linux-hard-child'', exe, env, nat_digits uid]"
| table_delete: "hard_cmd vpn uid [''nft'', ''delete'', ''table'', ''inet'', hard_table_name uid]"
| rule_delete: "hard_cmd vpn uid [''ip'', fam, ''rule'', ''del'', ''priority'', itoa hard_rule_base, ''from'', a, ''table'', itoa hard_table_base]"
| route_flush: "hard_cmd vpn uid [''ip'', fam, ''route'', ''flush'', ''table'', itoa hard_table_base]"
| veth_delete: "hard_cmd vpn uid [''ip'', ''link'', ''del'', hl_host (launch_state vpn uid)]"
| netns_delete: "hard_cmd vpn uid [''ip'', ''netns'', ''del'', fst (hard_names uid)]"

definition hard_file :: "string \<Rightarrow> string \<Rightarrow> string \<Rightarrow> nat \<Rightarrow> string \<Rightarrow> bool" where
  "hard_file root env vpn uid q \<longleftrightarrow>
     q \<in> {fwd4_path, all4_path, all6_path, vpn4_path vpn, vpn6_path vpn, reverse_path_file (hl_host (launch_state vpn uid)),
          path_join (resolv_dir (launch_state vpn uid)) ''resolv.conf'', hard_state_path root, hard_evidence_path root, env} \<or>
     below (resolv_dir (launch_state vpn uid)) q \<or> path_base q = ''cgroup.procs''"

definition same_launch :: "hard_state \<Rightarrow> string \<Rightarrow> nat \<Rightarrow> bool" where
  "same_launch s vpn uid \<longleftrightarrow> (let l = launch_state vpn uid in
     hl_namespace s = hl_namespace l \<and> hl_host s = hl_host l \<and> hl_peer s = hl_peer l \<and> hl_vpn s = hl_vpn l \<and> hl_uid s = hl_uid l \<and>
     hl_cgroup s = hl_cgroup l)"

lemma launch_state_simps [simp]: "hl_vpn (launch_state vpn uid) = vpn" "hl_uid (launch_state vpn uid) = uid"
  "hl_cgroup (launch_state vpn uid) = hard_cgroup_path uid" "hl_namespace (launch_state vpn uid) = fst (hard_names uid)"
  by (simp_all add: launch_state_def Let_def hard_names_def)

lemma same_launchD:
  assumes "same_launch s vpn uid"
  shows "veth_cmds s = veth_cmds (launch_state vpn uid)" "hard_route_cmds s a b = hard_route_cmds (launch_state vpn uid) a b"
    "hard_firewall_script s t = hard_firewall_script (launch_state vpn uid) t" "resolv_dir s = resolv_dir (launch_state vpn uid)"
    "hl_namespace s = fst (hard_names uid)" "hl_host s = hl_host (launch_state vpn uid)" "hl_vpn s = vpn" "hl_uid s = uid"
    "hl_cgroup s = hard_cgroup_path uid"
  using assms
  by (simp_all add: same_launch_def Let_def veth_cmds_def hard_route_cmds_def hard_firewall_script_def resolv_dir_def)

lemma capture_same: "capture_forwarding m (launch_state vpn uid) w = (Inr s, w') \<Longrightarrow> same_launch s vpn uid"
  by (auto simp: capture_forwarding_def Let_def same_launch_def split: prod.splits sum.splits)

lemma confinedD:
  "exec_cmd m c w = (r1, w') \<Longrightarrow> A c \<Longrightarrow> confined A P w w'" "exec_output m c w = (r2, w') \<Longrightarrow> A c \<Longrightarrow> confined A P w w'"
  "spawn_cmd m c w = (r3, w') \<Longrightarrow> A c \<Longrightarrow> confined A P w w'" "exec_input m c i w = (r4, w') \<Longrightarrow> A (c @ [''<'', i]) \<Longrightarrow> confined A P w w'"
  "write_file m q d n w = (r5, w') \<Longrightarrow> P q \<Longrightarrow> confined A P w w'" "remove_file m q w = (r5, w') \<Longrightarrow> P q \<Longrightarrow> confined A P w w'"
  "ip_run m args w = (r7, w') \<Longrightarrow> A (''ip'' # args) \<Longrightarrow> confined A P w w'"
  "make_dir m q w = (r7, w') \<Longrightarrow> confined A P w w'" "host_stat m q w = (r10, w') \<Longrightarrow> confined A P w w'"
  "wait_child m pid w = (r7, w') \<Longrightarrow> confined A P w w'" "chown_file m q w = (r5, w') \<Longrightarrow> confined A P w w'"
  using confined_exec(1) [where m = m and c = c and w = w and A = A and P = P] confined_exec(2) [where m = m and c = c and w = w and A = A and P = P]
    confined_exec(3) [where m = m and c = c and w = w and A = A and P = P] confined_exec(4) [where m = m and c = c and w = w and A = A and P = P and i = i]
    confined_file(1) [where m = m and q = q and d = d and n = n and w = w and A = A and P = P] confined_file(2) [where m = m and q = q and w = w and A = A and P = P]
    confined_file(5) [where m = m and q = q and w = w and A = A and P = P] confined_host(1) [where m = m and q = q and w = w and A = A and P = P]
    confined_host(3) [where m = m and pid = pid and w = w and A = A and P = P]
  by (auto dest: observes_confined ip_run_observes host_stat_observes)

lemma put_file_confined: "put_file m ct q d w = (r, w') \<Longrightarrow> P q \<Longrightarrow> confined A P w w'"
  by (auto simp: put_file_def dest: confinedD(5) split: prod.splits sum.splits)

lemma priority_confined: "priority_free fs m w = (e, w') \<Longrightarrow> confined (hard_cmd vpn uid) P w w'"
proof (induction fs arbitrary: w)
  case (Cons f fs)
  obtain out r w1 where r: "exec_output m [''ip'', f, ''rule'', ''show''] w = ((out, r), w1)" by (metis surj_pair)
  have "confined (hard_cmd vpn uid) P w w1" using r hard_cmd.rules_show by (rule confinedD(2))
  then show ?case using Cons r by (auto split: if_splits intro: confined.chains)
qed (simp add: confined.stays)

lemma ownership_confined:
  assumes "same_launch s vpn uid" "hard_ownership_free m s w = (e, w')"
  shows "confined (hard_cmd vpn uid) P w w'"
proof -
  note s = same_launchD [OF assms(1)]
  obtain o1 r1 w1 where 1: "exec_output m [''ip'', ''link'', ''show'', ''dev'', hl_host s] w = ((o1, r1), w1)" by (metis surj_pair)
  obtain o2 r2 w2 where 2: "exec_output m [''nft'', ''list'', ''table'', ''inet'', hard_table_name (hl_uid s)] w1 = ((o2, r2), w2)" by (metis surj_pair)
  obtain r3 w3 where 3: "priority_free [''-4'', ''-6''] m w2 = (r3, w3)" by fastforce
  obtain r4 w4 where 4: "host_stat m (hl_cgroup s) w3 = (r4, w4)" by fastforce
  have c1: "confined (hard_cmd vpn uid) P w w1" by (rule confinedD(2) [OF 1]) (simp add: s hard_cmd.veth_show)
  have c2: "confined (hard_cmd vpn uid) P w w2" by (rule confined.chains [OF c1 confinedD(2) [OF 2]]) (simp add: s hard_cmd.table_show)
  have c3: "confined (hard_cmd vpn uid) P w w3" by (rule confined.chains [OF c2 priority_confined [OF 3]])
  have c4: "confined (hard_cmd vpn uid) P w w4" by (rule confined.chains [OF c3 confinedD(9) [OF 4]])
  have "w' \<in> {w1, w2, w3, w4}"
    using assms(2) 1 2 3 4 by (auto simp: hard_ownership_free_def split: option.splits sum.splits)
  then show ?thesis using c1 c2 c3 c4 by auto
qed

lemma copy_rows_confined:
  "list_all (\<lambda>(a, args). A (''ip'' # args)) rs \<Longrightarrow> copy_rows m rs t w = (r, w') \<Longrightarrow> confined A P w w'"
proof (induction m rs t w rule: copy_rows.induct)
  case (2 m a args rs t4 t6 w)
  obtain e w1 where e: "ip_run m args w = (e, w1)" by fastforce
  have c: "confined A P w w1" using e 2(2) by (auto intro: confinedD(7))
  show ?case
  proof (cases e)
    case None
    have "confined A P w1 w'" using 2(1) [OF e [symmetric] None] 2(2,3) e None by simp
    then show ?thesis using c confined.chains by blast
  qed (use c e 2(3) in simp)
qed (simp add: confined.stays)

lemma transport_route_cmd:
  "transport_route s family r = Some (a, args) \<Longrightarrow> hard_cmd vpn uid (''ip'' # args)"
  using hard_cmd.transport [of vpn uid family _ "if rr_gateway r \<noteq> [] then [''via'', rr_gateway r] else []" "rr_dev r"]
  by (auto simp: transport_route_def split: if_splits option.splits)

lemma copy_transport_confined:
  "copy_transport_routes fs m s t w = (r, w') \<Longrightarrow> confined (hard_cmd vpn uid) P w w'"
proof (induction fs m s t w rule: copy_transport_routes.induct)
  case (2 f fs m s t w)
  obtain out x w1 where 1: "exec_output m [''ip'', ''-j'', f, ''route'', ''show'', ''table'', ''main''] w = ((out, x), w1)" by (metis surj_pair)
  have c1: "confined (hard_cmd vpn uid) P w w1" using 1 hard_cmd.main_show by (rule confinedD(2))
  obtain rows ok where u: "unmarshal dec_routes out [] = (rows, ok)" by fastforce
  show ?case
  proof (cases "x = None \<and> ok")
    case True
    obtain r2 w2 where 2: "copy_rows m (List.map_filter (transport_route s f) rows) t w1 = (r2, w2)" by fastforce
    have "hard_cmd vpn uid (''ip'' # args)" if "(a, args) \<in> set (List.map_filter (transport_route s f) rows)" for a args
      using that transport_route_cmd [of s f _ a args vpn uid] by (auto simp: List.map_filter_def)
    then have "list_all (\<lambda>(a, args). hard_cmd vpn uid (''ip'' # args)) (List.map_filter (transport_route s f) rows)"
      by (auto simp: list_all_iff)
    then have c2: "confined (hard_cmd vpn uid) P w w2" using confined.chains [OF c1 copy_rows_confined [OF _ 2]] by blast
    show ?thesis
    proof (cases r2)
      case (Inr t1)
      have "confined (hard_cmd vpn uid) P w2 w'" using "2.IH" 1 u True 2 Inr "2.prems" by simp
      then show ?thesis using c2 confined.chains by blast
    qed (use c2 1 u True 2 "2.prems" in simp)
  qed (use c1 1 u "2.prems" in \<open>auto split: option.splits bool.splits\<close>)
qed (simp add: confined.stays)

lemma source_address_confined:
  "interface_source_address m vpn fam w = (a, w') \<Longrightarrow> confined (hard_cmd vpn uid) P w w'"
proof -
  assume a: "interface_source_address m vpn fam w = (a, w')"
  obtain out x w1 where 1: "exec_output m [''ip'', ''-j'', fam, ''addr'', ''show'', ''dev'', vpn] w = ((out, x), w1)" by (metis surj_pair)
  have "w' = w1" using a 1 by (auto simp: interface_source_address_def split: option.splits prod.splits list.splits bool.splits)
  then show ?thesis using confinedD(2) [OF 1] hard_cmd.addr_show by blast
qed

lemma hard_routes_confined:
  assumes "same_launch s vpn uid" "install_hard_routes m s w = (r, w')"
  shows "confined (hard_cmd vpn uid) P w w'"
proof -
  note s = same_launchD [OF assms(1)]
  obtain a w1 where 1: "interface_source_address m vpn ''-4'' w = (a, w1)" by fastforce
  obtain b w2 where 2: "interface_source_address m vpn ''-6'' w1 = (b, w2)" by fastforce
  obtain e w3 where 3: "each_step (map (ip_run m) (hard_route_cmds s a b)) w2 = (e, w3)" by fastforce
  have st: "confined (hard_cmd vpn uid) P w2 w3"
    using confined.each_step_in [of "map (ip_run m) (hard_route_cmds s a b)" "hard_cmd vpn uid" P w2] 3
      confinedD(7) hard_cmd.route [of _ vpn uid a b] unfolding s by (fastforce simp: prod_eq_iff)
  have c3: "confined (hard_cmd vpn uid) P w w3"
    using source_address_confined [OF 1] source_address_confined [OF 2] st confined.chains by metis
  show ?thesis
  proof (cases e)
    case None
    then have "copy_transport_routes [''-4'', ''-6''] m s ([], []) w3 = (r, w')"
      using assms(2) 1 2 3 s(7) by (simp add: install_hard_routes_def)
    then show ?thesis using c3 copy_transport_confined confined.chains by blast
  qed (use c3 assms(2) 1 2 3 s(7) in \<open>simp add: install_hard_routes_def\<close>)
qed

lemma firewall_confined:
  assumes "same_launch s vpn uid" "install_routes_and_firewall m s w = (r, w')"
  shows "confined (hard_cmd vpn uid) P w w'"
proof -
  note s = same_launchD [OF assms(1)]
  obtain x w1 where 1: "install_hard_routes m s w = (x, w1)" by fastforce
  note c1 = hard_routes_confined [OF assms(1) 1, where P = P]
  show ?thesis
  proof (cases x)
    case (Inr t)
    obtain out e w2 where 2: "exec_input m [''nft'', ''-f'', ''-''] (hard_firewall_script s t) w1 = ((out, e), w2)" by (metis surj_pair)
    have "w' = w2" using assms(2) 1 2 Inr by (auto simp: install_routes_and_firewall_def install_hard_firewall_def split: option.splits)
    then show ?thesis using c1 confinedD(4) [OF 2] hard_cmd.filter [of vpn uid t] s(3) confined.chains
      by (metis append_Cons append_Nil)
  qed (use c1 assms(2) 1 in \<open>simp add: install_routes_and_firewall_def\<close>)
qed

lemma put_file_snd: "P q \<Longrightarrow> confined A P w (snd (put_file m ct q d w))"
  by (rule put_file_confined [of m ct q d w "fst (put_file m ct q d w)"]) simp_all

lemma forwarding_confined:
  "P fwd4_path \<Longrightarrow> confined A P w (snd (set_forwarding m on w))" "P all6_path \<Longrightarrow> confined A P w (snd (set_forwarding6 m on w))"
  "P all4_path \<Longrightarrow> P all6_path \<Longrightarrow> P (vpn4_path vpn) \<Longrightarrow> P (vpn6_path vpn) \<Longrightarrow> confined A P w (snd (enable_interface_forwarding m vpn w))"
  unfolding set_forwarding_def set_forwarding6_def Let_def enable_interface_forwarding_def
  subgoal by (rule put_file_snd)
  subgoal by (rule put_file_snd)
  subgoal by (rule confined.each_step_in) (auto intro: put_file_snd)
  done

lemma restore_confined:
  "list_all (\<lambda>(q, v). P q) L \<Longrightarrow> confined A P w (fold (put_back m) L w)"
proof (rule confined.fold_in)
  fix x and w :: "'a world"
  assume "list_all (\<lambda>(q, v). P q) L" "x \<in> set L"
  then have "P (fst x)" by (auto simp: list_all_iff)
  then show "confined A P w (put_back m x w)" by (cases "snd x = []") (simp_all add: put_back_def confined.stays confined_file(1))
qed

lemma cleanup_confined:
  assumes "same_launch s vpn uid"
  shows "confined (hard_cmd vpn uid) (hard_file root env vpn uid) w (hard_cleanup m s w)"
proof -
  note s = same_launchD [OF assms]
  let ?R = "confined (hard_cmd vpn uid) (hard_file root env vpn uid)"
  have 1: "?R w (snd (exec_cmd m [''nft'', ''delete'', ''table'', ''inet'', hard_table_name uid] w))" for w
    by (rule confined_exec(1)) (rule hard_cmd.table_delete)
  have 2: "?R w (fold (\<lambda>args w. snd (exec_cmd m (''ip'' # args) w)) L w)" if "\<forall>args\<in>set L. hard_cmd vpn uid (''ip'' # args)" for L w
    by (rule confined.fold_in) (use that confined_exec(1) in blast)
  have 3: "?R w (snd (remove_all m (path_join ''/etc/netns'' (fst (hard_names uid))) w))" for w
    by (rule confined_file(3)) (simp add: hard_file_def resolv_dir_def)
  have 4: "?R w (fold (put_back m) [(fwd4_path, hl_fwd4 s), (all6_path, hl_fwd6 s)] w)" "?R w (restore_forwarding m s w)" for w
    unfolding restore_forwarding_def by (rule restore_confined; simp add: hard_file_def s)+
  have 5: "?R w (snd (remove_dir m q w))" for q w by (rule confined_host(2))
  note cmds = hard_cmd.rule_delete hard_cmd.route_flush hard_cmd.veth_delete hard_cmd.netns_delete
  show ?thesis
    unfolding hard_cleanup_def Let_def s
    by (intro confined.chains [OF 1 confined.chains [OF 2 confined.chains [OF 3 confined.chains [OF 4(1) confined.chains [OF 4(2) 5]]]]])
      (simp add: cmds)
qed

lemma hard_paths [simp]:
  "hard_file root env vpn uid fwd4_path" "hard_file root env vpn uid all4_path" "hard_file root env vpn uid all6_path"
  "hard_file root env vpn uid (vpn4_path vpn)" "hard_file root env vpn uid (vpn6_path vpn)"
  "hard_file root env vpn uid (reverse_path_file (hl_host (launch_state vpn uid)))"
  "hard_file root env vpn uid (hard_state_path root)" "hard_file root env vpn uid (hard_evidence_path root)" "hard_file root env vpn uid env"
  "hard_file root env vpn uid (path_join cg ''cgroup.procs'')"
  by (simp_all add: hard_file_def file_name_def)

lemma confined_tick [simp]: "confined A P w (tick w)"
  by (simp add: confined_def)

lemma plain_snd [simp]: "snd (plain f w) = snd (f w)" "snd (wrapped c f w) = snd (f w)"
  by (simp_all add: plain_def wrapped_def split: prod.splits sum.splits)

lemma setup_steps_confined:
  assumes "same_launch s vpn uid" "f \<in> set (hard_setup_steps m root s)"
  shows "confined (hard_cmd vpn uid) (hard_file root env vpn uid) w (snd (f w))"
proof -
  note s = same_launchD [OF assms(1)]
  let ?R = "confined (hard_cmd vpn uid) (hard_file root env vpn uid)"
  have ow: "?R w (snd (hard_ownership_free m s w))"
    by (rule ownership_confined [OF assms(1), of m w "fst (hard_ownership_free m s w)"]) simp
  have cg: "?R w (snd (make_cgroup m s w))"
    using confined_host(1) [of _ _ w m "hl_cgroup s"] by (auto simp: make_cgroup_def split: prod.splits option.splits)
  have ip: "?R w (snd (ip_run m args w))" if "args \<in> set (veth_cmds s)" for args
    by (rule confinedD(7) [of m args w "fst (ip_run m args w)"]) (use that hard_cmd.veth s(1) in auto)
  have fw: "?R w (snd (install_routes_and_firewall m s w))"
    by (rule firewall_confined [OF assms(1), of m w "fst (install_routes_and_firewall m s w)"]) simp
  have rc: "hard_file root env vpn uid (path_join (resolv_dir s) ''resolv.conf'')"
    unfolding s by (simp add: hard_file_def)
  have ps: "?R w (snd (put_file m ct (reverse_path_file (hl_host (launch_state vpn uid))) d w))" for ct d by (rule put_file_snd) simp
  have ws: "?R w (snd (write_file m (hard_state_path root) d n w))" "?R w (snd (chmod_file m (hard_state_path root) n w))" for d n
    by (rule confined_file; simp)+
  have wr: "?R w (snd (write_file m (path_join (resolv_dir s) ''resolv.conf'') d n w))" for d n by (rule confined_file(1)) (rule rc)
  have fo: "?R w (snd (set_forwarding m True w))" "?R w (snd (set_forwarding6 m True w))" "?R w (snd (enable_interface_forwarding m vpn w))"
    by (rule forwarding_confined; simp)+
  show ?thesis using assms(2) ow cg ip fw ps ws wr fo confined_file(5) [of _ _ w m "hard_state_path root"]
    by (auto simp: hard_setup_steps_def s(6,7) write_hard_state_def disable_reverse_path_def)
qed

lemma hard_setup_confined:
  assumes "same_launch s vpn uid" "hard_setup m root s w = (e, w')"
  shows "confined (hard_cmd vpn uid) (hard_file root env vpn uid) w w'"
proof -
  note s = same_launchD [OF assms(1)]
  let ?R = "confined (hard_cmd vpn uid) (hard_file root env vpn uid)"
  obtain x w1 where 1: "ip_run m [''netns'', ''add'', hl_namespace s] w = (x, w1)" by fastforce
  have c1: "?R w w1" by (rule confinedD(7) [OF 1]) (simp add: s hard_cmd.early early_cmd_def)
  obtain y w2 where 2: "each_step (hard_setup_steps m root s) w1 = (y, w2)" by fastforce
  have "?R w1 (snd (each_step (hard_setup_steps m root s) w1))"
    by (rule confined.each_step_in) (rule setup_steps_confined [OF assms(1)])
  then have c2: "?R w w2" using c1 2 confined.chains by fastforce
  have "w' \<in> {w1, w2, hard_cleanup m s w2}"
    using assms(2) 1 2 by (auto simp: hard_setup_def split: option.splits)
  then show ?thesis using c1 c2 confined.chains [OF c2 cleanup_confined [OF assms(1)]] by auto
qed

lemma evidence_confined: "confined (hard_cmd vpn uid) (hard_file root env vpn uid) w (snd (write_hard_evidence m root uid w))"
proof -
  let ?R = "confined (hard_cmd vpn uid) (hard_file root env vpn uid)"
  have c: "collect_evidence m items w = (t, w') \<Longrightarrow> list_all (\<lambda>(n, c). hard_cmd vpn uid c) items \<Longrightarrow> ?R w w'" for items t w w'
  proof (induction items arbitrary: t w w')
    case (Cons it items)
    obtain n c where it: "it = (n, c)" by fastforce
    obtain out e w1 where 1: "exec_cmd m c w = ((out, e), w1)" by (metis surj_pair)
    obtain r w2 where 2: "collect_evidence m items w1 = (r, w2)" by fastforce
    have "?R w w1" using confinedD(1) [OF 1] Cons.prems(2) it by simp
    moreover have "?R w1 w'" using Cons.IH [OF 2] Cons.prems it 1 2 by simp
    ultimately show ?case by (rule confined.chains)
  qed (simp add: confined.stays)
  obtain t w1 where 1: "collect_evidence m (hard_evidence_items uid) w = (t, w1)" by fastforce
  have c1: "?R w w1"
    by (rule c [OF 1]) (simp add: hard_evidence_items_def Let_def hard_cmd.rules_show hard_cmd.routes_show hard_cmd.table_show hard_cmd.filter_show)
  obtain x w2 where 2: "write_file m (hard_evidence_path root) t 420 w1 = (x, w2)" by fastforce
  have c2: "?R w w2" by (rule confined.chains [OF c1 confinedD(5) [OF 2]]) simp
  have "snd (write_hard_evidence m root uid w) \<in> {w2, snd (chown_file m (hard_evidence_path root) w2)}"
    using 1 2 by (auto simp: write_hard_evidence_def split: sum.splits)
  then show ?thesis using c2 confined.chains [OF c2 confined_file(5)] by auto
qed

lemma run_protected_confined:
  assumes "same_launch s vpn uid"
  shows "confined (hard_cmd vpn uid) (hard_file root env vpn uid) w (snd (run_protected m root exe env s w))"
proof (cases "m_self m")
  case (Inr self)
  note s = same_launchD [OF assms]
  let ?R = "confined (hard_cmd vpn uid) (hard_file root env vpn uid)"
  obtain r w1 where 1: "spawn_cmd m [''ip'', ''netns'', ''exec'', hl_namespace s, self, ''__linux-hard-child'', exe, env, nat_digits (hl_uid s)] w = (r, w1)"
    by fastforce
  have c1: "?R w w1" by (rule confinedD(3) [OF 1]) (simp add: s hard_cmd.protected)
  show ?thesis
  proof (cases r)
    case (Inr pid)
    obtain u w2 where 2: "write_hard_state m root (s\<lparr>hl_pid := pid\<rparr>) w1 = (u, w2)" by fastforce
    obtain e w3 where 3: "wait_child m pid w2 = (e, w3)" by fastforce
    have c2: "?R w w2" by (rule confined.chains [OF c1 confinedD(5) [OF 2 [unfolded write_hard_state_def]]]) simp
    have c3: "?R w w3" by (rule confined.chains [OF c2 confinedD(10) [OF 3]])
    have "snd (run_protected m root exe env s w) = snd (write_hard_evidence m root uid w3)"
      using 1 2 3 Inr \<open>m_self m = Inr self\<close> s by (simp add: run_protected_def split: prod.splits)
    then show ?thesis using confined.chains [OF c3 evidence_confined] by simp
  qed (use c1 1 \<open>m_self m = Inr self\<close> in \<open>simp add: run_protected_def\<close>)
qed (simp add: run_protected_def confined.stays)

lemma host_file_confined: "host_file m p w = (r, w') \<Longrightarrow> confined A P w w'"
  by (intro observes_confined host_file_observes)

lemma in_cgroup_confined:
  assumes "\<And>w. confined A P w (snd (body w))" "\<And>cg. P (path_join cg ''cgroup.procs'')"
  shows "confined A P w (snd (in_cgroup m s body w))"
proof -
  obtain r w1 where 1: "current_cgroup_path m w = (r, w1)" by fastforce
  have c1: "confined A P w w1" using 1 by (auto simp: current_cgroup_path_def dest: host_file_confined split: prod.splits sum.splits)
  have mv: "confined A P w (snd (move_self_to_cgroup m cg w))" for cg w
    unfolding move_self_to_cgroup_def using assms(2) by (rule put_file_snd)
  show ?thesis
  proof (cases r)
    case (Inr parent)
    obtain x w2 where 2: "move_self_to_cgroup m (hl_cgroup s) w1 = (x, w2)" by fastforce
    have c2: "confined A P w w2" using confined.chains [OF c1 mv [of w1 "hl_cgroup s"]] 2 by simp
    have b: "confined A P w (snd (move_self_to_cgroup m parent (snd (body w2))))"
      by (rule confined.chains [OF c2 confined.chains [OF assms(1) mv]])
    have "snd (in_cgroup m s body w) \<in> {w2, snd (move_self_to_cgroup m parent (snd (body w2)))}"
      using 1 2 Inr by (auto simp: in_cgroup_def split: option.splits prod.splits)
    then show ?thesis using c2 b by auto
  qed (use c1 1 in \<open>simp add: in_cgroup_def\<close>)
qed

lemma hard_finish_confined:
  "same_launch s vpn uid \<Longrightarrow> confined (hard_cmd vpn uid) (hard_file root env vpn uid) w (hard_finish m root env s w)"
  unfolding hard_finish_def
  by (intro confined.chains [OF confined_file(2) confined.chains [OF confined_file(2) cleanup_confined]]) simp_all

lemma launch_tail_confined:
  assumes "same_launch s vpn uid"
    "launch_tail m root exe env s w = (e', w')"
  shows "confined (hard_cmd vpn uid) (hard_file root env vpn uid) w w'"
proof -
  let ?R = "confined (hard_cmd vpn uid) (hard_file root env vpn uid)"
  obtain x w4 where 4: "hard_setup m root s w = (x, w4)" by fastforce
  note c4 = hard_setup_confined [OF assms(1) 4, where env = env]
  obtain y w5 where 5: "in_cgroup m s (run_protected m root exe env s) w4 = (y, w5)" by fastforce
  have "?R w4 (snd (in_cgroup m s (run_protected m root exe env s) w4))"
    by (rule in_cgroup_confined) (simp_all add: run_protected_confined [OF assms(1)])
  then have c5: "?R w w5" using confined.chains [OF c4] 5 by simp
  have "w' \<in> {w4, hard_finish m root env s w5}" using assms(2) 4 5 by (auto simp: launch_tail_def split: option.splits)
  then show ?thesis using c4 confined.chains [OF c5 hard_finish_confined [OF assms(1)]] by auto
qed

text \<open>C15: the launch helper is confined.  Whatever its arguments and whatever fails, the
  commands it runs are those of \<open>hard_cmd\<close>: they read, or change the namespace, the veth pair, the
  packet-filter table, the routing table 20240 and the rules of priority 19240 of that user; and
  the only files it touches are the forwarding switches, the files of that namespace, its state,
  evidence and environment files, and the cgroup files of its own process.\<close>

theorem hard_launch_confined:
  assumes "run_hard_launch m root vpn exe env uid w = (e, w')"
  shows "runs (hard_cmd vpn uid) w w' \<and> (\<forall>q. hard_file root env vpn uid q \<or> w_files w' q = w_files w q) \<and>
    (w_files w' \<noteq> w_files w \<longrightarrow> m_geteuid m = 0 \<and> safe_linux_name vpn)"
proof -
  let ?R = "confined (hard_cmd vpn uid) (hard_file root env vpn uid)"
  have quiet: "observes (early_cmd vpn uid) w w1 \<Longrightarrow> ?R w w1 \<and> w_files w1 = w_files w" for w1
    using observes_confined [OF observes_mono [of "early_cmd vpn uid" w w1 "hard_cmd vpn uid"]] hard_cmd.early
    by (simp add: observes_def)
  from assms have "?R w w' \<and> (w_files w' \<noteq> w_files w \<longrightarrow> m_geteuid m = 0 \<and> safe_linux_name vpn)"
  proof (cases rule: run_hard_launch_cases)
    case refused
    then show ?thesis using quiet [of w'] by simp
  next
    case (cleaned s w3 w4 w5)
    have c: "?R w3 w4" using capture_forwarding_observes [OF cleaned(4)] by (rule observes_confined)
    have "?R w w'"
      by (rule confined.chains [OF conjunct1 [OF quiet [OF cleaned(1)]] confined.chains [OF c
          launch_tail_confined [OF capture_same [OF cleaned(4)] cleaned(5)]]])
    then show ?thesis using cleaned(2,3) by simp
  qed
  then show ?thesis unfolding confined_def by blast
qed

lemma hard_launch_confined_witness:
  "runs (hard_cmd ''wg0'' 7) (world_of [] ())
     (snd (run_hard_launch (quiet_machine\<lparr>m_geteuid := 0\<rparr>) ''/r'' ''wg0'' ''/opt/agy'' ''/r/kernel-hard-env.json'' 7 (world_of [] ())))"
proof -
  obtain e w' where r: "run_hard_launch (quiet_machine\<lparr>m_geteuid := 0\<rparr>) ''/r'' ''wg0'' ''/opt/agy'' ''/r/kernel-hard-env.json'' 7 (world_of [] ()) = (e, w')"
    by fastforce
  from hard_launch_confined [OF this] r show ?thesis by simp
qed

lemma cleanup_log:
  "\<exists>cs. w_log (hard_cleanup m s w) = w_log w @ cs \<and>
     {[''nft'', ''delete'', ''table'', ''inet'', hard_table_name (hl_uid s)], [''ip'', ''link'', ''del'', hl_host s],
      [''ip'', ''netns'', ''del'', hl_namespace s]} \<subseteq> set cs"
proof -
  have pb: "w_log (put_back m a w) = w_log w" for a w
    using write_file_env [of w m "fst a" "snd a" 420] by (auto simp: put_back_def same_env_def)
  have ra: "w_log (snd (remove_all m q w)) = w_log w" for q w by (auto simp: remove_all_def split: option.splits)
  have rd: "w_log (snd (remove_dir m q w)) = w_log w" for q w
    using change_hostD [of m "m_rmdir m q" w] unfolding remove_dir_def by (metis prod.collapse)
  show ?thesis
    by (rule exI [of _ "drop (length (w_log w)) (w_log (hard_cleanup m s w))"])
      (simp add: hard_cleanup_def Let_def rd restore_forwarding_def pb ra)
qed

text \<open>A collision is cleaned up as if it were ours.  When the veth of the launch already
  exists before the helper made anything but its namespace, the set-up is refused, and the
  clean-up then deletes that foreign veth and the packet-filter table of the name.\<close>

theorem collision_deletes_foreign:
  assumes "ip_run m [''netns'', ''add'', hl_namespace s] w = (None, w1)"
    and "exec_output m [''ip'', ''link'', ''show'', ''dev'', hl_host s] w1 = ((out, None), w2)"
    and "hard_setup m root s w = (e, w')"
  shows "e \<noteq> None \<and> (\<exists>cs. w_log w' = w_log w2 @ cs \<and> [''ip'', ''link'', ''del'', hl_host s] \<in> set cs \<and>
    [''nft'', ''delete'', ''table'', ''inet'', hard_table_name (hl_uid s)] \<in> set cs)"
proof -
  have "e \<noteq> None \<and> w' = hard_cleanup m s w2"
    using assms by (auto simp: hard_setup_def hard_setup_steps_def hard_ownership_free_def)
  then show ?thesis using cleanup_log [of m s w2] by auto
qed

lemma collision_deletes_foreign_witness:
  "[''ip'', ''link'', ''del'', ''agp-h-7''] \<in> set (w_log (snd (hard_setup quiet_machine ''/r'' (launch_state ''wg0'' 7) (world_of [] ()))))"
proof -
  let ?s = "launch_state ''wg0'' 7"
  obtain w1 where 1: "ip_run quiet_machine [''netns'', ''add'', hl_namespace ?s] (world_of [] ()) = (None, w1)"
    by (simp add: ip_run_def exec_cmd_def quiet_machine_def)
  obtain out w2 where 2: "exec_output quiet_machine [''ip'', ''link'', ''show'', ''dev'', hl_host ?s] w1 = ((out, None), w2)"
    by (simp add: exec_output_def quiet_machine_def)
  obtain e w' where 3: "hard_setup quiet_machine ''/r'' ?s (world_of [] ()) = (e, w')" by fastforce
  have h: "hl_host ?s = ''agp-h-7''" by (simp add: launch_state_def hard_names_def nat_digits.simps Let_def)
  show ?thesis using collision_deletes_foreign [OF 1 2 3] 3 unfolding h by auto
qed


end
