(* ===== verification/Tunnel.thy ===== *)
theory Tunnel imports KernelIsolation Observability "HOL-Library.Product_Lexorder" begin

text \<open>
  The Agent Tunnel (\<^verbatim>\<open>tunnel.go\<close>, \<^verbatim>\<open>tunnel_readiness.go\<close>, \<^verbatim>\<open>preflight.go\<close>, \<^verbatim>\<open>health.go\<close>, and the
  upstream routes of \<^verbatim>\<open>tunnel_host_linux.go\<close>): the configuration of \<^verbatim>\<open>sing-box\<close> in tunnel mode,
  the preflight, the transaction around starting it, stopping and waiting, and the health report.

  A Go context is a function from the counter of the world to the error it reports then, if any.
  Loops over a ticker are bounded by the number of its ticks: a wait of eight seconds sees at most
  32 ticks of 250 milliseconds, one of five seconds at most 125 ticks of 40 milliseconds; the wait
  for a stopping child has no limit of its own, and takes fuel.
\<close>

section \<open>Configuration\<close>

record tunnel_options =
  to_names :: "string list"
  to_regex :: "string list"
  to_domains :: "string list"
  to_suffix :: "string list"
  to_strict :: bool
  to_fallback :: bool
  to_routes :: "string list"

definition default_tunnel_options :: "platform \<Rightarrow> tunnel_options" where
  "default_tunnel_options pf = \<lparr>
     to_names = [''Antigravity.exe'', ''antigravity.exe'', ''antigravity'', ''antigravity-desktop'',
       ''language_server.exe'', ''language_server_windows_x64.exe'', ''language_server_windows_arm64.exe'',
       ''language_server_linux_x64'', ''language_server_linux_arm64'', ''language_server'', ''agy.exe'', ''agy''],
     to_regex = [''(?i).*antigravity.*'', ''(?i).*language[_-]?server.*''],
     to_domains = [''antigravity.google'', ''accounts.google.com'', ''oauth2.googleapis.com'',
       ''cloudcode-pa.googleapis.com'', ''daily-cloudcode-pa.googleapis.com''],
     to_suffix = [''.googleapis.com''], to_strict = (pf = Linux), to_fallback = False, to_routes = []\<rparr>"

definition agent_tunnel_tag :: string where "agent_tunnel_tag = ''agent-tun''"

definition route_to :: "(string \<times> json) list \<Rightarrow> string \<Rightarrow> string \<Rightarrow> json" where
  "route_to conds k v = json_map (conds @ [(''action'', JStr ''route''), (k, JStr v)])"

definition tun_inbound :: "platform \<Rightarrow> tunnel_options \<Rightarrow> json" where
  "tun_inbound pf o' = json_map
     ([(''type'', JStr ''tun''), (''tag'', JStr agent_tunnel_tag), (''interface_name'', JStr agent_tun_name),
       (''address'', strs [''172.31.255.1/30'', ''fdfe:dcba:9876::1/126'']), (''mtu'', enc_int 1500), (''auto_route'', JBool True),
       (''strict_route'', JBool (to_strict o')), (''dns_mode'', JStr ''hijack''), (''stack'', JStr ''system''),
       (''route_exclude_address'', strs ([''127.0.0.0/8'', ''10.0.0.0/8'', ''172.16.0.0/12'', ''192.168.0.0/16'', ''169.254.0.0/16'',
          ''::1/128'', ''fe80::/10'', ''fc00::/7''] @ to_routes o'))] @
      (if pf = Linux then [(''auto_redirect'', JBool False), (''iproute2_table_index'', enc_int tunnel_route_table_index),
         (''iproute2_rule_index'', enc_int tunnel_rule_start)] else []))"

definition tunnel_route_rules :: "tunnel_options \<Rightarrow> json list" where
  "tunnel_route_rules o' =
     (let tun = (''inbound'', strs [agent_tunnel_tag]); direct = (\<lambda>conds. route_to conds ''outbound'' ''vpn-direct'') in
      [direct [(''inbound'', strs [''local-mixed''])],
       direct [tun, (''process_name'', strs (to_names o'))],
       direct [tun, (''process_path_regex'', strs (to_regex o'))],
       json_map [tun, (''action'', JStr ''sniff'')]] @
      (if to_fallback o' then [direct [tun, (''domain'', strs (to_domains o')), (''domain_suffix'', strs (to_suffix o'))]] else []))"

definition tunnel_dns :: "config \<Rightarrow> tunnel_options \<Rightarrow> json" where
  "tunnel_dns c o' =
     (let (dns_ip, dns_name) = dns_of (cf_dns c); doh = (\<lambda>conds. route_to conds ''server'' ''secure-doh'');
          secure = json_map [(''type'', JStr ''https''), (''tag'', JStr ''secure-doh''), (''server'', JStr dns_ip), (''server_port'', enc_int 443),
            (''path'', JStr ''/dns-query''), (''bind_interface'', JStr (cf_vpn c)),
            (''tls'', json_map [(''enabled'', JBool True), (''server_name'', JStr dns_name)])];
          local_dns = json_map [(''type'', JStr ''local''), (''tag'', JStr ''local-dns''), (''prefer_go'', JBool False)]
      in json_map
        [(''servers'', JArr [secure, local_dns]),
         (''rules'', JArr ([doh [(''process_name'', strs (to_names o'))], doh [(''process_path_regex'', strs (to_regex o'))]] @
            (if to_fallback o' then [doh [(''domain'', strs (to_domains o')), (''domain_suffix'', strs (to_suffix o'))]] else []))),
         (''final'', JStr ''local-dns''), (''strategy'', JStr ''prefer_ipv4'')])"

definition tunnel_doc :: "platform \<Rightarrow> config \<Rightarrow> string \<Rightarrow> tunnel_options \<Rightarrow> json" where
  "tunnel_doc pf c secret o' = json_map
     [(''log'', json_map [(''level'', JStr ''info''), (''timestamp'', JBool True)]),
      (''dns'', tunnel_dns c o'),
      (''inbounds'', JArr [json_map [(''type'', JStr ''mixed''), (''tag'', JStr ''local-mixed''), (''listen'', JStr (cf_host c)), (''listen_port'', enc_int (cf_port c))],
         tun_inbound pf o']),
      (''outbounds'', JArr
        [json_map [(''type'', JStr ''direct''), (''tag'', JStr ''vpn-direct''), (''bind_interface'', JStr (cf_vpn c)),
           (''domain_resolver'', json_map [(''server'', JStr ''secure-doh''), (''strategy'', JStr ''ipv4_only'')])],
         json_map [(''type'', JStr ''direct''), (''tag'', JStr ''system-direct''), (''domain_resolver'', json_map [(''server'', JStr ''local-dns'')])]]),
      (''route'', json_map [(''rules'', JArr (tunnel_route_rules o')), (''final'', JStr ''system-direct''), (''auto_detect_interface'', JBool True)]),
      (''services'', JArr [json_map [(''type'', JStr ''api''), (''tag'', JStr ''agp-observe''), (''listen'', JStr api_host), (''listen_port'', enc_int api_port),
         (''secret'', JStr secret), (''access_control_allow_origin'', strs [''http://127.0.0.1'', ''http://localhost'']),
         (''access_control_allow_private_network'', JBool False), (''dashboard'', JBool False)]])]"

definition write_tunnel_config ::
  "platform \<Rightarrow> 'k machine \<Rightarrow> config \<Rightarrow> string \<Rightarrow> tunnel_options \<Rightarrow> 'k world \<Rightarrow> unit res \<times> 'k world" where
  "write_tunnel_config pf m c path o' w =
     (if trim_space (cf_vpn c) = [] then (Inl (new_err ''Agent Tunnel requires an explicit VPN interface''), w)
      else (case mkdir_all m (cf_root c) w of
        (Inl e, w1) \<Rightarrow> (Inl e, w1)
      | (Inr _, w1) \<Rightarrow>
     (case ensure_api_secret pf m (cf_root c) w1 of
        (Inl e, w2) \<Rightarrow> (Inl e, w2)
      | (Inr secret, w2) \<Rightarrow> atomic_write m path (marshal_indent (tunnel_doc pf c secret o') @ nl) 384 w2)))"

section \<open>Routes of the VPN transport\<close>

definition upstream_host_route :: "string \<Rightarrow> route_row \<Rightarrow> string option" where
  "upstream_host_route vpn r =
     (if rr_dev r = [] \<or> rr_dev r = vpn \<or> rr_dev r = agent_tun_name \<or> rr_gateway r = [] then None
      else case route_prefix (rr_dst r) of
          Some (a, n) \<Rightarrow> if n = addr_bits a then Some (prefix_text (a, n)) else None
        | None \<Rightarrow> None)"

text \<open>The fields of this struct have no tags: the names are \<^verbatim>\<open>Dst\<close>, \<^verbatim>\<open>Dev\<close> and \<^verbatim>\<open>Gateway\<close>.\<close>

definition dec_upstream_rows :: "route_row list decoder" where
  "dec_upstream_rows = dec_list \<lparr>rr_dst = [], rr_dev = [], rr_gateway = []\<rparr> (dec_struct
     [dec_field ''Dst'' dec_string rr_dst (\<lambda>v a. a\<lparr>rr_dst := v\<rparr>),
      dec_field ''Dev'' dec_string rr_dev (\<lambda>v a. a\<lparr>rr_dev := v\<rparr>),
      dec_field ''Gateway'' dec_string rr_gateway (\<lambda>v a. a\<lparr>rr_gateway := v\<rparr>)])"

definition parse_upstream_host_routes :: "string \<Rightarrow> string \<Rightarrow> string list res" where
  "parse_upstream_host_routes raw vpn =
     (case unmarshal dec_upstream_rows raw [] of
        (_, False) \<Rightarrow> Inl json_error
      | (rows, True) \<Rightarrow> Inr (List.map_filter (upstream_host_route vpn) rows))"

fun upstream_routes_of :: "string list \<Rightarrow> 'k machine \<Rightarrow> string \<Rightarrow> 'k world \<Rightarrow> string list res \<times> 'k world" where
  "upstream_routes_of [] m vpn w = (Inr [], w)"
| "upstream_routes_of (family # fs) m vpn w =
     (case exec_output m [''ip'', ''-j'', family, ''route'', ''show'', ''table'', ''main''] w of
        ((_, Some (e, _)), w1) \<Rightarrow> (Inl e, w1)
      | ((out, None), w1) \<Rightarrow>
          (case parse_upstream_host_routes out vpn of
             Inl e \<Rightarrow> (Inl e, w1)
           | Inr found \<Rightarrow>
               (case upstream_routes_of fs m vpn w1 of
                  (Inl e, w2) \<Rightarrow> (Inl e, w2)
                | (Inr rest, w2) \<Rightarrow> (Inr (found @ rest), w2))))"

definition tunnel_upstream_host_routes :: "platform \<Rightarrow> 'k machine \<Rightarrow> string \<Rightarrow> 'k world \<Rightarrow> string list res \<times> 'k world" where
  "tunnel_upstream_host_routes pf m vpn w = (if pf = Linux then upstream_routes_of [''-4'', ''-6''] m vpn w else (Inr [], w))"

section \<open>Preflight\<close>

datatype severity = Info | Warning | Blocker

record finding =
  fi_severity :: severity
  fi_code :: string
  fi_detail :: string

record preflight_report =
  pr_ok :: bool
  pr_platform :: string
  pr_vpn :: string
  pr_checked :: string
  pr_findings :: "finding list"

definition add_finding :: "severity \<Rightarrow> string \<Rightarrow> string \<Rightarrow> preflight_report \<Rightarrow> preflight_report" where
  "add_finding sev code detail r =
     r\<lparr>pr_findings := pr_findings r @ [\<lparr>fi_severity = sev, fi_code = code, fi_detail = detail\<rparr>],
       pr_ok := (pr_ok r \<and> sev \<noteq> Blocker)\<rparr>"

definition blocker_summary :: "preflight_report \<Rightarrow> string" where
  "blocker_summary r =
     (let parts = map (\<lambda>f. fi_code f @ '': '' @ fi_detail f) (filter (\<lambda>f. fi_severity f = Blocker) (pr_findings r))
      in if parts = [] then ''no blockers'' else str_join parts ''; '')"

definition likely_vpn_name :: "string \<Rightarrow> bool" where
  "likely_vpn_name n \<longleftrightarrow>
     (let n = to_lower n in
      str_contains n ''amnezia'' \<or> has_prefix n ''amn'' \<or> str_contains n ''vpn'' \<or> str_contains n ''wireguard'' \<or> has_prefix n ''wg'' \<or>
      has_prefix n ''tun'' \<or> str_contains n ''wintun'' \<or> str_contains n ''tailscale'' \<or> str_contains n ''outline'')"

definition virtual_network_manager :: "string \<Rightarrow> string" where
  "virtual_network_manager n =
     (let n = to_lower n in
      if n = ''docker0'' \<or> has_prefix n ''br-'' \<or> has_prefix n ''docker'' then ''Docker/container bridge''
      else if has_prefix n ''podman'' \<or> has_prefix n ''cni'' then ''Podman/CNI''
      else if has_prefix n ''virbr'' \<or> str_contains n ''libvirt'' then ''libvirt''
      else if has_prefix n ''vbox'' then ''VirtualBox''
      else if has_prefix n ''vmnet'' then ''VMware''
      else [])"

definition custom_rule_warnings :: "string \<Rightarrow> string list \<Rightarrow> (string \<times> string) list" where
  "custom_rule_warnings family lines = List.map_filter (\<lambda>line.
     case rule_priority line of
       None \<Rightarrow> None
     | Some p \<Rightarrow>
         if p = 0 \<or> p = 32766 \<or> p = 32767 \<or> tunnel_rule_start \<le> p \<and> p \<le> tunnel_rule_end then None
         else Some (''routing.custom_policy_rule'', family @ '' custom policy rule priority '' @ itoa p @ '' is present: '' @ line)) lines"

definition iface_warnings :: "string \<Rightarrow> iface \<Rightarrow> (string \<times> string) list" where
  "iface_warnings vpn i =
     (let name = to_lower (if_name i); manager = virtual_network_manager name in
      if \<not> if_up i \<or> if_loopback i \<or> name = to_lower (trim_space vpn) \<or> name = agent_tun_name then []
      else (if manager \<noteq> [] then [(''routing.virtual_network_manager'',
              ''active interface '' @ go_quote (if_name i) @ '' suggests '' @ manager @ ''-managed routes; verify coexistence'')] else []) @
           (if likely_vpn_name name then [(''routing.concurrent_vpn'',
              ''another VPN-like interface '' @ go_quote (if_name i) @ '' is UP while '' @ go_quote vpn @ '' is selected'')] else []))"

text \<open>Keeping the first of equal warnings.\<close>

fun first_of_each :: "'a list \<Rightarrow> 'a list \<Rightarrow> 'a list" where
  "first_of_each seen [] = []"
| "first_of_each seen (x # xs) = (if x \<in> set seen then first_of_each seen xs else x # first_of_each (x # seen) xs)"

definition analyze_host_routes :: "platform \<Rightarrow> 'k machine \<Rightarrow> config \<Rightarrow> snapshot \<Rightarrow> 'k world \<Rightarrow> (string \<times> string) list \<times> 'k world" where
  "analyze_host_routes pf m c s w =
     (if pf \<noteq> Linux then ([], w)
      else (let (ifaces, w1) = observe m (m_ifaces m) w
            in (first_of_each [] (custom_rule_warnings ''IPv4'' (ns_rules4 s) @ custom_rule_warnings ''IPv6'' (ns_rules6 s) @
                  concat (map (iface_warnings (cf_vpn c)) ifaces)), w1)))"

definition severity_rank :: "severity \<Rightarrow> nat" where
  "severity_rank s = (case s of Blocker \<Rightarrow> 0 | Warning \<Rightarrow> 1 | Info \<Rightarrow> 2)"

definition sort_findings :: "finding list \<Rightarrow> finding list" where
  "sort_findings fs = sort_key (\<lambda>f. (severity_rank (fi_severity f), fi_code f)) fs"

definition no_such_iface :: string where "no_such_iface = ''route ip+net: no such network interface''"

definition check_vpn :: "'k machine \<Rightarrow> preflight_report \<Rightarrow> 'k world \<Rightarrow> preflight_report \<times> 'k world" where
  "check_vpn m r w =
     (if pr_vpn r = [] then (add_finding Blocker ''vpn.not_configured'' ''select an explicit VPN interface before Agent Tunnel startup'' r, w)
      else if pr_vpn r = agent_tun_name
      then (add_finding Blocker ''vpn.recursive_tun'' ''the Agent Tunnel interface cannot be used as its own upstream'' r, w)
      else (case iface_by_name m (pr_vpn r) w of
          (None, w1) \<Rightarrow> (add_finding Blocker ''vpn.not_found''
            (''selected VPN interface '' @ go_quote (pr_vpn r) @ '' does not exist: '' @ no_such_iface) r, w1)
        | (Some i, w1) \<Rightarrow>
            if \<not> if_up i then (add_finding Blocker ''vpn.down'' (''selected VPN interface '' @ go_quote (pr_vpn r) @ '' is down'') r, w1)
            else (add_finding Info ''vpn.ready'' (''selected upstream '' @ go_quote (pr_vpn r) @ '' is present and UP'') r, w1)))"

definition check_tun :: "'k machine \<Rightarrow> preflight_report \<Rightarrow> 'k world \<Rightarrow> preflight_report \<times> 'k world" where
  "check_tun m r w =
     (case iface_by_name m agent_tun_name w of
        (Some _, w1) \<Rightarrow> (add_finding Blocker ''tun.preexisting''
          (agent_tun_name @ '' already exists before this operation; ownership is unknown'') r, w1)
      | (None, w1) \<Rightarrow> (r, w1))"

definition check_api :: "'k machine \<Rightarrow> preflight_report \<Rightarrow> 'k world \<Rightarrow> preflight_report \<times> 'k world" where
  "check_api m r w =
     (case dial_tcp m api_addr w of
        (None, w1) \<Rightarrow> (add_finding Blocker ''api.listener_occupied''
          (''reserved authenticated sing-box API listener '' @ api_addr @ '' is already occupied'') r, w1)
      | (Some _, w1) \<Rightarrow> (add_finding Info ''api.listener_free''
          (''authenticated sing-box API listener '' @ api_addr @ '' is available'') r, w1))"

definition check_ownership :: "platform \<Rightarrow> snapshot \<Rightarrow> preflight_report \<Rightarrow> preflight_report" where
  "check_ownership pf s r =
     (case preflight_ownership pf s of
        Some e \<Rightarrow> add_finding Blocker ''routing.ownership_collision'' (err_text e) r
      | None \<Rightarrow>
          if pf = Linux
          then add_finding Info ''routing.namespace_free'' (''reserved iproute2 table '' @ itoa tunnel_route_table_index @ '' and priorities '' @
                 itoa tunnel_rule_start @ ''..'' @ itoa tunnel_rule_end @ '' are free'') r
          else r)"

definition agent_tunnel_preflight :: "platform \<Rightarrow> 'k machine \<Rightarrow> manager \<Rightarrow> 'k world \<Rightarrow> preflight_report \<times> 'k world" where
  "agent_tunnel_preflight pf m g w =
     (let c = mg_cfg g; (t, w1) = now m w;
          r0 = \<lparr>pr_ok = True, pr_platform = goos pf, pr_vpn = trim_space (cf_vpn c), pr_checked = t_rfc t, pr_findings = []\<rparr>;
          (r1, w2) = check_vpn m r0 w1;
          (r2, w3) = check_tun m r1 w2;
          (r3, w4) = check_api m r2 w3
      in case capture_snapshot pf m w4 of
           (Inl e, w5) \<Rightarrow> (add_finding Blocker ''snapshot.failed'' (err_text e) r3, w5)
         | (Inr s, w5) \<Rightarrow>
             (let r4 = check_ownership pf s r3;
                  (warnings, w6) = analyze_host_routes pf m c s w5;
                  r5 = fold (\<lambda>(code, detail). add_finding Warning code detail) warnings r4
              in (r5\<lparr>pr_findings := sort_findings (pr_findings r5)\<rparr>, w6)))"

section \<open>Readiness\<close>

definition agent_tunnel_supported :: "platform \<Rightarrow> bool" where
  "agent_tunnel_supported pf \<longleftrightarrow> pf = Windows \<or> pf = Linux"

definition tunnel_privilege_hint :: "platform \<Rightarrow> string" where
  "tunnel_privilege_hint pf = (case pf of
     Windows \<Rightarrow> ''Agent Tunnel creates a system TUN interface and normally requires AntigravitiProxi to run as Administrator.''
   | Linux \<Rightarrow> ''Agent Tunnel keeps the control plane unprivileged. If TUN or managed sing-box capabilities are missing, AntigravitiProxi uses one fixed-function PolicyKit helper; the OS handles authentication and the helper re-verifies the managed binary before applying the exact required capabilities.''
   | Other_os _ \<Rightarrow> ''Agent Tunnel is supported only on Windows and Linux.'')"

definition validate_host :: "platform \<Rightarrow> 'k machine \<Rightarrow> string \<Rightarrow> 'k world \<Rightarrow> gerr option \<times> 'k world" where
  "validate_host pf m binary w = (if pf = Linux then validate_agent_tunnel_host m binary w else (None, w))"

record tunnel_readiness =
  tr_ok :: bool
  tr_binary :: string
  tr_host_ready :: bool
  tr_host_error :: string
  tr_preflight :: preflight_report

definition readiness_summary :: "tunnel_readiness \<Rightarrow> string" where
  "readiness_summary r =
     (let parts = (if tr_host_error r \<noteq> [] then [tr_host_error r] else []) @
            (if \<not> pr_ok (tr_preflight r) then [blocker_summary (tr_preflight r)] else [])
      in if parts = [] then (if tr_ok r then ''Agent Tunnel host and routing preflight are ready'' else ''Agent Tunnel readiness is incomplete'')
         else str_join parts ''; '')"

definition agent_tunnel_readiness :: "platform \<Rightarrow> 'k machine \<Rightarrow> manager \<Rightarrow> 'k world \<Rightarrow> tunnel_readiness \<times> 'k world" where
  "agent_tunnel_readiness pf m g w =
     (let (pr, w1) = agent_tunnel_preflight pf m g w;
          r = \<lparr>tr_ok = False, tr_binary = [], tr_host_ready = False, tr_host_error = [], tr_preflight = pr\<rparr>
      in if \<not> agent_tunnel_supported pf
         then (r\<lparr>tr_host_error := ''Agent Tunnel is unsupported on this platform: '' @ tunnel_privilege_hint pf\<rparr>, w1)
         else (case find_sing_box pf m g w1 of (binary, w2) \<Rightarrow>
             if trim_space binary = []
             then (r\<lparr>tr_binary := binary, tr_host_error := ''managed sing-box is not installed yet; use Install / verify first''\<rparr>, w2)
             else (case validate_host pf m binary w2 of
                 (Some e, w3) \<Rightarrow> (r\<lparr>tr_binary := binary, tr_host_error := err_text e\<rparr>, w3)
               | (None, w3) \<Rightarrow> (r\<lparr>tr_binary := binary, tr_host_ready := True, tr_ok := pr_ok pr\<rparr>, w3))))"

section \<open>Stopping\<close>

definition agent_tunnel_active :: "platform \<Rightarrow> 'k machine \<Rightarrow> manager \<Rightarrow> 'k world \<Rightarrow> bool \<times> manager \<times> 'k world" where
  "agent_tunnel_active pf m g w =
     (case tunnel_running m g w of
        (True, g1, w1) \<Rightarrow> (True, g1, w1)
      | (False, g1, w1) \<Rightarrow> (case hard_state_active pf m g1 w1 of (b, w2) \<Rightarrow> (b, g1, w2)))"

definition still_running :: "platform \<Rightarrow> 'k machine \<Rightarrow> manager \<Rightarrow> 'k world \<Rightarrow> bool \<times> manager \<times> 'k world" where
  "still_running pf m g w =
     (case managed_running m g w of
        (True, g1, w1) \<Rightarrow> (True, g1, w1)
      | (False, g1, w1) \<Rightarrow> hard_running pf m g1 w1)"

definition had_tunnel_state :: "platform \<Rightarrow> 'k machine \<Rightarrow> manager \<Rightarrow> 'k world \<Rightarrow> bool \<times> manager \<times> 'k world" where
  "had_tunnel_state pf m g w =
     (let (md, g1, w1) = mode_now m g w in
      if md = Mode_tunnel then (True, g1, w1)
      else (case network_journal_status m (cf_root (mg_cfg g1)) w1 of (js, w2) \<Rightarrow>
        if js_open js then (True, g1, w2)
        else (case hard_state_active pf m g1 w2 of (b, w3) \<Rightarrow> (b, g1, w3))))"

definition finish_tunnel ::
  "platform \<Rightarrow> 'k machine \<Rightarrow> ctx \<Rightarrow> manager \<Rightarrow> 'k world \<Rightarrow> unit res \<times> manager \<times> 'k world" where
  "finish_tunnel pf m ctx g w =
     (let (running, g1, w1) = managed_running m g w;
          (r, w2) = finish_transaction (net_platform_of pf) m ctx (cf_root (mg_cfg g1)) running w1
      in (r, g1, w2))"

text \<open>After the kill: at most 125 rounds of 40 milliseconds.\<close>

fun kill_wait :: "nat \<Rightarrow> platform \<Rightarrow> 'k machine \<Rightarrow> manager \<Rightarrow> 'k world \<Rightarrow> bool \<times> manager \<times> 'k world" where
  "kill_wait n pf m g w =
     (case still_running pf m g w of
        (False, g1, w1) \<Rightarrow> (True, g1, w1)
      | (True, g1, w1) \<Rightarrow> (case n of 0 \<Rightarrow> (False, g1, w1) | Suc k \<Rightarrow> kill_wait k pf m g1 w1))"

definition kill_rounds :: nat where "kill_rounds = 125"

declare kill_wait.simps [simp del]

definition stop_expired ::
  "platform \<Rightarrow> 'k machine \<Rightarrow> ctx \<Rightarrow> gerr \<Rightarrow> bool \<Rightarrow> manager \<Rightarrow> 'k world \<Rightarrow> unit res \<times> manager \<times> 'k world" where
  "stop_expired pf m cleanup_ctx err had g w =
     (let w1 = (case mg_cmd g of None \<Rightarrow> w | Some pid \<Rightarrow> snd (send_signal m pid ''SIGKILL'' w));
          (stopped, g2, w2) = kill_wait kill_rounds pf m g w1
      in if \<not> stopped then (Inl (wrap_err ''stop timeout after kill: '' err), g2, w2)
         else if had
         then (case finish_tunnel pf m cleanup_ctx g2 w2 of
                 (Inl e, g3, w3) \<Rightarrow> (Inl (wrap_err ''stop timed out and network-state recovery failed: '' e), g3, w3)
               | (Inr _, g3, w3) \<Rightarrow> (Inl err, g3, w3))
         else (Inl err, g2, w2))"

text \<open>The loop over the ticker; \<open>None\<close> when the fuel ends before the child or the context does.\<close>

fun stop_loop ::
  "nat \<Rightarrow> platform \<Rightarrow> 'k machine \<Rightarrow> ctx \<Rightarrow> ctx \<Rightarrow> bool \<Rightarrow> manager \<Rightarrow> 'k world \<Rightarrow> (unit res \<times> manager \<times> 'k world) option" where
  "stop_loop n pf m ctx cleanup_ctx had g w =
     (case still_running pf m g w of
        (False, g1, w1) \<Rightarrow>
          Some (if had
                then (case finish_tunnel pf m ctx g1 w1 of
                        (Inl e, g2, w2) \<Rightarrow> (Inl (wrap_err ''managed helper stopped but network-state recovery failed: '' e), g2, w2)
                      | (Inr _, g2, w2) \<Rightarrow> (Inr (), g2, w2))
                else (Inr (), g1, w1))
      | (True, g1, w1) \<Rightarrow>
          (case ctx (w_tick w1) of
             Some err \<Rightarrow> Some (stop_expired pf m cleanup_ctx err had g1 w1)
           | None \<Rightarrow> (case n of 0 \<Rightarrow> None | Suc k \<Rightarrow> stop_loop k pf m ctx cleanup_ctx had g1 w1)))"

declare stop_loop.simps [simp del]

definition stop_and_wait ::
  "nat \<Rightarrow> platform \<Rightarrow> 'k machine \<Rightarrow> ctx \<Rightarrow> ctx \<Rightarrow> manager \<Rightarrow> 'k world \<Rightarrow> (unit res \<times> manager \<times> 'k world) option" where
  "stop_and_wait n pf m ctx cleanup_ctx g w =
     (let (had, g1, w1) = had_tunnel_state pf m g w in
      case stop_manager pf m g1 w1 of
        (Some e, g2, w2) \<Rightarrow> Some (Inl e, g2, w2)
      | (None, g2, w2) \<Rightarrow> stop_loop n pf m ctx cleanup_ctx had g2 w2)"

section \<open>Starting\<close>

definition tun_up :: "'k machine \<Rightarrow> 'k world \<Rightarrow> bool \<times> 'k world" where
  "tun_up m w = (case iface_by_name m agent_tun_name w of (None, w1) \<Rightarrow> (False, w1) | (Some i, w1) \<Rightarrow> (if_up i, w1))"

definition bool_text :: "bool \<Rightarrow> string" where
  "bool_text b = (if b then ''true'' else ''false'')"

fun wait_ready :: "nat \<Rightarrow> platform \<Rightarrow> 'k machine \<Rightarrow> ctx \<Rightarrow> int \<Rightarrow> manager \<Rightarrow> 'k world \<Rightarrow> unit res \<times> manager \<times> 'k world" where
  "wait_ready n pf m ctx deadline g w =
     (case managed_running m g w of
        (False, g1, w1) \<Rightarrow> (Inl (new_err ''sing-box exited before Agent Tunnel readiness was established''), g1, w1)
      | (True, g1, w1) \<Rightarrow>
          (let (tun, w2) = tun_up m w1;
               ((owned, detail), g2, w3) = managed_listener_owned pf m g1 w2;
               last = ''tun_up='' @ bool_text tun @ '' listener_owned='' @ bool_text owned @ '' ('' @ detail @ '')''
           in if tun \<and> owned then (Inr (), g2, w3)
              else (case ctx (w_tick w3) of
                  Some e \<Rightarrow> (Inl (GErr (err_kind e) (''Agent Tunnel readiness cancelled: '' @ err_text e @ ''; last='' @ last)), g2, w3)
                | None \<Rightarrow>
                    (let (t, w4) = now m w3 in
                     if deadline \<le> t_nanos t then (Inl (new_err (''Agent Tunnel readiness timeout after 8s; last='' @ last)), g2, w4)
                     else (case n of
                         0 \<Rightarrow> (Inl (new_err (''Agent Tunnel readiness timeout after 8s; last='' @ last)), g2, w4)
                       | Suc k \<Rightarrow> wait_ready k pf m ctx deadline g2 w4)))))"

definition ready_rounds :: nat where "ready_rounds = 32"

declare wait_ready.simps [simp del]

definition wait_agent_tunnel_ready ::
  "platform \<Rightarrow> 'k machine \<Rightarrow> ctx \<Rightarrow> manager \<Rightarrow> 'k world \<Rightarrow> unit res \<times> manager \<times> 'k world" where
  "wait_agent_tunnel_ready pf m ctx g w = (let (t, w1) = now m w in wait_ready ready_rounds pf m ctx (t_nanos t + 8000000000) g w1)"

definition rollback_start ::
  "nat \<Rightarrow> platform \<Rightarrow> 'k machine \<Rightarrow> ctx \<Rightarrow> ctx \<Rightarrow> gerr \<Rightarrow> manager \<Rightarrow> 'k world \<Rightarrow> (gerr \<times> manager \<times> 'k world) option" where
  "rollback_start n pf m ctx cleanup_ctx cause g w =
     (case stop_and_wait n pf m ctx cleanup_ctx (log_msg ''error'' (''Agent Tunnel readiness failed; rolling back: '' @ err_text cause) g) w of
        None \<Rightarrow> None
      | Some (Inl e, g1, w1) \<Rightarrow> Some (GErr (err_kind cause) (err_text cause @ ''; rollback also failed: '' @ err_text e), g1, w1)
      | Some (Inr _, g1, w1) \<Rightarrow>
          (case iface_by_name m agent_tun_name w1 of
             (Some _, w2) \<Rightarrow> Some (GErr (err_kind cause) (err_text cause @ ''; rollback stopped sing-box but '' @ agent_tun_name @ '' still exists''), g1, w2)
           | (None, w2) \<Rightarrow> Some (cause, g1, w2)))"

definition log_findings :: "finding list \<Rightarrow> manager \<Rightarrow> manager" where
  "log_findings fs g = fold (\<lambda>f. log_msg (case fi_severity f of Warning \<Rightarrow> ''warn'' | Blocker \<Rightarrow> ''error'' | Info \<Rightarrow> ''info'')
     (''Agent Tunnel preflight ['' @ fi_code f @ '']: '' @ fi_detail f)) fs g"

text \<open>The upstream named by the configuration, when it can be used.\<close>

definition usable_upstream :: "'k machine \<Rightarrow> config \<Rightarrow> 'k world \<Rightarrow> string res \<times> 'k world" where
  "usable_upstream m c w =
     (let vpn = trim_space (cf_vpn c) in
      if vpn = [] then (Inl (new_err ''Agent Tunnel requires an explicit VPN interface''), w)
      else if vpn = agent_tun_name then (Inl (new_err ''Agent Tunnel cannot use its own TUN interface as the VPN upstream''), w)
      else (case iface_by_name m vpn w of
          (None, w1) \<Rightarrow> (Inl (new_err (''selected VPN interface '' @ go_quote vpn @ '' does not exist: '' @ no_such_iface)), w1)
        | (Some i, w1) \<Rightarrow>
            if \<not> if_up i then (Inl (new_err (''selected VPN interface '' @ go_quote vpn @ '' is down'')), w1) else (Inr vpn, w1)))"

text \<open>The transaction: the journal, the configuration, the child.\<close>

definition abort_tunnel :: "'k machine \<Rightarrow> string \<Rightarrow> manager \<Rightarrow> 'k world \<Rightarrow> manager \<times> 'k world" where
  "abort_tunnel m reason g w =
     (let (running, g1, w1) = managed_running m g w in (g1, abort_prepared m (cf_root (mg_cfg g1)) running reason w1))"

definition start_transaction ::
  "platform \<Rightarrow> 'k machine \<Rightarrow> ctx \<Rightarrow> tunnel_options \<Rightarrow> manager \<Rightarrow> 'k world \<Rightarrow> unit res \<times> manager \<times> 'k world" where
  "start_transaction pf m ctx o' g w =
     (let c = mg_cfg g in
      case begin_transaction (net_platform_of pf) m ctx (cf_root c) (cf_vpn c) w of
        (Inl e, w1) \<Rightarrow> (Inl e, g, w1)
      | (Inr _, w1) \<Rightarrow>
     (let (g1, w2) = poll m g w1 in
      if mg_cmd g1 \<noteq> None
      then (let (g2, w3) = abort_tunnel m ''managed process appeared during startup transaction'' g1 w2
            in (Inl (new_err (''sing-box concurrently started in '' @ mode_text (mg_mode g1) @ '' mode'')), g2, w3))
      else (case write_tunnel_config pf m c (tunnel_config_path g1) o' w2 of
        (Inl e, w3) \<Rightarrow> (let (g2, w4) = abort_tunnel m (''config write failed: '' @ err_text e) g1 w3 in (Inl e, g2, w4))
      | (Inr _, w3) \<Rightarrow>
     (case start_locked pf m (tunnel_config_path g1) Mode_tunnel
             (''Agent Tunnel starting: TUN -> Antigravity process/domain policy -> '' @ cf_vpn c @ ''; unrelated traffic -> system-direct'') g1 w3 of
        (Inl e, g2, w4) \<Rightarrow> (let (g3, w5) = abort_tunnel m (''sing-box start failed: '' @ err_text e) g2 w4 in (Inl e, g3, w5))
      | (Inr _, g2, w4) \<Rightarrow> (Inr (), g2, w4)))))"

definition prove_ready ::
  "platform \<Rightarrow> 'k machine \<Rightarrow> ctx \<Rightarrow> manager \<Rightarrow> 'k world \<Rightarrow> unit res \<times> manager \<times> 'k world" where
  "prove_ready pf m ctx g w =
     (case wait_agent_tunnel_ready pf m ctx g w of
        (Inl e, g1, w1) \<Rightarrow> (Inl e, g1, w1)
      | (Inr _, g1, w1) \<Rightarrow>
          (let (pid, g2, w2) = managed_pid m g1 w1 in
           case mark_active (net_platform_of pf) m (cf_root (mg_cfg g2)) pid w2 of
             (Inl e, w3) \<Rightarrow> (Inl (wrap_err ''persist active network-state evidence: '' e), g2, w3)
           | (Inr _, w3) \<Rightarrow> (Inr (), g2, w3)))"

definition start_agent_tunnel ::
  "nat \<Rightarrow> platform \<Rightarrow> string \<Rightarrow> 'k machine \<Rightarrow> ctx \<Rightarrow> ctx \<Rightarrow> ctx \<Rightarrow> tunnel_options option \<Rightarrow> manager \<Rightarrow> 'k world \<Rightarrow>
     (unit res \<times> manager \<times> 'k world) option" where
  "start_agent_tunnel n pf arch m ctx rollback_ctx cleanup_ctx provided g w =
     (if \<not> agent_tunnel_supported pf then Some (Inl (new_err (''Agent Tunnel is unsupported on '' @ goos pf)), g, w)
      else (case install_verified pf arch m g w of
        (Inl e, g1, w1) \<Rightarrow> Some (Inl (wrap_err ''ensure verified Agent Tunnel sing-box: '' e), g1, w1)
      | (Inr binary, g1, w1) \<Rightarrow>
     (case validate_host pf m binary w1 of
        (Some e, w2) \<Rightarrow> Some (Inl e, g1, w2)
      | (None, w2) \<Rightarrow>
     (let opts0 = (case provided of Some p \<Rightarrow> p | None \<Rightarrow> default_tunnel_options pf);
          opts1 = (if pf = Linux then opts0\<lparr>to_strict := True\<rparr> else opts0);
          (running, g2, w3) = managed_running m g1 w2
      in if running
         then (let (md, g3, w4) = mode_now m g2 w3
               in Some (Inl (new_err (''sing-box already started by this process in '' @ mode_text md @ '' mode; stop it before starting Agent Tunnel'')), g3, w4))
         else
     (let (report, w4) = agent_tunnel_preflight pf m g2 w3; g3 = log_findings (pr_findings report) g2 in
      if \<not> pr_ok report then Some (Inl (new_err (''Agent Tunnel preflight blocked startup: '' @ blocker_summary report)), g3, w4)
      else (case usable_upstream m (mg_cfg g3) w4 of
        (Inl e, w5) \<Rightarrow> Some (Inl e, g3, w5)
      | (Inr vpn, w5) \<Rightarrow>
     (case tunnel_upstream_host_routes pf m vpn w5 of
        (Inl e, w6) \<Rightarrow> Some (Inl (wrap_err ''inspect VPN transport bypass routes: '' e), g3, w6)
      | (Inr routes, w6) \<Rightarrow>
     (case start_transaction pf m ctx (opts1\<lparr>to_routes := routes\<rparr>) g3 w6 of
        (Inl e, g4, w7) \<Rightarrow> Some (Inl e, g4, w7)
      | (Inr _, g4, w7) \<Rightarrow>
     (case prove_ready pf m ctx g4 w7 of
        (Inl cause, g5, w8) \<Rightarrow>
          (case rollback_start n pf m rollback_ctx cleanup_ctx cause g5 w8 of
             None \<Rightarrow> None
           | Some (e, g6, w9) \<Rightarrow> Some (Inl e, g6, w9))
      | (Inr _, g5, w8) \<Rightarrow>
          Some (Inr (), log_msg ''info''
            ''Agent Tunnel readiness proven: managed listener ownership + TUN interface + durable route/rule fingerprint'' g5, w8))))))))))"

section \<open>Health\<close>

datatype health_state = Idle | Healthy | Degraded

record health =
  he_state :: health_state
  he_mode :: mode
  he_dims :: "(string \<times> (bool \<times> string)) list"
  he_updated :: string

definition reach_detail :: "bool \<Rightarrow> string" where
  "reach_detail b = (if b then ''configured local proxy listener accepts TCP connections'' else ''configured local proxy listener is not reachable'')"

definition process_detail :: "int \<Rightarrow> string" where
  "process_detail pid = (if pid \<le> 0 then ''no managed PID'' else ''managed PID is running'')"

definition set_dim :: "string \<Rightarrow> bool \<Rightarrow> string \<Rightarrow> health \<Rightarrow> health" where
  "set_dim k ok d h = h\<lparr>he_dims := he_dims h @ [(k, (ok, d))]\<rparr>"

definition health_of_iface :: "string \<Rightarrow> iface option \<Rightarrow> bool \<times> string" where
  "health_of_iface absent i = (case i of None \<Rightarrow> (False, absent) | Some x \<Rightarrow> (if_up x, if_flags x))"

definition tunnel_health :: "'k machine \<Rightarrow> manager \<Rightarrow> bool \<Rightarrow> bool \<Rightarrow> health \<Rightarrow> 'k world \<Rightarrow> health \<times> 'k world" where
  "tunnel_health m g owned journal_ok h w =
     (let (i, w1) = iface_by_name m agent_tun_name w;
          (tun_ok, tun_detail) = health_of_iface (agent_tun_name @ '' not present'') i;
          (v, w2) = (if cf_vpn (mg_cfg g) \<noteq> [] then iface_by_name m (cf_vpn (mg_cfg g)) w1 else (None, w1));
          (vpn_ok, vpn_detail) = health_of_iface (if cf_vpn (mg_cfg g) \<noteq> [] then no_such_iface else ''VPN interface not configured'') v;
          h1 = set_dim ''vpn_interface'' vpn_ok vpn_detail (set_dim ''tun'' tun_ok tun_detail h)
      in (h1\<lparr>he_state := if owned \<and> tun_ok \<and> vpn_ok \<and> journal_ok then Healthy else Degraded\<rparr>, w2))"

definition health_snapshot :: "platform \<Rightarrow> 'k machine \<Rightarrow> manager \<Rightarrow> 'k world \<Rightarrow> health \<times> manager \<times> 'k world" where
  "health_snapshot pf m g w =
     (let (md, g1, w1) = mode_now m g w;
          (t, w2) = now m w1;
          (js, w3) = network_journal_status m (cf_root (mg_cfg g1)) w2;
          journal_ok = (\<not> js_open js \<or> md = Mode_tunnel \<and> js_phase js = ''active'');
          h0 = set_dim ''network_journal'' journal_ok (js_detail js)
                 \<lparr>he_state = Idle, he_mode = md, he_dims = [], he_updated = t_rfc t\<rparr>;
          (managed, g2, w4) = managed_running m g1 w3;
          (pid, g3, w5) = managed_pid m g2 w4;
          h1 = set_dim ''managed_process'' managed (process_detail pid) h0
      in if md = Mode_off \<or> \<not> managed then (if js_open js then h1\<lparr>he_state := Degraded\<rparr> else h1, g3, w5)
         else
     (let (reachable, w6) = listener_reachable m g3 w5;
          ((owned, detail), g4, w7) = managed_listener_owned pf m g3 w6;
          h2 = set_dim ''mixed_listener_owned'' owned detail (set_dim ''listener_reachable'' reachable (reach_detail reachable) h1)
      in if md = Mode_proxy
         then (h2\<lparr>he_state := if reachable \<and> mg_ready g4 \<and> \<not> js_open js then Healthy else Degraded\<rparr>, g4, w7)
         else (case tunnel_health m g4 owned journal_ok h2 w7 of (h3, w8) \<Rightarrow> (h3, g4, w8))))"

section \<open>Stopping comes to an end\<close>

lemma poll_tick:
  assumes "poll m g w = (g', w')"
  shows "w_tick w \<le> w_tick w'" and "mg_cmd g' \<noteq> None \<Longrightarrow> w_tick w < w_tick w'" and "mg_hard g' \<noteq> None \<Longrightarrow> w_tick w < w_tick w'"
proof -
  have o: "observe m f w = (r, w1) \<Longrightarrow> w_tick w1 = Suc (w_tick w)" for f r and w w1 :: "'a world"
    by (auto simp: observe_def Let_def tick_def)
  obtain g1 w1 where c: "poll_cmd m g w = (g1, w1)" by fastforce
  then have h: "poll_hard m g1 w1 = (g', w')" using assms by (simp add: poll_def)
  have c': "w_tick w \<le> w_tick w1 \<and> (mg_cmd g1 \<noteq> None \<longrightarrow> w_tick w < w_tick w1)"
    using c by (auto simp: poll_cmd_def split: option.splits prod.splits dest: o)
  have h': "w_tick w1 \<le> w_tick w' \<and> (mg_hard g' \<noteq> None \<longrightarrow> w_tick w1 < w_tick w') \<and> mg_cmd g' = mg_cmd g1"
    using h by (auto simp: poll_hard_def split: option.splits prod.splits dest: o)
  show "w_tick w \<le> w_tick w'" "mg_cmd g' \<noteq> None \<Longrightarrow> w_tick w < w_tick w'" "mg_hard g' \<noteq> None \<Longrightarrow> w_tick w < w_tick w'"
    using c' h' by auto
qed

lemma still_running_tick:
  assumes "still_running pf m g w = (True, g', w')"
  shows "w_tick w < w_tick w'"
proof -
  obtain g1 w1 where p: "poll m g w = (g1, w1)" by fastforce
  show ?thesis
  proof (cases "mg_cmd g1")
    case None
    obtain g2 w2 where q: "poll m g1 w1 = (g2, w2)" by fastforce
    have "w' = w2 \<and> mg_hard g2 \<noteq> None" using assms p q None
      by (auto simp: still_running_def managed_running_def hard_running_def split: if_splits)
    then have "w' = w2" "w_tick w1 < w_tick w2" using poll_tick(3) [OF q] by blast+
    then show ?thesis using poll_tick(1) [OF p] by simp
  next
    case (Some pid)
    then have "w' = w1" using assms p by (auto simp: still_running_def managed_running_def)
    then show ?thesis using poll_tick(2) [OF p] Some by simp
  qed
qed

lemma stop_loop_returns:
  "\<forall>t\<ge>T. ctx t \<noteq> None \<Longrightarrow> T \<le> n + w_tick w \<Longrightarrow> stop_loop n pf m ctx cleanup had g w \<noteq> None"
proof (induction n arbitrary: g w)
  case 0
  obtain b g1 w1 where s: "still_running pf m g w = (b, g1, w1)" by (metis prod_cases3)
  have "b \<Longrightarrow> ctx (w_tick w1) \<noteq> None" using still_running_tick [of pf m g w g1 w1] s 0 by simp
  then show ?case using s by (cases b) (subst stop_loop.simps; simp del: not_None_eq split: option.split)+
next
  case (Suc n)
  obtain b g1 w1 where s: "still_running pf m g w = (b, g1, w1)" by (metis prod_cases3)
  have "b \<Longrightarrow> stop_loop n pf m ctx cleanup had g1 w1 \<noteq> None"
    using Suc.IH [OF Suc.prems(1), of w1 g1] still_running_tick [of pf m g w g1 w1] s Suc.prems(2) by simp
  then show ?case using s by (cases b) (subst stop_loop.simps; simp del: not_None_eq split: option.split)+
qed

section \<open>The preflight\<close>

lemma add_finding_ok [simp]:
  "pr_ok (add_finding s c d r) \<longleftrightarrow> pr_ok r \<and> s \<noteq> Blocker"
  "pr_findings (add_finding s c d r) = pr_findings r @ [\<lparr>fi_severity = s, fi_code = c, fi_detail = d\<rparr>]"
  "pr_vpn (add_finding s c d r) = pr_vpn r"
  by (simp_all add: add_finding_def)

definition report_consistent :: "preflight_report \<Rightarrow> bool" where
  "report_consistent r \<longleftrightarrow> (pr_ok r \<longleftrightarrow> (\<forall>f\<in>set (pr_findings r). fi_severity f \<noteq> Blocker))"

lemma add_finding_consistent [simp]: "report_consistent r \<Longrightarrow> report_consistent (add_finding s c d r)"
  by (auto simp: report_consistent_def)

lemma fold_warnings:
  "pr_ok (fold (\<lambda>(code, detail). add_finding Warning code detail) ws r) = pr_ok r"
  "report_consistent r \<Longrightarrow> report_consistent (fold (\<lambda>(code, detail). add_finding Warning code detail) ws r)"
  by (induction ws arbitrary: r) (auto split: prod.splits)

lemma dial_observes: "dial_tcp m a w = (r, w') \<Longrightarrow> observes A w w'"
  unfolding dial_tcp_def by (rule observe_observes)

lemma now_observes: "now m w = (t, w') \<Longrightarrow> observes A w w'"
  by (auto simp: now_def)

lemma check_vpnD:
  assumes "check_vpn m r w = (r', w')"
  shows "observes A w w'" "report_consistent r \<Longrightarrow> report_consistent r'" "pr_vpn r' = pr_vpn r"
    "pr_ok r' \<longleftrightarrow> pr_ok r \<and> pr_vpn r \<noteq> [] \<and> pr_vpn r \<noteq> agent_tun_name \<and>
       (\<exists>i. iface_by_name m (pr_vpn r) w = (Some i, w') \<and> if_up i)"
    "pr_vpn r \<noteq> [] \<Longrightarrow> pr_vpn r \<noteq> agent_tun_name \<Longrightarrow> w' = snd (iface_by_name m (pr_vpn r) w)"
  using assms by (auto simp: check_vpn_def dest!: iface_observes split: if_splits prod.splits option.splits)

lemma check_tunD:
  assumes "check_tun m r w = (r', w')"
  shows "observes A w w'" "report_consistent r \<Longrightarrow> report_consistent r'" "pr_ok r' \<longleftrightarrow> pr_ok r \<and> iface_by_name m agent_tun_name w = (None, w')"
    "w' = snd (iface_by_name m agent_tun_name w)"
  using assms by (auto simp: check_tun_def dest!: iface_observes split: if_splits prod.splits option.splits)

lemma check_apiD:
  assumes "check_api m r w = (r', w')"
  shows "observes A w w'" "report_consistent r \<Longrightarrow> report_consistent r'" "pr_ok r' \<longleftrightarrow> pr_ok r \<and> (\<exists>e. dial_tcp m api_addr w = (Some e, w'))"
    "w' = snd (dial_tcp m api_addr w)"
  using assms by (auto simp: check_api_def dest!: dial_observes split: if_splits prod.splits option.splits)

lemma check_ownershipD:
  "report_consistent r \<Longrightarrow> report_consistent (check_ownership pf s r)" "pr_ok (check_ownership pf s r) \<longleftrightarrow> pr_ok r \<and> preflight_ownership pf s = None"
  by (auto simp: check_ownership_def split: option.splits)

lemma analyze_observes: "analyze_host_routes pf m c s w = (r, w') \<Longrightarrow> observes A w w'"
  by (auto simp: analyze_host_routes_def dest!: observe_observes split: if_splits prod.splits)

lemma preflight_steps:
  assumes "agent_tunnel_preflight pf m g w = (r, w')"
  obtains t w1 r1 w2 r2 w3 r3 w4 c w5 where "now m w = (t, w1)"
    "check_vpn m \<lparr>pr_ok = True, pr_platform = goos pf, pr_vpn = trim_space (cf_vpn (mg_cfg g)), pr_checked = t_rfc t, pr_findings = []\<rparr> w1 = (r1, w2)"
    "check_tun m r1 w2 = (r2, w3)" "check_api m r2 w3 = (r3, w4)" "capture_snapshot pf m w4 = (c, w5)"
    "(case c of Inl e \<Rightarrow> r = add_finding Blocker ''snapshot.failed'' (err_text e) r3 \<and> w' = w5
      | Inr s \<Rightarrow> \<exists>ws. analyze_host_routes pf m (mg_cfg g) s w5 = (ws, w') \<and>
          r = (let r5 = fold (\<lambda>(code, detail). add_finding Warning code detail) ws (check_ownership pf s r3)
               in r5\<lparr>pr_findings := sort_findings (pr_findings r5)\<rparr>))"
proof -
  obtain t w1 where 1: "now m w = (t, w1)" by fastforce
  let ?r0 = "\<lparr>pr_ok = True, pr_platform = goos pf, pr_vpn = trim_space (cf_vpn (mg_cfg g)), pr_checked = t_rfc t, pr_findings = []\<rparr>"
  obtain r1 w2 where 2: "check_vpn m ?r0 w1 = (r1, w2)" by fastforce
  obtain r2 w3 where 3: "check_tun m r1 w2 = (r2, w3)" by fastforce
  obtain r3 w4 where 4: "check_api m r2 w3 = (r3, w4)" by fastforce
  obtain c w5 where 5: "capture_snapshot pf m w4 = (c, w5)" by fastforce
  have "(case c of Inl e \<Rightarrow> r = add_finding Blocker ''snapshot.failed'' (err_text e) r3 \<and> w' = w5
      | Inr s \<Rightarrow> \<exists>ws. analyze_host_routes pf m (mg_cfg g) s w5 = (ws, w') \<and>
          r = (let r5 = fold (\<lambda>(code, detail). add_finding Warning code detail) ws (check_ownership pf s r3)
               in r5\<lparr>pr_findings := sort_findings (pr_findings r5)\<rparr>))"
    using assms 1 2 3 4 5 by (simp add: agent_tunnel_preflight_def Let_def split: sum.splits prod.splits)
  then show thesis by (rule that [OF 1 2 3 4 5])
qed

definition finding_key :: "finding \<Rightarrow> nat \<times> string" where
  "finding_key f = (severity_rank (fi_severity f), fi_code f)"

lemma set_sort_findings [simp]: "set (sort_findings fs) = set fs"
  by (simp add: sort_findings_def)

lemma sorted_consistent [simp]: "report_consistent (r\<lparr>pr_findings := sort_findings (pr_findings r)\<rparr>) \<longleftrightarrow> report_consistent r"
  by (simp add: report_consistent_def)

lemma fold_ownership_consistent:
  "report_consistent r \<Longrightarrow> report_consistent (fold (\<lambda>(code, detail). add_finding Warning code detail) ws (check_ownership pf s r))"
  by (intro fold_warnings(2) check_ownershipD(1))

lemma preflight_end:
  assumes e: "(case c of Inl e \<Rightarrow> r = add_finding Blocker ''snapshot.failed'' (err_text e) r3 \<and> w' = w5
      | Inr s \<Rightarrow> \<exists>ws. analyze_host_routes pf m (mg_cfg g) s w5 = (ws, w') \<and>
          r = (let r5 = fold (\<lambda>(code, detail). add_finding Warning code detail) ws (check_ownership pf s r3)
               in r5\<lparr>pr_findings := sort_findings (pr_findings r5)\<rparr>))"
    and con: "report_consistent r3" and o: "observes read_only_cmd w w5"
  shows "(pr_ok r \<longleftrightarrow> pr_ok r3 \<and> (\<exists>s. c = Inr s \<and> preflight_ownership pf s = None)) \<and> report_consistent r \<and>
      observes read_only_cmd w w' \<and> (pr_ok r \<longrightarrow> sorted (map finding_key (pr_findings r)))" (is ?P)
proof (cases c)
    case (Inl x)
    then have "r = add_finding Blocker ''snapshot.failed'' (err_text x) r3" "w' = w5" using e by simp_all
    then show ?P using Inl con o by simp
  next
    case (Inr s)
    then obtain ws where a: "analyze_host_routes pf m (mg_cfg g) s w5 = (ws, w')"
      and r: "r = (let r5 = fold (\<lambda>(code, detail). add_finding Warning code detail) ws (check_ownership pf s r3)
               in r5\<lparr>pr_findings := sort_findings (pr_findings r5)\<rparr>)" using e by auto
    have "observes read_only_cmd w w'" using o analyze_observes [OF a] by (rule observes_trans)
    moreover have "report_consistent r" unfolding r Let_def using fold_ownership_consistent [OF con] by simp
    moreover have "pr_ok r \<longleftrightarrow> pr_ok r3 \<and> preflight_ownership pf s = None"
      unfolding r Let_def by (simp add: fold_warnings(1) check_ownershipD(2))
    moreover have "sorted (map finding_key (pr_findings r))"
      unfolding r Let_def by (simp add: sort_findings_def finding_key_def [abs_def])
    ultimately show ?P using Inr by simp
qed

text \<open>C23: the preflight is exact and harmless.  Its report is ok exactly when an upstream other than
  the tunnel itself is configured, that interface exists and is up, no \<^verbatim>\<open>antigravity-tun\<close> exists, nobody
  answers on the API port, the system could be captured and the reserved tables and priorities are
  free, each as observed at that step; ok means that no finding is a blocker; the findings come with
  the blockers first; and the preflight runs reading commands only and changes no file.\<close>

theorem preflight_sound:
  assumes "agent_tunnel_preflight pf m g w = (r, w')"
  shows "(let vpn = trim_space (cf_vpn (mg_cfg g)) in
      pr_ok r \<longleftrightarrow> vpn \<noteq> [] \<and> vpn \<noteq> agent_tun_name \<and>
        (\<exists>i w2 w3 e w4 s w5. iface_by_name m vpn (snd (now m w)) = (Some i, w2) \<and> if_up i \<and>
           iface_by_name m agent_tun_name w2 = (None, w3) \<and> dial_tcp m api_addr w3 = (Some e, w4) \<and>
           capture_snapshot pf m w4 = (Inr s, w5) \<and> preflight_ownership pf s = None)) \<and>
    (pr_ok r \<longleftrightarrow> (\<forall>f\<in>set (pr_findings r). fi_severity f \<noteq> Blocker)) \<and>
    (pr_ok r \<longrightarrow> sorted (map finding_key (pr_findings r))) \<and>
    observes read_only_cmd w w'"
proof -
  let ?vpn = "trim_space (cf_vpn (mg_cfg g))"
  from assms obtain t w1 r1 w2 r2 w3 r3 w4 c w5 where n: "now m w = (t, w1)"
    and v: "check_vpn m \<lparr>pr_ok = True, pr_platform = goos pf, pr_vpn = ?vpn, pr_checked = t_rfc t, pr_findings = []\<rparr> w1 = (r1, w2)"
    and tn: "check_tun m r1 w2 = (r2, w3)" and ap: "check_api m r2 w3 = (r3, w4)" and ca: "capture_snapshot pf m w4 = (c, w5)"
    and e: "(case c of Inl e \<Rightarrow> r = add_finding Blocker ''snapshot.failed'' (err_text e) r3 \<and> w' = w5
      | Inr s \<Rightarrow> \<exists>ws. analyze_host_routes pf m (mg_cfg g) s w5 = (ws, w') \<and>
          r = (let r5 = fold (\<lambda>(code, detail). add_finding Warning code detail) ws (check_ownership pf s r3)
               in r5\<lparr>pr_findings := sort_findings (pr_findings r5)\<rparr>))"
    by (rule preflight_steps)
  have ok3: "pr_ok r3 \<longleftrightarrow> ?vpn \<noteq> [] \<and> ?vpn \<noteq> agent_tun_name \<and> (\<exists>i. iface_by_name m ?vpn w1 = (Some i, w2) \<and> if_up i) \<and>
      iface_by_name m agent_tun_name w2 = (None, w3) \<and> (\<exists>e. dial_tcp m api_addr w3 = (Some e, w4))"
    using check_vpnD(4) [OF v] check_tunD(3) [OF tn] check_apiD(3) [OF ap] by simp
  have con: "report_consistent r3"
    by (rule check_apiD(2) [OF ap], rule check_tunD(2) [OF tn], rule check_vpnD(2) [OF v]) (simp add: report_consistent_def)
  have o: "observes read_only_cmd w w5"
    using now_observes [OF n] check_vpnD(1) [OF v] check_tunD(1) [OF tn] check_apiD(1) [OF ap] capture_observes [OF ca]
    by (blast intro: observes_trans)
  note facts = preflight_end [OF e con o]
  note ok = facts [THEN conjunct1]
  have "pr_ok r \<longleftrightarrow> ?vpn \<noteq> [] \<and> ?vpn \<noteq> agent_tun_name \<and>
        (\<exists>i w2 w3 e w4 s w5. iface_by_name m ?vpn (snd (now m w)) = (Some i, w2) \<and> if_up i \<and>
           iface_by_name m agent_tun_name w2 = (None, w3) \<and> dial_tcp m api_addr w3 = (Some e, w4) \<and>
           capture_snapshot pf m w4 = (Inr s, w5) \<and> preflight_ownership pf s = None)"
    (is "_ \<longleftrightarrow> _ \<and> _ \<and> ?Q")
  proof -
    have q: "?Q \<longleftrightarrow> (\<exists>i. iface_by_name m ?vpn w1 = (Some i, w2) \<and> if_up i) \<and> iface_by_name m agent_tun_name w2 = (None, w3) \<and>
        (\<exists>e. dial_tcp m api_addr w3 = (Some e, w4)) \<and> (\<exists>s. c = Inr s \<and> preflight_ownership pf s = None)"
      if "?vpn \<noteq> []" "?vpn \<noteq> agent_tun_name"
    proof
      assume ?Q
      then obtain i v2 v3 e v4 s v5 where q: "iface_by_name m ?vpn w1 = (Some i, v2)" "if_up i" "iface_by_name m agent_tun_name v2 = (None, v3)"
        "dial_tcp m api_addr v3 = (Some e, v4)" "capture_snapshot pf m v4 = (Inr s, v5)" "preflight_ownership pf s = None"
        unfolding n snd_conv by blast
      have "v2 = w2" using check_vpnD(5) [OF v] that q(1) by simp
      moreover from this have "v3 = w3" using check_tunD(4) [OF tn] q(3) by simp
      moreover from this have "v4 = w4" using check_apiD(4) [OF ap] q(4) by simp
      ultimately show "(\<exists>i. iface_by_name m ?vpn w1 = (Some i, w2) \<and> if_up i) \<and> iface_by_name m agent_tun_name w2 = (None, w3) \<and>
        (\<exists>e. dial_tcp m api_addr w3 = (Some e, w4)) \<and> (\<exists>s. c = Inr s \<and> preflight_ownership pf s = None)"
        using q ca by simp
    next
      assume "(\<exists>i. iface_by_name m ?vpn w1 = (Some i, w2) \<and> if_up i) \<and> iface_by_name m agent_tun_name w2 = (None, w3) \<and>
        (\<exists>e. dial_tcp m api_addr w3 = (Some e, w4)) \<and> (\<exists>s. c = Inr s \<and> preflight_ownership pf s = None)"
      then show ?Q unfolding n snd_conv using ca by blast
    qed
    show ?thesis
    proof (cases "?vpn \<noteq> [] \<and> ?vpn \<noteq> agent_tun_name")
      case True
      then have "pr_ok r \<longleftrightarrow> ?Q" using q ok ok3 by blast
      then show ?thesis using True by blast
    next
      case False
      then have "\<not> pr_ok r" using ok ok3 by blast
      then show ?thesis using False by blast
    qed
  qed
  then show ?thesis unfolding Let_def using facts [unfolded report_consistent_def]
    by - (intro conjI; (elim conjE)?; assumption)
qed

lemma preflight_sound_witness:
  "\<exists>r w'. agent_tunnel_preflight Linux quiet_machine sample_manager (world_of [] ()) = (r, w') \<and> \<not> pr_ok r \<and> observes read_only_cmd (world_of [] ()) w'"
proof -
  obtain r w' where r: "agent_tunnel_preflight Linux quiet_machine sample_manager (world_of [] ()) = (r, w')" by fastforce
  have "fst (iface_by_name quiet_machine (trim_space (cf_vpn (mg_cfg sample_manager))) (snd (now quiet_machine (world_of [] ())))) = None" by code_simp
  then show ?thesis using preflight_sound [OF r] r by (auto simp: Let_def)
qed

section \<open>What a stop leaves\<close>

lemma poll_gone: "poll m g w = (g', w') \<Longrightarrow> mg_cmd g = None \<Longrightarrow> mg_cmd g' = None"
  using pollD(3) [of m g w g' w'] by auto

lemma poll_hard_gone: "poll m g w = (g', w') \<Longrightarrow> mg_hard g = None \<Longrightarrow> mg_hard g' = None"
  using pollD(4) [of m g w g' w'] by auto

lemma still_runningD:
  assumes "still_running pf m g w = (b, g', w')"
  shows "mg_cfg g' = mg_cfg g" "w_files w' = w_files w" "\<not> b \<Longrightarrow> mg_cmd g' = None" "\<not> b \<Longrightarrow> pf = Linux \<Longrightarrow> mg_hard g' = None"
proof -
  obtain g1 w1 where p: "poll m g w = (g1, w1)" by fastforce
  obtain g2 w2 where q: "poll m g1 w1 = (g2, w2)" by fastforce
  have f: "w_files w1 = w_files w" "w_files w2 = w_files w1"
    using pollD(1) [OF p] pollD(1) [OF q] by (simp_all add: observes_def)
  show "mg_cfg g' = mg_cfg g" "w_files w' = w_files w" "\<not> b \<Longrightarrow> mg_cmd g' = None" "\<not> b \<Longrightarrow> pf = Linux \<Longrightarrow> mg_hard g' = None"
    using assms p q f pollD(2) [OF p] pollD(2) [OF q] poll_gone [OF q]
    by (cases "mg_cmd g1"; auto simp: still_running_def managed_running_def hard_running_def split: if_splits)+
qed

lemma recover_stale_gone:
  "recover_stale_with (net_platform_of pf) m ctx root w = (Inr (), w') \<Longrightarrow> w_files w' (journal_path root) = None"
  using linux.recover_stale_absent [of m ctx root w w'] windows.recover_stale_absent [of m ctx root w w'] other.recover_stale_absent [of _ m ctx root w w']
  by (cases pf) simp_all

lemma load_none_gone:
  assumes "load_tunnel_journal m root w = (Inr None, w')"
  shows "w_files w' (journal_path root) = None"
  using assms
proof (cases rule: load_tunnel_journal_cases)
  case absent
  then show ?thesis using load_tunnel_journal_frame [OF assms] by simp
qed (auto simp: load_backup_journal_def Let_def split: prod.splits sum.splits if_splits)

lemma finish_tunnelD:
  assumes "finish_tunnel pf m ctx g w = (Inr (), g', w')"
  shows "mg_cfg g' = mg_cfg g" "w_files w' (journal_path (cf_root (mg_cfg g))) = None" "mg_cmd g = None \<Longrightarrow> mg_cmd g' = None"
    "mg_hard g = None \<Longrightarrow> mg_hard g' = None"
proof -
  obtain g1 w1 where p: "poll m g w = (g1, w1)" by fastforce
  have f: "finish_transaction (net_platform_of pf) m ctx (cf_root (mg_cfg g1)) (mg_cmd g1 \<noteq> None) w1 = (Inr (), w')" "g' = g1"
    using assms p by (auto simp: finish_tunnel_def managed_running_def split: prod.splits)
  obtain r w2 where l: "load_tunnel_journal m (cf_root (mg_cfg g1)) w1 = (r, w2)" by fastforce
  have "w_files w' (journal_path (cf_root (mg_cfg g1))) = None"
    using f(1) l by (auto simp: finish_transaction_def split: sum.splits option.splits if_splits dest: recover_stale_gone load_none_gone)
  then show "w_files w' (journal_path (cf_root (mg_cfg g))) = None" using pollD(2) [OF p] by simp
  show "mg_cfg g' = mg_cfg g" "mg_cmd g = None \<Longrightarrow> mg_cmd g' = None" "mg_hard g = None \<Longrightarrow> mg_hard g' = None"
    using f(2) pollD(2) [OF p] poll_gone [OF p] poll_hard_gone [OF p] by simp_all
qed


lemma stop_expired_fails: "stop_expired pf m ctx e had g w \<noteq> (Inr (), g', w')"
  by (auto simp: stop_expired_def Let_def split: prod.splits sum.splits)

lemma stop_loop_clean:
  assumes "stop_loop n pf m ctx cctx had g w = Some (Inr (), g', w')"
  shows "mg_cfg g' = mg_cfg g \<and> mg_cmd g' = None \<and> (pf = Linux \<longrightarrow> mg_hard g' = None) \<and>
    (had \<longrightarrow> w_files w' (journal_path (cf_root (mg_cfg g))) = None) \<and> (\<not> had \<longrightarrow> w_files w' = w_files w)"
  using assms
proof (induction n arbitrary: g w)
  case 0
  obtain b g1 w1 where s: "still_running pf m g w = (b, g1, w1)" by (metis prod_cases3)
  have b: "\<not> b" using 0 s stop_expired_fails [of pf m cctx _ had g1 w1 g' w']
    by (cases b) (auto simp: stop_loop.simps split: option.splits)
  note d = still_runningD [OF s]
  show ?case
  proof (cases had)
    case True
    then have "finish_tunnel pf m ctx g1 w1 = (Inr (), g', w')"
      using 0 s b by (auto simp: stop_loop.simps split: prod.splits sum.splits)
    then show ?thesis using finish_tunnelD [of pf m ctx g1 w1 g' w'] d b True by simp
  next
    case False then show ?thesis using 0 s b d by (auto simp: stop_loop.simps)
  qed
next
  case (Suc n)
  obtain b g1 w1 where s: "still_running pf m g w = (b, g1, w1)" by (metis prod_cases3)
  note d = still_runningD [OF s]
  show ?case
  proof (cases b)
    case True
    then have "stop_loop n pf m ctx cctx had g1 w1 = Some (Inr (), g', w')"
      using Suc.prems s stop_expired_fails [of pf m cctx _ had g1 w1 g' w'] by (auto simp: stop_loop.simps [of "Suc n"] split: option.splits)
    then show ?thesis using Suc.IH [of g1 w1] d(1,2) by simp
  next
    case b: False
    show ?thesis
    proof (cases had)
      case True
      then have "finish_tunnel pf m ctx g1 w1 = (Inr (), g', w')"
        using Suc.prems s b by (auto simp: stop_loop.simps [of "Suc n"] split: prod.splits sum.splits)
      then show ?thesis using finish_tunnelD [of pf m ctx g1 w1 g' w'] d b True by simp
    next
      case False then show ?thesis using Suc.prems s b d by (auto simp: stop_loop.simps [of "Suc n"])
    qed
  qed
qed


lemma hard_state_active_files: "hard_state_active pf m g w = (b, w') \<Longrightarrow> w_files w' = w_files w"
  by (auto simp: hard_state_active_def kernel_hard_state_def read_hard_state_def split: prod.splits sum.splits if_splits option.splits dest!: file_callD)

lemma had_tunnel_stateD:
  assumes "had_tunnel_state pf m g w = (had, g', w')"
  shows "mg_cfg g' = mg_cfg g" "\<not> had \<Longrightarrow> w_files w' (journal_path (cf_root (mg_cfg g))) = None"
proof -
  obtain g1 w1 where p: "poll m g w = (g1, w1)" by fastforce
  obtain r w2 where l: "load_tunnel_journal m (cf_root (mg_cfg g1)) w1 = (r, w2)" by fastforce
  obtain b w3 where h: "hard_state_active pf m g1 w2 = (b, w3)" by fastforce
  have g: "mg_cfg g1 = mg_cfg g" using pollD(2) [OF p] .
  show "mg_cfg g' = mg_cfg g"
    using assms p g by (auto simp: had_tunnel_state_def mode_now_def Let_def split: prod.splits if_splits)
  assume "\<not> had"
  then have *: "r = Inr None" "w' = w3"
    using assms p l h by (auto simp: had_tunnel_state_def mode_now_def network_journal_status_def Let_def split: prod.splits if_splits sum.splits option.splits)
  then show "w_files w' (journal_path (cf_root (mg_cfg g))) = None"
    using load_none_gone l g hard_state_active_files [OF h] by metis
qed

lemma stop_managerD:
  assumes "stop_manager pf m g w = (e, g', w')"
  shows "mg_cfg g' = mg_cfg g" "w_files w' = w_files w"
  using stop_signals_only_children [OF assms] by simp_all

lemma stop_and_wait_clean:
  assumes "stop_and_wait n pf m ctx cctx g w = Some (Inr (), g', w')"
  shows "mg_cmd g' = None \<and> (pf = Linux \<longrightarrow> mg_hard g' = None) \<and> w_files w' (journal_path (cf_root (mg_cfg g))) = None"
proof -
  obtain had g1 w1 where h: "had_tunnel_state pf m g w = (had, g1, w1)" by (metis prod_cases3)
  obtain e g2 w2 where s: "stop_manager pf m g1 w1 = (e, g2, w2)" by (metis prod_cases3)
  have "stop_loop n pf m ctx cctx had g2 w2 = Some (Inr (), g', w')"
    using assms h s by (auto simp: stop_and_wait_def split: option.splits)
  then show ?thesis
    using stop_loop_clean [of n pf m ctx cctx had g2 w2 g' w'] had_tunnel_stateD [OF h] stop_managerD [OF s] by (cases had) auto
qed

text \<open>C24: stopping returns, and a successful stop leaves nothing behind.  When the caller's context
  is done from some moment on, and the fuel reaches that moment, then \<^verbatim>\<open>StopAndWait\<close> returns, whether
  the child exits or not: every round in which a child still runs takes time.  When it reports
  success, no child is recorded, no kernel-hard launcher either on Linux, and the network-state
  journal is gone: a transaction that was open has been recovered.\<close>

theorem stop_and_wait_returns:
  assumes "\<forall>t\<ge>T. ctx t \<noteq> None" "T \<le> n"
  shows "\<exists>r g' w'. stop_and_wait n pf m ctx cleanup g w = Some (r, g', w') \<and>
    (r = Inr () \<longrightarrow> mg_cmd g' = None \<and> (pf = Linux \<longrightarrow> mg_hard g' = None) \<and> w_files w' (journal_path (cf_root (mg_cfg g))) = None)"
proof -
  obtain had g1 w1 where h: "had_tunnel_state pf m g w = (had, g1, w1)" by (metis prod_cases3)
  obtain e g2 w2 where s: "stop_manager pf m g1 w1 = (e, g2, w2)" by (metis prod_cases3)
  have "stop_loop n pf m ctx cleanup had g2 w2 \<noteq> None"
    by (rule stop_loop_returns [OF assms(1)]) (use assms(2) in simp)
  then obtain r g' w' where "stop_and_wait n pf m ctx cleanup g w = Some (r, g', w')"
    using h s by (cases e) (auto simp: stop_and_wait_def)
  then show ?thesis using stop_and_wait_clean [of n pf m ctx cleanup g w g' w'] by blast
qed

lemma stop_and_wait_returns_witness:
  "\<exists>r. stop_and_wait 5 Linux quiet_machine (\<lambda>t. if t < 5 then None else Some (new_err ''context deadline exceeded'')) (\<lambda>_. None)
     (sample_manager\<lparr>mg_cmd := Some 7\<rparr>) (world_of [] ()) = Some r"
  using stop_and_wait_returns [of 5 "\<lambda>t. if t < 5 then None else Some (new_err ''context deadline exceeded'')" 5 Linux quiet_machine "\<lambda>_. None"
      "sample_manager\<lparr>mg_cmd := Some 7\<rparr>" "world_of [] ()"] by force

section \<open>What a start proves\<close>

lemma wait_ready_proof:
  assumes "wait_ready n pf m ctx dl g w = (Inr (), g', w')"
  shows "\<exists>ga wa wb d. tun_up m wa = (True, wb) \<and> managed_listener_owned pf m ga wb = ((True, d), g', w')"
  using assms
proof (induction n arbitrary: g w)
  case 0
  then show ?case by (subst (asm) wait_ready.simps) (auto simp: Let_def split: bool.splits prod.splits if_splits option.splits)
next
  case (Suc n)
  obtain b g1 w1 where r: "managed_running m g w = (b, g1, w1)" by (metis prod_cases3)
  obtain t w2 where t: "tun_up m w1 = (t, w2)" by fastforce
  obtain ow d g2 w3 where l: "managed_listener_owned pf m g1 w2 = ((ow, d), g2, w3)" by (metis prod.exhaust)
  obtain tm w4 where tm: "now m w3 = (tm, w4)" by fastforce
  show ?case
  proof (cases "t \<and> ow")
    case True
    then show ?thesis using Suc.prems r t l by (cases b) (auto simp: wait_ready.simps [of "Suc n"])
  next
    case False
    then have "wait_ready n pf m ctx dl g2 w4 = (Inr (), g', w')"
      using Suc.prems r t l tm by (cases b) (auto simp: wait_ready.simps [of "Suc n"] Let_def split: option.splits if_splits)
    then show ?thesis by (rule Suc.IH)
  qed
qed

lemma managed_listener_ownedD:
  assumes "managed_listener_owned pf m g w = ((True, d), g', w')"
  shows "\<exists>pid u. mg_cmd g' = Some pid \<and> 0 < pid \<and> fst (owns_listener pf m pid (cf_host (mg_cfg g')) (cf_port (mg_cfg g')) u) = Inr (True, d)"
proof -
  obtain g1 w1 where p: "poll m g w = (g1, w1)" by fastforce
  show ?thesis
  proof (cases "mg_cmd g1")
    case None
    then show ?thesis using assms p by (simp add: managed_listener_owned_def managed_pid_def Let_def)
  next
    case (Some pid)
    obtain r w2 where o: "owns_listener pf m pid (cf_host (mg_cfg g1)) (cf_port (mg_cfg g1)) w1 = (r, w2)" by fastforce
    have "g' = g1 \<and> 0 < pid \<and> r = Inr (True, d)"
      using assms p o Some by (auto simp: managed_listener_owned_def managed_pid_def Let_def split: if_splits sum.splits prod.splits option.splits)
    then show ?thesis using o Some by (intro exI [of _ pid] exI [of _ w1]) simp
  qed
qed




definition started_machine :: "unit machine" where
  "started_machine = listening_machine\<lparr>
     m_ifaces := \<lambda>_. [\<lparr>if_name = agent_tun_name, if_up = True, if_loopback = False, if_flags = ''up''\<rparr>],
     m_dial := \<lambda>_ _. None,
     m_proc_stat := \<lambda>_ _. Inr ''7 (sing box) S 1 1 1 0 0 0 0 0 0 0 0 0 0 0 0 0 0 0 555 0''\<rparr>"

definition started_manager :: manager where
  "started_manager = new_manager (config.make ''/s'' ''localhost'' 80 [] [] [])\<lparr>mg_cmd := Some 7\<rparr>"

lemma poll_started: "mg_cmd g = Some 7 \<Longrightarrow> mg_hard g = None \<Longrightarrow> poll started_machine g w = (g, tick w)"
  by (simp add: poll_def poll_cmd_def poll_hard_def observe_def started_machine_def listening_machine_def quiet_machine_def Let_def tick_def)

lemma sample_world_eq: "sample_world = world.make (w_files sample_world) [] 0 [] () [] []"
  by (simp add: world_of_def world.make_def)

lemma started_reports:
  "(case wait_agent_tunnel_ready Linux started_machine (\<lambda>_. None) started_manager (world.make f [] 0 [] () [] []) of (r, g, w) \<Rightarrow>
      \<not> isl r \<and> mg_cmd g = Some 7 \<and> mg_hard g = None \<and> cf_root (mg_cfg g) = ''/s'' \<and> w_files w q = f q)"
  by code_simp


lemma started_capture:
  obtains s w' where "capture_snapshot Linux started_machine w = (Inr s, w')" "w_files w' = w_files w"
proof -
  obtain c w' where c: "capture_snapshot Linux started_machine w = (c, w')" by fastforce
  have e: "exec_cmd started_machine c v = (([], None), (tick v)\<lparr>w_log := w_log v @ [c]\<rparr>)" for c v
    by (simp add: exec_cmd_def started_machine_def listening_machine_def quiet_machine_def tick_def Let_def)
  have "w_files w' = w_files w" using capture_observes [OF c] by (simp add: observes_def)
  moreover have "\<exists>s. c = Inr s"
    using c e by (auto simp: capture_snapshot_def capture_linux_def command_lines_def Let_def split: prod.splits)
  ultimately show ?thesis using c that by blast
qed

lemma started_identity: "platform_process_identity Linux started_machine 7 w = (Inr ''555'', tick w)"
proof -
  have "stat_start_time 7 ''7 (sing box) S 1 1 1 0 0 0 0 0 0 0 0 0 0 0 0 0 0 0 555 0'' = Inr ''555''" by code_simp
  then show ?thesis
    by (simp add: platform_process_identity_def observe_def started_machine_def listening_machine_def quiet_machine_def tick_def Let_def)
qed

lemma reliable_started: "reliable started_machine" "good_clock started_machine"
  using good_clock_quiet reliable_quiet
  by (simp_all add: reliable_def good_clock_def started_machine_def listening_machine_def)


text \<open>C13: a failed start is undone.  When the readiness proof fails and the error that comes back
  from the rollback is the original one, no child is recorded (nor a launcher, on Linux), the
  network-state journal is gone and the interface \<^verbatim>\<open>antigravity-tun\<close> was absent; in every other case the
  error starts with the original one and says what remains.\<close>

theorem failed_start_rolls_back:
  assumes "rollback_start n pf m ctx cctx cause g w = Some (e, g', w')"
  shows "(e = cause \<and> mg_cmd g' = None \<and> (pf = Linux \<longrightarrow> mg_hard g' = None) \<and>
      w_files w' (journal_path (cf_root (mg_cfg g))) = None \<and> (\<exists>u. iface_by_name m agent_tun_name u = (None, w'))) \<or>
    (err_kind e = err_kind cause \<and> (\<exists>what. err_text e = err_text cause @ ''; rollback '' @ what \<and>
      (has_prefix what ''also failed: '' \<or>
       what = ''stopped sing-box but '' @ agent_tun_name @ '' still exists'' \<and> mg_cmd g' = None \<and>
         w_files w' (journal_path (cf_root (mg_cfg g))) = None)))"
proof -
  let ?g = "log_msg ''error'' (''Agent Tunnel readiness failed; rolling back: '' @ err_text cause) g"
  obtain r g1 w1 where s: "stop_and_wait n pf m ctx cctx ?g w = Some (r, g1, w1)"
    using assms by (auto simp: rollback_start_def split: option.splits)
  show ?thesis
  proof (cases r)
    case (Inl x)
    then have "e = GErr (err_kind cause) (err_text cause @ ''; rollback '' @ ''also failed: '' @ err_text x)"
      using assms s by (simp add: rollback_start_def)
    then show ?thesis by (auto simp: has_prefix_def)
  next
    case (Inr u)
    have st: "mg_cmd g1 = None" "pf = Linux \<longrightarrow> mg_hard g1 = None" "w_files w1 (journal_path (cf_root (mg_cfg g))) = None"
      using stop_and_wait_clean [of n pf m ctx cctx ?g w g1 w1] s Inr by simp_all
    obtain i w2 where i: "iface_by_name m agent_tun_name w1 = (i, w2)" by fastforce
    have f: "w_files w2 = w_files w1" using iface_observes [OF i, of "\<lambda>_. False"] by (simp add: observes_def)
    show ?thesis
    proof (cases i)
      case None
      then have "e = cause \<and> g' = g1 \<and> w' = w2" using assms s Inr i by (simp add: rollback_start_def)
      then show ?thesis using st f i None by auto
    next
      case (Some x)
      then have "e = GErr (err_kind cause) (err_text cause @ ''; rollback '' @ ''stopped sing-box but '' @ agent_tun_name @ '' still exists'')
          \<and> g' = g1 \<and> w' = w2"
        using assms s Inr i by (simp add: rollback_start_def)
      then show ?thesis using st f by auto
    qed
  qed
qed

lemma failed_start_rolls_back_witness:
  "\<exists>g' w'. rollback_start 0 Linux quiet_machine (\<lambda>_. None) (\<lambda>_. None) (new_err ''timeout'') sample_manager (world_of [] ()) =
     Some (new_err ''timeout'', g', w') \<and> mg_cmd g' = None"
proof -
  let ?g = "log_msg ''error'' (''Agent Tunnel readiness failed; rolling back: '' @ err_text (new_err ''timeout'')) sample_manager"
  have "(case had_tunnel_state Linux quiet_machine ?g (world_of [] ()) of (h, g, w) \<Rightarrow> \<not> h \<and> mg_cmd g = None \<and> mg_hard g = None)"
    by code_simp
  then obtain g w where h: "had_tunnel_state Linux quiet_machine ?g (world_of [] ()) = (False, g, w)" and g: "mg_cmd g = None" "mg_hard g = None"
    by (auto split: prod.splits)
  have p: "poll quiet_machine g v = (g, v)" for v using g by (simp add: poll_def poll_cmd_def poll_hard_def)
  have "stop_and_wait 0 Linux quiet_machine (\<lambda>_. None) (\<lambda>_. None) ?g (world_of [] ()) = Some (Inr (), g, w)"
    using h g p by (simp add: stop_and_wait_def stop_manager_def stop_hard_def stop_loop.simps still_running_def managed_running_def hard_running_def)
  then have r: "rollback_start 0 Linux quiet_machine (\<lambda>_. None) (\<lambda>_. None) (new_err ''timeout'') sample_manager (world_of [] ()) =
      Some (new_err ''timeout'', g, tick w)"
    by (simp add: rollback_start_def)
  from failed_start_rolls_back [OF r] r show ?thesis by auto
qed

section \<open>Health\<close>

definition dim :: "string \<Rightarrow> health \<Rightarrow> bool" where
  "dim k h = (case map_of (he_dims h) k of Some (b, _) \<Rightarrow> b | None \<Rightarrow> False)"

lemma set_dim_simps [simp]:
  "he_dims (set_dim k b d h) = he_dims h @ [(k, (b, d))]" "he_state (set_dim k b d h) = he_state h" "he_mode (set_dim k b d h) = he_mode h"
  by (simp_all add: set_dim_def)

lemma tunnel_healthD:
  assumes "tunnel_health m g owned ok h w = (h', w')"
  shows "\<exists>t td v vd. he_dims h' = he_dims h @ [(''tun'', (t, td)), (''vpn_interface'', (v, vd))] \<and> he_mode h' = he_mode h \<and>
     he_state h' = (if owned \<and> t \<and> v \<and> ok then Healthy else Degraded)"
proof -
  obtain i w1 where 1: "iface_by_name m agent_tun_name w = (i, w1)" by fastforce
  obtain t td where 2: "health_of_iface (agent_tun_name @ '' not present'') i = (t, td)" by fastforce
  obtain x w2 where 3: "(if cf_vpn (mg_cfg g) \<noteq> [] then iface_by_name m (cf_vpn (mg_cfg g)) w1 else (None, w1)) = (x, w2)" by fastforce
  obtain v vd where 4: "health_of_iface (if cf_vpn (mg_cfg g) \<noteq> [] then no_such_iface else ''VPN interface not configured'') x = (v, vd)" by fastforce
  have "h' = set_dim ''vpn_interface'' v vd (set_dim ''tun'' t td h)\<lparr>he_state := if owned \<and> t \<and> v \<and> ok then Healthy else Degraded\<rparr>"
    using assms by (simp only: tunnel_health_def Let_def 1 2 3 4 prod.case prod.inject)
  then show ?thesis by (intro exI [of _ t] exI [of _ td] exI [of _ v] exI [of _ vd]) simp
qed


definition foreign_machine :: "unit machine" where
  "foreign_machine = quiet_machine\<lparr>m_dial := \<lambda>_ _. None\<rparr>"

lemma foreign_listener_healthy:
  "(case health_snapshot Linux foreign_machine (started_manager\<lparr>mg_mode := Mode_proxy, mg_ready := True\<rparr>) (world_of [] ()) of
     (h, _) \<Rightarrow> he_state h = Healthy \<and> he_mode h = Mode_proxy \<and> \<not> dim ''mixed_listener_owned'' h)"
  by code_simp


end
