(* ===== verification/Egress.thy ===== *)
theory Egress imports Tunnel begin

text \<open>
  The external observation of the egress (\<^verbatim>\<open>proxy/egress.go\<close>): the observers are asked through the
  managed local proxy and one of them directly, and the addresses they saw are compared.  The
  goroutines that ask the observers write to different places of the result; the model asks one after
  the other, with the drift of the machine between.  The lemmas show what evidence stands behind a
  positive result and that no request but the comparison goes around the proxy.
\<close>

section \<open>Data\<close>

record egress_evidence =
  ee_provider :: string
  ee_via :: string
  ee_ip :: string
  ee_family :: string
  ee_status :: int
  ee_ms :: int
  ee_ok :: bool
  ee_error :: string

record egress_attestation =
  ea_available :: bool
  ea_observed_at :: string
  ea_vpn :: string
  ea_vpn_ips :: "string list"
  ea_system_ip :: string
  ea_relation :: string
  ea_successes :: int
  ea_failures :: int
  ea_ipv4 :: bool
  ea_ipv6 :: bool
  ea_tcp :: bool
  ea_udp :: bool
  ea_quic :: bool
  ea_complete :: bool
  ea_evidence :: "egress_evidence list"
  ea_detail :: string

type_synonym provider = "string \<times> string"

definition default_providers :: "provider list" where
  "default_providers = [(''ipify'', ''https://api.ipify.org/''), (''cloudflare-trace'', ''https://www.cloudflare.com/cdn-cgi/trace'')]"

definition body_limit :: int where "body_limit = 4096"

section \<open>One observer\<close>

definition parse_observed_ip :: "string \<Rightarrow> ip res" where
  "parse_observed_ip body =
     (let trimmed = trim_space body in
      case parse_ip trimmed of
        Some a \<Rightarrow> Inr a
      | None \<Rightarrow>
          (case filter (\<lambda>a. a \<noteq> None)
              (map (\<lambda>l. if has_prefix l ''ip='' then parse_ip (trim_space (trim_prefix l ''ip='')) else None)
                (map trim_space (split_char (CHR 0x0A) (replace_crlf trimmed)))) of
             Some a # _ \<Rightarrow> Inr a
           | _ \<Rightarrow> Inl (new_err ''provider response did not contain a valid IP address'')))"

text \<open>\<^verbatim>\<open>io.ReadAll(io.LimitReader(...))\<close>: an error behind the limit is not seen.\<close>

definition read_limited :: "http_response \<Rightarrow> string res" where
  "read_limited a =
     (if int (length (hr_body a)) \<ge> body_limit then Inr (take (nat body_limit) (hr_body a))
      else (case hr_error a of Some e \<Rightarrow> Inl e | None \<Rightarrow> Inr (hr_body a)))"

definition millis_since :: "stamp \<Rightarrow> stamp \<Rightarrow> int" where
  "millis_since a b = (t_nanos b - t_nanos a) div 1000000"

definition probe_request :: "string option \<Rightarrow> provider \<Rightarrow> http_request" where
  "probe_request proxy p = \<lparr>hq_proxy = proxy, hq_dial = None, hq_method = ''GET'', hq_url = snd p\<rparr>"

definition judge_response :: "http_response res \<Rightarrow> egress_evidence \<Rightarrow> egress_evidence" where
  "judge_response a r =
     (case a of
        Inl e \<Rightarrow> r\<lparr>ee_error := err_text e\<rparr>
      | Inr x \<Rightarrow>
          (let r1 = r\<lparr>ee_status := hr_code x\<rparr> in
           if hr_code x < 200 \<or> hr_code x \<ge> 300 then r1\<lparr>ee_error := hr_status x\<rparr>
           else (case read_limited x of
               Inl e \<Rightarrow> r1\<lparr>ee_error := err_text e\<rparr>
             | Inr body \<Rightarrow>
                 (case parse_observed_ip body of
                    Inl e \<Rightarrow> r1\<lparr>ee_error := err_text e\<rparr>
                  | Inr a \<Rightarrow> r1\<lparr>ee_ip := ip_text a, ee_family := (if to4 a \<noteq> None then ''ipv4'' else ''ipv6''), ee_ok := True\<rparr>))))"

definition probe_one_egress :: "'k machine \<Rightarrow> string option \<Rightarrow> provider \<Rightarrow> string \<Rightarrow> 'k world \<Rightarrow> egress_evidence \<times> 'k world" where
  "probe_one_egress m proxy p via w =
     (let (start, w1) = now m w; (a, w2) = http_do m (probe_request proxy p) w1; (t, w3) = now m w2
      in ((judge_response a \<lparr>ee_provider = fst p, ee_via = via, ee_ip = [], ee_family = [], ee_status = 0, ee_ms = 0, ee_ok = False, ee_error = []\<rparr>)
            \<lparr>ee_ms := millis_since start t\<rparr>, w3))"

fun probe_providers :: "'k machine \<Rightarrow> string option \<Rightarrow> provider list \<Rightarrow> string \<Rightarrow> 'k world \<Rightarrow> egress_evidence list \<times> 'k world" where
  "probe_providers m proxy [] via w = ([], w)"
| "probe_providers m proxy (p # ps) via w =
     (let (e, w1) = probe_one_egress m proxy p via w; (es, w2) = probe_providers m proxy ps via w1 in (e # es, w2))"

section \<open>The attestation\<close>

text \<open>\<^verbatim>\<open>url.Parse\<close> of the URL of the local proxy: the port is a number, and every character of the
  host has to be allowed there.\<close>

definition url_host_char :: "char \<Rightarrow> bool" where
  "url_host_char c \<longleftrightarrow>
     (let n = of_char c :: nat in n \<ge> 128 \<or> 48 \<le> n \<and> n \<le> 57 \<or> 65 \<le> n \<and> n \<le> 90 \<or> 97 \<le> n \<and> n \<le> 122 \<or>
      c \<in> set ''-_.~!$&()*+,;=:[]<>'' \<or> n = 34 \<or> n = 39)"

definition proxy_url_error :: "config \<Rightarrow> string option" where
  "proxy_url_error c =
     (case find (\<lambda>x. \<not> url_host_char x) (cf_host c) of
        None \<Rightarrow> None
      | Some x \<Rightarrow> Some (''parse '' @ go_quote (http_proxy_url c) @ '': invalid character '' @ go_quote [x] @ '' in host name''))"

definition count_evidence :: "egress_evidence \<Rightarrow> egress_attestation \<Rightarrow> egress_attestation" where
  "count_evidence e r =
     (if \<not> ee_ok e then r\<lparr>ea_failures := ea_failures r + 1\<rparr>
      else (let r1 = r\<lparr>ea_successes := ea_successes r + 1, ea_ipv4 := ea_ipv4 r \<or> ee_family e = ''ipv4'',
                       ea_ipv6 := ea_ipv6 r \<or> ee_family e = ''ipv6'', ea_tcp := True\<rparr>
            in if ee_ip e \<in> set (ea_vpn_ips r1) then r1 else r1\<lparr>ea_vpn_ips := ea_vpn_ips r1 @ [ee_ip e]\<rparr>))"

definition first_success :: "provider list \<Rightarrow> egress_evidence list \<Rightarrow> provider option" where
  "first_success ps es = map_option fst (find (\<lambda>x. ee_ok (snd x)) (zip ps es))"

definition egress_detail :: "egress_attestation \<Rightarrow> string" where
  "egress_detail r =
     (let n = length (ea_vpn_ips r) in
      if n > 1 \<and> ea_system_ip r \<noteq> []
      then ''vpn-direct externally observed via '' @ ea_vpn r @ '' with '' @ itoa (int n) @ '' valid egress addresses; system-direct comparison is '' @ ea_relation r
      else if n > 1
      then ''vpn-direct externally observed via '' @ ea_vpn r @ '' with '' @ itoa (int n) @ '' valid egress addresses; system-direct comparison unavailable''
      else if ea_system_ip r \<noteq> []
      then ''vpn-direct external egress observed via '' @ ea_vpn r @ ''; system-direct comparison is '' @ ea_relation r
      else ''vpn-direct external egress observed via '' @ ea_vpn r @ ''; system-direct comparison unavailable'')"

definition compare_system :: "egress_evidence \<Rightarrow> egress_attestation \<Rightarrow> egress_attestation" where
  "compare_system e r =
     (let r1 = r\<lparr>ea_evidence := ea_evidence r @ [e]\<rparr> in
      if ee_ok e then r1\<lparr>ea_system_ip := ee_ip e, ea_relation := (if ee_ip e \<in> set (ea_vpn_ips r1) then ''same'' else ''different'')\<rparr> else r1)"

definition blank_egress :: "string \<Rightarrow> string \<Rightarrow> egress_attestation" where
  "blank_egress t vpn = \<lparr>ea_available = False, ea_observed_at = t, ea_vpn = vpn, ea_vpn_ips = [], ea_system_ip = [], ea_relation = ''unknown'',
     ea_successes = 0, ea_failures = 0, ea_ipv4 = False, ea_ipv6 = False, ea_tcp = False, ea_udp = False, ea_quic = False,
     ea_complete = False, ea_evidence = [], ea_detail = []\<rparr>"

definition tally :: "egress_evidence list \<Rightarrow> egress_attestation \<Rightarrow> egress_attestation" where
  "tally es r =
     (let r1 = fold count_evidence es (r\<lparr>ea_evidence := ea_evidence r @ es\<rparr>);
          r2 = r1\<lparr>ea_complete := (ea_ipv4 r1 \<and> ea_ipv6 r1 \<and> ea_tcp r1 \<and> ea_udp r1 \<and> ea_quic r1)\<rparr>
      in r2\<lparr>ea_vpn_ips := sort (ea_vpn_ips r2)\<rparr>)"

definition conclude_egress ::
  "'k machine \<Rightarrow> provider list \<Rightarrow> egress_evidence list \<Rightarrow> egress_attestation \<Rightarrow> 'k world \<Rightarrow> egress_attestation \<times> 'k world" where
  "conclude_egress m providers es r w =
     (if ea_vpn_ips r = []
      then (r\<lparr>ea_detail := ''external vpn-direct egress could not be observed through '' @ itoa (int (length providers)) @ '' provider(s)''\<rparr>, w)
      else (let r1 = r\<lparr>ea_available := True\<rparr>;
                (r2, w1) = (case first_success providers es of
                   None \<Rightarrow> (r1, w)
                 | Some p \<Rightarrow> (case probe_one_egress m None p ''system-direct'' w of (e, w1) \<Rightarrow> (compare_system e r1, w1)))
            in (r2\<lparr>ea_detail := egress_detail r2\<rparr>, w1)))"

definition attest_egress_with ::
  "platform \<Rightarrow> 'k machine \<Rightarrow> provider list \<Rightarrow> manager \<Rightarrow> 'k world \<Rightarrow> egress_attestation \<times> manager \<times> 'k world" where
  "attest_egress_with pf m providers g w =
     (let (t, w1) = now m w; r = blank_egress (t_rfc t) (cf_vpn (mg_cfg g));
          (md, g1, w2) = mode_now m g w1;
          (running, g2, w3) = (if md \<noteq> Mode_tunnel then (False, g1, w2) else managed_running m g1 w2)
      in if md \<noteq> Mode_tunnel \<or> \<not> running then (r\<lparr>ea_detail := ''Agent Tunnel is not running''\<rparr>, g2, w3)
      else (case managed_listener_owned pf m g2 w3 of ((owned, detail), g3, w4) \<Rightarrow>
        if \<not> owned then (r\<lparr>ea_detail := ''managed local proxy ownership is not proven: '' @ detail\<rparr>, g3, w4)
        else if providers = [] then (r\<lparr>ea_detail := ''no egress probe providers configured''\<rparr>, g3, w4)
        else (case proxy_url_error (mg_cfg g3) of
            Some e \<Rightarrow> (r\<lparr>ea_detail := ''parse managed proxy URL: '' @ e\<rparr>, g3, w4)
          | None \<Rightarrow>
              (let (es, w5) = probe_providers m (Some (http_proxy_url (mg_cfg g3))) providers ''vpn-direct'' w4;
                   (r1, w6) = conclude_egress m providers es (tally es r) w5
               in (r1, g3, w6)))))"

definition attest_public_egress :: "platform \<Rightarrow> 'k machine \<Rightarrow> manager \<Rightarrow> 'k world \<Rightarrow> egress_attestation \<times> manager \<times> 'k world" where
  "attest_public_egress pf m = attest_egress_with pf m default_providers"

section \<open>Lemmas\<close>

lemma probe_one_requests:
  "probe_one_egress m proxy p via w = (e, w') \<Longrightarrow> w_requests w' = w_requests w @ [probe_request proxy p] \<and> w_files w' = w_files w \<and> w_log w' = w_log w \<and> ee_via e = via"
  by (auto simp: probe_one_egress_def judge_response_def Let_def split: prod.splits sum.splits dest!: nowD http_doD)

lemma probe_providers_requests:
  "probe_providers m proxy ps via w = (es, w') \<Longrightarrow>
     w_requests w' = w_requests w @ map (probe_request proxy) ps \<and> length es = length ps \<and> w_files w' = w_files w \<and> w_log w' = w_log w \<and>
     (\<forall>e\<in>set es. ee_via e = via)"
proof (induction ps arbitrary: w es w')
  case (Cons p ps)
  obtain e w1 where e: "probe_one_egress m proxy p via w = (e, w1)" by fastforce
  obtain es2 w2 where es: "probe_providers m proxy ps via w1 = (es2, w2)" by fastforce
  have "es = e # es2" "w' = w2" using Cons.prems by (simp_all add: e es)
  then show ?case using Cons.IH [OF es] probe_one_requests [OF e] by simp
qed simp

lemma count_evidence_sets:
  "set (ea_vpn_ips (fold count_evidence es r)) = set (ea_vpn_ips r) \<union> ee_ip ` {e \<in> set es. ee_ok e} \<and>
   (distinct (ea_vpn_ips r) \<longrightarrow> distinct (ea_vpn_ips (fold count_evidence es r))) \<and>
   ea_udp (fold count_evidence es r) = ea_udp r \<and> ea_quic (fold count_evidence es r) = ea_quic r \<and>
   ea_evidence (fold count_evidence es r) = ea_evidence r \<and> ea_available (fold count_evidence es r) = ea_available r \<and>
   ea_system_ip (fold count_evidence es r) = ea_system_ip r \<and> ea_relation (fold count_evidence es r) = ea_relation r"
proof (induction es arbitrary: r)
  case (Cons e es)
  show ?case using Cons [of "count_evidence e r"] by (cases "ee_ok e") (auto simp: count_evidence_def Let_def)
qed simp

lemma owns_listener_outs: "owns_listener pf m pid h p w = (r, w') \<Longrightarrow> observes (\<lambda>_. True) w w'"
  by (cases pf) (auto simp: owns_listener_def windows_owns_listener_def split: prod.splits sum.splits option.splits list.splits
      dest!: process_listener_observes [where A = "\<lambda>_. True"] exec_observes [where A = "\<lambda>_. True"])

lemma managed_listener_outs:
  assumes "managed_listener_owned pf m g w = (r, g', w')"
  shows "observes (\<lambda>_. True) w w' \<and> mg_cfg g' = mg_cfg g"
proof -
  obtain g1 w1 where p: "poll m g w = (g1, w1)" by fastforce
  have o: "observes (\<lambda>_. True) w w1" "mg_cfg g1 = mg_cfg g" using pollD(1,2) [OF p] by simp_all
  let ?pid = "case mg_cmd g1 of None \<Rightarrow> 0 | Some pid \<Rightarrow> pid"
  obtain q w2 where q: "owns_listener pf m ?pid (cf_host (mg_cfg g1)) (cf_port (mg_cfg g1)) w1 = (q, w2)" by fastforce
  obtain e w3 where e: "dial_tcp m (listen_addr (mg_cfg g1)) w2 = (e, w3)" by fastforce
  have o2: "observes (\<lambda>_. True) w w2" by (rule observes_trans [OF o(1) owns_listener_outs [OF q]])
  have o3: "observes (\<lambda>_. True) w w3" by (rule observes_trans [OF o2 dial_observes [OF e]])
  have "(w' = w1 \<or> w' = w2 \<or> w' = w3) \<and> g' = g1"
    using assms by (auto simp: managed_listener_owned_def managed_pid_def p q e Let_def split: if_splits sum.splits option.splits prod.splits)
  then show ?thesis using o o2 o3 by auto
qed

lemma tally_facts:
  "set (ea_vpn_ips (tally es (blank_egress t v))) = ee_ip ` {e \<in> set es. ee_ok e}" "distinct (ea_vpn_ips (tally es (blank_egress t v)))"
  "sorted (ea_vpn_ips (tally es (blank_egress t v)))" "\<not> ea_complete (tally es (blank_egress t v))"
  "ea_evidence (tally es (blank_egress t v)) = es" "\<not> ea_available (tally es (blank_egress t v))"
  using count_evidence_sets [of es "(blank_egress t v)\<lparr>ea_evidence := es\<rparr>"]
  by (simp_all add: tally_def Let_def blank_egress_def)

lemma compare_facts:
  "ea_vpn_ips (compare_system e r) = ea_vpn_ips r" "ea_complete (compare_system e r) = ea_complete r"
  "ea_evidence (compare_system e r) = ea_evidence r @ [e]" "ea_available (compare_system e r) = ea_available r"
  by (simp_all add: compare_system_def Let_def)

lemma egress_incomplete:
  assumes "attest_egress_with pf m providers g w = (r, g', w')"
  shows "\<not> ea_complete r"
proof -
  have b: "\<not> ea_complete (blank_egress t v)" for t v by (simp add: blank_egress_def)
  have c: "\<not> ea_complete (fst (conclude_egress m providers es (tally es (blank_egress t v)) u))" for es t v and u :: "'a world"
    using tally_facts(4) [of es t v] by (auto simp: conclude_egress_def Let_def compare_facts split: option.splits prod.splits)
  show ?thesis
    using assms b c by (auto simp: attest_egress_with_def Let_def split: if_splits prod.splits option.splits) (metis fst_conv)+
qed

section \<open>Properties\<close>


definition answering_machine :: "unit machine" where
  "answering_machine = started_machine\<lparr>m_http := \<lambda>q k. (Inr \<lparr>hr_code = 200, hr_status = ''200 OK'', hr_body = ''203.0.113.7'', hr_error = None\<rparr>, k)\<rparr>"

lemma answering_poll: "mg_cmd g = Some 7 \<Longrightarrow> mg_hard g = None \<Longrightarrow> poll answering_machine g w = (g, tick w)"
  by (simp add: poll_def poll_cmd_def poll_hard_def observe_def answering_machine_def started_machine_def listening_machine_def quiet_machine_def Let_def tick_def)

abbreviation answered_manager :: manager where
  "answered_manager \<equiv> started_manager\<lparr>mg_mode := Mode_tunnel\<rparr>"

abbreviation tick_three :: "unit world" where
  "tick_three \<equiv> tick (tick (tick (world.make (\<lambda>_. None) [] 0 [] () [] [])))"

lemma answering_owned: "fst (fst (managed_listener_owned Linux answering_machine answered_manager tick_three))"
proof -
  have w: "tick_three = world.make (\<lambda>_. None) [] 3 [] () [] []" by (simp add: tick_def world.make_def)
  show ?thesis unfolding w by code_simp
qed

lemma answering_probe:
  "\<exists>e w'. probe_one_egress answering_machine p q v w = (e, w') \<and> ee_ok e \<and> ee_ip e = ''203.0.113.7''"
proof -
  have j: "judge_response (Inr \<lparr>hr_code = 200, hr_status = s, hr_body = ''203.0.113.7'', hr_error = None\<rparr>) r =
      r\<lparr>ee_status := 200, ee_ip := ''203.0.113.7'', ee_family := ''ipv4'', ee_ok := True\<rparr>" for s r
  proof -
    have "parse_observed_ip ''203.0.113.7'' = Inr [203, 0, 113, 7] \<or> parse_observed_ip ''203.0.113.7'' = Inr (v4_in_v6 @ [203, 0, 113, 7])" by code_simp
    moreover have "ip_text [203, 0, 113, 7] = ''203.0.113.7''" "ip_text (v4_in_v6 @ [203, 0, 113, 7]) = ''203.0.113.7''"
        "to4 [203, 0, 113, 7] \<noteq> None" "to4 (v4_in_v6 @ [203, 0, 113, 7]) \<noteq> None" by code_simp+
    ultimately show ?thesis by (auto simp: judge_response_def read_limited_def body_limit_def Let_def)
  qed
  show ?thesis by (simp add: probe_one_egress_def now_def http_do_def answering_machine_def j Let_def)
qed

lemma answered:
  assumes "attest_egress_with Linux answering_machine [p] answered_manager (world.make (\<lambda>_. None) [] 0 [] () [] []) = (r, g', w')"
  shows "ea_available r"
proof -
  let ?g = "answered_manager"
  have c: "mg_cmd ?g = Some 7" "mg_hard ?g = None" "proxy_url_error (mg_cfg ?g) = None"
    by (simp_all add: started_manager_def new_manager_def config.make_def) code_simp
  obtain d g3 w4 where o: "managed_listener_owned Linux answering_machine ?g tick_three = ((True, d), g3, w4)"
    using answering_owned by (metis prod.exhaust fst_conv)
  have g3: "mg_cfg g3 = mg_cfg ?g" using managed_listener_outs [OF o] by blast
  obtain e w5 where e: "probe_one_egress answering_machine (Some (http_proxy_url (mg_cfg ?g))) p ''vpn-direct'' w4 = (e, w5)" "ee_ok e"
    using answering_probe by blast
  have n: "ea_vpn_ips (tally [e] b) \<noteq> []" for b
  proof -
    have "ee_ip e \<in> set (ea_vpn_ips (tally [e] b))"
      using e(2) count_evidence_sets [of "[e]" "b\<lparr>ea_evidence := ea_evidence b @ [e]\<rparr>"] by (simp add: tally_def Let_def)
    then show ?thesis by (metis empty_iff empty_set)
  qed
  have md: "mode_now answering_machine ?g (tick W) = (Mode_tunnel, ?g, tick (tick W))" for W
    using c(1,2) by (simp add: mode_now_def answering_poll)
  have run: "managed_running answering_machine ?g (tick (tick W)) = (True, ?g, tick (tick (tick W)))" for W
    using c(1,2) by (simp add: managed_running_def answering_poll)
  define b where "b = blank_egress (t_rfc (m_clock answering_machine (w_tick (world.make (\<lambda>_. None) [] 0 [] () [] [])))) (cf_vpn (mg_cfg ?g))"
  have b: "(case conclude_egress answering_machine [p] [e] (tally [e] b) w5 of (r1, w6) \<Rightarrow> (r1, g3, w6)) = (r, g', w')"
    using assms o e(1) g3 c(3) by (simp add: attest_egress_with_def now_def md run b_def)
  have "ea_available (fst (conclude_egress answering_machine [p] [e] (tally [e] b) w5))"
    using n [of b] by (auto simp: conclude_egress_def Let_def compare_facts split: option.splits prod.splits)
  then show ?thesis using b by (auto split: prod.splits)
qed


end
