(* ===== verification/Processes.thy ===== *)
theory Processes imports Go_Regexp Settings SocketOwners begin

text \<open>
  The inventory of the agent's processes (\<^verbatim>\<open>antigravity/processes.go\<close>, \<^verbatim>\<open>processes_linux.go\<close>,
  \<^verbatim>\<open>processes_windows.go\<close>): the processes of the host, the tree below the processes that belong to
  the product, their roles, and host names that appear in their command lines.  The lemmas show that the
  inventory holds exactly the processes that descend from a root, each once, and that no descendant
  that is not recognised stays out of the list of unknown helpers.
\<close>

section \<open>Data\<close>

record process_info =
  pi_pid :: int
  pi_ppid :: int
  pi_name :: string
  pi_exe :: string
  pi_cmd :: string
  pi_role :: string
  pi_known :: bool

record process_tree =
  pt_processes :: "process_info list"
  pt_unknown :: "process_info list"
  pt_roots :: "int list"
  pt_complete :: bool
  pt_detail :: string
  pt_learned :: "string list"

definition new_process :: "int \<Rightarrow> process_info" where
  "new_process pid = \<lparr>pi_pid = pid, pi_ppid = 0, pi_name = [], pi_exe = [], pi_cmd = [], pi_role = [], pi_known = False\<rparr>"

section \<open>Roots and roles\<close>

definition is_own_pid :: "int \<Rightarrow> process_info \<Rightarrow> bool" where
  "is_own_pid self p \<longleftrightarrow> pi_pid p > 0 \<and> pi_pid p = self"

definition is_antigravity_root :: "int \<Rightarrow> process_info \<Rightarrow> bool" where
  "is_antigravity_root self p =
     (if is_own_pid self p then False
      else (let name = to_lower (trim_space (pi_name p)); exe = to_lower (pi_exe p); cmd = to_lower (pi_cmd p) in
        if str_contains name ''antigraviti-pro'' \<or> str_contains exe ''antigraviti-pro'' then False
        else if str_contains name ''antigravity'' \<or> str_contains exe ''antigravity'' then True
        else str_contains cmd ''antigravity'' \<and> \<not> str_contains cmd ''antigraviti-pro''))"

definition classify_process :: "int \<Rightarrow> process_info \<Rightarrow> string \<times> bool" where
  "classify_process self p =
     (if is_own_pid self p then (''control-plane'', False)
      else (let name = to_lower (trim_space (pi_name p)); exe = to_lower (pi_exe p); cmd = to_lower (pi_cmd p);
                joined = name @ '' '' @ exe @ '' '' @ cmd in
        if str_contains name ''antigraviti-pro'' \<or> str_contains exe ''antigraviti-pro'' then (''control-plane'', False)
        else if str_contains name ''antigravity'' then (''ide'', True)
        else if str_contains name ''language_server'' \<or> str_contains name ''language-server'' then (''language-server'', True)
        else if name = ''agy'' \<or> name = ''agy.exe'' then (''agent-helper'', True)
        else if (name = ''node'' \<or> name = ''node.exe'') \<and> str_contains joined ''antigravity'' then (''bundled-node'', True)
        else if str_contains exe ''antigravity'' \<or> str_contains cmd ''antigravity'' then (''product-helper'', True)
        else (''unknown-descendant'', False)))"

definition with_role :: "int \<Rightarrow> process_info \<Rightarrow> process_info" where
  "with_role self p = p\<lparr>pi_role := fst (classify_process self p), pi_known := snd (classify_process self p)\<rparr>"

section \<open>Host names in command lines\<close>

definition alnum_i :: "char \<Rightarrow> bool" where
  "alnum_i c \<longleftrightarrow> ascii_lower (lower_char c) \<or> ascii_digit c"

definition endpoint_candidate_rx :: rx where
  "endpoint_candidate_rx = rx_seq
     [Word_boundary,
      rx_opt (rx_seq [rx_lit_i ''http'', rx_opt (rx_lit_i ''s''), rx_lit ''://'']),
      Cap 1 (rx_seq [Cls alnum_i, Star True (Cls (\<lambda>c. alnum_i c \<or> c = CHR ''.'' \<or> c = CHR ''-'')), rx_lit ''.'',
        rx_at_least 2 (Cls (\<lambda>c. ascii_lower (lower_char c)))]),
      rx_opt (rx_seq [rx_lit '':'', rx_between 1 5 (Cls ascii_digit)]),
      Word_boundary]"

definition common_host :: "string \<Rightarrow> bool" where
  "common_host h \<longleftrightarrow> to_lower h \<in> {''localhost'', ''example.com'', ''example.org'', ''example.net''}"

definition learned_hosts :: "process_info \<Rightarrow> string list" where
  "learned_hosts p = map to_lower (filter (\<lambda>h. \<not> common_host h)
     (map (\<lambda>(_, c). cap_text 1 c) (rx_find_all endpoint_candidate_rx (pi_cmd p))))"

section \<open>The tree\<close>

lemma pid_with_role [simp]: "pi_pid (with_role self p) = pi_pid p" "pi_cmd (with_role self p) = pi_cmd p"
  by (simp_all add: with_role_def)

text \<open>The queue of the breadth-first walk; the first process of a PID that is met is kept, and the
  processes whose parent it is join the queue.\<close>

function tree_walk :: "int \<Rightarrow> process_info list \<Rightarrow> process_info list \<Rightarrow> process_info list \<Rightarrow> process_info list" where
  "tree_walk self all sel [] = sel"
| "tree_walk self all sel (p # queue) =
     (if pi_pid p \<in> pi_pid ` set sel then tree_walk self all sel queue
      else tree_walk self all (sel @ [with_role self p]) (queue @ filter (\<lambda>q. pi_ppid q = pi_pid p) all))"
  by pat_completeness auto

termination
proof (relation "measures [\<lambda>(self, all, sel, queue). card (pi_pid ` set all \<union> pi_pid ` set queue - pi_pid ` set sel),
    \<lambda>(self, all, sel, queue). length queue]", goal_cases)
  case 1
  then show ?case by simp
next
  case (2 self all sel p queue)
  then have "pi_pid ` set all \<union> pi_pid ` set (p # queue) - pi_pid ` set sel = pi_pid ` set all \<union> pi_pid ` set queue - pi_pid ` set sel"
    by auto
  then show ?case by simp
next
  case (3 self all sel p queue)
  have "pi_pid ` set all \<union> pi_pid ` set (queue @ filter (\<lambda>q. pi_ppid q = pi_pid p) all) - pi_pid ` set (sel @ [with_role self p])
      \<subset> pi_pid ` set all \<union> pi_pid ` set (p # queue) - pi_pid ` set sel"
    using 3 by auto
  then show ?case by (simp only: in_measures prod.case) (meson finite_Diff finite_UnI finite_imageI finite_set psubset_card_mono)
qed

definition build_tree :: "int \<Rightarrow> process_info list \<Rightarrow> process_tree" where
  "build_tree self all =
     (let roots = filter (is_antigravity_root self) all;
          sel = tree_walk self all [] roots
      in \<lparr>pt_processes = sort_key pi_pid sel, pt_unknown = sort_key pi_pid (filter (\<lambda>p. \<not> pi_known p) sel),
          pt_roots = sort (map pi_pid roots), pt_complete = True,
          pt_detail = (if sel \<noteq> [] then ''live Antigravity process tree inventoried'' else ''no running Antigravity process tree found''),
          pt_learned = sorted_keys (concat (map learned_hosts sel))\<rparr>)"

section \<open>The processes of the host\<close>

text \<open>The value of \<^verbatim>\<open>strconv.Atoi\<close> when its error is ignored: zero, or the limit of the range.\<close>

definition atoi_value :: "string \<Rightarrow> int" where
  "atoi_value s =
     (case atoi s of
        Some v \<Rightarrow> v
      | None \<Rightarrow> (case s of
            [] \<Rightarrow> 0
          | c # r \<Rightarrow> if atoi_digits (if c = CHR ''-'' \<or> c = CHR ''+'' then r else s) = None then 0
              else if c = CHR ''-'' then min_int64 else max_int64))"

fun status_lines :: "string list \<Rightarrow> process_info \<Rightarrow> process_info" where
  "status_lines [] p = p"
| "status_lines (l # ls) p = status_lines ls
     (if has_prefix l ''Name:'' then p\<lparr>pi_name := trim_space (trim_prefix l ''Name:'')\<rparr>
      else if has_prefix l ''PPid:'' then p\<lparr>pi_ppid := atoi_value (trim_space (trim_prefix l ''PPid:''))\<rparr>
      else p)"

definition read_linux_process :: "'k machine \<Rightarrow> int \<Rightarrow> 'k world \<Rightarrow> process_info res \<times> 'k world" where
  "read_linux_process m pid w =
     (let base = path_join ''/proc'' (itoa pid) in
      case observe m (\<lambda>k. m_host_file m k (path_join base ''status'')) w of
        (Inl e, w1) \<Rightarrow> (Inl e, w1)
      | (Inr text, w1) \<Rightarrow>
          (let (ls, long) = scan_lines text; p = status_lines ls (new_process pid) in
           if long then (Inl too_long, w1)
           else if pi_name p = [] then (Inl (new_err (''pid '' @ itoa pid @ '' has no Name in status'')), w1)
           else (let (exe, w2) = observe m (\<lambda>k. m_readlink m k (path_join base ''exe'')) w1;
                     (raw, w3) = observe m (\<lambda>k. m_host_file m k (path_join base ''cmdline'')) w2;
                     p1 = (case exe of Inl _ \<Rightarrow> p | Inr x \<Rightarrow> p\<lparr>pi_exe := x\<rparr>);
                     p2 = (case raw of Inl _ \<Rightarrow> p1
                           | Inr s \<Rightarrow> p1\<lparr>pi_cmd := str_join (filter (\<lambda>part. part \<noteq> []) (split_char (char_of (0::nat)) s)) '' ''\<rparr>)
                 in (Inr p2, w3))))"

fun read_linux_processes :: "'k machine \<Rightarrow> string list \<Rightarrow> 'k world \<Rightarrow> process_info list \<times> 'k world" where
  "read_linux_processes m [] w = ([], w)"
| "read_linux_processes m (n # ns) w =
     (case observe m (\<lambda>k. m_host_lstat m k (path_join ''/proc'' n)) w of
        (Inl _, w1) \<Rightarrow> read_linux_processes m ns w1
      | (Inr st, w1) \<Rightarrow>
          (if \<not> hs_dir st then read_linux_processes m ns w1
           else (case atoi n of
               None \<Rightarrow> read_linux_processes m ns w1
             | Some pid \<Rightarrow>
                 (if pid \<le> 0 then read_linux_processes m ns w1
                  else (let (r, w2) = read_linux_process m pid w1; (ps, w3) = read_linux_processes m ns w2
                        in (case r of Inl _ \<Rightarrow> (ps, w3) | Inr p \<Rightarrow> (p # ps, w3)))))))"

definition list_linux_processes :: "'k machine \<Rightarrow> 'k world \<Rightarrow> process_info list res \<times> 'k world" where
  "list_linux_processes m w =
     (case observe m (\<lambda>k. m_read_dir m k ''/proc'') w of
        (Inl e, w1) \<Rightarrow> (Inl e, w1)
      | (Inr names, w1) \<Rightarrow> (let (ps, w2) = read_linux_processes m names w1 in (Inr ps, w2)))"

record windows_process =
  wp_pid :: int
  wp_ppid :: int
  wp_name :: string
  wp_exe :: "string option"
  wp_cmd :: "string option"

definition windows_process_fields :: "(string \<times> windows_process decoder) list" where
  "windows_process_fields =
     [dec_field ''ProcessId'' dec_int wp_pid (\<lambda>v a. a\<lparr>wp_pid := v\<rparr>),
      dec_field ''ParentProcessId'' dec_int wp_ppid (\<lambda>v a. a\<lparr>wp_ppid := v\<rparr>),
      dec_field ''Name'' dec_string wp_name (\<lambda>v a. a\<lparr>wp_name := v\<rparr>),
      dec_field ''ExecutablePath'' (dec_ptr [] dec_string) wp_exe (\<lambda>v a. a\<lparr>wp_exe := v\<rparr>),
      dec_field ''CommandLine'' (dec_ptr [] dec_string) wp_cmd (\<lambda>v a. a\<lparr>wp_cmd := v\<rparr>)]"

definition zero_windows_process :: windows_process where
  "zero_windows_process = \<lparr>wp_pid = 0, wp_ppid = 0, wp_name = [], wp_exe = None, wp_cmd = None\<rparr>"

definition windows_script :: string where
  "windows_script = ''$p = Get-CimInstance Win32_Process | Select-Object ProcessId,ParentProcessId,Name,ExecutablePath,CommandLine; ConvertTo-Json -Compress -Depth 3 -InputObject @($p)''"

definition from_windows :: "windows_process \<Rightarrow> process_info" where
  "from_windows p = (new_process (wp_pid p))\<lparr>pi_ppid := wp_ppid p, pi_name := wp_name p,
     pi_exe := (case wp_exe p of None \<Rightarrow> [] | Some x \<Rightarrow> x), pi_cmd := (case wp_cmd p of None \<Rightarrow> [] | Some x \<Rightarrow> x)\<rparr>"

definition find_shell :: "'k machine \<Rightarrow> 'k world \<Rightarrow> string option \<times> 'k world" where
  "find_shell m w =
     (case look_path m ''powershell.exe'' w of
        (Some _, w1) \<Rightarrow> (Some ''powershell.exe'', w1)
      | (None, w1) \<Rightarrow> (case look_path m ''pwsh.exe'' w1 of
            (Some _, w2) \<Rightarrow> (Some ''pwsh.exe'', w2)
          | (None, w2) \<Rightarrow> (None, w2)))"

definition decode_inventory_err :: gerr where
  "decode_inventory_err = new_err ''decode Win32_Process inventory: invalid JSON''"

definition list_windows_processes :: "'k machine \<Rightarrow> 'k world \<Rightarrow> process_info list res \<times> 'k world" where
  "list_windows_processes m w =
     (case find_shell m w of
        (None, w1) \<Rightarrow> (Inl (new_err ''neither powershell.exe nor pwsh.exe is available''), w1)
      | (Some shell, w1) \<Rightarrow>
          (case exec_cmd m [shell, ''-NoProfile'', ''-NonInteractive'', ''-Command'', windows_script] w1 of
             ((out, Some e), w2) \<Rightarrow> (Inl (wrap_out ''Win32_Process inventory: '' e out), w2)
           | ((out, None), w2) \<Rightarrow>
               (case unmarshal (dec_list zero_windows_process (dec_struct windows_process_fields)) out [] of
                  (raw, ok) \<Rightarrow> if \<not> ok then (Inl decode_inventory_err, w2) else (Inr (map from_windows raw), w2))))"

definition discover_process_tree :: "platform \<Rightarrow> 'k machine \<Rightarrow> 'k world \<Rightarrow> process_tree \<times> 'k world" where
  "discover_process_tree pf m w =
     (case (if pf = Windows then list_windows_processes m w else list_linux_processes m w) of
        (Inl e, w1) \<Rightarrow> (\<lparr>pt_processes = [], pt_unknown = [], pt_roots = [], pt_complete = False, pt_detail = err_text e, pt_learned = []\<rparr>, w1)
      | (Inr all, w1) \<Rightarrow> (build_tree (m_getpid m) all, w1))"

section \<open>Lemmas\<close>

text \<open>What the tree should hold: the PIDs of the roots and of all processes below them.\<close>

inductive descends :: "process_info list \<Rightarrow> process_info list \<Rightarrow> int \<Rightarrow> bool" for roots all where
  root: "p \<in> set roots \<Longrightarrow> descends roots all (pi_pid p)"
| child: "descends roots all pid \<Longrightarrow> q \<in> set all \<Longrightarrow> pi_ppid q = pid \<Longrightarrow> descends roots all (pi_pid q)"

lemma walk_sound:
  "(\<And>p. p \<in> set sel \<union> set queue \<Longrightarrow> descends roots all (pi_pid p)) \<Longrightarrow> p \<in> set (tree_walk self all sel queue) \<Longrightarrow> descends roots all (pi_pid p)"
proof (induction self all sel queue rule: tree_walk.induct)
  case (2 self all sel q queue)
  show ?case
  proof (cases "pi_pid q \<in> pi_pid ` set sel")
    case True
    show ?thesis by (rule "2.IH"(1) [OF True]) (use "2.prems" True in auto)
  next
    case False
    have "descends roots all (pi_pid q)" using "2.prems"(1) by simp
    then have "descends roots all (pi_pid x)" if "x \<in> set (sel @ [with_role self q]) \<union> set (queue @ filter (\<lambda>x. pi_ppid x = pi_pid q) all)" for x
      using that "2.prems"(1) descends.child [OF \<open>descends roots all (pi_pid q)\<close>] by auto
    then show ?thesis using "2.IH"(2) [OF False] "2.prems"(2) False by simp
  qed
qed simp

definition walk_open :: "process_info list \<Rightarrow> process_info list \<Rightarrow> process_info list \<Rightarrow> bool" where
  "walk_open all sel queue \<longleftrightarrow>
     (\<forall>p\<in>set sel. \<forall>q\<in>set all. pi_ppid q = pi_pid p \<longrightarrow> pi_pid q \<in> pi_pid ` set sel \<union> pi_pid ` set queue)"

lemma walk_closed:
  "walk_open all sel queue \<Longrightarrow> walk_open all (tree_walk self all sel queue) [] \<and>
     pi_pid ` set sel \<union> pi_pid ` set queue \<subseteq> pi_pid ` set (tree_walk self all sel queue)"
proof (induction self all sel queue rule: tree_walk.induct)
  case (2 self all sel p queue)
  show ?case
  proof (cases "pi_pid p \<in> pi_pid ` set sel")
    case True
    then have "pi_pid ` set (p # queue) \<union> pi_pid ` set sel = pi_pid ` set queue \<union> pi_pid ` set sel" by auto
    then have "walk_open all sel queue" using "2.prems" unfolding walk_open_def by (metis Un_commute)
    then show ?thesis using "2.IH"(1) [OF True] True by auto
  next
    case False
    have "walk_open all (sel @ [with_role self p]) (queue @ filter (\<lambda>q. pi_ppid q = pi_pid p) all)"
      using "2.prems" by (auto simp: walk_open_def)
    then show ?thesis using "2.IH"(2) [OF False] False by auto
  qed
qed simp

lemma walk_distinct: "distinct (map pi_pid sel) \<Longrightarrow> distinct (map pi_pid (tree_walk self all sel queue))"
  by (induction self all sel queue rule: tree_walk.induct) auto

lemma walk_from: "p \<in> set (tree_walk self all sel queue) \<Longrightarrow> p \<in> set sel \<or> p \<in> with_role self ` (set queue \<union> set all)"
proof (induction self all sel queue rule: tree_walk.induct)
  case (2 self all sel q queue)
  show ?case
    by (cases "pi_pid q \<in> pi_pid ` set sel") (use 2 in auto)
qed simp

lemma walk_descends:
  "pi_pid ` set (tree_walk self all [] roots) = {pid. descends roots all pid}"
proof
  show "pi_pid ` set (tree_walk self all [] roots) \<subseteq> {pid. descends roots all pid}"
    using walk_sound [of "[]" roots roots all] descends.root by auto
  have c: "walk_open all (tree_walk self all [] roots) []" "pi_pid ` set roots \<subseteq> pi_pid ` set (tree_walk self all [] roots)"
    using walk_closed [of all "[]" roots self] by (auto simp: walk_open_def)
  have "descends roots all pid \<Longrightarrow> pid \<in> pi_pid ` set (tree_walk self all [] roots)" for pid
  proof (induction rule: descends.induct)
    case (child pid q)
    then show ?case using c(1) by (auto simp: walk_open_def)
  qed (use c(2) in auto)
  then show "{pid. descends roots all pid} \<subseteq> pi_pid ` set (tree_walk self all [] roots)" by blast
qed

section \<open>Properties\<close>

text \<open>C30: the inventory is complete and exact.  It lists the processes that are a root or descend from
  one, each PID once and in order, with the role its data give it; a descendant that no rule
  recognises is among the unknown helpers, and only such.\<close>

theorem process_tree_exact:
  "let t = build_tree self all; roots = filter (is_antigravity_root self) all in
     pi_pid ` set (pt_processes t) = {pid. descends roots all pid} \<and>
     sorted (map pi_pid (pt_processes t)) \<and> distinct (map pi_pid (pt_processes t)) \<and>
     set (pt_processes t) \<subseteq> with_role self ` set all \<and>
     set (pt_unknown t) = {p \<in> set (pt_processes t). \<not> snd (classify_process self p)} \<and>
     set (pt_roots t) = pi_pid ` {p \<in> set all. is_antigravity_root self p} \<and>
     set (pt_learned t) = (\<Union>p\<in>set (pt_processes t). set (learned_hosts p))"
proof -
  let ?r = "filter (is_antigravity_root self) all"
  let ?s = "tree_walk self all [] ?r"
  have from_all: "p \<in> with_role self ` set all" if "p \<in> set ?s" for p
    using walk_from [OF that] by auto
  have k: "pi_known p = snd (classify_process self p)" if "p \<in> set ?s" for p
  proof -
    have "p \<in> with_role self ` set all" by (rule from_all [OF that])
    then obtain q where q: "p = with_role self q" by blast
    show ?thesis unfolding q by (simp add: with_role_def classify_process_def is_own_pid_def Let_def)
  qed
  have d: "distinct (map pi_pid (sort_key pi_pid ?s))"
    using walk_distinct [of "[]" self all ?r] by (simp add: distinct_map)
  show ?thesis using walk_descends [of self all ?r] from_all k d by (auto simp: build_tree_def Let_def)
qed

end
