(* ===== verification/Assurance.thy ===== *)
theory Assurance imports Egress Processes begin

text \<open>
  The composed assurance report (\<^verbatim>\<open>app/attestation.go\<close>) and the cache of its external evidence
  (\<^verbatim>\<open>app/attestation_cache.go\<close>).  The lemmas show what a verified state would need, that no run of the
  program reaches it, and how old and of which data plane cached evidence can be.
\<close>

section \<open>The cache\<close>

record egress_cache =
  ec_key :: string
  ec_value :: egress_attestation
  ec_until :: int
  ec_set :: bool

definition zero_egress :: egress_attestation where
  "zero_egress = (blank_egress zero_time [])\<lparr>ea_relation := []\<rparr>"

definition empty_cache :: egress_cache where
  "empty_cache = \<lparr>ec_key = [], ec_value = zero_egress, ec_until = time_nanos zero_time, ec_set = False\<rparr>"

text \<open>Fifteen seconds after an available observation, three after another.\<close>

definition success_ttl :: int where "success_ttl = 15000000000"
definition failure_ttl :: int where "failure_ttl = 3000000000"

definition evidence_ttl :: "egress_attestation \<Rightarrow> int" where
  "evidence_ttl v = (if ea_available v then success_ttl else failure_ttl)"

definition cache_lookup :: "string \<Rightarrow> int \<Rightarrow> egress_cache \<Rightarrow> (egress_attestation \<times> int) option" where
  "cache_lookup key t c = (if \<not> ec_set c \<or> ec_key c \<noteq> key \<or> \<not> t < ec_until c then None else Some (ec_value c, ec_until c))"

definition cache_store :: "string \<Rightarrow> egress_attestation \<Rightarrow> int \<Rightarrow> egress_cache \<Rightarrow> egress_cache" where
  "cache_store key v t c = \<lparr>ec_key = key, ec_value = v, ec_until = t + evidence_ttl v, ec_set = True\<rparr>"

definition cache_clear :: "egress_cache \<Rightarrow> egress_cache" where
  "cache_clear c = empty_cache"

definition evidence_key :: "int \<Rightarrow> string \<Rightarrow> string" where
  "evidence_key pid vpn = ''pid='' @ itoa pid @ ''|vpn='' @ vpn"

definition cached_public_egress ::
  "platform \<Rightarrow> 'k machine \<Rightarrow> egress_cache \<Rightarrow> manager \<Rightarrow> 'k world \<Rightarrow> (egress_attestation \<times> int \<times> bool) \<times> egress_cache \<times> manager \<times> 'k world" where
  "cached_public_egress pf m c g w =
     (let (pid, g1, w1) = managed_pid m g w; key = evidence_key pid (cf_vpn (mg_cfg g)); (t, w2) = now m w1 in
      case cache_lookup key (t_nanos t) c of
        Some (v, until) \<Rightarrow> ((v, until, True), c, g1, w2)
      | None \<Rightarrow>
          (let (v, g2, w3) = attest_public_egress pf m g1 w2; (t2, w4) = now m w3; c1 = cache_store key v (t_nanos t2) c
           in ((v, ec_until c1, False), c1, g2, w4)))"

section \<open>The report\<close>

datatype assurance = As_idle | As_partial | As_verified | As_degraded
datatype isolation = Iso_inactive | Iso_strict | Iso_relaxed

record attestation_report =
  ar_state :: assurance
  ar_isolation :: isolation
  ar_isolation_detail :: string
  ar_fallback :: bool
  ar_observed_at :: string
  ar_tree :: process_tree
  ar_route :: route_attestation
  ar_pid_route :: pid_attestation
  ar_egress :: egress_attestation
  ar_cached :: bool
  ar_fresh_until :: "int option"
  ar_detail :: string

definition zero_tree :: process_tree where
  "zero_tree = \<lparr>pt_processes = [], pt_unknown = [], pt_roots = [], pt_complete = False, pt_detail = [], pt_learned = []\<rparr>"

definition zero_pid_route :: pid_attestation where
  "zero_pid_route = \<lparr>pa_available = False, pa_observed_at = zero_time, pa_candidates = [], pa_connections = [], pa_active = [],
     pa_vpn_direct = [], pa_unexpected = [], pa_ambiguous = 0, pa_unresolved = [], pa_detail = []\<rparr>"

text \<open>A new report holds the zero values of its parts; the first state is not yet a state of the
  program.\<close>

definition new_report :: "string \<Rightarrow> attestation_report" where
  "new_report t = \<lparr>ar_state = As_idle, ar_isolation = Iso_inactive, ar_isolation_detail = [], ar_fallback = False, ar_observed_at = t,
     ar_tree = zero_tree, ar_route = unobserved zero_time, ar_pid_route = zero_pid_route, ar_egress = zero_egress, ar_cached = False,
     ar_fresh_until = None, ar_detail = []\<rparr>"

definition classify_isolation :: "bool \<Rightarrow> bool \<Rightarrow> isolation \<times> string" where
  "classify_isolation active fallback =
     (if \<not> active then (Iso_inactive, ''Agent Tunnel is inactive; no TUN process-isolation policy is applied'')
      else if fallback then (Iso_relaxed, ''domain fallback is enabled: target Google domains may use vpn-direct even when process identity is not attributed'')
      else (Iso_strict, ''domain fallback is disabled: vpn-direct selection is restricted to explicit process/path policy and local-mixed traffic''))"

definition classify_network :: "bool \<Rightarrow> attestation_report \<Rightarrow> assurance \<times> string" where
  "classify_network active r =
     (let pt = ar_tree r; rt = ar_route r; pr = ar_pid_route r; eg = ar_egress r in
      if \<not> active then (As_idle, ''Agent Tunnel is not active'')
      else if \<not> pt_complete pt then (As_degraded, ''Antigravity process-tree inventory is incomplete: '' @ pt_detail pt)
      else if pt_unknown pt \<noteq> []
      then (As_degraded, itoa (int (length (pt_unknown pt))) @ '' unknown Antigravity descendant(s) require explicit review'')
      else if pt_learned pt \<noteq> []
      then (As_degraded, itoa (int (length (pt_learned pt))) @ '' backend endpoint candidate(s) require reviewed routing policy'')
      else if at_available rt \<and> at_unexpected rt > 0 then (As_degraded, at_detail rt)
      else if pa_available pr \<and> pa_unexpected pr \<noteq> [] then (As_degraded, pa_detail pr)
      else if pa_available pr \<and> (pa_ambiguous pr > 0 \<or> pa_unresolved pr \<noteq> []) then (As_degraded, pa_detail pr)
      else if pt_processes pt = []
      then (As_partial, ''Agent Tunnel is active, but no running Antigravity process tree is available to attest'')
      else if \<not> at_available rt \<or> \<not> pa_available pr
      then (As_partial, ''Agent Tunnel is active, but live route/PID evidence is not currently available'')
      else if pa_active pr = []
      then (As_partial, ''Antigravity processes are present but currently have no attributable live network connection'')
      else if length (pa_vpn_direct pr) \<noteq> length (pa_active pr)
      then (As_degraded, ''not every active attributable Antigravity PID is proven on vpn-direct'')
      else if \<not> ea_available eg
      then (As_partial, ''PID and route evidence is healthy, but external egress observation is unavailable'')
      else if \<not> ea_complete eg
      then (As_partial, ''external egress is observed, but independent IPv4/IPv6 TCP/UDP/QUIC coverage is incomplete'')
      else (As_verified, itoa (int (length (pa_active pr))) @ '' active Antigravity PID(s) are exactly attributed to vpn-direct and external VPN egress is observable''))"

definition egress_part ::
  "platform \<Rightarrow> 'k machine \<Rightarrow> egress_cache \<Rightarrow> attestation_report \<Rightarrow> manager \<Rightarrow> 'k world \<Rightarrow> attestation_report \<times> egress_cache \<times> manager \<times> 'k world" where
  "egress_part pf m c r g w =
     (if pa_active (ar_pid_route r) \<noteq> []
      then (case cached_public_egress pf m c g w of ((v, until, cached), c1, g1, w1) \<Rightarrow>
        (r\<lparr>ar_egress := v, ar_cached := cached,
           ar_fresh_until := (if until = time_nanos zero_time then None else Some until)\<rparr>, c1, g1, w1))
      else (r\<lparr>ar_egress := (ar_egress r)\<lparr>ea_detail := ''external egress not probed because no attributable live Antigravity connection is active''\<rparr>\<rparr>, c, g, w))"

definition conclude_report :: "attestation_report \<Rightarrow> attestation_report" where
  "conclude_report r =
     (let (s, d) = classify_network True r in
      r\<lparr>ar_state := s, ar_detail := d @ (if s = As_verified \<and> ar_isolation r = Iso_relaxed
        then ''; Antigravity egress is verified, but domain fallback relaxes unrelated-process isolation for target Google domains'' else [])\<rparr>)"

definition network_attestation ::
  "platform \<Rightarrow> 'k machine \<Rightarrow> settings \<Rightarrow> netstat_cache \<Rightarrow> egress_cache \<Rightarrow> manager \<Rightarrow> 'k world \<Rightarrow>
     attestation_report \<times> netstat_cache \<times> egress_cache \<times> manager \<times> 'k world" where
  "network_attestation pf m st nc c g w =
     (let (t, w1) = now m w; r = new_report (t_rfc t);
          (md, g1, w2) = mode_now m g w1;
          (active, g2, w3) = (if md = Mode_tunnel then agent_tunnel_active pf m g1 w2 else (False, g1, w2))
      in if \<not> active
         then (r\<lparr>ar_isolation := fst (classify_isolation False False), ar_isolation_detail := snd (classify_isolation False False),
                 ar_state := fst (classify_network False r), ar_detail := snd (classify_network False r)\<rparr>, nc, c, g2, w3)
      else
     (let (tree, w4) = discover_process_tree pf m w3;
          pids = filter (\<lambda>p. p > 0) (map pi_pid (pt_processes tree));
          (route, g3, w5) = attest_agent_routes pf m g2 w4;
          (pids_route, nc1, g4, w6) = attest_agent_pid_routes pf m nc pids g3 w5;
          r1 = r\<lparr>ar_fallback := st_fallback st, ar_isolation := fst (classify_isolation True (st_fallback st)),
                 ar_isolation_detail := snd (classify_isolation True (st_fallback st)),
                 ar_tree := tree, ar_route := route, ar_pid_route := pids_route\<rparr>;
          (r2, c1, g5, w7) = egress_part pf m c r1 g4 w6
      in (conclude_report r2, nc1, c1, g5, w7)))"

section \<open>Lemmas\<close>

datatype cache_op = Store string egress_attestation int | Clear

fun cache_step :: "cache_op \<Rightarrow> egress_cache \<Rightarrow> egress_cache" where
  "cache_step (Store k v t) c = cache_store k v t c"
| "cache_step Clear c = cache_clear c"

lemma nat_digits_digit: "c \<in> set (nat_digits n) \<Longrightarrow> digit_of c \<noteq> None"
  by (metis nat_digits_shape digit_of_digit_char option.distinct(1))

lemma itoa_no_bar: "CHR ''|'' \<notin> set (itoa i)"
proof -
  have "digit_of (CHR ''|'') = None" by code_simp
  then have "CHR ''|'' \<notin> set (nat_digits n)" for n using nat_digits_digit by fastforce
  then show ?thesis by (simp add: itoa_def)
qed

lemma itoa_inj: "itoa i = itoa j \<Longrightarrow> i = j"
proof -
  assume e: "itoa i = itoa j"
  have neg: "CHR ''-'' # nat_digits a \<noteq> nat_digits b" for a b
    using nat_digits_no_sign [of "CHR ''-''" b] by (metis list.set_intros(1))
  have inj: "nat_digits a = nat_digits b \<longleftrightarrow> a = b" for a b by (metis digits_val_nat_digits option.inject)
  then show "i = j" using e neg by (auto simp: itoa_def inj eq_commute [of "nat_digits _" "_ # _"] split: if_splits)
qed

lemma evidence_key_inj: "evidence_key p v = evidence_key p' v' \<longleftrightarrow> p = p' \<and> v = v'"
proof
  assume "evidence_key p v = evidence_key p' v'"
  then have e: "itoa p @ CHR ''|'' # ''vpn='' @ v = itoa p' @ CHR ''|'' # ''vpn='' @ v'" by (simp add: evidence_key_def)
  then have "takeWhile (\<lambda>c. c \<noteq> CHR ''|'') (itoa p @ CHR ''|'' # ''vpn='' @ v) = takeWhile (\<lambda>c. c \<noteq> CHR ''|'') (itoa p' @ CHR ''|'' # ''vpn='' @ v')"
    by simp
  moreover have "takeWhile (\<lambda>c. c \<noteq> CHR ''|'') (itoa i @ CHR ''|'' # x) = itoa i" for i x
    using itoa_no_bar [of i] by (subst takeWhile_append2) auto
  ultimately have i: "itoa p = itoa p'" by (simp only:)
  then have "v = v'" using e by simp
  then show "p = p' \<and> v = v'" using itoa_inj [OF i] by simp
qed simp

lemma fold_ops: "fold cache_step (ops @ [x]) c = cache_step x (fold cache_step ops c)"
  by simp

definition cache_sound :: "egress_cache \<Rightarrow> bool" where
  "cache_sound c \<longleftrightarrow> \<not> ea_complete (ec_value c)"

lemma cached_egress_incomplete:
  assumes "cached_public_egress pf m c g w = ((v, until, cached), c', g', w')" "cache_sound c"
  shows "\<not> ea_complete v \<and> cache_sound c'"
proof -
  obtain pid g1 w1 where p: "managed_pid m g w = (pid, g1, w1)" by (metis prod_cases3)
  obtain t w2 where t: "now m w1 = (t, w2)" by fastforce
  obtain v2 g2 w3 where v: "attest_public_egress pf m g1 w2 = (v2, g2, w3)" by (metis prod_cases3)
  have i: "\<not> ea_complete v2" using egress_incomplete v by (metis attest_public_egress_def)
  show ?thesis
    using assms i by (auto simp: cached_public_egress_def p t v cache_lookup_def cache_sound_def cache_store_def Let_def split: if_splits prod.splits option.splits)
qed

lemma classify_verified:
  "fst (classify_network True r) = As_verified \<longleftrightarrow>
     pt_complete (ar_tree r) \<and> pt_unknown (ar_tree r) = [] \<and> pt_learned (ar_tree r) = [] \<and> pt_processes (ar_tree r) \<noteq> [] \<and>
     at_available (ar_route r) \<and> at_unexpected (ar_route r) \<le> 0 \<and>
     pa_available (ar_pid_route r) \<and> pa_unexpected (ar_pid_route r) = [] \<and> pa_ambiguous (ar_pid_route r) \<le> 0 \<and>
     pa_unresolved (ar_pid_route r) = [] \<and> pa_active (ar_pid_route r) \<noteq> [] \<and>
     length (pa_vpn_direct (ar_pid_route r)) = length (pa_active (ar_pid_route r)) \<and>
     ea_available (ar_egress r) \<and> ea_complete (ar_egress r)"
  by (auto simp: classify_network_def Let_def)

lemma egress_part_incomplete:
  assumes "egress_part pf m c r g w = (r', c', g', w')" "cache_sound c" "\<not> ea_complete (ar_egress r)"
  shows "\<not> ea_complete (ar_egress r') \<and> cache_sound c'"
  using assms cached_egress_incomplete by (fastforce simp: egress_part_def split: if_splits prod.splits)

section \<open>Properties\<close>

text \<open>What a verified state would need.  The classification says verified exactly for a
  complete tree without unknown helpers and without unreviewed end points, available route and PID
  evidence with at least one active process, nothing unexpected, ambiguous or unresolved, as many
  processes on the VPN as active ones, and available and complete external evidence; without an active
  tunnel it says idle, and idle only then.\<close>

theorem assurance_evidence:
  "(fst (classify_network active r) = As_verified \<longleftrightarrow> active \<and>
     pt_complete (ar_tree r) \<and> pt_unknown (ar_tree r) = [] \<and> pt_learned (ar_tree r) = [] \<and> pt_processes (ar_tree r) \<noteq> [] \<and>
     at_available (ar_route r) \<and> at_unexpected (ar_route r) \<le> 0 \<and>
     pa_available (ar_pid_route r) \<and> pa_unexpected (ar_pid_route r) = [] \<and> pa_ambiguous (ar_pid_route r) \<le> 0 \<and>
     pa_unresolved (ar_pid_route r) = [] \<and> pa_active (ar_pid_route r) \<noteq> [] \<and>
     length (pa_vpn_direct (ar_pid_route r)) = length (pa_active (ar_pid_route r)) \<and>
     ea_available (ar_egress r) \<and> ea_complete (ar_egress r)) \<and>
   (fst (classify_network active r) = As_idle \<longleftrightarrow> \<not> active)"
proof (cases active)
  case True
  have "fst (classify_network True r) \<noteq> As_idle" by (simp add: classify_network_def Let_def)
  then show ?thesis using True classify_verified [of r] by simp
next
  case False
  then show ?thesis by (simp add: classify_network_def Let_def)
qed



text \<open>Cached evidence is of this data plane and young.  After any sequence of stores and clearings
  of an empty cache, a look-up finds something exactly when the last operation stored it for the same
  managed process and the same VPN interface, fewer than fifteen seconds ago for an available
  observation and fewer than three for another; and it finds just that.\<close>

theorem cached_evidence_fresh:
  "cache_lookup (evidence_key pid vpn) t (fold cache_step ops empty_cache) = Some (v, until) \<longleftrightarrow>
     (\<exists>earlier stored. ops = earlier @ [Store (evidence_key pid vpn) v stored] \<and> until = stored + evidence_ttl v \<and>
        t - stored < (if ea_available v then 15000000000 else 3000000000)) \<and>
     (\<forall>pid' vpn'. evidence_key pid' vpn' = evidence_key pid vpn \<longleftrightarrow> pid' = pid \<and> vpn' = vpn)"
proof -
  have "cache_lookup (evidence_key pid vpn) t (fold cache_step ops empty_cache) = Some (v, until) \<longleftrightarrow>
     (\<exists>earlier stored. ops = earlier @ [Store (evidence_key pid vpn) v stored] \<and> until = stored + evidence_ttl v \<and> t < until)"
  proof (cases ops rule: rev_cases)
    case Nil
    then show ?thesis by (simp add: cache_lookup_def empty_cache_def)
  next
    case (snoc earlier x)
    then show ?thesis
      by (cases x) (auto simp: cache_lookup_def cache_store_def cache_clear_def empty_cache_def)
  qed
  then show ?thesis unfolding evidence_key_inj evidence_ttl_def success_ttl_def failure_ttl_def by auto
qed

end
