(* ===== verification/Diagnostics.thy ===== *)
theory Diagnostics imports Tunnel Egress Go_Regexp "HOL-Library.Product_Lexorder" begin

text \<open>
  Interfaces of the host (\<^verbatim>\<open>platform.Interfaces\<close>), the comparison of the system's names with two DNS
  observers (\<^verbatim>\<open>diagnostics/diagnostics.go\<close>) and the redaction of exported text
  (\<^verbatim>\<open>diagnostics/redact.go\<close>).  The look-ups of one collection run concurrently in the code; here they run
  in the order in which the code starts them, while the machine may drift between any two.  The lemmas
  show to whom the trusted look-up speaks and what it returns, and what redaction leaves alone.
\<close>

section \<open>Interfaces\<close>

record host_interface =
  it_name :: string
  it_index :: int
  it_flags :: "string list"
  it_addrs :: "string list"
  it_vpn :: bool

text \<open>Unlike the preflight, this guess does not know the prefix \<^verbatim>\<open>amn\<close>.\<close>

definition likely_vpn :: "string \<Rightarrow> bool" where
  "likely_vpn name \<longleftrightarrow>
     (let n = to_lower name in
      str_contains n ''amnezia'' \<or> str_contains n ''vpn'' \<or> str_contains n ''wireguard'' \<or> has_prefix n ''wg'' \<or>
      has_prefix n ''tun'' \<or> str_contains n ''wintun'' \<or> str_contains n ''tailscale'' \<or> str_contains n ''outline'')"

definition flag_texts :: "net_iface \<Rightarrow> string list" where
  "flag_texts i = (if ni_up i then [''up''] else []) @ (if ni_loopback i then [''loopback''] else []) @
     (if ni_p2p i then [''point-to-point''] else []) @ (if ni_multicast i then [''multicast''] else [])"

definition host_interface_of :: "net_iface \<Rightarrow> host_interface" where
  "host_interface_of i = \<lparr>it_name = ni_name i, it_index = ni_index i, it_flags = flag_texts i, it_addrs = ni_addrs i, it_vpn = likely_vpn (ni_name i)\<rparr>"

definition list_interfaces :: "'k machine \<Rightarrow> 'k world \<Rightarrow> host_interface list res \<times> 'k world" where
  "list_interfaces m w =
     (case observe m (m_net_ifaces m) w of
        (Inl e, w1) \<Rightarrow> (Inl e, w1)
      | (Inr is, w1) \<Rightarrow> (Inr (sort_key (\<lambda>i. (\<not> it_vpn i, it_name i)) (map host_interface_of is)), w1))"

section \<open>Looking names up\<close>

fun dedupe_from :: "string \<Rightarrow> string list \<Rightarrow> string list" where
  "dedupe_from v [] = []"
| "dedupe_from v (x # xs) = (if x \<noteq> v then x # dedupe_from x xs else dedupe_from v xs)"

fun dedupe :: "string list \<Rightarrow> string list" where
  "dedupe [] = []"
| "dedupe (x # xs) = x # dedupe_from x xs"

definition lookup_ip :: "'k machine \<Rightarrow> string \<Rightarrow> string \<Rightarrow> 'k world \<Rightarrow> string list \<times> 'k world" where
  "lookup_ip m network domain w =
     (case observe m (\<lambda>k. m_lookup_ip m k network domain) w of
        (Inl _, w1) \<Rightarrow> ([], w1)
      | (Inr ips, w1) \<Rightarrow> (dedupe (sort (map ip_text ips)), w1))"

definition system_a :: "'k machine \<Rightarrow> string \<Rightarrow> 'k world \<Rightarrow> string list \<times> 'k world" where
  "system_a m domain = lookup_ip m ''ip4'' domain"

definition system_aaaa :: "'k machine \<Rightarrow> string \<Rightarrow> 'k world \<Rightarrow> string list \<times> 'k world" where
  "system_aaaa m domain = lookup_ip m ''ip6'' domain"

definition answer_fields :: "(string \<times> (int \<times> string) decoder) list" where
  "answer_fields = [dec_field ''type'' dec_int fst (\<lambda>v a. (v, snd a)), dec_field ''data'' dec_string snd (\<lambda>v a. (fst a, v))]"

definition doh_fields :: "(string \<times> (int \<times> string) list decoder) list" where
  "doh_fields = [dec_field ''Answer'' (dec_list (0, []) (dec_struct answer_fields)) (\<lambda>r. r) (\<lambda>v _. v)]"

text \<open>\<^verbatim>\<open>url.QueryEscape\<close>.\<close>

definition query_escape :: "string \<Rightarrow> string" where
  "query_escape s =
     concat (map (\<lambda>c. if word_char c \<or> c \<in> set ''-.~'' then [c] else if c = CHR '' '' then ''+'' else percent_byte c) s)"

definition doh_request :: "string \<Rightarrow> string \<Rightarrow> string \<Rightarrow> string \<Rightarrow> http_request" where
  "doh_request host pinned domain qtype =
     \<lparr>hq_proxy = None, hq_dial = Some pinned, hq_method = ''GET'',
      hq_url = ''https://'' @ host @ ''/dns-query?name='' @ query_escape domain @ ''&type='' @ qtype\<rparr>"

definition doh_answers :: "int \<Rightarrow> string \<Rightarrow> string list" where
  "doh_answers atype body =
     (case parse_stream body of
        None \<Rightarrow> []
      | Some j \<Rightarrow>
          (case dec_struct doh_fields j [] of (as, ok) \<Rightarrow>
             if ok then dedupe (sort (map snd (filter (\<lambda>a. fst a = atype \<and> parse_ip (snd a) \<noteq> None) as))) else []))"

definition doh_type :: "'k machine \<Rightarrow> string \<Rightarrow> string \<Rightarrow> string \<Rightarrow> string \<Rightarrow> int \<Rightarrow> 'k world \<Rightarrow> string list \<times> 'k world" where
  "doh_type m host pinned domain qtype atype w =
     (case http_do m (doh_request host pinned domain qtype) w of
        (Inl _, w1) \<Rightarrow> ([], w1)
      | (Inr a, w1) \<Rightarrow> (if hr_code a \<noteq> 200 then [] else doh_answers atype (hr_body a), w1))"

definition doh_a :: "'k machine \<Rightarrow> string \<times> string \<Rightarrow> string \<Rightarrow> 'k world \<Rightarrow> string list \<times> 'k world" where
  "doh_a m observer domain = doh_type m (fst observer) (snd observer) domain ''A'' 1"

definition doh_aaaa :: "'k machine \<Rightarrow> string \<times> string \<Rightarrow> string \<Rightarrow> 'k world \<Rightarrow> string list \<times> 'k world" where
  "doh_aaaa m observer domain = doh_type m (fst observer) (snd observer) domain ''AAAA'' 28"

definition cloudflare_doh :: "string \<times> string" where "cloudflare_doh = (''cloudflare-dns.com'', ''1.1.1.1:443'')"
definition google_doh :: "string \<times> string" where "google_doh = (''dns.google'', ''8.8.8.8:443'')"

definition trusted_a :: "'k machine \<Rightarrow> string \<Rightarrow> 'k world \<Rightarrow> string list \<times> 'k world" where
  "trusted_a m domain w =
     (case doh_a m cloudflare_doh domain w of
        (out, w1) \<Rightarrow> if out \<noteq> [] then (out, w1) else doh_a m google_doh domain w1)"

section \<open>The collection\<close>

record dns_comparison =
  dc_domain :: string
  dc_system :: "string list"
  dc_cloudflare :: "string list"
  dc_google :: "string list"
  dc_system6 :: "string list"
  dc_cloudflare6 :: "string list"
  dc_google6 :: "string list"
  dc_suspicious :: bool

record diag_snapshot =
  ds_time :: stamp
  ds_interfaces :: "host_interface list"
  ds_dns :: "dns_comparison list"
  ds_public_ip :: string
  ds_public_geo :: string

definition str_union :: "string list \<Rightarrow> string list \<Rightarrow> string list" where
  "str_union a b = sorted_keys (a @ b)"

text \<open>Nothing calls \<^verbatim>\<open>intersects\<close>: the comparison does not look at the addresses themselves.\<close>

definition intersects :: "string list \<Rightarrow> string list \<Rightarrow> bool" where
  "intersects a b \<longleftrightarrow> list_ex (\<lambda>v. v \<in> set b) a"

definition one_sided :: "string list \<Rightarrow> string list \<Rightarrow> bool" where
  "one_sided sys trusted \<longleftrightarrow> sys \<noteq> [] \<and> trusted = [] \<or> sys = [] \<and> trusted \<noteq> []"

definition compare_dns :: "'k machine \<Rightarrow> string \<Rightarrow> 'k world \<Rightarrow> dns_comparison \<times> 'k world" where
  "compare_dns m d w =
     (let (sys, w1) = system_a m d w; (cf, w2) = doh_a m cloudflare_doh d w1; (gg, w3) = doh_a m google_doh d w2;
          (sys6, w4) = system_aaaa m d w3; (cf6, w5) = doh_aaaa m cloudflare_doh d w4; (gg6, w6) = doh_aaaa m google_doh d w5
      in (\<lparr>dc_domain = d, dc_system = sys, dc_cloudflare = cf, dc_google = gg, dc_system6 = sys6, dc_cloudflare6 = cf6, dc_google6 = gg6,
           dc_suspicious = one_sided sys (str_union cf gg) \<or> one_sided sys6 (str_union cf6 gg6)\<rparr>, w6))"

fun compare_all :: "'k machine \<Rightarrow> string list \<Rightarrow> 'k world \<Rightarrow> dns_comparison list \<times> 'k world" where
  "compare_all m [] w = ([], w)"
| "compare_all m (d # ds) w = (let (c, w1) = compare_dns m d w; (cs, w2) = compare_all m ds w1 in (c # cs, w2))"

record geo =
  ge_ip :: string
  ge_country :: string
  ge_region :: string
  ge_city :: string
  ge_org :: string

definition geo_fields :: "(string \<times> geo decoder) list" where
  "geo_fields =
     [dec_field ''IP'' dec_string ge_ip (\<lambda>v a. a\<lparr>ge_ip := v\<rparr>), dec_field ''Country'' dec_string ge_country (\<lambda>v a. a\<lparr>ge_country := v\<rparr>),
      dec_field ''Region'' dec_string ge_region (\<lambda>v a. a\<lparr>ge_region := v\<rparr>), dec_field ''City'' dec_string ge_city (\<lambda>v a. a\<lparr>ge_city := v\<rparr>),
      dec_field ''Org'' dec_string ge_org (\<lambda>v a. a\<lparr>ge_org := v\<rparr>)]"

definition zero_geo :: geo where
  "zero_geo = \<lparr>ge_ip = [], ge_country = [], ge_region = [], ge_city = [], ge_org = []\<rparr>"

text \<open>The status of the answer is not looked at.\<close>

definition public_geo :: "'k machine \<Rightarrow> 'k world \<Rightarrow> (string \<times> string) \<times> 'k world" where
  "public_geo m w =
     (case http_do m (get_request ''https://ipinfo.io/json'') w of
        (Inl _, w1) \<Rightarrow> (([], []), w1)
      | (Inr a, w1) \<Rightarrow>
          (case parse_stream (hr_body a) of
             None \<Rightarrow> (([], []), w1)
           | Some j \<Rightarrow>
               (case dec_struct geo_fields j zero_geo of (v, ok) \<Rightarrow>
                  if ok then ((ge_ip v, str_join (filter (\<lambda>p. trim_space p \<noteq> []) [ge_country v, ge_region v, ge_city v, ge_org v]) '' / ''), w1)
                  else (([], []), w1))))"

definition collect_diagnostics :: "'k machine \<Rightarrow> string list \<Rightarrow> 'k world \<Rightarrow> diag_snapshot res \<times> 'k world" where
  "collect_diagnostics m domains w =
     (case list_interfaces m w of
        (Inl e, w1) \<Rightarrow> (Inl e, w1)
      | (Inr is, w1) \<Rightarrow>
          (let (t, w2) = now m w1; ((ip, geo), w3) = public_geo m w2; (dns, w4) = compare_all m domains w3 in
           (Inr \<lparr>ds_time = t, ds_interfaces = is, ds_dns = dns, ds_public_ip = ip,
                 ds_public_geo = (if ip \<noteq> [] then geo else [])\<rparr>, w4)))"

section \<open>Redaction\<close>

definition word_letter :: "char \<Rightarrow> bool" where
  "word_letter c \<longleftrightarrow> ascii_lower (lower_char c)"

definition token_char :: "char \<Rightarrow> bool" where
  "token_char c \<longleftrightarrow> word_letter c \<or> ascii_digit c \<or> c \<in> set ''._~+/=-''"

definition bearer_rx :: rx where
  "bearer_rx = rx_seq [Word_boundary, rx_lit_i ''bearer'', rx_plus (Cls rx_space), rx_at_least 12 (Cls token_char)]"

definition quote_char_rx :: rx where
  "quote_char_rx = rx_opt (Cls (\<lambda>c. c = CHR 0x22))"

definition secret_rx :: rx where
  "secret_rx = Seq
     (Cap 1 (rx_seq [quote_char_rx,
        rx_alts (map rx_lit_i [''access_token'', ''refresh_token'', ''id_token'', ''authorization'', ''cookie'']),
        quote_char_rx, Star True (Cls rx_space), Cls (\<lambda>c. c \<in> set '':=''), Star True (Cls rx_space), quote_char_rx]))
     (rx_plus (Cls (\<lambda>c. c \<noteq> CHR 0x22 \<and> \<not> rx_space c \<and> c \<noteq> CHR '','' \<and> c \<noteq> CHR ''}'')))"

definition email_rx :: rx where
  "email_rx = rx_seq
     [Word_boundary, rx_plus (Cls (\<lambda>c. word_letter c \<or> ascii_digit c \<or> c \<in> set ''._%+-'')), Cls (\<lambda>c. c = CHR ''@''),
      rx_plus (Cls (\<lambda>c. word_letter c \<or> ascii_digit c \<or> c \<in> set ''.-'')), Cls (\<lambda>c. c = CHR ''.''),
      rx_at_least 2 (Cls word_letter), Word_boundary]"

definition path_char :: "char \<Rightarrow> bool" where
  "path_char c \<longleftrightarrow> \<not> rx_space c \<and> c \<noteq> CHR 0x22 \<and> c \<noteq> CHR 0x27"

definition path_rx :: rx where
  "path_rx = rx_alts
     [Seq (rx_lit_i ''/home/'') (rx_plus (Cls path_char)), Seq (rx_lit_i ''/users/'') (rx_plus (Cls path_char)),
      rx_seq [Cls word_letter, rx_lit_i ('':'' @ [CHR 0x5C] @ ''users'' @ [CHR 0x5C]), rx_plus (Cls path_char)]]"

definition port_suffix_rx :: rx where
  "port_suffix_rx = rx_opt (Seq (Cls (\<lambda>c. c = CHR '':'')) (rx_between 1 5 (Cls ascii_digit)))"

definition ipv4_rx :: rx where
  "ipv4_rx = rx_seq
     [Word_boundary,
      Cap 1 (Seq (rx_times 3 (Seq (rx_between 1 3 (Cls ascii_digit)) (Cls (\<lambda>c. c = CHR ''.'')))) (rx_between 1 3 (Cls ascii_digit))),
      port_suffix_rx, Word_boundary]"

definition ipv6_bracket_rx :: rx where
  "ipv6_bracket_rx = rx_seq
     [Cls (\<lambda>c. c = CHR ''[''), Cap 1 (rx_plus (Cls (\<lambda>c. ascii_digit c \<or> char_in 97 102 (lower_char c) \<or> c = CHR '':''))),
      Cls (\<lambda>c. c = CHR '']''), port_suffix_rx]"

definition ip_redacted :: string where "ip_redacted = ''<ip-redacted>''"

text \<open>The replacement runs the expression again on the matched text.\<close>

definition redact_address :: "rx \<Rightarrow> string \<Rightarrow> string" where
  "redact_address r m =
     (case rx_find_all r m of
        (_, c) # _ \<Rightarrow> if parse_ip (cap_text 1 c) \<noteq> None then ip_redacted else m
      | [] \<Rightarrow> m)"

definition field_end :: "char \<Rightarrow> bool" where
  "field_end c \<longleftrightarrow> c \<in> set '' ,;[]''"

text \<open>\<^verbatim>\<open>strings.FieldsFunc\<close> and \<^verbatim>\<open>strings.ReplaceAll\<close> of a text that is not empty.\<close>

fun fields_func :: "string \<Rightarrow> string \<Rightarrow> string list" where
  "fields_func acc [] = (if acc = [] then [] else [acc])"
| "fields_func acc (c # s) = (if field_end c then (if acc = [] then [] else [acc]) @ fields_func [] s else fields_func (acc @ [c]) s)"

function replace_all :: "string \<Rightarrow> string \<Rightarrow> string \<Rightarrow> string" where
  "replace_all old new [] = []"
| "replace_all old new (c # s) =
     (if old \<noteq> [] \<and> has_prefix (c # s) old then new @ replace_all old new (drop (length old) (c # s)) else c # replace_all old new s)"
  by pat_completeness auto
termination by (relation "measure (\<lambda>(old, new, s). length s)") auto

text \<open>\<^verbatim>\<open>net.ParseCIDR\<close> without error.\<close>

definition is_cidr :: "string \<Rightarrow> bool" where
  "is_cidr s =
     (case cut_char (CHR ''/'') s of
        None \<Rightarrow> False
      | Some (addr, bits) \<Rightarrow>
          (case parse_addr addr of
             None \<Rightarrow> False
           | Some (a, zone) \<Rightarrow>
               zone = [] \<and> (case atoi_digits bits of None \<Rightarrow> False | Some n \<Rightarrow> n < 16777215 \<and> n \<le> addr_bits a)))"

definition names_address :: "string \<Rightarrow> bool" where
  "names_address f =
     (let t = trim_set (''()'' @ [CHR 0x22, CHR 0x27]) f in
      parse_ip t \<noteq> None \<or> is_cidr t \<or>
      (case split_host_port t of Inl _ \<Rightarrow> False | Inr (host, _) \<Rightarrow> parse_ip (trim_set ''[]'' host) \<noteq> None))"

definition redact_field :: "string \<Rightarrow> string \<Rightarrow> string" where
  "redact_field f v = (if names_address f then replace_all f ip_redacted v else v)"

definition redact_patterns :: "string \<Rightarrow> string" where
  "redact_patterns v =
     (let v = rx_replace bearer_rx (\<lambda>_ _. ''Bearer <redacted>'') v;
          v = rx_replace secret_rx (\<lambda>_ c. cap_text 1 c @ ''<redacted>'') v;
          v = rx_replace email_rx (\<lambda>_ _. ''<email-redacted>'') v;
          v = rx_replace path_rx (\<lambda>_ _. ''<path-redacted>'') v;
          v = rx_replace ipv4_rx (\<lambda>m _. redact_address ipv4_rx m) v
      in rx_replace ipv6_bracket_rx (\<lambda>m _. redact_address ipv6_bracket_rx m) v)"

definition redact :: "string \<Rightarrow> string" where
  "redact value = (let v = redact_patterns value in fold redact_field (fields_func [] v) v)"

section \<open>The text\<close>

definition sprint_list :: "string list \<Rightarrow> string" where
  "sprint_list xs = ''['' @ str_join xs '' '' @ '']''"

definition interface_line :: "host_interface \<Rightarrow> string" where
  "interface_line i = ''- '' @ redact (it_name i) @ '' vpn='' @ bool_text (it_vpn i) @ '' flags='' @ sprint_list (it_flags i) @
     '' addrs='' @ redact (sprint_list (it_addrs i)) @ nl"

definition dns_lines :: "dns_comparison \<Rightarrow> string" where
  "dns_lines d = ''- '' @ redact (dc_domain d) @ nl @ ''  system='' @ redact (sprint_list (dc_system d)) @ nl @
     ''  cloudflare='' @ redact (sprint_list (dc_cloudflare d)) @ nl @ ''  google='' @ redact (sprint_list (dc_google d)) @ nl @
     ''  system_aaaa='' @ redact (sprint_list (dc_system6 d)) @ nl @ ''  cloudflare_aaaa='' @ redact (sprint_list (dc_cloudflare6 d)) @ nl @
     ''  google_aaaa='' @ redact (sprint_list (dc_google6 d)) @ nl @ ''  suspicious='' @ bool_text (dc_suspicious d) @ nl"

definition format_text :: "diag_snapshot \<Rightarrow> string" where
  "format_text s =
     ''AntigravitiProxi diagnostics'' @ nl @ ''Time: '' @ t_format (ds_time s) ''2006-01-02T15:04:05Z07:00'' @ nl @
     ''Public IP: '' @ redact (ds_public_ip s) @ nl @ ''Geo: '' @ redact (ds_public_geo s) @ nl @ nl @
     ''Interfaces:'' @ nl @ concat (map interface_line (ds_interfaces s)) @ nl @ ''DNS:'' @ nl @ concat (map dns_lines (ds_dns s))"


section \<open>Lemmas\<close>

lemma set_dedupe_from: "set (dedupe_from v xs) \<subseteq> set xs"
  by (induction v xs rule: dedupe_from.induct) auto

lemma dedupe_from_sorted: "sorted (v # xs) \<Longrightarrow> sorted (v # dedupe_from v xs) \<and> distinct (v # dedupe_from v xs)"
proof (induction v xs rule: dedupe_from.induct)
  case (2 v x xs)
  show ?case
  proof (cases "x = v")
    case True
    then show ?thesis using 2 by simp
  next
    case False
    then have "sorted (x # dedupe_from x xs) \<and> distinct (x # dedupe_from x xs)" using 2 by simp
    moreover have "v < x" using 2 False by (simp add: less_le)
    ultimately show ?thesis using False by auto
  qed
qed simp

lemma dedupe_sorted: "sorted xs \<Longrightarrow> sorted (dedupe xs) \<and> distinct (dedupe xs)"
  using dedupe_from_sorted by (cases xs) auto

lemma set_dedupe: "set (dedupe xs) \<subseteq> set xs"
  using set_dedupe_from by (cases xs) auto

lemma doh_answers_addresses: "ip \<in> set (doh_answers t b) \<Longrightarrow> parse_ip ip \<noteq> None"
  using set_dedupe by (fastforce simp: doh_answers_def Let_def split: option.splits prod.splits if_splits)

lemma doh_answers_normal: "sorted (doh_answers t b) \<and> distinct (doh_answers t b)"
  by (auto simp: doh_answers_def dedupe_sorted split: option.splits prod.splits)

lemma doh_type_result:
  assumes "doh_type m host pinned d qt t w = (ips, w')"
  shows "w_requests w' = w_requests w @ [doh_request host pinned d qt]" "w_files w' = w_files w" "w_log w' = w_log w"
    and "\<forall>ip\<in>set ips. parse_ip ip \<noteq> None" "sorted ips" "distinct ips"
proof -
  obtain r w1 where h: "http_do m (doh_request host pinned d qt) w = (r, w1)" by fastforce
  have w: "w' = w1" using assms h by (auto simp: doh_type_def split: sum.splits)
  show "w_requests w' = w_requests w @ [doh_request host pinned d qt]" "w_files w' = w_files w" "w_log w' = w_log w"
    using h unfolding w by (auto simp: http_do_def Let_def tick_def split: prod.splits)
  show "\<forall>ip\<in>set ips. parse_ip ip \<noteq> None" "sorted ips" "distinct ips"
    using assms h doh_answers_addresses doh_answers_normal by (auto simp: doh_type_def split: sum.splits if_splits)
qed

subsection \<open>What an expression needs\<close>

text \<open>Whatever the expression matches has a character of the class.\<close>

fun rx_needs :: "(char \<Rightarrow> bool) \<Rightarrow> rx \<Rightarrow> bool" where
  "rx_needs f (Cls g) \<longleftrightarrow> (\<forall>c. g c \<longrightarrow> f c)"
| "rx_needs f (Seq a b) \<longleftrightarrow> rx_needs f a \<or> rx_needs f b"
| "rx_needs f (Alt a b) \<longleftrightarrow> rx_needs f a \<and> rx_needs f b"
| "rx_needs f (Cap n a) \<longleftrightarrow> rx_needs f a"
| "rx_needs f _ \<longleftrightarrow> False"

lemma rmatch_needs:
  "rx_needs f r \<Longrightarrow> (q, d) \<in> set (rmatch r p c) \<Longrightarrow> \<exists>x\<in>set (snd p). f x"
proof (induction r arbitrary: p c q d)
  case (Cls g)
  then show ?case by (cases "snd p") (auto split: if_splits)
next
  case (Seq a b)
  then obtain x where x: "x \<in> set (rmatch a p c)" "(q, d) \<in> set (rmatch b (fst x) (snd x))" by (auto simp: rmatch_Seq)
  then obtain t where "snd p = t @ snd (fst x)" using rmatch_suffix [of "fst x" "snd x" a p c] by auto
  then show ?case using Seq.IH(1) [of "fst x" "snd x" p c] Seq.IH(2) [OF _ x(2)] Seq.prems(1) x(1) by auto
next
  case (Cap n a)
  then obtain q' d' where "(q', d') \<in> set (rmatch a p c)" by auto
  from Cap.IH [OF _ this] Cap.prems(1) show ?case by simp
qed auto

lemma find_needs: "rx_needs f r \<Longrightarrow> \<forall>x\<in>set s. \<not> f x \<Longrightarrow> find_from r pr s = None"
proof (rule find_from_none, intro allI impI)
  fix t u p
  assume a: "rx_needs f r" "\<forall>x\<in>set s. \<not> f x" "s = t @ u"
  show "rmatch r (p, u) [] = []"
  proof (rule ccontr)
    assume "rmatch r (p, u) [] \<noteq> []"
    then obtain q d where "(q, d) \<in> set (rmatch r (p, u) [])" by (metis list.set_intros(1) list.exhaust surj_pair)
    from rmatch_needs [OF a(1) this] a(2,3) show False by auto
  qed
qed

lemma replace_needs: "rx_needs f r \<Longrightarrow> \<forall>x\<in>set s. \<not> f x \<Longrightarrow> rx_replace r g s = s"
  unfolding rx_replace_def by (subst replace_from.simps) (simp add: find_needs)

lemma rx_needs_build [simp]:
  "rx_needs f (rx_seq rs) \<longleftrightarrow> (\<exists>r\<in>set rs. rx_needs f r)"
  "rx_needs f (rx_plus r) \<longleftrightarrow> rx_needs f r"
  by (induction rs) (auto simp: rx_seq_def rx_plus_def)

subsection \<open>Redaction of plain text\<close>

text \<open>A character on which no rule of the redaction rests.\<close>

definition plain_char :: "char \<Rightarrow> bool" where
  "plain_char c \<longleftrightarrow> \<not> rx_space c \<and> \<not> is_space c \<and> c \<notin> set '':=@/.[],;''"

lemma fields_func_plain: "\<forall>c\<in>set s. \<not> field_end c \<Longrightarrow> fields_func acc s = (if acc @ s = [] then [] else [acc @ s])"
  by (induction s arbitrary: acc) auto

lemma ip_kind_in: "ip_kind s = Some c \<Longrightarrow> c \<in> set s"
  by (induction s) (auto split: if_splits)

lemma parse_ip_needs: "parse_ip s \<noteq> None \<Longrightarrow> CHR ''.'' \<in> set s \<or> CHR '':'' \<in> set s"
  by (auto simp: parse_ip_def dest: ip_kind_in split: if_splits)

lemma set_trim: "set (trim_set cs s) \<subseteq> set s"
  unfolding trim_set_def trim_left_set_def trim_right_set_def by (metis set_dropWhileD set_rev subsetI)

lemma cut_char_in: "cut_char c s = Some p \<Longrightarrow> c \<in> set s"
  by (induction s arbitrary: p) (auto split: if_splits option.splits)

lemma last_index_in: "last_index s c = Some i \<Longrightarrow> c \<in> set s"
  by (induction s arbitrary: i) (auto split: if_splits option.splits)

lemma names_address_needs:
  assumes "names_address f"
  shows "\<exists>c\<in>set f. c \<in> set ''.:/''"
proof -
  define t where "t = trim_set (''()'' @ [CHR 0x22, CHR 0x27]) f"
  have s: "set t \<subseteq> set f" unfolding t_def by (rule set_trim)
  from assms consider "parse_ip t \<noteq> None" | "is_cidr t" | host p where "split_host_port t = Inr (host, p)"
    unfolding names_address_def Let_def t_def [symmetric] by (cases "split_host_port t") auto
  then have "CHR ''.'' \<in> set t \<or> CHR '':'' \<in> set t \<or> CHR ''/'' \<in> set t"
  proof cases
    case 1
    from parse_ip_needs [OF this] show ?thesis by blast
  next
    case 2
    then have "cut_char (CHR ''/'') t \<noteq> None" unfolding is_cidr_def by (auto split: option.splits)
    then show ?thesis using cut_char_in by fast
  next
    case 3
    then have "last_index t (CHR '':'') \<noteq> None" unfolding split_host_port_def by (auto split: option.splits)
    then show ?thesis using last_index_in by fast
  qed
  with s show ?thesis by auto
qed

lemma lower_char_other: "lower_char c = d \<Longrightarrow> \<not> ascii_lower d \<Longrightarrow> c = d"
  by (auto simp: lower_char_def ascii_lower_def char_in_def Let_def split: if_splits)

lemma rx_needs_lit_i: "x \<in> set l \<Longrightarrow> \<not> ascii_lower x \<Longrightarrow> f x \<Longrightarrow> rx_needs f (rx_lit_i l)"
  unfolding rx_lit_i_def by (auto intro!: bexI [of _ x]) (metis lower_char_other)

lemma rx_alts_three: "rx_alts [a, b, c] = Alt a (Alt b c)"
  by (simp add: rx_alts_def)

lemma redact_needs:
  "rx_needs rx_space bearer_rx" "rx_needs (\<lambda>c. c \<in> set '':='') secret_rx" "rx_needs (\<lambda>c. c = CHR ''@'') email_rx"
  "rx_needs (\<lambda>c. c \<in> set ''/:'') path_rx" "rx_needs (\<lambda>c. c = CHR ''.'') ipv4_rx" "rx_needs (\<lambda>c. c = CHR ''['') ipv6_bracket_rx"
proof -
  show "rx_needs rx_space bearer_rx" by (simp add: bearer_rx_def)
  show "rx_needs (\<lambda>c. c \<in> set '':='') secret_rx" by (simp add: secret_rx_def)
  show "rx_needs (\<lambda>c. c = CHR ''@'') email_rx" by (simp add: email_rx_def)
  have "rx_needs (\<lambda>c. c \<in> set ''/:'') (rx_lit_i ''/home/'')" "rx_needs (\<lambda>c. c \<in> set ''/:'') (rx_lit_i ''/users/'')"
    by (rule rx_needs_lit_i [of "CHR ''/''"]; simp add: ascii_lower_def char_in_def)+
  moreover have "rx_needs (\<lambda>c. c \<in> set ''/:'') (rx_lit_i ('':'' @ [CHR 0x5C] @ ''users'' @ [CHR 0x5C]))"
    by (rule rx_needs_lit_i [of "CHR '':''"]; simp add: ascii_lower_def char_in_def)
  ultimately show "rx_needs (\<lambda>c. c \<in> set ''/:'') path_rx"
    unfolding path_rx_def rx_alts_three rx_needs.simps(3) by (auto simp del: append.simps)
  show "rx_needs (\<lambda>c. c = CHR ''.'') ipv4_rx" by (simp add: ipv4_rx_def rx_times_def numeral_3_eq_3)
  show "rx_needs (\<lambda>c. c = CHR ''['') ipv6_bracket_rx" by (simp add: ipv6_bracket_rx_def)
qed

lemma redact_plain:
  assumes "\<forall>c\<in>set s. plain_char c"
  shows "redact s = s"
proof -
  have no: "\<forall>x\<in>set s. \<not> f x" if "\<And>x. f x \<Longrightarrow> \<not> plain_char x" for f using assms that by blast
  have k: "rx_space x \<Longrightarrow> \<not> plain_char x" "x \<in> set '':='' \<Longrightarrow> \<not> plain_char x" "x = CHR ''@'' \<Longrightarrow> \<not> plain_char x"
    "x \<in> set ''/:'' \<Longrightarrow> \<not> plain_char x" "x = CHR ''.'' \<Longrightarrow> \<not> plain_char x" "x = CHR ''['' \<Longrightarrow> \<not> plain_char x" for x
    by (auto simp: plain_char_def)
  have "redact_patterns s = s"
    unfolding redact_patterns_def Let_def
    using replace_needs [OF redact_needs(1) no [OF k(1)]] replace_needs [OF redact_needs(2) no [OF k(2)]] replace_needs [OF redact_needs(3) no [OF k(3)]]
      replace_needs [OF redact_needs(4) no [OF k(4)]] replace_needs [OF redact_needs(5) no [OF k(5)]] replace_needs [OF redact_needs(6) no [OF k(6)]] by simp
  moreover have "fields_func [] s = (if s = [] then [] else [s])"
    using fields_func_plain [of s "[]"] assms by (auto simp: plain_char_def field_end_def rx_space_def)
  moreover have "\<not> names_address s" using names_address_needs [of s] assms by (auto simp: plain_char_def)
  ultimately show ?thesis by (auto simp: redact_def Let_def redact_field_def)
qed

section \<open>Properties\<close>

text \<open>The trusted look-up.  It sends one or two requests, each to a pinned resolver over HTTPS past
  any proxy, the second only when the first gave no address; what it returns are texts of addresses,
  sorted and each once; and it touches no file and runs no command.\<close>

theorem trusted_lookup:
  assumes "trusted_a m d w = (ips, w')"
  shows "(w_requests w' = w_requests w @ [doh_request ''cloudflare-dns.com'' ''1.1.1.1:443'' d ''A''] \<and> ips \<noteq> [] \<or>
      w_requests w' = w_requests w @ [doh_request ''cloudflare-dns.com'' ''1.1.1.1:443'' d ''A'', doh_request ''dns.google'' ''8.8.8.8:443'' d ''A'']) \<and>
    (\<forall>ip\<in>set ips. parse_ip ip \<noteq> None) \<and> sorted ips \<and> distinct ips \<and> w_files w' = w_files w \<and> w_log w' = w_log w"
proof -
  obtain a w1 where a: "doh_type m ''cloudflare-dns.com'' ''1.1.1.1:443'' d ''A'' 1 w = (a, w1)" by fastforce
  note ra = doh_type_result [OF a]
  show ?thesis
  proof (cases "a = []")
    case False
    then show ?thesis using assms a ra by (auto simp: trusted_a_def doh_a_def cloudflare_doh_def)
  next
    case True
    then have b: "doh_type m ''dns.google'' ''8.8.8.8:443'' d ''A'' 1 w1 = (ips, w')"
      using assms a by (simp add: trusted_a_def doh_a_def cloudflare_doh_def google_doh_def)
    show ?thesis using doh_type_result [OF b] ra by simp
  qed
qed

definition answering_resolver :: "unit machine" where
  "answering_resolver = quiet_machine\<lparr>m_http := (\<lambda>q k. (Inr \<lparr>hr_code = 200, hr_status = ''200 OK'',
     hr_body = marshal (JObj [(''Answer'', JArr [JObj [(''type'', enc_int 1), (''data'', JStr ''10.9.8.7'')]])]), hr_error = None\<rparr>, k))\<rparr>"

lemma answering_resolver_body:
  "doh_answers 1 (marshal (JObj [(''Answer'', JArr [JObj [(''type'', enc_int 1), (''data'', JStr ''10.9.8.7'')]])])) = [''10.9.8.7'']"
  by code_simp

theorem trusted_lookup_witness:
  "\<exists>w'. trusted_a answering_resolver ''a.b'' (world_of [] ()) = ([''10.9.8.7''], w') \<and> parse_ip ''10.9.8.7'' \<noteq> None \<and>
     w_requests w' = [doh_request ''cloudflare-dns.com'' ''1.1.1.1:443'' ''a.b'' ''A''] \<and> w_files w' = w_files (world_of [] ())"
proof -
  obtain ips w' where r: "trusted_a answering_resolver ''a.b'' (world_of [] ()) = (ips, w')" by fastforce
  then have "ips = [''10.9.8.7'']" "length (w_requests w') = 1"
    using answering_resolver_body
    by (auto simp: trusted_a_def doh_a_def doh_type_def http_do_def Let_def answering_resolver_def cloudflare_doh_def tick_def world_of_def)
  with trusted_lookup [OF r] r show ?thesis by (auto simp: world_of_def)
qed

end
