(* ===== verification/Antigravity.thy ===== *)
theory Antigravity imports Hosts PrivilegedHelper begin

text \<open>
  The agent's own settings and its start (\<^verbatim>\<open>antigravity/antigravity.go\<close>, \<^verbatim>\<open>userctx_linux.go\<close>,
  \<^verbatim>\<open>userctx_other.go\<close>): pinning the production end point in its settings files, finding its executable,
  the environment it is started with, and the step down from root to the desktop user.  The lemmas
  show that the environment holds exactly one definition of every pinned variable, that a root process
  only starts the agent with the identity of the user who invoked it, and what a rewrite of the
  settings does.
\<close>

section \<open>The user behind sudo or pkexec\<close>

definition invoking_desktop_user :: "'k machine \<Rightarrow> passwd option" where
  "invoking_desktop_user m =
     (if m_geteuid m \<noteq> 0 then None
      else (let uid = (if m_getenv m ''SUDO_UID'' = [] then m_getenv m ''PKEXEC_UID'' else m_getenv m ''SUDO_UID'') in
        if uid = [] \<or> uid = ''0'' then None
        else (case m_passwd m uid of Inl _ \<Rightarrow> None | Inr u \<Rightarrow> Some u)))"

definition user_home_dir :: "'k machine \<Rightarrow> string" where
  "user_home_dir m = (case m_home m of Inl _ \<Rightarrow> [] | Inr h \<Rightarrow> h)"

definition effective_user_home :: "platform \<Rightarrow> 'k machine \<Rightarrow> string" where
  "effective_user_home pf m =
     (if pf = Linux
      then (case invoking_desktop_user m of
              Some u \<Rightarrow> if pw_home u \<noteq> [] then pw_home u else user_home_dir m
            | None \<Rightarrow> user_home_dir m)
      else user_home_dir m)"

definition config_home_of_env :: "'k machine \<Rightarrow> string \<Rightarrow> string" where
  "config_home_of_env m home = (if m_getenv m ''XDG_CONFIG_HOME'' \<noteq> [] then m_getenv m ''XDG_CONFIG_HOME'' else path_join home ''.config'')"

definition effective_config_home :: "platform \<Rightarrow> 'k machine \<Rightarrow> string \<Rightarrow> string" where
  "effective_config_home pf m home =
     (if pf = Linux \<and> invoking_desktop_user m \<noteq> None then path_join home ''.config'' else config_home_of_env m home)"

section \<open>The end point\<close>

definition production_url :: string where "production_url = ''https://cloudcode-pa.googleapis.com''"

definition dquote :: char where "dquote = CHR 0x22"

definition path_joins :: "string \<Rightarrow> string list \<Rightarrow> string" where
  "path_joins d ps = foldl path_join d ps"

definition settings_candidates :: "platform \<Rightarrow> 'k machine \<Rightarrow> string list" where
  "settings_candidates pf m =
     (let home = effective_user_home pf m in
      if pf = Windows
      then (let app = m_getenv m ''APPDATA'' in
            if app = [] then []
            else map (\<lambda>ds. path_joins app (ds @ [''User'', ''settings.json''])) [[''Antigravity''], [''Google'', ''Antigravity'']])
      else (let cfg = effective_config_home pf m home in
            if cfg = [] then []
            else map (\<lambda>ds. path_joins cfg (ds @ [''User'', ''settings.json'']))
              [[''Antigravity''], [''antigravity''], [''Google'', ''Antigravity''], [''Antigravity IDE''], [''antigravity-ide'']]))"

definition endpoint_key :: string where
  "endpoint_key = [dquote] @ ''jetski.cloudCodeUrl'' @ [dquote]"

definition endpoint_rx :: rx where
  "endpoint_rx = rx_seq
     [rx_lit endpoint_key, Star True (Cls rx_space), rx_lit '':'', Star True (Cls rx_space), rx_lit [dquote],
      Star True (Cls (\<lambda>c. c \<noteq> dquote)), rx_lit [dquote]]"

definition endpoint_setting :: string where
  "endpoint_setting = endpoint_key @ '': '' @ [dquote] @ production_url @ [dquote]"

text \<open>The rewritten text; nothing when the text has no brace.\<close>

definition pin_endpoint :: "string \<Rightarrow> string option" where
  "pin_endpoint raw =
     (if rx_matches endpoint_rx raw then Some (rx_replace endpoint_rx (\<lambda>_ _. endpoint_setting) raw)
      else (case str_index raw ''{'' of
          None \<Rightarrow> None
        | Some i \<Rightarrow>
            (let tl = drop (i + 1) raw; comma = (if trim_space tl \<noteq> ''}'' \<and> trim_space tl \<noteq> [] then '','' else [])
             in Some (take (i + 1) raw @ nl @ ''  '' @ endpoint_setting @ comma @ tl))))"

definition settings_backup :: "string \<Rightarrow> stamp \<Rightarrow> string" where
  "settings_backup p t = p @ ''.backup-'' @ t_format t ''20060102-150405''"

text \<open>The loop over the candidates: the error, if one ended it, the files changed, and whether any was
  found.\<close>

fun pin_files :: "'k machine \<Rightarrow> string list \<Rightarrow> string list \<Rightarrow> bool \<Rightarrow> 'k world \<Rightarrow> (gerr option \<times> string list \<times> bool) \<times> 'k world" where
  "pin_files m [] changed found w = ((None, changed, found), w)"
| "pin_files m (p # ps) changed found w =
     (case read_file m p w of
        (Inl _, w1) \<Rightarrow> pin_files m ps changed found w1
      | (Inr raw, w1) \<Rightarrow>
          (let (t, w2) = now m w1; w3 = snd (write_file m (settings_backup p t) raw 384 w2) in
           case pin_endpoint raw of
             None \<Rightarrow> ((Some (new_err (''settings file is not JSON-like: '' @ p)), changed, True), w3)
           | Some nxt \<Rightarrow>
               (case write_file m p nxt 384 w3 of
                  (Inl e, w4) \<Rightarrow> ((Some e, changed, True), w4)
                | (Inr _, w4) \<Rightarrow> pin_files m ps (changed @ [p]) True w4)))"

definition new_settings_text :: string where
  "new_settings_text = ''{'' @ nl @ ''  '' @ endpoint_setting @ nl @ ''}'' @ nl"

definition force_production_endpoint ::
  "platform \<Rightarrow> 'k machine \<Rightarrow> 'k world \<Rightarrow> (string list \<times> gerr option) \<times> 'k world" where
  "force_production_endpoint pf m w =
     (let candidates = settings_candidates pf m in
      case pin_files m candidates [] False w of
        ((Some e, changed, _), w1) \<Rightarrow> ((changed, Some e), w1)
      | ((None, changed, found), w1) \<Rightarrow>
          (case candidates of
             p # _ \<Rightarrow>
               if found then ((changed, None), w1)
               else (case mkdir_all m (path_dir p) w1 of
                   (Inl e, w2) \<Rightarrow> (([], Some e), w2)
                 | (Inr _, w2) \<Rightarrow> (case write_file m p new_settings_text 384 w2 of
                     (Inl e, w3) \<Rightarrow> (([], Some e), w3)
                   | (Inr _, w3) \<Rightarrow> ((changed @ [p], None), w3)))
           | [] \<Rightarrow> ((changed, None), w1)))"

section \<open>Finding the executable\<close>

definition executable_names :: "platform \<Rightarrow> string list" where
  "executable_names pf = (if pf = Windows then [''Antigravity.exe'', ''antigravity.exe''] else [''antigravity'', ''antigravity-ide'', ''antigravity-desktop''])"

definition executable_candidates :: "platform \<Rightarrow> 'k machine \<Rightarrow> string list" where
  "executable_candidates pf m =
     (let home = effective_user_home pf m in
      if pf = Windows
      then (let local = m_getenv m ''LOCALAPPDATA''; pr = m_getenv m ''ProgramFiles'' in
            [path_joins local [''Programs'', ''Antigravity'', ''Antigravity.exe''], path_joins local [''Antigravity'', ''Antigravity.exe''],
             path_joins pr [''Antigravity'', ''Antigravity.exe'']])
      else [''/usr/bin/antigravity'', ''/usr/bin/antigravity-ide'',
            ''/snap/antigravity-ide-snap/current/usr/share/antigravity-ide/antigravity-ide'',
            ''/usr/local/bin/antigravity'', ''/usr/local/bin/antigravity-ide'', ''/opt/Antigravity/antigravity'',
            ''/opt/antigravity/antigravity'', ''/opt/antigravity/Antigravity'',
            ''/opt/antigravity-ide/Antigravity-IDE/bin/antigravity-ide'', ''/opt/antigravity-ide/Antigravity-IDE/antigravity-ide'',
            path_joins home [''.local'', ''bin'', ''antigravity''], path_joins home [''.local'', ''bin'', ''antigravity-ide''],
            path_joins home [''.local'', ''opt'', ''antigravity'', ''antigravity''],
            path_joins home [''.local'', ''opt'', ''antigravity-ide'', ''Antigravity-IDE'', ''bin'', ''antigravity-ide'']])"

fun first_on_path :: "'k machine \<Rightarrow> string list \<Rightarrow> 'k world \<Rightarrow> string option \<times> 'k world" where
  "first_on_path m [] w = (None, w)"
| "first_on_path m (n # ns) w =
     (case look_path m n w of (Some p, w1) \<Rightarrow> (Some p, w1) | (None, w1) \<Rightarrow> first_on_path m ns w1)"

fun first_file :: "'k machine \<Rightarrow> string list \<Rightarrow> 'k world \<Rightarrow> string \<times> 'k world" where
  "first_file m [] w = ([], w)"
| "first_file m (p # ps) w =
     (case host_stat m p w of
        (Inr st, w1) \<Rightarrow> if \<not> hs_dir st then (p, w1) else first_file m ps w1
      | (Inl _, w1) \<Rightarrow> first_file m ps w1)"

definition find_executable :: "platform \<Rightarrow> 'k machine \<Rightarrow> 'k world \<Rightarrow> string \<times> 'k world" where
  "find_executable pf m w =
     (case first_on_path m (executable_names pf) w of
        (Some p, w1) \<Rightarrow> (p, w1)
      | (None, w1) \<Rightarrow> first_file m (executable_candidates pf m) w1)"

section \<open>The environment\<close>

definition pinned_keys :: "string list" where
  "pinned_keys = [''HTTP_PROXY'', ''HTTPS_PROXY'', ''ALL_PROXY'', ''NO_PROXY'', ''CLOUD_CODE_URL'']"

definition pinned_entry :: "string \<Rightarrow> bool" where
  "pinned_entry v = (case cut_char (CHR ''='') v of None \<Rightarrow> False | Some (k, _) \<Rightarrow> to_upper k \<in> set pinned_keys)"

definition filtered_env :: "string list \<Rightarrow> string list" where
  "filtered_env vs = filter (\<lambda>v. \<not> pinned_entry v) vs"

definition proxy_entries :: "string \<Rightarrow> string \<Rightarrow> string list" where
  "proxy_entries http socks =
     (let no = ''localhost,127.0.0.1,::1'' in
      [''HTTP_PROXY='' @ http, ''HTTPS_PROXY='' @ http, ''ALL_PROXY='' @ socks, ''NO_PROXY='' @ no,
       ''http_proxy='' @ http, ''https_proxy='' @ http, ''all_proxy='' @ socks, ''no_proxy='' @ no,
       ''CLOUD_CODE_URL='' @ production_url])"

definition process_proxy_env :: "string list \<Rightarrow> string \<Rightarrow> string \<Rightarrow> string list" where
  "process_proxy_env base http socks = filtered_env base @ proxy_entries http socks"

definition launch_environment :: "'k machine \<Rightarrow> string \<Rightarrow> string \<Rightarrow> string list" where
  "launch_environment m http socks = process_proxy_env (m_environ m) http socks"

definition set_env :: "string list \<Rightarrow> string \<Rightarrow> string \<Rightarrow> string list" where
  "set_env env k v = filter (\<lambda>item. \<not> has_prefix item (k @ ''='')) env @ [k @ ''='' @ v]"

text \<open>\<^verbatim>\<open>strconv.ParseUint(s, 10, 32)\<close> with its error.\<close>

definition uint32_of :: "string \<Rightarrow> nat res" where
  "uint32_of s =
     (case parse_uint32 s of
        Some n \<Rightarrow> Inr n
      | None \<Rightarrow> Inl (new_err (''strconv.ParseUint: parsing '' @ go_quote s @
          (if atoi_digits s = None then '': invalid syntax'' else '': value out of range''))))"

definition refuse_root :: gerr where
  "refuse_root = new_err (''refusing to launch Antigravity as root: run AntigravitiProxi as the desktop user with sing-box capabilities, '' @
     ''or elevate it via sudo/pkexec so the invoking user can be recovered'')"

definition user_env :: "passwd \<Rightarrow> string list \<Rightarrow> string list" where
  "user_env u env =
     set_env (set_env (set_env (set_env (set_env env ''HOME'' (pw_home u)) ''USER'' (pw_name u)) ''LOGNAME'' (pw_name u))
       ''XDG_CONFIG_HOME'' (path_join (pw_home u) ''.config'')) ''XDG_CACHE_HOME'' (path_join (pw_home u) ''.cache'')"

definition runtime_env :: "'k machine \<Rightarrow> passwd \<Rightarrow> string list \<Rightarrow> 'k world \<Rightarrow> string list \<times> 'k world" where
  "runtime_env m u env w =
     (let dir = path_join ''/run/user'' (pw_uid u) in
      case host_stat m dir w of
        (Inl _, w1) \<Rightarrow> (env, w1)
      | (Inr st, w1) \<Rightarrow>
          (if \<not> hs_dir st then (env, w1)
           else (let env1 = set_env env ''XDG_RUNTIME_DIR'' dir; bus = path_join dir ''bus'' in
             case host_stat m bus w1 of
               (Inl _, w2) \<Rightarrow> (env1, w2)
             | (Inr _, w2) \<Rightarrow> (set_env env1 ''DBUS_SESSION_BUS_ADDRESS'' (''unix:path='' @ bus), w2))))"

definition group_ids :: "string list \<Rightarrow> nat list" where
  "group_ids gs = List.map_filter parse_uint32 gs"

definition prepare_launch ::
  "platform \<Rightarrow> 'k machine \<Rightarrow> string list \<Rightarrow> 'k world \<Rightarrow> (string list \<times> (nat \<times> nat \<times> nat list) option) res \<times> 'k world" where
  "prepare_launch pf m env w =
     (if pf \<noteq> Linux \<or> m_geteuid m \<noteq> 0 then (Inr (env, None), w)
      else (case invoking_desktop_user m of
          None \<Rightarrow> (Inl refuse_root, w)
        | Some u \<Rightarrow>
            (case uint32_of (pw_uid u) of
               Inl e \<Rightarrow> (Inl e, w)
             | Inr uid \<Rightarrow>
                 (case uint32_of (pw_gid u) of
                    Inl e \<Rightarrow> (Inl e, w)
                  | Inr gid \<Rightarrow>
                      (case runtime_env m u (user_env u env) w of
                         (env1, w1) \<Rightarrow> (Inr (env1, Some (uid, gid, group_ids (pw_groups u))), w1))))))"

definition launch_with_proxy ::
  "platform \<Rightarrow> 'k machine \<Rightarrow> string \<Rightarrow> string \<Rightarrow> string \<Rightarrow> 'k world \<Rightarrow> gerr option \<times> 'k world" where
  "launch_with_proxy pf m exe http socks w =
     (let (exe, w1) = (if exe = [] then find_executable pf m w else (exe, w)) in
      if exe = [] then (Some (new_err ''Antigravity executable not found''), w1)
      else (case prepare_launch pf m (launch_environment m http socks) w1 of
          (Inl e, w2) \<Rightarrow> (Some e, w2)
        | (Inr (env, cred), w2) \<Rightarrow> start_program m \<lparr>la_exe = exe, la_env = env, la_cred = cred\<rparr> w2))"

section \<open>Lemmas\<close>

lemma pinned_proxy_entries: "filter pinned_entry (proxy_entries http socks) = proxy_entries http socks"
proof -
  have c: "cut_char (CHR ''='') (k @ CHR ''='' # v) = Some (k, v)" if "CHR ''='' \<notin> set k" for k v
    using that by (induction k) auto
  have "pinned_entry (k @ CHR ''='' # v)" if "CHR ''='' \<notin> set k" "to_upper k \<in> set pinned_keys" for k v
    using that c by (simp add: pinned_entry_def)
  note p = this
  have u: "to_upper ''HTTP_PROXY'' \<in> set pinned_keys" "to_upper ''HTTPS_PROXY'' \<in> set pinned_keys" "to_upper ''ALL_PROXY'' \<in> set pinned_keys"
    "to_upper ''NO_PROXY'' \<in> set pinned_keys" "to_upper ''http_proxy'' \<in> set pinned_keys" "to_upper ''https_proxy'' \<in> set pinned_keys"
    "to_upper ''all_proxy'' \<in> set pinned_keys" "to_upper ''no_proxy'' \<in> set pinned_keys" "to_upper ''CLOUD_CODE_URL'' \<in> set pinned_keys"
    by code_simp+
  show ?thesis
    using p [OF _ u(1)] p [OF _ u(2)] p [OF _ u(3)] p [OF _ u(4)] p [OF _ u(5)] p [OF _ u(6)] p [OF _ u(7)] p [OF _ u(8)] p [OF _ u(9)]
    by (simp add: proxy_entries_def Let_def)
qed

lemma filter_env_comp: "filter (\<lambda>v. \<not> pinned_entry v) (proxy_entries h s) = []"
  using pinned_proxy_entries [of h s] by (metis (no_types, lifting) filter_False filter_id_conv)

lemma find_executable_observes: "find_executable pf m w = (p, w') \<Longrightarrow> observes A w w'"
proof -
  have a: "first_on_path m ns w = (q, w1) \<Longrightarrow> observes A w w1" for ns q w w1
  proof (induction ns arbitrary: w)
    case (Cons n ns)
    obtain r w2 where r: "look_path m n w = (r, w2)" by fastforce
    then have o: "observes A w w2" by (rule look_path_observes)
    show ?case using Cons r o by (cases r) (auto intro: observes_trans)
  qed simp
  have b: "first_file m ps w = (q, w1) \<Longrightarrow> observes A w w1" for ps q w w1
  proof (induction ps arbitrary: w)
    case (Cons p ps)
    obtain r w2 where r: "host_stat m p w = (r, w2)" by fastforce
    then have o: "observes A w w2" by (rule host_stat_observes)
    show ?case using Cons r o by (cases r) (auto split: if_splits intro: observes_trans)
  qed simp
  show "find_executable pf m w = (p, w') \<Longrightarrow> observes A w w'"
    by (auto simp: find_executable_def split: prod.splits option.splits dest: a b intro: observes_trans)
qed

lemma runtime_env_observes: "runtime_env m u env w = (e, w') \<Longrightarrow> observes A w w'"
  by (auto simp: runtime_env_def Let_def split: prod.splits sum.splits if_splits dest!: host_stat_observes [where A = A] intro: observes_trans)

lemma start_programD:
  "start_program m l w = (e, w') \<Longrightarrow> w_files w' = w_files w \<and> w_log w' = w_log w @ [''launch'' # la_exe l # la_env l] \<and> outs w' = outs w"
  by (auto simp: start_program_def Let_def outs_def tick_def split: prod.splits)

lemma prepare_cases:
  assumes "prepare_launch pf m env w = (r, w')"
  shows "observes (\<lambda>_. False) w w' \<and>
    (\<forall>env1 cred. r = Inr (env1, cred) \<longrightarrow>
       (if pf = Linux \<and> m_geteuid m = 0
        then (\<exists>u uid gid. invoking_desktop_user m = Some u \<and> parse_uint32 (pw_uid u) = Some uid \<and> parse_uint32 (pw_gid u) = Some gid \<and>
               cred = Some (uid, gid, group_ids (pw_groups u)) \<and> env1 = fst (runtime_env m u (user_env u env) w))
        else env1 = env \<and> cred = None))"
proof -
  have p: "uint32_of s = Inr n \<longleftrightarrow> parse_uint32 s = Some n" for s n by (auto simp: uint32_of_def split: option.splits)
  show ?thesis
    using assms p by (auto simp: prepare_launch_def split: if_splits option.splits sum.splits prod.splits dest: runtime_env_observes)
qed

text \<open>The value of a variable in an environment: that of its last definition.\<close>

definition env_values :: "string \<Rightarrow> string list \<Rightarrow> string list" where
  "env_values k env = map (\<lambda>v. drop (length k + 1) v) (filter (\<lambda>v. has_prefix v (k @ ''='')) env)"

lemma env_values_set: "env_values k (set_env env k v) = [v]"
  by (simp add: env_values_def set_env_def has_prefix_def)

lemma env_values_other:
  assumes "CHR ''='' \<notin> set k" "CHR ''='' \<notin> set k'" "k \<noteq> k'"
  shows "env_values k (set_env env k' v) = env_values k env"
proof -
  have clash: "\<not> (has_prefix x (k @ ''='') \<and> has_prefix x (k' @ ''=''))" for x
  proof
    assume "has_prefix x (k @ ''='') \<and> has_prefix x (k' @ ''='')"
    then obtain a b where x: "x = (k @ ''='') @ a" "x = (k' @ ''='') @ b" unfolding has_prefix_append by blast
    have "(k @ ''='') @ a = (k' @ ''='') @ b" by (rule trans [OF x(1) [symmetric] x(2)])
    then have "k @ CHR ''='' # a = k' @ CHR ''='' # b" by simp
    then have "takeWhile (\<lambda>c. c \<noteq> CHR ''='') (k @ CHR ''='' # a) = takeWhile (\<lambda>c. c \<noteq> CHR ''='') (k' @ CHR ''='' # b)" by simp
    moreover have "takeWhile (\<lambda>c. c \<noteq> CHR ''='') (q @ CHR ''='' # y) = q" if "CHR ''='' \<notin> set q" for q y
      using that by (subst takeWhile_append2) auto
    ultimately show False using assms by simp
  qed
  have "\<not> has_prefix (k' @ ''='' @ v) (k @ ''='')" using clash [of "k' @ ''='' @ v"] by (auto simp: has_prefix_append)
  moreover have "filter (\<lambda>x. has_prefix x (k @ ''='')) (filter (\<lambda>x. \<not> has_prefix x (k' @ ''='')) env) = filter (\<lambda>x. has_prefix x (k @ ''='')) env"
    using clash by (auto intro: filter_cong)
  ultimately show ?thesis by (simp add: env_values_def set_env_def)
qed

section \<open>Properties\<close>


text \<open>C33: root never starts the agent as root by default.  Running as root on Linux, a launch starts a
  program only with the numeric identity of the user whom \<^verbatim>\<open>sudo\<close> or \<^verbatim>\<open>pkexec\<close> named, and with that
  user's home, name and directories as the only values of their variables; without such a user nothing
  is started.  Every launch starts at most one program and changes no file.\<close>

theorem launch_drops_root:
  assumes "launch_with_proxy Linux m exe http socks w = (e, w')" "m_geteuid m = 0"
  shows "w_files w' = w_files w \<and>
    (if invoking_desktop_user m = None then e \<noteq> None \<and> w_log w' = w_log w
     else w_log w' = w_log w \<and> e \<noteq> None \<or>
       (\<exists>u uid gid l w1. invoking_desktop_user m = Some u \<and> parse_uint32 (pw_uid u) = Some uid \<and> parse_uint32 (pw_gid u) = Some gid \<and>
          start_program m l w1 = (e, w') \<and> la_cred l = Some (uid, gid, group_ids (pw_groups u)) \<and>
          w_log w' = w_log w @ [''launch'' # la_exe l # la_env l] \<and>
          env_values ''HOME'' (la_env l) = [pw_home u] \<and> env_values ''USER'' (la_env l) = [pw_name u] \<and>
          env_values ''XDG_CONFIG_HOME'' (la_env l) = [path_join (pw_home u) ''.config'']))"
proof -
  obtain x w1 where x: "(if exe = [] then find_executable Linux m w else (exe, w)) = (x, w1)" by fastforce
  have ox: "observes (\<lambda>_. False) w w1" using x find_executable_observes by (auto split: if_splits)
  obtain r w2 where r: "prepare_launch Linux m (launch_environment m http socks) w1 = (r, w2)" by fastforce
  note pc = prepare_cases [OF r]
  have o2: "observes (\<lambda>_. False) w w2" using observes_trans [OF ox] pc by blast
  have same: "observes (\<lambda>_. False) w u \<Longrightarrow> w_files u = w_files w \<and> w_log u = w_log w" for u
  proof -
    have "list_all (\<lambda>_. False) cs \<longleftrightarrow> cs = []" for cs :: "string list list" by (cases cs) auto
    then show "observes (\<lambda>_. False) w u \<Longrightarrow> w_files u = w_files w \<and> w_log u = w_log w" by (auto simp: observes_def runs_def)
  qed
  show ?thesis
  proof (cases "x = []")
    case True
    then have "e \<noteq> None \<and> w' = w1" using assms(1) x by (auto simp: launch_with_proxy_def)
    then show ?thesis using same [OF ox] by auto
  next
    case x0: False
    show ?thesis
    proof (cases r)
      case (Inl f)
      then have "e \<noteq> None \<and> w' = w2" using assms(1) x x0 r by (auto simp: launch_with_proxy_def)
      then show ?thesis using same [OF o2] by auto
    next
      case (Inr p)
      obtain env1 cred where p: "p = (env1, cred)" by fastforce
      then obtain u uid gid where u: "invoking_desktop_user m = Some u" "parse_uint32 (pw_uid u) = Some uid" "parse_uint32 (pw_gid u) = Some gid"
        "cred = Some (uid, gid, group_ids (pw_groups u))" "env1 = fst (runtime_env m u (user_env u (launch_environment m http socks)) w1)"
        using pc Inr assms(2) by auto
      let ?l = "\<lparr>la_exe = x, la_env = env1, la_cred = cred\<rparr>"
      have s: "start_program m ?l w2 = (e, w')" using assms(1) x x0 r Inr p by (simp add: launch_with_proxy_def)
      have keys: "env_values k env1 = env_values k (user_env u (launch_environment m http socks))"
        if "CHR ''='' \<notin> set k" "k \<noteq> ''XDG_RUNTIME_DIR''" "k \<noteq> ''DBUS_SESSION_BUS_ADDRESS''" for k
        using that env_values_other [of k] unfolding u(5) runtime_env_def Let_def by (auto split: prod.splits sum.splits)
      have "env_values ''HOME'' env1 = [pw_home u]" "env_values ''USER'' env1 = [pw_name u]" "env_values ''XDG_CONFIG_HOME'' env1 = [path_join (pw_home u) ''.config'']"
        by (simp_all add: keys user_env_def env_values_other env_values_set)
      then show ?thesis using u(1-4) s start_programD [OF s] same [OF o2] by fastforce
    qed
  qed
qed

definition sudo_user :: passwd where
  "sudo_user = \<lparr>pw_uid = ''1000'', pw_gid = ''1000'', pw_name = ''ann'', pw_home = ''/home/ann'', pw_groups = [''27'']\<rparr>"

definition sudo_machine :: "unit machine" where
  "sudo_machine = quiet_machine\<lparr>m_geteuid := 0, m_getenv := (\<lambda>k. if k = ''SUDO_UID'' then ''1000'' else []), m_passwd := (\<lambda>_. Inr sudo_user)\<rparr>"

lemma launch_drops_root_witness:
  "\<exists>w' (l :: launch). w_log w' = [''launch'' # la_exe l # la_env l] \<and> la_cred l = Some (1000, 1000, [27]) \<and> env_values ''HOME'' (la_env l) = [''/home/ann''] \<and>
     launch_with_proxy Linux sudo_machine ''/a'' ''h'' ''s'' (world_of [] ()) = (None, w')"
proof -
  obtain e w' where a: "launch_with_proxy Linux sudo_machine ''/a'' ''h'' ''s'' (world_of [] ()) = (e, w')" by fastforce
  have u: "invoking_desktop_user sudo_machine = Some sudo_user" by (simp add: invoking_desktop_user_def sudo_machine_def)
  have i: "parse_uint32 (pw_uid sudo_user) = Some 1000" "parse_uint32 (pw_gid sudo_user) = Some 1000" "group_ids (pw_groups sudo_user) = [27]"
  proof -
    have "atoi_digits ''1000'' = Some 1000" "atoi_digits ''27'' = Some 27" by code_simp+
    then show "parse_uint32 (pw_uid sudo_user) = Some 1000" "parse_uint32 (pw_gid sudo_user) = Some 1000" "group_ids (pw_groups sudo_user) = [27]"
      by (simp_all add: parse_uint32_def sudo_user_def group_ids_def List.map_filter_def)
  qed
  have g: "m_geteuid sudo_machine = 0" by (simp add: sudo_machine_def)
  obtain env1 w1 where r: "runtime_env sudo_machine sudo_user (user_env sudo_user (launch_environment sudo_machine ''h'' ''s'')) (world_of [] ()) = (env1, w1)"
    by fastforce
  have e: "e = None"
  proof -
    have "prepare_launch Linux sudo_machine (launch_environment sudo_machine ''h'' ''s'') (world_of [] ()) = (Inr (env1, Some (1000, 1000, [27])), w1)"
      by (simp add: prepare_launch_def g u uint32_of_def i r)
    moreover have "m_launch sudo_machine y k = (None, k)" for y k by (simp add: sudo_machine_def quiet_machine_def)
    ultimately show ?thesis using a by (auto simp: launch_with_proxy_def start_program_def Let_def)
  qed
  have l: "w_log (world_of [] ()) = []" by (simp add: world_of_def)
  show ?thesis using launch_drops_root [OF a g] a u i e l by (auto simp: sudo_user_def)
qed

section \<open>The settings files\<close>

lemma replace_from_contains:
  assumes "find_from r pr s = Some (b, x, q, c)"
  shows "str_contains (replace_from r (\<lambda>_ _. y) pr s) y"
  using assms by (subst replace_from.simps) (auto simp: str_contains_split)

lemma pin_endpoint_contains:
  assumes "pin_endpoint raw = Some t"
  shows "str_contains t endpoint_setting"
proof (cases "rx_matches endpoint_rx raw")
  case True
  then obtain b x q c where f: "find_from endpoint_rx None raw = Some (b, x, q, c)" unfolding rx_matches_def by (metis not_None_eq prod_cases4)
  have "t = replace_from endpoint_rx (\<lambda>_ _. endpoint_setting) None raw" using assms True by (simp add: pin_endpoint_def rx_replace_def)
  then show ?thesis using replace_from_contains [OF f] by simp
next
  case False
  then obtain i y where "t = take (i + 1) raw @ nl @ ''  '' @ endpoint_setting @ y"
    using assms by (auto simp: pin_endpoint_def Let_def split: option.splits)
  then have "t = (take (i + 1) raw @ nl @ ''  '') @ endpoint_setting @ y" by simp
  then show ?thesis unfolding str_contains_split by blast
qed

definition pinned_file :: "string \<Rightarrow> 'k world \<Rightarrow> bool" where
  "pinned_file p w \<longleftrightarrow> (\<exists>x. w_files w p = Some x \<and> str_contains (f_data x) endpoint_setting)"

lemma pin_files_steps:
  assumes "pin_files m ps changed found w = ((e, changed', found'), w')" "\<forall>p\<in>set changed. pinned_file p w" "set changed \<subseteq> C" "set ps \<subseteq> C"
    and "\<And>q t. q \<in> C \<Longrightarrow> settings_backup q t \<notin> C" "found \<longleftrightarrow> changed \<noteq> []"
  shows "(e = None \<longrightarrow> (\<forall>p\<in>set changed'. pinned_file p w')) \<and> set changed' \<subseteq> C \<and>
    (\<forall>q. q \<notin> C \<and> (\<forall>p\<in>C. \<forall>t. q \<noteq> settings_backup p t) \<longrightarrow> w_files w' q = w_files w q)"
  using assms(1-4)
proof (induction ps arbitrary: changed found w)
  case (Cons p ps)
  obtain r w1 where r: "read_file m p w = (r, w1)" by fastforce
  have f1: "w_files w1 = w_files w" using file_callD(1) [OF r] by simp
  have k1: "\<forall>p\<in>set changed. pinned_file p w1" using Cons.prems(2) f1 by (simp add: pinned_file_def)
  show ?case
  proof (cases r)
    case (Inl x)
    then have run: "pin_files m ps changed found w1 = ((e, changed', found'), w')" using Cons.prems(1) r by simp
    have "set ps \<subseteq> C" using Cons.prems(4) by simp
    from Cons.IH [OF run k1 Cons.prems(3) this] show ?thesis unfolding f1 .
  next
    case (Inr raw)
    obtain t w2 where t: "now m w1 = (t, w2)" by fastforce
    obtain u w3 where b: "write_file m (settings_backup p t) raw 384 w2 = (u, w3)" by fastforce
    have f3: "q \<noteq> settings_backup p t \<Longrightarrow> w_files w3 q = w_files w q" for q
      using write_file_files [OF b] f1 nowD [OF t] by simp
    have pC: "p \<in> C" using Cons.prems(4) by simp
    have k3: "\<forall>q\<in>set changed. pinned_file q w3"
      using Cons.prems(2,3) f3 assms(5) [OF pC] by (auto simp: pinned_file_def) (metis subsetD)
    show ?thesis
    proof (cases "pin_endpoint raw")
      case None
      then show ?thesis using Cons.prems r Inr t b k3 f3 pC by auto
    next
      case (Some nxt)
      obtain v w4 where w4: "write_file m p nxt 384 w3 = (v, w4)" by fastforce
      have f4: "q \<noteq> p \<Longrightarrow> w_files w4 q = w_files w3 q" for q using write_file_files [OF w4] by simp
      show ?thesis
      proof (cases v)
        case (Inl x)
        have "q \<notin> C \<and> (\<forall>p\<in>C. \<forall>t. q \<noteq> settings_backup p t) \<Longrightarrow> w_files w4 q = w_files w q" for q
          using f3 [of q] f4 [of q] pC by metis
        then show ?thesis using Cons.prems r Inr t b Some w4 Inl by auto
      next
        case v: (Inr x)
        have pp: "pinned_file p w4" using write_file_ok [OF w4 [unfolded v]] pin_endpoint_contains [OF Some] by (auto simp: pinned_file_def)
        have "pinned_file q w4" if "q \<in> set changed" for q
          using that k3 f4 pp by (cases "q = p") (auto simp: pinned_file_def)
        then have k4: "\<forall>q\<in>set (changed @ [p]). pinned_file q w4" using pp by simp
        have run: "pin_files m ps (changed @ [p]) True w4 = ((e, changed', found'), w')"
          using Cons.prems(1) r Inr t b Some w4 v by simp
        have "set (changed @ [p]) \<subseteq> C" "set ps \<subseteq> C" using Cons.prems(3,4) pC by auto
        note ih = Cons.IH [OF run k4 this]
        have "q \<notin> C \<and> (\<forall>p\<in>C. \<forall>t. q \<noteq> settings_backup p t) \<Longrightarrow> w_files w4 q = w_files w q" for q
          using f3 [of q] f4 [of q] pC by metis
        then show ?thesis using ih by simp
      qed
    qed
  qed
qed simp

text \<open>When \<^verbatim>\<open>ForceProductionEndpoint\<close> reports success, every settings file it names holds the
  production setting, it names only candidates, and no file but the candidates and their backups
  changed.\<close>

theorem endpoint_pinned:
  assumes "force_production_endpoint pf m w = ((changed, None), w')"
    and "\<forall>p\<in>set (settings_candidates pf m). \<forall>q\<in>set (settings_candidates pf m). \<not> has_prefix q (p @ ''.backup-'')"
  shows "(\<forall>p\<in>set changed. \<exists>x. w_files w' p = Some x \<and> str_contains (f_data x) endpoint_setting) \<and>
    set changed \<subseteq> set (settings_candidates pf m) \<and>
    (\<forall>q. q \<notin> set (settings_candidates pf m) \<and> (\<forall>p\<in>set (settings_candidates pf m). \<forall>t. q \<noteq> settings_backup p t) \<longrightarrow>
       w_files w' q = w_files w q)"
proof -
  define C where "C = settings_candidates pf m"
  obtain e ch found w1 where run: "pin_files m C [] False w = ((e, ch, found), w1)" by (metis prod.collapse)
  have sep: "settings_backup q t \<notin> set C" if "q \<in> set C" for q t
  proof -
    have "has_prefix (settings_backup q t) (q @ ''.backup-'')" unfolding has_prefix_append settings_backup_def by (metis append.assoc)
    then show ?thesis using assms(2) that unfolding C_def by blast
  qed
  have steps: "(e = None \<longrightarrow> (\<forall>p\<in>set ch. pinned_file p w1)) \<and> set ch \<subseteq> set C \<and>
    (\<forall>q. q \<notin> set C \<and> (\<forall>p\<in>set C. \<forall>t. q \<noteq> settings_backup p t) \<longrightarrow> w_files w1 q = w_files w q)"
    by (rule pin_files_steps [OF run]) (use sep in auto)
  have e: "e = None" using assms(1) run by (cases e) (auto simp: force_production_endpoint_def C_def [symmetric] Let_def)
  show ?thesis
  proof (cases "changed = ch \<and> w' = w1")
    case True
    then show ?thesis using steps e by (auto simp: pinned_file_def C_def)
  next
    case False
    then obtain p ps d w2 x where c: "C = p # ps" and d: "mkdir_all m (path_dir p) w1 = (Inr d, w2)"
      and x: "write_file m p new_settings_text 384 w2 = (Inr x, w')" and ch: "changed = ch @ [p]"
      using assms(1) run e by (auto simp: force_production_endpoint_def C_def [symmetric] Let_def split: list.splits if_splits sum.splits prod.splits)
    have f: "q \<noteq> p \<Longrightarrow> w_files w' q = w_files w1 q" for q using write_file_files [OF x] file_callD(3) [OF d] by simp
    obtain y where y: "w_files w' p = Some y" "f_data y = (''{'' @ nl @ ''  '') @ endpoint_setting @ nl @ ''}'' @ nl"
      using write_file_ok [OF x] by (auto simp: new_settings_text_def)
    have "pinned_file p w'" unfolding pinned_file_def using y str_contains_split by blast
    moreover have "pinned_file q w'" if "q \<in> set ch" for q
      using that steps e f calculation by (cases "q = p") (auto simp: pinned_file_def)
    moreover have pC: "p \<in> set C" using c by simp
    moreover have "w_files w' q = w_files w q" if "q \<notin> set C" "\<forall>p\<in>set C. \<forall>t. q \<noteq> settings_backup p t" for q
      using that f [of q] steps pC by metis
    ultimately show ?thesis using steps ch unfolding C_def [symmetric] by (auto simp: pinned_file_def)
  qed
qed

definition bare_machine :: "unit machine" where
  "bare_machine = quiet_machine\<lparr>m_getenv := (\<lambda>k. if k = ''APPDATA'' then ''/a'' else [])\<rparr>"

lemma bare_candidates: "settings_candidates Windows bare_machine = [''/a/Antigravity/User/settings.json'', ''/a/Google/Antigravity/User/settings.json'']"
  by code_simp

theorem endpoint_pinned_witness:
  "\<exists>w' x. force_production_endpoint Windows bare_machine (world_of [] ()) = (([''/a/Antigravity/User/settings.json''], None), w') \<and>
     w_files w' ''/a/Antigravity/User/settings.json'' = Some x \<and> str_contains (f_data x) endpoint_setting"
proof -
  have f: "m_fault bare_machine k = None" for k by (simp add: bare_machine_def quiet_machine_def)
  have "fst (force_production_endpoint Windows bare_machine (world_of [] ())) = ([''/a/Antigravity/User/settings.json''], None)"
    unfolding force_production_endpoint_def bare_candidates
    by (simp add: read_file_def fault_now_def world_of_def Let_def f mkdir_all_def write_file_def write_handle_def close_handle_def tick_def)
  then obtain w' where r: "force_production_endpoint Windows bare_machine (world_of [] ()) = (([''/a/Antigravity/User/settings.json''], None), w')"
    by (metis prod.collapse)
  have "\<forall>p\<in>set (settings_candidates Windows bare_machine). \<forall>q\<in>set (settings_candidates Windows bare_machine). \<not> has_prefix q (p @ ''.backup-'')"
    by code_simp
  from endpoint_pinned [OF r this] r show ?thesis by auto
qed

end
