(* ===== verification/Go_Unicode.thy ===== *)
theory Go_Unicode imports Json World begin

text \<open>
  Go's \<^verbatim>\<open>unicode/utf8\<close> and \<^verbatim>\<open>strings.ToLower\<close> on texts that are not ASCII.  A byte that begins no
  valid encoding counts as U+FFFD, and is three bytes in the result; the table of \<^verbatim>\<open>unicode.ToLower\<close>
  beyond ASCII is the parameter \<^verbatim>\<open>m_rune_lower\<close>.  So offsets in the folded text need not be offsets in
  the text.  Nothing in this theory is code of the repository.
\<close>

definition cont_byte :: "char \<Rightarrow> bool" where
  "cont_byte c \<longleftrightarrow> (let n = of_char c :: nat in 128 \<le> n \<and> n \<le> 191)"

definition low6 :: "char \<Rightarrow> nat" where
  "low6 c = (of_char c :: nat) mod 64"

definition second_byte_ok :: "nat \<Rightarrow> char \<Rightarrow> bool" where
  "second_byte_ok lead c \<longleftrightarrow> cont_byte c \<and>
     (let n = of_char c :: nat in
      (lead = 224 \<longrightarrow> 160 \<le> n) \<and> (lead = 237 \<longrightarrow> n \<le> 159) \<and> (lead = 240 \<longrightarrow> 144 \<le> n) \<and> (lead = 244 \<longrightarrow> n \<le> 143))"

text \<open>\<^verbatim>\<open>utf8.DecodeRune\<close> of a text that is not empty: the code point and its width.\<close>

definition decode_rune :: "string \<Rightarrow> nat \<times> nat" where
  "decode_rune s =
     (let b = of_char (hd s) :: nat in
      if b < 128 then (b, 1)
      else (case tl s of
          c1 # t1 \<Rightarrow>
            if \<not> second_byte_ok b c1 then (65533, 1)
            else if 194 \<le> b \<and> b \<le> 223 then (b mod 32 * 64 + low6 c1, 2)
            else (case t1 of
                c2 # t2 \<Rightarrow>
                  if \<not> cont_byte c2 then (65533, 1)
                  else if 224 \<le> b \<and> b \<le> 239 then (b mod 16 * 4096 + low6 c1 * 64 + low6 c2, 3)
                  else (case t2 of
                      c3 # _ \<Rightarrow>
                        if cont_byte c3 \<and> 240 \<le> b \<and> b \<le> 244
                        then (b mod 8 * 262144 + low6 c1 * 4096 + low6 c2 * 64 + low6 c3, 4) else (65533, 1)
                    | [] \<Rightarrow> (65533, 1))
              | [] \<Rightarrow> (65533, 1))
        | [] \<Rightarrow> (65533, 1)))"

lemma decode_rune_width: "0 < snd (decode_rune s)"
  by (auto simp: decode_rune_def Let_def split: list.split)

function text_runes :: "string \<Rightarrow> nat list" where
  "text_runes s = (if s = [] then [] else (case decode_rune s of (r, n) \<Rightarrow> r # text_runes (drop n s)))"
  by pat_completeness auto
termination
  by (relation "measure length") (auto, metis decode_rune_width length_greater_0_conv diff_less snd_conv)

declare text_runes.simps [simp del]

definition encode_rune :: "nat \<Rightarrow> string" where
  "encode_rune r = utf8 (if 55296 \<le> r \<and> r \<le> 57343 \<or> 1114111 < r then 65533 else r)"

definition ascii_text :: "string \<Rightarrow> bool" where
  "ascii_text s \<longleftrightarrow> list_all (\<lambda>c. (of_char c :: nat) < 128) s"

definition rune_lower :: "'k machine \<Rightarrow> nat \<Rightarrow> nat" where
  "rune_lower m r = (if r < 128 then of_char (lower_char (char_of r)) else m_rune_lower m r)"

definition lower_text :: "'k machine \<Rightarrow> string \<Rightarrow> string" where
  "lower_text m s = (if ascii_text s then to_lower s else concat (map (encode_rune \<circ> rune_lower m) (text_runes s)))"

lemma lower_text_ascii: "ascii_text s \<Longrightarrow> lower_text m s = to_lower s"
  by (simp add: lower_text_def)

text \<open>An invalid byte grows.\<close>

lemma lower_text_grows: "m_rune_lower m 65533 = 65533 \<Longrightarrow> length (lower_text m (replicate n (CHR 0xFF))) = 3 * n"
proof -
  assume m: "m_rune_lower m 65533 = 65533"
  have d: "decode_rune (CHR 0xFF # s) = (65533, 1)" for s by (cases s) (simp_all add: decode_rune_def second_byte_ok_def cont_byte_def split: list.split)
  have r: "text_runes (replicate n (CHR 0xFF)) = replicate n 65533"
  proof (induction n)
    case (Suc n)
    then show ?case by (subst text_runes.simps) (simp add: d)
  qed (simp add: text_runes.simps)
  have u: "length (encode_rune 65533) = 3" by (simp add: encode_rune_def utf8_def)
  show ?thesis
  proof (cases n)
    case (Suc k)
    then have "\<not> ascii_text (replicate n (CHR 0xFF))" by (simp add: ascii_text_def)
    then have "lower_text m (replicate n (CHR 0xFF)) = concat (replicate n (encode_rune 65533))"
      by (simp add: lower_text_def r rune_lower_def m)
    then show ?thesis by (simp add: length_concat u sum_list_replicate)
  qed (simp add: lower_text_def ascii_text_def to_lower_def)
qed

end
