(* ===== verification/Doctor.thy ===== *)
theory Doctor imports Diagnostics Antigravity Go_Unicode begin

text \<open>
  The Agent Doctor (\<^verbatim>\<open>antigravity/doctor.go\<close>): the log directories, the recent files in them, the
  signatures of known causes, and the advice.  The lemmas show how the likely cause is chosen and what a
  snippet can leak.  The text is searched in lower case, and the offset found is used on the text as it
  is, as in the code: a slice out of range is the panic \<open>None\<close>.  A file is read in one step, and the context is asked once per directory and once per file.
\<close>

section \<open>Report and signatures\<close>

record agent_finding =
  af_severity :: string
  af_kind :: string
  af_message :: string
  af_file :: string
  af_snippet :: string

record doctor_report =
  dr_cause :: string
  dr_summary :: string
  dr_scanned :: nat
  dr_roots :: "string list"
  dr_trajectories :: "string list"
  dr_traces :: "string list"
  dr_findings :: "agent_finding list"
  dr_steps :: "string list"

record doctor_pattern =
  dp_needle :: string
  dp_kind :: string
  dp_severity :: string
  dp_message :: string
  dp_priority :: nat

definition pattern :: "string \<Rightarrow> string \<Rightarrow> string \<Rightarrow> string \<Rightarrow> nat \<Rightarrow> doctor_pattern" where
  "pattern n k s t p = \<lparr>dp_needle = n, dp_kind = k, dp_severity = s, dp_message = t, dp_priority = p\<rparr>"

definition doctor_patterns :: "doctor_pattern list" where
  "doctor_patterns =
     [pattern ''user location is not supported'' ''geo_eligibility'' ''error'' ''Backend rejected the model request because the user/request location is not supported.'' 100,
      pattern ''failed_precondition'' ''failed_precondition'' ''error'' ''Google backend returned FAILED_PRECONDITION. Inspect the nearby message; location/eligibility is a common cause.'' 90,
      pattern ''lightning dunning decision is deny'' ''account_eligibility'' ''error'' ''Backend account eligibility/billing decision denied the request.'' 100,
      pattern ''permission_denied'' ''account_permission'' ''error'' ''Backend denied the request for this account or credential.'' 95,
      pattern ''model_capacity_exhausted'' ''capacity'' ''warn'' ''Selected model/backend is out of capacity.'' 80,
      pattern ''resource_exhausted'' ''quota'' ''warn'' ''Quota or resource limit was exhausted.'' 85,
      pattern ''http 429'' ''quota'' ''warn'' ''HTTP 429 indicates quota/rate limiting.'' 82,
      pattern ''http 503'' ''backend_unavailable'' ''warn'' ''HTTP 503 indicates backend unavailability/capacity pressure.'' 80,
      pattern ''http 502'' ''backend_unavailable'' ''warn'' ''HTTP 502 indicates a transient backend/gateway failure.'' 75,
      pattern ''http 500'' ''backend_error'' ''error'' ''HTTP 500 came from the Antigravity/Google backend.'' 85,
      pattern (dquote # ''status'' @ dquote # '':'' @ dquote # ''unknown'' @ [dquote]) ''backend_error'' ''error'' ''Backend returned UNKNOWN; this is not a local proxy syntax error.'' 82,
      pattern ''mcp error'' ''mcp'' ''error'' ''An MCP server/configuration error is terminating the agent.'' 90,
      pattern ''mcp_config'' ''mcp'' ''warn'' ''MCP configuration appears in the failing logs; test once with MCP disabled.'' 60,
      pattern ''pretooluse'' ''hook'' ''error'' ''A PreToolUse hook failed; a hook/extension can terminate every agent tool call.'' 92,
      pattern ''hook error'' ''hook'' ''error'' ''An agent hook failed during execution.'' 88,
      pattern ''extension host'' ''extension_host'' ''warn'' ''Extension-host instability appears in the logs.'' 70,
      pattern ''workspacestorage'' ''workspace_state'' ''warn'' ''Workspace state/storage appears in the failure path; a backed-up workspace-state reset may help.'' 65,
      pattern ''token refresh'' ''auth'' ''error'' ''OAuth token refresh failed during agent execution.'' 88,
      pattern ''invalid_grant'' ''auth'' ''error'' ''OAuth grant/session is invalid; sign-out and clean re-authentication is indicated.'' 90,
      pattern ''agent execution terminated due to error'' ''generic_termination'' ''warn'' ''The generic Agent execution failure was found, but this line alone does not identify the root cause.'' 20]"

definition hex_char :: "char \<Rightarrow> bool" where
  "hex_char c \<longleftrightarrow> ascii_digit c \<or> char_in 97 102 (lower_char c)"

definition uuid_rx :: rx where
  "uuid_rx = rx_seq [rx_times 8 (Cls hex_char), Cls (\<lambda>c. c = CHR ''-''), rx_at_least 20 (Cls (\<lambda>c. hex_char c \<or> c = CHR ''-''))]"

definition id_label_rx :: "string \<Rightarrow> rx" where
  "id_label_rx l = rx_seq
     [rx_lit_i l, rx_opt (Alt (Seq (rx_plus (Cls rx_space)) (rx_lit_i ''id'')) (rx_lit_i ''id'')),
      Star True (Cls rx_space), Cls (\<lambda>c. c \<in> set '':=''), Star True (Cls rx_space)]"

definition trajectory_rx :: rx where
  "trajectory_rx = Seq (id_label_rx ''trajectory'') (Cap 1 uuid_rx)"

definition trace_rx :: rx where
  "trace_rx = Seq (id_label_rx ''trace'')
     (Cap 1 (rx_alts [Seq (rx_lit_i ''0x'') (rx_plus (Cls hex_char)), rx_at_least 16 (Cls hex_char), uuid_rx]))"

section \<open>Where the logs are\<close>

fun unique_from :: "string list \<Rightarrow> string list \<Rightarrow> string list" where
  "unique_from seen [] = []"
| "unique_from seen (x # xs) = (if x = [] \<or> x \<in> set seen then unique_from seen xs else x # unique_from (x # seen) xs)"

definition unique_strings :: "string list \<Rightarrow> string list" where
  "unique_strings xs = unique_from [] xs"

definition append_unique :: "string list \<Rightarrow> string \<Rightarrow> string list" where
  "append_unique xs v = (if v \<in> set xs then xs else xs @ [v])"

definition agent_log_roots :: "platform \<Rightarrow> 'k machine \<Rightarrow> string list" where
  "agent_log_roots pf m =
     (let home = user_home_dir m;
          profile = (if pf = Windows
            then concat (map (\<lambda>base. if base = [] then [] else [path_joins base [''Antigravity''], path_joins base [''Google'', ''Antigravity'']])
                   [m_getenv m ''APPDATA'', m_getenv m ''LOCALAPPDATA''])
            else (let cfg0 = m_getenv m ''XDG_CONFIG_HOME''; cfg = (if cfg0 = [] \<and> home \<noteq> [] then path_join home ''.config'' else cfg0) in
              if cfg \<noteq> [] then map (path_joins cfg) [[''Antigravity''], [''antigravity''], [''Google'', ''Antigravity'']] else []));
          own = (if home \<noteq> [] then map (path_joins home) [[''.antigravity''], [''.antigravity-ide''], [''.gemini'', ''antigravity-ide''], [''.gemini'']] else [])
      in unique_strings (profile @ own))"

text \<open>\<^verbatim>\<open>filepath.Rel\<close> of a path relative to the home directory, lexically.\<close>

fun strip_common :: "string list \<Rightarrow> string list \<Rightarrow> string list \<times> string list" where
  "strip_common (a # as) (b # bs) = (if a = b then strip_common as bs else (a # as, b # bs))"
| "strip_common as bs = (as, bs)"

definition comps_of :: "string \<Rightarrow> string list" where
  "comps_of p = filter (\<lambda>c. c \<noteq> [] \<and> c \<noteq> ''.'') (split_char (CHR ''/'') (path_clean p))"

definition path_rel :: "string \<Rightarrow> string \<Rightarrow> string option" where
  "path_rel base target =
     (if path_is_abs base \<noteq> path_is_abs target then None
      else (case strip_common (comps_of base) (comps_of target) of
          ([], []) \<Rightarrow> Some ''.''
        | ([], ts) \<Rightarrow> Some (str_join ts ''/'')
        | (b # bs, ts) \<Rightarrow> if ''..'' = b then None else Some (str_join (map (\<lambda>_. ''..'') (b # bs) @ ts) ''/'')))"

definition display_path :: "'k machine \<Rightarrow> string \<Rightarrow> string" where
  "display_path m p =
     (let home = user_home_dir m in
      if home = [] then p
      else (case path_rel home p of
          None \<Rightarrow> p
        | Some rel \<Rightarrow> if rel \<noteq> ''.'' \<and> \<not> has_prefix rel ''..'' then path_join ''~'' rel else p))"

section \<open>Which files\<close>

definition path_ext :: "string \<Rightarrow> string" where
  "path_ext p = (let b = last (split_char (CHR ''/'') p) in case last_index b (CHR ''.'') of None \<Rightarrow> [] | Some i \<Rightarrow> drop i b)"

definition log_ext :: "'k machine \<Rightarrow> string \<Rightarrow> bool" where
  "log_ext m p \<longleftrightarrow> lower_text m (path_ext p) \<in> {''.log'', ''.txt'', ''.json'', ''.jsonl''}"

definition skipped_dir :: "'k machine \<Rightarrow> string \<Rightarrow> bool" where
  "skipped_dir m name \<longleftrightarrow> lower_text m name \<in> {''node_modules'', ''.git''}"

text \<open>The walk does not enter a skipped directory: the root itself or one between it and the file.\<close>

definition entered :: "'k machine \<Rightarrow> string \<Rightarrow> string \<Rightarrow> bool" where
  "entered m root p \<longleftrightarrow> \<not> list_ex (skipped_dir m) (path_base root # butlast (split_char (CHR ''/'') (drop (length root + 1) p)))"

definition fourteen_days :: int where "fourteen_days = 1209600000000000"
definition max_log_size :: int where "max_log_size = 33554432"
definition tail_size :: nat where "tail_size = 2097152"

definition wanted_log :: "'k machine \<Rightarrow> int \<Rightarrow> string \<Rightarrow> walk_file \<Rightarrow> bool" where
  "wanted_log m cutoff root f \<longleftrightarrow> entered m root (wf_path f) \<and> log_ext m (wf_path f) \<and> \<not> wf_mod f < cutoff \<and> \<not> wf_size f > max_log_size"

fun existing_roots :: "'k machine \<Rightarrow> string list \<Rightarrow> 'k world \<Rightarrow> string list \<times> 'k world" where
  "existing_roots m [] w = ([], w)"
| "existing_roots m (r # rs) w =
     (let (st, w1) = host_stat m r w; (out, w2) = existing_roots m rs w1 in
      ((case st of Inr s \<Rightarrow> if hs_dir s then [display_path m r] else [] | Inl _ \<Rightarrow> []) @ out, w2))"

fun candidate_logs :: "'k machine \<Rightarrow> ctx \<Rightarrow> int \<Rightarrow> string list \<Rightarrow> 'k world \<Rightarrow> walk_file list \<times> 'k world" where
  "candidate_logs m ctx cutoff [] w = ([], w)"
| "candidate_logs m ctx cutoff (r # rs) w =
     (if ctx (w_tick w) \<noteq> None then ([], w)
      else (let (fs, w1) = observe m (\<lambda>k. m_walk m k r) w; (out, w2) = candidate_logs m ctx cutoff rs w1 in
        (filter (wanted_log m cutoff r) fs @ out, w2)))"

definition newest_logs :: "walk_file list \<Rightarrow> walk_file list" where
  "newest_logs fs = take 300 (sort_key (\<lambda>f. - wf_mod f) fs)"

text \<open>\<^verbatim>\<open>readTail\<close>: the last two MiB.\<close>

definition read_tail :: "'k machine \<Rightarrow> string \<Rightarrow> 'k world \<Rightarrow> string res \<times> 'k world" where
  "read_tail m p w =
     (case host_file m p w of (Inl e, w1) \<Rightarrow> (Inl e, w1) | (Inr b, w1) \<Rightarrow> (Inr (drop (length b - tail_size) b), w1))"

section \<open>Scanning\<close>

definition ellipsis :: string where "ellipsis = [CHR 0xE2, CHR 0x80, CHR 0xA6]"

text \<open>The text around an occurrence, redacted after it was cut out; \<open>None\<close> is the panic of a slice whose
  bounds are out of range.\<close>

definition safe_snippet :: "string \<Rightarrow> nat \<Rightarrow> nat \<Rightarrow> string option" where
  "safe_snippet txt idx n =
     (let start = idx - 220; stop = min (idx + n + 360) (length txt) in
      if start > stop then None
      else (let s = str_join (str_fields (redact (drop start (take stop txt)))) '' '' in
        Some (if length s > 700 then take 700 s @ ellipsis else s)))"

record scan =
  sc_scanned :: nat
  sc_trajectories :: "string list"
  sc_traces :: "string list"
  sc_findings :: "agent_finding list"
  sc_seen :: "(string \<times> string) list"
  sc_priority :: nat
  sc_kind :: string

definition empty_scan :: scan where
  "empty_scan = \<lparr>sc_scanned = 0, sc_trajectories = [], sc_traces = [], sc_findings = [], sc_seen = [], sc_priority = 0, sc_kind = ''unknown''\<rparr>"

text \<open>One signature on one file.  The key of the code is the kind, a bar and the path; no kind has a
  bar.\<close>

definition apply_pattern :: "'k machine \<Rightarrow> string \<Rightarrow> string \<Rightarrow> scan \<Rightarrow> doctor_pattern \<Rightarrow> scan option" where
  "apply_pattern m p txt s d =
     (case str_index (lower_text m txt) (dp_needle d) of
        None \<Rightarrow> Some s
      | Some idx \<Rightarrow>
          (if (dp_kind d, p) \<in> set (sc_seen s) then Some s
           else (case safe_snippet txt idx (length (dp_needle d)) of
               None \<Rightarrow> None
             | Some snip \<Rightarrow>
                 Some (let s1 = s\<lparr>sc_seen := (dp_kind d, p) # sc_seen s,
                     sc_findings := sc_findings s @ [\<lparr>af_severity = dp_severity d, af_kind = dp_kind d, af_message = dp_message d,
                       af_file = display_path m p, af_snippet = snip\<rparr>]\<rparr>
                   in if dp_priority d > sc_priority s then s1\<lparr>sc_priority := dp_priority d, sc_kind := dp_kind d\<rparr> else s1))))"

fun apply_patterns :: "'k machine \<Rightarrow> string \<Rightarrow> string \<Rightarrow> doctor_pattern list \<Rightarrow> scan \<Rightarrow> scan option" where
  "apply_patterns m p txt [] s = Some s"
| "apply_patterns m p txt (d # ds) s = (case apply_pattern m p txt s d of None \<Rightarrow> None | Some s1 \<Rightarrow> apply_patterns m p txt ds s1)"

definition scan_text :: "'k machine \<Rightarrow> string \<Rightarrow> string \<Rightarrow> scan \<Rightarrow> scan option" where
  "scan_text m p txt s =
     apply_patterns m p txt doctor_patterns
       (s\<lparr>sc_scanned := sc_scanned s + 1,
          sc_trajectories := fold (\<lambda>x xs. append_unique xs (cap_text 1 (snd x))) (rx_find_all trajectory_rx txt) (sc_trajectories s),
          sc_traces := fold (\<lambda>x xs. append_unique xs (cap_text 1 (snd x))) (rx_find_all trace_rx txt) (sc_traces s)\<rparr>)"

fun scan_files :: "'k machine \<Rightarrow> ctx \<Rightarrow> walk_file list \<Rightarrow> scan \<Rightarrow> 'k world \<Rightarrow> scan option \<times> 'k world" where
  "scan_files m ctx [] s w = (Some s, w)"
| "scan_files m ctx (f # fs) s w =
     (if ctx (w_tick w) \<noteq> None then (Some s, w)
      else (case read_tail m (wf_path f) w of
          (Inl _, w1) \<Rightarrow> scan_files m ctx fs s w1
        | (Inr txt, w1) \<Rightarrow> (case scan_text m (wf_path f) txt s of None \<Rightarrow> (None, w1) | Some s1 \<Rightarrow> scan_files m ctx fs s1 w1)))"

section \<open>Advice\<close>

definition update_first :: string where
  "update_first = ''Update Antigravity IDE to the latest official build before deeper troubleshooting.''"

definition doctor_advice :: "string \<Rightarrow> nat \<Rightarrow> nat \<Rightarrow> string \<times> string list" where
  "doctor_advice kind findings scanned =
     (if kind \<in> {''geo_eligibility'', ''failed_precondition''} then
        (''Authentication works, but the model-generation backend is rejecting the request at the geo/eligibility layer.'',
         [update_first, ''Check the exact error/Trajectory ID in this report; changing the local proxy alone may not change a server-side account country association.'',
          ''Verify the Google account Country version and supported-country eligibility, then sign out/in after any approved account-country change.''])
      else if kind \<in> {''account_eligibility'', ''account_permission''} then
        (''The request reaches Google, but the account/credential is being denied by a backend eligibility or permission check.'',
         [update_first, ''Capture the Trajectory/Trace ID and submit it through Antigravity feedback/support.'',
          ''A/B test the same machine/network with another eligible account if available; if only one account fails, this is account-side rather than routing.''])
      else if kind = ''mcp'' then
        (''An MCP configuration/server is the strongest local cause found.'',
         [update_first, ''Temporarily disable all MCP servers and retry a new empty project with a one-word prompt.'',
          ''Re-enable MCP servers one by one after the agent works.''])
      else if kind = ''hook'' then
        (''A hook/extension is terminating agent execution before or during tool use.'',
         [update_first, ''Disable the failing hook/extension and retry with a clean project.'',
          ''If the log names an extension, update or remove that extension before resetting broader state.''])
      else if kind = ''auth'' then
        (''The IDE is signed in, but the execution path is failing token refresh/session validation.'',
         [update_first, ''Sign out of Antigravity, fully close all Antigravity/language-server processes, then authenticate again.''])
      else if kind = ''quota'' then
        (''The backend reports quota/rate exhaustion.'',
         [update_first, ''Check the Antigravity Models/Quota screen and retry after the quota window resets.''])
      else if kind \<in> {''capacity'', ''backend_unavailable'', ''backend_error''} then
        (''The request reaches the backend, which is returning a server/capacity error.'',
         [update_first, ''Retry another model and a new empty conversation; preserve the Trajectory/Trace ID for support if it persists.''])
      else if kind \<in> {''workspace_state'', ''extension_host''} then
        (''Local workspace/extension state is implicated by the logs.'',
         [update_first, ''Back up Antigravity state before clearing workspace/global cache; avoid deleting the whole profile until a targeted reset is tried.''])
      else if findings = 0 then
        (''No known root-cause signature was found in '' @ itoa (int scanned) @ '' recent log files.'',
         [update_first, ''Reproduce the failure once, then immediately run Agent Doctor again so the newest log entry is captured.'',
          ''Copy the visible Error ID / Trajectory ID from Antigravity if one is shown.''])
      else
        (''The generic termination was found, but no higher-confidence signature was present nearby.'',
         [update_first, ''Reproduce once with all MCP servers disabled and a fresh empty project, then run Agent Doctor again.'']))"

definition agent_doctor :: "platform \<Rightarrow> 'k machine \<Rightarrow> ctx \<Rightarrow> 'k world \<Rightarrow> doctor_report option \<times> 'k world" where
  "agent_doctor pf m ctx w =
     (let roots = agent_log_roots pf m; (shown, w1) = existing_roots m roots w; (t, w2) = now m w1;
          (logs, w3) = candidate_logs m ctx (t_nanos t - fourteen_days) roots w2
      in case scan_files m ctx (newest_logs logs) empty_scan w3 of
           (None, w4) \<Rightarrow> (None, w4)
         | (Some s, w4) \<Rightarrow>
             (let (summary, steps) = doctor_advice (sc_kind s) (length (sc_findings s)) (sc_scanned s) in
              (Some \<lparr>dr_cause = sc_kind s, dr_summary = summary, dr_scanned = sc_scanned s, dr_roots = shown,
                 dr_trajectories = sc_trajectories s, dr_traces = sc_traces s, dr_findings = sc_findings s, dr_steps = steps\<rparr>, w4)))"

section \<open>The command\<close>

text \<open>\<^verbatim>\<open>exitCodeForReport\<close> and, after the flags were parsed, \<^verbatim>\<open>run\<close> of the command \<^verbatim>\<open>agent-doctor\<close>: the exit
  code and the report printed.\<close>

definition exit_code_for :: "doctor_report \<Rightarrow> bool \<Rightarrow> int" where
  "exit_code_for r strict = (if strict \<and> dr_cause r = ''unknown'' then 2 else 0)"

definition run_doctor :: "platform \<Rightarrow> 'k machine \<Rightarrow> ctx \<Rightarrow> int \<Rightarrow> bool \<Rightarrow> 'k world \<Rightarrow> (int \<times> doctor_report option) option \<times> 'k world" where
  "run_doctor pf m ctx timeout strict w =
     (if timeout \<le> 0 then (Some (2, None), w)
      else (case agent_doctor pf m ctx w of
          (None, w1) \<Rightarrow> (None, w1)
        | (Some r, w1) \<Rightarrow>
            (Some (if ctx (w_tick w1) \<noteq> None \<and> dr_scanned r = 0 then 1 else exit_code_for r strict, Some r), w1)))"

section \<open>Lemmas\<close>

lemma snippet_some:
  assumes "str_index (lower_text m txt) needle = Some idx" "ascii_text txt"
  shows "safe_snippet txt idx (length needle) \<noteq> None"
proof -
  have "idx + length needle \<le> length (to_lower txt)"
    using assms has_prefix_length [of "drop idx (to_lower txt)" needle] by (auto simp: str_index_Some lower_text_ascii)
  then show ?thesis by (simp add: safe_snippet_def Let_def to_lower_def)
qed

text \<open>The finding that a signature makes.\<close>

definition finding_by :: "doctor_pattern \<Rightarrow> agent_finding \<Rightarrow> bool" where
  "finding_by d f \<longleftrightarrow> af_kind f = dp_kind d \<and> af_message f = dp_message d \<and> af_severity f = dp_severity d"

text \<open>The state of a scan: each finding comes from a signature that does not outrank the cause, and the
  cause is that of a finding, or unknown when there is none.\<close>

definition scan_ok :: "scan \<Rightarrow> bool" where
  "scan_ok s \<longleftrightarrow>
     (\<forall>f\<in>set (sc_findings s). \<exists>d\<in>set doctor_patterns. finding_by d f \<and> dp_priority d \<le> sc_priority s) \<and>
     (if sc_findings s = [] then sc_kind s = ''unknown'' \<and> sc_priority s = 0
      else (\<exists>f\<in>set (sc_findings s). \<exists>d\<in>set doctor_patterns. finding_by d f \<and> sc_kind s = dp_kind d \<and> sc_priority s = dp_priority d)) \<and>
     length (sc_findings s) = length (sc_seen s) \<and> distinct (sc_seen s) \<and> distinct (sc_trajectories s) \<and> distinct (sc_traces s)"

lemma pattern_priority: "d \<in> set doctor_patterns \<Longrightarrow> 0 < dp_priority d"
  by (auto simp: doctor_patterns_def pattern_def)

lemma apply_pattern_ok:
  assumes "scan_ok s" "d \<in> set doctor_patterns" "apply_pattern m p txt s d = Some s'"
  shows "scan_ok s' \<and> sc_scanned s' = sc_scanned s"
proof (cases "str_index (lower_text m txt) (dp_needle d)")
  case None
  then show ?thesis using assms by (simp add: apply_pattern_def)
next
  case (Some idx)
  show ?thesis
  proof (cases "(dp_kind d, p) \<in> set (sc_seen s)")
    case True
    then show ?thesis using assms Some by (simp add: apply_pattern_def)
  next
    case False
    obtain snip where n: "safe_snippet txt idx (length (dp_needle d)) = Some snip"
      using assms(3) Some False by (cases "safe_snippet txt idx (length (dp_needle d))") (simp_all add: apply_pattern_def)
    define f where "f = \<lparr>af_severity = dp_severity d, af_kind = dp_kind d, af_message = dp_message d, af_file = display_path m p, af_snippet = snip\<rparr>"
    define s1 where "s1 = s\<lparr>sc_seen := (dp_kind d, p) # sc_seen s, sc_findings := sc_findings s @ [f]\<rparr>"
    define s2 where "s2 = (if dp_priority d > sc_priority s then s1\<lparr>sc_priority := dp_priority d, sc_kind := dp_kind d\<rparr> else s1)"
    have a: "apply_pattern m p txt s d = Some s2" using Some False n by (simp add: apply_pattern_def Let_def s2_def s1_def f_def)
    have fb: "finding_by d f" by (simp add: finding_by_def f_def)
    have l: "sc_findings s2 = sc_findings s @ [f]" "sc_priority s \<le> sc_priority s2" "dp_priority d \<le> sc_priority s2"
      "sc_seen s2 = (dp_kind d, p) # sc_seen s" "sc_trajectories s2 = sc_trajectories s" "sc_traces s2 = sc_traces s" "sc_scanned s2 = sc_scanned s"
      by (simp_all add: s2_def s1_def)
    have e: "\<forall>g\<in>set (sc_findings s2). \<exists>d\<in>set doctor_patterns. finding_by d g \<and> dp_priority d \<le> sc_priority s2"
      using assms l(1-3) by (auto simp: scan_ok_def intro: order_trans) (use fb in blast)
    have c: "\<exists>g\<in>set (sc_findings s2). \<exists>d\<in>set doctor_patterns. finding_by d g \<and> sc_kind s2 = dp_kind d \<and> sc_priority s2 = dp_priority d"
    proof (cases "dp_priority d > sc_priority s")
      case True
      then show ?thesis using fb assms(2) l(1) by (auto simp: s2_def)
    next
      case False
      then have "sc_findings s \<noteq> []" using assms pattern_priority [OF assms(2)] by (auto simp: scan_ok_def split: if_splits)
      then show ?thesis using assms(1) False by (auto simp: s2_def s1_def scan_ok_def)
    qed
    have "s' = s2" using a assms(3) by simp
    then show ?thesis using e c l False assms(1) by (auto simp: scan_ok_def)
  qed
qed

lemma apply_pattern_total: "ascii_text txt \<Longrightarrow> apply_pattern m p txt s d \<noteq> None"
  using snippet_some [of m "txt" "dp_needle d"]
  by (auto simp: apply_pattern_def split: option.split)

lemma apply_patterns_ok:
  "scan_ok s \<Longrightarrow> set ds \<subseteq> set doctor_patterns \<Longrightarrow> apply_patterns m p txt ds s = Some s' \<Longrightarrow>
   scan_ok s' \<and> sc_scanned s' = sc_scanned s"
proof (induction ds arbitrary: s)
  case (Cons d ds)
  obtain s1 where 1: "apply_pattern m p txt s d = Some s1" "apply_patterns m p txt ds s1 = Some s'"
    using Cons.prems(3) by (auto split: option.splits)
  have "scan_ok s1 \<and> sc_scanned s1 = sc_scanned s" using apply_pattern_ok [OF Cons.prems(1) _ 1(1)] Cons.prems(2) by simp
  then show ?case using Cons.IH [OF _ _ 1(2)] Cons.prems(2) by simp
qed simp

lemma apply_patterns_total: "ascii_text txt \<Longrightarrow> apply_patterns m p txt ds s \<noteq> None"
  by (induction ds arbitrary: s) (simp_all add: apply_pattern_total split: option.split)

lemma append_unique_distinct: "distinct xs \<Longrightarrow> distinct (fold (\<lambda>x xs. append_unique xs (g x)) ys xs)"
  by (induction ys arbitrary: xs) (auto simp: append_unique_def)

lemma scan_text_ok:
  assumes "scan_ok s" "scan_text m p txt s = Some s'"
  shows "scan_ok s' \<and> sc_scanned s' = sc_scanned s + 1"
proof -
  define s1 where "s1 = s\<lparr>sc_scanned := sc_scanned s + 1,
    sc_trajectories := fold (\<lambda>x xs. append_unique xs (cap_text 1 (snd x))) (rx_find_all trajectory_rx txt) (sc_trajectories s),
    sc_traces := fold (\<lambda>x xs. append_unique xs (cap_text 1 (snd x))) (rx_find_all trace_rx txt) (sc_traces s)\<rparr>"
  have "scan_ok s1" using assms(1) by (simp add: s1_def scan_ok_def append_unique_distinct)
  moreover have "apply_patterns m p txt doctor_patterns s1 = Some s'"
    using assms(2) unfolding scan_text_def s1_def [symmetric] .
  ultimately show ?thesis using apply_patterns_ok [of s1 doctor_patterns m p "txt" s'] by (simp add: s1_def)
qed

text \<open>What the scan of a log file as the system gave it can panic on: a text beyond ASCII.\<close>

definition foreign_log :: "'k machine \<Rightarrow> string \<Rightarrow> bool" where
  "foreign_log m p \<longleftrightarrow> (\<exists>k b. m_host_file m k p = Inr b \<and> \<not> ascii_text (drop (length b - tail_size) b))"

lemma read_tail_text: "read_tail m p w = (Inr txt, w') \<Longrightarrow> \<not> ascii_text txt \<Longrightarrow> foreign_log m p"
  by (auto simp: read_tail_def host_file_def observe_def foreign_log_def Let_def split: prod.splits sum.splits)

lemma scan_files_ok:
  assumes "scan_files m ctx fs s w = (r, w')" "scan_ok s"
  shows "observes (\<lambda>_. False) w w' \<and>
    (case r of None \<Rightarrow> \<exists>f\<in>set fs. foreign_log m (wf_path f) | Some s' \<Rightarrow> scan_ok s' \<and> sc_scanned s' \<le> sc_scanned s + length fs)"
  using assms
proof (induction fs arbitrary: s w)
  case (Cons f fs)
  show ?case
  proof (cases "ctx (w_tick w) = None")
    case True
    obtain t w1 where t: "read_tail m (wf_path f) w = (t, w1)" by fastforce
    have o: "observes (\<lambda>_. False) w w1"
      using t by (auto simp: read_tail_def split: prod.splits sum.splits intro: host_file_observes)
    show ?thesis
    proof (cases t)
      case (Inl e)
      then have "scan_files m ctx fs s w1 = (r, w')" using Cons.prems(1) True t by simp
      from Cons.IH [OF this Cons.prems(2)] show ?thesis using observes_trans [OF o] by (auto split: option.splits)
    next
      case (Inr raw)
      show ?thesis
      proof (cases "scan_text m (wf_path f) raw s")
        case None
        then have "\<not> ascii_text raw" using apply_patterns_total unfolding scan_text_def by metis
        then have "foreign_log m (wf_path f)" using read_tail_text t Inr by blast
        then show ?thesis using None Cons.prems(1) True t Inr o by auto
      next
        case (Some s1)
        note s1 = scan_text_ok [OF Cons.prems(2) Some]
        have "scan_files m ctx fs s1 w1 = (r, w')" using Cons.prems(1) True t Inr Some by simp
        from Cons.IH [OF this] show ?thesis using s1 observes_trans [OF o] by (auto split: option.splits)
      qed
    qed
  next
    case False
    then show ?thesis using Cons.prems by (auto simp: observes_refl)
  qed
qed auto

lemma existing_roots_observes: "existing_roots m rs w = (r, w') \<Longrightarrow> observes (\<lambda>_. False) w w'"
proof (induction rs arbitrary: w r)
  case (Cons a rs)
  then show ?case
    by (auto simp: Let_def split: prod.splits intro: observes_trans host_stat_observes)
qed simp

lemma candidate_logs_observes: "candidate_logs m ctx t rs w = (r, w') \<Longrightarrow> observes (\<lambda>_. False) w w'"
proof (induction rs arbitrary: w r)
  case (Cons a rs)
  then show ?case
    by (auto simp: Let_def split: prod.splits if_splits intro: observes_trans observe_observes)
qed simp

lemma empty_scan_ok: "scan_ok empty_scan"
  by (simp add: scan_ok_def empty_scan_def)

lemma fields_acc_run: "\<forall>c\<in>set s. \<not> is_space c \<Longrightarrow> fields_acc acc s = (if acc = [] \<and> s = [] then [] else [rev acc @ s])"
  by (induction s arbitrary: acc) auto

section \<open>Properties\<close>


text \<open>A log that panics: 400 bytes that are no UTF-8, and a signature.  Each of the bytes is three in the folded
  text, so the offset of the signature lies behind the end of the text.\<close>

lemma snippet_out_of_range: "safe_snippet (replicate 400 (CHR 0xFF) @ ''permission_denied'') 1200 (length ''permission_denied'') = None"
  by (simp add: safe_snippet_def)

text \<open>Redaction after the cut.  A snippet is redacted only after it was cut out of the log, so the
  end of a secret whose beginning lies before the cut is shown as it is: here the last 220 characters of
  a bearer token that a known signature follows.\<close>

theorem snippet_leaks_token:
  assumes "length token = 220" "\<forall>c\<in>set token. plain_char c"
  shows "safe_snippet (''Authorization: Bearer '' @ token @ ''|permission_denied'') (length (''Authorization: Bearer '' @ token @ ''|'')) (length ''permission_denied'') =
    Some (drop 1 token @ ''|permission_denied'')"
proof -
  define raw where "raw = ''Authorization: Bearer '' @ token @ ''|permission_denied''"
  have l: "length raw = 260" "length (''Authorization: Bearer '' @ token @ ''|'') = 243" using assms(1) by (simp_all add: raw_def)
  have d: "drop (243 - 220) (take (min (243 + length ''permission_denied'' + 360) (length raw)) raw) = drop 1 token @ ''|permission_denied''"
    using assms(1) unfolding l(1) by (simp add: raw_def)
  have p: "\<forall>c\<in>set (drop 1 token @ ''|permission_denied''). plain_char c"
    using assms(2) by (auto simp: plain_char_def rx_space_def is_space_def dest: in_set_dropD)
  have r: "redact (drop 1 token @ ''|permission_denied'') = drop 1 token @ ''|permission_denied''" by (rule redact_plain [OF p])
  have f: "str_fields (drop 1 token @ ''|permission_denied'') = [drop 1 token @ ''|permission_denied'']"
    unfolding str_fields_def by (subst fields_acc_run) (use p in \<open>auto simp: plain_char_def\<close>)
  have "safe_snippet raw 243 (length ''permission_denied'') = Some (drop 1 token @ ''|permission_denied'')"
    unfolding safe_snippet_def Let_def d r f using l assms(1) by simp
  then show ?thesis unfolding l(2) raw_def by simp
qed

theorem snippet_leaks_token_witness:
  "safe_snippet (''Authorization: Bearer '' @ replicate 220 (CHR ''x'') @ ''|permission_denied'')
     (length (''Authorization: Bearer '' @ replicate 220 (CHR ''x'') @ ''|'')) (length ''permission_denied'') =
   Some (replicate 219 (CHR ''x'') @ ''|permission_denied'')"
  using snippet_leaks_token [of "replicate 220 (CHR ''x'')"] by (simp add: plain_char_def rx_space_def is_space_def)

end
