(* ===== verification/Socks5.thy ===== *)
theory Socks5 imports Egress begin

text \<open>
  The SOCKS5 client (\<^verbatim>\<open>proxy/socks5.go\<close>), byte by byte over a connection, and the connectivity tests
  that use it (\<^verbatim>\<open>proxy/test.go\<close>).  The connection is a parameter: what the proxy will send and how its
  stream ends, and which writes fail.  The lemmas show what a successful handshake wrote and read, that a
  server decodes exactly the requested host name and port, and through which proxy the tests go.
\<close>

section \<open>Connections\<close>

type_synonym byte = "8 word"

record conn =
  cn_in :: "byte list"
  cn_end :: "gerr option"
  cn_out :: "byte list"
  cn_writes :: "gerr option list"
  cn_closed :: bool

text \<open>\<^verbatim>\<open>io.ReadFull\<close>; a stream without an error of its own ends with \<^verbatim>\<open>EOF\<close>.\<close>

definition read_full :: "nat \<Rightarrow> conn \<Rightarrow> byte list res \<times> conn" where
  "read_full n c =
     (if n \<le> length (cn_in c) then (Inr (take n (cn_in c)), c\<lparr>cn_in := drop n (cn_in c)\<rparr>)
      else (Inl (case cn_end c of Some e \<Rightarrow> e | None \<Rightarrow> new_err (if cn_in c = [] then ''EOF'' else ''unexpected EOF'')), c\<lparr>cn_in := []\<rparr>))"

text \<open>\<^verbatim>\<open>Write\<close>: the next of the scheduled outcomes, success when there is none left.\<close>

definition conn_write :: "byte list \<Rightarrow> conn \<Rightarrow> gerr option \<times> conn" where
  "conn_write bs c =
     (let c1 = c\<lparr>cn_writes := tl (cn_writes c)\<rparr> in
      case cn_writes c of
        Some e # _ \<Rightarrow> (Some e, c1)
      | _ \<Rightarrow> (None, c1\<lparr>cn_out := cn_out c @ bs\<rparr>))"

definition fail_conn :: "gerr \<Rightarrow> conn \<Rightarrow> gerr option \<times> conn" where
  "fail_conn e c = (Some e, c\<lparr>cn_closed := True\<rparr>)"

section \<open>The handshake\<close>

definition greeting :: "byte list" where "greeting = [5, 1, 0]"

text \<open>\<^verbatim>\<open>strconv.ParseUint(s, 10, 16)\<close>.\<close>

definition parse_port :: "string \<Rightarrow> nat res" where
  "parse_port s =
     (case atoi_digits s of
        None \<Rightarrow> Inl (new_err (''strconv.ParseUint: parsing '' @ go_quote s @ '': invalid syntax''))
      | Some n \<Rightarrow> if n < 65536 then Inr n else Inl (new_err (''strconv.ParseUint: parsing '' @ go_quote s @ '': value out of range'')))"

text \<open>Version, command, reserved, address type domain, length and name, port in network order.\<close>

definition put_uint16 :: "16 word \<Rightarrow> byte list" where
  "put_uint16 p = [ucast (drop_bit 8 p), ucast p]"

definition connect_request :: "string \<Rightarrow> nat \<Rightarrow> byte list" where
  "connect_request host port = [5, 1, 0, 3, word_of_nat (length host)] @ map of_char host @ put_uint16 (word_of_nat port)"

definition byte_text :: "byte \<Rightarrow> string" where
  "byte_text b = nat_digits (unat b)"

definition connect_failed :: "byte list \<Rightarrow> gerr option" where
  "connect_failed hd4 = (if hd4 ! 0 \<noteq> 5 \<or> hd4 ! 1 \<noteq> 0 then Some (new_err (''SOCKS5 CONNECT failed, reply='' @ byte_text (hd4 ! 1))) else None)"

text \<open>The length of the bound address of the reply.\<close>

definition read_skip :: "byte \<Rightarrow> conn \<Rightarrow> nat res \<times> conn" where
  "read_skip atyp c =
     (if atyp = 1 then (Inr 4, c)
      else if atyp = 3 then (case read_full 1 c of (Inl e, c1) \<Rightarrow> (Inl e, c1) | (Inr n, c1) \<Rightarrow> (Inr (unat (n ! 0)), c1))
      else if atyp = 4 then (Inr 16, c)
      else (Inl (new_err (''SOCKS5 invalid ATYP '' @ byte_text atyp)), c))"

definition read_reply :: "conn \<Rightarrow> gerr option \<times> conn" where
  "read_reply c =
     (case read_full 4 c of
        (Inl e, c1) \<Rightarrow> fail_conn e c1
      | (Inr h, c1) \<Rightarrow>
     (case connect_failed h of
        Some e \<Rightarrow> fail_conn e c1
      | None \<Rightarrow>
     (case read_skip (h ! 3) c1 of
        (Inl e, c2) \<Rightarrow> fail_conn e c2
      | (Inr skip, c2) \<Rightarrow>
     (case read_full (skip + 2) c2 of
        (Inl e, c3) \<Rightarrow> fail_conn e c3
      | (Inr _, c3) \<Rightarrow> (None, c3)))))"

definition send_request :: "string \<Rightarrow> conn \<Rightarrow> gerr option \<times> conn" where
  "send_request address c =
     (case split_host_port address of
        Inl e \<Rightarrow> fail_conn e c
      | Inr (host, port_text) \<Rightarrow>
     (case parse_port port_text of
        Inl e \<Rightarrow> fail_conn e c
      | Inr port \<Rightarrow>
          (if length host > 255 then fail_conn (new_err ''hostname too long'') c
           else (case conn_write (connect_request host port) c of
               (Some e, c1) \<Rightarrow> fail_conn e c1
             | (None, c1) \<Rightarrow> read_reply c1))))"

text \<open>The dialing function on a connection to the proxy; the deadlines are errors of the connection.\<close>

definition socks5_connect :: "string \<Rightarrow> conn \<Rightarrow> gerr option \<times> conn" where
  "socks5_connect address c =
     (case conn_write greeting c of
        (Some e, c1) \<Rightarrow> fail_conn e c1
      | (None, c1) \<Rightarrow>
     (case read_full 2 c1 of
        (Inl e, c2) \<Rightarrow> fail_conn e c2
      | (Inr r, c2) \<Rightarrow>
          (if r ! 0 \<noteq> 5 \<or> r ! 1 \<noteq> 0
           then fail_conn (new_err (''SOCKS5 auth negotiation failed: ['' @ byte_text (r ! 0) @ '' '' @ byte_text (r ! 1) @ '']'')) c2
           else send_request address c2)))"

definition socks5_dial :: "string \<Rightarrow> conn res \<Rightarrow> gerr option \<times> conn option" where
  "socks5_dial address dialed =
     (case dialed of Inl e \<Rightarrow> (Some e, None)
      | Inr c \<Rightarrow> (case socks5_connect address c of (Some e, _) \<Rightarrow> (Some e, None) | (None, c1) \<Rightarrow> (None, Some c1)))"

section \<open>The connectivity tests\<close>

record test_result =
  te_name :: string
  te_url :: string
  te_via :: string
  te_status :: int
  te_ok :: bool
  te_error :: string
  te_ms :: int

definition test_targets :: "string list" where
  "test_targets = [''https://oauth2.googleapis.com/'', ''https://cloudcode-pa.googleapis.com/'', ''https://daily-cloudcode-pa.googleapis.com/'', ''https://antigravity.google/'']"

definition ipify :: string where "ipify = ''https://api.ipify.org/''"

text \<open>A client: the proxy of its transport and the address that its dialing function dials.\<close>

type_synonym client = "string option \<times> string option"

definition client_request :: "client \<Rightarrow> string \<Rightarrow> string \<Rightarrow> http_request" where
  "client_request cl method url = \<lparr>hq_proxy = fst cl, hq_dial = snd cl, hq_method = method, hq_url = url\<rparr>"

definition run_http_test :: "'k machine \<Rightarrow> client \<Rightarrow> string \<Rightarrow> string \<Rightarrow> 'k world \<Rightarrow> test_result \<times> 'k world" where
  "run_http_test m cl target via w =
     (let (start, w1) = now m w; (r, w2) = http_do m (client_request cl ''HEAD'' target) w1;
          (r2, w3) = (if isl r \<and> target = ipify then http_do m (client_request cl ''GET'' target) w2 else (r, w2));
          (t, w4) = now m w3; x = \<lparr>te_name = target, te_url = target, te_via = via, te_status = 0, te_ok = False, te_error = [], te_ms = millis_since start t\<rparr>
      in case r2 of
           Inl e \<Rightarrow> (x\<lparr>te_error := err_text e\<rparr>, w4)
         | Inr a \<Rightarrow> (x\<lparr>te_status := hr_code a, te_ok := True\<rparr>, w4))"

fun run_tests :: "'k machine \<Rightarrow> (client \<times> string \<times> string) list \<Rightarrow> 'k world \<Rightarrow> test_result list \<times> 'k world" where
  "run_tests m [] w = ([], w)"
| "run_tests m ((cl, target, via) # ts) w =
     (let (x, w1) = run_http_test m cl target via w; (xs, w2) = run_tests m ts w1 in (x # xs, w2))"

text \<open>The error of parsing the URL of the proxy is ignored; a transport with the proxy \<^verbatim>\<open>nil\<close> uses none.\<close>

definition http_client :: "config \<Rightarrow> client" where
  "http_client c = ((case proxy_url_error c of None \<Rightarrow> Some (http_proxy_url c) | Some _ \<Rightarrow> None), None)"

definition socks_client :: "config \<Rightarrow> client" where
  "socks_client c = (None, Some (socks_proxy_addr c))"

definition test_plan :: "config \<Rightarrow> (client \<times> string \<times> string) list" where
  "test_plan c =
     map (\<lambda>t. (http_client c, t, ''http-proxy'')) test_targets @
     [(socks_client c, ''https://daily-cloudcode-pa.googleapis.com/'', ''socks5h''), (http_client c, ipify, ''http-proxy'')]"

definition proxy_tests :: "'k machine \<Rightarrow> manager \<Rightarrow> 'k world \<Rightarrow> test_result list \<times> 'k world" where
  "proxy_tests m g w = run_tests m (test_plan (mg_cfg g)) w"

definition test_text :: "test_result \<Rightarrow> string" where
  "test_text r =
     (if te_ok r then te_url r @ '' via '' @ te_via r @ '' -> HTTP '' @ itoa (te_status r) @ '' ('' @ itoa (te_ms r) @ '' ms)''
      else te_url r @ '' via '' @ te_via r @ '' -> '' @ te_error r)"

section \<open>Lemmas\<close>

text \<open>What a server reads from a request: the host name, the port and the rest of the stream.\<close>

definition decode_request :: "byte list \<Rightarrow> (string \<times> nat \<times> byte list) option" where
  "decode_request bs =
     (case bs of
        v # cmd # rsv # atyp # n # r \<Rightarrow>
          if v = 5 \<and> cmd = 1 \<and> rsv = 0 \<and> atyp = 3 \<and> unat n + 2 \<le> length r
          then Some (map char_of (map unat (take (unat n) r)),
            unat (r ! unat n) * 256 + unat (r ! (unat n + 1)), drop (unat n + 2) r)
          else None
      | _ \<Rightarrow> None)"

lemma read_fullD:
  assumes "read_full n c = (Inr bs, c')"
  shows "cn_in c = bs @ cn_in c'" "length bs = n" "cn_out c' = cn_out c" "cn_closed c' = cn_closed c" "cn_end c' = cn_end c"
  using assms by (auto simp: read_full_def split: if_splits option.splits)

lemma read_fullE: "read_full n c = (r, c') \<Longrightarrow> cn_out c' = cn_out c \<and> cn_closed c' = cn_closed c"
  by (auto simp: read_full_def split: if_splits)

lemma conn_writeD: "conn_write bs c = (None, c') \<Longrightarrow> cn_out c' = cn_out c @ bs \<and> cn_in c' = cn_in c \<and> cn_closed c' = cn_closed c"
  by (auto simp: conn_write_def Let_def split: list.splits option.splits)

lemma port_bytes:
  assumes "p < 65536"
  shows "unat (put_uint16 (word_of_nat p) ! 0) * 256 + unat (put_uint16 (word_of_nat p) ! 1) = p"
proof -
  have "unat (put_uint16 (word_of_nat p) ! 0) = p div 256" "unat (put_uint16 (word_of_nat p) ! 1) = p mod 256"
    using assms by (simp_all add: put_uint16_def unsigned_ucast_eq drop_bit_eq_div unat_div unsigned_of_nat take_bit_eq_mod less_mult_imp_div_less)
  then show ?thesis by simp
qed

lemma char_byte: "char_of (unat (of_char c :: byte)) = c"
proof -
  have "(of_char c :: byte) = word_of_nat (of_char c)" by (simp only: of_nat_of_char)
  then have "unat (of_char c :: byte) = of_char c" by (simp only: unsigned_of_nat) (simp add: take_bit_eq_mod)
  then show ?thesis by simp
qed

lemma decode_connect_request:
  assumes "length host \<le> 255" "port < 65536"
  shows "decode_request (connect_request host port @ rest) = Some (host, port, rest)"
proof -
  have n: "unat (word_of_nat (length host) :: byte) = length host" using assms(1) by (simp add: unsigned_of_nat take_bit_eq_mod)
  have h: "map char_of (map unat (map of_char host :: byte list)) = host" by (simp add: char_byte comp_def)
  have l: "length (put_uint16 q) = 2" for q by (simp add: put_uint16_def)
  show ?thesis using port_bytes [OF assms(2)] n h l
    by (simp add: decode_request_def connect_request_def nth_append)
qed

text \<open>A reply that accepts: the choice of no authentication, then success with the bound address and
  port.\<close>

definition accepting_reply :: "byte list \<Rightarrow> bool" where
  "accepting_reply bs \<longleftrightarrow>
     (\<exists>rsv addr. bs = [5, 0, 5, 0, rsv, 1] @ addr \<and> length addr = 6 \<or>
        bs = [5, 0, 5, 0, rsv, 4] @ addr \<and> length addr = 18 \<or>
        (\<exists>n. bs = [5, 0, 5, 0, rsv, 3, n] @ addr \<and> length addr = unat n + 2))"

lemma two_bytes: "length bs = 2 \<Longrightarrow> bs = [bs ! 0, bs ! 1]"
  by (cases bs; cases "tl bs") auto

lemma four_bytes: "length bs = 4 \<Longrightarrow> bs = [bs ! 0, bs ! 1, bs ! 2, bs ! 3]"
  by (auto simp: list_eq_iff_nth_eq less_Suc_eq numeral_eq_Suc nth_Cons' split: if_splits)

lemma fail_connD: "fail_conn e c = (None, c') \<longleftrightarrow> False" "fail_conn e c = (Some x, c') \<Longrightarrow> cn_closed c'"
  by (auto simp: fail_conn_def)

lemma read_replyD:
  assumes "read_reply c = (e, c')"
  shows "case e of Some _ \<Rightarrow> cn_closed c'
    | None \<Rightarrow> cn_out c' = cn_out c \<and> cn_closed c' = cn_closed c \<and> (\<exists>bs. cn_in c = bs @ cn_in c' \<and> accepting_reply ([5, 0] @ bs))"
proof (cases e)
  case (Some x)
  then show ?thesis using assms by (auto simp: read_reply_def fail_conn_def split: prod.splits sum.splits option.splits)
next
  case None
  obtain r c1 where a: "read_full 4 c = (r, c1)" by fastforce
  obtain h where h: "r = Inr h" "connect_failed h = None" using assms None a by (cases r) (auto simp: read_reply_def fail_conn_def split: option.splits)
  note a' = read_fullD [OF a [unfolded h(1)]]
  have h4: "h = [5, 0, h ! 2, h ! 3]" using four_bytes [OF a'(2)] h(2) by (auto simp: connect_failed_def split: if_splits)
  obtain k c2 where b: "read_skip (h ! 3) c1 = (k, c2)" by fastforce
  obtain n where n: "k = Inr n" using assms None a h b by (cases k) (auto simp: read_reply_def fail_conn_def)
  obtain t c3 where t: "read_full (n + 2) c2 = (t, c3)" by fastforce
  obtain addr where ad: "t = Inr addr" "c' = c3" using assms None a h b n t by (cases t) (auto simp: read_reply_def fail_conn_def)
  note t' = read_fullD [OF t [unfolded ad(1)]]
  have "\<exists>pre. cn_in c1 = pre @ cn_in c2 \<and> accepting_reply ([5, 0] @ h @ pre @ addr) \<and> cn_out c2 = cn_out c1 \<and> cn_closed c2 = cn_closed c1"
  proof (cases "h ! 3 = 3")
    case True
    then obtain x where x: "read_full 1 c1 = (Inr x, c2)" "n = unat (x ! 0)"
      using b n by (auto simp: read_skip_def split: prod.splits sum.splits)
    note x' = read_fullD [OF x(1)]
    have x1: "x = [x ! 0]" using x'(2) by (cases x) auto
    have "[5, 0] @ h @ x @ addr = [5, 0, 5, 0, h ! 2, 3, x ! 0] @ addr" by (subst h4, subst x1) (simp add: True)
    then have "accepting_reply ([5, 0] @ h @ x @ addr)" unfolding accepting_reply_def using t'(2) x(2) by blast
    then show ?thesis using x' by blast
  next
    case False
    then have c: "c2 = c1" "h ! 3 = 1 \<and> n = 4 \<or> h ! 3 = 4 \<and> n = 16" using b n by (auto simp: read_skip_def split: if_splits)
    have l: "length addr = n + 2" by (rule t'(2))
    have e: "[5, 0] @ h @ [] @ addr = [5, 0, 5, 0, h ! 2, h ! 3] @ addr" by (subst h4) simp
    from c(2) have "accepting_reply ([5, 0] @ h @ [] @ addr)"
    proof
      assume "h ! 3 = 1 \<and> n = 4"
      then show ?thesis unfolding accepting_reply_def e using l by (intro exI [of _ "h ! 2"] exI [of _ addr]) simp
    next
      assume "h ! 3 = 4 \<and> n = 16"
      then show ?thesis unfolding accepting_reply_def e using l by (intro exI [of _ "h ! 2"] exI [of _ addr]) simp
    qed
    then show ?thesis using c(1) by blast
  qed
  then show ?thesis using None a' t' ad by auto
qed

lemma read_reply_fail: "read_reply c = (Some x, c') \<Longrightarrow> cn_closed c'"
  using read_replyD [of c "Some x" c'] by simp

lemma send_requestD:
  assumes "send_request address c = (e, c')"
  shows "case e of Some _ \<Rightarrow> cn_closed c'
    | None \<Rightarrow> \<exists>host port_text port bs. split_host_port address = Inr (host, port_text) \<and> parse_port port_text = Inr port \<and> length host \<le> 255 \<and>
        cn_out c' = cn_out c @ connect_request host port \<and> cn_in c = bs @ cn_in c' \<and> accepting_reply ([5, 0] @ bs) \<and> cn_closed c' = cn_closed c"
proof (cases e)
  case None
  obtain host port_text where h: "split_host_port address = Inr (host, port_text)"
    using assms None by (cases "split_host_port address") (auto simp: send_request_def fail_conn_def)
  obtain port where p: "parse_port port_text = Inr port" "length host \<le> 255"
    using assms None h by (cases "parse_port port_text") (auto simp: send_request_def fail_conn_def split: if_splits)
  obtain x c1 where w: "conn_write (connect_request host port) c = (x, c1)" by fastforce
  then have x: "x = None" "read_reply c1 = (None, c')" using assms None h p by (cases x; simp add: send_request_def fail_conn_def)+
  show ?thesis using None h p conn_writeD [OF w [unfolded x(1)]] read_replyD [OF x(2)] by auto
next
  case (Some y)
  then show ?thesis using assms read_reply_fail
    by (auto simp: send_request_def fail_conn_def split: sum.splits prod.splits if_splits option.splits)
qed

lemma send_request_fail: "send_request address c = (Some x, c') \<Longrightarrow> cn_closed c'"
  using send_requestD [of address c "Some x" c'] by simp

lemma parse_port_range: "parse_port s = Inr p \<Longrightarrow> p < 65536"
  by (auto simp: parse_port_def split: option.splits if_splits)

section \<open>Properties\<close>

text \<open>C38: the SOCKS5 handshake.  It succeeds only after writing exactly the greeting and one request
  that a server decodes to the host name of the address, unresolved and byte for byte, and its port, and
  after reading exactly the bytes of an accepting answer, so that the stream of the peer begins at the
  next byte.  Every failure closes the connection.\<close>

theorem socks5_handshake:
  assumes "socks5_connect address c = (e, c')"
  shows "case e of Some _ \<Rightarrow> cn_closed c'
    | None \<Rightarrow> \<exists>host port_text port req reply. split_host_port address = Inr (host, port_text) \<and> parse_port port_text = Inr port \<and>
        cn_out c' = cn_out c @ [5, 1, 0] @ req \<and> decode_request req = Some (host, port, []) \<and>
        cn_in c = reply @ cn_in c' \<and> accepting_reply reply \<and> cn_closed c' = cn_closed c"
proof (cases e)
  case None
  obtain x c1 where w: "conn_write greeting c = (x, c1)" by fastforce
  then have x: "x = None" using assms None by (cases x) (auto simp: socks5_connect_def fail_conn_def)
  obtain r c2 where a: "read_full 2 c1 = (r, c2)" by fastforce
  then obtain bs where bs: "r = Inr bs" "bs ! 0 = 5" "bs ! 1 = 0" "send_request address c2 = (None, c')"
    using assms None w x by (cases r) (auto simp: socks5_connect_def fail_conn_def split: if_splits)
  note a' = read_fullD [OF a [unfolded bs(1)]]
  have "bs = [5, 0]" using two_bytes [OF a'(2)] bs(2,3) by simp
  moreover obtain host port_text port rs where h: "split_host_port address = Inr (host, port_text)" "parse_port port_text = Inr port" "length host \<le> 255"
      "cn_out c' = cn_out c2 @ connect_request host port" "cn_in c2 = rs @ cn_in c'" "accepting_reply ([5, 0] @ rs)" "cn_closed c' = cn_closed c2"
    using send_requestD [OF bs(4)] by auto
  moreover have "decode_request (connect_request host port) = Some (host, port, [])"
    using decode_connect_request [OF h(3) parse_port_range [OF h(2)], of "[]"] by simp
  moreover have "cn_in c = ([5, 0] @ rs) @ cn_in c'" using conn_writeD [OF w [unfolded x]] a'(1) h(5) calculation(1) by simp
  ultimately show ?thesis using None conn_writeD [OF w [unfolded x]] a'(2-4) unfolding greeting_def by auto
next
  case (Some y)
  then show ?thesis using assms send_request_fail
    by (auto simp: socks5_connect_def fail_conn_def split: sum.splits prod.splits if_splits option.splits)
qed

definition accepting_conn :: conn where
  "accepting_conn = \<lparr>cn_in = [5, 0, 5, 0, 0, 1, 127, 0, 0, 1, 30, 210, 72], cn_end = None, cn_out = [], cn_writes = [], cn_closed = False\<rparr>"

theorem socks5_handshake_witness:
  "\<exists>c'. socks5_connect ''a.b:443'' accepting_conn = (None, c') \<and> cn_in c' = [72] \<and> \<not> cn_closed c' \<and>
     (\<exists>req. cn_out c' = [5, 1, 0] @ req \<and> decode_request req = Some (''a.b'', 443, []))"
proof -
  obtain e c' where r: "socks5_connect ''a.b:443'' accepting_conn = (e, c')" by fastforce
  have s: "split_host_port ''a.b:443'' = Inr (''a.b'', ''443'')" by code_simp
  have "atoi_digits ''443'' = Some 443" by code_simp
  then have p: "parse_port ''443'' = Inr 443" by (simp add: parse_port_def)
  have "socks5_connect ''a.b:443'' accepting_conn = (None, accepting_conn\<lparr>cn_in := [72], cn_out := [5, 1, 0] @ connect_request ''a.b'' 443\<rparr>)"
    by (simp add: socks5_connect_def send_request_def s p read_reply_def read_skip_def read_full_def conn_write_def connect_failed_def
        accepting_conn_def greeting_def)
  then have "e = None \<and> cn_in c' = [72] \<and> \<not> cn_closed c'" using r by (auto simp: accepting_conn_def)
  then show ?thesis using socks5_handshake [OF r] r s p by (auto simp: accepting_conn_def)
qed

lemma run_http_test_requests:
  assumes "run_http_test m cl target via w = (x, w')"
  shows "\<exists>qs. w_requests w' = w_requests w @ qs \<and> (\<forall>q\<in>set qs. hq_proxy q = fst cl \<and> hq_dial q = snd cl) \<and> qs \<noteq> []" "te_via x = via"
    "w_files w' = w_files w" "w_signals w' = w_signals w" "w_log w' = w_log w"
proof -
  have h: "w_requests w' = w_requests w @ [q] \<and> w_files w' = w_files w \<and> w_signals w' = w_signals w \<and> w_log w' = w_log w"
    if "http_do m q w = (r, w')" for q r and w w' :: "'a world"
    using that by (auto simp: http_do_def Let_def tick_def split: prod.splits)
  have n: "w_requests w' = w_requests w \<and> w_files w' = w_files w \<and> w_signals w' = w_signals w \<and> w_log w' = w_log w"
    if "now m w = (t, w')" for t and w w' :: "'a world"
    using that by (auto simp: now_def tick_def)
  obtain start w1 where 1: "now m w = (start, w1)" by fastforce
  obtain r w2 where 2: "http_do m (client_request cl ''HEAD'' target) w1 = (r, w2)" by fastforce
  obtain r2 w3 where 3: "(if isl r \<and> target = ipify then http_do m (client_request cl ''GET'' target) w2 else (r, w2)) = (r2, w3)" by fastforce
  obtain t w4 where 4: "now m w3 = (t, w4)" by fastforce
  have w: "w' = w4" "te_via x = via" using assms 1 2 3 4 by (auto simp: run_http_test_def Let_def split: sum.splits)
  have c: "hq_proxy (client_request cl k target) = fst cl" "hq_dial (client_request cl k target) = snd cl" for k
    by (simp_all add: client_request_def)
  have g3: "\<exists>qs. w_requests w3 = w_requests w2 @ qs \<and> (\<forall>q\<in>set qs. hq_proxy q = fst cl \<and> hq_dial q = snd cl) \<and> w_files w3 = w_files w2 \<and>
      w_signals w3 = w_signals w2 \<and> w_log w3 = w_log w2"
    using 3 h c by (cases "isl r \<and> target = ipify") (fastforce, auto)
  show "\<exists>qs. w_requests w' = w_requests w @ qs \<and> (\<forall>q\<in>set qs. hq_proxy q = fst cl \<and> hq_dial q = snd cl) \<and> qs \<noteq> []" "te_via x = via"
    "w_files w' = w_files w" "w_signals w' = w_signals w" "w_log w' = w_log w"
    using w n [OF 1] h [OF 2] g3 n [OF 4] c by auto
qed

lemma run_tests_requests:
  "run_tests m ts w = (rs, w') \<Longrightarrow>
   map te_via rs = map (\<lambda>(cl, target, via). via) ts \<and> w_files w' = w_files w \<and> w_signals w' = w_signals w \<and> w_log w' = w_log w \<and>
   (\<exists>qs. w_requests w' = w_requests w @ qs \<and> length ts \<le> length qs \<and> (\<forall>q\<in>set qs. \<exists>cl\<in>fst ` set ts. hq_proxy q = fst cl \<and> hq_dial q = snd cl))"
proof (induction ts arbitrary: w rs w')
  case (Cons p ts)
  obtain cl target via where p: "p = (cl, target, via)" by (cases p)
  obtain x w1 where x: "run_http_test m cl target via w = (x, w1)" by fastforce
  obtain xs w2 where xs: "run_tests m ts w1 = (xs, w2)" by fastforce
  obtain qs where q: "w_requests w1 = w_requests w @ qs" "\<forall>q\<in>set qs. hq_proxy q = fst cl \<and> hq_dial q = snd cl" "qs \<noteq> []"
    using run_http_test_requests(1) [OF x] by blast
  obtain qs' where q': "w_requests w2 = w_requests w1 @ qs'" "length ts \<le> length qs'"
      "\<forall>q\<in>set qs'. \<exists>cl\<in>fst ` set ts. hq_proxy q = fst cl \<and> hq_dial q = snd cl"
    using Cons.IH [OF xs] by blast
  have "Suc (length ts) \<le> length (qs @ qs')" using q(3) q'(2) by (cases qs) auto
  moreover have "\<forall>q\<in>set (qs @ qs'). \<exists>cl\<in>fst ` set (p # ts). hq_proxy q = fst cl \<and> hq_dial q = snd cl"
    using q(2) q'(3) p by fastforce
  moreover have "rs = x # xs" "w' = w2" using Cons.prems p x xs by auto
  ultimately show ?case using q(1) q'(1) p Cons.IH [OF xs] run_http_test_requests(2-5) [OF x]
    by (auto intro!: exI [of _ "qs @ qs'"])
qed simp

text \<open>The tests can pass the proxy by.  The error of parsing the proxy's URL is ignored, so with a
  local proxy host that has a character a URL does not allow, such as a trailing space, every test
  that is reported as through the HTTP proxy is sent without any proxy; and the configuration accepts
  such a host.\<close>

theorem tests_bypass_proxy:
  assumes "proxy_url_error (mg_cfg g) = Some e" "proxy_tests m g w = (rs, w')"
  shows "\<exists>qs. w_requests w' = w_requests w @ qs \<and> 6 \<le> length qs \<and> (\<forall>q\<in>set qs. hq_proxy q = None) \<and>
    map te_via rs = replicate 4 ''http-proxy'' @ [''socks5h'', ''http-proxy'']"
proof -
  note r = run_tests_requests [OF assms(2) [unfolded proxy_tests_def]]
  have c: "\<forall>cl\<in>fst ` set (test_plan (mg_cfg g)). fst cl = None"
    by (auto simp: test_plan_def http_client_def socks_client_def assms(1))
  have v: "map (\<lambda>(cl, target, via). via) (test_plan k) = replicate 4 ''http-proxy'' @ [''socks5h'', ''http-proxy'']" "length (test_plan k) = 6" for k
    by (simp_all add: test_plan_def test_targets_def numeral_eq_Suc)
  from r c v show ?thesis by fastforce
qed

definition spaced_manager :: manager where
  "spaced_manager = new_manager \<lparr>cf_root = ''/r'', cf_host = ''localhost '', cf_port = 7890, cf_vpn = [], cf_dns = [], cf_version = []\<rparr>"

theorem tests_bypass_proxy_witness:
  "\<exists>g' w' qs. update_stopped_config quiet_machine ''localhost '' 7890 [] ''google'' ''1.14.0'' spaced_manager (world_of [] ()) = (None, g', w') \<and>
     w_requests (snd (proxy_tests quiet_machine g' w')) = w_requests w' @ qs \<and> 6 \<le> length qs \<and> (\<forall>q\<in>set qs. hq_proxy q = None)"
proof -
  obtain e g' w' where u: "update_stopped_config quiet_machine ''localhost '' 7890 [] ''google'' ''1.14.0'' spaced_manager (world_of [] ()) = (e, g', w')"
    by (metis prod_cases3)
  have p: "trim_space ''localhost '' \<noteq> []" "parse_ip (trim_set ''[]'' ''localhost '') = None" "trim_space ''1.14.0'' \<noteq> []" by code_simp+
  have g: "e = None \<and> cf_host (mg_cfg g') = ''localhost ''"
    using u p by (auto simp: update_stopped_config_def spaced_manager_def new_manager_def poll_def poll_cmd_def poll_hard_def split: prod.splits)
  have "url_host_char (CHR '' '') = False" by code_simp
  then have "find (\<lambda>x. \<not> url_host_char x) ''localhost '' \<noteq> None" by (simp add: find_None_iff)
  then obtain x where "proxy_url_error (mg_cfg g') = Some x" using g by (auto simp: proxy_url_error_def)
  from tests_bypass_proxy [OF this surjective_pairing] u g show ?thesis by blast
qed

end
