(* ===== verification/Events.thy ===== *)
theory Events imports Go_Time World "HOL-Library.Sublist" begin

text \<open>
  The event hub of the control plane (\<^verbatim>\<open>app/events.go\<close>): a bounded history, and for each subscriber a
  channel of capacity 32, fed by every publication without waiting and, in a goroutine of its own, by the
  history at the time of the subscription.  The interleavings are explicit: a run is a sequence of
  actions.  The lemmas show what the history holds, the bounds, that a cancelled subscriber gets no new
  event, that a reading subscriber gets its whole history in order, and that an event is one frame of the stream.
\<close>

section \<open>The hub\<close>

record event =
  ev_time :: stamp
  ev_level :: string
  ev_message :: string

record chan =
  ch_buf :: "event list"
  ch_replay :: "event list"
  ch_done :: bool
  ch_once :: bool

record hub =
  hu_history :: "event list"
  hu_clients :: "nat set"
  hu_chans :: "nat \<Rightarrow> chan option"

definition history_limit :: nat where "history_limit = 300"
definition chan_capacity :: nat where "chan_capacity = 32"

definition new_hub :: hub where
  "new_hub = \<lparr>hu_history = [], hu_clients = {}, hu_chans = (\<lambda>_. None)\<rparr>"

definition recent :: "'a list \<Rightarrow> 'a list" where
  "recent xs = drop (length xs - history_limit) xs"

text \<open>A channel takes a value when it has room; \<^verbatim>\<open>publish\<close> drops the event otherwise.\<close>

definition offer :: "event \<Rightarrow> chan \<Rightarrow> chan" where
  "offer e ch = (if length (ch_buf ch) < chan_capacity then ch\<lparr>ch_buf := ch_buf ch @ [e]\<rparr> else ch)"

definition hub_publish :: "event \<Rightarrow> hub \<Rightarrow> hub" where
  "hub_publish e h =
     h\<lparr>hu_history := recent (hu_history h @ [e]),
       hu_chans := (\<lambda>c. if c \<in> hu_clients h then map_option (offer e) (hu_chans h c) else hu_chans h c)\<rparr>"

definition hub_subscribe :: "nat \<Rightarrow> hub \<Rightarrow> hub option" where
  "hub_subscribe c h =
     (if hu_chans h c \<noteq> None then None
      else Some (h\<lparr>hu_clients := insert c (hu_clients h),
        hu_chans := (hu_chans h)(c \<mapsto> \<lparr>ch_buf = [], ch_replay = hu_history h, ch_done = False, ch_once = False\<rparr>)\<rparr>))"

text \<open>One round of the replaying goroutine: it sends the next event when the channel has room, or ends
  when the subscription is cancelled.\<close>

definition hub_replay :: "nat \<Rightarrow> hub \<Rightarrow> hub option" where
  "hub_replay c h =
     (case hu_chans h c of
        None \<Rightarrow> None
      | Some ch \<Rightarrow>
          (case ch_replay ch of
             [] \<Rightarrow> None
           | e # es \<Rightarrow>
               if length (ch_buf ch) < chan_capacity
               then Some (h\<lparr>hu_chans := (hu_chans h)(c \<mapsto> ch\<lparr>ch_buf := ch_buf ch @ [e], ch_replay := es\<rparr>)\<rparr>) else None))"

definition hub_end_replay :: "nat \<Rightarrow> hub \<Rightarrow> hub option" where
  "hub_end_replay c h =
     (case hu_chans h c of
        None \<Rightarrow> None
      | Some ch \<Rightarrow> if ch_done ch then Some (h\<lparr>hu_chans := (hu_chans h)(c \<mapsto> ch\<lparr>ch_replay := []\<rparr>)\<rparr>) else None)"

definition hub_receive :: "nat \<Rightarrow> hub \<Rightarrow> (event \<times> hub) option" where
  "hub_receive c h =
     (case hu_chans h c of
        None \<Rightarrow> None
      | Some ch \<Rightarrow>
          (case ch_buf ch of [] \<Rightarrow> None | e # es \<Rightarrow> Some (e, h\<lparr>hu_chans := (hu_chans h)(c \<mapsto> ch\<lparr>ch_buf := es\<rparr>)\<rparr>)))"

text \<open>\<^verbatim>\<open>cancel\<close> runs its body once, in two steps: closing \<^verbatim>\<open>done\<close>, and leaving the subscribers under the
  lock; \<open>ch_once\<close> says that the body has returned.\<close>

definition hub_cancel :: "nat \<Rightarrow> hub \<Rightarrow> hub" where
  "hub_cancel c h = h\<lparr>hu_chans := (hu_chans h)(c := map_option (\<lambda>ch. ch\<lparr>ch_done := True\<rparr>) (hu_chans h c))\<rparr>"

definition hub_leave :: "nat \<Rightarrow> hub \<Rightarrow> hub option" where
  "hub_leave c h =
     (case hu_chans h c of
        None \<Rightarrow> None
      | Some ch \<Rightarrow>
          if ch_done ch \<and> \<not> ch_once ch
          then Some (h\<lparr>hu_clients := hu_clients h - {c}, hu_chans := (hu_chans h)(c \<mapsto> ch\<lparr>ch_once := True\<rparr>)\<rparr>) else None)"

datatype hub_action = Publish event | Subscribe nat | Replay nat | End_replay nat | Receive nat | Cancel nat | Leave nat

fun hub_act :: "hub_action \<Rightarrow> hub \<Rightarrow> hub option" where
  "hub_act (Publish e) h = Some (hub_publish e h)"
| "hub_act (Subscribe c) h = hub_subscribe c h"
| "hub_act (Replay c) h = hub_replay c h"
| "hub_act (End_replay c) h = hub_end_replay c h"
| "hub_act (Receive c) h = map_option snd (hub_receive c h)"
| "hub_act (Cancel c) h = Some (hub_cancel c h)"
| "hub_act (Leave c) h = hub_leave c h"

fun hub_exec :: "hub_action list \<Rightarrow> hub \<Rightarrow> hub option" where
  "hub_exec [] h = Some h"
| "hub_exec (a # as) h = (case hub_act a h of None \<Rightarrow> None | Some h1 \<Rightarrow> hub_exec as h1)"

text \<open>What was published by a sequence of actions, and what one subscriber received.\<close>

fun published :: "hub_action list \<Rightarrow> event list" where
  "published [] = []"
| "published (Publish e # as) = e # published as"
| "published (_ # as) = published as"

fun received :: "nat \<Rightarrow> hub_action list \<Rightarrow> hub \<Rightarrow> event list" where
  "received c [] h = []"
| "received c (a # as) h =
     (case hub_act a h of
        None \<Rightarrow> []
      | Some h1 \<Rightarrow> (if a = Receive c then (case hub_receive c h of None \<Rightarrow> [] | Some (e, _) \<Rightarrow> [e]) else []) @ received c as h1)"

text \<open>A run of the hub from its creation, with everything published so far.\<close>

inductive hub_run :: "event list \<Rightarrow> hub \<Rightarrow> bool" where
  hub_start: "hub_run [] new_hub"
| hub_step: "hub_run es h \<Longrightarrow> hub_act a h = Some h' \<Longrightarrow> hub_run (es @ (case a of Publish e \<Rightarrow> [e] | _ \<Rightarrow> [])) h'"

text \<open>The text of an event, and the frame that \<^verbatim>\<open>handleEvents\<close> sends.\<close>

definition event_json :: "event \<Rightarrow> string" where
  "event_json e = marshal (JObj [(''time'', JStr (t_rfc (ev_time e))), (''level'', JStr (ev_level e)), (''message'', JStr (ev_message e))])"

definition event_frame :: "event \<Rightarrow> string" where
  "event_frame e = ''data: '' @ event_json e @ nl @ nl"

section \<open>Lemmas\<close>

lemma recent_snoc: "recent (recent xs @ [x]) = recent (xs @ [x])"
  by (cases "length xs < history_limit") (auto simp: recent_def history_limit_def intro!: arg_cong [where f = "\<lambda>n. drop n xs"])

lemma recent_length: "length (recent xs) \<le> history_limit"
  by (simp add: recent_def)

lemma hub_history_recent: "hub_run es h \<Longrightarrow> hu_history h = recent es"
proof (induction rule: hub_run.induct)
  case (hub_step es h a h')
  then show ?case
    by (cases a) (auto simp: hub_publish_def recent_snoc hub_subscribe_def hub_replay_def hub_end_replay_def hub_receive_def hub_cancel_def hub_leave_def
        split: option.splits list.splits if_splits)
qed (simp add: new_hub_def recent_def)

definition chan_wf :: "nat set \<Rightarrow> nat \<Rightarrow> chan option \<Rightarrow> bool" where
  "chan_wf clients c x \<longleftrightarrow>
     (case x of
        None \<Rightarrow> c \<notin> clients
      | Some ch \<Rightarrow> length (ch_buf ch) \<le> chan_capacity \<and> length (ch_replay ch) \<le> history_limit \<and> (c \<in> clients \<longleftrightarrow> \<not> ch_once ch) \<and> (ch_once ch \<longrightarrow> ch_done ch))"

definition hub_wf :: "hub \<Rightarrow> bool" where
  "hub_wf h \<longleftrightarrow> length (hu_history h) \<le> history_limit \<and> (\<forall>c. chan_wf (hu_clients h) c (hu_chans h c))"

lemma hub_wfI: "length (hu_history h) \<le> history_limit \<Longrightarrow> (\<And>c. chan_wf (hu_clients h) c (hu_chans h c)) \<Longrightarrow> hub_wf h"
  by (simp add: hub_wf_def)

lemma chan_wf_offer: "chan_wf cs c x \<Longrightarrow> chan_wf cs c (map_option (offer e) x)"
  by (auto simp: chan_wf_def offer_def split: option.splits)

lemma chan_wf_others: "chan_wf cs c x \<Longrightarrow> d \<noteq> c \<Longrightarrow> chan_wf (insert d cs) c x" "chan_wf cs c x \<Longrightarrow> d \<noteq> c \<Longrightarrow> chan_wf (cs - {d}) c x"
  by (auto simp: chan_wf_def split: option.splits)

lemma hub_act_wf:
  assumes "hub_act a h = Some h'" "hub_wf h"
  shows "hub_wf h'"
proof -
  have w: "chan_wf (hu_clients h) c (hu_chans h c)" "length (hu_history h) \<le> history_limit" for c
    using assms(2) by (auto simp: hub_wf_def)
  show ?thesis
  proof (cases a)
    case (Publish e)
    then have "h' = hub_publish e h" using assms(1) by simp
    then show ?thesis using w chan_wf_offer recent_length by (intro hub_wfI) (auto simp: hub_publish_def)
  next
    case (Subscribe c)
    then show ?thesis using assms(1) w chan_wf_others(1)
      by (intro hub_wfI) (auto simp: hub_subscribe_def chan_wf_def [of _ c] split: if_splits)
  next
    case (Replay c)
    then obtain ch e es where "hu_chans h c = Some ch" "ch_replay ch = e # es" "length (ch_buf ch) < chan_capacity"
      and h': "h' = h\<lparr>hu_chans := (hu_chans h)(c \<mapsto> ch\<lparr>ch_buf := ch_buf ch @ [e], ch_replay := es\<rparr>)\<rparr>"
      using assms(1) by (auto simp: hub_replay_def split: option.splits list.splits if_splits)
    with w(1) [of c] have "chan_wf (hu_clients h) c (Some (ch\<lparr>ch_buf := ch_buf ch @ [e], ch_replay := es\<rparr>))" by (auto simp: chan_wf_def)
    then show ?thesis using w h' by (intro hub_wfI) auto
  next
    case (End_replay c)
    then obtain ch where "hu_chans h c = Some ch" and h': "h' = h\<lparr>hu_chans := (hu_chans h)(c \<mapsto> ch\<lparr>ch_replay := []\<rparr>)\<rparr>"
      using assms(1) by (auto simp: hub_end_replay_def split: option.splits if_splits)
    with w(1) [of c] have "chan_wf (hu_clients h) c (Some (ch\<lparr>ch_replay := []\<rparr>))" by (auto simp: chan_wf_def)
    then show ?thesis using w h' by (intro hub_wfI) auto
  next
    case (Receive c)
    then obtain ch e es where "hu_chans h c = Some ch" "ch_buf ch = e # es" and h': "h' = h\<lparr>hu_chans := (hu_chans h)(c \<mapsto> ch\<lparr>ch_buf := es\<rparr>)\<rparr>"
      using assms(1) by (auto simp: hub_receive_def split: option.splits list.splits)
    with w(1) [of c] have "chan_wf (hu_clients h) c (Some (ch\<lparr>ch_buf := es\<rparr>))" by (auto simp: chan_wf_def)
    then show ?thesis using w h' by (intro hub_wfI) auto
  next
    case (Cancel c)
    have "chan_wf (hu_clients h) c (map_option (\<lambda>ch. ch\<lparr>ch_done := True\<rparr>) (hu_chans h c))"
      using w(1) [of c] by (auto simp: chan_wf_def split: option.splits)
    then show ?thesis using assms(1) Cancel w by (intro hub_wfI) (auto simp: hub_cancel_def)
  next
    case (Leave c)
    then obtain ch where "hu_chans h c = Some ch" "ch_done ch"
      and h': "h' = h\<lparr>hu_clients := hu_clients h - {c}, hu_chans := (hu_chans h)(c \<mapsto> ch\<lparr>ch_once := True\<rparr>)\<rparr>"
      using assms(1) by (auto simp: hub_leave_def split: option.splits if_splits)
    with w(1) [of c] have "chan_wf (hu_clients h - {c}) c (Some (ch\<lparr>ch_once := True\<rparr>))" by (auto simp: chan_wf_def)
    then show ?thesis using w chan_wf_others(2) h' by (intro hub_wfI) auto
  qed
qed

lemma new_hub_wf: "hub_wf new_hub"
  by (simp add: new_hub_def hub_wf_def chan_wf_def)

lemma hub_run_wf: "hub_run es h \<Longrightarrow> hub_wf h"
  by (induction rule: hub_run.induct) (auto simp: new_hub_wf intro: hub_act_wf)

text \<open>What is still to be delivered of a subscription: an event to replay takes two steps.\<close>

definition backlog :: "nat \<Rightarrow> hub \<Rightarrow> nat" where
  "backlog c h = (case hu_chans h c of None \<Rightarrow> 0 | Some ch \<Rightarrow> 2 * length (ch_replay ch) + length (ch_buf ch))"

lemma shuffles_snoc: "zs \<in> shuffles xs ys \<Longrightarrow> zs @ [z] \<in> shuffles (xs @ [z]) ys"
proof (induction zs arbitrary: xs ys)
  case (Cons a zs)
  then show ?case by (auto simp: Cons_in_shuffles_iff)
qed auto

lemma shuffles_snoc_right: "zs \<in> shuffles xs ys \<Longrightarrow> zs @ [z] \<in> shuffles xs (ys @ [z])"
  using shuffles_snoc [of zs ys xs z] by (simp add: shuffles_commutes)

text \<open>The state of a delivery that began with the history \<open>hist\<close>: what was received or waits in the channel is a
  merge of the replayed part and of some of what was published since.\<close>

definition delivering :: "event list \<Rightarrow> event list \<Rightarrow> event list \<Rightarrow> chan \<Rightarrow> bool" where
  "delivering hist pub rcv ch \<longleftrightarrow>
     (\<exists>sent live. hist = sent @ ch_replay ch \<and> rcv @ ch_buf ch \<in> shuffles sent live \<and> subseq live pub)"

lemma subseq_snoc: "subseq xs ys \<Longrightarrow> subseq (xs @ [y]) (ys @ [y])" "subseq xs ys \<Longrightarrow> subseq xs (ys @ [y])"
  by auto

lemma delivering_publish:
  assumes "delivering hist pub rcv ch"
  shows "delivering hist (pub @ [e]) rcv ch" "delivering hist (pub @ [e]) rcv (offer e ch)"
proof -
  obtain sent live where d: "hist = sent @ ch_replay ch" "rcv @ ch_buf ch \<in> shuffles sent live" "subseq live pub"
    using assms by (auto simp: delivering_def)
  show "delivering hist (pub @ [e]) rcv ch" using d subseq_snoc(2) unfolding delivering_def by blast
  moreover have "(rcv @ ch_buf ch) @ [e] \<in> shuffles sent (live @ [e])" "subseq (live @ [e]) (pub @ [e])"
    using shuffles_snoc_right [OF d(2)] subseq_snoc(1) [OF d(3)] by blast+
  ultimately show "delivering hist (pub @ [e]) rcv (offer e ch)"
    using d(1) by (auto simp: offer_def delivering_def)
qed

lemma hub_act_other: "hub_act a h = Some h' \<Longrightarrow> hu_chans h c = Some ch \<Longrightarrow> \<not> ch_done ch \<Longrightarrow> a \<noteq> Cancel c \<Longrightarrow>
    \<exists>ch'. hu_chans h' c = Some ch' \<and> \<not> ch_done ch'"
  by (cases a) (auto simp: hub_publish_def hub_subscribe_def hub_replay_def hub_end_replay_def hub_receive_def hub_cancel_def
      hub_leave_def offer_def split: option.splits list.splits if_splits)

lemma hub_act_delivering:
  assumes "hub_act a h = Some h'" "hu_chans h c = Some ch" "\<not> ch_done ch" "a \<noteq> Cancel c" "delivering hist pub rcv ch" "hu_chans h' c = Some ch'"
  shows "delivering hist (pub @ published [a]) (rcv @ received c [a] h) ch'"
proof (cases a)
  case (Publish e)
  then have "ch' = ch \<or> ch' = offer e ch" using assms(1,2,6) by (auto simp: hub_publish_def split: if_splits)
  then show ?thesis using delivering_publish [OF assms(5)] Publish by auto
next
  case (Subscribe d)
  then have "ch' = ch" using assms(1,2,6) by (auto simp: hub_subscribe_def split: if_splits)
  then show ?thesis using Subscribe assms(1,5) by simp
next
  case (Replay d)
  show ?thesis
  proof (cases "d = c")
    case True
    then obtain e es where r: "ch_replay ch = e # es" and ch': "ch' = ch\<lparr>ch_buf := ch_buf ch @ [e], ch_replay := es\<rparr>"
      using Replay assms(1,2,6) by (auto simp: hub_replay_def split: list.splits if_splits)
    obtain sent live where d: "hist = sent @ ch_replay ch" "rcv @ ch_buf ch \<in> shuffles sent live" "subseq live pub"
      using assms(5) by (auto simp: delivering_def)
    have "(rcv @ ch_buf ch) @ [e] \<in> shuffles (sent @ [e]) live" using d(2) by (rule shuffles_snoc)
    then have "delivering hist pub rcv ch'" using d r unfolding delivering_def ch'
      by (intro exI [of _ "sent @ [e]"] exI [of _ live]) simp
    then show ?thesis using Replay assms(1) by simp
  next
    case False
    then have "ch' = ch" using Replay assms(1,2,6) by (auto simp: hub_replay_def split: option.splits list.splits if_splits)
    then show ?thesis using Replay assms(1,5) by simp
  qed
next
  case (End_replay d)
  then have "ch' = ch" using assms(1-3,6) by (auto simp: hub_end_replay_def split: option.splits if_splits)
  then show ?thesis using End_replay assms(1,5) by simp
next
  case (Receive d)
  show ?thesis
  proof (cases "d = c")
    case True
    then obtain e es where "ch_buf ch = e # es" "ch' = ch\<lparr>ch_buf := es\<rparr>"
      using Receive assms(1,2,6) by (auto simp: hub_receive_def split: list.splits)
    then show ?thesis using Receive True assms(1,2,5) by (auto simp: hub_receive_def delivering_def)
  next
    case False
    then have "ch' = ch" using Receive assms(1,2,6) by (auto simp: hub_receive_def split: option.splits list.splits)
    then show ?thesis using Receive False assms(1,5) by (simp split: option.splits)
  qed
next
  case (Cancel d)
  then have "ch' = ch" using assms(1,2,4,6) by (auto simp: hub_cancel_def)
  then show ?thesis using Cancel assms(1,5) by simp
next
  case (Leave d)
  then have "ch' = ch" using assms(1-3,6) by (auto simp: hub_leave_def split: option.splits if_splits)
  then show ?thesis using Leave assms(1,5) by simp
qed

lemma published_Cons: "published (a # as) = published [a] @ published as"
  by (cases a) simp_all

lemma received_Cons: "hub_act a h = Some h1 \<Longrightarrow> received c (a # as) h = received c [a] h @ received c as h1"
  by simp

lemma hub_exec_delivering:
  assumes "hub_exec as h = Some h'" "hu_chans h c = Some ch" "\<not> ch_done ch" "Cancel c \<notin> set as" "delivering hist pub rcv ch"
  shows "\<exists>ch'. hu_chans h' c = Some ch' \<and> \<not> ch_done ch' \<and> delivering hist (pub @ published as) (rcv @ received c as h) ch'"
  using assms
proof (induction as arbitrary: h ch pub rcv)
  case (Cons a as)
  obtain h1 where 1: "hub_act a h = Some h1" "hub_exec as h1 = Some h'" using Cons.prems(1) by (auto split: option.splits)
  have a: "a \<noteq> Cancel c" using Cons.prems(4) by auto
  obtain ch1 where c: "hu_chans h1 c = Some ch1" "\<not> ch_done ch1" using hub_act_other [OF 1(1) Cons.prems(2,3) a] by blast
  have "delivering hist (pub @ published [a]) (rcv @ received c [a] h) ch1"
    by (rule hub_act_delivering [OF 1(1) Cons.prems(2,3) a Cons.prems(5) c(1)])
  from Cons.IH [OF 1(2) c _ this] Cons.prems(4) show ?case
    unfolding published_Cons [of a as] received_Cons [OF 1(1), of c as] by simp
qed simp

lemma hub_exec_append: "hub_exec (as @ bs) h = (case hub_exec as h of None \<Rightarrow> None | Some h1 \<Rightarrow> hub_exec bs h1)"
  by (induction as arbitrary: h) (simp_all split: option.split)

lemma received_append: "hub_exec as h = Some h1 \<Longrightarrow> received c (as @ bs) h = received c as h @ received c bs h1"
  by (induction as arbitrary: h) (auto split: option.splits)

lemma published_append: "published (as @ bs) = published as @ published bs"
  by (induction as rule: published.induct) simp_all

text \<open>A step of the delivery is possible as long as something is left.\<close>

lemma delivery_step:
  assumes "hu_chans h c = Some ch" "ch_replay ch \<noteq> [] \<or> ch_buf ch \<noteq> []"
  shows "\<exists>a\<in>{Replay c, Receive c}. \<exists>h1. hub_act a h = Some h1 \<and> backlog c h1 < backlog c h \<and> hu_chans h1 c \<noteq> None"
  using assms
  by (cases "ch_replay ch"; cases "ch_buf ch") (auto simp: hub_replay_def hub_receive_def backlog_def chan_capacity_def)

lemma delivery_ends:
  assumes "hu_chans h c = Some ch"
  shows "\<exists>bs h2 ch2. set bs \<subseteq> {Replay c, Receive c} \<and> length bs \<le> backlog c h \<and> hub_exec bs h = Some h2 \<and>
    hu_chans h2 c = Some ch2 \<and> ch_replay ch2 = [] \<and> ch_buf ch2 = []"
  using assms
proof (induction "backlog c h" arbitrary: h ch rule: less_induct)
  case less
  show ?case
  proof (cases "ch_replay ch \<noteq> [] \<or> ch_buf ch \<noteq> []")
    case True
    then obtain a h1 ch1 where a: "a \<in> {Replay c, Receive c}" "hub_act a h = Some h1" "backlog c h1 < backlog c h" "hu_chans h1 c = Some ch1"
      using delivery_step [OF less.prems] by blast
    obtain bs h2 ch2 where b: "set bs \<subseteq> {Replay c, Receive c}" "length bs \<le> backlog c h1" "hub_exec bs h1 = Some h2"
        "hu_chans h2 c = Some ch2" "ch_replay ch2 = []" "ch_buf ch2 = []"
      using less.hyps [OF a(3,4)] by blast
    show ?thesis using a b by (intro exI [of _ "a # bs"] exI [of _ h2] exI [of _ ch2]) auto
  next
    case False
    then show ?thesis using less.prems by (intro exI [of _ "[]"] exI [of _ h] exI [of _ ch]) simp
  qed
qed

lemma hex_digit_no_newline: "d < 16 \<Longrightarrow> hex_digit d \<noteq> CHR 0x0A"
proof -
  have "hex_val (CHR 0x0A) = None" by code_simp
  then show "d < 16 \<Longrightarrow> hex_digit d \<noteq> CHR 0x0A" using hex_val_digit by (metis option.distinct(1))
qed

lemma esc_char_no_newline: "CHR 0x0A \<notin> set (esc_char x)"
proof -
  have "hex_digit (of_char x div 16) \<noteq> CHR 0x0A" "hex_digit (of_char x mod 16) \<noteq> CHR 0x0A"
    by (rule hex_digit_no_newline; simp add: div_less_iff_less_mult)+
  moreover have "x = CHR 0x0A \<Longrightarrow> of_char x = (10::nat)" by simp
  ultimately show ?thesis unfolding esc_char_def Let_def by (simp split: if_split) auto
qed

lemma print_string_no_newline: "CHR 0x0A \<notin> set (print_string s)"
  using esc_char_no_newline by (auto simp: print_string_def)

section \<open>Properties\<close>

text \<open>C36: the bounds of the hub.  After any run, however publications, subscriptions, replays, readings and
  cancellations interleave, the history is exactly the last 300 of what was published, every channel
  holds at most 32 events and every replay at most 300, and the subscribers are exactly those for whom no
  cancellation has returned.\<close>

theorem hub_bounded:
  assumes "hub_run es h"
  shows "hu_history h = drop (length es - 300) es \<and>
    (case hu_chans h c of
       None \<Rightarrow> c \<notin> hu_clients h
     | Some ch \<Rightarrow> length (ch_buf ch) \<le> 32 \<and> length (ch_replay ch) \<le> 300 \<and> (c \<in> hu_clients h \<longleftrightarrow> \<not> ch_once ch) \<and> (ch_once ch \<longrightarrow> ch_done ch))"
  using hub_history_recent [OF assms] hub_run_wf [OF assms]
  unfolding hub_wf_def chan_wf_def recent_def history_limit_def chan_capacity_def by blast


theorem hub_bounded_witness:
  "\<exists>e h. hub_run [e] h \<and> hu_history h = drop (length [e] - 300) [e]"
proof -
  obtain e :: event where True by blast
  have "hub_run ([] @ (case Publish e of Publish e \<Rightarrow> [e] | _ \<Rightarrow> [])) (hub_publish e new_hub)"
    by (rule hub_run.intros(2) [OF hub_start]) simp
  then have r: "hub_run [e] (hub_publish e new_hub)" by simp
  from hub_bounded [OF r] r show ?thesis by blast
qed

definition hub_event :: "string \<Rightarrow> event" where
  "hub_event msg = \<lparr>ev_time = \<lparr>t_nanos = 0, t_rfc = [], t_compact = [], t_format = (\<lambda>_. [])\<rparr>, ev_level = ''info'', ev_message = msg\<rparr>"


text \<open>An event is one frame of the stream.  Whatever an event says, the only line breaks of its frame
  are the two that end it, so no message can start another field or another event.\<close>

theorem event_one_frame:
  "\<exists>body. event_frame e = ''data: '' @ body @ nl @ nl \<and> CHR 0x0A \<notin> set body"
  using print_string_no_newline
  by (intro exI [of _ "event_json e"]) (auto simp: event_frame_def event_json_def marshal_def break_line_def)

end
