(* ===== verification/App.thy ===== *)
theory App imports Assurance Doctor Socks5 Events begin

text \<open>
  The control plane (\<^verbatim>\<open>app/app.go\<close>, \<^verbatim>\<open>app/close.go\<close>): the server's state, its creation, the checks in
  front of every request, the handlers, and the start of the proxy with its roll-back.  What the server
  and its manager publish goes to the one list \<open>mg_log\<close> of the manager, whose logger is the hub's
  \<^verbatim>\<open>publish\<close>.  Each handler is one definition; \<^verbatim>\<open>lifecycleMu\<close> makes the starting, stopping and configuring
  ones run one after the other.  A reply is a status with a text, a JSON object, or a report whose
  encoding is left to the library.
\<close>

section \<open>State\<close>

record server =
  sv_root :: string
  sv_path :: string
  sv_settings :: settings
  sv_pm :: manager
  sv_csrf :: string
  sv_cache :: egress_cache
  sv_netstat :: netstat_cache

text \<open>The contexts of a request: its own, the one of a stop in the background, and the one in which
  \<^verbatim>\<open>StopAndWait\<close> cleans up.\<close>

record contexts =
  cx_request :: ctx
  cx_stop :: ctx
  cx_cleanup :: ctx

definition publish :: "string \<Rightarrow> string \<Rightarrow> server \<Rightarrow> server" where
  "publish level msg s = s\<lparr>sv_pm := log_msg level msg (sv_pm s)\<rparr>"

definition on_pm :: "(manager \<Rightarrow> 'k world \<Rightarrow> 'a \<times> manager \<times> 'k world) \<Rightarrow> server \<Rightarrow> 'k world \<Rightarrow> 'a \<times> server \<times> 'k world" where
  "on_pm f s w = (let (r, g, w1) = f (sv_pm s) w in (r, s\<lparr>sv_pm := g\<rparr>, w1))"

definition invalidate_evidence :: "string \<Rightarrow> server \<Rightarrow> server" where
  "invalidate_evidence reason s =
     (let s1 = s\<lparr>sv_cache := cache_clear (sv_cache s)\<rparr> in
      if trim_space reason \<noteq> [] then publish ''info'' (''runtime assurance evidence invalidated: '' @ reason) s1 else s1)"

section \<open>Creation\<close>

definition strict_on_linux :: "platform \<Rightarrow> settings \<Rightarrow> settings" where
  "strict_on_linux pf st = (if pf = Linux then st\<lparr>st_strict := True\<rparr> else st)"

definition choose_vpn :: "host_interface list \<Rightarrow> settings \<Rightarrow> settings" where
  "choose_vpn is st =
     (if st_vpn st = [] then (case find it_vpn is of Some i \<Rightarrow> st\<lparr>st_vpn := it_name i\<rparr> | None \<Rightarrow> st) else st)"

definition config_of :: "string \<Rightarrow> settings \<Rightarrow> config" where
  "config_of root st = \<lparr>cf_root = root, cf_host = st_host st, cf_port = st_port st, cf_vpn = st_vpn st, cf_dns = st_dns st, cf_version = st_version st\<rparr>"

text \<open>24 random bytes; the error is ignored, and without bytes the token is that of zeros.\<close>

definition new_token :: "nat list res \<Rightarrow> string" where
  "new_token r = hex_text (case r of Inr bs \<Rightarrow> bs | Inl _ \<Rightarrow> replicate 24 0)"

definition finish_new :: "platform \<Rightarrow> 'k machine \<Rightarrow> string \<Rightarrow> 'k world \<Rightarrow> server res \<times> 'k world" where
  "finish_new pf m root w =
     (let path = path_join root ''config.json''; (st0, w1) = load_settings m path w; st1 = strict_on_linux pf st0 in
      case validate_settings st1 of
        Some e \<Rightarrow> (Inl e, w1)
      | None \<Rightarrow>
          (let (is, w2) = list_interfaces m w1; st = choose_vpn (case is of Inr xs \<Rightarrow> xs | Inl _ \<Rightarrow> []) st1;
               pm = new_manager (config_of root st); (bytes, w3) = random_bytes m 24 w2
           in case save_settings m path st w3 of
                (Inl e, w4) \<Rightarrow> (Inl (wrap_err ''persist normalized settings: '' e), w4)
              | (Inr _, w4) \<Rightarrow>
                  (Inr \<lparr>sv_root = root, sv_path = path, sv_settings = st, sv_pm = pm, sv_csrf = new_token bytes,
                     sv_cache = empty_cache, sv_netstat = (\<lambda>_. None)\<rparr>, w4)))"

definition new_server :: "platform \<Rightarrow> 'k machine \<Rightarrow> 'k world \<Rightarrow> server res \<times> 'k world" where
  "new_server pf m w =
     (case m_config_dir m of
        Inl e \<Rightarrow> (Inl e, w)
      | Inr base \<Rightarrow>
     (let root = path_join base ''AntigravitiProxi'' in
      case mkdir_all m root w of
        (Inl e, w1) \<Rightarrow> (Inl e, w1)
      | (Inr _, w1) \<Rightarrow>
     (let (t, w2) = now m w1; (x, w3) = expire_hosts_override pf m (path_join root ''backups'') (t_nanos t) w2 in
      case x of
        Inl e \<Rightarrow>
          if err_kind e = Permission then finish_new pf m root w3
          else (Inl (wrap_err ''validate emergency hosts override: '' e), w3)
      | Inr _ \<Rightarrow> finish_new pf m root w3)))"

section \<open>Replies\<close>

record status =
  ss_os :: string
  ss_arch :: string
  ss_running :: bool
  ss_proxy :: string
  ss_socks :: string
  ss_path :: string
  ss_version :: string
  ss_antigravity :: string
  ss_active :: bool
  ss_supported :: bool
  ss_hint :: string
  ss_enforcement :: string
  ss_kernel :: "(string \<times> json) list"
  ss_health :: health
  ss_settings :: settings
  ss_interfaces :: "host_interface list"

datatype reply =
    Refused nat string
  | Replied json
  | Status_reply status
  | Diagnostics_reply diag_snapshot
  | Doctor_reply doctor_report
  | Tree_reply process_tree
  | Attestation_reply attestation_report
  | Tests_reply "test_result list"
  | Stream_reply
  | Static_reply
  | Panic_reply

definition ok_reply :: reply where
  "ok_reply = Replied (json_map [(''ok'', JBool True)])"

fun health_text :: "health_state \<Rightarrow> string" where
  "health_text Idle = ''idle''"
| "health_text Healthy = ''healthy''"
| "health_text Degraded = ''degraded''"

definition enc_health :: "health \<Rightarrow> json" where
  "enc_health h = JObj
     [(''state'', JStr (health_text (he_state h))), (''mode'', JStr (mode_text (he_mode h))),
      (''dimensions'', json_map (map (\<lambda>(k, ok, d). (k, JObj ((''ok'', JBool ok) # opt_string ''detail'' d))) (he_dims h))),
      (''updated_at'', JStr (he_updated h))]"

section \<open>Starting and stopping\<close>

definition rollback_proxy_start ::
  "nat \<Rightarrow> platform \<Rightarrow> 'k machine \<Rightarrow> contexts \<Rightarrow> gerr \<Rightarrow> server \<Rightarrow> 'k world \<Rightarrow> (gerr option \<times> server \<times> 'k world) option" where
  "rollback_proxy_start n pf m cx cause s w =
     (case stop_and_wait n pf m (cx_stop cx) (cx_cleanup cx) (sv_pm s) w of
        None \<Rightarrow> None
      | Some (_, g, w1) \<Rightarrow> Some (Some cause, invalidate_evidence ''data-plane startup rollback'' (s\<lparr>sv_pm := g\<rparr>), w1))"

definition proxy_timeout :: gerr where
  "proxy_timeout = new_err ''safe proxy readiness timeout; managed listener ownership not established''"

definition prove_proxy :: "platform \<Rightarrow> 'k machine \<Rightarrow> server \<Rightarrow> 'k world \<Rightarrow> server \<times> 'k world" where
  "prove_proxy pf m s w =
     (case on_pm (managed_listener_owned pf m) s w of
        ((owned, detail), s1, w1) \<Rightarrow>
          (let s2 = (if owned then publish ''info'' ''SAFE proxy readiness proven by managed listener ownership'' s1
                     else publish ''warn'' (''SAFE proxy is reachable; listener ownership is unproven: '' @ detail) s1)
           in (s2\<lparr>sv_pm := mark_ready (sv_pm s2)\<rparr>, w1)))"

text \<open>The ticker fires every 150 milliseconds, the deadline after five seconds.\<close>

definition proxy_rounds :: nat where "proxy_rounds = 34"

fun wait_proxy ::
  "nat \<Rightarrow> nat \<Rightarrow> platform \<Rightarrow> 'k machine \<Rightarrow> contexts \<Rightarrow> int \<Rightarrow> server \<Rightarrow> 'k world \<Rightarrow> (gerr option \<times> server \<times> 'k world) option" where
  "wait_proxy k n pf m cx deadline s w =
     (case on_pm (managed_running m) s w of
        (False, s1, w1) \<Rightarrow> Some (Some (new_err ''sing-box exited before safe proxy readiness''), s1, w1)
      | (True, s1, w1) \<Rightarrow>
     (case listener_reachable m (sv_pm s1) w1 of
        (True, w2) \<Rightarrow> (case prove_proxy pf m s1 w2 of (s2, w3) \<Rightarrow> Some (None, s2, w3))
      | (False, w2) \<Rightarrow>
     (case cx_request cx (w_tick w2) of
        Some e \<Rightarrow> rollback_proxy_start n pf m cx e s1 w2
      | None \<Rightarrow>
     (let (t, w3) = now m w2 in
      if deadline \<le> t_nanos t then rollback_proxy_start n pf m cx proxy_timeout s1 w3
      else (case k of
          0 \<Rightarrow> rollback_proxy_start n pf m cx proxy_timeout s1 w3
        | Suc j \<Rightarrow> wait_proxy j n pf m cx deadline s1 w3)))))"

declare wait_proxy.simps [simp del]

definition ensure_sing_box :: "platform \<Rightarrow> string \<Rightarrow> 'k machine \<Rightarrow> server \<Rightarrow> 'k world \<Rightarrow> gerr option \<times> server \<times> 'k world" where
  "ensure_sing_box pf arch m s w =
     (case on_pm (install_verified pf arch m) s w of
        (Inl e, s1, w1) \<Rightarrow> (Some e, s1, w1)
      | (Inr _, s1, w1) \<Rightarrow> (None, s1, w1))"

definition start_and_wait ::
  "nat \<Rightarrow> platform \<Rightarrow> string \<Rightarrow> 'k machine \<Rightarrow> contexts \<Rightarrow> server \<Rightarrow> 'k world \<Rightarrow> (gerr option \<times> server \<times> 'k world) option" where
  "start_and_wait n pf arch m cx s w =
     (case ensure_sing_box pf arch m s w of
        (Some e, s1, w1) \<Rightarrow> Some (Some e, s1, w1)
      | (None, s1, w1) \<Rightarrow>
     (case on_pm (start_proxy pf m) s1 w1 of
        (Inl e, s2, w2) \<Rightarrow> Some (Some e, s2, w2)
      | (Inr _, s2, w2) \<Rightarrow>
          (let (t, w3) = now m w2 in wait_proxy proxy_rounds n pf m cx (t_nanos t + 5000000000) s2 w3)))"

definition start_safe_proxy ::
  "nat \<Rightarrow> platform \<Rightarrow> string \<Rightarrow> 'k machine \<Rightarrow> contexts \<Rightarrow> server \<Rightarrow> 'k world \<Rightarrow> (gerr option \<times> server \<times> 'k world) option" where
  "start_safe_proxy n pf arch m cx s w =
     (let (h, s1, w1) = on_pm (health_snapshot pf m) s w;
          (md, s2, w2) = on_pm (mode_now m) s1 w1
      in if md = Mode_proxy \<and> he_state h = Healthy then Some (None, s2, w2)
      else (case on_pm (managed_running m) s2 w2 of
          (False, s3, w3) \<Rightarrow> start_and_wait n pf arch m cx s3 w3
        | (True, s3, w3) \<Rightarrow>
            (case stop_and_wait n pf m (cx_stop cx) (cx_cleanup cx) (sv_pm s3) w3 of
               None \<Rightarrow> None
             | Some (Inl e, g, w4) \<Rightarrow> Some (Some (wrap_err ''stop existing data plane: '' e), s3\<lparr>sv_pm := g\<rparr>, w4)
             | Some (Inr _, g, w4) \<Rightarrow>
                 start_and_wait n pf arch m cx
                   (invalidate_evidence ''existing data plane stopped before SAFE proxy start'' (s3\<lparr>sv_pm := g\<rparr>)) w4)))"

definition set_auto_start :: "'k machine \<Rightarrow> bool \<Rightarrow> server \<Rightarrow> 'k world \<Rightarrow> server \<times> 'k world" where
  "set_auto_start m enabled s w =
     (let st = (sv_settings s)\<lparr>st_auto_start := enabled\<rparr>; s1 = s\<lparr>sv_settings := st\<rparr> in
      case save_settings m (sv_path s) st w of
        (Inl e, w1) \<Rightarrow> (publish ''warn'' (''persist proxy auto-start: '' @ err_text e) s1, w1)
      | (Inr _, w1) \<Rightarrow> (s1, w1))"

text \<open>\<^verbatim>\<open>Close\<close>.\<close>

definition close_server ::
  "nat \<Rightarrow> platform \<Rightarrow> 'k machine \<Rightarrow> contexts \<Rightarrow> server \<Rightarrow> 'k world \<Rightarrow> (unit res \<times> server \<times> 'k world) option" where
  "close_server n pf m cx s w =
     (case stop_and_wait n pf m (cx_request cx) (cx_cleanup cx) (sv_pm s) w of
        None \<Rightarrow> None
      | Some (r, g, w1) \<Rightarrow> Some (r, s\<lparr>sv_pm := g\<rparr>, w1))"

text \<open>The automatic start: up to three attempts, after 0, 1 and 2 seconds.\<close>

definition auto_delays :: "(nat \<times> bool) list" where
  "auto_delays = [(1, False), (2, True), (3, True)]"

fun auto_start ::
  "(nat \<times> bool) list \<Rightarrow> nat \<Rightarrow> platform \<Rightarrow> string \<Rightarrow> 'k machine \<Rightarrow> contexts \<Rightarrow> server \<Rightarrow> 'k world \<Rightarrow> (server \<times> 'k world) option" where
  "auto_start [] n pf arch m cx s w = Some (s, w)"
| "auto_start ((i, delay) # rest) n pf arch m cx s w =
     (if delay \<and> cx_request cx (w_tick w) \<noteq> None then Some (s, w)
      else (case start_safe_proxy n pf arch m cx s w of
          None \<Rightarrow> None
        | Some (None, s1, w1) \<Rightarrow> Some (publish ''info'' ''proxy auto-started'' s1, w1)
        | Some (Some e, s1, w1) \<Rightarrow>
            auto_start rest n pf arch m cx
              (publish ''warn'' (''proxy auto-start attempt '' @ itoa (int i) @ ''/3 failed: '' @ err_text e) s1) w1))"

text \<open>\<^verbatim>\<open>Serve\<close> up to the loop of the HTTP library: the error, or whether the automatic start runs.\<close>

definition serve_checks :: "(string \<Rightarrow> gerr option) \<Rightarrow> server \<Rightarrow> bool res" where
  "serve_checks listen s =
     (let addr = st_listen (sv_settings s) in
      if \<not> is_loopback_listen addr then Inl (new_err (''refusing non-loopback control-plane listen address '' @ go_quote addr))
      else (case listen addr of Some e \<Rightarrow> Inl e | None \<Rightarrow> Inr (st_auto_start (sv_settings s))))"

definition server_tunnel_options :: "platform \<Rightarrow> server \<Rightarrow> tunnel_options" where
  "server_tunnel_options pf s =
     (let o1 = default_tunnel_options pf; st = sv_settings s;
          o2 = o1\<lparr>to_fallback := st_fallback st, to_domains := to_domains o1 @ st_domains st\<rparr>
      in if pf \<noteq> Linux then o2\<lparr>to_strict := st_strict st\<rparr> else o2)"

section \<open>The configuration\<close>

record settings_patch =
  sp_listen :: "string option"
  sp_host :: "string option"
  sp_port :: "int option"
  sp_vpn :: "string option"
  sp_dns :: "string option"
  sp_version :: "string option"
  sp_auto_open :: "bool option"
  sp_auto_start :: "bool option"
  sp_strict :: "bool option"
  sp_fallback :: "bool option"
  sp_domains :: "string list option"

definition empty_patch :: settings_patch where
  "empty_patch = \<lparr>sp_listen = None, sp_host = None, sp_port = None, sp_vpn = None, sp_dns = None, sp_version = None, sp_auto_open = None,
     sp_auto_start = None, sp_strict = None, sp_fallback = None, sp_domains = None\<rparr>"

definition patch_fields :: "(string \<times> settings_patch decoder) list" where
  "patch_fields =
     [dec_field ''listen'' (dec_ptr [] dec_string) sp_listen (\<lambda>v a. a\<lparr>sp_listen := v\<rparr>),
      dec_field ''proxy_host'' (dec_ptr [] dec_string) sp_host (\<lambda>v a. a\<lparr>sp_host := v\<rparr>),
      dec_field ''proxy_port'' (dec_ptr 0 dec_int) sp_port (\<lambda>v a. a\<lparr>sp_port := v\<rparr>),
      dec_field ''vpn_interface'' (dec_ptr [] dec_string) sp_vpn (\<lambda>v a. a\<lparr>sp_vpn := v\<rparr>),
      dec_field ''dns_provider'' (dec_ptr [] dec_string) sp_dns (\<lambda>v a. a\<lparr>sp_dns := v\<rparr>),
      dec_field ''sing_box_version'' (dec_ptr [] dec_string) sp_version (\<lambda>v a. a\<lparr>sp_version := v\<rparr>),
      dec_field ''auto_open'' (dec_ptr False dec_bool) sp_auto_open (\<lambda>v a. a\<lparr>sp_auto_open := v\<rparr>),
      dec_field ''proxy_auto_start'' (dec_ptr False dec_bool) sp_auto_start (\<lambda>v a. a\<lparr>sp_auto_start := v\<rparr>),
      dec_field ''tunnel_strict_route'' (dec_ptr False dec_bool) sp_strict (\<lambda>v a. a\<lparr>sp_strict := v\<rparr>),
      dec_field ''tunnel_domain_fallback'' (dec_ptr False dec_bool) sp_fallback (\<lambda>v a. a\<lparr>sp_fallback := v\<rparr>),
      dec_field ''tunnel_learned_domains'' (dec_ptr [] (dec_list [] dec_string)) sp_domains (\<lambda>v a. a\<lparr>sp_domains := v\<rparr>)]"

definition decode_patch :: "string \<Rightarrow> settings_patch res" where
  "decode_patch body =
     (case parse_stream (take 1048576 body) of
        None \<Rightarrow> Inl json_error
      | Some j \<Rightarrow> (case dec_struct patch_fields j empty_patch of (p, ok) \<Rightarrow> if ok then Inr p else Inl json_error))"

definition or_old :: "'a option \<Rightarrow> 'a \<Rightarrow> 'a" where
  "or_old x old = (case x of Some v \<Rightarrow> v | None \<Rightarrow> old)"

definition apply_patch :: "settings_patch \<Rightarrow> settings \<Rightarrow> settings" where
  "apply_patch p st = \<lparr>
     st_listen = or_old (sp_listen p) (st_listen st), st_host = or_old (sp_host p) (st_host st), st_port = or_old (sp_port p) (st_port st),
     st_vpn = or_old (sp_vpn p) (st_vpn st), st_dns = or_old (sp_dns p) (st_dns st), st_version = or_old (sp_version p) (st_version st),
     st_auto_open = or_old (sp_auto_open p) (st_auto_open st), st_auto_start = or_old (sp_auto_start p) (st_auto_start st),
     st_strict = or_old (sp_strict p) (st_strict st), st_fallback = or_old (sp_fallback p) (st_fallback st),
     st_domains = or_old (sp_domains p) (st_domains st)\<rparr>"

definition check_config :: "settings \<Rightarrow> settings \<Rightarrow> (nat \<times> string) option" where
  "check_config old cur =
     (case validate_settings cur of
        Some e \<Rightarrow> Some (400, err_text e)
      | None \<Rightarrow>
          if st_dns cur \<noteq> ''cloudflare'' \<and> st_dns cur \<noteq> ''google'' then Some (400, ''DNS provider must be cloudflare or google'')
          else if trim_space (st_version cur) = [] then Some (400, ''sing-box version cannot be empty'')
          else if st_listen cur \<noteq> st_listen old
          then Some (409, ''control-plane listen address is immutable while the server is running; edit config while stopped and restart'')
          else None)"

definition data_plane_changed :: "settings \<Rightarrow> settings \<Rightarrow> bool" where
  "data_plane_changed old cur \<longleftrightarrow>
     st_host cur \<noteq> st_host old \<or> st_port cur \<noteq> st_port old \<or> st_vpn cur \<noteq> st_vpn old \<or> st_dns cur \<noteq> st_dns old \<or> st_version cur \<noteq> st_version old"

definition update_pm :: "'k machine \<Rightarrow> settings \<Rightarrow> server \<Rightarrow> 'k world \<Rightarrow> gerr option \<times> server \<times> 'k world" where
  "update_pm m st = on_pm (update_stopped_config m (st_host st) (st_port st) (st_vpn st) (st_dns st) (st_version st))"

definition commit_config :: "'k machine \<Rightarrow> settings \<Rightarrow> settings \<Rightarrow> server \<Rightarrow> 'k world \<Rightarrow> reply \<times> server \<times> 'k world" where
  "commit_config m old cur s w =
     (let changed = data_plane_changed old cur in
      case save_settings m (sv_path s) cur w of
        (Inl e, w1) \<Rightarrow>
          (case (if changed then update_pm m old s w1 else (None, s, w1)) of
             (_, s1, w2) \<Rightarrow> (Refused 500 (''persist configuration: '' @ err_text e), s1, w2))
      | (Inr _, w1) \<Rightarrow>
          (let s1 = s\<lparr>sv_settings := cur\<rparr>;
               s2 = (if changed then invalidate_evidence ''data-plane configuration changed'' s1 else s1)
           in (Replied (json_map [(''ok'', JBool True), (''settings'', enc_settings cur)]), publish ''info'' ''configuration transaction committed'' s2, w1)))"

definition handle_config :: "platform \<Rightarrow> 'k machine \<Rightarrow> string \<Rightarrow> server \<Rightarrow> 'k world \<Rightarrow> reply \<times> server \<times> 'k world" where
  "handle_config pf m body s w =
     (case decode_patch body of
        Inl e \<Rightarrow> (Refused 400 (err_text e), s, w)
      | Inr p \<Rightarrow>
          (let old = sv_settings s; cur = strict_on_linux pf (apply_patch p old) in
           case check_config old cur of
             Some (code, msg) \<Rightarrow> (Refused code msg, s, w)
           | None \<Rightarrow>
               (case (if data_plane_changed old cur then update_pm m cur s w else (None, s, w)) of
                  (Some e, s1, w1) \<Rightarrow> (Refused 409 (err_text e), s1, w1)
                | (None, s1, w1) \<Rightarrow> commit_config m old cur s1 w1)))"

section \<open>Actions\<close>

definition started_reply :: "platform \<Rightarrow> 'k machine \<Rightarrow> (string \<times> json) list \<Rightarrow> server \<Rightarrow> 'k world \<Rightarrow> reply \<times> server \<times> 'k world" where
  "started_reply pf m extra s w =
     (case on_pm (health_snapshot pf m) s w of
        (h, s1, w1) \<Rightarrow> (Replied (json_map ([(''ok'', JBool True), (''mode'', JStr ''safe-proxy''), (''health'', enc_health h)] @ extra)), s1, w1))"

definition handle_install :: "platform \<Rightarrow> string \<Rightarrow> 'k machine \<Rightarrow> server \<Rightarrow> 'k world \<Rightarrow> reply \<times> server \<times> 'k world" where
  "handle_install pf arch m s w =
     (case on_pm (install_verified pf arch m) s w of
        (Inl e, s1, w1) \<Rightarrow> (Refused 500 (err_text e), publish ''error'' (err_text e) s1, w1)
      | (Inr p, s1, w1) \<Rightarrow>
          (case on_pm (version_of pf m) s1 w1 of
             (v, s2, w2) \<Rightarrow> (Replied (json_map [(''ok'', JBool True), (''path'', JStr p), (''version'', JStr v)]), s2, w2)))"

text \<open>A successful start, after which the proxy starts automatically next time.\<close>

definition with_started ::
  "nat \<Rightarrow> platform \<Rightarrow> string \<Rightarrow> 'k machine \<Rightarrow> contexts \<Rightarrow> (server \<Rightarrow> 'k world \<Rightarrow> reply \<times> server \<times> 'k world) \<Rightarrow> server \<Rightarrow> 'k world \<Rightarrow> (reply \<times> server \<times> 'k world) option" where
  "with_started n pf arch m cx next s w =
     (case start_safe_proxy n pf arch m cx s w of
        None \<Rightarrow> None
      | Some (Some e, s1, w1) \<Rightarrow> Some (Refused 500 (err_text e), s1, w1)
      | Some (None, s1, w1) \<Rightarrow> (case set_auto_start m True s1 w1 of (s2, w2) \<Rightarrow> Some (next s2 w2)))"

definition handle_start where
  "handle_start n pf arch m cx =
     with_started n pf arch m cx (\<lambda>s. started_reply pf m [(''proxy'', JStr (http_proxy_url (mg_cfg (sv_pm s))))] s)"

definition handle_tunnel_start where
  "handle_tunnel_start n pf arch m cx =
     with_started n pf arch m cx (\<lambda>s. started_reply pf m [(''active'', JBool False), (''local_proxy'', JStr (http_proxy_url (mg_cfg (sv_pm s))))] s)"

text \<open>The end point, then the launch; both \<^verbatim>\<open>handleSafeMode\<close> and \<^verbatim>\<open>handleTunnelLaunch\<close> go on when the end
  point failed.\<close>

definition launch_agent :: "platform \<Rightarrow> 'k machine \<Rightarrow> server \<Rightarrow> 'k world \<Rightarrow> gerr option \<times> 'k world" where
  "launch_agent pf m s w =
     launch_with_proxy pf m [] (http_proxy_url (mg_cfg (sv_pm s))) (''socks5://'' @ socks_proxy_addr (mg_cfg (sv_pm s))) w"

definition pin_and_launch ::
  "platform \<Rightarrow> 'k machine \<Rightarrow> string \<Rightarrow> (string \<times> json) list \<Rightarrow> server \<Rightarrow> 'k world \<Rightarrow> reply \<times> server \<times> 'k world" where
  "pin_and_launch pf m msg extra s w =
     (case force_production_endpoint pf m w of
        ((files, e), w1) \<Rightarrow>
          (let s1 = (case e of None \<Rightarrow> s | Some err \<Rightarrow> publish ''warn'' (''endpoint override: '' @ err_text err) s) in
           case launch_agent pf m s1 w1 of
             (Some err, w2) \<Rightarrow> (Refused 500 (err_text err), s1, w2)
           | (None, w2) \<Rightarrow> started_reply pf m ((''settings_files'', strs files) # extra) (publish ''info'' msg s1) w2))"

definition handle_safe_mode where
  "handle_safe_mode n pf arch m cx =
     with_started n pf arch m cx (pin_and_launch pf m ''SAFE MODE completed: process-only proxy; system proxy untouched'' [])"

definition handle_tunnel_launch where
  "handle_tunnel_launch n pf arch m cx =
     with_started n pf arch m cx (pin_and_launch pf m ''Antigravity launched with persistent local proxy'' [(''tunnel_active'', JBool False)])"

definition stop_with ::
  "string \<Rightarrow> string \<Rightarrow> nat \<Rightarrow> platform \<Rightarrow> 'k machine \<Rightarrow> contexts \<Rightarrow> server \<Rightarrow> 'k world \<Rightarrow> (reply \<times> server \<times> 'k world) option" where
  "stop_with reason msg n pf m cx s w =
     (case stop_and_wait n pf m (cx_request cx) (cx_cleanup cx) (sv_pm s) w of
        None \<Rightarrow> None
      | Some (Inl e, g, w1) \<Rightarrow> Some (Refused 500 (err_text e), s\<lparr>sv_pm := g\<rparr>, w1)
      | Some (Inr _, g, w1) \<Rightarrow>
          (case set_auto_start m False (s\<lparr>sv_pm := g\<rparr>) w1 of
             (s1, w2) \<Rightarrow> Some (ok_reply, publish ''info'' msg (invalidate_evidence reason s1), w2)))"

definition handle_stop where
  "handle_stop n pf m cx s w = stop_with ''managed data plane stopped'' ''managed data plane stopped'' n pf m cx s w"

definition handle_tunnel_stop where
  "handle_tunnel_stop n pf m cx s w = stop_with ''Agent Tunnel stopped'' ''Agent Tunnel stopped; managed routes released'' n pf m cx s w"

definition handle_test :: "'k machine \<Rightarrow> server \<Rightarrow> 'k world \<Rightarrow> reply \<times> server \<times> 'k world" where
  "handle_test m s w =
     (case proxy_tests m (sv_pm s) w of
        (rs, w1) \<Rightarrow> (Tests_reply rs, fold (\<lambda>x. publish (if te_ok x then ''info'' else ''error'') (test_text x)) rs s, w1))"

definition handle_endpoint :: "platform \<Rightarrow> 'k machine \<Rightarrow> server \<Rightarrow> 'k world \<Rightarrow> reply \<times> server \<times> 'k world" where
  "handle_endpoint pf m s w =
     (case force_production_endpoint pf m w of
        ((_, Some e), w1) \<Rightarrow> (Refused 500 (err_text e), s, w1)
      | ((files, None), w1) \<Rightarrow>
          (Replied (json_map [(''ok'', JBool True), (''files'', strs files)]),
           publish ''info'' (''production endpoint applied to '' @ itoa (int (length files)) @ '' settings file(s)'') s, w1))"

definition handle_launch :: "platform \<Rightarrow> 'k machine \<Rightarrow> server \<Rightarrow> 'k world \<Rightarrow> reply \<times> server \<times> 'k world" where
  "handle_launch pf m s w =
     (case on_pm (health_snapshot pf m) s w of
        (h, s1, w1) \<Rightarrow>
          if he_state h \<noteq> Healthy then (Refused 409 ''managed proxy is not healthy'', s1, w1)
          else (case launch_agent pf m s1 w1 of
              (Some e, w2) \<Rightarrow> (Refused 500 (err_text e), s1, w2)
            | (None, w2) \<Rightarrow> (ok_reply, publish ''info'' ''Antigravity launched with process-only proxy environment'' s1, w2)))"

definition override_domain :: string where "override_domain = ''daily-cloudcode-pa.googleapis.com''"

definition handle_hosts_enable :: "platform \<Rightarrow> 'k machine \<Rightarrow> server \<Rightarrow> 'k world \<Rightarrow> reply \<times> server \<times> 'k world" where
  "handle_hosts_enable pf m s w =
     (case trusted_a m override_domain w of
        ([], w1) \<Rightarrow> (Refused 502 ''pinned DoH returned no A record'', s, w1)
      | (ip # _, w1) \<Rightarrow>
          (case set_hosts_override pf m override_domain ip (path_join (sv_root s) ''backups'') w1 of
             (Inl e, w2) \<Rightarrow> (Refused 500 (''hosts write failed (admin/root likely required): '' @ err_text e), s, w2)
           | (Inr backup, w2) \<Rightarrow>
               (Replied (json_map [(''ok'', JBool True), (''ip'', JStr ip), (''backup'', JStr backup)]),
                publish ''warn'' ''emergency hosts override enabled'' s, w2)))"

definition handle_hosts_disable :: "platform \<Rightarrow> 'k machine \<Rightarrow> server \<Rightarrow> 'k world \<Rightarrow> reply \<times> server \<times> 'k world" where
  "handle_hosts_disable pf m s w =
     (case remove_hosts_override pf m w of
        (Inl e, w1) \<Rightarrow> (Refused 500 (''hosts write failed (admin/root likely required): '' @ err_text e), s, w1)
      | (Inr _, w1) \<Rightarrow> (ok_reply, publish ''info'' ''emergency hosts override removed'' s, w1))"

section \<open>Reports\<close>

definition kernel_status :: "platform \<Rightarrow> 'k machine \<Rightarrow> server \<Rightarrow> 'k world \<Rightarrow> (string \<times> (string \<times> json) list) \<times> 'k world" where
  "kernel_status pf m s w =
     (let off = [(''supported'', JBool (pf = Linux)), (''active'', JBool False)] in
      if pf \<noteq> Linux then ((''userspace-soft'', off), w)
      else (case kernel_hard_state pf m (sv_pm s) w of
          (Inr st, w1) \<Rightarrow>
            ((''kernel-hard'',
              [(''supported'', JBool True), (''active'', JBool True), (''namespace'', JStr (hl_namespace st)), (''host_veth'', JStr (hl_host st)),
               (''vpn_interface'', JStr (hl_vpn st)), (''cgroup'', JStr (hl_cgroup st)),
               (''evidence_path'', JStr (path_join (sv_root s) ''kernel-hard-last-evidence.txt''))]), w1)
        | (Inl _, w1) \<Rightarrow>
            (case hard_available m w1 of
               (None, w2) \<Rightarrow> ((''userspace-soft'', off), w2)
             | (Some e, w2) \<Rightarrow> ((''userspace-soft'', off @ [(''error'', JStr (err_text e))]), w2))))"

definition server_status :: "platform \<Rightarrow> string \<Rightarrow> 'k machine \<Rightarrow> server \<Rightarrow> 'k world \<Rightarrow> status \<times> server \<times> 'k world" where
  "server_status pf arch m s w =
     (let (is, w1) = list_interfaces m w; (h, s1, w2) = on_pm (health_snapshot pf m) s w1;
          ((enforcement, kernel), w3) = kernel_status pf m s1 w2; (path, w4) = find_sing_box pf m (sv_pm s1) w3;
          (ver, s2, w5) = on_pm (version_of pf m) s1 w4; (exe, w6) = find_executable pf m w5;
          (active, s3, w7) = on_pm (agent_tunnel_active pf m) s2 w6
      in (\<lparr>ss_os = goos pf, ss_arch = arch, ss_running = (he_state h = Healthy), ss_proxy = http_proxy_url (mg_cfg (sv_pm s)),
           ss_socks = ''socks5://'' @ socks_proxy_addr (mg_cfg (sv_pm s)), ss_path = path, ss_version = ver, ss_antigravity = exe, ss_active = active,
           ss_supported = agent_tunnel_supported pf, ss_hint = tunnel_privilege_hint pf, ss_enforcement = enforcement, ss_kernel = kernel,
           ss_health = h, ss_settings = sv_settings s, ss_interfaces = (case is of Inr xs \<Rightarrow> xs | Inl _ \<Rightarrow> [])\<rparr>, s3, w7))"

definition tail_lines :: "nat \<Rightarrow> string \<Rightarrow> string" where
  "tail_lines n b = (let ls = split_char (CHR 0x0A) b in str_join (drop (length ls - n) ls) nl)"

definition tail_file :: "'k machine \<Rightarrow> string \<Rightarrow> nat \<Rightarrow> 'k world \<Rightarrow> string \<times> 'k world" where
  "tail_file m p n w = (case read_file m p w of (Inl _, w1) \<Rightarrow> ([], w1) | (Inr b, w1) \<Rightarrow> (tail_lines n b, w1))"

definition handle_logs :: "'k machine \<Rightarrow> server \<Rightarrow> 'k world \<Rightarrow> reply \<times> server \<times> 'k world" where
  "handle_logs m s w =
     (let (out, w1) = tail_file m (log_path (sv_pm s)) 200 w; (err, w2) = tail_file m (err_path (sv_pm s)) 200 w1
      in (Replied (json_map [(''stdout'', JStr out), (''stderr'', JStr err)]), s, w2))"

definition target_domains :: "string list" where
  "target_domains = [''antigravity.google'', ''oauth2.googleapis.com'', ''cloudcode-pa.googleapis.com'', ''daily-cloudcode-pa.googleapis.com'']"

definition handle_diagnostics :: "'k machine \<Rightarrow> server \<Rightarrow> 'k world \<Rightarrow> reply \<times> server \<times> 'k world" where
  "handle_diagnostics m s w =
     (case collect_diagnostics m target_domains w of
        (Inl e, w1) \<Rightarrow> (Refused 500 (err_text e), s, w1)
      | (Inr d, w1) \<Rightarrow> (Diagnostics_reply d, s, w1))"

definition handle_attestation :: "platform \<Rightarrow> 'k machine \<Rightarrow> server \<Rightarrow> 'k world \<Rightarrow> reply \<times> server \<times> 'k world" where
  "handle_attestation pf m s w =
     (case network_attestation pf m (sv_settings s) (sv_netstat s) (sv_cache s) (sv_pm s) w of
        (r, nc, c, g, w1) \<Rightarrow> (Attestation_reply r, s\<lparr>sv_netstat := nc, sv_cache := c, sv_pm := g\<rparr>, w1))"

section \<open>Requests\<close>

record request =
  rq_host :: string
  rq_method :: string
  rq_path :: string
  rq_cookies :: "(string \<times> string) list"
  rq_token :: string
  rq_body :: string

definition is_allowed_host :: "string \<Rightarrow> bool" where
  "is_allowed_host header =
     (let h = trim_space header in
      if h = [] then False
      else is_loopback_host (case split_host_port h of Inr (host, _) \<Rightarrow> host | Inl _ \<Rightarrow> h))"

definition csrf_ok :: "request \<Rightarrow> server \<Rightarrow> bool" where
  "csrf_ok q s \<longleftrightarrow> map_of (rq_cookies q) ''agp_csrf'' = Some (sv_csrf s) \<and> rq_token q = sv_csrf s"

datatype route =
    R_status | R_events | R_diagnostics | R_doctor | R_tree | R_attestation | R_logs
  | R_config | R_install | R_start | R_stop | R_test | R_endpoint | R_launch | R_hosts_enable | R_hosts_disable
  | R_safe | R_tunnel_start | R_tunnel_stop | R_tunnel_launch
  | R_static | R_no_method

definition get_routes :: "(string \<times> route) list" where
  "get_routes =
     [(''/api/status'', R_status), (''/api/events'', R_events), (''/api/diagnostics'', R_diagnostics), (''/api/agent-doctor'', R_doctor),
      (''/api/process-tree'', R_tree), (''/api/attestation'', R_attestation), (''/api/logs'', R_logs)]"

definition post_routes :: "(string \<times> route) list" where
  "post_routes =
     [(''/api/config'', R_config), (''/api/actions/install'', R_install), (''/api/actions/start'', R_start), (''/api/actions/stop'', R_stop),
      (''/api/actions/test'', R_test), (''/api/actions/endpoint'', R_endpoint), (''/api/actions/launch'', R_launch),
      (''/api/actions/hosts/enable'', R_hosts_enable), (''/api/actions/hosts/disable'', R_hosts_disable), (''/api/actions/safe'', R_safe),
      (''/api/actions/tunnel/start'', R_tunnel_start), (''/api/actions/tunnel/stop'', R_tunnel_stop), (''/api/actions/tunnel/launch'', R_tunnel_launch)]"

text \<open>The multiplexer on a clean path: a pattern with \<^verbatim>\<open>GET\<close> takes \<^verbatim>\<open>HEAD\<close> too, and \<^verbatim>\<open>GET /\<close> takes every path
  that no other pattern takes.\<close>

definition route_of :: "string \<Rightarrow> string \<Rightarrow> route" where
  "route_of method path =
     (if method = ''GET'' \<or> method = ''HEAD'' then (case map_of get_routes path of Some r \<Rightarrow> r | None \<Rightarrow> R_static)
      else if method = ''POST'' then (case map_of post_routes path of Some r \<Rightarrow> r | None \<Rightarrow> R_no_method)
      else R_no_method)"

definition is_action :: "route \<Rightarrow> bool" where
  "is_action r \<longleftrightarrow> r \<in> set (map snd post_routes)"

fun handle_report :: "route \<Rightarrow> platform \<Rightarrow> string \<Rightarrow> 'k machine \<Rightarrow> contexts \<Rightarrow> server \<Rightarrow> 'k world \<Rightarrow> reply \<times> server \<times> 'k world" where
  "handle_report R_status pf arch m cx s w = (case server_status pf arch m s w of (st, s1, w1) \<Rightarrow> (Status_reply st, s1, w1))"
| "handle_report R_events pf arch m cx s w = (Stream_reply, s, w)"
| "handle_report R_diagnostics pf arch m cx s w = handle_diagnostics m s w"
| "handle_report R_doctor pf arch m cx s w =
     (case agent_doctor pf m (cx_request cx) w of (None, w1) \<Rightarrow> (Panic_reply, s, w1) | (Some r, w1) \<Rightarrow> (Doctor_reply r, s, w1))"
| "handle_report R_tree pf arch m cx s w = (case discover_process_tree pf m w of (t, w1) \<Rightarrow> (Tree_reply t, s, w1))"
| "handle_report R_attestation pf arch m cx s w = handle_attestation pf m s w"
| "handle_report R_logs pf arch m cx s w = handle_logs m s w"
| "handle_report R_static pf arch m cx s w = (Static_reply, s, w)"
| "handle_report _ pf arch m cx s w = (Refused 405 ''Method Not Allowed'', s, w)"

fun handle_action :: "route \<Rightarrow> string \<Rightarrow> nat \<Rightarrow> platform \<Rightarrow> string \<Rightarrow> 'k machine \<Rightarrow> contexts \<Rightarrow> server \<Rightarrow> 'k world \<Rightarrow> (reply \<times> server \<times> 'k world) option" where
  "handle_action R_config body n pf arch m cx s w = Some (handle_config pf m body s w)"
| "handle_action R_install body n pf arch m cx s w = Some (handle_install pf arch m s w)"
| "handle_action R_start body n pf arch m cx s w = handle_start n pf arch m cx s w"
| "handle_action R_stop body n pf arch m cx s w = handle_stop n pf m cx s w"
| "handle_action R_test body n pf arch m cx s w = Some (handle_test m s w)"
| "handle_action R_endpoint body n pf arch m cx s w = Some (handle_endpoint pf m s w)"
| "handle_action R_launch body n pf arch m cx s w = Some (handle_launch pf m s w)"
| "handle_action R_hosts_enable body n pf arch m cx s w = Some (handle_hosts_enable pf m s w)"
| "handle_action R_hosts_disable body n pf arch m cx s w = Some (handle_hosts_disable pf m s w)"
| "handle_action R_safe body n pf arch m cx s w = handle_safe_mode n pf arch m cx s w"
| "handle_action R_tunnel_start body n pf arch m cx s w = handle_tunnel_start n pf arch m cx s w"
| "handle_action R_tunnel_stop body n pf arch m cx s w = handle_tunnel_stop n pf m cx s w"
| "handle_action R_tunnel_launch body n pf arch m cx s w = handle_tunnel_launch n pf arch m cx s w"
| "handle_action _ body n pf arch m cx s w = Some (Refused 405 ''Method Not Allowed'', s, w)"

definition handle_request ::
  "nat \<Rightarrow> platform \<Rightarrow> string \<Rightarrow> 'k machine \<Rightarrow> contexts \<Rightarrow> request \<Rightarrow> server \<Rightarrow> 'k world \<Rightarrow> (reply \<times> server \<times> 'k world) option" where
  "handle_request n pf arch m cx q s w =
     (if \<not> is_allowed_host (rq_host q) then Some (Refused 403 ''forbidden: invalid Host header'', s, w)
      else (let r = route_of (rq_method q) (rq_path q) in
        if \<not> is_action r then Some (handle_report r pf arch m cx s w)
        else if \<not> csrf_ok q s then Some (Refused 403 ''CSRF validation failed'', s, w)
        else handle_action r (rq_body q) n pf arch m cx s w))"

end
