(* ===== verification/ReadOnly.thy ===== *)
theory ReadOnly imports App begin

text \<open>
  What a request can do without the token.  The lemmas show of every report of the control plane that it
  only reads: no file changes at any moment, no signal is sent, no program starts, and the commands it runs
  are the four observing ones.
\<close>

section \<open>Reading\<close>

definition report_cmd :: "string list \<Rightarrow> bool" where
  "report_cmd c \<longleftrightarrow>
     (\<exists>p. c = [p, ''version'']) \<or> (\<exists>b s. c = api_connections_cmd b s) \<or> (\<exists>proto. c = netstat_cmd proto) \<or>
     (\<exists>sh. c = [sh, ''-NoProfile'', ''-NonInteractive'', ''-Command'', windows_script])"

definition reads :: "'k world \<Rightarrow> 'k world \<Rightarrow> bool" where
  "reads w w' \<longleftrightarrow> runs report_cmd w w' \<and> w_files w' = w_files w \<and> w_trace w' = w_trace w \<and> w_signals w' = w_signals w"

text \<open>And of the manager only children that ended are forgotten.\<close>

definition calm :: "manager \<Rightarrow> 'k world \<Rightarrow> manager \<Rightarrow> 'k world \<Rightarrow> bool" where
  "calm g w g' w' \<longleftrightarrow> reads w w' \<and> mg_cfg g' = mg_cfg g \<and>
     (mg_cmd g' = mg_cmd g \<or> mg_cmd g' = None) \<and> (mg_hard g' = mg_hard g \<or> mg_hard g' = None)"

lemma reads_refl [simp]: "reads w w"
  by (simp add: reads_def)

lemma reads_trans [trans]: "reads w w1 \<Longrightarrow> reads w1 w2 \<Longrightarrow> reads w w2"
  by (auto simp: reads_def intro: runs_trans)

lemma reads_tick [simp]: "reads w (tick w1) = reads w w1" "reads (tick w) w1 = reads w w1"
  by (simp_all add: reads_def)

lemma calm_refl [simp]: "calm g w g w"
  by (simp add: calm_def)

lemma calm_trans [trans]: "calm g w g1 w1 \<Longrightarrow> calm g1 w1 g2 w2 \<Longrightarrow> calm g w g2 w2"
  by (auto simp: calm_def intro: reads_trans)

lemma reads_calm [trans]: "reads w w1 \<Longrightarrow> calm g w1 g2 w2 \<Longrightarrow> calm g w g2 w2"
  by (auto simp: calm_def intro: reads_trans)

lemma calm_reads [trans]: "calm g w g1 w1 \<Longrightarrow> reads w1 w2 \<Longrightarrow> calm g w g1 w2"
  by (auto simp: calm_def intro: reads_trans)

lemma calmI: "reads w w' \<Longrightarrow> calm g w g w'"
  by (simp add: calm_def)

lemma observes_reads: "observes report_cmd w w' \<Longrightarrow> reads w w'"
  by (simp add: observes_def reads_def outs_def)

lemma observe_reads: "observe m f w = (r, w') \<Longrightarrow> reads w w'"
  by (rule observes_reads [OF observe_observes])

lemma now_reads: "now m w = (t, w') \<Longrightarrow> reads w w'"
  by (rule observes_reads [OF now_observes])

lemma http_reads: "http_do m q w = (r, w') \<Longrightarrow> reads w w'"
  by (drule http_doD) (simp add: reads_def runs_def)

lemma read_file_reads: "read_file m p w = (r, w') \<Longrightarrow> reads w w'"
  by (drule file_callD(1)) simp

lemma exec_reads: "exec_cmd m c w = (r, w') \<Longrightarrow> report_cmd c \<Longrightarrow> reads w w'"
  by (rule observes_reads [OF exec_observes])

lemma poll_calm: "poll m g w = (g', w') \<Longrightarrow> calm g w g' w'"
  using pollD(1) [of m g w g' w' report_cmd] pollD(2-4) [of m g w g' w'] by (simp add: calm_def observes_reads)

lemma polls_calm:
  "mode_now m g w = (md, g', w') \<Longrightarrow> calm g w g' w'" "managed_running m g w = (b, g', w') \<Longrightarrow> calm g w g' w'"
  "managed_pid m g w = (pid, g', w') \<Longrightarrow> calm g w g' w'" "tunnel_running m g w = (b, g', w') \<Longrightarrow> calm g w g' w'"
  by (auto simp: mode_now_def managed_running_def managed_pid_def tunnel_running_def Let_def split: prod.splits dest: poll_calm)

section \<open>The data plane\<close>

lemma owns_listener_reads: "owns_listener pf m pid h p w = (r, w') \<Longrightarrow> reads w w'"
proof (rule observes_reads)
  have n: "report_cmd (netstat_cmd proto)" for proto by (auto simp: report_cmd_def)
  show "owns_listener pf m pid h p w = (r, w') \<Longrightarrow> observes report_cmd w w'"
    by (cases pf) (auto simp: owns_listener_def windows_owns_listener_def n split: prod.splits sum.splits option.splits list.splits
        dest!: process_listener_observes [where A = report_cmd] exec_observes [where A = report_cmd])
qed

lemma managed_listener_calm:
  assumes "managed_listener_owned pf m g w = (r, g', w')"
  shows "calm g w g' w'"
proof -
  obtain pid g1 w1 where p: "managed_pid m g w = (pid, g1, w1)" by (metis prod_cases3)
  obtain o1 w2 where o1: "owns_listener pf m pid (cf_host (mg_cfg g1)) (cf_port (mg_cfg g1)) w1 = (o1, w2)" by fastforce
  obtain d w3 where d: "dial_tcp m (listen_addr (mg_cfg g1)) w2 = (d, w3)" by fastforce
  have "reads w1 w2" "reads w1 w3"
    using owns_listener_reads [OF o1] observes_reads [OF dial_observes [OF d]] by (auto intro: reads_trans)
  then have "g' = g1 \<and> reads w1 w'"
    using assms by (auto simp: managed_listener_owned_def p o1 d Let_def split: if_splits sum.splits prod.splits option.splits)
  then show ?thesis using polls_calm(3) [OF p] by (auto intro: calm_reads)
qed

lemma find_sing_box_reads: "find_sing_box pf m g w = (p, w') \<Longrightarrow> reads w w'"
  by (auto simp: find_sing_box_def file_exists_def split: prod.splits sum.splits option.splits bool.splits
      dest!: file_callD(2) look_path_observes [where A = report_cmd] observes_reads intro: reads_trans)

lemma runtime_connections_calm:
  assumes "runtime_connections pf m g w = (r, g', w')"
  shows "calm g w g' w'"
proof -
  obtain b g1 w1 where b: "managed_running m g w = (b, g1, w1)" by (metis prod_cases3)
  obtain md g2 w2 where md: "(if b then mode_now m g1 w1 else (Mode_off, g1, w1)) = (md, g2, w2)" by (metis prod_cases3)
  obtain bin w3 where bin: "find_sing_box pf m g2 w2 = (bin, w3)" by fastforce
  obtain s w4 where s: "api_secret m (cf_root (mg_cfg g2)) w3 = (s, w4)" by fastforce
  have "calm g1 w1 g2 w2" using md polls_calm(1) by (cases b) auto
  then have c: "calm g w g2 w2" using polls_calm(2) [OF b] by (rule calm_trans [rotated])
  have r: "reads w2 w3" "reads w3 w4"
    using find_sing_box_reads [OF bin] s by (auto simp: api_secret_def Let_def split: prod.splits sum.splits if_splits dest: read_file_reads)
  have e: "exec_output m (api_connections_cmd bin x) w4 = (y, w5) \<Longrightarrow> reads w4 w5" for x y w5
    by (drule exec_outputD) (auto simp: reads_def runs_def outs_def report_cmd_def)
  have "g' = g2 \<and> reads w2 w'"
    using assms r e unfolding runtime_connections_def
    by (simp add: b md bin s Let_def split: if_splits sum.splits prod.splits option.splits) (meson reads_trans reads_refl)+
  with c show ?thesis by (auto intro: calm_reads)
qed

lemma journal_status_reads: "network_journal_status m root w = (js, w') \<Longrightarrow> reads w w'"
  by (auto simp: network_journal_status_def load_tunnel_journal_def load_backup_journal_def Let_def split: prod.splits sum.splits option.splits if_splits
      dest!: read_file_reads intro: reads_trans)

lemma tunnel_health_reads: "tunnel_health m g owned ok h w = (h', w') \<Longrightarrow> reads w w'"
  by (auto simp: tunnel_health_def Let_def split: prod.splits if_splits dest!: iface_observes [where A = report_cmd] observes_reads intro: reads_trans)

lemma health_calm:
  assumes "health_snapshot pf m g w = (h, g', w')"
  shows "calm g w g' w'"
proof -
  obtain md g1 w1 where 1: "mode_now m g w = (md, g1, w1)" by (metis prod_cases3)
  obtain t w2 where 2: "now m w1 = (t, w2)" by fastforce
  obtain js w3 where 3: "network_journal_status m (cf_root (mg_cfg g1)) w2 = (js, w3)" by fastforce
  obtain b g2 w4 where 4: "managed_running m g1 w3 = (b, g2, w4)" by (metis prod_cases3)
  obtain pid g3 w5 where 5: "managed_pid m g2 w4 = (pid, g3, w5)" by (metis prod_cases3)
  obtain x w6 where 6: "listener_reachable m g3 w5 = (x, w6)" by fastforce
  obtain ow d g4 w7 where 7: "managed_listener_owned pf m g3 w6 = ((ow, d), g4, w7)" by (metis surj_pair)
  have c5: "calm g w g3 w5"
    using polls_calm(1) [OF 1] now_reads [OF 2] journal_status_reads [OF 3] polls_calm(2) [OF 4] polls_calm(3) [OF 5]
    by (meson calm_trans calm_reads)
  have "reads w5 w6" using 6 by (auto simp: listener_reachable_def Let_def split: prod.splits dest: observes_reads [OF dial_observes])
  then have c7: "calm g w g4 w7" using c5 managed_listener_calm [OF 7] by (meson calm_trans calm_reads)
  have "g' = g3 \<and> w' = w5 \<or> g' = g4 \<and> reads w7 w'"
    using assms unfolding health_snapshot_def
    by (auto simp: 1 2 3 4 5 6 7 Let_def split: if_splits prod.splits dest: tunnel_health_reads)
  then show ?thesis using c5 c7 by (auto intro: calm_reads)
qed

lemma version_calm:
  assumes "version_of pf m g w = (v, g', w')"
  shows "calm g w g' w'"
proof -
  have b: "binary_version m p w1 = (v1, w2) \<Longrightarrow> reads w1 w2" for p v1 w1 w2
    by (auto simp: binary_version_def report_cmd_def split: if_splits prod.splits option.splits dest!: exec_reads)
  show ?thesis using assms
    by (auto simp: version_of_def calm_def Let_def split: prod.splits if_splits dest!: find_sing_box_reads now_reads b intro: reads_trans)
qed

lemma hard_state_reads: "kernel_hard_state pf m g w = (r, w') \<Longrightarrow> reads w w'"
  by (auto simp: kernel_hard_state_def read_hard_state_def Let_def split: prod.splits sum.splits if_splits dest: read_file_reads)

lemma all_commands_reads: "all_commands ns m w = (e, w') \<Longrightarrow> reads w w'"
  by (induction ns arbitrary: w)
    (auto split: prod.splits option.splits dest!: look_path_observes [where A = report_cmd] observes_reads intro: reads_trans)

lemma hard_available_reads: "hard_available m w = (e, w') \<Longrightarrow> reads w w'"
  by (auto simp: hard_available_def simp del: all_commands.simps split: prod.splits sum.splits dest!: all_commands_reads host_stat_observes [where A = report_cmd] observes_reads
      intro: reads_trans)

lemma tunnel_active_calm:
  assumes "agent_tunnel_active pf m g w = (b, g', w')"
  shows "calm g w g' w'"
proof -
  obtain r g1 w1 where r: "tunnel_running m g w = (r, g1, w1)" by (metis prod_cases3)
  have "g' = g1 \<and> reads w1 w'"
    using assms by (cases r) (auto simp: agent_tunnel_active_def r hard_state_active_def split: prod.splits dest: hard_state_reads)
  then show ?thesis using polls_calm(4) [OF r] by (auto intro: calm_reads)
qed

section \<open>Reports\<close>

lemma list_interfaces_reads: "list_interfaces m w = (r, w') \<Longrightarrow> reads w w'"
  by (auto simp: list_interfaces_def split: prod.splits sum.splits dest: observe_reads)

lemma lookups_reads:
  "lookup_ip m n d w = (r, w') \<Longrightarrow> reads w w'" "doh_type m h p d q a w = (r, w') \<Longrightarrow> reads w w'"
  by (auto simp: lookup_ip_def doh_type_def split: prod.splits sum.splits if_splits dest: observe_reads http_reads)

lemma compare_dns_reads: "compare_dns m d w = (c, w') \<Longrightarrow> reads w w'"
  unfolding compare_dns_def Let_def system_a_def system_aaaa_def doh_a_def doh_aaaa_def
  by (auto split: prod.splits dest!: lookups_reads) (meson reads_trans)

lemma compare_all_reads: "compare_all m ds w = (cs, w') \<Longrightarrow> reads w w'"
  by (induction ds arbitrary: w cs) (auto simp: Let_def split: prod.splits dest!: compare_dns_reads intro: reads_trans)

lemma diagnostics_reads: "collect_diagnostics m ds w = (r, w') \<Longrightarrow> reads w w'"
proof -
  have g: "public_geo m w1 = (p, w2) \<Longrightarrow> reads w1 w2" for p and w1 w2 :: "'a world"
    by (auto simp: public_geo_def split: prod.splits sum.splits option.splits if_splits dest: http_reads)
  show "collect_diagnostics m ds w = (r, w') \<Longrightarrow> reads w w'"
    by (auto simp: collect_diagnostics_def Let_def split: prod.splits sum.splits
        dest!: list_interfaces_reads now_reads g compare_all_reads) (meson reads_trans)+
qed

lemma doctor_reads:
  assumes "agent_doctor pf m ctx w = (r, w')"
  shows "reads w w'"
proof -
  obtain shown w1 where 1: "existing_roots m (agent_log_roots pf m) w = (shown, w1)" by fastforce
  obtain t w2 where 2: "now m w1 = (t, w2)" by fastforce
  obtain logs w3 where 3: "candidate_logs m ctx (t_nanos t - fourteen_days) (agent_log_roots pf m) w2 = (logs, w3)" by fastforce
  obtain x w4 where 4: "scan_files m ctx (newest_logs logs) empty_scan w3 = (x, w4)" by fastforce
  have "observes (\<lambda>_. False) w w4"
    using existing_roots_observes [OF 1] now_observes [OF 2] candidate_logs_observes [OF 3] scan_files_ok [OF 4 empty_scan_ok]
    by (meson observes_trans)
  then have "observes report_cmd w w4" by (rule observes_mono) simp
  moreover have "w' = w4" using assms by (auto simp: agent_doctor_def Let_def 1 2 3 4 split: prod.splits option.splits)
  ultimately show ?thesis by (simp add: observes_reads)
qed

lemma linux_process_reads: "read_linux_process m pid w = (r, w') \<Longrightarrow> reads w w'"
  by (auto simp: read_linux_process_def Let_def split: prod.splits sum.splits if_splits dest!: observe_reads intro: reads_trans)

lemma linux_processes_reads: "read_linux_processes m ns w = (ps, w') \<Longrightarrow> reads w w'"
proof (induction ns arbitrary: w ps)
  case (Cons n ns)
  obtain st w1 where st: "observe m (\<lambda>k. m_host_lstat m k (path_join ''/proc'' n)) w = (st, w1)" by fastforce
  have "reads w1 w'"
    using Cons by (auto simp: st Let_def split: prod.splits sum.splits if_splits option.splits dest!: linux_process_reads intro: reads_trans)
  with observe_reads [OF st] show ?case by (rule reads_trans)
qed simp

lemma find_shell_reads: "find_shell m w = (r, w') \<Longrightarrow> reads w w'"
  by (auto simp: find_shell_def split: prod.splits option.splits dest!: look_path_observes [where A = report_cmd] observes_reads intro: reads_trans)

lemma tree_reads:
  assumes "discover_process_tree pf m w = (t, w')"
  shows "reads w w'"
proof (cases "pf = Windows")
  case True
  have c: "report_cmd [sh, ''-NoProfile'', ''-NonInteractive'', ''-Command'', windows_script]" for sh by (auto simp: report_cmd_def)
  show ?thesis using assms True
    by (auto simp: discover_process_tree_def list_windows_processes_def c split: prod.splits sum.splits option.splits if_splits
        dest!: find_shell_reads exec_reads intro: reads_trans)
next
  case False
  then show ?thesis using assms
    by (auto simp: discover_process_tree_def list_linux_processes_def Let_def split: prod.splits sum.splits
        dest!: observe_reads linux_processes_reads intro: reads_trans)
qed

lemma collect_inodes_reads: "collect_inodes ts m a port w = (r, w') \<Longrightarrow> reads w w'"
  by (induction ts m a port w arbitrary: r w' rule: collect_inodes.induct)
    (auto simp: source_socket_inodes_def split: prod.splits sum.splits if_splits
      dest!: host_file_observes [where A = report_cmd] observes_reads intro: reads_trans)

lemma owning_pids_reads: "owning_pids ps m is w = (r, w') \<Longrightarrow> reads w w'"
  by (induction ps m "is" w arbitrary: r w' rule: owning_pids.induct)
    (auto simp: Let_def split: prod.splits sum.splits if_splits
      dest!: socket_inodes_observes [where A = report_cmd] observes_reads intro: reads_trans)

lemma connection_owners_reads: "connection_owners m source network candidates w = (r, w') \<Longrightarrow> reads w w'"
  by (auto simp: connection_owners_def Let_def split: prod.splits sum.splits if_splits
      dest!: collect_inodes_reads owning_pids_reads intro: reads_trans)

lemma netstat_reads: "netstat_output m c proto w = (r, c', w') \<Longrightarrow> reads w w'"
proof -
  have n: "report_cmd (netstat_cmd proto)" by (auto simp: report_cmd_def)
  show "netstat_output m c proto w = (r, c', w') \<Longrightarrow> reads w w'"
    by (auto simp: netstat_output_def Let_def n split: prod.splits option.splits if_splits dest!: now_reads exec_reads intro: reads_trans)
qed

lemma runtime_owners_reads: "runtime_connection_owners pf m c source network candidates w = (r, c', w') \<Longrightarrow> reads w w'"
  by (cases pf) (auto simp: runtime_connection_owners_def windows_connection_owners_def Let_def
      split: prod.splits sum.splits if_splits dest!: connection_owners_reads netstat_reads)

lemma join_connections_reads: "join_connections pf m nc cs r w = (r', nc', w') \<Longrightarrow> reads w w'"
  by (induction cs arbitrary: nc r w) (auto split: prod.splits dest!: runtime_owners_reads intro: reads_trans)

lemma agent_routes_calm: "attest_agent_routes pf m g w = (r, g', w') \<Longrightarrow> calm g w g' w'"
  by (auto simp: attest_agent_routes_def Let_def split: prod.splits sum.splits dest!: now_reads runtime_connections_calm intro: reads_calm)

lemma pid_routes_calm: "attest_agent_pid_routes pf m nc ps g w = (r, nc', g', w') \<Longrightarrow> calm g w g' w'"
  by (auto simp: attest_agent_pid_routes_def Let_def calmI split: prod.splits sum.splits if_splits
      dest!: now_reads runtime_connections_calm join_connections_reads intro: reads_calm calm_reads)

lemma probes_reads:
  "probe_one_egress m proxy p via w = (e, w') \<Longrightarrow> reads w w'" "probe_providers m proxy ps via w = (es, w') \<Longrightarrow> reads w w'"
proof -
  show one: "probe_one_egress m proxy p via w = (e, w') \<Longrightarrow> reads w w'" for p w e w'
    by (auto simp: probe_one_egress_def Let_def split: prod.splits dest!: now_reads http_reads) (meson reads_trans)
  show "probe_providers m proxy ps via w = (es, w') \<Longrightarrow> reads w w'"
    by (induction ps arbitrary: w es) (auto simp: Let_def split: prod.splits dest!: one intro: reads_trans)
qed

lemma conclude_reads: "conclude_egress m ps es r w = (r', w') \<Longrightarrow> reads w w'"
  by (auto simp: conclude_egress_def Let_def split: prod.splits option.splits if_splits dest: probes_reads)

lemma egress_calm:
  assumes "attest_egress_with pf m ps g w = (r, g', w')"
  shows "calm g w g' w'"
proof -
  obtain t w1 where 1: "now m w = (t, w1)" by fastforce
  obtain md g1 w2 where 2: "mode_now m g w1 = (md, g1, w2)" by (metis prod_cases3)
  obtain b g2 w3 where 3: "(if md \<noteq> Mode_tunnel then (False, g1, w2) else managed_running m g1 w2) = (b, g2, w3)" by (metis prod_cases3)
  obtain ow d g3 w4 where 4: "managed_listener_owned pf m g2 w3 = ((ow, d), g3, w4)" by (metis surj_pair)
  have "calm g1 w2 g2 w3" using 3 polls_calm(2) by (cases "md \<noteq> Mode_tunnel") auto
  then have c3: "calm g w g2 w3" using now_reads [OF 1] polls_calm(1) [OF 2] by (meson calm_trans reads_calm)
  then have c4: "calm g w g3 w4" using managed_listener_calm [OF 4] by (rule calm_trans)
  have "g' = g2 \<and> w' = w3 \<or> g' = g3 \<and> reads w4 w'"
    using assms unfolding attest_egress_with_def
    by (auto simp: 1 2 3 4 Let_def split: if_splits prod.splits option.splits dest!: probes_reads conclude_reads intro: reads_trans)
  then show ?thesis using c3 c4 by (auto intro: calm_reads)
qed

lemma cached_egress_calm:
  assumes "cached_public_egress pf m c g w = (r, c', g', w')"
  shows "calm g w g' w'"
proof -
  obtain pid g1 w1 where 1: "managed_pid m g w = (pid, g1, w1)" by (metis prod_cases3)
  obtain t w2 where 2: "now m w1 = (t, w2)" by fastforce
  have c: "calm g w g1 w2" using polls_calm(3) [OF 1] now_reads [OF 2] by (rule calm_reads)
  have "g' = g1 \<and> w' = w2 \<or> calm g1 w2 g' w'"
    using assms unfolding cached_public_egress_def
    by (auto simp: 1 2 Let_def attest_public_egress_def split: prod.splits option.splits dest!: egress_calm now_reads intro: calm_reads)
  then show ?thesis using c by (auto intro: calm_trans)
qed

lemma attestation_calm:
  assumes "network_attestation pf m st nc c g w = (r, nc', c', g', w')"
  shows "calm g w g' w'"
proof -
  obtain t w1 where 1: "now m w = (t, w1)" by fastforce
  obtain md g1 w2 where 2: "mode_now m g w1 = (md, g1, w2)" by (metis prod_cases3)
  obtain b g2 w3 where 3: "(if md = Mode_tunnel then agent_tunnel_active pf m g1 w2 else (False, g1, w2)) = (b, g2, w3)" by (metis prod_cases3)
  obtain tr w4 where 4: "discover_process_tree pf m w3 = (tr, w4)" by fastforce
  obtain ro g3 w5 where 5: "attest_agent_routes pf m g2 w4 = (ro, g3, w5)" by (metis prod_cases3)
  obtain pr nc1 g4 w6 where 6: "attest_agent_pid_routes pf m nc (filter (\<lambda>p. p > 0) (map pi_pid (pt_processes tr))) g3 w5 = (pr, nc1, g4, w6)" by (metis prod_cases4)
  have "calm g1 w2 g2 w3" using 3 tunnel_active_calm by (cases "md = Mode_tunnel") auto
  then have c3: "calm g w g2 w3" using now_reads [OF 1] polls_calm(1) [OF 2] by (meson calm_trans reads_calm)
  then have c6: "calm g w g4 w6" using tree_reads [OF 4] agent_routes_calm [OF 5] pid_routes_calm [OF 6] by (meson calm_trans calm_reads)
  have e: "egress_part pf m c r1 g4 w6 = (r2, c1, g5, w7) \<Longrightarrow> calm g4 w6 g5 w7" for r1 r2 c1 g5 w7
    by (auto simp: egress_part_def split: if_splits prod.splits dest!: cached_egress_calm)
  have "g' = g2 \<and> w' = w3 \<or> calm g4 w6 g' w'"
    using assms unfolding network_attestation_def
    by (auto simp: 1 2 3 4 5 6 Let_def split: if_splits prod.splits dest!: e)
  then show ?thesis using c3 c6 by (auto intro: calm_trans)
qed

section \<open>Requests\<close>

definition server_calm :: "server \<Rightarrow> 'k world \<Rightarrow> server \<Rightarrow> 'k world \<Rightarrow> bool" where
  "server_calm s w s' w' \<longleftrightarrow> calm (sv_pm s) w (sv_pm s') w' \<and> sv_settings s' = sv_settings s \<and> sv_csrf s' = sv_csrf s \<and>
     sv_root s' = sv_root s \<and> sv_path s' = sv_path s"

lemma server_calm_refl [simp]: "server_calm s w s w"
  by (simp add: server_calm_def)

lemma server_calm_trans [trans]: "server_calm s w s1 w1 \<Longrightarrow> server_calm s1 w1 s2 w2 \<Longrightarrow> server_calm s w s2 w2"
  by (auto simp: server_calm_def intro: calm_trans)

lemma server_reads: "reads w w' \<Longrightarrow> server_calm s w s w'"
  by (simp add: server_calm_def calm_def)

lemma on_pm_calm: "on_pm f s w = (r, s', w') \<Longrightarrow> (\<And>r g w1. f (sv_pm s) w = (r, g, w1) \<Longrightarrow> calm (sv_pm s) w g w1) \<Longrightarrow> server_calm s w s' w'"
  by (auto simp: on_pm_def server_calm_def split: prod.splits)

lemma status_calm:
  assumes "server_status pf arch m s w = (st, s', w')"
  shows "server_calm s w s' w'"
proof -
  obtain ifs w1 where 1: "list_interfaces m w = (ifs, w1)" by fastforce
  obtain h s1 w2 where 2: "on_pm (health_snapshot pf m) s w1 = (h, s1, w2)" by (metis prod_cases3)
  obtain en ke w3 where 3: "kernel_status pf m s1 w2 = ((en, ke), w3)" by (metis surj_pair)
  obtain p w4 where 4: "find_sing_box pf m (sv_pm s1) w3 = (p, w4)" by fastforce
  obtain v s2 w5 where 5: "on_pm (version_of pf m) s1 w4 = (v, s2, w5)" by (metis prod_cases3)
  obtain x w6 where 6: "find_executable pf m w5 = (x, w6)" by fastforce
  obtain a s3 w7 where 7: "on_pm (agent_tunnel_active pf m) s2 w6 = (a, s3, w7)" by (metis prod_cases3)
  have k: "reads w2 w3" using 3
    by (auto simp: kernel_status_def Let_def split: if_splits prod.splits sum.splits option.splits
        dest!: hard_state_reads hard_available_reads intro: reads_trans)
  have "server_calm s w s w1" by (rule server_reads [OF list_interfaces_reads [OF 1]])
  also have "server_calm s w1 s1 w2" by (rule on_pm_calm [OF 2 health_calm])
  also have "server_calm s1 w2 s1 w4" using k find_sing_box_reads [OF 4] by (intro server_reads) (rule reads_trans)
  also have "server_calm s1 w4 s2 w5" by (rule on_pm_calm [OF 5 version_calm])
  also have "server_calm s2 w5 s2 w6" by (rule server_reads [OF observes_reads [OF find_executable_observes [OF 6]]])
  also have "server_calm s2 w6 s3 w7" by (rule on_pm_calm [OF 7 tunnel_active_calm])
  finally have "server_calm s w s3 w7" .
  moreover have "s' = s3 \<and> w' = w7" using assms by (simp only: server_status_def Let_def 1 2 3 4 5 6 7 prod.case prod.inject)
  ultimately show ?thesis by simp
qed

lemma report_calm:
  assumes "handle_report r pf arch m cx s w = (x, s', w')"
  shows "server_calm s w s' w'"
proof -
  have t: "tail_file m p n w1 = (y, w2) \<Longrightarrow> reads w1 w2" for p n y w1 w2
    by (auto simp: tail_file_def split: prod.splits sum.splits dest: read_file_reads)
  have l: "handle_logs m s w = (x, s', w') \<Longrightarrow> ?thesis"
    by (auto simp: handle_logs_def Let_def split: prod.splits dest!: t intro!: server_reads intro: reads_trans)
  have d: "handle_diagnostics m s w = (x, s', w') \<Longrightarrow> ?thesis"
    by (auto simp: handle_diagnostics_def split: prod.splits sum.splits dest!: diagnostics_reads intro: server_reads)
  have a: "handle_attestation pf m s w = (x, s', w') \<Longrightarrow> ?thesis"
    by (auto simp: handle_attestation_def server_calm_def split: prod.splits dest: attestation_calm)
  show ?thesis using assms
    by (cases r) (auto simp: l d a split: prod.splits option.splits dest: status_calm intro: server_reads tree_reads doctor_reads)
qed

section \<open>Properties\<close>

text \<open>C9: without the token a request only reads.  A request that does not come for a loopback host, or is
  not a POST, or does not carry the token in the cookie and in the header is always answered, changes no
  file at any moment, sends no signal, starts no program and runs no command but the four observing ones;
  settings, token and the configuration of the manager stay, and the manager at most notices that a child
  ended.  For a foreign host name it is refused before anything happens.\<close>

theorem forged_requests_read_only:
  assumes "\<not> (is_allowed_host (rq_host q) \<and> rq_method q = ''POST'' \<and> csrf_ok q s)"
  shows "\<exists>x s' w'. handle_request n pf arch m cx q s w = Some (x, s', w') \<and>
    w_files w' = w_files w \<and> w_trace w' = w_trace w \<and> w_signals w' = w_signals w \<and>
    (\<exists>cs. w_log w' = w_log w @ cs \<and> list_all report_cmd cs) \<and>
    sv_settings s' = sv_settings s \<and> sv_csrf s' = sv_csrf s \<and> mg_cfg (sv_pm s') = mg_cfg (sv_pm s) \<and>
    mg_cmd (sv_pm s') \<in> {mg_cmd (sv_pm s), None} \<and>
    (\<not> is_allowed_host (rq_host q) \<longrightarrow> x = Refused 403 ''forbidden: invalid Host header'' \<and> s' = s \<and> w' = w)"
proof -
  let ?r = "route_of (rq_method q) (rq_path q)"
  have post: "rq_method q = ''POST''" if "is_action ?r"
    using that map_of_SomeD [of get_routes "rq_path q"]
    by (auto simp: route_of_def is_action_def get_routes_def post_routes_def split: option.splits if_splits)
  consider "\<not> is_allowed_host (rq_host q)" | "is_allowed_host (rq_host q)" "\<not> is_action ?r" | "is_allowed_host (rq_host q)" "is_action ?r" "\<not> csrf_ok q s"
    using assms post by blast
  then show ?thesis
  proof cases
    case 2
    obtain x s' w' where h: "handle_report ?r pf arch m cx s w = (x, s', w')" by (metis prod_cases3)
    show ?thesis using 2 report_calm [OF h]
      by (simp add: handle_request_def h server_calm_def calm_def reads_def runs_def)
  qed (auto simp: handle_request_def)
qed

definition sample_server :: server where
  "sample_server = \<lparr>sv_root = ''/r'', sv_path = ''/r/config.json'', sv_settings = default_settings, sv_pm = new_manager (config_of ''/r'' default_settings),
     sv_csrf = ''c0ffee'', sv_cache = empty_cache, sv_netstat = (\<lambda>_. None)\<rparr>"

definition forged_request :: request where
  "forged_request = \<lparr>rq_host = ''localhost:8787'', rq_method = ''POST'', rq_path = ''/api/actions/hosts/enable'',
     rq_cookies = [(''agp_csrf'', ''c0ffee'')], rq_token = [], rq_body = []\<rparr>"

theorem forged_requests_read_only_witness:
  "\<exists>x s' w'. handle_request 9 Linux ''amd64'' quiet_machine \<lparr>cx_request = (\<lambda>_. None), cx_stop = (\<lambda>_. None), cx_cleanup = (\<lambda>_. None)\<rparr>
      forged_request sample_server (world_of [(''/etc/hosts'', [])] ()) = Some (x, s', w') \<and>
    w_files w' ''/etc/hosts'' = Some \<lparr>f_data = [], f_perm = 384, f_synced = True\<rparr>"
proof -
  have "\<not> (is_allowed_host (rq_host forged_request) \<and> rq_method forged_request = ''POST'' \<and> csrf_ok forged_request sample_server)"
    by (simp add: csrf_ok_def forged_request_def sample_server_def)
  from forged_requests_read_only [OF this, of 9 Linux "''amd64''" quiet_machine _ "world_of [(''/etc/hosts'', [])] ()"]
  show ?thesis by (fastforce simp: world_of_def)
qed

end
