(* ===== verification/Control.thy ===== *)
theory Control imports ReadOnly begin

text \<open>
  The states that the control plane reaches, from its creation through any requests and automatic starts
  while the world around it changes in any way.  The lemmas show that its settings stay safe and fixed
  where they have to be, that a configuration is committed to memory, disk and manager at once or not at
  all, and what a successful start of the proxy rests on.
\<close>

section \<open>The configuration of the manager\<close>

lemma poll_cfg:
  "mode_now m g w = (md, g', w') \<Longrightarrow> mg_cfg g' = mg_cfg g" "managed_running m g w = (b, g', w') \<Longrightarrow> mg_cfg g' = mg_cfg g"
  "managed_pid m g w = (pid, g', w') \<Longrightarrow> mg_cfg g' = mg_cfg g" "tunnel_running m g w = (b, g', w') \<Longrightarrow> mg_cfg g' = mg_cfg g"
  by (auto simp: mode_now_def managed_running_def managed_pid_def tunnel_running_def Let_def split: prod.splits dest: pollD(2))

lemma kill_wait_cfg: "kill_wait n pf m g w = (b, g', w') \<Longrightarrow> mg_cfg g' = mg_cfg g"
proof (induction n arbitrary: g w)
  case 0
  obtain c g1 w1 where s: "still_running pf m g w = (c, g1, w1)" by (metis prod_cases3)
  show ?case using 0 still_runningD(1) [OF s] by (cases c) (auto simp: kill_wait.simps [of 0] s)
next
  case (Suc n)
  obtain c g1 w1 where s: "still_running pf m g w = (c, g1, w1)" by (metis prod_cases3)
  show ?case using Suc.prems Suc.IH [of g1 w1] still_runningD(1) [OF s] by (cases c) (auto simp: kill_wait.simps [of "Suc n"] s)
qed

lemma finish_tunnel_cfg: "finish_tunnel pf m ctx g w = (r, g', w') \<Longrightarrow> mg_cfg g' = mg_cfg g"
  by (auto simp: finish_tunnel_def Let_def split: prod.splits dest: poll_cfg)

lemma stop_expired_cfg: "stop_expired pf m ctx e had g w = (r, g', w') \<Longrightarrow> mg_cfg g' = mg_cfg g"
  by (auto simp: stop_expired_def Let_def split: prod.splits sum.splits if_splits dest!: kill_wait_cfg finish_tunnel_cfg)

lemma stop_end_cfg:
  assumes "(if had then (case finish_tunnel pf m ctx g1 w1 of
      (Inl e, g2, w2) \<Rightarrow> (Inl (wrap_err t e), g2, w2) | (Inr _, g2, w2) \<Rightarrow> (Inr (), g2, w2)) else (Inr (), g1, w1)) = (r, g', w')"
  shows "mg_cfg g' = mg_cfg g1"
  using assms by (cases had) (auto split: prod.splits sum.splits dest: finish_tunnel_cfg)

lemma stop_loop_cfg: "stop_loop n pf m ctx cctx had g w = Some (r, g', w') \<Longrightarrow> mg_cfg g' = mg_cfg g"
proof (induction n arbitrary: g w)
  case 0
  obtain b g1 w1 where s: "still_running pf m g w = (b, g1, w1)" by (metis prod_cases3)
  note e = still_runningD(1) [OF s]
  show ?case
  proof (cases b)
    case True
    then obtain err where "stop_expired pf m cctx err had g1 w1 = (r, g', w')"
      using 0 by (auto simp: stop_loop.simps [of 0] s split: option.splits)
    then show ?thesis using e by (simp add: stop_expired_cfg)
  next
    case False
    then have s: "still_running pf m g w = (False, g1, w1)" using s by simp
    show ?thesis using 0 unfolding stop_loop.simps [of 0] s prod.case bool.case option.inject e [symmetric] by (rule stop_end_cfg)
  qed
next
  case (Suc n)
  obtain b g1 w1 where s: "still_running pf m g w = (b, g1, w1)" by (metis prod_cases3)
  note e = still_runningD(1) [OF s]
  show ?case
  proof (cases b)
    case True
    then consider err where "stop_expired pf m cctx err had g1 w1 = (r, g', w')" | "stop_loop n pf m ctx cctx had g1 w1 = Some (r, g', w')"
      using Suc.prems by (auto simp: stop_loop.simps [of "Suc n"] s split: option.splits)
    then show ?thesis using e by cases (simp_all add: stop_expired_cfg Suc.IH)
  next
    case False
    then have s: "still_running pf m g w = (False, g1, w1)" using s by simp
    show ?thesis using Suc.prems unfolding stop_loop.simps [of "Suc n"] s prod.case bool.case option.inject e [symmetric] by (rule stop_end_cfg)
  qed
qed

lemma stop_and_wait_cfg:
  assumes "stop_and_wait n pf m ctx cctx g w = Some (r, g', w')"
  shows "mg_cfg g' = mg_cfg g"
proof -
  obtain had g1 w1 where h: "had_tunnel_state pf m g w = (had, g1, w1)" by (metis prod_cases3)
  obtain e g2 w2 where s: "stop_manager pf m g1 w1 = (e, g2, w2)" by (metis prod_cases3)
  show ?thesis
    using assms had_tunnel_stateD(1) [OF h] stop_managerD(1) [OF s]
    by (auto simp: stop_and_wait_def h s split: option.splits dest: stop_loop_cfg)
qed

lemma start_proxy_cfg: "start_proxy pf m g w = (r, g', w') \<Longrightarrow> mg_cfg g' = mg_cfg g"
  by (auto simp: start_proxy_def Let_def split: prod.splits sum.splits dest!: pollD(2) elim!: start_locked_cases)

lemma download_cfg: "download_file m url path g w = (e, g', w') \<Longrightarrow> mg_cfg g' = mg_cfg g"
  by (auto simp: download_file_def Let_def split: prod.splits sum.splits if_splits option.splits)

lemma install_cfg: "install_verified pf arch m g w = (r, g', w') \<Longrightarrow> mg_cfg g' = mg_cfg g"
proof -
  have s: "store_verified m managed want digest found g w = (r, g', w') \<Longrightarrow> mg_cfg g' = mg_cfg g" for managed want digest found g w r g' w'
    by (auto simp: store_verified_def Let_def split: prod.splits sum.splits)
  have u: "install_unpacked pf m tmp archive managed want digest g w = (r, g', w') \<Longrightarrow> mg_cfg g' = mg_cfg g" for tmp archive managed want digest g w r g' w'
    by (auto simp: install_unpacked_def Let_def split: prod.splits sum.splits option.splits dest: s)
  have i: "install_release pf m managed want g w = (r, g', w') \<Longrightarrow> mg_cfg g' = mg_cfg g" for managed want g w r g' w'
    by (auto simp: install_release_def Let_def split: prod.splits sum.splits option.splits if_splits dest!: download_cfg u)
  have c: "reuse_managed m managed want g w = (b, g', w') \<Longrightarrow> mg_cfg g' = mg_cfg g" for managed want g w b g' w'
    by (auto simp: reuse_managed_def Let_def split: prod.splits if_splits bool.splits)
  show "install_verified pf arch m g w = (r, g', w') \<Longrightarrow> mg_cfg g' = mg_cfg g"
    by (auto simp: install_verified_def Let_def split: prod.splits if_splits bool.splits sum.splits dest!: i c)
qed

section \<open>What stays\<close>

text \<open>\<open>keeps\<close>: settings, token, places and the configuration of the manager are the same; \<open>steady\<close>: the
  preference for the automatic start may have changed.\<close>

definition keeps :: "server \<Rightarrow> server \<Rightarrow> bool" where
  "keeps s s' \<longleftrightarrow> sv_settings s' = sv_settings s \<and> mg_cfg (sv_pm s') = mg_cfg (sv_pm s) \<and> sv_csrf s' = sv_csrf s \<and>
     sv_root s' = sv_root s \<and> sv_path s' = sv_path s"

definition steady :: "server \<Rightarrow> server \<Rightarrow> bool" where
  "steady s s' \<longleftrightarrow> (\<exists>b. sv_settings s' = (sv_settings s)\<lparr>st_auto_start := b\<rparr>) \<and> mg_cfg (sv_pm s') = mg_cfg (sv_pm s) \<and>
     sv_csrf s' = sv_csrf s \<and> sv_root s' = sv_root s \<and> sv_path s' = sv_path s"

lemma keeps_refl [simp]: "keeps s s"
  by (simp add: keeps_def)

lemma keeps_trans [trans]: "keeps s s1 \<Longrightarrow> keeps s1 s2 \<Longrightarrow> keeps s s2"
  by (simp add: keeps_def)

lemma keeps_steady: "keeps s s' \<Longrightarrow> steady s s'"
  unfolding keeps_def steady_def by (intro conjI exI [of _ "st_auto_start (sv_settings s)"]) simp_all

lemma steady_trans [trans]: "steady s s1 \<Longrightarrow> steady s1 s2 \<Longrightarrow> steady s s2"
  by (auto simp: steady_def)

lemma steady_keeps [trans]: "steady s s1 \<Longrightarrow> keeps s1 s2 \<Longrightarrow> steady s s2"
  by (auto simp: steady_def keeps_def)

lemma keeps_then_steady [trans]: "keeps s s1 \<Longrightarrow> steady s1 s2 \<Longrightarrow> steady s s2"
  by (auto simp: steady_def keeps_def)

lemma calm_keeps: "server_calm s w s' w' \<Longrightarrow> keeps s s'"
  by (simp add: server_calm_def calm_def keeps_def)

lemma keeps_simps [simp]:
  "keeps s (publish l t s1) = keeps s s1" "keeps s (invalidate_evidence t s1) = keeps s s1"
  "keeps s (s1\<lparr>sv_pm := mark_ready (sv_pm s1)\<rparr>) = keeps s s1"
  "steady s (publish l t s1) = steady s s1" "steady s (invalidate_evidence t s1) = steady s s1"
  by (auto simp: keeps_def steady_def publish_def invalidate_evidence_def mark_ready_def Let_def)

lemma keeps_left [simp]: "keeps (publish l t s) s' = keeps s s'" "keeps (invalidate_evidence t s) s' = keeps s s'"
  by (auto simp: keeps_def publish_def invalidate_evidence_def Let_def)

lemma keeps_pm: "mg_cfg g = mg_cfg (sv_pm s) \<Longrightarrow> keeps s (s\<lparr>sv_pm := g\<rparr>)"
  by (simp add: keeps_def)

lemma on_pm_keeps: "on_pm f s w = (r, s', w') \<Longrightarrow> (\<And>r g w1. f (sv_pm s) w = (r, g, w1) \<Longrightarrow> mg_cfg g = mg_cfg (sv_pm s)) \<Longrightarrow> keeps s s'"
  by (auto simp: on_pm_def split: prod.splits intro: keeps_pm)

lemma rollback_keeps: "rollback_proxy_start n pf m cx e s w = Some (r, s', w') \<Longrightarrow> keeps s s'"
  by (auto simp: rollback_proxy_start_def split: option.splits prod.splits dest!: stop_and_wait_cfg intro: keeps_pm)

lemma prove_proxy_keeps: "prove_proxy pf m s w = (s', w') \<Longrightarrow> keeps s s'"
  using calm_keeps [OF on_pm_calm [OF _ managed_listener_calm]]
  by (auto simp: prove_proxy_def Let_def split: prod.splits if_splits)

lemma running_keeps: "on_pm (managed_running m) s w = (b, s', w') \<Longrightarrow> keeps s s'"
  by (rule calm_keeps [OF on_pm_calm [OF _ polls_calm(2)]])

lemma wait_proxy_keeps: "wait_proxy k n pf m cx deadline s w = Some (r, s', w') \<Longrightarrow> keeps s s'"
proof (induction k arbitrary: s w)
  case 0
  obtain b s1 w1 where b: "on_pm (managed_running m) s w = (b, s1, w1)" by (metis prod_cases3)
  obtain c w2 where c: "listener_reachable m (sv_pm s1) w1 = (c, w2)" by fastforce
  have "s' = s1 \<or> keeps s1 s'" using 0 unfolding wait_proxy.simps [of 0] b prod.case
    by (cases b; cases c) (auto simp: c Let_def split: prod.splits option.splits if_splits dest!: prove_proxy_keeps rollback_keeps)
  then show ?case using running_keeps [OF b] keeps_trans by blast
next
  case (Suc k)
  obtain b s1 w1 where b: "on_pm (managed_running m) s w = (b, s1, w1)" by (metis prod_cases3)
  obtain c w2 where c: "listener_reachable m (sv_pm s1) w1 = (c, w2)" by fastforce
  have "s' = s1 \<or> keeps s1 s'" using Suc.prems unfolding wait_proxy.simps [of "Suc k"] b prod.case
    by (cases b; cases c) (auto simp: c Let_def split: prod.splits option.splits if_splits dest!: prove_proxy_keeps rollback_keeps Suc.IH)
  then show ?case using running_keeps [OF b] keeps_trans by blast
qed

lemma install_keeps: "on_pm (install_verified pf arch m) s w = (r, s', w') \<Longrightarrow> keeps s s'"
  by (rule on_pm_keeps [OF _ install_cfg])

lemma start_and_wait_keeps:
  assumes "start_and_wait n pf arch m cx s w = Some (r, s', w')"
  shows "keeps s s'"
proof -
  obtain e s1 w1 where e: "on_pm (install_verified pf arch m) s w = (e, s1, w1)" by (metis prod_cases3)
  obtain d s2 w2 where d: "on_pm (start_proxy pf m) s1 w1 = (d, s2, w2)" by (metis prod_cases3)
  have "s' = s1 \<or> s' = s2 \<or> keeps s2 s'"
    using assms by (cases e; cases d) (auto simp: start_and_wait_def ensure_sing_box_def e d Let_def split: prod.splits dest: wait_proxy_keeps)
  moreover have "keeps s1 s2" by (rule on_pm_keeps [OF d start_proxy_cfg])
  ultimately show ?thesis using install_keeps [OF e] keeps_trans by blast
qed

lemma start_safe_keeps:
  assumes "start_safe_proxy n pf arch m cx s w = Some (r, s', w')"
  shows "keeps s s'"
proof -
  obtain h s1 w1 where h: "on_pm (health_snapshot pf m) s w = (h, s1, w1)" by (metis prod_cases3)
  obtain md s2 w2 where md: "on_pm (mode_now m) s1 w1 = (md, s2, w2)" by (metis prod_cases3)
  obtain b s3 w3 where b: "on_pm (managed_running m) s2 w2 = (b, s3, w3)" by (metis prod_cases3)
  have k: "keeps s s2"
    using calm_keeps [OF on_pm_calm [OF h health_calm]] calm_keeps [OF on_pm_calm [OF md polls_calm(1)]] by (rule keeps_trans)
  have "s' = s2 \<or> keeps s3 s'"
  proof (cases "md = Mode_proxy \<and> he_state h = Healthy")
    case False
    show ?thesis
    proof (cases b)
      case True
      then show ?thesis using assms False unfolding start_safe_proxy_def h md prod.case Let_def b
        by (auto split: option.splits prod.splits sum.splits dest!: stop_and_wait_cfg start_and_wait_keeps keeps_pm intro: keeps_trans)
    qed (use assms False in \<open>auto simp: start_safe_proxy_def h md b dest: start_and_wait_keeps\<close>)
  qed (use assms in \<open>auto simp: start_safe_proxy_def h md\<close>)
  then show ?thesis using k running_keeps [OF b] keeps_trans by blast
qed

section \<open>Reachable states\<close>

inductive server_reach :: "platform \<Rightarrow> 'k machine \<Rightarrow> server \<Rightarrow> 'k world \<Rightarrow> bool" for pf m where
  created: "new_server pf m w0 = (Inr s, w) \<Longrightarrow> server_reach pf m s w"
| requested: "server_reach pf m s w \<Longrightarrow> handle_request n pf arch m cx q s w = Some (x, s', w') \<Longrightarrow> server_reach pf m s' w'"
| auto_started: "server_reach pf m s w \<Longrightarrow> auto_start auto_delays n pf arch m cx s w = Some (s', w') \<Longrightarrow> server_reach pf m s' w'"
| closed: "server_reach pf m s w \<Longrightarrow> close_server n pf m cx s w = Some (r, s', w') \<Longrightarrow> server_reach pf m s' w'"
| elapsed: "server_reach pf m s w \<Longrightarrow> server_reach pf m s w'"

definition safe_config :: "config \<Rightarrow> bool" where
  "safe_config c \<longleftrightarrow> is_loopback_host (cf_host c) \<and> 0 < cf_port c \<and> cf_port c \<le> 65535"

definition server_ok :: "platform \<Rightarrow> server \<Rightarrow> bool" where
  "server_ok pf s \<longleftrightarrow> validate_settings (sv_settings s) = None \<and> (pf = Linux \<longrightarrow> st_strict (sv_settings s)) \<and> safe_config (mg_cfg (sv_pm s))"

lemma validate_auto [simp]: "validate_settings (st\<lparr>st_auto_start := b\<rparr>) = validate_settings st"
  by (simp add: validate_settings_def)

lemma steady_ok: "steady s s' \<Longrightarrow> server_ok pf s \<Longrightarrow> server_ok pf s'"
  by (auto simp: steady_def server_ok_def)

lemma auto_start_steady: "auto_start ds n pf arch m cx s w = Some (s', w') \<Longrightarrow> keeps s s'"
proof (induction ds n pf arch m cx s w arbitrary: s' w' rule: auto_start.induct)
  case (2 i delay rest n pf arch m cx s w)
  show ?case
  proof (cases "start_safe_proxy n pf arch m cx s w")
    case (Some y)
    obtain r s1 w1 where y: "y = (r, s1, w1)" by (cases y)
    note k = start_safe_keeps [OF Some [unfolded y]]
    show ?thesis
    proof (cases "delay \<and> cx_request cx (w_tick w) \<noteq> None")
      case False
      show ?thesis
      proof (cases r)
        case None
        then show ?thesis using 2(2) False k by (auto simp: Some y)
      next
        case (Some e)
        then have "keeps s1 s'" using 2 False \<open>start_safe_proxy n pf arch m cx s w = Some y\<close> y by fastforce
        with k show ?thesis by (rule keeps_trans)
      qed
    qed (use 2(2) in simp)
  qed (use 2(2) in \<open>auto split: if_splits\<close>)
qed simp

lemma set_auto_steady: "set_auto_start m b s w = (s', w') \<Longrightarrow> steady s s'"
  by (auto simp: set_auto_start_def Let_def steady_def publish_def split: prod.splits sum.splits)

lemma started_reply_keeps: "started_reply pf m extra s w = (x, s', w') \<Longrightarrow> keeps s s'"
  using calm_keeps [OF on_pm_calm [OF _ health_calm]] by (auto simp: started_reply_def split: prod.splits)

lemma with_started_steady:
  assumes "with_started n pf arch m cx nxt s w = Some (x, s', w')" "\<And>s w x s' w'. nxt s w = (x, s', w') \<Longrightarrow> keeps s s'"
  shows "steady s s'"
  using assms(1) by (auto simp: with_started_def split: option.splits prod.splits dest!: assms(2) set_auto_steady start_safe_keeps
      intro: keeps_steady keeps_then_steady steady_keeps)

lemma pin_and_launch_keeps: "pin_and_launch pf m msg extra s w = (x, s', w') \<Longrightarrow> keeps s s'"
  by (auto simp: pin_and_launch_def Let_def split: prod.splits option.splits dest!: started_reply_keeps)

lemma stop_with_steady: "stop_with reason msg n pf m cx s w = Some (x, s', w') \<Longrightarrow> steady s s'"
  by (auto simp: stop_with_def split: option.splits prod.splits sum.splits dest!: stop_and_wait_cfg keeps_pm set_auto_steady
      intro: keeps_steady keeps_then_steady)

lemma fold_publish_keeps: "keeps s (fold (\<lambda>x. publish (f x) (h x)) xs s1) = keeps s s1"
  by (induction xs arbitrary: s1) simp_all

section \<open>The configuration transaction\<close>

definition in_sync :: "settings \<Rightarrow> config \<Rightarrow> bool" where
  "in_sync st c \<longleftrightarrow> cf_host c = st_host st \<and> cf_port c = st_port st \<and> cf_vpn c = st_vpn st \<and> cf_dns c = st_dns st \<and> cf_version c = st_version st"

definition supported :: "settings \<Rightarrow> bool" where
  "supported st \<longleftrightarrow> st_dns st \<in> {''cloudflare'', ''google''} \<and> trim_space (st_version st) \<noteq> []"

lemma check_configD: "check_config old cur = None \<Longrightarrow> validate_settings cur = None \<and> supported cur \<and> st_listen cur = st_listen old"
  by (auto simp: check_config_def supported_def split: option.splits if_splits)

lemma valid_parts: "validate_settings st = None \<Longrightarrow> is_loopback_listen (st_listen st) \<and> is_loopback_host (st_host st) \<and> 0 < st_port st \<and> st_port st \<le> 65535"
  by (auto simp: validate_settings_def split: if_splits)

lemma update_pmD:
  assumes "update_pm m st s w = (e, s', w')"
  shows "s' = s\<lparr>sv_pm := sv_pm s'\<rparr>" "e \<noteq> None \<Longrightarrow> mg_cfg (sv_pm s') = mg_cfg (sv_pm s)"
    "e = None \<Longrightarrow> mg_cmd (sv_pm s') = None \<and> in_sync st (mg_cfg (sv_pm s')) \<and> cf_root (mg_cfg (sv_pm s')) = cf_root (mg_cfg (sv_pm s))"
proof -
  obtain g where g: "update_stopped_config m (st_host st) (st_port st) (st_vpn st) (st_dns st) (st_version st) (sv_pm s) w = (e, g, w')" "s' = s\<lparr>sv_pm := g\<rparr>"
    using assms by (auto simp: update_pm_def on_pm_def split: prod.splits)
  note c = config_update_exact [OF g(1)]
  show "s' = s\<lparr>sv_pm := sv_pm s'\<rparr>" "e \<noteq> None \<Longrightarrow> mg_cfg (sv_pm s') = mg_cfg (sv_pm s)" using g(2) c by simp_all
  show "e = None \<Longrightarrow> mg_cmd (sv_pm s') = None \<and> in_sync st (mg_cfg (sv_pm s')) \<and> cf_root (mg_cfg (sv_pm s')) = cf_root (mg_cfg (sv_pm s))"
    using g(2) c by (simp add: in_sync_def)
qed

text \<open>The outcomes of a transaction.\<close>

lemma handle_config_cases:
  assumes "handle_config pf m body s w = (x, s', w')"
  obtains (refused) code msg where "x = Refused code msg" "keeps s s'"
  | (committed) p cur s1 w1 where "decode_patch body = Inr p" "cur = strict_on_linux pf (apply_patch p (sv_settings s))"
      "check_config (sv_settings s) cur = None" "(if data_plane_changed (sv_settings s) cur then update_pm m cur s w else (None, s, w)) = (None, s1, w1)"
      "save_settings m (sv_path s) cur w1 = (Inr (), w')" "keeps (s1\<lparr>sv_settings := cur\<rparr>) s'" "mg_cmd (sv_pm s') = mg_cmd (sv_pm s1)"
      "x = Replied (json_map [(''ok'', JBool True), (''settings'', enc_settings cur)])"
  | (undone) p cur s1 w1 e w2 r where "decode_patch body = Inr p" "cur = strict_on_linux pf (apply_patch p (sv_settings s))"
      "check_config (sv_settings s) cur = None" "data_plane_changed (sv_settings s) cur" "update_pm m cur s w = (None, s1, w1)"
      "save_settings m (sv_path s) cur w1 = (Inl e, w2)" "update_pm m (sv_settings s) s1 w2 = (r, s', w')"
      "x = Refused 500 (''persist configuration: '' @ err_text e)"
proof (cases "decode_patch body")
  case (Inl e)
  then show ?thesis using assms by (intro refused) (auto simp: handle_config_def)
next
  case (Inr p)
  let ?old = "sv_settings s" and ?cur = "strict_on_linux pf (apply_patch p (sv_settings s))"
  show ?thesis
  proof (cases "check_config ?old ?cur")
    case (Some y)
    then show ?thesis using assms Inr by (cases y, intro refused) (auto simp: handle_config_def)
  next
    case check: None
    obtain r s1 w1 where u: "(if data_plane_changed ?old ?cur then update_pm m ?cur s w else (None, s, w)) = (r, s1, w1)" by (metis prod_cases3)
    have s1: "s1 = s\<lparr>sv_pm := sv_pm s1\<rparr>" using u update_pmD(1) by (auto split: if_splits)
    have path: "sv_path s1 = sv_path s" by (subst s1) simp
    show ?thesis
    proof (cases r)
      case (Some e)
      then have "data_plane_changed ?old ?cur" "update_pm m ?cur s w = (Some e, s1, w1)" using u by (auto split: if_splits)
      then have "keeps s s1" using s1 update_pmD(2) by (metis keeps_pm option.distinct(1))
      then show ?thesis using assms Inr check u Some by (intro refused) (auto simp: handle_config_def Let_def)
    next
      case none: None
      have c: "commit_config m ?old ?cur s1 w1 = (x, s', w')" using assms Inr check u none by (simp add: handle_config_def Let_def)
      obtain v w2 where v: "save_settings m (sv_path s) ?cur w1 = (v, w2)" by fastforce
      show ?thesis
      proof (cases v)
        case v': (Inr y)
        let ?s2 = "if data_plane_changed ?old ?cur then invalidate_evidence ''data-plane configuration changed'' (s1\<lparr>sv_settings := ?cur\<rparr>) else s1\<lparr>sv_settings := ?cur\<rparr>"
        have r: "x = Replied (json_map [(''ok'', JBool True), (''settings'', enc_settings ?cur)])" "w' = w2"
            "s' = publish ''info'' ''configuration transaction committed'' ?s2"
        proof -
          have "commit_config m ?old ?cur s1 w1 = (Replied (json_map [(''ok'', JBool True), (''settings'', enc_settings ?cur)]),
              publish ''info'' ''configuration transaction committed'' ?s2, w2)"
            by (simp only: commit_config_def Let_def path v v' prod.case sum.case)
          note e = trans [OF c [symmetric] this]
          show "x = Replied (json_map [(''ok'', JBool True), (''settings'', enc_settings ?cur)])" "w' = w2"
            "s' = publish ''info'' ''configuration transaction committed'' ?s2"
            using e by (blast+)
        qed
        have "keeps (s1\<lparr>sv_settings := ?cur\<rparr>) s'" unfolding r(3) by (simp split: if_split)
        moreover have "mg_cmd (sv_pm s') = mg_cmd (sv_pm s1)" unfolding r(3) by (simp add: publish_def invalidate_evidence_def Let_def)
        ultimately show ?thesis using v v' r(1,2) by (intro committed [OF \<open>decode_patch body = Inr p\<close> refl check u [unfolded none]]) simp_all
      next
        case (Inl e)
        show ?thesis
        proof (cases "data_plane_changed ?old ?cur")
          case True
          obtain q s2 w3 where q: "update_pm m ?old s1 w2 = (q, s2, w3)" by (metis prod_cases3)
          have "commit_config m ?old ?cur s1 w1 = (Refused 500 (''persist configuration: '' @ err_text e), s2, w3)"
            using True by (simp only: commit_config_def Let_def path v Inl q prod.case sum.case if_True)
          note e = trans [OF c [symmetric] this]
          have r: "x = Refused 500 (''persist configuration: '' @ err_text e)" "s' = s2" "w' = w3" using e by blast+
          show ?thesis using True u none v Inl q
            by (intro undone [OF \<open>decode_patch body = Inr p\<close> refl check True _ _ _ r(1)]) (simp_all add: r(2,3))
        next
          case False
          have "commit_config m ?old ?cur s1 w1 = (Refused 500 (''persist configuration: '' @ err_text e), s1, w2)"
            using False by (simp only: commit_config_def Let_def path v Inl prod.case sum.case if_False)
          note e = trans [OF c [symmetric] this]
          have "x = Refused 500 (''persist configuration: '' @ err_text e)" "s' = s1" using e by blast+
          moreover have "s1 = s" using False u none by simp
          ultimately show ?thesis by (intro refused) simp_all
        qed
      qed
    qed
  qed
qed

text \<open>What the manager accepts of settings while it is stopped.\<close>

definition updatable :: "settings \<Rightarrow> bool" where
  "updatable st \<longleftrightarrow> trim_space (st_host st) \<noteq> [] \<and> (case parse_ip (trim_set ''[]'' (st_host st)) of Some a \<Rightarrow> ip_loopback a | None \<Rightarrow> True) \<and>
     0 < st_port st \<and> st_port st \<le> 65535 \<and> supported st"

lemma update_pm_updatable: "update_pm m st s w = (None, s', w') \<Longrightarrow> updatable st"
  by (auto simp: update_pm_def on_pm_def updatable_def supported_def split: prod.splits option.splits dest!: config_update_exact)

lemma update_pm_succeeds:
  assumes "mg_cmd (sv_pm s) = None" "updatable st" "update_pm m st s w = (e, s', w')"
  shows "e = None"
proof -
  obtain g1 w1 where p: "poll m (sv_pm s) w = (g1, w1)" by fastforce
  have n: "mg_cmd g1 = None" using poll_gone [OF p] assms(1) by blast
  have "\<not> (case parse_ip (trim_set ''[]'' (st_host st)) of Some a \<Rightarrow> \<not> ip_loopback a | None \<Rightarrow> False)"
    using assms(2) by (auto simp: updatable_def split: option.splits)
  then show ?thesis
    using assms(2,3) n unfolding update_pm_def on_pm_def update_stopped_config_def p Let_def prod.case
    by (auto simp: updatable_def supported_def)
qed

lemma same_data_plane: "\<not> data_plane_changed old cur \<Longrightarrow> (in_sync cur c \<longleftrightarrow> in_sync old c) \<and> (updatable cur \<longleftrightarrow> updatable old)"
  by (auto simp: data_plane_changed_def in_sync_def updatable_def supported_def)

lemma in_sync_unique: "in_sync st c \<Longrightarrow> in_sync st d \<Longrightarrow> cf_root c = cf_root d \<Longrightarrow> c = d"
  by (simp add: in_sync_def)

lemma action_steady:
  assumes "handle_action r body n pf arch m cx s w = Some (x, s', w')" "r \<noteq> R_config"
  shows "steady s s'"
proof -
  have i: "handle_install pf arch m s w = (x, s', w') \<Longrightarrow> keeps s s'"
    by (auto simp: handle_install_def split: prod.splits sum.splits dest!: install_keeps on_pm_calm [OF _ version_calm, THEN calm_keeps]
        intro: keeps_trans)
  have t: "handle_test m s w = (x, s', w') \<Longrightarrow> keeps s s'"
    by (auto simp: handle_test_def fold_publish_keeps [of s "\<lambda>x. if te_ok x then ''info'' else ''error''" test_text] split: prod.splits)
  have e: "handle_endpoint pf m s w = (x, s', w') \<Longrightarrow> keeps s s'"
    by (auto simp: handle_endpoint_def split: prod.splits option.splits)
  have l: "handle_launch pf m s w = (x, s', w') \<Longrightarrow> keeps s s'"
    by (auto simp: handle_launch_def split: prod.splits option.splits if_splits dest!: on_pm_calm [OF _ health_calm, THEN calm_keeps])
  have h: "handle_hosts_enable pf m s w = (x, s', w') \<Longrightarrow> keeps s s'"
    by (auto simp: handle_hosts_enable_def split: prod.splits sum.splits list.splits)
  have d: "handle_hosts_disable pf m s w = (x, s', w') \<Longrightarrow> keeps s s'"
    by (auto simp: handle_hosts_disable_def split: prod.splits sum.splits)
  show ?thesis using assms
    by (cases r) (auto simp: handle_start_def handle_stop_def handle_tunnel_start_def handle_tunnel_stop_def handle_safe_mode_def handle_tunnel_launch_def
        intro: keeps_steady stop_with_steady
        dest: i t e l h d with_started_steady [OF _ started_reply_keeps] with_started_steady [OF _ pin_and_launch_keeps])
qed

section \<open>Properties\<close>


lemma config_ok:
  assumes "handle_config pf m body s w = (x, s', w')" "server_ok pf s"
  shows "server_ok pf s' \<and> st_listen (sv_settings s') = st_listen (sv_settings s) \<and> sv_csrf s' = sv_csrf s \<and> sv_path s' = sv_path s"
  using assms(1)
proof (cases rule: handle_config_cases)
  case refused
  then show ?thesis using assms(2) by (auto simp: keeps_def server_ok_def)
next
  case (committed p cur s1 w1)
  note d = check_configD [OF committed(3)]
  have k: "sv_settings s' = cur" "mg_cfg (sv_pm s') = mg_cfg (sv_pm s1)" "sv_csrf s' = sv_csrf s1" "sv_path s' = sv_path s1"
    using committed(6) by (simp_all add: keeps_def)
  have "safe_config (mg_cfg (sv_pm s1)) \<and> sv_csrf s1 = sv_csrf s \<and> sv_path s1 = sv_path s"
  proof (cases "data_plane_changed (sv_settings s) cur")
    case True
    then have u: "update_pm m cur s w = (None, s1, w1)" using committed(4) by simp
    have "sv_csrf s1 = sv_csrf s \<and> sv_path s1 = sv_path s" by (subst (1 2) update_pmD(1) [OF u]) simp
    then show ?thesis using update_pmD(3) [OF u] valid_parts d by (auto simp: in_sync_def safe_config_def)
  next
    case False
    then show ?thesis using committed(4) assms(2) by (auto simp: server_ok_def)
  qed
  moreover have "pf = Linux \<longrightarrow> st_strict cur" using committed(2) by (simp add: strict_on_linux_def)
  ultimately show ?thesis using k d by (simp add: server_ok_def)
next
  case (undone p cur s1 w1 e w2 r)
  note u = update_pmD [OF undone(5)] and v = update_pmD [OF undone(7)]
  have c: "safe_config (mg_cfg (sv_pm s1))" using u(3) valid_parts check_configD [OF undone(3)] by (auto simp: in_sync_def safe_config_def)
  have eqs: "sv_settings s1 = sv_settings s" "sv_csrf s1 = sv_csrf s" "sv_path s1 = sv_path s" by (subst u(1); simp)+
  have eqs2: "sv_settings s' = sv_settings s1" "sv_csrf s' = sv_csrf s1" "sv_path s' = sv_path s1" by (subst v(1); simp)+
  have "safe_config (mg_cfg (sv_pm s'))"
  proof (cases r)
    case None
    then show ?thesis using v(3) valid_parts assms(2) by (auto simp: in_sync_def safe_config_def server_ok_def)
  next
    case (Some e2)
    then show ?thesis using v(2) c by simp
  qed
  then show ?thesis using assms(2) eqs eqs2 by (simp add: server_ok_def)
qed

lemma new_server_ok:
  assumes "new_server pf m w = (Inr s, w')"
  shows "server_ok pf s"
proof -
  have f: "server_ok pf s" if f: "finish_new pf m root w1 = (Inr s, w2)" for root w1 w2
  proof -
    obtain st0 v1 where 1: "load_settings m (path_join root ''config.json'') w1 = (st0, v1)" by fastforce
    let ?st1 = "strict_on_linux pf st0"
    obtain ifs v2 where 2: "list_interfaces m v1 = (ifs, v2)" by fastforce
    obtain bs v3 where 3: "random_bytes m 24 v2 = (bs, v3)" by fastforce
    let ?st = "choose_vpn (case ifs of Inr xs \<Rightarrow> xs | Inl _ \<Rightarrow> []) ?st1"
    have c: "validate_settings (choose_vpn xs st) = validate_settings st" "st_strict (choose_vpn xs st) = st_strict st"
        "st_host (choose_vpn xs st) = st_host st" "st_port (choose_vpn xs st) = st_port st" for xs st
      by (auto simp: choose_vpn_def validate_settings_def split: option.split)
    have v: "validate_settings ?st1 = None" and s: "sv_settings s = ?st" "sv_pm s = new_manager (config_of root ?st)"
      using f unfolding finish_new_def Let_def 1 2 3 prod.case by (auto split: option.splits prod.splits sum.splits)
    note p = valid_parts [OF v]
    have "\<not> is_loopback_host []" by code_simp
    then have "st_host ?st1 \<noteq> []" using p by auto
    then have "safe_config (mg_cfg (sv_pm s))"
      using p by (simp add: s(2) new_manager_def config_of_def safe_config_def c)
    moreover have "pf = Linux \<longrightarrow> st_strict ?st1" by (simp add: strict_on_linux_def)
    ultimately show ?thesis using v by (simp add: server_ok_def s(1) c)
  qed
  obtain base where b: "m_config_dir m = Inr base" using assms by (cases "m_config_dir m") (auto simp: new_server_def)
  obtain r w1 where r: "mkdir_all m (path_join base ''AntigravitiProxi'') w = (r, w1)" by fastforce
  have r': "r = Inr ()" using assms by (cases r) (auto simp: new_server_def b r)
  obtain t w2 where t: "now m w1 = (t, w2)" by fastforce
  obtain x w3 where x: "expire_hosts_override pf m (path_join (path_join base ''AntigravitiProxi'') ''backups'') (t_nanos t) w2 = (x, w3)" by fastforce
  have "finish_new pf m (path_join base ''AntigravitiProxi'') w3 = (Inr s, w')"
    using assms unfolding new_server_def b sum.case Let_def r r' prod.case t x by (cases x) (auto split: if_splits)
  then show ?thesis by (rule f)
qed

lemma request_ok:
  assumes "handle_request n pf arch m cx q s w = Some (x, s', w')" "server_ok pf s"
  shows "server_ok pf s' \<and> st_listen (sv_settings s') = st_listen (sv_settings s) \<and> sv_csrf s' = sv_csrf s \<and> sv_path s' = sv_path s"
proof -
  have st: "steady s s' \<Longrightarrow> ?thesis" using assms(2) steady_ok by (auto simp: steady_def)
  let ?r = "route_of (rq_method q) (rq_path q)"
  consider "s' = s" | "handle_report ?r pf arch m cx s w = (x, s', w')" | "handle_action ?r (rq_body q) n pf arch m cx s w = Some (x, s', w')"
    using assms(1) by (auto simp: handle_request_def Let_def split: if_splits)
  then show ?thesis
  proof cases
    case 1
    then show ?thesis using assms(2) by simp
  next
    case 2
    then show ?thesis by (intro st keeps_steady calm_keeps [OF report_calm])
  next
    case 3
    show ?thesis
    proof (cases "?r = R_config")
      case True
      then show ?thesis using 3 config_ok [OF _ assms(2)] by simp
    next
      case False
      then show ?thesis using action_steady [OF 3] st by simp
    qed
  qed
qed

text \<open>C10: the control plane stays local.  In every state that any sequence of requests, automatic starts and
  stops reaches from the creation, whatever happens to the machine meanwhile, the settings pass the security
  validation, strict capture is on under Linux, both the control plane and the proxy of the manager have
  loopback addresses and the port is a port.\<close>

theorem server_always_safe:
  assumes "server_reach pf m s w"
  shows "validate_settings (sv_settings s) = None \<and> (pf = Linux \<longrightarrow> st_strict (sv_settings s)) \<and>
    is_loopback_listen (st_listen (sv_settings s)) \<and> is_loopback_host (cf_host (mg_cfg (sv_pm s))) \<and>
    0 < cf_port (mg_cfg (sv_pm s)) \<and> cf_port (mg_cfg (sv_pm s)) \<le> 65535"
proof -
  have "server_ok pf s" using assms
  proof induction
    case (closed s w n cx r s' w')
    have "keeps s s'" using closed(2) by (auto simp: close_server_def split: option.splits prod.splits dest!: stop_and_wait_cfg intro: keeps_pm)
    with closed(3) show ?case by (metis steady_ok keeps_steady)
  qed (auto dest: new_server_ok request_ok auto_start_steady intro: steady_ok keeps_steady)
  then show ?thesis using valid_parts by (auto simp: server_ok_def safe_config_def)
qed

lemma validate_strict [simp]: "validate_settings (st\<lparr>st_strict := b\<rparr>) = validate_settings st"
  by (simp add: validate_settings_def)

lemma load_settings_valid: "load_settings m path w = (st, w') \<Longrightarrow> validate_settings st = None"
  by (auto simp: load_settings_def default_valid fail_closed_valid split: prod.splits sum.splits)

lemma load_settings_files: "load_settings m path w = (st, w') \<Longrightarrow> w_files w' = w_files w"
  by (auto simp: load_settings_def split: prod.splits sum.splits dest!: file_callD(1))


text \<open>Of settings that the manager does not accept, a refused change is left in the manager: with a provider
  in the file that loading does not validate, and a file that cannot be written, the reply is an error, the
  settings are the old ones and the manager has the new provider.\<close>

definition odd_settings :: settings where
  "odd_settings = default_settings\<lparr>st_dns := ''quad9''\<rparr>"

definition full_disk :: "unit machine" where
  "full_disk = quiet_machine\<lparr>m_fault := \<lambda>_. Some (Fault False ''disk full'' 0)\<rparr>"

lemma config_rollback_lost:
  assumes "decode_patch body = Inr (empty_patch\<lparr>sp_dns := Some ''google''\<rparr>)" "sv_settings s = odd_settings"
    "sv_pm s = new_manager (config_of root odd_settings)"
  shows "\<exists>msg s' w'. handle_config Linux full_disk body s w = (Refused 500 msg, s', w') \<and> sv_settings s' = odd_settings \<and> cf_dns (mg_cfg (sv_pm s')) = ''google''"
proof -
  let ?cur = "odd_settings\<lparr>st_dns := ''google'', st_strict := True\<rparr>" and ?g = "new_manager (config_of root odd_settings)"
  have cur: "strict_on_linux Linux (apply_patch (empty_patch\<lparr>sp_dns := Some ''google''\<rparr>) odd_settings) = ?cur" by code_simp
  have chk: "check_config odd_settings ?cur = None" "data_plane_changed odd_settings ?cur" "validate_settings ?cur = None" by code_simp+
  have none: "poll full_disk g w = (g, w)" if "mg_cmd g = None" "mg_hard g = None" for g w
    using that by (simp add: poll_def poll_cmd_def poll_hard_def)
  have g: "mg_cmd ?g = None" "mg_hard ?g = None" by (simp_all add: new_manager_def)
  have host: "trim_space (st_host ?cur) \<noteq> []" "\<not> (case parse_ip (trim_set ''[]'' (st_host ?cur)) of Some a \<Rightarrow> \<not> ip_loopback a | None \<Rightarrow> False)"
      "\<not> (st_port ?cur \<le> 0 \<or> st_port ?cur > 65535)" "trim_space (st_version ?cur) \<noteq> []" by code_simp+
  obtain c where u: "update_stopped_config full_disk (st_host ?cur) (st_port ?cur) (st_vpn ?cur) (st_dns ?cur) (st_version ?cur) ?g w = (None, ?g\<lparr>mg_cfg := c\<rparr>, w)"
      "cf_dns c = ''google''"
    using host unfolding update_stopped_config_def none [OF g] Let_def prod.case by (simp add: g)
  have u1: "update_pm full_disk ?cur s w = (None, s\<lparr>sv_pm := ?g\<lparr>mg_cfg := c\<rparr>\<rparr>, w)"
    unfolding update_pm_def on_pm_def assms(3) u Let_def by simp
  have sv: "\<exists>e w1. save_settings full_disk (sv_path s) ?cur w = (Inl e, w1)"
    unfolding save_settings_def chk(3) option.case
    by (simp add: atomic_write_def mkdir_all_def fault_now_def full_disk_def Let_def)
  then obtain e w1 where sv: "save_settings full_disk (sv_path s) ?cur w = (Inl e, w1)" by blast
  have host': "trim_space (st_host odd_settings) \<noteq> []" "\<not> (case parse_ip (trim_set ''[]'' (st_host odd_settings)) of Some a \<Rightarrow> \<not> ip_loopback a | None \<Rightarrow> False)"
      "\<not> (st_port odd_settings \<le> 0 \<or> st_port odd_settings > 65535)" "st_dns odd_settings \<noteq> ''cloudflare''" "st_dns odd_settings \<noteq> ''google''" by code_simp+
  have g': "mg_cmd (?g\<lparr>mg_cfg := c\<rparr>) = None" "mg_hard (?g\<lparr>mg_cfg := c\<rparr>) = None" using g by simp_all
  obtain e2 where v: "update_stopped_config full_disk (st_host odd_settings) (st_port odd_settings) (st_vpn odd_settings) (st_dns odd_settings) (st_version odd_settings)
      (?g\<lparr>mg_cfg := c\<rparr>) w1 = (Some e2, ?g\<lparr>mg_cfg := c\<rparr>, w1)"
    using host' unfolding update_stopped_config_def none [OF g'] Let_def prod.case by (simp add: g)
  have cc: "commit_config full_disk odd_settings ?cur (s\<lparr>sv_pm := ?g\<lparr>mg_cfg := c\<rparr>\<rparr>) w =
      (Refused 500 (''persist configuration: '' @ err_text e), s\<lparr>sv_pm := ?g\<lparr>mg_cfg := c\<rparr>\<rparr>, w1)"
    using chk(2) by (simp add: commit_config_def update_pm_def on_pm_def sv v)
  have "handle_config Linux full_disk body s w = (Refused 500 (''persist configuration: '' @ err_text e), s\<lparr>sv_pm := ?g\<lparr>mg_cfg := c\<rparr>\<rparr>, w1)"
    unfolding handle_config_def assms(1,2) sum.case Let_def cur chk(1) option.case using chk(2) by (simp add: u1 cc)
  then show ?thesis using assms(2) u(2) by simp
qed

theorem server_always_safe_witness:
  "\<exists>s w. server_reach Linux quiet_machine s w \<and> is_loopback_listen (st_listen (sv_settings s)) \<and> is_loopback_host (cf_host (mg_cfg (sv_pm s)))"
proof -
  let ?w = "world_of [] () :: unit world"
  have "\<exists>s w. new_server Linux quiet_machine ?w = (Inr s, w)"
  proof -
    define root where "root = path_join ''/home/user/.config'' ''AntigravitiProxi''"
    define path where "path = path_join root ''config.json''"
    obtain st0 v1 where 1: "load_settings quiet_machine path (tick (tick (tick ?w))) = (st0, v1)" by fastforce
    have v: "validate_settings (strict_on_linux Linux st0) = None"
      using load_settings_valid [OF 1] by (simp add: strict_on_linux_def)
    have f1: "w_files v1 = w_files ?w" using load_settings_files [OF 1] by simp
    obtain ifs v2 where 2: "list_interfaces quiet_machine v1 = (ifs, v2)" by fastforce
    obtain bs v3 where 3: "random_bytes quiet_machine 24 v2 = (bs, v3)" by fastforce
    have f: "w_files v3 = w_files ?w"
      using f1 list_interfaces_reads [OF 2] random_bytesD [OF 3] by (simp add: reads_def)
    let ?st = "choose_vpn (case ifs of Inr xs \<Rightarrow> xs | Inl _ \<Rightarrow> []) (strict_on_linux Linux st0)"
    have vs: "validate_settings ?st = None"
      using v by (auto simp: choose_vpn_def validate_settings_def split: option.split if_splits)
    have "no_temps p v3" for p by (simp add: no_temps_def f world_of_def)
    moreover have "path \<noteq> []" unfolding path_def root_def by code_simp
    ultimately obtain v4 where 4: "atomic_write quiet_machine path (marshal_indent (enc_settings ?st) @ nl) 384 v3 = (Inr (), v4)"
      using atomic_write_succeeds [OF reliable_quiet] by metis
    have sv: "save_settings quiet_machine path ?st v3 = (Inr (), v4)" unfolding save_settings_def vs by (simp add: 4)
    have fin: "\<exists>s. finish_new Linux quiet_machine root (tick (tick (tick ?w))) = (Inr s, v4)"
      unfolding finish_new_def path_def [symmetric] Let_def 1 2 3 prod.case v option.case sv sum.case by blast
    have "read_file quiet_machine p (tick (tick ?w)) = (Inl (no_such_file ''open'' p), tick (tick (tick ?w)))" for p
      by (simp add: read_file_def fault_now_def quiet_machine_def world_of_def tick_def)
    then have x: "expire_hosts_override Linux quiet_machine d t (tick (tick ?w)) = (Inr False, tick (tick (tick ?w)))" for d t
      by (simp add: expire_hosts_override_def no_such_file_def)
    have mk: "mkdir_all quiet_machine root ?w = (Inr (), tick ?w)" by (simp add: mkdir_all_def fault_now_def quiet_machine_def)
    have c: "m_config_dir quiet_machine = Inr ''/home/user/.config''" by (simp add: quiet_machine_def)
    have nw: "now quiet_machine (tick ?w) = (m_clock quiet_machine (w_tick (tick ?w)), tick (tick ?w))" by (simp add: now_def)
    show ?thesis unfolding new_server_def c sum.case Let_def root_def [symmetric] mk prod.case nw x using fin by blast
  qed
  then obtain s w where n: "new_server Linux quiet_machine ?w = (Inr s, w)" by blast
  from server_always_safe [OF created [OF n]] created [OF n] show ?thesis by blast
qed

end
