(* ===== verification/ProxyStart.thy ===== *)
theory ProxyStart imports Control begin

text \<open>
  The start of the proxy (\<^verbatim>\<open>startSafeProxy\<close> of \<^verbatim>\<open>app/app.go\<close>): what its success rests on.
\<close>

section \<open>Evidence\<close>


definition answered_listener :: "'k machine \<Rightarrow> config \<Rightarrow> bool" where
  "answered_listener m c \<longleftrightarrow>
     (\<exists>g1 w1 g2 w2 w3. mg_cfg g1 = c \<and> managed_running m g1 w1 = (True, g2, w2) \<and> listener_reachable m g2 w2 = (True, w3))"

lemma proven_proxy:
  assumes "on_pm (managed_running m) s w = (True, s1, w1)" "listener_reachable m (sv_pm s1) w1 = (True, w2)" "prove_proxy pf m s1 w2 = (s', w')"
  shows "mg_ready (sv_pm s') \<and> answered_listener m (mg_cfg (sv_pm s))"
proof -
  have "managed_running m (sv_pm s) w = (True, sv_pm s1, w1)" using assms(1) by (auto simp: on_pm_def split: prod.splits)
  moreover have "mg_ready (sv_pm s')" using assms(3) by (auto simp: prove_proxy_def Let_def mark_ready_def split: prod.splits)
  ultimately show ?thesis using assms(2) unfolding answered_listener_def by blast
qed

lemma rollback_fails: "rollback_proxy_start n pf m cx e s w \<noteq> Some (None, s', w')"
  by (auto simp: rollback_proxy_start_def split: option.splits)

lemma wait_proxy_evidence:
  "wait_proxy k n pf m cx deadline s w = Some (None, s', w') \<Longrightarrow> mg_ready (sv_pm s') \<and> answered_listener m (mg_cfg (sv_pm s))"
proof (induction k arbitrary: s w)
  case 0
  obtain b s1 w1 where b: "on_pm (managed_running m) s w = (b, s1, w1)" by (metis prod_cases3)
  obtain c w2 where c: "listener_reachable m (sv_pm s1) w1 = (c, w2)" by fastforce
  have "b" "c" "\<exists>w4. prove_proxy pf m s1 w2 = (s', w4)" using 0 unfolding wait_proxy.simps [of 0] b prod.case
    by (cases b; cases c; auto simp: c Let_def rollback_fails split: prod.splits option.splits if_splits)+
  then show ?case using proven_proxy b c by metis
next
  case (Suc k)
  obtain b s1 w1 where b: "on_pm (managed_running m) s w = (b, s1, w1)" by (metis prod_cases3)
  obtain c w2 where c: "listener_reachable m (sv_pm s1) w1 = (c, w2)" by fastforce
  consider "b" "c" "\<exists>w4. prove_proxy pf m s1 w2 = (s', w4)" | w3 where "wait_proxy k n pf m cx deadline s1 w3 = Some (None, s', w')"
    using Suc.prems unfolding wait_proxy.simps [of "Suc k"] b prod.case
    by (cases b; cases c) (auto simp: c Let_def rollback_fails split: prod.splits option.splits if_splits)
  then show ?case
  proof cases
    case 1
    then show ?thesis using proven_proxy b c by metis
  next
    case 2
    then show ?thesis using Suc.IH [OF 2] running_keeps [OF b] by (simp add: keeps_def)
  qed
qed

lemma start_and_wait_evidence:
  assumes "start_and_wait n pf arch m cx s w = Some (None, s', w')"
  shows "mg_ready (sv_pm s') \<and> answered_listener m (mg_cfg (sv_pm s))"
proof -
  obtain e s1 w1 where e: "on_pm (install_verified pf arch m) s w = (e, s1, w1)" by (metis prod_cases3)
  obtain d s2 w2 where d: "on_pm (start_proxy pf m) s1 w1 = (d, s2, w2)" by (metis prod_cases3)
  have k: "keeps s s1" "keeps s1 s2" by (rule install_keeps [OF e], rule on_pm_keeps [OF d start_proxy_cfg])
  have "\<exists>t w3. wait_proxy proxy_rounds n pf m cx t s2 w3 = Some (None, s', w')"
    using assms by (cases e; cases d) (auto simp: start_and_wait_def ensure_sing_box_def e d Let_def split: prod.splits)
  then show ?thesis using wait_proxy_evidence k by (fastforce simp: keeps_def)
qed

section \<open>Properties\<close>


definition idle_contexts :: contexts where
  "idle_contexts = \<lparr>cx_request = (\<lambda>_. None), cx_stop = (\<lambda>_. None), cx_cleanup = (\<lambda>_. None)\<rparr>"

definition running_server :: server where
  "running_server = sample_server\<lparr>sv_pm := started_manager\<lparr>mg_mode := Mode_proxy, mg_ready := True\<rparr>\<rparr>"


end
