(* ===== verification/EntryPoints.thy ===== *)
theory EntryPoints imports ProxyStart begin

text \<open>
  The program's entry (\<^verbatim>\<open>cmd/antigraviti-proxi/main.go\<close>): the internal helpers behind the privilege broker, and
  the control plane.  The lemmas show that the commands the program builds for its own helpers reach
  exactly those helpers with the same arguments.
\<close>

section \<open>Dispatch\<close>

datatype entry =
    Bad_usage string
  | Setup_helper string string
  | Recovery_helper string
  | Hard_launcher string string string string nat
  | Hard_child string string nat
  | Control_plane "string list"

definition with_uid :: "string \<Rightarrow> string \<Rightarrow> (nat \<Rightarrow> entry) \<Rightarrow> entry" where
  "with_uid msg text f = (case parse_uint32 text of None \<Rightarrow> Bad_usage msg | Some uid \<Rightarrow> f uid)"

text \<open>On \<^verbatim>\<open>os.Args\<close>, the name of the program first.\<close>

definition dispatch :: "string list \<Rightarrow> entry" where
  "dispatch args =
     (let cmd = (case args of _ # c # _ \<Rightarrow> c | _ \<Rightarrow> []) in
      if cmd = ''__linux-privileged-setup''
      then (case args of [_, _, binary, sha] \<Rightarrow> Setup_helper binary sha | _ \<Rightarrow> Bad_usage ''invalid privileged setup invocation'')
      else if cmd = ''__linux-privileged-recover''
      then (case args of [_, _, journal] \<Rightarrow> Recovery_helper journal | _ \<Rightarrow> Bad_usage ''invalid privileged recovery invocation'')
      else if cmd = ''__linux-hard-launch''
      then (case args of
          [_, _, root, vpn, exe, env, uid] \<Rightarrow> with_uid ''invalid protected launch uid:'' uid (Hard_launcher root vpn exe env)
        | _ \<Rightarrow> Bad_usage ''invalid kernel-hard launch invocation'')
      else if cmd = ''__linux-hard-child''
      then (case args of
          [_, _, exe, env, uid] \<Rightarrow> with_uid ''invalid protected child uid:'' uid (Hard_child exe env)
        | _ \<Rightarrow> Bad_usage ''invalid kernel-hard child invocation'')
      else Control_plane (tl args))"

definition exit_of :: "gerr option \<Rightarrow> nat" where
  "exit_of e = (if e = None then 0 else 1)"

text \<open>The exit code of a helper; on other platforms than Linux they only return an error.\<close>

definition helper_main :: "platform \<Rightarrow> 'k machine \<Rightarrow> entry \<Rightarrow> 'k world \<Rightarrow> (nat \<times> 'k world) option" where
  "helper_main pf m en w =
     (case en of
        Control_plane _ \<Rightarrow> None
      | Bad_usage _ \<Rightarrow> Some (2, w)
      | _ \<Rightarrow>
          if pf \<noteq> Linux then Some (1, w)
          else (case en of
              Setup_helper binary sha \<Rightarrow> (case run_privileged_setup m binary sha w of (r, w1) \<Rightarrow> Some (exit_of (case r of Inl e \<Rightarrow> Some e | Inr _ \<Rightarrow> None), w1))
            | Recovery_helper journal \<Rightarrow> (case run_privileged_recovery m journal w of (r, w1) \<Rightarrow> Some (exit_of (case r of Inl e \<Rightarrow> Some e | Inr _ \<Rightarrow> None), w1))
            | Hard_launcher root vpn exe env uid \<Rightarrow> (case run_hard_launch m root vpn exe env uid w of (e, w1) \<Rightarrow> Some (exit_of e, w1))
            | Hard_child exe env uid \<Rightarrow> (case run_hard_child m exe env uid w of (e, w1) \<Rightarrow> Some (exit_of e, w1))
            | _ \<Rightarrow> None))"

section \<open>The control plane\<close>

text \<open>How \<^verbatim>\<open>Serve\<close> ended: after a shutdown, or with another error.\<close>

datatype served = Server_closed | Serve_error gerr | Serve_nil

text \<open>What follows \<^verbatim>\<open>Serve\<close>: \<^verbatim>\<open>log.Fatal\<close> exits without the deferred functions, so only otherwise the server is
  closed; an error of closing is only logged.\<close>

definition finish_main ::
  "nat \<Rightarrow> platform \<Rightarrow> 'k machine \<Rightarrow> contexts \<Rightarrow> served \<Rightarrow> server \<Rightarrow> 'k world \<Rightarrow> (nat \<times> server \<times> 'k world) option" where
  "finish_main n pf m cx r s w =
     (case r of
        Serve_error e \<Rightarrow> Some (1, s, w)
      | _ \<Rightarrow> (case close_server n pf m cx s w of None \<Rightarrow> None | Some (_, s1, w1) \<Rightarrow> Some (0, s1, w1)))"

text \<open>The page is opened by the desktop (\<^verbatim>\<open>internal/platform/browser.go\<close>).\<close>

definition open_browser :: "platform \<Rightarrow> 'k machine \<Rightarrow> string \<Rightarrow> 'k step" where
  "open_browser pf m url w =
     (let start = (\<lambda>c. case spawn_cmd m c w of (Inl e, w1) \<Rightarrow> (Some e, w1) | (Inr _, w1) \<Rightarrow> (None, w1)) in
      case pf of
        Windows \<Rightarrow> start [''rundll32'', ''url.dll,FileProtocolHandler'', url]
      | Linux \<Rightarrow> start [''xdg-open'', url]
      | Other_os name \<Rightarrow> (Some (new_err (''unsupported OS for browser launch: '' @ name)), w))"

section \<open>Lemmas\<close>

lemma dispatch_helpers:
  "dispatch [self, ''__linux-privileged-setup'', binary, sha] = Setup_helper binary sha"
  "dispatch [self, ''__linux-privileged-recover'', journal] = Recovery_helper journal"
  "uid < 2 ^ 32 \<Longrightarrow> dispatch [self, ''__linux-hard-launch'', root, vpn, exe, env, nat_digits uid] = Hard_launcher root vpn exe env uid"
  "uid < 2 ^ 32 \<Longrightarrow> dispatch [self, ''__linux-hard-child'', exe, env, nat_digits uid] = Hard_child exe env uid"
  by (simp_all add: dispatch_def with_uid_def parse_uint32_digits)

lemma spawn_log: "spawn_cmd m c w = (r, w') \<Longrightarrow> w_log w' = w_log w @ [c]"
  by (drule spawn_cmdD) simp

text \<open>What the parts of the launcher run is only added to the log.\<close>

lemma log_grows:
  "confined A P w w' \<Longrightarrow> \<exists>cs. w_log w' = w_log w @ cs"
  by (auto simp: confined_def runs_def)

lemma run_protected_starts:
  assumes "m_self m = Inr self" "run_protected m root exe envp s w = (e, w')"
  shows "[''ip'', ''netns'', ''exec'', hl_namespace s, self, ''__linux-hard-child'', exe, envp, nat_digits (hl_uid s)] \<in> set (w_log w')"
proof -
  let ?c = "[''ip'', ''netns'', ''exec'', hl_namespace s, self, ''__linux-hard-child'', exe, envp, nat_digits (hl_uid s)]"
  obtain r w1 where r: "spawn_cmd m ?c w = (r, w1)" by fastforce
  have c: "?c \<in> set (w_log w1)" using spawn_log [OF r] by simp
  show ?thesis
  proof (cases r)
    case (Inl x)
    then show ?thesis using assms r c by (simp add: run_protected_def)
  next
    case (Inr pid)
    obtain x2 w2 where 2: "write_hard_state m root (s\<lparr>hl_pid := pid\<rparr>) w1 = (x2, w2)" by fastforce
    obtain x3 w3 where 3: "wait_child m pid w2 = (x3, w3)" by fastforce
    obtain x4 w4 where 4: "write_hard_evidence m root (hl_uid s) w3 = (x4, w4)" by fastforce
    have "w' = w4" using assms r Inr by (simp add: run_protected_def 2 3 4)
    moreover have "confined (\<lambda>_. True) (\<lambda>_. True) w1 w2"
      using 2 confinedD(5) [where A = "\<lambda>_. True" and P = "\<lambda>_. True"] unfolding write_hard_state_def by blast
    then have "\<exists>cs. w_log w2 = w_log w1 @ cs" by (rule log_grows)
    moreover have "\<exists>cs. w_log w3 = w_log w2 @ cs"
      using log_grows [OF confinedD(10) [OF 3, where A = "\<lambda>_. True" and P = "\<lambda>_. True"]] .
    moreover have "\<exists>cs. w_log w4 = w_log w3 @ cs"
      using log_grows [OF evidence_confined [where m = m and root = root and uid = "hl_uid s" and w = w3]] 4 by simp
    ultimately show ?thesis using c by auto
  qed
qed

text \<open>So the launcher and the child are reached with the arguments of the request: a launch in the kernel-hard
  mode that reports success started the program itself behind the privilege broker, and what the launcher
  runs in the name space dispatches to the child.\<close>

lemma launch_reaches_launcher:
  assumes "launch_kernel_hard pf m exe env g w = (None, g', w')" "m_getuid m < 2 ^ 32"
  shows "\<exists>pkexec self. m_self m = Inr self \<and> last (w_log w') = pkexec # self # drop 2 (last (w_log w')) \<and>
    dispatch (tl (last (w_log w'))) =
      Hard_launcher (cf_root (mg_cfg g)) (cf_vpn (mg_cfg g)) exe (hard_env_path (cf_root (mg_cfg g))) (m_getuid m)"
proof -
  obtain self pkexec pid w3 where c: "m_self m = Inr self"
      "spawn_cmd m [pkexec, self, ''__linux-hard-launch'', cf_root (mg_cfg g), cf_vpn (mg_cfg g), exe, hard_env_path (cf_root (mg_cfg g)), nat_digits (m_getuid m)] w3 = (Inr pid, w')"
    using assms(1) by (auto simp: launch_kernel_hard_def Let_def split: prod.splits option.splits sum.splits if_splits)
  show ?thesis
    using spawn_log [OF c(2)] c(1) assms(2) by (intro exI [of _ pkexec] exI [of _ self]) (simp add: dispatch_helpers)
qed

lemma launcher_reaches_child:
  assumes "m_self m = Inr self" "run_protected m root exe envp s w = (e, w')" "hl_uid s < 2 ^ 32"
  shows "\<exists>c. c \<in> set (w_log w') \<and> take 4 c = [''ip'', ''netns'', ''exec'', hl_namespace s] \<and> dispatch (drop 4 c) = Hard_child exe envp (hl_uid s)"
  using run_protected_starts [OF assms(1) assms(2)] assms(3) by (intro exI conjI) (assumption, simp_all add: dispatch_helpers)

end
