(* ===== verification/Riskcheck.thy ===== *)
theory Riskcheck imports Go_Time Go_Regexp Platform begin

text \<open>
  The gate on the register of risks (\<^verbatim>\<open>cmd/riskcheck/main.go\<close>): finding the repository, decoding, the
  checks and the exit code.  Go iterates over a map in any order, so the orders in which the required
  fields and the scores of a risk are visited are parameters.  The summary that is printed is left out.
  The lemmas show that the gate passes exactly for the registers of a declarative description.
\<close>

section \<open>The register\<close>

record review_policy =
  rp_cadence :: string
  rp_high :: int
  rp_critical :: int
  rp_rule :: string

record risk =
  rk_id :: string
  rk_title :: string
  rk_component :: string
  rk_mode :: string
  rk_effect :: string
  rk_cause :: string
  rk_controls :: "string list"
  rk_initial :: int
  rk_severity :: int
  rk_occurrence :: int
  rk_detection :: int
  rk_rpn :: int
  rk_status :: string
  rk_owner :: string
  rk_milestone :: string
  rk_mitigation :: string
  rk_verification :: string
  rk_refs :: "string list"
  rk_reviewed :: string
  rk_acceptance :: string

record register =
  rg_schema :: int
  rg_method :: string
  rg_policy :: review_policy
  rg_risks :: "risk list"

definition zero_risk :: risk where
  "zero_risk = \<lparr>rk_id = [], rk_title = [], rk_component = [], rk_mode = [], rk_effect = [], rk_cause = [], rk_controls = [], rk_initial = 0,
     rk_severity = 0, rk_occurrence = 0, rk_detection = 0, rk_rpn = 0, rk_status = [], rk_owner = [], rk_milestone = [], rk_mitigation = [],
     rk_verification = [], rk_refs = [], rk_reviewed = [], rk_acceptance = []\<rparr>"

definition zero_register :: register where
  "zero_register = \<lparr>rg_schema = 0, rg_method = [], rg_policy = \<lparr>rp_cadence = [], rp_high = 0, rp_critical = 0, rp_rule = []\<rparr>, rg_risks = []\<rparr>"

definition policy_fields :: "(string \<times> review_policy decoder) list" where
  "policy_fields =
     [dec_field ''cadence'' dec_string rp_cadence (\<lambda>v a. a\<lparr>rp_cadence := v\<rparr>),
      dec_field ''high_rpn_threshold'' dec_int rp_high (\<lambda>v a. a\<lparr>rp_high := v\<rparr>),
      dec_field ''critical_severity_threshold'' dec_int rp_critical (\<lambda>v a. a\<lparr>rp_critical := v\<rparr>),
      dec_field ''release_rule'' dec_string rp_rule (\<lambda>v a. a\<lparr>rp_rule := v\<rparr>)]"

definition risk_fields :: "(string \<times> risk decoder) list" where
  "risk_fields =
     [dec_field ''id'' dec_string rk_id (\<lambda>v a. a\<lparr>rk_id := v\<rparr>), dec_field ''title'' dec_string rk_title (\<lambda>v a. a\<lparr>rk_title := v\<rparr>),
      dec_field ''component'' dec_string rk_component (\<lambda>v a. a\<lparr>rk_component := v\<rparr>),
      dec_field ''failure_mode'' dec_string rk_mode (\<lambda>v a. a\<lparr>rk_mode := v\<rparr>), dec_field ''effect'' dec_string rk_effect (\<lambda>v a. a\<lparr>rk_effect := v\<rparr>),
      dec_field ''cause'' dec_string rk_cause (\<lambda>v a. a\<lparr>rk_cause := v\<rparr>),
      dec_field ''controls'' (dec_list [] dec_string) rk_controls (\<lambda>v a. a\<lparr>rk_controls := v\<rparr>),
      dec_field ''initial_rpn'' dec_int rk_initial (\<lambda>v a. a\<lparr>rk_initial := v\<rparr>), dec_field ''severity'' dec_int rk_severity (\<lambda>v a. a\<lparr>rk_severity := v\<rparr>),
      dec_field ''occurrence'' dec_int rk_occurrence (\<lambda>v a. a\<lparr>rk_occurrence := v\<rparr>),
      dec_field ''detection'' dec_int rk_detection (\<lambda>v a. a\<lparr>rk_detection := v\<rparr>), dec_field ''rpn'' dec_int rk_rpn (\<lambda>v a. a\<lparr>rk_rpn := v\<rparr>),
      dec_field ''status'' dec_string rk_status (\<lambda>v a. a\<lparr>rk_status := v\<rparr>), dec_field ''owner'' dec_string rk_owner (\<lambda>v a. a\<lparr>rk_owner := v\<rparr>),
      dec_field ''target_milestone'' dec_string rk_milestone (\<lambda>v a. a\<lparr>rk_milestone := v\<rparr>),
      dec_field ''mitigation'' dec_string rk_mitigation (\<lambda>v a. a\<lparr>rk_mitigation := v\<rparr>),
      dec_field ''verification'' dec_string rk_verification (\<lambda>v a. a\<lparr>rk_verification := v\<rparr>),
      dec_field ''plan_refs'' (dec_list [] dec_string) rk_refs (\<lambda>v a. a\<lparr>rk_refs := v\<rparr>),
      dec_field ''last_reviewed'' dec_string rk_reviewed (\<lambda>v a. a\<lparr>rk_reviewed := v\<rparr>),
      dec_field ''acceptance_reason'' dec_string rk_acceptance (\<lambda>v a. a\<lparr>rk_acceptance := v\<rparr>)]"

definition register_fields :: "(string \<times> register decoder) list" where
  "register_fields =
     [dec_field ''schema_version'' dec_int rg_schema (\<lambda>v a. a\<lparr>rg_schema := v\<rparr>), dec_field ''method'' dec_string rg_method (\<lambda>v a. a\<lparr>rg_method := v\<rparr>),
      dec_field ''review_policy'' (dec_struct policy_fields) rg_policy (\<lambda>v a. a\<lparr>rg_policy := v\<rparr>),
      dec_field ''risks'' (dec_list zero_risk (dec_struct risk_fields)) rg_risks (\<lambda>v a. a\<lparr>rg_risks := v\<rparr>)]"

section \<open>The checks\<close>

definition risk_id_ok :: "string \<Rightarrow> bool" where
  "risk_id_ok s \<longleftrightarrow> length s = 5 \<and> has_prefix s ''R-'' \<and> list_all (\<lambda>c. digit_of c \<noteq> None) (drop 2 s)"

text \<open>\<^verbatim>\<open>time.Parse("2006-01-02", s)\<close>: a date of the calendar.\<close>

definition is_day :: "string \<Rightarrow> bool" where
  "is_day s \<longleftrightarrow> length s = 10 \<and> date_shape (s @ ''T00:00:00'') \<and> date_range (s @ ''T00:00:00'')"

text \<open>Multiplication on 64 bits.\<close>

definition int64_of :: "int \<Rightarrow> int" where
  "int64_of i = (i + 2 ^ 63) mod 2 ^ 64 - 2 ^ 63"

definition risk_product :: "risk \<Rightarrow> int" where
  "risk_product r = int64_of (int64_of (rk_severity r * rk_occurrence r) * rk_detection r)"

definition required_fields :: "risk \<Rightarrow> (string \<times> string) list" where
  "required_fields r =
     [(''title'', rk_title r), (''component'', rk_component r), (''failure_mode'', rk_mode r), (''effect'', rk_effect r), (''cause'', rk_cause r),
      (''owner'', rk_owner r), (''target_milestone'', rk_milestone r), (''mitigation'', rk_mitigation r), (''verification'', rk_verification r),
      (''last_reviewed'', rk_reviewed r)]"

definition scores :: "risk \<Rightarrow> (string \<times> int) list" where
  "scores r = [(''severity'', rk_severity r), (''occurrence'', rk_occurrence r), (''detection'', rk_detection r)]"

record map_orders =
  mo_fields :: "(string \<times> string) list \<Rightarrow> (string \<times> string) list"
  mo_scores :: "(string \<times> int) list \<Rightarrow> (string \<times> int) list"

definition unresolved :: "risk \<Rightarrow> bool" where
  "unresolved r \<longleftrightarrow> rk_status r \<noteq> ''closed'' \<and> rk_status r \<noteq> ''accepted''"

definition report_if :: "bool \<Rightarrow> string \<Rightarrow> string list" where
  "report_if b msg = (if b then [msg] else [])"

definition risk_errors :: "map_orders \<Rightarrow> review_policy \<Rightarrow> string \<Rightarrow> bool \<Rightarrow> nat \<Rightarrow> bool \<Rightarrow> risk \<Rightarrow> string list" where
  "risk_errors mo p plan release i dup r =
     (let n = rk_id r; product = risk_product r in
      report_if (\<not> risk_id_ok n) (''risks['' @ itoa (int i) @ ''] invalid id '' @ go_quote n) @
      report_if dup (''duplicate risk id '' @ n) @
      concat (map (\<lambda>(f, v). report_if (trim_space v = []) (n @ '' '' @ f @ '' is empty'')) (mo_fields mo (required_fields r))) @
      report_if (rk_status r \<notin> {''open'', ''mitigating'', ''accepted'', ''closed''}) (n @ '' invalid status '' @ go_quote (rk_status r)) @
      report_if (rk_status r = ''accepted'' \<and> trim_space (rk_acceptance r) = []) (n @ '' accepted risk requires acceptance_reason'') @
      report_if (rk_controls r = []) (n @ '' has no current controls'') @
      report_if (rk_refs r = [] \<and> rk_status r \<noteq> ''closed'') (n @ '' has no plan_refs'') @
      concat (map (\<lambda>(f, v). report_if (v < 1 \<or> v > 10) (n @ '' '' @ f @ ''='' @ itoa v @ '' outside 1..10'')) (mo_scores mo (scores r))) @
      report_if (rk_rpn r \<noteq> product) (n @ '' rpn='' @ itoa (rk_rpn r) @ '' but S*O*D='' @ itoa product) @
      report_if (rk_initial r \<le> 0) (n @ '' initial_rpn must be positive'') @
      report_if (rk_initial r < rk_rpn r) (n @ '' initial_rpn='' @ itoa (rk_initial r) @ '' is lower than current rpn='' @ itoa (rk_rpn r) @
        ''; explain by resetting baseline instead of implying mitigation'') @
      report_if (\<not> is_day (rk_reviewed r)) (n @ '' last_reviewed must be YYYY-MM-DD'') @
      report_if (rk_status r \<noteq> ''closed'' \<and> \<not> str_contains plan n) (n @ '' is unresolved but missing from MASTER_PLAN.md'') @
      report_if (release \<and> unresolved r \<and> (rk_rpn r \<ge> rp_high p \<or> rk_severity r \<ge> rp_critical p))
        (''release gate: '' @ n @ '' unresolved (S='' @ itoa (rk_severity r) @ '' RPN='' @ itoa (rk_rpn r) @ '' status='' @ rk_status r @ '')''))"

fun all_risk_errors :: "map_orders \<Rightarrow> review_policy \<Rightarrow> string \<Rightarrow> bool \<Rightarrow> nat \<Rightarrow> string list \<Rightarrow> risk list \<Rightarrow> string list" where
  "all_risk_errors mo p plan release i seen [] = []"
| "all_risk_errors mo p plan release i seen (r # rs) =
     risk_errors mo p plan release i (rk_id r \<in> set seen) r @ all_risk_errors mo p plan release (Suc i) (rk_id r # seen) rs"

definition validate_register :: "map_orders \<Rightarrow> register \<Rightarrow> string \<Rightarrow> bool \<Rightarrow> string list" where
  "validate_register mo g plan release =
     (let p = rg_policy g;
          errs = report_if (rg_schema g \<noteq> 1) (''unsupported schema_version='' @ itoa (rg_schema g) @ '' (want 1)'') @
                 report_if (trim_space (rg_method g) = []) ''method is empty'' @
                 report_if (rp_high p \<le> 0 \<or> rp_critical p < 1 \<or> rp_critical p > 10) ''review_policy thresholds are invalid''
      in if rg_risks g = [] then errs @ [''risk register is empty''] else errs @ all_risk_errors mo p plan release 0 [] (rg_risks g))"

section \<open>The command\<close>

definition plain_file_exists :: "'k machine \<Rightarrow> string \<Rightarrow> 'k world \<Rightarrow> bool \<times> 'k world" where
  "plain_file_exists m p w = (case host_stat m p w of (Inl _, w1) \<Rightarrow> (False, w1) | (Inr st, w1) \<Rightarrow> (\<not> hs_dir st, w1))"

text \<open>Upwards from the working directory; a parent is shorter, so its length bounds the rounds.\<close>

fun find_repo_root :: "nat \<Rightarrow> 'k machine \<Rightarrow> string \<Rightarrow> 'k world \<Rightarrow> string option \<times> 'k world" where
  "find_repo_root n m dir w =
     (let (a, w1) = plain_file_exists m (path_join (path_join dir ''risks'') ''register.json'') w;
          (b, w2) = (if a then plain_file_exists m (path_join dir ''MASTER_PLAN.md'') w1 else (False, w1))
      in if a \<and> b then (Some dir, w2)
         else (let parent = path_dir dir in
           if parent = dir then (None, w2)
           else (case n of 0 \<Rightarrow> (None, w2) | Suc k \<Rightarrow> find_repo_root k m parent w2)))"

declare find_repo_root.simps [simp del]

text \<open>The exit code and the errors printed.\<close>

definition riskcheck :: "map_orders \<Rightarrow> 'k machine \<Rightarrow> bool \<Rightarrow> 'k world \<Rightarrow> (nat \<times> string list) \<times> 'k world" where
  "riskcheck mo m release w =
     (case find_repo_root (length (m_cwd m)) m (m_cwd m) w of
        (None, w1) \<Rightarrow> ((2, [''repository root not found from '' @ m_cwd m]), w1)
      | (Some root, w1) \<Rightarrow>
     (let reg_path = path_join (path_join root ''risks'') ''register.json''; plan_path = path_join root ''MASTER_PLAN.md'' in
      case host_file m reg_path w1 of
        (Inl e, w2) \<Rightarrow> ((2, [''read '' @ reg_path @ '': '' @ err_text e]), w2)
      | (Inr b, w2) \<Rightarrow>
     (case unmarshal (dec_struct register_fields) b zero_register of
        (g, ok) \<Rightarrow>
          if \<not> ok then ((2, [''parse '' @ reg_path @ '': '' @ err_text json_error]), w2)
          else (case host_file m plan_path w2 of
              (Inl e, w3) \<Rightarrow> ((2, [''read '' @ plan_path @ '': '' @ err_text e]), w3)
            | (Inr plan, w3) \<Rightarrow>
                (let errs = validate_register mo g plan release in ((if errs = [] then 0 else 1, errs), w3))))))"

section \<open>The registers that pass\<close>

text \<open>In the words of the method: no map, no order, and no wrap-around, as the scores are small.\<close>

definition risk_ok :: "review_policy \<Rightarrow> string \<Rightarrow> bool \<Rightarrow> risk \<Rightarrow> bool" where
  "risk_ok p plan release r \<longleftrightarrow>
     risk_id_ok (rk_id r) \<and> list_all (\<lambda>(f, v). trim_space v \<noteq> []) (required_fields r) \<and>
     rk_status r \<in> {''open'', ''mitigating'', ''accepted'', ''closed''} \<and> (rk_status r = ''accepted'' \<longrightarrow> trim_space (rk_acceptance r) \<noteq> []) \<and>
     rk_controls r \<noteq> [] \<and> (rk_status r \<noteq> ''closed'' \<longrightarrow> rk_refs r \<noteq> [] \<and> str_contains plan (rk_id r)) \<and>
     list_all (\<lambda>(f, v). v \<in> {1..10}) (scores r) \<and> rk_rpn r = rk_severity r * rk_occurrence r * rk_detection r \<and>
     rk_rpn r \<le> rk_initial r \<and> is_day (rk_reviewed r) \<and>
     (release \<and> unresolved r \<longrightarrow> rk_rpn r < rp_high p \<and> rk_severity r < rp_critical p)"

definition register_ok :: "register \<Rightarrow> string \<Rightarrow> bool \<Rightarrow> bool" where
  "register_ok g plan release \<longleftrightarrow>
     rg_schema g = 1 \<and> trim_space (rg_method g) \<noteq> [] \<and> 0 < rp_high (rg_policy g) \<and> rp_critical (rg_policy g) \<in> {1..10} \<and>
     rg_risks g \<noteq> [] \<and> distinct (map rk_id (rg_risks g)) \<and> list_all (risk_ok (rg_policy g) plan release) (rg_risks g)"

section \<open>Lemmas\<close>

lemma report_if_Nil [simp]: "report_if b msg = [] \<longleftrightarrow> \<not> b"
  by (simp add: report_if_def)

lemma small_product:
  assumes "a \<in> {1..10}" "b \<in> {1..10}" "c \<in> {1..10}"
  shows "int64_of (int64_of (a * b) * c) = a * b * c" "0 < a * b * c"
proof -
  have ab: "1 \<le> a * b" "a * b \<le> 100" using assms mult_mono [of 1 a 1 b] mult_mono [of a 10 b 10] by auto
  have abc: "1 \<le> a * b * c" "a * b * c \<le> 1000" using ab assms mult_mono [of 1 "a * b" 1 c] mult_mono [of "a * b" 100 c 10] by auto
  have i: "int64_of x = x" if "1 \<le> x" "x \<le> 1000" for x using that by (simp add: int64_of_def)
  show "int64_of (int64_of (a * b) * c) = a * b * c" using i [of "a * b"] i [of "a * b * c"] ab abc by simp
  show "0 < a * b * c" using abc by simp
qed

lemma no_reports: "concat (map (\<lambda>(f, v). report_if (P v) (msg f v)) xs) = [] \<longleftrightarrow> list_all (\<lambda>(f, v). \<not> P v) xs"
  by (auto simp: list_all_iff)

lemma risk_errors_Nil:
  assumes "set (mo_fields mo (required_fields r)) = set (required_fields r)" "set (mo_scores mo (scores r)) = set (scores r)"
  shows "risk_errors mo p plan release i dup r = [] \<longleftrightarrow> \<not> dup \<and> risk_ok p plan release r"
proof -
  have f: "list_all P (mo_fields mo (required_fields r)) = list_all P (required_fields r)" for P using assms(1) by (simp add: list_all_iff)
  have s: "list_all P (mo_scores mo (scores r)) = list_all P (scores r)" for P using assms(2) by (simp add: list_all_iff)
  have n: "list_all (\<lambda>(f, v). \<not> (v < 1 \<or> v > 10)) (scores r) \<longleftrightarrow> list_all (\<lambda>(f, v). v \<in> {1..10}) (scores r)"
    by (simp add: scores_def not_less)
  have p: "list_all (\<lambda>(f, v). v \<in> {1..10}) (scores r) \<Longrightarrow> risk_product r = rk_severity r * rk_occurrence r * rk_detection r \<and> 0 < risk_product r"
    using small_product [of "rk_severity r" "rk_occurrence r" "rk_detection r"] by (simp add: scores_def risk_product_def)
  show ?thesis
    unfolding risk_errors_def Let_def append_is_Nil_conv report_if_Nil no_reports f s n risk_ok_def using p by (auto simp: not_le)
qed

lemma all_errors_Nil:
  assumes "\<And>r. set (mo_fields mo (required_fields r)) = set (required_fields r)" "\<And>r. set (mo_scores mo (scores r)) = set (scores r)"
  shows "all_risk_errors mo p plan release i seen rs = [] \<longleftrightarrow>
     distinct (map rk_id rs) \<and> set (map rk_id rs) \<inter> set seen = {} \<and> list_all (risk_ok p plan release) rs"
  by (induction rs arbitrary: i seen) (use risk_errors_Nil [OF assms] in auto)

section \<open>Properties\<close>

text \<open>C40: the gate is its description.  In whatever order the maps are visited, no error is reported exactly for
  the registers that satisfy the description: schema, method and thresholds, at least one risk, distinct
  well formed ids, all fields present, scores of 1 to 10 whose true product is the recorded number, no
  number above its initial one, a date of review, unresolved risks in the plan, and for a release none at
  or above a threshold.\<close>

theorem riskcheck_exact:
  assumes "\<And>xs. set (mo_fields mo xs) = set xs" "\<And>xs. set (mo_scores mo xs) = set xs"
  shows "validate_register mo g plan release = [] \<longleftrightarrow> register_ok g plan release"
  unfolding validate_register_def register_ok_def Let_def
  using all_errors_Nil [OF assms(1) assms(2), of "rg_policy g" plan release 0 "[]" "rg_risks g"] by (auto simp: not_le not_less)

definition sample_risk :: risk where
  "sample_risk = zero_risk\<lparr>rk_id := ''R-001'', rk_title := ''t'', rk_component := ''c'', rk_mode := ''m'', rk_effect := ''e'', rk_cause := ''c'',
     rk_controls := [''x''], rk_initial := 240, rk_severity := 8, rk_occurrence := 3, rk_detection := 3, rk_rpn := 72, rk_status := ''mitigating'',
     rk_owner := ''o'', rk_milestone := ''P1'', rk_mitigation := ''m'', rk_verification := ''v'', rk_refs := [''P1''], rk_reviewed := ''2026-09-05''\<rparr>"

definition sample_register :: register where
  "sample_register = \<lparr>rg_schema = 1, rg_method = ''FMEA'', rg_policy = \<lparr>rp_cadence = [], rp_high = 150, rp_critical = 9, rp_rule = []\<rparr>, rg_risks = [sample_risk]\<rparr>"

theorem riskcheck_exact_witness:
  "validate_register \<lparr>mo_fields = rev, mo_scores = (\<lambda>xs. xs)\<rparr> sample_register ''plan of R-001'' True = [] \<and>
   validate_register \<lparr>mo_fields = rev, mo_scores = (\<lambda>xs. xs)\<rparr> sample_register ''plan'' True \<noteq> []"
proof -
  have "register_ok sample_register ''plan of R-001'' True" "\<not> register_ok sample_register ''plan'' True" by code_simp+
  then show ?thesis using riskcheck_exact [of "\<lparr>mo_fields = rev, mo_scores = (\<lambda>xs. xs)\<rparr>" sample_register] by simp
qed

end
