(* ===== verification/Spec2Isabelle.thy ===== *)
theory Spec2Isabelle
  imports AtomicFile RouteOwnership Journal Platform Recovery PrivilegedHelper SocketOwners Install Observability Hosts Assurance Doctor EntryPoints Riskcheck
begin

text \<open>
  AntigravitiProxi is a local control plane written in Go.  It installs and supervises a \<^verbatim>\<open>sing-box\<close>
  process that carries the traffic of one agent program through a chosen VPN interface: as a local proxy, as
  a tunnel (a TUN interface, one routing table and a range of policy rules), or in a kernel-hard mode in
  which the agent runs inside its own network namespace.  Because these modes change the routing of the
  host, every change is journaled before it is made, undone after a crash, and confined to a reserved name
  space; the theories model this program and prove those promises.

  \<^bold>\<open>How the parts interact.\<close>  The entry (\<^verbatim>\<open>cmd/antigraviti-proxi\<close>) either dispatches to a helper that
  runs as root or creates the server of \<^verbatim>\<open>internal/app\<close>.  A handler of the server checks host, method and
  token, changes the settings or calls the manager of \<^verbatim>\<open>internal/proxy\<close>.  The manager holds the
  configuration and the one managed child; a tunnel start asks the preflight, begins a transaction in the
  journal, starts the child, waits for the interface and the owned listener and marks the journal active;
  stopping, a failed start and the next start of the program recover what the journal owns, if necessary
  through the privilege broker.  Health, attestation and egress evidence only observe.  The packages
  \<^verbatim>\<open>antigravity\<close> and \<^verbatim>\<open>diagnostics\<close> serve the handlers with the process inventory, the agent's settings, the hosts
  override, the log doctor and the diagnostics.

  \<^bold>\<open>The foundation.\<close>
    \<^item> \<^verbatim>\<open>Prelude\<close>: errors and results (\<^verbatim>\<open>gerr\<close>, \<^verbatim>\<open>res\<close> with \<^verbatim>\<open>Inl\<close> the error), collections of rewrite rules, and
      the interface \<^verbatim>\<open>set_merge\<close> of a set kept as a sorted slice.
    \<^item> \<^verbatim>\<open>Go_Strings\<close>, \<^verbatim>\<open>Go_Path\<close>, \<^verbatim>\<open>Go_Time\<close>, \<^verbatim>\<open>Go_Net\<close>, \<^verbatim>\<open>Go_Hash\<close>, \<^verbatim>\<open>Go_Regexp\<close>, \<^verbatim>\<open>Json\<close>: what the program
      uses of Go's standard library, with the laws the components need (prefix laws of cleaned paths, reading
      what was printed, decoding what was encoded).
    \<^item> \<^verbatim>\<open>World\<close>: the machine.  A \<^verbatim>\<open>world\<close> has the files the program owns, a clock tick, the kernel's state
      (a type parameter), the commands, signals and requests so far, and a trace of the file states passed; a
      \<^verbatim>\<open>machine\<close> gives faults, the clock, random bytes and the answers of the operating system.  Each system call
      takes one tick; the kernel's state may change by itself in between (\<^verbatim>\<open>m_drift\<close>).  Commands, signals and HTTP
      answers are parameters, so the theorems hold for whatever they answer.

  \<^bold>\<open>The components\<close>, paths below \<^verbatim>\<open>src/internal\<close> unless they begin with \<^verbatim>\<open>cmd\<close>.
    \<^item> \<^verbatim>\<open>AtomicFile\<close> (\<^verbatim>\<open>atomicfile/write.go\<close>, \<^verbatim>\<open>replace_unix.go\<close>): the transactional write.  The trace shows that at every moment the target is the old file or the
      complete synced new one.
    \<^item> \<^verbatim>\<open>RouteOwnership\<close> (\<^verbatim>\<open>proxy/routing_ownership.go\<close>, \<^verbatim>\<open>network_state.go\<close>): snapshots, deltas, the reserved name space, its merging and
      verification; the check after recovery means that the reserved part of the routing state is the old one.
    \<^item> \<^verbatim>\<open>Journal\<close> (\<^verbatim>\<open>proxy/network_state.go\<close>): the crash journal, its validation, JSON text, storing and loading with the fallback to the
      previous copy; what is loaded is valid, and damage of the primary file loses nothing.
    \<^item> \<^verbatim>\<open>Platform\<close> (\<^verbatim>\<open>proxy/network_state_{linux,windows,other}.go\<close>, \<^verbatim>\<open>process_identity_*.go\<close>): snapshots and removal of the owned
      objects by commands, process identity; which commands each of them runs.
    \<^item> \<^verbatim>\<open>Recovery\<close> (\<^verbatim>\<open>proxy/network_state.go\<close>): the transaction: begin, mark active, abort, recover, close.  The interface \<^verbatim>\<open>platform_contract\<close> says
      what a platform may run and write; it is interpreted by Linux, Windows and the others.
    \<^item> \<^verbatim>\<open>PrivilegedHelper\<close> (\<^verbatim>\<open>proxy/linux_privileged_helper_linux.go\<close>, \<^verbatim>\<open>tunnel_host_linux.go\<close>): what runs as root for recovery and setup, and the
      preparation of the host; its validation of paths and owners, its commands and their confinement.
    \<^item> \<^verbatim>\<open>SocketOwners\<close> (\<^verbatim>\<open>proxy/listener_linux.go\<close>, \<^verbatim>\<open>listener_windows.go\<close>, \<^verbatim>\<open>pid_attestation_*.go\<close>): reading \<^verbatim>\<open>/proc/net\<close>, socket inodes and owner tables.
    \<^item> \<^verbatim>\<open>Manager\<close> (\<^verbatim>\<open>proxy/manager.go\<close>, \<^verbatim>\<open>config_runtime.go\<close>): the configuration documents, the managed child, starting, stopping, polling.
    \<^item> \<^verbatim>\<open>Install\<close> (\<^verbatim>\<open>proxy/install_verified.go\<close>, \<^verbatim>\<open>manager.go\<close>): download, digest, extraction (interface \<^verbatim>\<open>extractor\<close>, interpreted for zip and tar),
      installation and reuse by recorded hash.
    \<^item> \<^verbatim>\<open>Observability\<close> (\<^verbatim>\<open>proxy/observability.go\<close>, \<^verbatim>\<open>pid_attestation.go\<close>, \<^verbatim>\<open>sensitive_file_*.go\<close>): the secret of the observation API, the
      connections of \<^verbatim>\<open>sing-box\<close>, route and PID attestation.
    \<^item> \<^verbatim>\<open>KernelIsolation\<close> (\<^verbatim>\<open>proxy/kernel_isolation_linux.go\<close>): the launch helper with its name space, packet filter, routing and forwarding
      switches, the child, the evidence, the manager side.  The nft script is refined to a rule list;
      the relation \<^verbatim>\<open>confined\<close> (interface \<^verbatim>\<open>world_relation\<close>) bounds what the helper runs and writes.
    \<^item> \<^verbatim>\<open>Tunnel\<close> (\<^verbatim>\<open>proxy/tunnel.go\<close>, \<^verbatim>\<open>tunnel_readiness.go\<close>, \<^verbatim>\<open>preflight.go\<close>, \<^verbatim>\<open>health.go\<close>): preflight, start, readiness, stop, roll-back, health.
    \<^item> \<^verbatim>\<open>Egress\<close> (\<^verbatim>\<open>proxy/egress.go\<close>): the public observers and what their answers prove.
    \<^item> \<^verbatim>\<open>Socks5\<close> (\<^verbatim>\<open>proxy/socks5.go\<close>, \<^verbatim>\<open>test.go\<close>): the handshake on bytes, and the connectivity tests.
    \<^item> \<^verbatim>\<open>Settings\<close> (\<^verbatim>\<open>app/config.go\<close>): defaults, migration, validation, saving.
    \<^item> \<^verbatim>\<open>Processes\<close> (\<^verbatim>\<open>antigravity/processes*.go\<close>): the inventory; the tree is the relation \<^verbatim>\<open>descends\<close>.
    \<^item> \<^verbatim>\<open>Hosts\<close> (\<^verbatim>\<open>antigravity/hosts.go\<close>): the emergency override, its removal and expiry; the regular expression against a reference.
    \<^item> \<^verbatim>\<open>Antigravity\<close> (\<^verbatim>\<open>antigravity/antigravity.go\<close>, \<^verbatim>\<open>userctx_*.go\<close>): the pinned end point and the identity and environment of a launch.
    \<^item> \<^verbatim>\<open>Diagnostics\<close> (\<^verbatim>\<open>diagnostics/*.go\<close>, \<^verbatim>\<open>platform/platform.go\<close>): interfaces, name comparison, redaction.
    \<^item> \<^verbatim>\<open>Doctor\<close> (\<^verbatim>\<open>antigravity/doctor.go\<close>, \<^verbatim>\<open>cmd/agent-doctor\<close>): the scan of the logs, cause, advice, exit code.
    \<^item> \<^verbatim>\<open>Assurance\<close> (\<^verbatim>\<open>app/attestation.go\<close>, \<^verbatim>\<open>attestation_cache.go\<close>): the composed report and its cache.
    \<^item> \<^verbatim>\<open>Events\<close> (\<^verbatim>\<open>app/events.go\<close>): the hub as interleaved steps, with the reachable states \<^verbatim>\<open>hub_run\<close>.
    \<^item> \<^verbatim>\<open>App\<close> (\<^verbatim>\<open>app/app.go\<close>, \<^verbatim>\<open>close.go\<close>): the server, the checks in front of every request, every handler, the automatic start.
    \<^item> \<^verbatim>\<open>ReadOnly\<close> (\<^verbatim>\<open>app/app.go\<close>): every report only reads, so a request without token or for a foreign host changes nothing.
    \<^item> \<^verbatim>\<open>Control\<close> (\<^verbatim>\<open>app/app.go\<close>): the states the control plane reaches (\<^verbatim>\<open>server_reach\<close>), their invariant, the configuration transaction.
    \<^item> \<^verbatim>\<open>ProxyStart\<close> (\<^verbatim>\<open>app/app.go\<close>): what a successful start of the proxy rests on.
    \<^item> \<^verbatim>\<open>EntryPoints\<close> (\<^verbatim>\<open>cmd/antigraviti-proxi/main.go\<close>, \<^verbatim>\<open>platform/browser.go\<close>): the dispatch to the helpers; the commands the program builds
      reach them with the same arguments.
    \<^item> \<^verbatim>\<open>Riskcheck\<close> (\<^verbatim>\<open>cmd/riskcheck/main.go\<close>): the gate on the risk register is its declarative description.

  \<^bold>\<open>Groups of lemmas.\<close>  Confinement (what is run and written by recovery, the two privileged helpers, the launch
  helper and the reports); durability (the atomic write, the journal and its fallback, closing only after
  verification); single ownership (one child, the reserved name space, sockets of a PID); evidence (what
  success of a start, an installation, a health report, an attestation rests on); security of the control
  plane (loopback settings, token, configuration transaction); exactness of pure routines against a
  specification (preflight, packet filter, block removal, process tree, redaction, risk gate); termination and
  progress (stopping, replay of events).  Some lemmas show where the code falls short of its intent, such as
  \<^verbatim>\<open>quarantine_hides_transaction\<close>, \<^verbatim>\<open>collision_deletes_foreign\<close>, \<^verbatim>\<open>config_rollback_lost\<close>, \<^verbatim>\<open>removal_leaves_metadata\<close>.

  \<^bold>\<open>Bounds and fuel.\<close>  A wait with a ticker is a number of rounds, enough for its time limit: 32 rounds of 250 ms
  for readiness (8 s), 125 of 40 ms for a kill (5 s), 34 of 150 ms for the listener of the proxy (5 s); the
  first and the last also look at the clock of the machine.  A context with deadline is a function of the tick; a wait
  bounded only by its context takes fuel and is proved to return once the context is done.  The name of a temporary file is tried 10000
  times as in Go.  The matcher of regular expressions terminates, as every round of a repetition must
  consume; the upward search for the repository is bounded by the length of the path.

  \<^bold>\<open>Conventions.\<close>  A Go string is a list of bytes.  Integers are unbounded where the code checks their range and
  wrapped where it does not.  A nil and an empty slice are the same except in JSON text.  Paths have the
  separator of Unix on every platform.  Goroutines that only look up or ask (egress observers, DNS and geo
  look-ups) run in one order; handlers are serialised as by the lifecycle lock, with the world changing freely
  between them.  Case folding in regular expressions is on ASCII letters.  An order of map iteration that
  matters is a parameter.

  \<^bold>\<open>Not modelled.\<close>  The web page (\<^verbatim>\<open>internal/webui\<close>) and its static files; the loop of the HTTP library, its
  response headers and the writing of JSON responses; TLS, dialing and the archive formats (parameters of the
  machine); \<^verbatim>\<open>replace_windows.go\<close>, one call into \<^verbatim>\<open>kernel32\<close>; \<^verbatim>\<open>CacheDir\<close>, which nothing calls; \<^verbatim>\<open>cmd/egress-probe\<close>, a test
  client; flags, signals and log lines of the commands and the summary that \<^verbatim>\<open>riskcheck\<close> prints.
\<close>

end
